(* ===== verification/Prelude.thy ===== *)
theory Prelude
  imports Complex_Main "HOL-Library.Sublist" "HOL-Library.Multiset"
begin

text \<open>
  Shared vocabulary of the development: the type of TypeScript strings, the JavaScript numbers
  a function may receive, the state-and-exception type that models an \<open>async\<close>
  function, the metric log, and the generic lemmas the component theories use.

  A TypeScript string is a sequence of UTF-16 code units, so \<^verbatim>\<open>length\<close> and
  \<^verbatim>\<open>slice\<close> count code units; \<open>jsstr\<close> is a list of their
  numbers. Identifiers, codes and messages that the program only compares are plain
  \<open>string\<close>s.

  An \<^verbatim>\<open>async\<close> function is a function of the world it runs in: it returns a value or
  throws, and leaves a new world. What happens between an \<^verbatim>\<open>await\<close> and its resumption
  (other requests, the passage of time) is part of the awaited action, so an action that is a
  parameter may change the world in any way.
\<close>

named_theorems act_simps
named_theorems model_defs

section \<open>Strings and numbers\<close>

type_synonym jsstr = "nat list"

definition js_lit :: "string \<Rightarrow> jsstr" where
  "js_lit s = map of_char s"

lemma length_js_lit [simp]: "length (js_lit s) = length s"
  by (simp add: js_lit_def)

lemma js_lit_inj: "js_lit a = js_lit b \<longleftrightarrow> a = b"
  by (simp add: js_lit_def inj_map_eq_map inj_on_def)

text \<open>
  \<^verbatim>\<open>Array.from(text)\<close> and the \<^verbatim>\<open>u\<close> flag of regular expressions read a string by code
  points: a high surrogate followed by a low surrogate is one character.
\<close>

definition is_high :: "nat \<Rightarrow> bool" where
  "is_high u \<longleftrightarrow> 55296 \<le> u \<and> u \<le> 56319"

definition is_low :: "nat \<Rightarrow> bool" where
  "is_low u \<longleftrightarrow> 56320 \<le> u \<and> u \<le> 57343"

fun code_points :: "jsstr \<Rightarrow> nat list" where
  "code_points [] = []"
| "code_points [u] = [u]"
| "code_points (u # v # s) =
     (if is_high u \<and> is_low v then (65536 + (u - 55296) * 1024 + (v - 56320)) # code_points s
      else u # code_points (v # s))"

text \<open>\<^verbatim>\<open>Buffer.byteLength(text, "utf8")\<close>: the UTF-8 length of each code point; a lone
  surrogate is encoded as the three bytes of U+FFFD.\<close>

definition utf8_width :: "nat \<Rightarrow> nat" where
  "utf8_width c = (if c < 128 then 1 else if c < 2048 then 2 else if c < 65536 then 3 else 4)"

definition utf8_length :: "jsstr \<Rightarrow> nat" where
  "utf8_length s = sum_list (map utf8_width (code_points s))"

text \<open>A JavaScript number as a callback may return it: finite, or one of the non-finite values.\<close>

datatype jsnum = JFinite rat | JNaN | JPosInf | JNegInf

definition MAX_SAFE_INTEGER :: int where
  "MAX_SAFE_INTEGER = 9007199254740991"

definition is_safe_integer :: "int \<Rightarrow> bool" where
  "is_safe_integer n \<longleftrightarrow> - MAX_SAFE_INTEGER \<le> n \<and> n \<le> MAX_SAFE_INTEGER"

section \<open>Actions: state and exceptions\<close>

type_synonym ('s, 'e, 'a) act = "'s \<Rightarrow> ('e + 'a) \<times> 's"

definition act_ret :: "'a \<Rightarrow> ('s, 'e, 'a) act" where
  "act_ret x = (\<lambda>s. (Inr x, s))"

definition act_throw :: "'e \<Rightarrow> ('s, 'e, 'a) act" where
  "act_throw e = (\<lambda>s. (Inl e, s))"

definition act_bind :: "('s, 'e, 'a) act \<Rightarrow> ('a \<Rightarrow> ('s, 'e, 'b) act) \<Rightarrow> ('s, 'e, 'b) act" where
  "act_bind m k = (\<lambda>s. case m s of (r, s') \<Rightarrow> (case r of Inl e \<Rightarrow> (Inl e, s') | Inr x \<Rightarrow> k x s'))"

text \<open>Statement sequencing, \<^verbatim>\<open>try\<close>/\<^verbatim>\<open>catch\<close> and \<^verbatim>\<open>try\<close>/\<^verbatim>\<open>finally\<close>: a
  \<^verbatim>\<open>finally\<close> block that throws replaces the outcome of the \<^verbatim>\<open>try\<close> block.\<close>

definition act_then :: "('s, 'e, 'a) act \<Rightarrow> ('s, 'e, 'b) act \<Rightarrow> ('s, 'e, 'b) act" where
  "act_then m k = act_bind m (\<lambda>_. k)"

definition act_catch :: "('s, 'e, 'a) act \<Rightarrow> ('e \<Rightarrow> ('s, 'e, 'a) act) \<Rightarrow> ('s, 'e, 'a) act" where
  "act_catch m h = (\<lambda>s. case m s of (r, s') \<Rightarrow> (case r of Inl e \<Rightarrow> h e s' | Inr x \<Rightarrow> (Inr x, s')))"

definition act_finally :: "('s, 'e, 'a) act \<Rightarrow> ('s, 'e, unit) act \<Rightarrow> ('s, 'e, 'a) act" where
  "act_finally m f = (\<lambda>s. case m s of (r, s') \<Rightarrow>
     (case f s' of (r', s'') \<Rightarrow> (case r' of Inl e \<Rightarrow> (Inl e, s'') | Inr _ \<Rightarrow> (r, s''))))"

definition act_modify :: "('s \<Rightarrow> 's) \<Rightarrow> ('s, 'e, unit) act" where
  "act_modify f = (\<lambda>s. (Inr (), f s))"

definition of_sum :: "'e + 'a \<Rightarrow> ('s, 'e, 'a) act" where
  "of_sum r = (case r of Inl e \<Rightarrow> act_throw e | Inr x \<Rightarrow> act_ret x)"

definition act_read :: "('s \<Rightarrow> 'a) \<Rightarrow> ('s, 'e, 'a) act" where
  "act_read f = (\<lambda>s. (Inr (f s), s))"

fun act_for :: "'x list \<Rightarrow> ('x \<Rightarrow> ('s, 'e, unit) act) \<Rightarrow> ('s, 'e, unit) act" where
  "act_for [] f = act_ret ()"
| "act_for (x # xs) f = act_then (f x) (act_for xs f)"

lemma act_ret_apply [simp, act_simps]: "act_ret x s = (Inr x, s)"
  by (simp add: act_ret_def)

lemma act_throw_apply [simp, act_simps]: "act_throw e s = (Inl e, s)"
  by (simp add: act_throw_def)

lemma act_modify_apply [simp, act_simps]: "act_modify f s = (Inr (), f s)"
  by (simp add: act_modify_def)

lemma act_read_apply [simp, act_simps]: "act_read f s = (Inr (f s), s)"
  by (simp add: act_read_def)

lemma act_bind_apply [act_simps]:
  "act_bind m k s = (case m s of (r, s') \<Rightarrow> (case r of Inl e \<Rightarrow> (Inl e, s') | Inr x \<Rightarrow> k x s'))"
  by (simp add: act_bind_def)

lemma act_then_apply [act_simps]:
  "act_then m k s = (case m s of (r, s') \<Rightarrow> (case r of Inl e \<Rightarrow> (Inl e, s') | Inr x \<Rightarrow> k s'))"
  by (simp add: act_then_def act_bind_def)

lemma act_catch_apply [act_simps]:
  "act_catch m h s = (case m s of (r, s') \<Rightarrow> (case r of Inl e \<Rightarrow> h e s' | Inr x \<Rightarrow> (Inr x, s')))"
  by (simp add: act_catch_def)

lemma act_finally_apply [act_simps]:
  "act_finally m f s = (case m s of (r, s') \<Rightarrow>
     (case f s' of (r', s'') \<Rightarrow> (case r' of Inl e \<Rightarrow> (Inl e, s'') | Inr _ \<Rightarrow> (r, s''))))"
  by (simp add: act_finally_def)

text \<open>Monad laws, so that a proof may re-associate a sequence of awaits.\<close>

lemma act_bind_ret_left [simp]: "act_bind (act_ret x) k = k x"
  by (rule ext) (simp add: act_bind_apply)

lemma act_bind_throw [simp]: "act_bind (act_throw e) k = act_throw e"
  by (rule ext) (simp add: act_bind_apply)

lemma act_bind_assoc: "act_bind (act_bind m k) h = act_bind m (\<lambda>x. act_bind (k x) h)"
  by (rule ext) (auto simp: act_bind_apply split: prod.splits sum.splits)

lemma act_bind_Inr_E:
  assumes "act_bind m k s = (Inr y, s'')"
  obtains x s' where "m s = (Inr x, s')" and "k x s' = (Inr y, s'')"
  using assms by (auto simp: act_bind_apply split: prod.splits sum.splits)

text \<open>
  A predicate of the world that an action keeps, whatever it returns. The composition rules
  below reduce \<open>keeps\<close> of a handler to \<open>keeps\<close> of the calls it makes.
\<close>

definition keeps :: "('s \<Rightarrow> bool) \<Rightarrow> ('s, 'e, 'a) act \<Rightarrow> bool" where
  "keeps P m \<longleftrightarrow> (\<forall>s. P s \<longrightarrow> P (snd (m s)))"

named_theorems keeps_intros

lemma keepsI: "(\<And>s. P s \<Longrightarrow> P (snd (m s))) \<Longrightarrow> keeps P m"
  by (simp add: keeps_def)

lemma keepsD: "keeps P m \<Longrightarrow> P s \<Longrightarrow> P (snd (m s))"
  by (simp add: keeps_def)

lemma keeps_ret [keeps_intros]: "keeps P (act_ret x)"
  by (simp add: keeps_def)

lemma keeps_throw [keeps_intros]: "keeps P (act_throw e)"
  by (simp add: keeps_def)

lemma keeps_read [keeps_intros]: "keeps P (act_read f)"
  by (simp add: keeps_def)

lemma keeps_bind [keeps_intros]:
  "keeps P m \<Longrightarrow> (\<And>x. keeps P (k x)) \<Longrightarrow> keeps P (act_bind m k)"
  by (fastforce simp: keeps_def act_bind_apply split: prod.splits sum.splits)

lemma keeps_then [keeps_intros]: "keeps P m \<Longrightarrow> keeps P k \<Longrightarrow> keeps P (act_then m k)"
  by (simp add: act_then_def keeps_bind)

lemma keeps_catch [keeps_intros]:
  "keeps P m \<Longrightarrow> (\<And>e. keeps P (h e)) \<Longrightarrow> keeps P (act_catch m h)"
  by (fastforce simp: keeps_def act_catch_apply split: prod.splits sum.splits)

lemma keeps_finally [keeps_intros]: "keeps P m \<Longrightarrow> keeps P f \<Longrightarrow> keeps P (act_finally m f)"
  by (fastforce simp: keeps_def act_finally_apply split: prod.splits sum.splits)

lemma keeps_if [keeps_intros]:
  "(b \<Longrightarrow> keeps P m) \<Longrightarrow> (\<not> b \<Longrightarrow> keeps P k) \<Longrightarrow> keeps P (if b then m else k)"
  by simp

lemma keeps_for [keeps_intros]: "(\<And>x. x \<in> set xs \<Longrightarrow> keeps P (f x)) \<Longrightarrow> keeps P (act_for xs f)"
  by (induction xs) (simp_all add: keeps_ret keeps_then)

section \<open>Lists\<close>

text \<open>\<^verbatim>\<open>[...new Set(xs)]\<close>: the distinct elements in the order of their first occurrence.\<close>

fun distinct_first :: "'a list \<Rightarrow> 'a list" where
  "distinct_first [] = []"
| "distinct_first (x # xs) = x # filter (\<lambda>y. y \<noteq> x) (distinct_first xs)"

lemma set_distinct_first [simp]: "set (distinct_first xs) = set xs"
  by (induction xs) auto

lemma distinct_distinct_first [simp]: "distinct (distinct_first xs)"
  by (induction xs) auto

text \<open>
  \<^verbatim>\<open>Array.prototype.sort\<close> with a comparator is a stable sort; for a comparator that is a
  total preorder, stability determines the result, which is the one of insertion from the
  right.
\<close>

fun insert_by :: "('a \<Rightarrow> 'a \<Rightarrow> bool) \<Rightarrow> 'a \<Rightarrow> 'a list \<Rightarrow> 'a list" where
  "insert_by le x [] = [x]"
| "insert_by le x (y # ys) = (if le x y then x # y # ys else y # insert_by le x ys)"

fun sort_by :: "('a \<Rightarrow> 'a \<Rightarrow> bool) \<Rightarrow> 'a list \<Rightarrow> 'a list" where
  "sort_by le [] = []"
| "sort_by le (x # xs) = insert_by le x (sort_by le xs)"

lemma mset_insert_by [simp]: "mset (insert_by le x xs) = add_mset x (mset xs)"
  by (induction xs) auto

lemma mset_sort_by [simp]: "mset (sort_by le xs) = mset xs"
  by (induction xs) auto

lemma set_sort_by [simp]: "set (sort_by le xs) = set xs"
  by (metis mset_sort_by set_mset_mset)

lemma length_sort_by [simp]: "length (sort_by le xs) = length xs"
  by (metis mset_sort_by size_mset)

lemma set_insert_by [simp]: "set (insert_by le x xs) = insert x (set xs)"
  by (induction xs) auto

lemma sorted_wrt_insert_by:
  assumes total: "\<And>x y. le x y \<or> le y x" and trans: "\<And>x y z. le x y \<Longrightarrow> le y z \<Longrightarrow> le x z"
  shows "sorted_wrt le xs \<Longrightarrow> sorted_wrt le (insert_by le x xs)"
proof (induction xs)
  case Nil
  then show ?case by simp
next
  case (Cons y ys)
  show ?case
  proof (cases "le x y")
    case True
    with Cons.prems show ?thesis by (auto intro: trans)
  next
    case False
    then have "le y x" using total by blast
    with False Cons show ?thesis by auto
  qed
qed

lemma sorted_wrt_sort_by:
  assumes "\<And>x y. le x y \<or> le y x" and "\<And>x y z. le x y \<Longrightarrow> le y z \<Longrightarrow> le x z"
  shows "sorted_wrt le (sort_by le xs)"
  by (induction xs) (simp_all add: sorted_wrt_insert_by [of le, OF assms])

lemma sort_by_sorted: "sorted_wrt le xs \<Longrightarrow> sort_by le xs = xs"
proof (induction xs)
  case (Cons x xs)
  then show ?case by (cases xs) auto
qed simp

text \<open>\<^verbatim>\<open>xs.map(f)\<close> for a callback that may throw: the first exception ends the call.\<close>

fun map_err :: "('a \<Rightarrow> 'e + 'b) \<Rightarrow> 'a list \<Rightarrow> 'e + 'b list" where
  "map_err f [] = Inr []"
| "map_err f (x # xs) =
     (case f x of Inl e \<Rightarrow> Inl e
      | Inr y \<Rightarrow> (case map_err f xs of Inl e \<Rightarrow> Inl e | Inr ys \<Rightarrow> Inr (y # ys)))"

lemma map_err_total: "(\<And>x. x \<in> set xs \<Longrightarrow> f x = Inr (g x)) \<Longrightarrow> map_err f xs = Inr (map g xs)"
  by (induction xs) simp_all

text \<open>The elements whose key did not occur before, as \<^verbatim>\<open>filter\<close> with a set of seen keys.\<close>

fun filter_unseen :: "('a \<Rightarrow> 'k) \<Rightarrow> 'k set \<Rightarrow> 'a list \<Rightarrow> 'a list" where
  "filter_unseen key seen [] = []"
| "filter_unseen key seen (x # xs) =
     (if key x \<in> seen then filter_unseen key seen xs
      else x # filter_unseen key (insert (key x) seen) xs)"

lemma set_filter_unseen_subset: "set (filter_unseen key seen xs) \<subseteq> set xs"
  by (induction key seen xs rule: filter_unseen.induct) auto

lemma filter_unseen_keys: "key ` set (filter_unseen key seen xs) = key ` set xs - seen"
  by (induction key seen xs rule: filter_unseen.induct) auto

lemma distinct_filter_unseen: "distinct (map key (filter_unseen key seen xs))"
proof (induction key seen xs rule: filter_unseen.induct)
  case (2 key seen x xs)
  then show ?case using filter_unseen_keys [of key "insert (key x) seen" xs] by auto
qed simp

lemma filter_unseen_distinct:
  "distinct (map key xs) \<Longrightarrow> key ` set xs \<inter> seen = {} \<Longrightarrow> filter_unseen key seen xs = xs"
  by (induction key seen xs rule: filter_unseen.induct) auto

end
