(* ===== verification/ProviderTypes.thy ===== *)
theory ProviderTypes
  imports Prelude
begin

text \<open>
  The data of the provider subsystem (\<^verbatim>\<open>providers/provider.types.ts\<close>), the application
  error class (\<^verbatim>\<open>shared/errors/app-error.ts\<close>), the exceptions a function of the backend
  can throw, and the metric helpers of \<^verbatim>\<open>providers/provider-metrics.ts\<close>.

  A metric update is modelled by the call the code makes on the metrics registry: the log
  \<open>metric_ops\<close> of the world holds these calls in order, with their labels.
\<close>

section \<open>Provider data\<close>

datatype ProviderId = groq | gemini | third

definition PROVIDER_IDS :: "ProviderId list" where
  "PROVIDER_IDS = [groq, gemini, third]"

definition ENABLED_PRODUCTION_PROVIDER_IDS :: "ProviderId list" where
  "ENABLED_PRODUCTION_PROVIDER_IDS = [groq]"

datatype ProviderMessageRole = RoleSystem | RoleUser | RoleAssistant

datatype ProviderFinishReason =
  FinishStop | FinishLength | FinishContentFilter | FinishToolCalls | FinishError

datatype ProviderHealthStatus = healthy | degraded | unhealthy

datatype ProviderErrorCategory =
  cat_timeout | cat_rate_limit | cat_authentication | cat_invalid_request
| cat_unavailable | cat_provider_error

record ProviderMessage =
  pm_role :: ProviderMessageRole
  pm_content :: jsstr

record TokenUsage =
  inputTokens :: int
  outputTokens :: int
  totalTokens :: int

text \<open>The abort signal of a request is a flag of the world that other code may set at any
  await, hence a function that reads it.\<close>

record 's CompletionRequest =
  cr_requestId :: string
  cr_providerId :: ProviderId
  cr_model :: string
  cr_messages :: "ProviderMessage list"
  cr_maxOutputTokens :: int
  cr_abortSignal :: "('s \<Rightarrow> bool) option"

record CompletionResult =
  res_providerId :: ProviderId
  res_model :: string
  res_outputText :: jsstr
  res_finishReason :: ProviderFinishReason
  res_usage :: "TokenUsage option"
  res_latencyMs :: int
  res_estimatedCostUsd :: "rat option"

datatype StreamChunk =
  ChunkToken jsstr
| ChunkDone ProviderFinishReason "TokenUsage option" int "rat option"

record ProviderCapabilities =
  cap_providerId :: ProviderId
  cap_supportedModels :: "string list"
  cap_supportsStreaming :: bool
  cap_supportsNonStreaming :: bool
  cap_maxInputTokens :: int
  cap_maxOutputTokens :: int

record ProviderHealth =
  ph_providerId :: ProviderId
  ph_status :: ProviderHealthStatus
  ph_checkedAt :: int
  ph_latencyMs :: "int option"
  ph_errorCategory :: "ProviderErrorCategory option"

record ProviderError =
  pe_category :: ProviderErrorCategory
  pe_providerId :: ProviderId
  pe_message :: string
  pe_retryable :: bool
  pe_model :: "string option"
  pe_statusCode :: "int option"
  pe_providerRequestId :: "string option"
  pe_latencyMs :: "int option"

section \<open>Exceptions\<close>

text \<open>The record the ordered fallback keeps of each candidate it considered
  (\<^verbatim>\<open>providers/provider-fallback.ts\<close>); \<^verbatim>\<open>AllProvidersUnavailableError\<close> carries
  the list.\<close>

datatype ProviderFallbackAttemptStatus = fa_succeeded | fa_failed | fa_skipped_open_circuit

record ProviderFallbackAttemptMetadata =
  fam_providerId :: ProviderId
  fam_model :: string
  fam_status :: ProviderFallbackAttemptStatus
  fam_attemptNumber :: nat
  fam_errorCategory :: "ProviderErrorCategory option"
  fam_statusCode :: "int option"

text \<open>The \<^verbatim>\<open>details\<close> of an application error, as far as the modelled code sets them.\<close>

datatype AppErrorDetails =
  NoDetails
| RetryAfterSeconds int
| PolicyDetails int "string list"
| FieldErrors "(string \<times> string) list"

record AppError =
  ae_statusCode :: nat
  ae_code :: string
  ae_message :: string
  ae_details :: AppErrorDetails

definition app_error :: "nat \<Rightarrow> string \<Rightarrow> string \<Rightarrow> AppError" where
  "app_error st c m = \<lparr>ae_statusCode = st, ae_code = c, ae_message = m, ae_details = NoDetails\<rparr>"

text \<open>
  What can be thrown: an \<^verbatim>\<open>AppError\<close>, an object with \<^verbatim>\<open>isProviderError: true\<close>
  (the provider error classes, of which \<^verbatim>\<open>AllProvidersUnavailableError\<close> also holds
  the request id and the attempts), BullMQ's \<^verbatim>\<open>UnrecoverableError\<close>, a MongoDB duplicate-key
  error (code 11000), or any other \<^verbatim>\<open>Error\<close>.
\<close>

datatype exn =
  ExnApp AppError
| ExnProvider ProviderError
| ExnAllUnavailable ProviderError string "ProviderFallbackAttemptMetadata list"
| ExnUnrecoverable string
| ExnDuplicateKey
| ExnOther string

section \<open>Metric calls\<close>

datatype metric_op =
  MInc string "string list"
| MSet string "string list" int
| MObserve string "string list" rat

record obs =
  metric_ops :: "metric_op list"

definition log_metric :: "metric_op \<Rightarrow> 'x obs_scheme \<Rightarrow> 'x obs_scheme" where
  "log_metric m w = w\<lparr>metric_ops := metric_ops w @ [m]\<rparr>"

lemma metric_ops_log_metric [simp]: "metric_ops (log_metric m w) = metric_ops w @ [m]"
  by (simp add: log_metric_def)

lemma more_log_metric [simp]: "obs.more (log_metric m w) = obs.more w"
  by (simp add: log_metric_def)

fun provider_label :: "ProviderId \<Rightarrow> string" where
  "provider_label groq = ''groq''"
| "provider_label gemini = ''gemini''"
| "provider_label third = ''third''"

fun category_label :: "ProviderErrorCategory \<Rightarrow> string" where
  "category_label cat_timeout = ''timeout''"
| "category_label cat_rate_limit = ''rate_limit''"
| "category_label cat_authentication = ''authentication''"
| "category_label cat_invalid_request = ''invalid_request''"
| "category_label cat_unavailable = ''unavailable''"
| "category_label cat_provider_error = ''provider_error''"

definition isEnabledProvider :: "ProviderId \<Rightarrow> bool" where
  "isEnabledProvider p \<longleftrightarrow> (\<exists>q \<in> set ENABLED_PRODUCTION_PROVIDER_IDS. q = p)"

lemma isEnabledProvider_iff [simp]: "isEnabledProvider p \<longleftrightarrow> p = groq"
  by (auto simp: isEnabledProvider_def ENABLED_PRODUCTION_PROVIDER_IDS_def)

datatype ProviderOutcome = po_succeeded | po_failed | po_interrupted
datatype ProviderRetryOutcome = ro_scheduled | ro_exhausted
datatype ProviderFallbackOutcome =
  fo_attempted | fo_succeeded | fo_failed | fo_all_unavailable | fo_skipped_open_circuit

fun outcome_label :: "ProviderOutcome \<Rightarrow> string" where
  "outcome_label po_succeeded = ''succeeded''"
| "outcome_label po_failed = ''failed''"
| "outcome_label po_interrupted = ''interrupted''"

fun retry_outcome_label :: "ProviderRetryOutcome \<Rightarrow> string" where
  "retry_outcome_label ro_scheduled = ''scheduled''"
| "retry_outcome_label ro_exhausted = ''exhausted''"

fun fallback_outcome_label :: "ProviderFallbackOutcome \<Rightarrow> string" where
  "fallback_outcome_label fo_attempted = ''attempted''"
| "fallback_outcome_label fo_succeeded = ''succeeded''"
| "fallback_outcome_label fo_failed = ''failed''"
| "fallback_outcome_label fo_all_unavailable = ''all_unavailable''"
| "fallback_outcome_label fo_skipped_open_circuit = ''skipped_open_circuit''"

definition recordProviderExecution ::
  "ProviderId \<Rightarrow> ProviderOutcome \<Rightarrow> rat \<Rightarrow> ProviderErrorCategory option \<Rightarrow>
   'x obs_scheme \<Rightarrow> 'x obs_scheme" where
  "recordProviderExecution p oc d cat w =
     (if \<not> isEnabledProvider p then w
      else let w1 = log_metric (MInc ''providerRequestsTotal'' [provider_label p, outcome_label oc]) w;
               w2 = log_metric (MObserve ''providerRequestDurationSeconds''
                      [provider_label p, outcome_label oc] (max 0 d / 1000)) w1
           in case cat of
                Some c \<Rightarrow> if oc = po_failed
                   then log_metric (MInc ''providerErrorsTotal'' [provider_label p, category_label c]) w2
                   else w2
              | None \<Rightarrow> w2)"

definition recordProviderRetry ::
  "ProviderId \<Rightarrow> ProviderErrorCategory \<Rightarrow> ProviderRetryOutcome \<Rightarrow> 'x obs_scheme \<Rightarrow> 'x obs_scheme" where
  "recordProviderRetry p c oc w =
     (if \<not> isEnabledProvider p then w
      else log_metric (MInc ''providerRetriesTotal''
             [provider_label p, category_label c, retry_outcome_label oc]) w)"

definition recordProviderFallback ::
  "ProviderId \<Rightarrow> ProviderFallbackOutcome \<Rightarrow> 'x obs_scheme \<Rightarrow> 'x obs_scheme" where
  "recordProviderFallback p oc w =
     (if \<not> isEnabledProvider p then w
      else log_metric (MInc ''providerFallbacksTotal''
             [provider_label p, fallback_outcome_label oc]) w)"

datatype ProviderCircuitState = CLOSED | OPEN | HALF_OPEN

fun circuit_label :: "ProviderCircuitState \<Rightarrow> string" where
  "circuit_label CLOSED = ''CLOSED''"
| "circuit_label OPEN = ''OPEN''"
| "circuit_label HALF_OPEN = ''HALF_OPEN''"

definition recordProviderCircuitState ::
  "ProviderId \<Rightarrow> ProviderCircuitState \<Rightarrow> 'x obs_scheme \<Rightarrow> 'x obs_scheme" where
  "recordProviderCircuitState p st w =
     (if \<not> isEnabledProvider p then w
      else fold (\<lambda>c. log_metric (MSet ''providerCircuitState'' [provider_label p, circuit_label c]
                    (if c = st then 1 else 0))) [CLOSED, OPEN, HALF_OPEN] w)"

definition recordProviderCircuitTransition ::
  "ProviderId \<Rightarrow> ProviderCircuitState \<Rightarrow> ProviderCircuitState \<Rightarrow> 'x obs_scheme \<Rightarrow> 'x obs_scheme" where
  "recordProviderCircuitTransition p f t w =
     (if \<not> isEnabledProvider p \<or> f = t then w
      else recordProviderCircuitState p t
             (log_metric (MInc ''providerCircuitTransitionsTotal''
                [provider_label p, circuit_label f, circuit_label t]) w))"

datatype ProviderHealthState = HEALTHY | UNHEALTHY | UNKNOWN

fun health_label :: "ProviderHealthState \<Rightarrow> string" where
  "health_label HEALTHY = ''HEALTHY''"
| "health_label UNHEALTHY = ''UNHEALTHY''"
| "health_label UNKNOWN = ''UNKNOWN''"

definition recordProviderHealthState ::
  "ProviderId \<Rightarrow> ProviderHealthState \<Rightarrow> 'x obs_scheme \<Rightarrow> 'x obs_scheme" where
  "recordProviderHealthState p st w =
     (if \<not> isEnabledProvider p then w
      else fold (\<lambda>h. log_metric (MSet ''providerHealthState'' [provider_label p, health_label h]
                    (if h = st then 1 else 0))) [HEALTHY, UNHEALTHY, UNKNOWN] w)"

text \<open>The metric helpers write the log only.\<close>

lemma more_recordProviderRetry [simp]: "obs.more (recordProviderRetry p c oc w) = obs.more w"
  by (simp add: recordProviderRetry_def)

lemma more_recordProviderFallback [simp]: "obs.more (recordProviderFallback p oc w) = obs.more w"
  by (simp add: recordProviderFallback_def)

lemma more_recordProviderCircuitState [simp]:
  "obs.more (recordProviderCircuitState p st w) = obs.more w"
  by (simp add: recordProviderCircuitState_def)

lemma more_recordProviderCircuitTransition [simp]:
  "obs.more (recordProviderCircuitTransition p f t w) = obs.more w"
  by (simp add: recordProviderCircuitTransition_def)

lemma more_recordProviderHealthState [simp]:
  "obs.more (recordProviderHealthState p st w) = obs.more w"
  by (simp add: recordProviderHealthState_def)

text \<open>
  The value a gauge shows is the one of the last \<^verbatim>\<open>set\<close> call on its labels.
\<close>

fun gauge_value :: "string \<Rightarrow> string list \<Rightarrow> metric_op list \<Rightarrow> int option" where
  "gauge_value n ls [] = None"
| "gauge_value n ls (m # ms) =
     (case gauge_value n ls ms of
        Some v \<Rightarrow> Some v
      | None \<Rightarrow> (case m of MSet n' ls' v \<Rightarrow> if n' = n \<and> ls' = ls then Some v else None | _ \<Rightarrow> None))"

lemma gauge_value_snoc:
  "gauge_value n ls (ms @ [m]) =
     (case m of MSet n' ls' v \<Rightarrow> if n' = n \<and> ls' = ls then Some v else gauge_value n ls ms
      | _ \<Rightarrow> gauge_value n ls ms)"
  by (induction ms) (auto split: metric_op.splits option.splits)

end
