(* ===== verification/ProviderRetry.thy ===== *)
theory ProviderRetry
  imports ProviderTypes
begin

text \<open>
  The retry policy of \<^verbatim>\<open>providers/provider-retry.policy.ts\<close>: which provider errors are
  transient, how long to wait, and the loop that runs an operation at most
  \<^verbatim>\<open>maxAttempts\<close> times. \<^verbatim>\<open>Math.random\<close> and \<^verbatim>\<open>setTimeout\<close> are the
  fields of \<open>js_env\<close>: the code that uses them takes them as a parameter.
\<close>

record 's js_env =
  math_random :: "('s, exn, rat) act"
  set_timeout :: "int \<Rightarrow> ('s \<Rightarrow> bool) option \<Rightarrow> ('s, exn, bool) act"
  \<comment> \<open>True when the timer fired, False when the abort event came first\<close>

record ProviderRetryPolicy =
  maxAttempts :: int
  baseDelayMs :: int
  maxDelayMs :: int
  maxJitterMs :: int

definition DEFAULT_PROVIDER_RETRY_POLICY :: ProviderRetryPolicy where
  "DEFAULT_PROVIDER_RETRY_POLICY =
     \<lparr>maxAttempts = 3, baseDelayMs = 500, maxDelayMs = 4000, maxJitterMs = 250\<rparr>"

definition TRANSIENT_PROVIDER_STATUS_CODES :: "int set" where
  "TRANSIENT_PROVIDER_STATUS_CODES = {500, 502, 503, 504}"

record 's ProviderRetryOptions =
  rto_providerId :: ProviderId
  rto_model :: "string option"
  rto_policy :: "ProviderRetryPolicy option"
  rto_signal :: "('s \<Rightarrow> bool) option"
  rto_calculateJitterMs :: "(int \<Rightarrow> ('s, exn, jsnum) act) option"
  rto_sleep :: "(int \<Rightarrow> ('s \<Rightarrow> bool) option \<Rightarrow> ('s, exn, unit) act) option"

definition ProviderRetryAbortedError :: "ProviderId \<Rightarrow> string option \<Rightarrow> exn" where
  "ProviderRetryAbortedError p m = ExnProvider
     \<lparr>pe_category = cat_timeout, pe_providerId = p, pe_message = ''Provider retry was aborted.'',
      pe_retryable = False, pe_model = m, pe_statusCode = None, pe_providerRequestId = None,
      pe_latencyMs = None\<rparr>"

fun isProviderError :: "exn \<Rightarrow> ProviderError option" where
  "isProviderError (ExnProvider e) = Some e"
| "isProviderError (ExnAllUnavailable e _ _) = Some e"
| "isProviderError _ = None"

definition shouldRetryProviderError :: "ProviderError \<Rightarrow> bool" where
  "shouldRetryProviderError e =
     (if \<not> pe_retryable e then False
      else if pe_category e = cat_authentication \<or> pe_category e = cat_invalid_request then False
      else if pe_category e = cat_timeout \<or> pe_category e = cat_rate_limit
              \<or> pe_statusCode e = Some 429 \<or> pe_category e = cat_unavailable then True
      else pe_category e = cat_provider_error
           \<and> (case pe_statusCode e of None \<Rightarrow> False
              | Some c \<Rightarrow> c \<in> TRANSIENT_PROVIDER_STATUS_CODES))"

definition assertValidRetryPolicy :: "ProviderRetryPolicy \<Rightarrow> bool" where
  "assertValidRetryPolicy p \<longleftrightarrow>
     \<not> (\<not> is_safe_integer (maxAttempts p) \<or> maxAttempts p < 1
        \<or> \<not> is_safe_integer (baseDelayMs p) \<or> baseDelayMs p < 0
        \<or> \<not> is_safe_integer (maxDelayMs p) \<or> maxDelayMs p < baseDelayMs p
        \<or> \<not> is_safe_integer (maxJitterMs p) \<or> maxJitterMs p < 0)"

definition invalid_retry_policy :: exn where
  "invalid_retry_policy = ExnOther ''Invalid provider retry policy.''"

fun clampJitterMs :: "jsnum \<Rightarrow> int \<Rightarrow> int" where
  "clampJitterMs (JFinite q) m = max 0 (min \<lfloor>q\<rfloor> m)"
| "clampJitterMs _ m = 0"

definition defaultJitterMs :: "'s js_env \<Rightarrow> int \<Rightarrow> ('s, exn, jsnum) act" where
  "defaultJitterMs env m =
     act_bind (math_random env) (\<lambda>r. act_ret (JFinite (of_int \<lfloor>r * of_int m\<rfloor>)))"

definition calculateRetryDelayMs ::
  "int \<Rightarrow> ProviderRetryPolicy \<Rightarrow> (int \<Rightarrow> ('s, exn, jsnum) act) \<Rightarrow> ('s, exn, int) act" where
  "calculateRetryDelayMs failedAttempt policy jitter =
     (if \<not> assertValidRetryPolicy policy then act_throw invalid_retry_policy
      else let exponentialDelayMs = min (baseDelayMs policy * 2 ^ nat (failedAttempt - 1))
                                        (maxDelayMs policy)
           in act_bind (jitter (maxJitterMs policy))
                (\<lambda>j. act_ret (exponentialDelayMs + clampJitterMs j (maxJitterMs policy))))"

definition aborted :: "('s \<Rightarrow> bool) option \<Rightarrow> 's \<Rightarrow> bool" where
  "aborted sig s \<longleftrightarrow> (case sig of None \<Rightarrow> False | Some f \<Rightarrow> f s)"

definition throwIfAborted :: "('s, 'z) ProviderRetryOptions_scheme \<Rightarrow> ('s, exn, unit) act" where
  "throwIfAborted opts s =
     (if aborted (rto_signal opts) s
      then (Inl (ProviderRetryAbortedError (rto_providerId opts) (rto_model opts)), s)
      else (Inr (), s))"

definition sleep_default :: "'s js_env \<Rightarrow> int \<Rightarrow> ('s \<Rightarrow> bool) option \<Rightarrow> ('s, exn, unit) act" where
  "sleep_default env d sig s =
     (if aborted sig s then (Inl (ExnOther ''aborted''), s)
      else act_bind (set_timeout env d sig)
             (\<lambda>fired. if fired then act_ret () else act_throw (ExnOther ''aborted'')) s)"

definition waitForRetryDelay ::
  "'s js_env \<Rightarrow> int \<Rightarrow> 's ProviderRetryOptions \<Rightarrow> ('s, exn, unit) act" where
  "waitForRetryDelay env d opts =
     act_then (throwIfAborted opts)
       (act_then
          (act_catch
             ((case rto_sleep opts of Some f \<Rightarrow> f | None \<Rightarrow> sleep_default env) d (rto_signal opts))
             (\<lambda>_. act_throw (ProviderRetryAbortedError (rto_providerId opts) (rto_model opts))))
          (throwIfAborted opts))"

text \<open>The \<^verbatim>\<open>for\<close> loop from a given attempt on; running past \<^verbatim>\<open>maxAttempts\<close>
  reaches the \<^verbatim>\<open>throw\<close> after the loop.\<close>

function retry_loop ::
  "('x obs_scheme) js_env \<Rightarrow> (int \<Rightarrow> ('x obs_scheme, exn, 'a) act) \<Rightarrow>
   ('x obs_scheme) ProviderRetryOptions \<Rightarrow> ProviderRetryPolicy \<Rightarrow> int \<Rightarrow>
   ('x obs_scheme, exn, 'a) act" where
  "retry_loop env operation opts policy attempt =
     (if attempt > maxAttempts policy
      then act_throw (ProviderRetryAbortedError (rto_providerId opts) (rto_model opts))
      else act_then (throwIfAborted opts)
             (act_catch (operation attempt)
                (\<lambda>e. case isProviderError e of
                   None \<Rightarrow> act_throw e
                 | Some pe \<Rightarrow>
                     if \<not> shouldRetryProviderError pe then act_throw e
                     else if attempt \<ge> maxAttempts policy
                     then act_then
                            (if attempt > 1
                             then act_modify (recordProviderRetry (rto_providerId opts)
                                    (pe_category pe) ro_exhausted)
                             else act_ret ())
                            (act_throw e)
                     else act_then
                            (act_modify (recordProviderRetry (rto_providerId opts)
                               (pe_category pe) ro_scheduled))
                            (act_bind
                               (calculateRetryDelayMs attempt policy
                                  (case rto_calculateJitterMs opts of Some f \<Rightarrow> f
                                   | None \<Rightarrow> defaultJitterMs env))
                               (\<lambda>delayMs. act_then (waitForRetryDelay env delayMs opts)
                                  (retry_loop env operation opts policy (attempt + 1)))))))"
  by pat_completeness auto
termination
  by (relation "measure (\<lambda>(env, operation, opts, policy, attempt). nat (maxAttempts policy + 1 - attempt))") auto

declare retry_loop.simps [simp del]

definition retryProviderOperation ::
  "('x obs_scheme) js_env \<Rightarrow> (int \<Rightarrow> ('x obs_scheme, exn, 'a) act) \<Rightarrow>
   ('x obs_scheme) ProviderRetryOptions \<Rightarrow> ('x obs_scheme, exn, 'a) act" where
  "retryProviderOperation env operation opts =
     (let policy = (case rto_policy opts of Some p \<Rightarrow> p | None \<Rightarrow> DEFAULT_PROVIDER_RETRY_POLICY)
      in if \<not> assertValidRetryPolicy policy then act_throw invalid_retry_policy
         else retry_loop env operation opts policy 1)"

section \<open>Delays\<close>

lemma clampJitterMs_range: "0 \<le> m \<Longrightarrow> 0 \<le> clampJitterMs j m \<and> clampJitterMs j m \<le> m"
  by (cases j) auto

lemma assertValid_maxAttempts: "assertValidRetryPolicy p \<Longrightarrow> 1 \<le> maxAttempts p"
  by (auto simp: assertValidRetryPolicy_def)

lemma assertValid_default: "assertValidRetryPolicy DEFAULT_PROVIDER_RETRY_POLICY"
  by (simp add: assertValidRetryPolicy_def DEFAULT_PROVIDER_RETRY_POLICY_def is_safe_integer_def
      MAX_SAFE_INTEGER_def)

lemma calculateRetryDelayMs_value:
  assumes "calculateRetryDelayMs n p jitter s = (Inr d, s')"
  obtains j where "jitter (maxJitterMs p) s = (Inr j, s')" and "assertValidRetryPolicy p"
    and "d = min (baseDelayMs p * 2 ^ nat (n - 1)) (maxDelayMs p) + clampJitterMs j (maxJitterMs p)"
  using assms
  by (auto simp: calculateRetryDelayMs_def Let_def act_simps split: if_splits prod.splits sum.splits)

text \<open>
  Whatever the jitter callback returns (a negative, fractional, infinite value or NaN), a
  computed retry delay is at least the capped exponential backoff of the failed attempt, hence
  non-negative, and at most \<^verbatim>\<open>maxDelayMs + maxJitterMs\<close>.
\<close>

theorem retry_delay_bounds:
  assumes "calculateRetryDelayMs n p jitter s = (Inr d, s')"
  shows "min (baseDelayMs p * 2 ^ nat (n - 1)) (maxDelayMs p) \<le> d
         \<and> 0 \<le> d \<and> d \<le> maxDelayMs p + maxJitterMs p"
proof -
  from assms obtain j where valid: "assertValidRetryPolicy p"
    and d: "d = min (baseDelayMs p * 2 ^ nat (n - 1)) (maxDelayMs p) + clampJitterMs j (maxJitterMs p)"
    by (rule calculateRetryDelayMs_value)
  from valid have "0 \<le> maxJitterMs p" and "0 \<le> baseDelayMs p" and "baseDelayMs p \<le> maxDelayMs p"
    by (auto simp: assertValidRetryPolicy_def)
  moreover from \<open>0 \<le> baseDelayMs p\<close> have "0 \<le> baseDelayMs p * 2 ^ nat (n - 1)" by simp
  ultimately show ?thesis
    using clampJitterMs_range [of "maxJitterMs p" j] d by auto
qed

theorem retry_delay_bounds_witness:
  "calculateRetryDelayMs 2 DEFAULT_PROVIDER_RETRY_POLICY (\<lambda>_. act_ret (JFinite 1000)) ()
     = (Inr 1250, ()) \<and> (0::int) \<le> 1250 \<and> (1250::int) \<le> 4000 + 250"
proof -
  have e: "calculateRetryDelayMs 2 DEFAULT_PROVIDER_RETRY_POLICY (\<lambda>_. act_ret (JFinite 1000)) ()
     = (Inr 1250, ())"
    using assertValid_default
    by (simp add: calculateRetryDelayMs_def Let_def act_simps)
       (simp add: DEFAULT_PROVIDER_RETRY_POLICY_def)
  show ?thesis using retry_delay_bounds [OF e] e by (simp add: DEFAULT_PROVIDER_RETRY_POLICY_def)
qed

section \<open>The retry loop\<close>

text \<open>An outcome the loop tries again: a provider error that the policy classifies as
  transient.\<close>

definition transient_exn :: "exn \<Rightarrow> bool" where
  "transient_exn e \<longleftrightarrow>
     (case isProviderError e of None \<Rightarrow> False | Some pe \<Rightarrow> shouldRetryProviderError pe)"

definition transient :: "exn + 'a \<Rightarrow> bool" where
  "transient r \<longleftrightarrow> (case r of Inr _ \<Rightarrow> False | Inl e \<Rightarrow> transient_exn e)"

lemma transient_simps [simp]: "transient (Inl e) = transient_exn e" "\<not> transient (Inr x)"
  by (simp_all add: transient_def)

text \<open>A call counter \<open>c\<close> that the metric log does not hold.\<close>

abbreviation counts :: "('x obs_scheme \<Rightarrow> nat) \<Rightarrow> bool" where
  "counts c \<equiv> (\<forall>w f. c (w\<lparr>metric_ops := f\<rparr>) = c w)"

lemma counts_recordProviderRetry [simp]: "counts c \<Longrightarrow> c (recordProviderRetry p k oc w) = c w"
  by (simp add: recordProviderRetry_def log_metric_def)

text \<open>
  The callbacks the loop uses between two attempts: they return, and do not count as calls of
  the operation. \<open>quiet\<close> states it of one callback.
\<close>

definition quiet :: "('s \<Rightarrow> nat) \<Rightarrow> ('s, 'e, 'a) act \<Rightarrow> bool" where
  "quiet c m \<longleftrightarrow> (\<forall>s. c (snd (m s)) = c s)"

definition returns :: "('s, 'e, 'a) act \<Rightarrow> bool" where
  "returns m \<longleftrightarrow> (\<forall>s. \<exists>x s'. m s = (Inr x, s'))"

lemma quiet_throwIfAborted: "quiet c (throwIfAborted opts)"
  by (simp add: quiet_def throwIfAborted_def)

lemma quiet_keeps: "quiet c m \<longleftrightarrow> (\<forall>v. keeps (\<lambda>s. c s = v) m)"
  by (auto simp: quiet_def keeps_def)

lemma quiet_bind: "quiet c m \<Longrightarrow> (\<And>x. quiet c (k x)) \<Longrightarrow> quiet c (act_bind m k)"
  by (simp add: quiet_keeps keeps_bind)

lemma quiet_then: "quiet c m \<Longrightarrow> quiet c k \<Longrightarrow> quiet c (act_then m k)"
  by (simp add: act_then_def quiet_bind)

lemma quiet_catch: "quiet c m \<Longrightarrow> (\<And>e. quiet c (h e)) \<Longrightarrow> quiet c (act_catch m h)"
  by (simp add: quiet_keeps keeps_catch)

lemma quiet_ret: "quiet c (act_ret x)" and quiet_throw: "quiet c (act_throw e)"
  by (simp_all add: quiet_def)

lemma quiet_sleep_default:
  "(\<And>d sig. quiet c (set_timeout env d sig)) \<Longrightarrow> quiet c (sleep_default env d sig)"
  using quiet_bind [of c "set_timeout env d sig"
      "\<lambda>fired. if fired then act_ret () else act_throw (ExnOther ''aborted'')"]
  by (simp add: quiet_def sleep_default_def)

lemma quiet_waitForRetryDelay:
  assumes "\<And>d sig. quiet c (set_timeout env d sig)"
    and "\<And>f d sig. rto_sleep opts = Some f \<Longrightarrow> quiet c (f d sig)"
  shows "quiet c (waitForRetryDelay env d opts)"
  unfolding waitForRetryDelay_def
  by (intro quiet_then quiet_throwIfAborted quiet_catch quiet_throw)
     (auto split: option.splits intro: assms quiet_sleep_default)

lemma quiet_calculateRetryDelayMs:
  "(\<And>m. quiet c (jitter m)) \<Longrightarrow> quiet c (calculateRetryDelayMs n p jitter)"
  by (auto simp: calculateRetryDelayMs_def Let_def intro: quiet_bind quiet_ret quiet_throw)

lemma quiet_defaultJitterMs: "quiet c (math_random env) \<Longrightarrow> quiet c (defaultJitterMs env m)"
  unfolding defaultJitterMs_def by (intro quiet_bind quiet_ret)

text \<open>The environment of a retry: neither its timers nor its jitter run the operation.\<close>

definition quiet_options ::
  "('s \<Rightarrow> nat) \<Rightarrow> 's js_env \<Rightarrow> 's ProviderRetryOptions \<Rightarrow> bool" where
  "quiet_options c env opts \<longleftrightarrow>
     quiet c (math_random env) \<and> (\<forall>d sig. quiet c (set_timeout env d sig))
     \<and> (\<forall>f. rto_sleep opts = Some f \<longrightarrow> (\<forall>d sig. quiet c (f d sig)))
     \<and> (\<forall>f. rto_calculateJitterMs opts = Some f \<longrightarrow> (\<forall>m. quiet c (f m)))"

lemma quiet_options_wait: "quiet_options c env opts \<Longrightarrow> quiet c (waitForRetryDelay env d opts)"
  by (rule quiet_waitForRetryDelay) (auto simp: quiet_options_def)

lemma quiet_options_delay:
  "quiet_options c env opts \<Longrightarrow>
   quiet c (calculateRetryDelayMs n p (case rto_calculateJitterMs opts of Some f \<Rightarrow> f
      | None \<Rightarrow> defaultJitterMs env))"
  by (rule quiet_calculateRetryDelayMs)
     (auto simp: quiet_options_def split: option.splits intro: quiet_defaultJitterMs)

text \<open>What lies between two attempts, as one action.\<close>

definition retry_pause ::
  "('x obs_scheme) js_env \<Rightarrow> ('x obs_scheme) ProviderRetryOptions \<Rightarrow> ProviderRetryPolicy \<Rightarrow>
   int \<Rightarrow> ProviderErrorCategory \<Rightarrow> ('x obs_scheme, exn, unit) act" where
  "retry_pause env opts policy attempt cat =
     act_then (act_modify (recordProviderRetry (rto_providerId opts) cat ro_scheduled))
       (act_bind (calculateRetryDelayMs attempt policy
                    (case rto_calculateJitterMs opts of Some f \<Rightarrow> f | None \<Rightarrow> defaultJitterMs env))
                 (\<lambda>delayMs. waitForRetryDelay env delayMs opts))"

lemma retry_loop_unfold:
  assumes "attempt \<le> maxAttempts policy"
  shows "retry_loop env operation opts policy attempt =
    act_then (throwIfAborted opts)
      (act_catch (operation attempt)
        (\<lambda>e. if \<not> transient_exn e then act_throw e
             else if attempt \<ge> maxAttempts policy
             then act_then (if attempt > 1
                    then act_modify (recordProviderRetry (rto_providerId opts)
                           (pe_category (the (isProviderError e))) ro_exhausted)
                    else act_ret ()) (act_throw e)
             else act_then (retry_pause env opts policy attempt (pe_category (the (isProviderError e))))
                    (retry_loop env operation opts policy (attempt + 1))))"
proof -
  have handler: "act_then (retry_pause env opts policy attempt cat) m =
     act_then (act_modify (recordProviderRetry (rto_providerId opts) cat ro_scheduled))
       (act_bind (calculateRetryDelayMs attempt policy
            (case rto_calculateJitterMs opts of Some f \<Rightarrow> f | None \<Rightarrow> defaultJitterMs env))
          (\<lambda>delayMs. act_then (waitForRetryDelay env delayMs opts) m))" for cat m
    by (simp add: retry_pause_def act_then_def act_bind_assoc)
  from assms have "\<not> attempt > maxAttempts policy" by simp
  then show ?thesis
    unfolding handler
    apply (subst retry_loop.simps)
    apply (simp only: if_False)
    apply (rule arg_cong2 [where f = act_then, OF refl])
    apply (rule arg_cong2 [where f = act_catch, OF refl])
    apply (rule ext)
    apply (simp add: transient_exn_def split: option.split)
    done
qed

lemma quiet_retry_pause:
  "counts c \<Longrightarrow> quiet_options c env opts \<Longrightarrow> quiet c (retry_pause env opts policy n cat)"
  unfolding retry_pause_def
  by (intro quiet_then quiet_bind quiet_options_wait quiet_options_delay) (simp_all add: quiet_def)

text \<open>No attempt beyond \<^verbatim>\<open>maxAttempts\<close>, whatever the operation, the timers and the
  abort signal do.\<close>

lemma retry_loop_calls:
  assumes c: "counts c" "quiet_options c env opts"
    and op: "\<And>n s. c (snd (operation n s)) = c s + 1"
  shows "n \<le> maxAttempts policy \<Longrightarrow>
    c (snd (retry_loop env operation opts policy n w)) \<le> c w + nat (maxAttempts policy + 1 - n)"
proof (induction "nat (maxAttempts policy - n)" arbitrary: n w)
  case 0
  then have n: "n = maxAttempts policy" by simp
  obtain r w' where ow: "operation n w = (r, w')" by fastforce
  with op [of n w] have "c w' = c w + 1" by simp
  with n ow c(1) show ?case
    by (cases r)
       (auto simp: retry_loop_unfold act_then_apply act_catch_apply throwIfAborted_def)
next
  case (Suc k)
  then have lt: "n < maxAttempts policy" by simp
  have IH: "c (snd (retry_loop env operation opts policy (n + 1) w))
      \<le> c w + nat (maxAttempts policy - n)" for w
    using Suc.hyps(1) [of "n + 1" w] Suc.hyps(2) lt by (simp add: algebra_simps)
  have pause: "c (snd (retry_pause env opts policy n cat w)) = c w" for cat w
    using quiet_retry_pause [OF c] by (simp add: quiet_def)
  have step: "c (snd (act_then (retry_pause env opts policy n cat)
       (retry_loop env operation opts policy (n + 1)) w)) \<le> c w + nat (maxAttempts policy - n)" for cat w
    using pause [of cat w] IH
    by (auto simp: act_then_apply split: prod.splits sum.splits) (metis snd_conv)
  obtain r w' where ow: "operation n w = (r, w')" by fastforce
  with op [of n w] have cw: "c w' = c w + 1" by simp
  show ?case
  proof (cases "aborted (rto_signal opts) w")
    case True
    then show ?thesis using lt by (simp add: retry_loop_unfold act_then_apply throwIfAborted_def)
  next
    case False
    with lt ow cw step [of "pe_category (the (isProviderError (projl r)))" w'] show ?thesis
      by (cases r) (auto simp: retry_loop_unfold act_then_apply act_catch_apply throwIfAborted_def)
  qed
qed

text \<open>A value that the loop returns is one that the operation returned.\<close>

lemma retry_loop_Inr:
  "retry_loop env operation opts policy n w = (Inr x, w') \<Longrightarrow> \<exists>k s s'. operation k s = (Inr x, s')"
proof (induction "nat (maxAttempts policy + 1 - n)" arbitrary: n w rule: less_induct)
  case less
  show ?case
  proof (cases "n \<le> maxAttempts policy")
    case False
    with less.prems show ?thesis by (subst (asm) retry_loop.simps) simp
  next
    case True
    from less.prems obtain s1 where c: "act_catch (operation n)
        (\<lambda>e. if \<not> transient_exn e then act_throw e
             else if n \<ge> maxAttempts policy
             then act_then (if n > 1
                    then act_modify (recordProviderRetry (rto_providerId opts)
                           (pe_category (the (isProviderError e))) ro_exhausted)
                    else act_ret ()) (act_throw e)
             else act_then (retry_pause env opts policy n (pe_category (the (isProviderError e))))
                    (retry_loop env operation opts policy (n + 1))) s1 = (Inr x, w')"
      unfolding retry_loop_unfold [OF True] act_then_def [of "throwIfAborted opts"]
      by (rule act_bind_Inr_E)
    obtain r w1 where op: "operation n s1 = (r, w1)" by fastforce
    show ?thesis
    proof (cases r)
      case (Inr y)
      with c op have "y = x" by (simp add: act_catch_apply)
      with op Inr show ?thesis by blast
    next
      case (Inl e)
      then obtain w2 where "retry_loop env operation opts policy (n + 1) w2 = (Inr x, w')"
        using c op by (auto simp: act_catch_apply act_then_apply split: if_splits prod.splits sum.splits)
      from less.hyps [OF _ this] True show ?thesis by auto
    qed
  qed
qed

lemma retryProviderOperation_Inr:
  "retryProviderOperation env operation opts w = (Inr x, w') \<Longrightarrow> \<exists>k s s'. operation k s = (Inr x, s')"
  by (auto simp: retryProviderOperation_def Let_def dest: retry_loop_Inr split: if_splits)

text \<open>Callbacks that do not fail: no abort signal, a timer that fires, a jitter that returns.\<close>

definition reliable_options :: "'s js_env \<Rightarrow> 's ProviderRetryOptions \<Rightarrow> bool" where
  "reliable_options env opts \<longleftrightarrow> rto_signal opts = None
     \<and> (case rto_sleep opts of
          Some f \<Rightarrow> (\<forall>d. returns (f d None))
        | None \<Rightarrow> (\<forall>d s. \<exists>s'. set_timeout env d None s = (Inr True, s')))
     \<and> (case rto_calculateJitterMs opts of
          Some f \<Rightarrow> (\<forall>m. returns (f m))
        | None \<Rightarrow> returns (math_random env))"

lemma returns_bind: "returns m \<Longrightarrow> (\<And>x. returns (k x)) \<Longrightarrow> returns (act_bind m k)"
  unfolding returns_def act_bind_apply by (metis (no_types, lifting) case_prod_conv sum.case(2))

lemma returns_catch: "returns m \<Longrightarrow> returns (act_catch m h)"
  unfolding returns_def act_catch_apply by (metis (no_types, lifting) case_prod_conv sum.case(2))

lemma returns_ret: "returns (act_ret x)" and returns_modify: "returns (act_modify f)"
  by (simp_all add: returns_def)

lemma returns_retry_pause:
  assumes "reliable_options env opts" and "assertValidRetryPolicy policy"
  shows "returns (retry_pause env opts policy n cat)"
proof -
  have sig: "rto_signal opts = None" using assms(1) by (simp add: reliable_options_def)
  have thr: "returns (throwIfAborted opts)"
    by (simp add: returns_def throwIfAborted_def aborted_def sig)
  have sleep: "returns ((case rto_sleep opts of Some f \<Rightarrow> f | None \<Rightarrow> sleep_default env) d None)" for d
  proof (cases "rto_sleep opts")
    case None
    then have "\<exists>s'. set_timeout env d None s = (Inr True, s')" for s
      using assms(1) by (simp add: reliable_options_def)
    have "\<exists>s'. sleep_default env d None s = (Inr (), s')" for s
    proof -
      obtain s' where "set_timeout env d None s = (Inr True, s')"
        using \<open>\<And>s. \<exists>s'. set_timeout env d None s = (Inr True, s')\<close> by blast
      then show ?thesis by (simp add: sleep_default_def aborted_def act_bind_apply)
    qed
    then show ?thesis unfolding returns_def using None by simp
  next
    case (Some f)
    then show ?thesis using assms(1) by (simp add: reliable_options_def)
  qed
  have wait: "returns (waitForRetryDelay env d opts)" for d
    unfolding waitForRetryDelay_def act_then_def sig
    by (intro returns_bind returns_catch thr sleep)
  have jit: "returns ((case rto_calculateJitterMs opts of Some f \<Rightarrow> f | None \<Rightarrow> defaultJitterMs env) m)" for m
    using assms(1) unfolding reliable_options_def
    by (cases "rto_calculateJitterMs opts")
       (simp_all add: defaultJitterMs_def returns_bind returns_ret)
  have "returns (calculateRetryDelayMs n policy
      (case rto_calculateJitterMs opts of Some f \<Rightarrow> f | None \<Rightarrow> defaultJitterMs env))"
    unfolding calculateRetryDelayMs_def Let_def using assms(2)
    by (simp add: returns_bind jit returns_ret)
  then show ?thesis unfolding retry_pause_def act_then_def
    by (intro returns_bind wait returns_modify)
qed

lemma retry_loop_result:
  assumes c: "counts c" "quiet_options c env opts"
    and rel: "reliable_options env opts" "assertValidRetryPolicy policy"
    and op: "\<And>n s. fst (operation n s) = out n" "\<And>n s. c (snd (operation n s)) = c s + 1"
  shows "n \<le> maxAttempts policy \<Longrightarrow>
    \<exists>k. n \<le> k \<and> k \<le> maxAttempts policy
      \<and> fst (retry_loop env operation opts policy n w) = out k
      \<and> c (snd (retry_loop env operation opts policy n w)) = c w + nat (k + 1 - n)
      \<and> (\<forall>i. n \<le> i \<and> i < k \<longrightarrow> transient (out i)) \<and> (k < maxAttempts policy \<longrightarrow> \<not> transient (out k))"
proof (induction "nat (maxAttempts policy - n)" arbitrary: n w)
  case 0
  then have n: "n = maxAttempts policy" by simp
  obtain w' where ow: "operation n w = (out n, w')"
    using op(1) [of n w] by (metis prod.collapse)
  with op(2) [of n w] have "c w' = c w + 1" by simp
  with n ow c(1) rel(1) show ?case
    by (intro exI [of _ n], cases "out n")
       (auto simp: retry_loop_unfold act_then_apply act_catch_apply throwIfAborted_def aborted_def
         reliable_options_def)
next
  case (Suc k)
  then have lt: "n < maxAttempts policy" by simp
  obtain w' where ow: "operation n w = (out n, w')"
    using op(1) [of n w] by (metis prod.collapse)
  with op(2) [of n w] have cw: "c w' = c w + 1" by simp
  have unfold: "retry_loop env operation opts policy n w =
      (case out n of Inr x \<Rightarrow> (Inr x, w')
       | Inl e \<Rightarrow> if \<not> transient_exn e then (Inl e, w')
           else act_then (retry_pause env opts policy n (pe_category (the (isProviderError e))))
                  (retry_loop env operation opts policy (n + 1)) w')"
    using lt ow rel(1)
    by (auto simp: retry_loop_unfold act_then_apply act_catch_apply throwIfAborted_def aborted_def
        reliable_options_def split: sum.split)
  show ?case
  proof (cases "transient (out n)")
    case False
    with unfold cw lt show ?thesis
      by (intro exI [of _ n]) (auto split: sum.splits)
  next
    case True
    then obtain e where e: "out n = Inl e" "transient_exn e"
      by (auto simp: transient_def split: sum.splits)
    define cat where "cat = pe_category (the (isProviderError e))"
    obtain x w1 where p: "retry_pause env opts policy n cat w' = (Inr x, w1)"
      using returns_retry_pause [OF rel] by (metis returns_def)
    moreover have "c w1 = c w'"
      using quiet_retry_pause [OF c] p by (metis quiet_def snd_conv)
    ultimately have loop: "retry_loop env operation opts policy n w
        = retry_loop env operation opts policy (n + 1) w1" and cw1: "c w1 = c w + 1"
      using unfold e cw by (simp_all add: act_then_apply cat_def)
    have "k = nat (maxAttempts policy - (n + 1))" using Suc.hyps(2) lt by linarith
    from Suc.hyps(1) [OF this, of w1] lt obtain k' where k': "n + 1 \<le> k'"
      "k' \<le> maxAttempts policy"
      "fst (retry_loop env operation opts policy (n + 1) w1) = out k'"
      "c (snd (retry_loop env operation opts policy (n + 1) w1)) = c w1 + nat (k' + 1 - (n + 1))"
      "\<forall>i. n + 1 \<le> i \<and> i < k' \<longrightarrow> transient (out i)"
      "k' < maxAttempts policy \<longrightarrow> \<not> transient (out k')"
      by auto
    show ?thesis
    proof (intro exI [of _ k'] conjI)
      show "\<forall>i. n \<le> i \<and> i < k' \<longrightarrow> transient (out i)"
        using k'(5) True by (metis order_le_less zless_imp_add1_zle)
    qed (use k' loop cw1 in auto)
  qed
qed

abbreviation effective_policy :: "'s ProviderRetryOptions \<Rightarrow> ProviderRetryPolicy" where
  "effective_policy opts \<equiv>
     (case rto_policy opts of Some p \<Rightarrow> p | None \<Rightarrow> DEFAULT_PROVIDER_RETRY_POLICY)"

text \<open>
  With no abort and callbacks that return, \<^verbatim>\<open>retryProviderOperation\<close> runs the
  operation for attempts 1, 2, ... and settles with the outcome of the first attempt that is not
  a transient provider error, or of attempt \<^verbatim>\<open>maxAttempts\<close>; the operation has then run
  exactly that many times.
\<close>

theorem retry_settles_with_first_final_outcome:
  assumes "counts c" and "quiet_options c env opts" and "reliable_options env opts"
    and "assertValidRetryPolicy (effective_policy opts)"
    and "\<And>n s. fst (operation n s) = out n" and "\<And>n s. c (snd (operation n s)) = c s + 1"
  shows "\<exists>k. 1 \<le> k \<and> k \<le> maxAttempts (effective_policy opts)
      \<and> fst (retryProviderOperation env operation opts w) = out k
      \<and> c (snd (retryProviderOperation env operation opts w)) = c w + nat k
      \<and> (\<forall>i. 1 \<le> i \<and> i < k \<longrightarrow> transient (out i))
      \<and> (k < maxAttempts (effective_policy opts) \<longrightarrow> \<not> transient (out k))"
proof -
  have "1 \<le> maxAttempts (effective_policy opts)"
    using assms(4) by (rule assertValid_maxAttempts)
  from retry_loop_result [OF assms(1-4), of operation out, OF assms(5,6) this, of w] assms(4)
  show ?thesis by (simp add: retryProviderOperation_def Let_def)
qed

text \<open>
  Whatever the abort signal, the timers and the operation do, the operation runs at most
  \<^verbatim>\<open>maxAttempts\<close> times, and not at all under an invalid policy.
\<close>

theorem retry_call_bound:
  assumes "counts c" and "quiet_options c env opts"
    and "\<And>n s. c (snd (operation n s)) = c s + 1"
  shows "c (snd (retryProviderOperation env operation opts w))
     \<le> c w + (if assertValidRetryPolicy (effective_policy opts)
               then nat (maxAttempts (effective_policy opts)) else 0)"
proof (cases "assertValidRetryPolicy (effective_policy opts)")
  case True
  then have "1 \<le> maxAttempts (effective_policy opts)" by (rule assertValid_maxAttempts)
  from retry_loop_calls [OF assms(1,2), of operation, OF assms(3) this, of w] True
  show ?thesis by (simp add: retryProviderOperation_def Let_def)
next
  case False
  then show ?thesis by (simp add: retryProviderOperation_def Let_def)
qed

text \<open>A concrete run: an operation that times out twice and then succeeds, counting its calls
  in the world.\<close>

definition demo_env :: "(nat obs_scheme) js_env" where
  "demo_env = \<lparr>math_random = act_ret 0, set_timeout = (\<lambda>d sig. act_ret True)\<rparr>"

definition demo_options :: "(nat obs_scheme) ProviderRetryOptions" where
  "demo_options = \<lparr>rto_providerId = groq, rto_model = None, rto_policy = None, rto_signal = None,
     rto_calculateJitterMs = None, rto_sleep = None\<rparr>"

definition demo_timeout :: exn where
  "demo_timeout = ExnProvider
     \<lparr>pe_category = cat_timeout, pe_providerId = groq, pe_message = ''t'', pe_retryable = True,
      pe_model = None, pe_statusCode = None, pe_providerRequestId = None, pe_latencyMs = None\<rparr>"

definition demo_operation :: "int \<Rightarrow> (nat obs_scheme, exn, nat) act" where
  "demo_operation n w = (if n < 3 then Inl demo_timeout else Inr 7,
     \<lparr>metric_ops = metric_ops w, \<dots> = Suc (obs.more w)\<rparr>)"

lemma demo_counts: "counts (obs.more :: nat obs_scheme \<Rightarrow> nat)"
  by simp

lemma demo_quiet: "quiet_options obs.more demo_env demo_options"
  by (simp add: quiet_options_def demo_env_def demo_options_def quiet_def)

lemma demo_reliable: "reliable_options demo_env demo_options"
  by (simp add: reliable_options_def demo_env_def demo_options_def returns_def)

lemma demo_policy: "effective_policy demo_options = DEFAULT_PROVIDER_RETRY_POLICY"
  by (simp add: demo_options_def)

theorem retry_settles_with_first_final_outcome_witness:
  "\<exists>k. 1 \<le> k \<and> k \<le> maxAttempts (effective_policy demo_options)
      \<and> fst (retryProviderOperation demo_env demo_operation demo_options \<lparr>metric_ops = [], \<dots> = 0\<rparr>)
          = (if k < (3::int) then Inl demo_timeout else Inr (7::nat))"
  using retry_settles_with_first_final_outcome [of obs.more demo_env demo_options demo_operation
      "\<lambda>n. if n < 3 then Inl demo_timeout else Inr 7" "\<lparr>metric_ops = [], \<dots> = 0\<rparr>",
      OF demo_counts demo_quiet demo_reliable]
  by (auto simp: demo_policy assertValid_default demo_operation_def)

theorem retry_call_bound_witness:
  "obs.more (snd (retryProviderOperation demo_env demo_operation demo_options
      \<lparr>metric_ops = [], \<dots> = 0\<rparr>)) \<le> 3"
  using retry_call_bound [of obs.more demo_env demo_options demo_operation
      "\<lparr>metric_ops = [], \<dots> = 0\<rparr>", OF demo_counts demo_quiet]
  by (simp add: demo_policy assertValid_default demo_operation_def
      DEFAULT_PROVIDER_RETRY_POLICY_def split: if_splits)

end
