(* ===== verification/CircuitBreaker.thy ===== *)
theory CircuitBreaker
  imports ProviderRetry
begin

text \<open>
  The circuit breaker of \<^verbatim>\<open>providers/provider-circuit-breaker.ts\<close>. The class keeps a
  mutable record per provider and every running \<^verbatim>\<open>execute\<close> holds a reference to one, so
  the records live in a store: \<open>br_recs\<close> is the list of allocated records and a reference is
  an index into it; \<open>br_ids\<close> is the map \<^verbatim>\<open>recordsByProviderId\<close>. The clock
  \<^verbatim>\<open>now()\<close> is a field of the world that only awaited actions move.

  \<^verbatim>\<open>execute\<close> runs \<^verbatim>\<open>prepareRequest\<close> before and \<^verbatim>\<open>settle\<close> (success or
  failure and the \<^verbatim>\<open>finally\<close> block) after the awaited operation. Node runs the code between
  two awaits without interruption, so concurrent calls interleave at exactly this grain: the
  relation \<open>cb_step\<close> starts a call, ends one, lets time pass, or reads the breaker.
\<close>

record ProviderCircuitRecord =
  state :: ProviderCircuitState
  failureCount :: int
  openedAt :: "int option"
  lastFailureAt :: "int option"
  halfOpenTrialCount :: int

record ProviderCircuitBreakerPolicy =
  failureThreshold :: int
  cooldownMs :: int
  halfOpenMaxTrials :: int

definition DEFAULT_PROVIDER_CIRCUIT_BREAKER_POLICY :: ProviderCircuitBreakerPolicy where
  "DEFAULT_PROVIDER_CIRCUIT_BREAKER_POLICY =
     \<lparr>failureThreshold = 5, cooldownMs = 30000, halfOpenMaxTrials = 1\<rparr>"

record breaker = obs +
  br_ids :: "ProviderId \<Rightarrow> nat option"
  br_recs :: "ProviderCircuitRecord list"
  br_clock :: int

definition ProviderCircuitOpenError :: "ProviderId \<Rightarrow> exn" where
  "ProviderCircuitOpenError p = ExnProvider
     \<lparr>pe_category = cat_unavailable, pe_providerId = p, pe_message = ''Provider circuit is open.'',
      pe_retryable = True, pe_model = None, pe_statusCode = Some 503, pe_providerRequestId = None,
      pe_latencyMs = None\<rparr>"

definition assertValidCircuitBreakerPolicy :: "ProviderCircuitBreakerPolicy \<Rightarrow> bool" where
  "assertValidCircuitBreakerPolicy p \<longleftrightarrow>
     \<not> (\<not> is_safe_integer (failureThreshold p) \<or> failureThreshold p < 1
        \<or> \<not> is_safe_integer (cooldownMs p) \<or> cooldownMs p < 1
        \<or> \<not> is_safe_integer (halfOpenMaxTrials p) \<or> halfOpenMaxTrials p < 1)"

definition shouldCountCircuitFailure :: "exn \<Rightarrow> bool" where
  "shouldCountCircuitFailure e \<longleftrightarrow>
     (case isProviderError e of None \<Rightarrow> False | Some pe \<Rightarrow> shouldRetryProviderError pe)"

definition fresh_record :: ProviderCircuitRecord where
  "fresh_record = \<lparr>state = CLOSED, failureCount = 0, openedAt = None, lastFailureAt = None,
     halfOpenTrialCount = 0\<rparr>"

definition upd_rec ::
  "nat \<Rightarrow> (ProviderCircuitRecord \<Rightarrow> ProviderCircuitRecord) \<Rightarrow> 'x breaker_scheme \<Rightarrow> 'x breaker_scheme" where
  "upd_rec a f w = w\<lparr>br_recs := (br_recs w)[a := f (br_recs w ! a)]\<rparr>"

definition getRecord :: "ProviderId \<Rightarrow> 'x breaker_scheme \<Rightarrow> nat \<times> 'x breaker_scheme" where
  "getRecord p w =
     (case br_ids w p of
        Some a \<Rightarrow> (a, recordProviderCircuitState p (state (br_recs w ! a)) w)
      | None \<Rightarrow>
          (let a = length (br_recs w);
               w' = w\<lparr>br_recs := br_recs w @ [fresh_record], br_ids := (br_ids w)(p := Some a)\<rparr>
           in (a, recordProviderCircuitState p CLOSED w')))"

definition transitionState ::
  "ProviderId \<Rightarrow> nat \<Rightarrow> ProviderCircuitState \<Rightarrow> 'x breaker_scheme \<Rightarrow> 'x breaker_scheme" where
  "transitionState p a nextState w =
     (let previousState = state (br_recs w ! a);
          w' = upd_rec a (\<lambda>r. r\<lparr>state := nextState\<rparr>) w
      in if previousState = nextState then recordProviderCircuitState p nextState w'
         else recordProviderCircuitTransition p previousState nextState w')"

definition hasCooldownElapsed ::
  "ProviderCircuitBreakerPolicy \<Rightarrow> ProviderCircuitRecord \<Rightarrow> 'x breaker_scheme \<Rightarrow> bool" where
  "hasCooldownElapsed pol r w \<longleftrightarrow>
     (case openedAt r of None \<Rightarrow> False | Some t \<Rightarrow> br_clock w - t \<ge> cooldownMs pol)"

definition openCircuit :: "ProviderId \<Rightarrow> nat \<Rightarrow> 'x breaker_scheme \<Rightarrow> 'x breaker_scheme" where
  "openCircuit p a w =
     (let w' = transitionState p a OPEN w
      in upd_rec a (\<lambda>r. r\<lparr>openedAt := Some (br_clock w'), halfOpenTrialCount := 0\<rparr>) w')"

definition prepareRequest ::
  "ProviderCircuitBreakerPolicy \<Rightarrow> ProviderId \<Rightarrow> ('x breaker_scheme, exn, nat) act" where
  "prepareRequest pol p w =
     (case getRecord p w of (a, w0) \<Rightarrow>
        let openCheck =
          (if state (br_recs w0 ! a) = OPEN
           then if hasCooldownElapsed pol (br_recs w0 ! a) w0
                then Inr (upd_rec a (\<lambda>r. r\<lparr>halfOpenTrialCount := 0\<rparr>) (transitionState p a HALF_OPEN w0))
                else Inl (ProviderCircuitOpenError p)
           else Inr w0)
        in case openCheck of
             Inl e \<Rightarrow> (Inl e, w0)
           | Inr w1 \<Rightarrow>
               if state (br_recs w1 ! a) = HALF_OPEN
               then if halfOpenTrialCount (br_recs w1 ! a) \<ge> halfOpenMaxTrials pol
                    then (Inl (ProviderCircuitOpenError p), w1)
                    else (Inr a, upd_rec a (\<lambda>r. r\<lparr>halfOpenTrialCount := halfOpenTrialCount r + 1\<rparr>) w1)
               else (Inr a, w1))"

definition recordSuccess :: "ProviderId \<Rightarrow> nat \<Rightarrow> 'x breaker_scheme \<Rightarrow> 'x breaker_scheme" where
  "recordSuccess p a w =
     upd_rec a (\<lambda>r. r\<lparr>failureCount := 0, halfOpenTrialCount := 0, openedAt := None, lastFailureAt := None\<rparr>)
       (transitionState p a CLOSED w)"

definition recordFailure ::
  "ProviderCircuitBreakerPolicy \<Rightarrow> ProviderId \<Rightarrow> nat \<Rightarrow> exn \<Rightarrow> 'x breaker_scheme \<Rightarrow> 'x breaker_scheme" where
  "recordFailure pol p a e w =
     (if \<not> shouldCountCircuitFailure e then w
      else let w1 = upd_rec a (\<lambda>r. r\<lparr>lastFailureAt := Some (br_clock w)\<rparr>) w
           in if state (br_recs w1 ! a) = HALF_OPEN then openCircuit p a w1
              else let w2 = upd_rec a (\<lambda>r. r\<lparr>failureCount := failureCount r + 1\<rparr>) w1
                   in if failureCount (br_recs w2 ! a) \<ge> failureThreshold pol
                      then openCircuit p a w2 else w2)"

definition releaseTrial :: "nat \<Rightarrow> 'x breaker_scheme \<Rightarrow> 'x breaker_scheme" where
  "releaseTrial a w =
     (if state (br_recs w ! a) = HALF_OPEN \<and> halfOpenTrialCount (br_recs w ! a) > 0
      then upd_rec a (\<lambda>r. r\<lparr>halfOpenTrialCount := halfOpenTrialCount r - 1\<rparr>) w else w)"

definition settle ::
  "ProviderCircuitBreakerPolicy \<Rightarrow> ProviderId \<Rightarrow> nat \<Rightarrow> exn + 'a \<Rightarrow> 'x breaker_scheme \<Rightarrow> 'x breaker_scheme" where
  "settle pol p a r w =
     releaseTrial a (case r of Inr _ \<Rightarrow> recordSuccess p a w | Inl e \<Rightarrow> recordFailure pol p a e w)"

definition execute ::
  "ProviderCircuitBreakerPolicy \<Rightarrow> ProviderId \<Rightarrow> ('x breaker_scheme, exn, 'a) act \<Rightarrow>
   ('x breaker_scheme, exn, 'a) act" where
  "execute pol p operation =
     act_bind (prepareRequest pol p)
       (\<lambda>a w. case operation w of (r, w') \<Rightarrow> (r, settle pol p a r w'))"

definition isOpen ::
  "ProviderCircuitBreakerPolicy \<Rightarrow> ProviderId \<Rightarrow> 'x breaker_scheme \<Rightarrow> bool \<times> 'x breaker_scheme" where
  "isOpen pol p w = (case getRecord p w of (a, w') \<Rightarrow>
     (state (br_recs w' ! a) = OPEN \<and> \<not> hasCooldownElapsed pol (br_recs w' ! a) w', w'))"

definition getSnapshot :: "ProviderId \<Rightarrow> 'x breaker_scheme \<Rightarrow> ProviderCircuitRecord \<times> 'x breaker_scheme" where
  "getSnapshot p w = (case getRecord p w of (a, w') \<Rightarrow> (br_recs w' ! a, w'))"

definition reset_one :: "ProviderId \<Rightarrow> 'x breaker_scheme \<Rightarrow> 'x breaker_scheme" where
  "reset_one p w = recordProviderCircuitState p CLOSED (w\<lparr>br_ids := (br_ids w)(p := None)\<rparr>)"

definition reset_all :: "'x breaker_scheme \<Rightarrow> 'x breaker_scheme" where
  "reset_all w =
     (fold (\<lambda>p. recordProviderCircuitState p CLOSED)
        (filter (\<lambda>p. br_ids w p \<noteq> None) PROVIDER_IDS) w)\<lparr>br_ids := (\<lambda>_. None)\<rparr>"

section \<open>Frame lemmas\<close>

lemma log_metric_breaker [simp]:
  "br_recs (log_metric m w) = br_recs w" "br_ids (log_metric m w) = br_ids w"
  "br_clock (log_metric m w) = br_clock w" "breaker.more (log_metric m w) = breaker.more w"
  by (simp_all add: log_metric_def)

lemma recordProviderCircuitState_breaker [simp]:
  "br_recs (recordProviderCircuitState p st w) = br_recs w"
  "br_ids (recordProviderCircuitState p st w) = br_ids w"
  "br_clock (recordProviderCircuitState p st w) = br_clock w"
  "breaker.more (recordProviderCircuitState p st w) = breaker.more w"
  by (simp_all add: recordProviderCircuitState_def)

lemma recordProviderCircuitTransition_breaker [simp]:
  "br_recs (recordProviderCircuitTransition p f t w) = br_recs w"
  "br_ids (recordProviderCircuitTransition p f t w) = br_ids w"
  "br_clock (recordProviderCircuitTransition p f t w) = br_clock w"
  "breaker.more (recordProviderCircuitTransition p f t w) = breaker.more w"
  by (simp_all add: recordProviderCircuitTransition_def)

lemma upd_rec_breaker [simp]:
  "br_recs (upd_rec a f w) = (br_recs w)[a := f (br_recs w ! a)]"
  "br_ids (upd_rec a f w) = br_ids w" "br_clock (upd_rec a f w) = br_clock w"
  "metric_ops (upd_rec a f w) = metric_ops w" "breaker.more (upd_rec a f w) = breaker.more w"
  by (simp_all add: upd_rec_def)

lemma transitionState_breaker [simp]:
  "br_recs (transitionState p a st w) = (br_recs w)[a := (br_recs w ! a)\<lparr>state := st\<rparr>]"
  "br_ids (transitionState p a st w) = br_ids w"
  "br_clock (transitionState p a st w) = br_clock w"
  "breaker.more (transitionState p a st w) = breaker.more w"
  by (simp_all add: transitionState_def Let_def)

text \<open>Each operation on an allocated record as one update of that record.\<close>

definition opened :: "int \<Rightarrow> ProviderCircuitRecord \<Rightarrow> ProviderCircuitRecord" where
  "opened t r = r\<lparr>state := OPEN, openedAt := Some t, halfOpenTrialCount := 0\<rparr>"

definition failed_rec ::
  "ProviderCircuitBreakerPolicy \<Rightarrow> int \<Rightarrow> exn \<Rightarrow> ProviderCircuitRecord \<Rightarrow> ProviderCircuitRecord" where
  "failed_rec pol t e r =
     (if \<not> shouldCountCircuitFailure e then r
      else if state r = HALF_OPEN then opened t (r\<lparr>lastFailureAt := Some t\<rparr>)
      else let r' = r\<lparr>lastFailureAt := Some t, failureCount := failureCount r + 1\<rparr>
           in if failureCount r' \<ge> failureThreshold pol then opened t r' else r')"

definition released_rec :: "ProviderCircuitRecord \<Rightarrow> ProviderCircuitRecord" where
  "released_rec r = (if state r = HALF_OPEN \<and> halfOpenTrialCount r > 0
     then r\<lparr>halfOpenTrialCount := halfOpenTrialCount r - 1\<rparr> else r)"

definition settled_rec ::
  "ProviderCircuitBreakerPolicy \<Rightarrow> int \<Rightarrow> exn + 'a \<Rightarrow> ProviderCircuitRecord \<Rightarrow> ProviderCircuitRecord" where
  "settled_rec pol t oc r = released_rec (case oc of
      Inr _ \<Rightarrow> fresh_record | Inl e \<Rightarrow> failed_rec pol t e r)"

lemma br_recs_openCircuit [simp]:
  "a < length (br_recs w) \<Longrightarrow>
   br_recs (openCircuit p a w) = (br_recs w)[a := opened (br_clock w) (br_recs w ! a)]"
  by (simp add: openCircuit_def Let_def opened_def)

lemma openCircuit_breaker [simp]:
  "br_ids (openCircuit p a w) = br_ids w" "br_clock (openCircuit p a w) = br_clock w"
  "breaker.more (openCircuit p a w) = breaker.more w"
  by (simp_all add: openCircuit_def Let_def)

lemma cleared_record:
  "r\<lparr>state := CLOSED, failureCount := 0, halfOpenTrialCount := 0, openedAt := None,
     lastFailureAt := None\<rparr> = fresh_record"
  by (simp add: fresh_record_def)

lemma br_recs_settle:
  assumes "a < length (br_recs w)"
  shows "br_recs (settle pol p a oc w) = (br_recs w)[a := settled_rec pol (br_clock w) oc (br_recs w ! a)]"
proof (cases oc)
  case (Inl e)
  with assms show ?thesis
    by (auto simp: settle_def settled_rec_def recordFailure_def failed_rec_def releaseTrial_def
        released_rec_def Let_def opened_def)
next
  case (Inr x)
  with assms show ?thesis
    by (simp add: settle_def settled_rec_def recordSuccess_def releaseTrial_def released_rec_def
        cleared_record)
qed

lemma settle_breaker [simp]:
  "br_ids (settle pol p a oc w) = br_ids w" "br_clock (settle pol p a oc w) = br_clock w"
  "breaker.more (settle pol p a oc w) = breaker.more w"
  by (auto simp: settle_def releaseTrial_def recordSuccess_def recordFailure_def Let_def split: sum.split)

text \<open>The record a provider currently has: the stored one, or the one \<^verbatim>\<open>getRecord\<close>
  will create.\<close>

definition current_rec :: "ProviderId \<Rightarrow> 'x breaker_scheme \<Rightarrow> ProviderCircuitRecord" where
  "current_rec p w = (case br_ids w p of Some a \<Rightarrow> br_recs w ! a | None \<Rightarrow> fresh_record)"

lemma getRecord_current:
  assumes "getRecord p w = (a, w')"
  shows "br_recs w' ! a = current_rec p w" and "br_ids w' p = Some a"
    and "br_clock w' = br_clock w" and "breaker.more w' = breaker.more w"
  using assms by (auto simp: getRecord_def current_rec_def Let_def split: option.splits)

section \<open>The record invariant\<close>

text \<open>What the code keeps true of every record, in particular that the trial counter never
  leaves the range \<open>0..halfOpenMaxTrials\<close>, that a closed circuit is below the
  threshold, and that an open one knows when it opened.\<close>

definition rec_ok :: "ProviderCircuitBreakerPolicy \<Rightarrow> ProviderCircuitRecord \<Rightarrow> bool" where
  "rec_ok pol r \<longleftrightarrow> 0 \<le> failureCount r \<and> 0 \<le> halfOpenTrialCount r
     \<and> halfOpenTrialCount r \<le> halfOpenMaxTrials pol
     \<and> (state r = CLOSED \<longrightarrow> failureCount r < failureThreshold pol \<and> openedAt r = None)
     \<and> (state r \<noteq> HALF_OPEN \<longrightarrow> halfOpenTrialCount r = 0)
     \<and> (state r = OPEN \<longrightarrow> openedAt r \<noteq> None)"

definition breaker_ok :: "ProviderCircuitBreakerPolicy \<Rightarrow> 'x breaker_scheme \<Rightarrow> bool" where
  "breaker_ok pol w \<longleftrightarrow> (\<forall>p a. br_ids w p = Some a \<longrightarrow> a < length (br_recs w))
     \<and> (\<forall>r \<in> set (br_recs w). rec_ok pol r)"

lemma valid_policy_bounds:
  "assertValidCircuitBreakerPolicy pol \<Longrightarrow> 1 \<le> failureThreshold pol \<and> 1 \<le> halfOpenMaxTrials pol
     \<and> 1 \<le> cooldownMs pol"
  by (auto simp: assertValidCircuitBreakerPolicy_def)

lemma rec_ok_fresh: "assertValidCircuitBreakerPolicy pol \<Longrightarrow> rec_ok pol fresh_record"
  by (auto simp: rec_ok_def fresh_record_def dest: valid_policy_bounds)

lemma rec_ok_opened:
  "assertValidCircuitBreakerPolicy pol \<Longrightarrow> 0 \<le> failureCount r \<Longrightarrow> rec_ok pol (opened t r)"
  by (auto simp: rec_ok_def opened_def dest: valid_policy_bounds)

lemma rec_ok_failed:
  assumes "assertValidCircuitBreakerPolicy pol" and "rec_ok pol r"
  shows "rec_ok pol (failed_rec pol t e r)"
proof (cases "shouldCountCircuitFailure e")
  case True
  from assms(2) have "0 \<le> failureCount r" by (simp add: rec_ok_def)
  with True assms show ?thesis
    by (auto simp: failed_rec_def Let_def intro!: rec_ok_opened) (auto simp: rec_ok_def)
next
  case False
  with assms show ?thesis by (simp add: failed_rec_def)
qed

lemma rec_ok_released: "rec_ok pol r \<Longrightarrow> rec_ok pol (released_rec r)"
  by (auto simp: rec_ok_def released_rec_def)

lemma rec_ok_settled:
  "assertValidCircuitBreakerPolicy pol \<Longrightarrow> rec_ok pol r \<Longrightarrow> rec_ok pol (settled_rec pol t oc r)"
  by (cases oc) (simp_all add: settled_rec_def rec_ok_released rec_ok_failed rec_ok_fresh)

lemma breaker_ok_update:
  assumes "breaker_ok pol w" and "br_ids w' = br_ids w"
    and "br_recs w' = (br_recs w)[a := r]" and "rec_ok pol r"
  shows "breaker_ok pol w'"
  using assms by (auto simp: breaker_ok_def dest!: in_set_conv_nth [THEN iffD1])
    (metis nth_list_update_eq nth_list_update_neq nth_mem)

lemma breaker_ok_nth: "breaker_ok pol w \<Longrightarrow> a < length (br_recs w) \<Longrightarrow> rec_ok pol (br_recs w ! a)"
  by (simp add: breaker_ok_def)

lemma breaker_ok_settle:
  assumes "assertValidCircuitBreakerPolicy pol" and "breaker_ok pol w" and "a < length (br_recs w)"
  shows "breaker_ok pol (settle pol p a oc w)"
proof (rule breaker_ok_update [OF assms(2)])
  show "br_recs (settle pol p a oc w)
      = (br_recs w)[a := settled_rec pol (br_clock w) oc (br_recs w ! a)]"
    by (rule br_recs_settle [OF assms(3)])
  show "rec_ok pol (settled_rec pol (br_clock w) oc (br_recs w ! a))"
    by (rule rec_ok_settled [OF assms(1) breaker_ok_nth [OF assms(2,3)]])
qed simp

lemma getRecord_ok:
  assumes "assertValidCircuitBreakerPolicy pol" and "breaker_ok pol w" and "getRecord p w = (a, w')"
  shows "breaker_ok pol w'" and "a < length (br_recs w')"
    and "length (br_recs w) \<le> length (br_recs w')"
  using assms
  by (auto simp: getRecord_def breaker_ok_def Let_def rec_ok_fresh less_Suc_eq split: option.splits if_splits)

lemma prepareRequest_cases:
  assumes "prepareRequest pol p w = (res, w')" and "getRecord p w = (a, w0)" and "a < length (br_recs w0)"
  shows "br_ids w' = br_ids w0 \<and> br_clock w' = br_clock w0 \<and> breaker.more w' = breaker.more w0
    \<and> (\<exists>r'. br_recs w' = (br_recs w0)[a := r'] \<and>
       (let r = br_recs w0 ! a;
            r1 = (if state r = OPEN then r\<lparr>state := HALF_OPEN, halfOpenTrialCount := 0\<rparr> else r)
        in if state r = OPEN \<and> \<not> hasCooldownElapsed pol r w0
           then res = Inl (ProviderCircuitOpenError p) \<and> r' = r
           else if state r1 = HALF_OPEN
           then if halfOpenTrialCount r1 \<ge> halfOpenMaxTrials pol
                then res = Inl (ProviderCircuitOpenError p) \<and> r' = r1
                else res = Inr a \<and> r' = r1\<lparr>halfOpenTrialCount := halfOpenTrialCount r1 + 1\<rparr>
           else res = Inr a \<and> r' = r))"
  using assms
  by (auto simp: prepareRequest_def Let_def split: if_splits)

lemma prepareRequest_ok:
  assumes valid: "assertValidCircuitBreakerPolicy pol" and ok: "breaker_ok pol w"
    and prep: "prepareRequest pol p w = (res, w')"
  shows "breaker_ok pol w'" and "length (br_recs w) \<le> length (br_recs w')"
    and "res = Inr a \<Longrightarrow> a < length (br_recs w')"
proof -
  obtain a0 w0 where g: "getRecord p w = (a0, w0)" by fastforce
  note w0 = getRecord_ok [OF valid ok g]
  define r where "r = br_recs w0 ! a0"
  have r: "rec_ok pol r" unfolding r_def using w0 by (intro breaker_ok_nth)
  from prepareRequest_cases [OF prep g w0(2)] obtain r' where
    ids: "br_ids w' = br_ids w0" and recs: "br_recs w' = (br_recs w0)[a0 := r']"
    and res: "res = Inr a0 \<or> (\<exists>e. res = Inl e)" and r': "rec_ok pol r'"
    using r valid_policy_bounds [OF valid]
    by (fastforce simp: Let_def rec_ok_def r_def split: if_splits)
  show "breaker_ok pol w'" by (rule breaker_ok_update [OF w0(1) ids recs r'])
  show "length (br_recs w) \<le> length (br_recs w')" using w0(3) recs by simp
  show "res = Inr a \<Longrightarrow> a < length (br_recs w')" using res w0(2) recs by auto
qed

lemma breaker_ok_recs_cong:
  "br_recs w' = br_recs w \<Longrightarrow> (\<And>p a. br_ids w' p = Some a \<Longrightarrow> br_ids w p = Some a) \<Longrightarrow>
   breaker_ok pol w \<Longrightarrow> breaker_ok pol w'"
  by (auto simp: breaker_ok_def)

section \<open>Concurrent calls\<close>

text \<open>
  A configuration is the breaker and the calls in flight: provider, reference to the record the
  call holds, and whether it was admitted as a half-open trial.
\<close>

type_synonym cb_call = "ProviderId \<times> nat \<times> bool"
type_synonym cb_config = "breaker \<times> cb_call list"

definition cb_init :: "breaker" where
  "cb_init = \<lparr>metric_ops = [], br_ids = (\<lambda>_. None), br_recs = [], br_clock = 0\<rparr>"

inductive cb_step :: "ProviderCircuitBreakerPolicy \<Rightarrow> cb_config \<Rightarrow> cb_config \<Rightarrow> bool"
  for pol :: ProviderCircuitBreakerPolicy where
  start: "prepareRequest pol p w = (Inr a, w') \<Longrightarrow>
     cb_step pol (w, calls) (w', calls @ [(p, a, state (br_recs w' ! a) = HALF_OPEN)])"
| reject: "prepareRequest pol p w = (Inl e, w') \<Longrightarrow> cb_step pol (w, calls) (w', calls)"
| finish: "cb_step pol (w, xs @ (p, a, t) # ys) (settle pol p a (oc :: exn + unit) w, xs @ ys)"
| tick: "0 \<le> d \<Longrightarrow> cb_step pol (w, calls) (w\<lparr>br_clock := br_clock w + d\<rparr>, calls)"
| check: "isOpen pol p w = (b, w') \<Longrightarrow> cb_step pol (w, calls) (w', calls)"
| snapshot: "getSnapshot p w = (r, w') \<Longrightarrow> cb_step pol (w, calls) (w', calls)"
| clear_one: "cb_step pol (w, calls) (reset_one p w, calls)"
| clear_all: "cb_step pol (w, calls) (reset_all w, calls)"

inductive cb_reachable :: "ProviderCircuitBreakerPolicy \<Rightarrow> cb_config \<Rightarrow> bool"
  for pol :: ProviderCircuitBreakerPolicy where
  cb_start: "cb_reachable pol (cb_init, [])"
| cb_next: "cb_reachable pol c \<Longrightarrow> cb_step pol c c' \<Longrightarrow> cb_reachable pol c'"

definition config_ok :: "ProviderCircuitBreakerPolicy \<Rightarrow> cb_config \<Rightarrow> bool" where
  "config_ok pol c \<longleftrightarrow> breaker_ok pol (fst c)
     \<and> (\<forall>(p, a, t) \<in> set (snd c). a < length (br_recs (fst c)))"

lemma config_ok_grow:
  "config_ok pol (w, calls) \<Longrightarrow> breaker_ok pol w' \<Longrightarrow> length (br_recs w) \<le> length (br_recs w') \<Longrightarrow>
   config_ok pol (w', calls)"
  by (fastforce simp: config_ok_def)

lemma reset_breaker [simp]:
  "br_recs (reset_one p w) = br_recs w" "br_recs (reset_all w) = br_recs w"
  "br_ids (reset_one p w) = (br_ids w)(p := None)" "br_ids (reset_all w) = (\<lambda>_. None)"
proof -
  have "br_recs (fold (\<lambda>p. recordProviderCircuitState p CLOSED) ps w) = br_recs w" for ps and w :: "'b breaker_scheme"
    by (induction ps arbitrary: w) simp_all
  then show "br_recs (reset_all w) = br_recs w" by (simp add: reset_all_def)
qed (simp_all add: reset_one_def reset_all_def)

lemma cb_step_ok:
  assumes valid: "assertValidCircuitBreakerPolicy pol"
  shows "cb_step pol c c' \<Longrightarrow> config_ok pol c \<Longrightarrow> config_ok pol c'"
proof (induction rule: cb_step.induct)
  case (start p w a w' calls)
  then have "breaker_ok pol w" by (simp add: config_ok_def)
  note po = prepareRequest_ok [OF valid this start.hyps]
  from config_ok_grow [OF start.prems po(1,2)] po(3) show ?case by (auto simp: config_ok_def)
next
  case (reject p w e w' calls)
  then have "breaker_ok pol w" by (simp add: config_ok_def)
  note po = prepareRequest_ok [OF valid this reject.hyps]
  show ?case by (rule config_ok_grow [OF reject.prems po(1,2)])
next
  case (finish w xs p a t ys oc)
  then have "breaker_ok pol (settle pol p a oc w)"
    by (intro breaker_ok_settle valid) (auto simp: config_ok_def)
  with finish show ?case by (auto simp: config_ok_def br_recs_settle)
next
  case (check p w b w' calls)
  then obtain a where "getRecord p w = (a, w')" by (auto simp: isOpen_def split: prod.splits)
  with check getRecord_ok [OF valid _ this] show ?case
    by (auto intro: config_ok_grow simp: config_ok_def)
next
  case (snapshot p w r w' calls)
  then obtain a where "getRecord p w = (a, w')" by (auto simp: getSnapshot_def split: prod.splits)
  with snapshot getRecord_ok [OF valid _ this] show ?case
    by (auto intro: config_ok_grow simp: config_ok_def)
qed (auto simp: config_ok_def breaker_ok_def split: if_splits)

lemma cb_reachable_ok:
  assumes "assertValidCircuitBreakerPolicy pol"
  shows "cb_reachable pol c \<Longrightarrow> config_ok pol c"
proof (induction rule: cb_reachable.induct)
  case cb_start
  show ?case by (simp add: config_ok_def breaker_ok_def cb_init_def)
next
  case (cb_next c c')
  then show ?case using cb_step_ok [OF assms] by blast
qed

text \<open>
  C39. In every configuration reachable by concurrent calls, resets and the passage of time, every
  circuit record satisfies the record invariant: counters in range, a closed circuit is below the
  failure threshold, an open circuit has its opening time and no trials, and every call in flight
  refers to an existing record.
\<close>

theorem reachable_breaker_invariant:
  assumes "assertValidCircuitBreakerPolicy pol" and "cb_reachable pol (w, calls)"
  shows "(\<forall>r \<in> set (br_recs w). rec_ok pol r) \<and> (\<forall>(p, a, t) \<in> set calls. a < length (br_recs w))"
  using cb_reachable_ok [OF assms] by (auto simp: config_ok_def breaker_ok_def)

lemma default_policy_valid: "assertValidCircuitBreakerPolicy DEFAULT_PROVIDER_CIRCUIT_BREAKER_POLICY"
  by (simp add: assertValidCircuitBreakerPolicy_def DEFAULT_PROVIDER_CIRCUIT_BREAKER_POLICY_def
      is_safe_integer_def MAX_SAFE_INTEGER_def)

theorem reachable_breaker_invariant_witness:
  "cb_reachable DEFAULT_PROVIDER_CIRCUIT_BREAKER_POLICY
     (snd (prepareRequest DEFAULT_PROVIDER_CIRCUIT_BREAKER_POLICY groq cb_init), [(groq, 0, False)])
   \<and> rec_ok DEFAULT_PROVIDER_CIRCUIT_BREAKER_POLICY
        (br_recs (snd (prepareRequest DEFAULT_PROVIDER_CIRCUIT_BREAKER_POLICY groq cb_init)) ! 0)"
proof -
  let ?pol = "DEFAULT_PROVIDER_CIRCUIT_BREAKER_POLICY"
  define w1 where "w1 = snd (prepareRequest ?pol groq cb_init)"
  have p: "prepareRequest ?pol groq cb_init = (Inr 0, w1)" and s: "state (br_recs w1 ! 0) = CLOSED"
    by (simp_all add: w1_def prepareRequest_def getRecord_def cb_init_def Let_def fresh_record_def)
  have r: "cb_reachable ?pol (w1, [(groq, 0, False)])"
    using cb_next [OF cb_start cb_step.start [OF p, of "[]"]] s by simp
  show ?thesis
    using reachable_breaker_invariant [OF default_policy_valid r] r by (auto simp: w1_def)
qed

lemma execute_Inr: "execute pol p operation w = (Inr x, w') \<Longrightarrow> \<exists>s s'. operation s = (Inr x, s')"
  by (auto simp: execute_def act_bind_apply split: prod.splits sum.splits)

section \<open>One call at a time\<close>

text \<open>
  An operation that leaves the breaker alone: no other call of the same breaker settles while it
  runs. Time may pass.
\<close>

definition isolated :: "('x breaker_scheme, exn, 'a) act \<Rightarrow> bool" where
  "isolated operation \<longleftrightarrow> (\<forall>w r w'. operation w = (r, w') \<longrightarrow>
     br_recs w' = br_recs w \<and> br_ids w' = br_ids w)"

text \<open>The record as \<^verbatim>\<open>prepareRequest\<close> leaves it when it admits a call.\<close>

definition admitted_rec :: "ProviderCircuitRecord \<Rightarrow> ProviderCircuitRecord" where
  "admitted_rec r =
     (case state r of CLOSED \<Rightarrow> r
      | OPEN \<Rightarrow> r\<lparr>state := HALF_OPEN, halfOpenTrialCount := 1\<rparr>
      | HALF_OPEN \<Rightarrow> r\<lparr>halfOpenTrialCount := halfOpenTrialCount r + 1\<rparr>)"

definition admits :: "ProviderCircuitBreakerPolicy \<Rightarrow> ProviderCircuitRecord \<Rightarrow> 'x breaker_scheme \<Rightarrow> bool" where
  "admits pol r w \<longleftrightarrow>
     (case state r of CLOSED \<Rightarrow> True | OPEN \<Rightarrow> hasCooldownElapsed pol r w
      | HALF_OPEN \<Rightarrow> halfOpenTrialCount r < halfOpenMaxTrials pol)"

lemma hasCooldownElapsed_clock:
  "br_clock w' = br_clock w \<Longrightarrow> hasCooldownElapsed pol r w' = hasCooldownElapsed pol r w"
  by (simp add: hasCooldownElapsed_def split: option.split)

lemma prepareRequest_admits:
  assumes valid: "assertValidCircuitBreakerPolicy pol" and ok: "breaker_ok pol w"
    and adm: "admits pol (current_rec p w) w"
  obtains a w' where "prepareRequest pol p w = (Inr a, w')" and "a < length (br_recs w')"
    and "br_ids w' p = Some a" and "br_recs w' ! a = admitted_rec (current_rec p w)"
    and "br_clock w' = br_clock w" and "breaker_ok pol w'" and "breaker.more w' = breaker.more w"
proof -
  obtain a0 w0 where g: "getRecord p w = (a0, w0)" by fastforce
  note w0 = getRecord_ok [OF valid ok g] and cur = getRecord_current [OF g]
  obtain res w' where prep: "prepareRequest pol p w = (res, w')" by fastforce
  note cases = prepareRequest_cases [OF prep g w0(2)]
  have "res = Inr a0" and "br_recs w' = (br_recs w0)[a0 := admitted_rec (current_rec p w)]"
    using cases adm valid_policy_bounds [OF valid] hasCooldownElapsed_clock [OF cur(3)] cur(1)
    by (cases "state (current_rec p w)"; force simp: Let_def admits_def admitted_rec_def)+
  then show thesis
    using that [of a0 w'] prep cases cur w0 prepareRequest_ok(1) [OF valid ok prep] by simp
qed

lemma execute_isolated:
  assumes valid: "assertValidCircuitBreakerPolicy pol" and ok: "breaker_ok pol w"
    and adm: "admits pol (current_rec p w) w" and iso: "isolated operation"
  obtains w1 oc w2 where "operation w1 = (oc, w2)"
    and "execute pol p operation w = (oc, settle pol p (the (br_ids w1 p)) oc w2)"
    and "current_rec p (snd (execute pol p operation w))
         = settled_rec pol (br_clock w2) oc (admitted_rec (current_rec p w))"
    and "breaker_ok pol (snd (execute pol p operation w))"
proof -
  from prepareRequest_admits [OF valid ok adm] obtain a w1 where
    w1: "prepareRequest pol p w = (Inr a, w1)" "a < length (br_recs w1)" "br_ids w1 p = Some a"
      "br_recs w1 ! a = admitted_rec (current_rec p w)" "breaker_ok pol w1" by blast
  obtain oc w2 where op: "operation w1 = (oc, w2)" by fastforce
  with iso have w2: "br_recs w2 = br_recs w1" "br_ids w2 = br_ids w1" by (simp_all add: isolated_def)
  have ex: "execute pol p operation w = (oc, settle pol p a oc w2)"
    by (simp add: execute_def act_bind_apply w1(1) op)
  have "breaker_ok pol w2" using w1(5) w2 by (simp add: breaker_ok_def)
  then have "breaker_ok pol (settle pol p a oc w2)"
    by (rule breaker_ok_settle [OF valid]) (simp add: w2 w1(2))
  then show thesis
    using that [of w1 oc w2] op ex w1 w2 by (simp add: br_recs_settle current_rec_def)
qed

text \<open>
  C38. A circuit that is open and still cooling down fails fast: \<^verbatim>\<open>execute\<close> throws
  \<^verbatim>\<open>ProviderCircuitOpenError\<close> and does not run the operation (result and world are the same for
  any other operation), \<^verbatim>\<open>isOpen\<close> reports the circuit as open, and both leave every record, the
  map from providers to records and the clock as they were; all they do is to report the state
  \<open>OPEN\<close> to the metrics.
\<close>

theorem open_circuit_fails_fast:
  assumes open_circuit: "state (current_rec p w) = OPEN" and cooling: "\<not> hasCooldownElapsed pol (current_rec p w) w"
  shows "execute pol p operation w = (Inl (ProviderCircuitOpenError p), recordProviderCircuitState p OPEN w)
       \<and> isOpen pol p w = (True, recordProviderCircuitState p OPEN w)
       \<and> br_recs (snd (execute pol p operation w)) = br_recs w \<and> br_ids (snd (execute pol p operation w)) = br_ids w
       \<and> br_clock (snd (execute pol p operation w)) = br_clock w"
proof -
  obtain a where a: "br_ids w p = Some a"
    using open_circuit by (cases "br_ids w p") (simp_all add: current_rec_def fresh_record_def)
  then have r: "current_rec p w = br_recs w ! a" by (simp add: current_rec_def)
  have g: "getRecord p w = (a, recordProviderCircuitState p OPEN w)"
    using open_circuit by (simp add: getRecord_def a r)
  have c: "hasCooldownElapsed pol (br_recs w ! a) (recordProviderCircuitState p OPEN w) = hasCooldownElapsed pol (br_recs w ! a) w"
    by (simp add: hasCooldownElapsed_def split: option.split)
  have e: "execute pol p operation w = (Inl (ProviderCircuitOpenError p), recordProviderCircuitState p OPEN w)"
    using assms by (simp add: execute_def act_bind_apply prepareRequest_def g Let_def r c)
  moreover have "isOpen pol p w = (True, recordProviderCircuitState p OPEN w)"
    using assms by (simp add: isOpen_def g r c)
  ultimately show ?thesis by simp
qed

text \<open>
  From a closed circuit with no recorded failure, consecutive failing calls that count leave
  the circuit closed with their number as the failure count until the failure threshold is
  reached; the call that reaches it opens the circuit.
\<close>

theorem consecutive_failures_open_circuit:
  assumes valid: "assertValidCircuitBreakerPolicy pol" and ok: "breaker_ok pol w"
    and start: "state (current_rec p w) = CLOSED" "failureCount (current_rec p w) = 0"
    and iso: "isolated operation"
    and fails: "\<And>w'. \<exists>e. fst (operation w') = Inl e \<and> shouldCountCircuitFailure e"
  shows "int n \<le> failureThreshold pol \<Longrightarrow>
    breaker_ok pol (((\<lambda>w. snd (execute pol p operation w)) ^^ n) w)
    \<and> failureCount (current_rec p (((\<lambda>w. snd (execute pol p operation w)) ^^ n) w)) = int n
    \<and> state (current_rec p (((\<lambda>w. snd (execute pol p operation w)) ^^ n) w))
        = (if int n < failureThreshold pol then CLOSED else OPEN)"
proof (induction n)
  case 0
  then show ?case using start ok valid_policy_bounds [OF valid] by simp
next
  case (Suc n)
  define wn where "wn = ((\<lambda>w. snd (execute pol p operation w)) ^^ n) w"
  from Suc have wn: "breaker_ok pol wn" "failureCount (current_rec p wn) = int n"
    "state (current_rec p wn) = CLOSED" by (simp_all add: wn_def)
  then have adm: "admits pol (current_rec p wn) wn" by (simp add: admits_def)
  from execute_isolated [OF valid wn(1) adm iso] obtain w1 oc w2 where
    op: "operation w1 = (oc, w2)"
    and cur: "current_rec p (snd (execute pol p operation wn))
         = settled_rec pol (br_clock w2) oc (admitted_rec (current_rec p wn))"
    and ok': "breaker_ok pol (snd (execute pol p operation wn))" by blast
  from fails [of w1] op obtain e where e: "oc = Inl e" "shouldCountCircuitFailure e" by auto
  have "((\<lambda>w. snd (execute pol p operation w)) ^^ Suc n) w = snd (execute pol p operation wn)"
    by (simp add: wn_def)
  then show ?case
    using cur e wn ok' Suc.prems
    by (auto simp: settled_rec_def failed_rec_def released_rec_def admitted_rec_def opened_def Let_def)
qed

text \<open>
  A half-open trial that runs alone decides the circuit: success closes it and clears every
  counter, a counted failure opens it again from the time of the failure, and an error that does
  not count leaves it half-open with the trial slot given back.
\<close>

theorem half_open_trial_decides:
  assumes valid: "assertValidCircuitBreakerPolicy pol" and ok: "breaker_ok pol w"
    and opn: "state (current_rec p w) = OPEN" and cool: "hasCooldownElapsed pol (current_rec p w) w"
    and iso: "isolated operation"
  shows "\<exists>oc t. fst (execute pol p operation w) = oc \<and>
    (let r = current_rec p (snd (execute pol p operation w)) in
     case oc of
       Inr _ \<Rightarrow> r = fresh_record
     | Inl e \<Rightarrow> if shouldCountCircuitFailure e
               then state r = OPEN \<and> openedAt r = Some t \<and> lastFailureAt r = Some t
               else state r = HALF_OPEN \<and> halfOpenTrialCount r = 0)"
proof -
  have adm: "admits pol (current_rec p w) w" using opn cool by (simp add: admits_def)
  obtain w1 oc w2 where "operation w1 = (oc, w2)"
    and ex': "execute pol p operation w = (oc, settle pol p (the (br_ids w1 p)) oc w2)"
    and cur: "current_rec p (snd (execute pol p operation w))
         = settled_rec pol (br_clock w2) oc (admitted_rec (current_rec p w))"
    and "breaker_ok pol (snd (execute pol p operation w))"
    by (rule execute_isolated [OF valid ok adm iso])
  from ex' have ex: "fst (execute pol p operation w) = oc" by simp
  show ?thesis
  proof (intro exI [of _ oc] exI [of _ "br_clock w2"] conjI ex)
    show "let r = current_rec p (snd (execute pol p operation w)) in
     case oc of
       Inr _ \<Rightarrow> r = fresh_record
     | Inl e \<Rightarrow> if shouldCountCircuitFailure e
               then state r = OPEN \<and> openedAt r = Some (br_clock w2) \<and> lastFailureAt r = Some (br_clock w2)
               else state r = HALF_OPEN \<and> halfOpenTrialCount r = 0"
      unfolding cur Let_def using opn
      by (cases oc) (auto simp: settled_rec_def released_rec_def failed_rec_def admitted_rec_def
          opened_def fresh_record_def)
  qed
qed

section \<open>Witnesses and an interleaving\<close>

definition demo_timeout_error :: exn where
  "demo_timeout_error = ExnProvider
     \<lparr>pe_category = cat_timeout, pe_providerId = groq, pe_message = ''t'', pe_retryable = True,
      pe_model = None, pe_statusCode = None, pe_providerRequestId = None, pe_latencyMs = None\<rparr>"

definition demo_bad_request :: exn where
  "demo_bad_request = ExnProvider
     \<lparr>pe_category = cat_invalid_request, pe_providerId = groq, pe_message = ''b'',
      pe_retryable = False, pe_model = None, pe_statusCode = Some 400, pe_providerRequestId = None,
      pe_latencyMs = None\<rparr>"

definition demo_fail :: "(breaker, exn, unit) act" where
  "demo_fail = act_throw demo_timeout_error"

lemma demo_counts_failure: "shouldCountCircuitFailure demo_timeout_error"
  "\<not> shouldCountCircuitFailure demo_bad_request"
  by (simp_all add: shouldCountCircuitFailure_def demo_timeout_error_def demo_bad_request_def
      shouldRetryProviderError_def)

lemma demo_fail_isolated: "isolated demo_fail"
  by (simp add: isolated_def demo_fail_def)

lemma cb_init_ok: "breaker_ok pol cb_init"
  by (simp add: breaker_ok_def cb_init_def)

lemma cb_init_current: "current_rec p cb_init = fresh_record"
  by (simp add: current_rec_def cb_init_def)

text \<open>Five timeouts in a row, from the initial breaker.\<close>

definition demo_tripped :: breaker where
  "demo_tripped = ((\<lambda>w. snd (execute DEFAULT_PROVIDER_CIRCUIT_BREAKER_POLICY groq demo_fail w)) ^^ 5) cb_init"

theorem consecutive_failures_open_circuit_witness:
  "state (current_rec groq demo_tripped) = OPEN \<and> failureCount (current_rec groq demo_tripped) = 5"
  using consecutive_failures_open_circuit [of DEFAULT_PROVIDER_CIRCUIT_BREAKER_POLICY cb_init groq
      demo_fail 5, OF default_policy_valid cb_init_ok _ _ demo_fail_isolated]
  by (simp add: cb_init_current fresh_record_def demo_fail_def demo_counts_failure demo_tripped_def
      DEFAULT_PROVIDER_CIRCUIT_BREAKER_POLICY_def)

definition groq_only :: "ProviderId \<Rightarrow> nat option" where
  "groq_only = (\<lambda>_. None)(groq := Some 0)"

lemma groq_only_groq [simp]: "groq_only groq = Some 0"
  by (simp add: groq_only_def)

lemma execute_demo_fail:
  assumes "br_ids w = groq_only" and "br_recs w = [r]" and "state r = CLOSED"
  shows "br_ids (snd (execute pol groq demo_fail w)) = groq_only"
    and "br_clock (snd (execute pol groq demo_fail w)) = br_clock w"
    and "br_recs (snd (execute pol groq demo_fail w))
         = [settled_rec pol (br_clock w) (Inl demo_timeout_error :: exn + unit) r]"
  using assms
  by (simp_all add: execute_def prepareRequest_def getRecord_def act_bind_apply demo_fail_def Let_def
      br_recs_settle)

lemma execute_demo_fail_init:
  "br_ids (snd (execute pol groq demo_fail cb_init)) = groq_only"
  "br_clock (snd (execute pol groq demo_fail cb_init)) = 0"
  "br_recs (snd (execute pol groq demo_fail cb_init))
     = [settled_rec pol 0 (Inl demo_timeout_error :: exn + unit) fresh_record]"
  by (simp_all add: execute_def prepareRequest_def getRecord_def act_bind_apply demo_fail_def Let_def
      br_recs_settle cb_init_def fresh_record_def groq_only_def)

lemma settled_demo_closed:
  "state r = CLOSED \<Longrightarrow> failureCount r + 1 < failureThreshold pol \<Longrightarrow>
   settled_rec pol t (Inl demo_timeout_error :: exn + unit) r
     = r\<lparr>lastFailureAt := Some t, failureCount := failureCount r + 1\<rparr>"
  "state r = CLOSED \<Longrightarrow> failureCount r + 1 \<ge> failureThreshold pol \<Longrightarrow>
   settled_rec pol t (Inl demo_timeout_error :: exn + unit) r
     = opened t (r\<lparr>lastFailureAt := Some t, failureCount := failureCount r + 1\<rparr>)"
  by (simp_all add: settled_rec_def failed_rec_def released_rec_def demo_counts_failure opened_def)

lemma demo_tripped_facts:
  "br_ids demo_tripped = groq_only" "br_clock demo_tripped = 0"
  "br_recs demo_tripped = [\<lparr>state = OPEN, failureCount = 5, openedAt = Some 0,
     lastFailureAt = Some 0, halfOpenTrialCount = 0\<rparr>]"
  by (simp_all add: demo_tripped_def numeral_eq_Suc execute_demo_fail_init execute_demo_fail
      settled_demo_closed fresh_record_def DEFAULT_PROVIDER_CIRCUIT_BREAKER_POLICY_def opened_def)

lemma demo_tripped_ok: "breaker_ok DEFAULT_PROVIDER_CIRCUIT_BREAKER_POLICY demo_tripped"
  by (auto simp: breaker_ok_def demo_tripped_facts rec_ok_def DEFAULT_PROVIDER_CIRCUIT_BREAKER_POLICY_def
      groq_only_def split: if_splits)

theorem open_circuit_fails_fast_witness:
  "fst (execute DEFAULT_PROVIDER_CIRCUIT_BREAKER_POLICY groq demo_fail demo_tripped) = Inl (ProviderCircuitOpenError groq)
   \<and> br_recs (snd (execute DEFAULT_PROVIDER_CIRCUIT_BREAKER_POLICY groq demo_fail demo_tripped)) = br_recs demo_tripped"
proof -
  have "state (current_rec groq demo_tripped) = OPEN"
    and "\<not> hasCooldownElapsed DEFAULT_PROVIDER_CIRCUIT_BREAKER_POLICY (current_rec groq demo_tripped) demo_tripped"
    by (simp_all add: current_rec_def demo_tripped_facts hasCooldownElapsed_def
        DEFAULT_PROVIDER_CIRCUIT_BREAKER_POLICY_def)
  from open_circuit_fails_fast [OF this, of demo_fail]
  show ?thesis by simp
qed

definition demo_cooled :: breaker where
  "demo_cooled = demo_tripped\<lparr>br_clock := 30000\<rparr>"

theorem half_open_trial_decides_witness:
  "\<exists>t. state (current_rec groq (snd (execute DEFAULT_PROVIDER_CIRCUIT_BREAKER_POLICY groq demo_fail demo_cooled)))
      = OPEN \<and> openedAt (current_rec groq (snd (execute DEFAULT_PROVIDER_CIRCUIT_BREAKER_POLICY groq
                 demo_fail demo_cooled))) = Some t"
proof -
  have ok: "breaker_ok DEFAULT_PROVIDER_CIRCUIT_BREAKER_POLICY demo_cooled"
    using demo_tripped_ok by (simp add: demo_cooled_def breaker_ok_def)
  have "state (current_rec groq demo_cooled) = OPEN"
    and "hasCooldownElapsed DEFAULT_PROVIDER_CIRCUIT_BREAKER_POLICY (current_rec groq demo_cooled) demo_cooled"
    by (simp_all add: current_rec_def demo_cooled_def demo_tripped_facts hasCooldownElapsed_def
        DEFAULT_PROVIDER_CIRCUIT_BREAKER_POLICY_def)
  from half_open_trial_decides [OF default_policy_valid ok this demo_fail_isolated]
  have "\<exists>t. state (current_rec groq (snd (execute DEFAULT_PROVIDER_CIRCUIT_BREAKER_POLICY groq demo_fail demo_cooled)))
      = OPEN \<and> openedAt (current_rec groq (snd (execute DEFAULT_PROVIDER_CIRCUIT_BREAKER_POLICY groq
                 demo_fail demo_cooled))) = Some t
    \<or> fst (execute DEFAULT_PROVIDER_CIRCUIT_BREAKER_POLICY groq demo_fail demo_cooled) \<noteq> Inl demo_timeout_error"
    by (auto simp: Let_def demo_counts_failure split: sum.splits if_splits)
  moreover have "fst (execute DEFAULT_PROVIDER_CIRCUIT_BREAKER_POLICY groq demo_fail demo_cooled)
      = Inl demo_timeout_error"
    by (simp add: demo_cooled_def demo_tripped_facts demo_fail_def execute_def prepareRequest_def
        getRecord_def hasCooldownElapsed_def act_bind_apply Let_def DEFAULT_PROVIDER_CIRCUIT_BREAKER_POLICY_def)
  ultimately show ?thesis by blast
qed

text \<open>A call that starts and fails at once is two steps of the relation.\<close>

lemma cb_reachable_execute_fail:
  assumes r: "cb_reachable pol (w, calls)" and p: "prepareRequest pol p w = (Inr a, w')"
  shows "cb_reachable pol (snd (execute pol p demo_fail w), calls)"
proof -
  from cb_next [OF r cb_step.start [OF p]] have
    "cb_reachable pol (w', calls @ [(p, a, state (br_recs w' ! a) = HALF_OPEN)])" .
  from cb_next [OF this cb_step.finish [of _ _ calls _ _ _ "[]" "Inl demo_timeout_error"]]
  show ?thesis by (simp add: execute_def act_bind_apply p demo_fail_def)
qed

lemma prepareRequest_closed:
  assumes "br_ids w = groq_only" and "br_recs w = [r]" and "state r = CLOSED"
  shows "prepareRequest pol groq w = (Inr 0, recordProviderCircuitState groq CLOSED w)"
  using assms by (simp add: prepareRequest_def getRecord_def Let_def)

lemma cb_reachable_fail_closed:
  assumes "cb_reachable pol (w, calls)"
    and "br_ids w = groq_only" and "br_recs w = [r]" and "state r = CLOSED"
  shows "cb_reachable pol (snd (execute pol groq demo_fail w), calls)"
  using assms by (intro cb_reachable_execute_fail [OF assms(1) prepareRequest_closed])

text \<open>The breaker after one call is in flight and five later calls timed out.\<close>

abbreviation demo_pol :: ProviderCircuitBreakerPolicy where
  "demo_pol \<equiv> DEFAULT_PROVIDER_CIRCUIT_BREAKER_POLICY"

definition demo_busy :: breaker where
  "demo_busy = snd (prepareRequest demo_pol groq cb_init)"

lemma demo_busy_facts: "br_ids demo_busy = groq_only" "br_recs demo_busy = [fresh_record]"
  "br_clock demo_busy = 0" "cb_reachable demo_pol (demo_busy, [(groq, 0, False)])"
proof -
  have p: "prepareRequest demo_pol groq cb_init = (Inr 0, demo_busy)"
    by (simp add: demo_busy_def prepareRequest_def getRecord_def cb_init_def Let_def fresh_record_def)
  show f: "br_ids demo_busy = groq_only" "br_recs demo_busy = [fresh_record]"
    "br_clock demo_busy = 0"
    by (simp_all add: demo_busy_def prepareRequest_def getRecord_def cb_init_def Let_def fresh_record_def
        groq_only_def)
  show "cb_reachable demo_pol (demo_busy, [(groq, 0, False)])"
    using cb_next [OF cb_start cb_step.start [OF p, of "[]"]] f by (simp add: fresh_record_def)
qed

lemma demo_busy_fails:
  "n \<le> 4 \<Longrightarrow>
   (let w = ((\<lambda>w. snd (execute demo_pol groq demo_fail w)) ^^ n) demo_busy in
    cb_reachable demo_pol (w, [(groq, 0, False)]) \<and> br_ids w = groq_only
    \<and> br_clock w = 0 \<and> (\<exists>r. br_recs w = [r] \<and> state r = CLOSED \<and> failureCount r = int n))"
proof (induction n)
  case 0
  show ?case using demo_busy_facts by (simp add: Let_def fresh_record_def)
next
  case (Suc n)
  define w where "w = ((\<lambda>w. snd (execute demo_pol groq demo_fail w)) ^^ n) demo_busy"
  from Suc obtain r where w: "cb_reachable demo_pol (w, [(groq, 0, False)])"
    "br_ids w = groq_only" "br_clock w = 0" "br_recs w = [r]" "state r = CLOSED"
    "failureCount r = int n" by (auto simp: w_def Let_def)
  have "((\<lambda>w. snd (execute demo_pol groq demo_fail w)) ^^ Suc n) demo_busy
      = snd (execute demo_pol groq demo_fail w)" by (simp add: w_def)
  with w Suc.prems cb_reachable_fail_closed [OF w(1,2,4,5)] execute_demo_fail [OF w(2,4,5), of demo_pol]
  show ?case
    by (simp add: Let_def settled_demo_closed DEFAULT_PROVIDER_CIRCUIT_BREAKER_POLICY_def)
qed

lemma demo_busy_tripped:
  obtains w r where "cb_reachable demo_pol (w, [(groq, 0, False)])"
    and "br_ids w = groq_only" and "br_clock w = 0" and "br_recs w = [r]"
    and "state r = OPEN" and "openedAt r = Some 0" and "halfOpenTrialCount r = 0"
proof -
  from demo_busy_fails [of 4] obtain w r where w: "cb_reachable demo_pol (w, [(groq, 0, False)])"
    "br_ids w = groq_only" "br_clock w = 0" "br_recs w = [r]" "state r = CLOSED"
    "failureCount r = 4" by (auto simp: Let_def)
  then show thesis
    using that [OF cb_reachable_fail_closed [OF w(1,2,4,5)]] execute_demo_fail [OF w(2,4,5), of demo_pol]
    by (simp add: settled_demo_closed DEFAULT_PROVIDER_CIRCUIT_BREAKER_POLICY_def opened_def)
qed

text \<open>
  The half-open limit is not a limit on concurrent trials. With the default policy (one
  trial) there is a reachable configuration in which a half-open trial is in flight and the
  breaker nevertheless admits a second call in the same half-open period: a call that was admitted
  while the circuit was still closed ended with an error that does not count, and the
  \<^verbatim>\<open>finally\<close> block gave back the trial slot of the other call.
\<close>

theorem half_open_admits_second_trial:
  "\<exists>w w'. cb_reachable DEFAULT_PROVIDER_CIRCUIT_BREAKER_POLICY (w, [(groq, 0, True)])
     \<and> state (br_recs w ! 0) = HALF_OPEN
     \<and> prepareRequest DEFAULT_PROVIDER_CIRCUIT_BREAKER_POLICY groq w = (Inr 0, w')
     \<and> state (br_recs w' ! 0) = HALF_OPEN
     \<and> halfOpenMaxTrials DEFAULT_PROVIDER_CIRCUIT_BREAKER_POLICY = 1"
proof -
  obtain w r where w: "cb_reachable demo_pol (w, [(groq, 0, False)])"
    "br_ids w = groq_only" "br_clock w = 0" "br_recs w = [r]"
    "state r = OPEN" "openedAt r = Some 0" "halfOpenTrialCount r = 0"
    by (rule demo_busy_tripped)
  define w1 where "w1 = w\<lparr>br_clock := br_clock w + 30000\<rparr>"
  have r1: "cb_reachable demo_pol (w1, [(groq, 0, False)])"
    unfolding w1_def by (rule cb_next [OF w(1)]) (rule cb_step.tick, simp)
  define w2 where "w2 = snd (prepareRequest demo_pol groq w1)"
  define r2 where "r2 = r\<lparr>state := HALF_OPEN, halfOpenTrialCount := 1\<rparr>"
  have p1: "prepareRequest demo_pol groq w1 = (Inr 0, w2)" and recs2: "br_recs w2 = [r2]"
    and ids2: "br_ids w2 = groq_only"
    using w by (simp_all add: w2_def w1_def r2_def prepareRequest_def getRecord_def Let_def
        hasCooldownElapsed_def DEFAULT_PROVIDER_CIRCUIT_BREAKER_POLICY_def)
  have r2': "cb_reachable demo_pol (w2, [] @ (groq, 0, False) # [(groq, 0, True)])"
    using cb_next [OF r1 cb_step.start [OF p1]] recs2 by (simp add: r2_def)
  define w3 where "w3 = settle demo_pol groq 0 (Inl demo_bad_request :: exn + unit) w2"
  have r3: "cb_reachable demo_pol (w3, [(groq, 0, True)])"
    using cb_next [OF r2' cb_step.finish [of demo_pol w2 "[]" groq 0 False _ "Inl demo_bad_request"]]
    by (simp add: w3_def)
  have recs3: "br_recs w3 = [r2\<lparr>halfOpenTrialCount := 0\<rparr>]" and ids3: "br_ids w3 groq = Some 0"
    by (simp_all add: w3_def br_recs_settle recs2 ids2 settled_rec_def failed_rec_def released_rec_def
        demo_counts_failure r2_def)
  define w4 where "w4 = snd (prepareRequest demo_pol groq w3)"
  have "prepareRequest demo_pol groq w3 = (Inr 0, w4)" "state (br_recs w4 ! 0) = HALF_OPEN"
    using recs3 ids3
    by (simp_all add: w4_def prepareRequest_def getRecord_def Let_def r2_def
        DEFAULT_PROVIDER_CIRCUIT_BREAKER_POLICY_def)
  with r3 recs3 show ?thesis
    by (intro exI [of _ w3] exI [of _ w4]) (simp add: r2_def DEFAULT_PROVIDER_CIRCUIT_BREAKER_POLICY_def)
qed

end
