(* ===== verification/ProviderAdapters.thy ===== *)
theory ProviderAdapters
  imports CircuitBreaker
begin

text \<open>
  The adapter interface (\<^verbatim>\<open>providers/provider-adapter.ts\<close>), the capability registry
  (\<^verbatim>\<open>provider-capability.registry.ts\<close>) and the deterministic fake adapter
  (\<^verbatim>\<open>fake-provider.adapter.ts\<close>).

  An adapter is a record of its operations over the world \<open>'s\<close>; \<open>'it\<close> is the
  type of the iterators its streams hand out, and \<open>ad_next\<close> is one \<^verbatim>\<open>next()\<close>. The
  locale \<open>provider_adapter\<close> states what a caller of \<^verbatim>\<open>complete\<close> relies on, and
  is interpreted on the fake adapter.
\<close>

record ('s, 'it) ProviderAdapter =
  ad_providerId :: ProviderId
  ad_complete :: "'s CompletionRequest \<Rightarrow> ('s, exn, CompletionResult) act"
  ad_stream :: "'s CompletionRequest \<Rightarrow> ('s, exn, 'it) act"
  ad_next :: "'it \<Rightarrow> ('s, exn, StreamChunk option \<times> 'it) act"
  ad_checkHealth :: "('s, exn, ProviderHealth) act"
  ad_getCapabilities :: ProviderCapabilities

section \<open>Capability registry\<close>

definition GROQ_PROVIDER_ID :: ProviderId where "GROQ_PROVIDER_ID = groq"
definition FAKE_PROVIDER_ID :: ProviderId where "FAKE_PROVIDER_ID = third"
definition FAKE_PROVIDER_MODEL_ID :: string where "FAKE_PROVIDER_MODEL_ID = ''fake-model''"
definition GROQ_MAX_INPUT_TOKENS :: int where "GROQ_MAX_INPUT_TOKENS = 20000"
definition GROQ_MAX_OUTPUT_TOKENS :: int where "GROQ_MAX_OUTPUT_TOKENS = 4096"
definition FAKE_MAX_INPUT_TOKENS :: int where "FAKE_MAX_INPUT_TOKENS = 20000"
definition FAKE_MAX_OUTPUT_TOKENS :: int where "FAKE_MAX_OUTPUT_TOKENS = 4096"

record ProviderModelCapability =
  mc_providerId :: ProviderId
  mc_model :: string
  mc_supportsStreaming :: bool
  mc_supportsNonStreaming :: bool
  mc_maxInputTokens :: int
  mc_maxOutputTokens :: int

record ProviderRegistryEntry = ProviderCapabilities +
  entry_models :: "ProviderModelCapability list"

type_synonym ProviderCapabilityRegistry = "ProviderId \<Rightarrow> ProviderRegistryEntry option"

definition createUnsupportedProviderError :: "ProviderId \<Rightarrow> exn" where
  "createUnsupportedProviderError p = ExnProvider
     \<lparr>pe_category = cat_invalid_request, pe_providerId = p, pe_message = ''Unsupported provider.'',
      pe_retryable = False, pe_model = None, pe_statusCode = Some 400, pe_providerRequestId = None,
      pe_latencyMs = None\<rparr>"

definition createUnsupportedModelError :: "ProviderId \<Rightarrow> string \<Rightarrow> exn" where
  "createUnsupportedModelError p mo = ExnProvider
     \<lparr>pe_category = cat_invalid_request, pe_providerId = p, pe_message = ''Unsupported provider model.'',
      pe_retryable = False, pe_model = Some mo, pe_statusCode = Some 400, pe_providerRequestId = None,
      pe_latencyMs = None\<rparr>"

definition createRegistryEntry ::
  "ProviderId \<Rightarrow> ProviderModelCapability list \<Rightarrow> exn + ProviderRegistryEntry" where
  "createRegistryEntry p ms =
     (if ms = [] then Inl (createUnsupportedProviderError p)
      else Inr \<lparr>cap_providerId = p, cap_supportedModels = map mc_model ms,
        cap_supportsStreaming = list_ex mc_supportsStreaming ms,
        cap_supportsNonStreaming = list_ex mc_supportsNonStreaming ms,
        cap_maxInputTokens = Max (set (map mc_maxInputTokens ms)),
        cap_maxOutputTokens = Max (set (map mc_maxOutputTokens ms)),
        entry_models = ms\<rparr>)"

definition createProviderCapabilityRegistry :: "string \<Rightarrow> exn + ProviderCapabilityRegistry" where
  "createProviderCapabilityRegistry configuredGroqModel =
     (case createRegistryEntry GROQ_PROVIDER_ID
             [\<lparr>mc_providerId = GROQ_PROVIDER_ID, mc_model = configuredGroqModel,
               mc_supportsStreaming = True, mc_supportsNonStreaming = True,
               mc_maxInputTokens = GROQ_MAX_INPUT_TOKENS, mc_maxOutputTokens = GROQ_MAX_OUTPUT_TOKENS\<rparr>] of
        Inl e \<Rightarrow> Inl e
      | Inr groqEntry \<Rightarrow>
          (case createRegistryEntry FAKE_PROVIDER_ID
                  [\<lparr>mc_providerId = FAKE_PROVIDER_ID, mc_model = FAKE_PROVIDER_MODEL_ID,
                    mc_supportsStreaming = True, mc_supportsNonStreaming = True,
                    mc_maxInputTokens = FAKE_MAX_INPUT_TOKENS, mc_maxOutputTokens = FAKE_MAX_OUTPUT_TOKENS\<rparr>] of
             Inl e \<Rightarrow> Inl e
           | Inr fakeEntry \<Rightarrow>
               Inr (map_of [(GROQ_PROVIDER_ID, groqEntry), (FAKE_PROVIDER_ID, fakeEntry)])))"

definition getProviderCapabilities :: "ProviderId \<Rightarrow> ProviderCapabilityRegistry \<Rightarrow> exn + ProviderRegistryEntry" where
  "getProviderCapabilities p reg =
     (case reg p of None \<Rightarrow> Inl (createUnsupportedProviderError p) | Some c \<Rightarrow> Inr c)"

definition getProviderModelCapability ::
  "ProviderId \<Rightarrow> string \<Rightarrow> ProviderCapabilityRegistry \<Rightarrow> exn + ProviderModelCapability" where
  "getProviderModelCapability p mo reg =
     (case getProviderCapabilities p reg of
        Inl e \<Rightarrow> Inl e
      | Inr c \<Rightarrow> (case List.find (\<lambda>m. mc_model m = mo) (entry_models c) of
           None \<Rightarrow> Inl (createUnsupportedModelError p mo)
         | Some m \<Rightarrow> Inr m))"

text \<open>The production registry: exactly the configured Groq model and the fake model.\<close>

lemma registry_lookup:
  assumes "createProviderCapabilityRegistry gm = Inr reg"
  shows "getProviderModelCapability p mo reg =
    (if p = groq \<and> mo = gm then
       Inr \<lparr>mc_providerId = groq, mc_model = gm, mc_supportsStreaming = True,
         mc_supportsNonStreaming = True, mc_maxInputTokens = 20000, mc_maxOutputTokens = 4096\<rparr>
     else if p = third \<and> mo = FAKE_PROVIDER_MODEL_ID then
       Inr \<lparr>mc_providerId = third, mc_model = FAKE_PROVIDER_MODEL_ID, mc_supportsStreaming = True,
         mc_supportsNonStreaming = True, mc_maxInputTokens = 20000, mc_maxOutputTokens = 4096\<rparr>
     else if p = gemini then Inl (createUnsupportedProviderError p)
     else Inl (createUnsupportedModelError p mo))"
  using assms
  by (cases p)
     (auto simp: createProviderCapabilityRegistry_def createRegistryEntry_def
       getProviderModelCapability_def getProviderCapabilities_def GROQ_PROVIDER_ID_def
       FAKE_PROVIDER_ID_def GROQ_MAX_INPUT_TOKENS_def GROQ_MAX_OUTPUT_TOKENS_def
       FAKE_MAX_INPUT_TOKENS_def FAKE_MAX_OUTPUT_TOKENS_def)

lemma registry_created: "\<exists>reg. createProviderCapabilityRegistry gm = Inr reg"
  by (simp add: createProviderCapabilityRegistry_def createRegistryEntry_def)

section \<open>The fake adapter\<close>

datatype FakeProviderMode =
  fm_success | fm_timeout | fm_rate_limit | fm_server_error | fm_mid_stream_failure

text \<open>The read-only fields of the class, and the two fields that change. The object lives in
  the world; \<open>get\<close> and \<open>put\<close> read and write its changing part.\<close>

record FakeProviderAdapter =
  fk_providerId :: ProviderId
  fk_model :: string
  fk_completionText :: jsstr
  fk_streamTokens :: "jsstr list"
  fk_latencyMs :: int
  fk_estimatedCostUsd :: rat

record fake_state =
  fk_mode :: FakeProviderMode
  fk_callCount :: nat

definition fake_setMode :: "FakeProviderMode \<Rightarrow> fake_state \<Rightarrow> fake_state" where
  "fake_setMode m s = s\<lparr>fk_mode := m\<rparr>"

definition fake_getCallCount :: "fake_state \<Rightarrow> nat" where
  "fake_getCallCount s = fk_callCount s"

definition fake_resetCallCount :: "fake_state \<Rightarrow> fake_state" where
  "fake_resetCallCount s = s\<lparr>fk_callCount := 0\<rparr>"

definition fake_default :: FakeProviderAdapter where
  "fake_default = \<lparr>fk_providerId = FAKE_PROVIDER_ID, fk_model = FAKE_PROVIDER_MODEL_ID,
     fk_completionText = js_lit ''Fake provider response.'',
     fk_streamTokens = [js_lit ''Fake '', js_lit ''provider '', js_lit ''response.''],
     fk_latencyMs = 25, fk_estimatedCostUsd = 0\<rparr>"

definition fake_createError ::
  "FakeProviderAdapter \<Rightarrow> ProviderErrorCategory \<Rightarrow> string \<Rightarrow> bool \<Rightarrow> int option \<Rightarrow> string \<Rightarrow> exn" where
  "fake_createError f cat msg retry code mo = ExnProvider
     \<lparr>pe_category = cat, pe_providerId = fk_providerId f, pe_message = msg, pe_retryable = retry,
      pe_model = Some mo, pe_statusCode = code, pe_providerRequestId = None,
      pe_latencyMs = Some (fk_latencyMs f)\<rparr>"

definition fake_assertRequestMatchesAdapter ::
  "FakeProviderAdapter \<Rightarrow> 's CompletionRequest \<Rightarrow> ('s, exn, unit) act" where
  "fake_assertRequestMatchesAdapter f req =
     (if cr_providerId req \<noteq> fk_providerId f
      then act_throw (fake_createError f cat_invalid_request
             ''Completion request provider does not match adapter.'' False (Some 400) (fk_model f))
      else act_ret ())"

definition fake_throwIfAborted :: "FakeProviderAdapter \<Rightarrow> 's CompletionRequest \<Rightarrow> ('s, exn, unit) act" where
  "fake_throwIfAborted f req w =
     (if aborted (cr_abortSignal req) w
      then (Inl (fake_createError f cat_timeout ''Fake provider request was aborted.'' True None (fk_model f)), w)
      else (Inr (), w))"

definition fake_throwIfImmediateFailure ::
  "FakeProviderAdapter \<Rightarrow> ('s \<Rightarrow> fake_state) \<Rightarrow> 's CompletionRequest \<Rightarrow> ('s, exn, unit) act" where
  "fake_throwIfImmediateFailure f get req w =
     (case fk_mode (get w) of
        fm_success \<Rightarrow> (Inr (), w)
      | fm_mid_stream_failure \<Rightarrow> (Inr (), w)
      | fm_timeout \<Rightarrow> (Inl (fake_createError f cat_timeout ''Fake provider timed out.'' True None (cr_model req)), w)
      | fm_rate_limit \<Rightarrow> (Inl (fake_createError f cat_rate_limit ''Fake provider rate limit exceeded.''
            True (Some 429) (cr_model req)), w)
      | fm_server_error \<Rightarrow> (Inl (fake_createError f cat_provider_error ''Fake provider returned a server error.''
            True (Some 500) (cr_model req)), w))"

definition estimateTokens :: "jsstr \<Rightarrow> int" where
  "estimateTokens t = max 1 ((int (length (code_points t)) + 3) div 4)"

definition join_with :: "jsstr \<Rightarrow> jsstr list \<Rightarrow> jsstr" where
  "join_with sep xs = (case xs of [] \<Rightarrow> [] | y # ys \<Rightarrow> y @ concat (map (\<lambda>z. sep @ z) ys))"

definition fake_createUsage :: "'s CompletionRequest \<Rightarrow> jsstr \<Rightarrow> TokenUsage" where
  "fake_createUsage req out =
     (let i = estimateTokens (join_with (js_lit '' '') (map pm_content (cr_messages req)));
          oc = estimateTokens out
      in \<lparr>inputTokens = i, outputTokens = oc, totalTokens = i + oc\<rparr>)"

definition fake_countCall :: "('s \<Rightarrow> fake_state) \<Rightarrow> (fake_state \<Rightarrow> 's \<Rightarrow> 's) \<Rightarrow> ('s, exn, unit) act" where
  "fake_countCall get put = act_modify (\<lambda>w. put ((get w)\<lparr>fk_callCount := fk_callCount (get w) + 1\<rparr>) w)"

definition fake_complete ::
  "FakeProviderAdapter \<Rightarrow> ('s \<Rightarrow> fake_state) \<Rightarrow> (fake_state \<Rightarrow> 's \<Rightarrow> 's) \<Rightarrow>
   's CompletionRequest \<Rightarrow> ('s, exn, CompletionResult) act" where
  "fake_complete f get put req =
     act_then (fake_countCall get put)
       (act_then (fake_assertRequestMatchesAdapter f req)
         (act_then (fake_throwIfAborted f req)
           (act_then (fake_throwIfImmediateFailure f get req)
             (act_ret \<lparr>res_providerId = fk_providerId f, res_model = cr_model req,
                res_outputText = fk_completionText f, res_finishReason = FinishStop,
                res_usage = Some (fake_createUsage req (fk_completionText f)),
                res_latencyMs = fk_latencyMs f, res_estimatedCostUsd = Some (fk_estimatedCostUsd f)\<rparr>))))"

text \<open>The generator \<^verbatim>\<open>createStream\<close>: not started, suspended after yielding token
  number \<open>i\<close>, or finished.\<close>

datatype 's fake_iter = FakeBegin "'s CompletionRequest" | FakeAfter "'s CompletionRequest" nat | FakeEnd

definition fake_stream ::
  "FakeProviderAdapter \<Rightarrow> ('s \<Rightarrow> fake_state) \<Rightarrow> (fake_state \<Rightarrow> 's \<Rightarrow> 's) \<Rightarrow>
   's CompletionRequest \<Rightarrow> ('s, exn, 's fake_iter) act" where
  "fake_stream f get put req =
     act_then (fake_countCall get put)
       (act_then (fake_assertRequestMatchesAdapter f req)
         (act_then (fake_throwIfAborted f req) (act_ret (FakeBegin req))))"

definition fake_yield :: "FakeProviderAdapter \<Rightarrow> 's CompletionRequest \<Rightarrow> nat \<Rightarrow> StreamChunk option \<times> 's fake_iter" where
  "fake_yield f req i =
     (if i < length (fk_streamTokens f) then (Some (ChunkToken (fk_streamTokens f ! i)), FakeAfter req i)
      else (Some (ChunkDone FinishStop (Some (fake_createUsage req (concat (fk_streamTokens f))))
                    (fk_latencyMs f) (Some (fk_estimatedCostUsd f))), FakeEnd))"

fun fake_next ::
  "FakeProviderAdapter \<Rightarrow> ('s \<Rightarrow> fake_state) \<Rightarrow> 's fake_iter \<Rightarrow>
   ('s, exn, StreamChunk option \<times> 's fake_iter) act" where
  "fake_next f get (FakeBegin req) =
     act_then (fake_throwIfImmediateFailure f get req) (act_ret (fake_yield f req 0))"
| "fake_next f get (FakeAfter req i) =
     (\<lambda>w. if fk_mode (get w) = fm_mid_stream_failure \<and> i = 0
          then (Inl (fake_createError f cat_provider_error ''Fake provider failed during streaming.''
                  True (Some 500) (fk_model f)), w)
          else (Inr (fake_yield f req (i + 1)), w))"
| "fake_next f get FakeEnd = act_ret (None, FakeEnd)"

definition fake_checkHealth ::
  "FakeProviderAdapter \<Rightarrow> ('x breaker_scheme \<Rightarrow> fake_state) \<Rightarrow> ('x breaker_scheme, exn, ProviderHealth) act" where
  "fake_checkHealth f get w =
     (Inr \<lparr>ph_providerId = fk_providerId f,
        ph_status = (if fk_mode (get w) = fm_success then healthy else degraded),
        ph_checkedAt = br_clock w, ph_latencyMs = Some (fk_latencyMs f), ph_errorCategory = None\<rparr>, w)"

definition fake_getCapabilities ::
  "FakeProviderAdapter \<Rightarrow> ProviderCapabilityRegistry \<Rightarrow> exn + ProviderCapabilities" where
  "fake_getCapabilities f reg =
     (if fk_providerId f = FAKE_PROVIDER_ID \<and> fk_model f = FAKE_PROVIDER_MODEL_ID
      then map_sum id ProviderCapabilities.truncate (getProviderCapabilities FAKE_PROVIDER_ID reg)
      else Inr \<lparr>cap_providerId = fk_providerId f, cap_supportedModels = [fk_model f],
             cap_supportsStreaming = True, cap_supportsNonStreaming = True,
             cap_maxInputTokens = FAKE_MAX_INPUT_TOKENS, cap_maxOutputTokens = FAKE_MAX_OUTPUT_TOKENS\<rparr>)"

definition fake_adapter ::
  "FakeProviderAdapter \<Rightarrow> ProviderCapabilities \<Rightarrow> ('x breaker_scheme \<Rightarrow> fake_state) \<Rightarrow>
   (fake_state \<Rightarrow> 'x breaker_scheme \<Rightarrow> 'x breaker_scheme) \<Rightarrow>
   ('x breaker_scheme, ('x breaker_scheme) fake_iter) ProviderAdapter" where
  "fake_adapter f caps get put =
     \<lparr>ad_providerId = fk_providerId f, ad_complete = fake_complete f get put,
      ad_stream = fake_stream f get put, ad_next = fake_next f get,
      ad_checkHealth = fake_checkHealth f get, ad_getCapabilities = caps\<rparr>"

section \<open>What a caller relies on\<close>

text \<open>
  The contract of \<^verbatim>\<open>complete\<close>: a returned result names the adapter's provider and the
  model that was asked for, and a request for another provider is not served.
\<close>

locale provider_adapter =
  fixes ad :: "('s, 'it) ProviderAdapter"
  assumes complete_result:
    "ad_complete ad req w = (Inr res, w') \<Longrightarrow>
     res_providerId res = ad_providerId ad \<and> res_model res = cr_model req"
  and complete_matches:
    "ad_complete ad req w = (Inr res, w') \<Longrightarrow> cr_providerId req = ad_providerId ad"
begin

lemma complete_serves_request:
  assumes "ad_complete ad req w = (Inr res, w')"
  shows "res_providerId res = cr_providerId req \<and> res_model res = cr_model req"
  using complete_result [OF assms] complete_matches [OF assms] by simp

end

lemma fake_complete_result:
  assumes "fake_complete f get put req w = (Inr res, w')"
  shows "res_providerId res = fk_providerId f \<and> res_model res = cr_model req
    \<and> cr_providerId req = fk_providerId f"
  using assms
  by (auto simp: fake_complete_def fake_countCall_def fake_assertRequestMatchesAdapter_def
      fake_throwIfAborted_def fake_throwIfImmediateFailure_def act_simps
      split: if_splits sum.splits prod.splits FakeProviderMode.splits)

interpretation fake_ad: provider_adapter "fake_adapter f caps get put" for f caps get put
  by unfold_locales (auto simp: fake_adapter_def dest: fake_complete_result)

text \<open>The usage a fake adapter reports is consistent, as the accounting requires.\<close>

lemma fake_createUsage_total:
  "totalTokens (fake_createUsage req t) = inputTokens (fake_createUsage req t) + outputTokens (fake_createUsage req t)
   \<and> 1 \<le> inputTokens (fake_createUsage req t) \<and> 1 \<le> outputTokens (fake_createUsage req t)"
  by (simp add: fake_createUsage_def Let_def estimateTokens_def)

end
