(* ===== verification/ProviderFallback.thy ===== *)
theory ProviderFallback
  imports ProviderAdapters
begin

text \<open>
  Ordered fallback over provider candidates (\<^verbatim>\<open>providers/provider-fallback.ts\<close>), for
  completions and for streams, on top of the retry loop and the circuit breaker.

  The adapters of the candidates are parameters. The callback
  \<^verbatim>\<open>recordEvent\<close> is a total function of the world: the only caller passes one that
  appends to an array and logs.

  The async generator \<^verbatim>\<open>createFallbackStream\<close> is a state machine: \<open>GStart\<close>
  before its first \<^verbatim>\<open>next()\<close>, \<open>GRun\<close> while it forwards one provider's
  iterator, \<open>GDone\<close> after it returned or threw. \<open>stream_next\<close> is one
  \<^verbatim>\<open>next()\<close> of the consumer.
\<close>

record ('s, 'it) ProviderFallbackCandidate =
  adapter :: "('s, 'it) ProviderAdapter"
  cand_model :: string

record 's ProviderFallbackBaseRequest =
  br_requestId :: string
  br_messages :: "ProviderMessage list"
  br_maxOutputTokens :: int
  br_abortSignal :: "('s \<Rightarrow> bool) option"

datatype ProviderFallbackEventType =
  fallback_candidate_succeeded | fallback_candidate_failed | fallback_candidate_skipped
| fallback_all_unavailable

record ProviderFallbackEvent =
  ev_type :: ProviderFallbackEventType
  ev_requestId :: string
  ev_providerId :: "ProviderId option"
  ev_model :: "string option"
  ev_attemptNumber :: "nat option"
  ev_errorCategory :: "ProviderErrorCategory option"
  ev_statusCode :: "int option"

record 's ProviderFallbackOptions =
  fo_breakerPolicy :: ProviderCircuitBreakerPolicy
  fo_retryPolicy :: "ProviderRetryPolicy option"
  fo_calculateJitterMs :: "(int \<Rightarrow> ('s, exn, jsnum) act) option"
  fo_sleep :: "(int \<Rightarrow> ('s \<Rightarrow> bool) option \<Rightarrow> ('s, exn, unit) act) option"
  fo_recordEvent :: "(ProviderFallbackEvent \<Rightarrow> 's \<Rightarrow> 's) option"

record ProviderFallbackMetadata =
  md_requestId :: string
  md_selectedProviderId :: "ProviderId option"
  md_selectedModel :: "string option"
  md_attempts :: "ProviderFallbackAttemptMetadata list"

section \<open>Helpers of the fallback\<close>

definition fallback_recordEvent :: "'s ProviderFallbackOptions \<Rightarrow> ProviderFallbackEvent \<Rightarrow> 's \<Rightarrow> 's" where
  "fallback_recordEvent opts ev w = (case fo_recordEvent opts of None \<Rightarrow> w | Some f \<Rightarrow> f ev w)"

definition no_candidate :: exn where
  "no_candidate = ExnOther ''Provider fallback requires at least one candidate.''"

definition createCandidateRequest ::
  "'s ProviderFallbackBaseRequest \<Rightarrow> ('s, 'it) ProviderFallbackCandidate \<Rightarrow> 's CompletionRequest" where
  "createCandidateRequest req c =
     \<lparr>cr_requestId = br_requestId req, cr_providerId = ad_providerId (adapter c),
      cr_model = cand_model c, cr_messages = br_messages req,
      cr_maxOutputTokens = br_maxOutputTokens req, cr_abortSignal = br_abortSignal req\<rparr>"

definition createMetadata ::
  "string \<Rightarrow> ProviderFallbackAttemptMetadata list \<Rightarrow> ('s, 'it) ProviderFallbackCandidate \<Rightarrow>
   ProviderFallbackMetadata" where
  "createMetadata rid attempts c =
     \<lparr>md_requestId = rid, md_selectedProviderId = Some (ad_providerId (adapter c)),
      md_selectedModel = Some (cand_model c), md_attempts = attempts\<rparr>"

definition createRetryOptions ::
  "'s ProviderFallbackBaseRequest \<Rightarrow> ('s, 'it) ProviderFallbackCandidate \<Rightarrow>
   's ProviderFallbackOptions \<Rightarrow> 's ProviderRetryOptions" where
  "createRetryOptions req c opts =
     \<lparr>rto_providerId = ad_providerId (adapter c), rto_model = Some (cand_model c),
      rto_policy = Some (case fo_retryPolicy opts of Some p \<Rightarrow> p | None \<Rightarrow> DEFAULT_PROVIDER_RETRY_POLICY),
      rto_signal = br_abortSignal req, rto_calculateJitterMs = fo_calculateJitterMs opts,
      rto_sleep = fo_sleep opts\<rparr>"

definition createFailedAttempt ::
  "('s, 'it) ProviderFallbackCandidate \<Rightarrow> nat \<Rightarrow> exn \<Rightarrow> ProviderFallbackAttemptMetadata" where
  "createFailedAttempt c n e =
     (let base = \<lparr>fam_providerId = ad_providerId (adapter c), fam_model = cand_model c,
                  fam_status = fa_failed, fam_attemptNumber = n, fam_errorCategory = None,
                  fam_statusCode = None\<rparr>
      in case isProviderError e of
           Some pe \<Rightarrow> base\<lparr>fam_errorCategory := Some (pe_category pe), fam_statusCode := pe_statusCode pe\<rparr>
         | None \<Rightarrow> base\<lparr>fam_errorCategory := Some cat_provider_error\<rparr>)"

definition attempt_event ::
  "ProviderFallbackEventType \<Rightarrow> string \<Rightarrow> ProviderFallbackAttemptMetadata \<Rightarrow> ProviderFallbackEvent" where
  "attempt_event ty rid a =
     \<lparr>ev_type = ty, ev_requestId = rid, ev_providerId = Some (fam_providerId a),
      ev_model = Some (fam_model a), ev_attemptNumber = Some (fam_attemptNumber a),
      ev_errorCategory = fam_errorCategory a, ev_statusCode = fam_statusCode a\<rparr>"

text \<open>The three recorders return the attempt they push together with the new world.\<close>

definition recordSucceededAttempt ::
  "string \<Rightarrow> ('x obs_scheme, 'it) ProviderFallbackCandidate \<Rightarrow> nat \<Rightarrow>
   ('x obs_scheme) ProviderFallbackOptions \<Rightarrow> 'x obs_scheme \<Rightarrow>
   ProviderFallbackAttemptMetadata \<times> 'x obs_scheme" where
  "recordSucceededAttempt rid c n opts w =
     (let attempt = \<lparr>fam_providerId = ad_providerId (adapter c), fam_model = cand_model c,
            fam_status = fa_succeeded, fam_attemptNumber = n, fam_errorCategory = None,
            fam_statusCode = None\<rparr>;
          w1 = (if n > 1 then recordProviderFallback (fam_providerId attempt) fo_succeeded w else w)
      in (attempt, fallback_recordEvent opts (attempt_event fallback_candidate_succeeded rid attempt) w1))"

definition recordFailedAttempt ::
  "string \<Rightarrow> ('x obs_scheme, 'it) ProviderFallbackCandidate \<Rightarrow> nat \<Rightarrow> exn \<Rightarrow>
   ('x obs_scheme) ProviderFallbackOptions \<Rightarrow> 'x obs_scheme \<Rightarrow>
   ProviderFallbackAttemptMetadata \<times> 'x obs_scheme" where
  "recordFailedAttempt rid c n e opts w =
     (let attempt = createFailedAttempt c n e;
          w1 = (if n > 1 then recordProviderFallback (fam_providerId attempt) fo_failed w else w)
      in (attempt, fallback_recordEvent opts (attempt_event fallback_candidate_failed rid attempt) w1))"

definition skipOpenCircuitCandidate ::
  "string \<Rightarrow> ('x breaker_scheme, 'it) ProviderFallbackCandidate \<Rightarrow> nat \<Rightarrow>
   ('x breaker_scheme) ProviderFallbackOptions \<Rightarrow> 'x breaker_scheme \<Rightarrow>
   ProviderFallbackAttemptMetadata option \<times> 'x breaker_scheme" where
  "skipOpenCircuitCandidate rid c n opts w =
     (case isOpen (fo_breakerPolicy opts) (ad_providerId (adapter c)) w of
        (False, w1) \<Rightarrow> (None, w1)
      | (True, w1) \<Rightarrow>
          (let attempt = \<lparr>fam_providerId = ad_providerId (adapter c), fam_model = cand_model c,
                 fam_status = fa_skipped_open_circuit, fam_attemptNumber = n,
                 fam_errorCategory = Some cat_unavailable, fam_statusCode = Some 503\<rparr>;
               w2 = fallback_recordEvent opts (attempt_event fallback_candidate_skipped rid attempt) w1;
               w3 = (if n > 1 then recordProviderFallback (fam_providerId attempt) fo_skipped_open_circuit w2
                     else w2)
           in (Some attempt, w3)))"

definition AllProvidersUnavailableError ::
  "ProviderId \<Rightarrow> string \<Rightarrow> ProviderFallbackAttemptMetadata list \<Rightarrow> exn" where
  "AllProvidersUnavailableError p rid attempts = ExnAllUnavailable
     \<lparr>pe_category = cat_unavailable, pe_providerId = p,
      pe_message = ''All ordered providers are unavailable.'', pe_retryable = True,
      pe_model = None, pe_statusCode = Some 503, pe_providerRequestId = None, pe_latencyMs = None\<rparr>
     rid attempts"

definition createAllProvidersUnavailableError ::
  "string \<Rightarrow> ('x obs_scheme, 'it) ProviderFallbackCandidate list \<Rightarrow>
   ProviderFallbackAttemptMetadata list \<Rightarrow> ('x obs_scheme) ProviderFallbackOptions \<Rightarrow>
   'x obs_scheme \<Rightarrow> exn \<times> 'x obs_scheme" where
  "createAllProvidersUnavailableError rid cands attempts opts w =
     (if cands = [] then (no_candidate, w)
      else let p = ad_providerId (adapter (last cands));
               w1 = fallback_recordEvent opts
                      \<lparr>ev_type = fallback_all_unavailable, ev_requestId = rid, ev_providerId = Some p,
                       ev_model = None, ev_attemptNumber = None, ev_errorCategory = Some cat_unavailable,
                       ev_statusCode = Some 503\<rparr> w
           in (AllProvidersUnavailableError p rid attempts, recordProviderFallback p fo_all_unavailable w1))"

section \<open>Completion with ordered fallback\<close>

text \<open>The \<^verbatim>\<open>for\<close> loop: \<open>n\<close> is \<^verbatim>\<open>index + 1\<close> of the first candidate of
  \<open>rest\<close>.\<close>

fun complete_loop ::
  "('x breaker_scheme) js_env \<Rightarrow> ('x breaker_scheme) ProviderFallbackBaseRequest \<Rightarrow>
   ('x breaker_scheme, 'it) ProviderFallbackCandidate list \<Rightarrow>
   ('x breaker_scheme) ProviderFallbackOptions \<Rightarrow> nat \<Rightarrow>
   ('x breaker_scheme, 'it) ProviderFallbackCandidate list \<Rightarrow>
   ProviderFallbackAttemptMetadata list \<Rightarrow>
   ('x breaker_scheme, exn, CompletionResult \<times> ProviderFallbackMetadata) act" where
  "complete_loop env req cands opts n [] attempts w =
     (case createAllProvidersUnavailableError (br_requestId req) cands attempts opts w of
        (e, w') \<Rightarrow> (Inl e, w'))"
| "complete_loop env req cands opts n (c # rest) attempts w =
     (case skipOpenCircuitCandidate (br_requestId req) c n opts w of
        (Some a, w1) \<Rightarrow> complete_loop env req cands opts (n + 1) rest (attempts @ [a]) w1
      | (None, w1) \<Rightarrow>
          (let w2 = (if n > 1 then recordProviderFallback (ad_providerId (adapter c)) fo_attempted w1 else w1)
           in case retryProviderOperation env
                     (\<lambda>_. execute (fo_breakerPolicy opts) (ad_providerId (adapter c))
                            (ad_complete (adapter c) (createCandidateRequest req c)))
                     (createRetryOptions req c opts) w2 of
                (Inr result, w3) \<Rightarrow>
                  (case recordSucceededAttempt (br_requestId req) c n opts w3 of
                     (a, w4) \<Rightarrow> (Inr (result, createMetadata (br_requestId req) (attempts @ [a]) c), w4))
              | (Inl e, w3) \<Rightarrow>
                  (case recordFailedAttempt (br_requestId req) c n e opts w3 of
                     (a, w4) \<Rightarrow> complete_loop env req cands opts (n + 1) rest (attempts @ [a]) w4)))"

definition completeWithOrderedFallback ::
  "('x breaker_scheme) js_env \<Rightarrow> ('x breaker_scheme) ProviderFallbackBaseRequest \<Rightarrow>
   ('x breaker_scheme, 'it) ProviderFallbackCandidate list \<Rightarrow>
   ('x breaker_scheme) ProviderFallbackOptions \<Rightarrow>
   ('x breaker_scheme, exn, CompletionResult \<times> ProviderFallbackMetadata) act" where
  "completeWithOrderedFallback env req cands opts =
     (if cands = [] then act_throw no_candidate
      else complete_loop env req cands opts 1 cands [])"

section \<open>Streaming with ordered fallback\<close>

definition startProviderStream ::
  "'s ProviderFallbackBaseRequest \<Rightarrow> ('s, 'it) ProviderFallbackCandidate \<Rightarrow>
   ('s, exn, StreamChunk option \<times> 'it) act" where
  "startProviderStream req c =
     act_bind (ad_stream (adapter c) (createCandidateRequest req c)) (\<lambda>it. ad_next (adapter c) it)"

datatype ('c, 'it) fallback_gen = GStart | GRun 'c 'it | GDone

text \<open>The part of the generator up to the first provider that starts.\<close>

fun stream_loop ::
  "('x breaker_scheme) js_env \<Rightarrow> ('x breaker_scheme) ProviderFallbackBaseRequest \<Rightarrow>
   ('x breaker_scheme, 'it) ProviderFallbackCandidate list \<Rightarrow>
   ('x breaker_scheme) ProviderFallbackOptions \<Rightarrow> nat \<Rightarrow>
   ('x breaker_scheme, 'it) ProviderFallbackCandidate list \<Rightarrow>
   ProviderFallbackAttemptMetadata list \<Rightarrow>
   ('x breaker_scheme, exn,
    ('x breaker_scheme, 'it) ProviderFallbackCandidate \<times> StreamChunk option \<times> 'it) act" where
  "stream_loop env req cands opts n [] attempts w =
     (case createAllProvidersUnavailableError (br_requestId req) cands attempts opts w of
        (e, w') \<Rightarrow> (Inl e, w'))"
| "stream_loop env req cands opts n (c # rest) attempts w =
     (case skipOpenCircuitCandidate (br_requestId req) c n opts w of
        (Some a, w1) \<Rightarrow> stream_loop env req cands opts (n + 1) rest (attempts @ [a]) w1
      | (None, w1) \<Rightarrow>
          (let w2 = (if n > 1 then recordProviderFallback (ad_providerId (adapter c)) fo_attempted w1 else w1)
           in case retryProviderOperation env
                     (\<lambda>_. execute (fo_breakerPolicy opts) (ad_providerId (adapter c))
                            (startProviderStream req c))
                     (createRetryOptions req c opts) w2 of
                (Inl e, w3) \<Rightarrow>
                  (case recordFailedAttempt (br_requestId req) c n e opts w3 of
                     (a, w4) \<Rightarrow> stream_loop env req cands opts (n + 1) rest (attempts @ [a]) w4)
              | (Inr (first, it), w3) \<Rightarrow>
                  (case recordSucceededAttempt (br_requestId req) c n opts w3 of
                     (a, w4) \<Rightarrow> (Inr (c, first, it), w4))))"

definition forward_next ::
  "('s, 'it) ProviderFallbackCandidate \<Rightarrow> 'it \<Rightarrow> 's \<Rightarrow>
   (exn + StreamChunk option) \<times> (('s, 'it) ProviderFallbackCandidate, 'it) fallback_gen \<times> 's" where
  "forward_next c it w =
     (case ad_next (adapter c) it w of
        (Inl e, w') \<Rightarrow> (Inl e, GDone, w')
      | (Inr (None, _), w') \<Rightarrow> (Inr None, GDone, w')
      | (Inr (Some chunk, it'), w') \<Rightarrow> (Inr (Some chunk), GRun c it', w'))"

definition stream_next ::
  "('x breaker_scheme) js_env \<Rightarrow> ('x breaker_scheme) ProviderFallbackBaseRequest \<Rightarrow>
   ('x breaker_scheme, 'it) ProviderFallbackCandidate list \<Rightarrow>
   ('x breaker_scheme) ProviderFallbackOptions \<Rightarrow>
   (('x breaker_scheme, 'it) ProviderFallbackCandidate, 'it) fallback_gen \<Rightarrow> 'x breaker_scheme \<Rightarrow>
   (exn + StreamChunk option) \<times>
     (('x breaker_scheme, 'it) ProviderFallbackCandidate, 'it) fallback_gen \<times> 'x breaker_scheme" where
  "stream_next env req cands opts g w =
     (case g of
        GDone \<Rightarrow> (Inr None, GDone, w)
      | GRun c it \<Rightarrow> forward_next c it w
      | GStart \<Rightarrow>
          (case stream_loop env req cands opts 1 cands [] w of
             (Inl e, w') \<Rightarrow> (Inl e, GDone, w')
           | (Inr (c, Some chunk, it), w') \<Rightarrow> (Inr (Some chunk), GRun c it, w')
           | (Inr (c, None, it), w') \<Rightarrow> forward_next c it w'))"

definition streamWithOrderedFallback ::
  "('s, 'it) ProviderFallbackCandidate list \<Rightarrow>
   exn + (('s, 'it) ProviderFallbackCandidate, 'it) fallback_gen" where
  "streamWithOrderedFallback cands = (if cands = [] then Inl no_candidate else Inr GStart)"

section \<open>The order of attempts\<close>

text \<open>\<open>unsuccessful n cs as\<close>: the attempts \<open>as\<close> are those of the candidates
  \<open>cs\<close>, in order, numbered from \<open>n\<close>, and none succeeded.\<close>

definition tried :: "nat \<Rightarrow> ('s, 'it) ProviderFallbackCandidate \<Rightarrow> ProviderFallbackAttemptMetadata \<Rightarrow> bool" where
  "tried n c a \<longleftrightarrow> fam_providerId a = ad_providerId (adapter c) \<and> fam_model a = cand_model c
     \<and> fam_attemptNumber a = n"

fun unsuccessful ::
  "nat \<Rightarrow> ('s, 'it) ProviderFallbackCandidate list \<Rightarrow> ProviderFallbackAttemptMetadata list \<Rightarrow> bool" where
  "unsuccessful n [] [] = True"
| "unsuccessful n (c # cs) (a # as) =
     (tried n c a \<and> fam_status a \<noteq> fa_succeeded \<and> unsuccessful (Suc n) cs as)"
| "unsuccessful n _ _ = False"

lemma unsuccessful_snoc:
  "unsuccessful n cs as \<Longrightarrow> tried (n + length cs) c a \<Longrightarrow> fam_status a \<noteq> fa_succeeded \<Longrightarrow>
   unsuccessful n (cs @ [c]) (as @ [a])"
  by (induction n cs as rule: unsuccessful.induct) auto

lemma skip_attempt:
  "skipOpenCircuitCandidate rid c n opts w = (Some a, w') \<Longrightarrow>
   tried n c a \<and> fam_status a = fa_skipped_open_circuit"
  by (auto simp: skipOpenCircuitCandidate_def tried_def Let_def split: prod.splits bool.splits)

lemma failed_attempt:
  "recordFailedAttempt rid c n e opts w = (a, w') \<Longrightarrow> tried n c a \<and> fam_status a = fa_failed"
  by (auto simp: recordFailedAttempt_def createFailedAttempt_def tried_def Let_def split: option.splits)

lemma succeeded_attempt:
  "recordSucceededAttempt rid c n opts w = (a, w') \<Longrightarrow> tried n c a \<and> fam_status a = fa_succeeded"
  by (auto simp: recordSucceededAttempt_def tried_def Let_def)

lemma all_unavailable_error:
  "cands \<noteq> [] \<Longrightarrow>
   fst (createAllProvidersUnavailableError rid cands as opts w)
     = AllProvidersUnavailableError (ad_providerId (adapter (last cands))) rid as"
  by (simp add: createAllProvidersUnavailableError_def Let_def)

lemma complete_loop_outcome:
  assumes "cands = done @ rest" and "cands \<noteq> []" and "unsuccessful 1 done as" and "n = Suc (length done)"
    and "complete_loop env req cands opts n rest as w = (r, w')"
  shows "(\<exists>as'. unsuccessful 1 cands as' \<and>
            r = Inl (AllProvidersUnavailableError (ad_providerId (adapter (last cands))) (br_requestId req) as'))
       \<or> (\<exists>res pre c post as' a. cands = pre @ c # post \<and> unsuccessful 1 pre as'
            \<and> tried (Suc (length pre)) c a \<and> fam_status a = fa_succeeded
            \<and> r = Inr (res, createMetadata (br_requestId req) (as' @ [a]) c))"
  using assms
proof (induction rest arbitrary: "done" as n w)
  case Nil
  then have "r = Inl (AllProvidersUnavailableError (ad_providerId (adapter (last cands))) (br_requestId req) as)"
    using all_unavailable_error [OF Nil.prems(2), of "br_requestId req" as opts w]
    by (auto split: prod.splits)
  with Nil.prems(1,3) show ?case by auto
next
  case (Cons c rest)
  have step: "complete_loop env req cands opts (Suc n) rest (as @ [a]) wx = (r, w') \<Longrightarrow>
      tried n c a \<Longrightarrow> fam_status a \<noteq> fa_succeeded \<Longrightarrow> ?case" for a wx
    by (rule Cons.IH [of "done @ [c]" "as @ [a]" "Suc n" wx])
       (use Cons.prems unsuccessful_snoc [of 1 "done" as c a] in auto)
  obtain sk w1 where sk: "skipOpenCircuitCandidate (br_requestId req) c n opts w = (sk, w1)" by fastforce
  show ?case
  proof (cases sk)
    case (Some a)
    with sk Cons.prems(5) skip_attempt [of _ c n opts w a w1] show ?thesis
      by (intro step [of a w1]) auto
  next
    case None
    define w2 where "w2 = (if n > 1 then recordProviderFallback (ad_providerId (adapter c)) fo_attempted w1 else w1)"
    obtain res w3 where ro: "retryProviderOperation env
        (\<lambda>_. execute (fo_breakerPolicy opts) (ad_providerId (adapter c))
            (ad_complete (adapter c) (createCandidateRequest req c)))
        (createRetryOptions req c opts) w2 = (res, w3)" by fastforce
    show ?thesis
    proof (cases res)
      case (Inl e)
      obtain a w4 where "recordFailedAttempt (br_requestId req) c n e opts w3 = (a, w4)" by fastforce
      with failed_attempt [OF this] Inl ro sk None Cons.prems(5) show ?thesis
        by (intro step [of a w4]) (auto simp: w2_def)
    next
      case (Inr result)
      obtain a w4 where rs: "recordSucceededAttempt (br_requestId req) c n opts w3 = (a, w4)" by fastforce
      with Inr ro sk None Cons.prems(5)
      have "r = Inr (result, createMetadata (br_requestId req) (as @ [a]) c)"
        by (simp add: w2_def)
      with succeeded_attempt [OF rs] Cons.prems show ?thesis
        by (intro disjI2) (metis)
    qed
  qed
qed

text \<open>
  \<^verbatim>\<open>completeWithOrderedFallback\<close> considers the candidates in their order. Either it
  returns the result of the first candidate that succeeds, with metadata that name that candidate
  and hold one numbered attempt per considered candidate, the last of them the only success; or
  every candidate was skipped or failed, and it throws \<^verbatim>\<open>AllProvidersUnavailableError\<close> for the last
  candidate with one unsuccessful attempt per candidate.
\<close>

theorem fallback_respects_candidate_order:
  assumes "cands \<noteq> []" and "completeWithOrderedFallback env req cands opts w = (r, w')"
  shows "(\<exists>as. unsuccessful 1 cands as \<and>
            r = Inl (AllProvidersUnavailableError (ad_providerId (adapter (last cands))) (br_requestId req) as))
       \<or> (\<exists>res pre c post as a. cands = pre @ c # post \<and> unsuccessful 1 pre as
            \<and> tried (Suc (length pre)) c a \<and> fam_status a = fa_succeeded
            \<and> r = Inr (res, createMetadata (br_requestId req) (as @ [a]) c))"
  using assms complete_loop_outcome [of cands "[]" cands "[]" 1 env req opts w r w']
  by (simp add: completeWithOrderedFallback_def)

section \<open>What the caller gets\<close>

lemma complete_loop_result:
  assumes "complete_loop env req cands opts n rest as w = (Inr (res, md), w')" and "set rest \<subseteq> set cands"
  shows "\<exists>c as' s s'. c \<in> set cands \<and> md = createMetadata (br_requestId req) as' c
     \<and> ad_complete (adapter c) (createCandidateRequest req c) s = (Inr res, s')"
  using assms
proof (induction rest arbitrary: as n w)
  case Nil
  then show ?case by (simp split: prod.splits)
next
  case (Cons c rest)
  obtain sk w1 where sk: "skipOpenCircuitCandidate (br_requestId req) c n opts w = (sk, w1)" by fastforce
  define w2 where "w2 = (if n > 1 then recordProviderFallback (ad_providerId (adapter c)) fo_attempted w1 else w1)"
  obtain rr w3 where ro: "retryProviderOperation env
        (\<lambda>_. execute (fo_breakerPolicy opts) (ad_providerId (adapter c))
            (ad_complete (adapter c) (createCandidateRequest req c)))
        (createRetryOptions req c opts) w2 = (rr, w3)" by fastforce
  show ?case
  proof (cases "\<exists>result. sk = None \<and> rr = Inr result")
    case True
    then obtain result where r: "sk = None" "rr = Inr result" by blast
    with sk ro Cons.prems(1) have "result = res" and "\<exists>as'. md = createMetadata (br_requestId req) as' c"
      by (auto simp: w2_def split: prod.splits)
    moreover obtain s s' where "ad_complete (adapter c) (createCandidateRequest req c) s = (Inr result, s')"
      using retryProviderOperation_Inr [OF ro [unfolded r(2)]] execute_Inr by metis
    ultimately show ?thesis using Cons.prems(2) by auto
  next
    case False
    then have "\<exists>as' wx. complete_loop env req cands opts (n + 1) rest as' wx = (Inr (res, md), w')"
      using sk ro Cons.prems(1)
      by (cases sk; cases rr) (auto simp: w2_def split: prod.splits)
    then show ?thesis using Cons.IH Cons.prems(2) by auto
  qed
qed

text \<open>
  The completion that the ordered fallback returns was produced by an adapter of the candidate
  list for a request that differs from the caller's only in provider and model, and the metadata
  name the provider and the model that really produced it, for adapters that keep the contract
  \<open>provider_adapter\<close>.
\<close>

theorem fallback_result_matches_metadata:
  assumes "completeWithOrderedFallback env req cands opts w = (Inr (res, md), w')"
    and "\<And>c. c \<in> set cands \<Longrightarrow> provider_adapter (adapter c)"
  shows "md_selectedProviderId md = Some (res_providerId res) \<and> md_selectedModel md = Some (res_model res)
     \<and> (\<exists>c \<in> set cands. res_providerId res = ad_providerId (adapter c) \<and> res_model res = cand_model c)"
proof -
  from assms(1) have "complete_loop env req cands opts 1 cands [] w = (Inr (res, md), w')"
    by (simp add: completeWithOrderedFallback_def split: if_splits)
  from complete_loop_result [OF this] obtain c as' s s' where c: "c \<in> set cands"
    "md = createMetadata (br_requestId req) as' c"
    "ad_complete (adapter c) (createCandidateRequest req c) s = (Inr res, s')" by auto
  from provider_adapter.complete_result [OF assms(2) [OF c(1)] c(3)] c(1,2)
  show ?thesis by (auto simp: createMetadata_def createCandidateRequest_def)
qed

section \<open>Streams stay with one provider\<close>

text \<open>
  \<open>stream_run n\<close> calls \<^verbatim>\<open>next()\<close> on the fallback generator up to \<open>n\<close> times and
  collects the chunks; the second component is \<open>None\<close> while the generator is suspended, the
  third the world. \<open>provider_run\<close> does the same on one adapter's iterator, without the
  fallback.
\<close>

fun stream_run ::
  "('x breaker_scheme) js_env \<Rightarrow> ('x breaker_scheme) ProviderFallbackBaseRequest \<Rightarrow>
   ('x breaker_scheme, 'it) ProviderFallbackCandidate list \<Rightarrow>
   ('x breaker_scheme) ProviderFallbackOptions \<Rightarrow> nat \<Rightarrow>
   (('x breaker_scheme, 'it) ProviderFallbackCandidate, 'it) fallback_gen \<Rightarrow> 'x breaker_scheme \<Rightarrow>
   StreamChunk list \<times> (exn + unit) option \<times> 'x breaker_scheme" where
  "stream_run env req cands opts 0 g w = ([], None, w)"
| "stream_run env req cands opts (Suc n) g w =
     (case stream_next env req cands opts g w of
        (Inr (Some ch), g', w') \<Rightarrow>
          (case stream_run env req cands opts n g' w' of (chs, fin, w'') \<Rightarrow> (ch # chs, fin, w''))
      | (Inr None, g', w') \<Rightarrow> ([], Some (Inr ()), w')
      | (Inl e, g', w') \<Rightarrow> ([], Some (Inl e), w'))"

fun provider_run ::
  "('s, 'it) ProviderAdapter \<Rightarrow> nat \<Rightarrow> 'it \<Rightarrow> 's \<Rightarrow> StreamChunk list \<times> (exn + unit) option \<times> 's" where
  "provider_run ad 0 it w = ([], None, w)"
| "provider_run ad (Suc n) it w =
     (case ad_next ad it w of
        (Inr (Some ch, it'), w') \<Rightarrow>
          (case provider_run ad n it' w' of (chs, fin, w'') \<Rightarrow> (ch # chs, fin, w''))
      | (Inr (None, it'), w') \<Rightarrow> ([], Some (Inr ()), w')
      | (Inl e, w') \<Rightarrow> ([], Some (Inl e), w'))"

lemma stream_run_provider_run:
  "stream_run env req cands opts n (GRun c it) w = provider_run (adapter c) n it w"
proof (induction n arbitrary: it w)
  case 0
  show ?case by simp
next
  case (Suc n)
  then show ?case
    by (auto simp: stream_next_def forward_next_def split: prod.splits sum.splits option.splits)
qed

lemma stream_loop_candidate:
  "stream_loop env req cands opts n rest as w = (Inr (c, first, it), w') \<Longrightarrow> c \<in> set rest"
  by (induction rest arbitrary: n as w)
     (auto split: prod.splits option.splits sum.splits)

text \<open>
  C40. No provider switch after the first chunk: when the fallback stream has delivered a chunk, it
  is bound to one candidate of the list, and from then on, for any number of further
  \<^verbatim>\<open>next()\<close> calls, the chunks, the end or error, and the whole effect on the world are exactly those
  of that candidate's own iterator; no other adapter, retry or circuit is involved, and an error
  of the provider reaches the consumer.
\<close>

theorem stream_keeps_provider_after_first_chunk:
  assumes "stream_next env req cands opts GStart w = (Inr (Some chunk), g, w')"
  shows "\<exists>c \<in> set cands. \<exists>it. g = GRun c it
     \<and> (\<forall>n. stream_run env req cands opts n g w' = provider_run (adapter c) n it w')"
proof -
  from assms obtain c it where "g = GRun c it" and "c \<in> set cands"
    by (auto simp: stream_next_def forward_next_def dest!: stream_loop_candidate
        split: prod.splits sum.splits option.splits)
  then show ?thesis by (auto simp: stream_run_provider_run)
qed

section \<open>A run with the fake adapter\<close>

text \<open>One candidate, the fake adapter in its success mode; its two changing fields extend the
  breaker's state.\<close>

record fake_world = breaker + fw_fake :: fake_state

definition demo_get :: "fake_world \<Rightarrow> fake_state" where
  "demo_get w = fw_fake w"

definition demo_put :: "fake_state \<Rightarrow> fake_world \<Rightarrow> fake_world" where
  "demo_put f w = w\<lparr>fw_fake := f\<rparr>"

definition demo_candidate :: "(fake_world, fake_world fake_iter) ProviderFallbackCandidate" where
  "demo_candidate = \<lparr>adapter = fake_adapter fake_default
       \<lparr>cap_providerId = FAKE_PROVIDER_ID, cap_supportedModels = [FAKE_PROVIDER_MODEL_ID],
        cap_supportsStreaming = True, cap_supportsNonStreaming = True,
        cap_maxInputTokens = FAKE_MAX_INPUT_TOKENS, cap_maxOutputTokens = FAKE_MAX_OUTPUT_TOKENS\<rparr>
       demo_get demo_put, cand_model = FAKE_PROVIDER_MODEL_ID\<rparr>"

definition demo_request :: "fake_world ProviderFallbackBaseRequest" where
  "demo_request = \<lparr>br_requestId = ''r1'', br_messages = [], br_maxOutputTokens = 64, br_abortSignal = None\<rparr>"

definition demo_fallback_options :: "fake_world ProviderFallbackOptions" where
  "demo_fallback_options = \<lparr>fo_breakerPolicy = DEFAULT_PROVIDER_CIRCUIT_BREAKER_POLICY, fo_retryPolicy = None,
     fo_calculateJitterMs = None, fo_sleep = None, fo_recordEvent = None\<rparr>"

definition demo_fallback_env :: "fake_world js_env" where
  "demo_fallback_env = \<lparr>math_random = act_ret 0, set_timeout = (\<lambda>_ _. act_ret True)\<rparr>"

definition demo_world :: fake_world where
  "demo_world = \<lparr>metric_ops = [], br_ids = (\<lambda>_. None), br_recs = [], br_clock = 0,
     fw_fake = \<lparr>fk_mode = fm_success, fk_callCount = 0\<rparr>\<rparr>"

lemma execute_fresh_Inr:
  assumes "current_rec p w = fresh_record"
    and "\<And>w'. breaker.more w' = breaker.more w \<Longrightarrow> \<exists>w''. operation w' = (Inr x, w'')"
  shows "\<exists>w''. execute pol p operation w = (Inr x, w'')"
proof -
  obtain a w1 where g: "getRecord p w = (a, w1)" by fastforce
  from getRecord_current [OF g] assms(1) have "br_recs w1 ! a = fresh_record" "breaker.more w1 = breaker.more w"
    by simp_all
  moreover from assms(2) [OF this(2)] obtain w2 where "operation w1 = (Inr x, w2)" ..
  ultimately show ?thesis
    using g by (simp add: execute_def prepareRequest_def act_bind_apply fresh_record_def)
qed

lemma retry_first_success:
  assumes "rto_signal opts = None" and "rto_policy opts = Some DEFAULT_PROVIDER_RETRY_POLICY"
    and "operation 1 w = (Inr x, w')"
  shows "retryProviderOperation env operation opts w = (Inr x, w')"
proof -
  have "(1::int) \<le> maxAttempts DEFAULT_PROVIDER_RETRY_POLICY"
    by (simp add: DEFAULT_PROVIDER_RETRY_POLICY_def)
  note unfold = retry_loop_unfold [OF this, of env operation opts]
  from assms assertValid_default show ?thesis
    by (simp add: unfold retryProviderOperation_def throwIfAborted_def aborted_def act_then_apply act_catch_apply)
qed

lemma skip_fresh:
  assumes "current_rec (ad_providerId (adapter c)) w = fresh_record"
  shows "\<exists>w'. skipOpenCircuitCandidate rid c n opts w = (None, w')
     \<and> current_rec (ad_providerId (adapter c)) w' = fresh_record \<and> breaker.more w' = breaker.more w"
proof -
  obtain a w1 where g: "getRecord (ad_providerId (adapter c)) w = (a, w1)" by fastforce
  from getRecord_current [OF g] assms have "br_recs w1 ! a = fresh_record" "breaker.more w1 = breaker.more w"
    "current_rec (ad_providerId (adapter c)) w1 = fresh_record"
    by (simp_all add: current_rec_def)
  with g show ?thesis
    by (simp add: skipOpenCircuitCandidate_def isOpen_def fresh_record_def)
qed

lemma fake_mode_more: "breaker.more w' = breaker.more w \<Longrightarrow> demo_get w' = demo_get w"
  by (cases w; cases w') (simp add: demo_get_def)

lemma demo_fresh: "current_rec p demo_world = fresh_record"
  by (simp add: current_rec_def demo_world_def)

lemma demo_candidate_provider: "ad_providerId (adapter demo_candidate) = FAKE_PROVIDER_ID"
  by (simp add: demo_candidate_def fake_adapter_def fake_default_def)

lemma demo_candidate_adapter: "provider_adapter (adapter demo_candidate)"
  by (simp add: demo_candidate_def fake_ad.provider_adapter_axioms)

definition demo_result :: CompletionResult where
  "demo_result = \<lparr>res_providerId = FAKE_PROVIDER_ID, res_model = FAKE_PROVIDER_MODEL_ID,
     res_outputText = js_lit ''Fake provider response.'', res_finishReason = FinishStop,
     res_usage = Some (fake_createUsage (createCandidateRequest demo_request demo_candidate)
        (js_lit ''Fake provider response.'')),
     res_latencyMs = 25, res_estimatedCostUsd = Some 0\<rparr>"

lemma demo_complete:
  assumes "breaker.more w' = breaker.more demo_world"
  shows "\<exists>w''. ad_complete (adapter demo_candidate) (createCandidateRequest demo_request demo_candidate) w'
      = (Inr demo_result, w'')"
proof -
  have "fk_mode (demo_get w') = fm_success"
    using fake_mode_more [OF assms] by (simp add: demo_get_def demo_world_def)
  then show ?thesis
    by (simp add: demo_result_def demo_candidate_def fake_adapter_def fake_complete_def fake_countCall_def
        fake_assertRequestMatchesAdapter_def fake_throwIfAborted_def fake_throwIfImmediateFailure_def
        createCandidateRequest_def demo_request_def aborted_def fake_default_def demo_get_def demo_put_def
        act_then_apply)
qed

lemma demo_stream_start:
  assumes "breaker.more w' = breaker.more demo_world"
  shows "\<exists>w''. startProviderStream demo_request demo_candidate w'
      = (Inr (Some (ChunkToken (js_lit ''Fake '')), FakeAfter (createCandidateRequest demo_request demo_candidate) 0), w'')"
proof -
  have "fk_mode (demo_get w') = fm_success"
    using fake_mode_more [OF assms] by (simp add: demo_get_def demo_world_def)
  then show ?thesis
    by (simp add: startProviderStream_def demo_candidate_def fake_adapter_def fake_stream_def fake_countCall_def
        fake_assertRequestMatchesAdapter_def fake_throwIfAborted_def fake_throwIfImmediateFailure_def
        createCandidateRequest_def demo_request_def aborted_def fake_default_def demo_get_def demo_put_def
        fake_yield_def act_then_apply act_bind_apply)
qed

lemma demo_completes:
  "\<exists>as w'. completeWithOrderedFallback demo_fallback_env demo_request [demo_candidate] demo_fallback_options demo_world
     = (Inr (demo_result, createMetadata ''r1'' as demo_candidate), w')"
proof -
  obtain w1 where sk: "skipOpenCircuitCandidate (br_requestId demo_request) demo_candidate 1 demo_fallback_options demo_world = (None, w1)"
    and w1: "current_rec FAKE_PROVIDER_ID w1 = fresh_record" "breaker.more w1 = breaker.more demo_world"
    using skip_fresh [of demo_candidate demo_world] demo_fresh demo_candidate_provider by metis
  from execute_fresh_Inr [OF w1(1)] demo_complete w1(2) obtain w2 where
    "execute DEFAULT_PROVIDER_CIRCUIT_BREAKER_POLICY FAKE_PROVIDER_ID
      (ad_complete (adapter demo_candidate) (createCandidateRequest demo_request demo_candidate)) w1 = (Inr demo_result, w2)"
    by metis
  with sk show ?thesis
    by (auto simp: completeWithOrderedFallback_def demo_candidate_provider retry_first_success [where w' = w2]
        createRetryOptions_def demo_fallback_options_def demo_request_def split: prod.split)
qed

theorem fallback_respects_candidate_order_witness:
  "\<exists>r w'. completeWithOrderedFallback demo_fallback_env demo_request [demo_candidate] demo_fallback_options demo_world = (r, w')
    \<and> (\<exists>res pre c post as a. [demo_candidate] = pre @ c # post \<and> unsuccessful 1 pre as
            \<and> tried (Suc (length pre)) c a \<and> fam_status a = fa_succeeded
            \<and> r = Inr (res, createMetadata ''r1'' (as @ [a]) c))"
proof -
  obtain as w' where r: "completeWithOrderedFallback demo_fallback_env demo_request [demo_candidate]
      demo_fallback_options demo_world = (Inr (demo_result, createMetadata ''r1'' as demo_candidate), w')"
    using demo_completes by blast
  have id: "br_requestId demo_request = ''r1''" by (simp add: demo_request_def)
  from fallback_respects_candidate_order [OF _ r] id have "\<exists>res pre c post as' a. [demo_candidate] = pre @ c # post
      \<and> unsuccessful 1 pre as' \<and> tried (Suc (length pre)) c a \<and> fam_status a = fa_succeeded
      \<and> Inr (demo_result, createMetadata ''r1'' as demo_candidate) = (Inr (res, createMetadata ''r1'' (as' @ [a]) c) :: exn + _)"
    by auto
  with r show ?thesis by blast
qed

theorem fallback_result_matches_metadata_witness:
  "\<exists>res md w'. completeWithOrderedFallback demo_fallback_env demo_request [demo_candidate] demo_fallback_options demo_world
      = (Inr (res, md), w') \<and> md_selectedProviderId md = Some (res_providerId res)
      \<and> res_model res = cand_model demo_candidate"
proof -
  obtain as w' where r: "completeWithOrderedFallback demo_fallback_env demo_request [demo_candidate]
      demo_fallback_options demo_world = (Inr (demo_result, createMetadata ''r1'' as demo_candidate), w')"
    using demo_completes by blast
  from fallback_result_matches_metadata [OF r] demo_candidate_adapter r show ?thesis by auto
qed

theorem stream_keeps_provider_after_first_chunk_witness:
  "\<exists>g w'. stream_next demo_fallback_env demo_request [demo_candidate] demo_fallback_options GStart demo_world
      = (Inr (Some (ChunkToken (js_lit ''Fake ''))), g, w')
    \<and> (\<exists>it. \<forall>n. stream_run demo_fallback_env demo_request [demo_candidate] demo_fallback_options n g w'
          = provider_run (adapter demo_candidate) n it w')"
proof -
  obtain w1 where sk: "skipOpenCircuitCandidate (br_requestId demo_request) demo_candidate 1 demo_fallback_options demo_world = (None, w1)"
    and w1: "current_rec FAKE_PROVIDER_ID w1 = fresh_record" "breaker.more w1 = breaker.more demo_world"
    using skip_fresh [of demo_candidate demo_world] demo_fresh demo_candidate_provider by metis
  from execute_fresh_Inr [OF w1(1)] demo_stream_start w1(2) obtain it w2 where
    ex: "execute DEFAULT_PROVIDER_CIRCUIT_BREAKER_POLICY FAKE_PROVIDER_ID
      (startProviderStream demo_request demo_candidate) w1 = (Inr (Some (ChunkToken (js_lit ''Fake '')), it), w2)"
    by metis
  obtain a w3 where rs: "recordSucceededAttempt (br_requestId demo_request) demo_candidate 1 demo_fallback_options w2 = (a, w3)"
    by fastforce
  have "stream_next demo_fallback_env demo_request [demo_candidate] demo_fallback_options GStart demo_world
      = (Inr (Some (ChunkToken (js_lit ''Fake ''))), GRun demo_candidate it, w3)"
    using sk ex rs
    by (simp add: stream_next_def demo_candidate_provider retry_first_success [where w' = w2]
        createRetryOptions_def demo_fallback_options_def demo_request_def)
  from this stream_keeps_provider_after_first_chunk [OF this] show ?thesis by auto
qed

end
