(* ===== verification/JsRegex.thy ===== *)
theory JsRegex
  imports Prelude
begin

text \<open>
  The part of ECMAScript regular expressions that the PII detector uses: character classes,
  sequences, alternatives, greedy quantifiers, \<^verbatim>\<open>\b\<close>, and negative look-behind and
  look-ahead for one character, all with the \<^verbatim>\<open>u\<close> flag (the input is a list of code points)
  and optionally the \<^verbatim>\<open>i\<close> flag.

  ECMAScript defines a backtracking matcher. \<open>rx_match\<close> returns the list of end positions in
  the order in which the backtracking matcher would try them, so the head of the list is the end
  of the match. An optional iteration that consumes nothing is rejected, as in the standard.
\<close>

section \<open>Characters\<close>

text \<open>
  A class is a list of inclusive ranges. With \<^verbatim>\<open>i\<close> and \<^verbatim>\<open>u\<close> the matcher compares by
  simple case folding. All classes here hold characters whose folding is ASCII or themselves, and
  the characters that fold to ASCII are the capital letters, U+017F (to \<^verbatim>\<open>s\<close>) and U+212A
  (to \<^verbatim>\<open>k\<close>), so the other folding pairs of Unicode do not matter here.
\<close>

type_synonym char_class = "(nat \<times> nat) list"

definition in_ranges :: "char_class \<Rightarrow> nat \<Rightarrow> bool" where
  "in_ranges rs c \<longleftrightarrow> (\<exists>(lo, hi) \<in> set rs. lo \<le> c \<and> c \<le> hi)"

definition canonicalize :: "nat \<Rightarrow> nat" where
  "canonicalize c =
     (if 65 \<le> c \<and> c \<le> 90 then c + 32 else if c = 383 then 115 else if c = 8490 then 107 else c)"

text \<open>The characters with the same folding as \<open>c\<close>.\<close>

definition fold_variants :: "nat \<Rightarrow> nat list" where
  "fold_variants c = (let f = canonicalize c in
     f # (if 97 \<le> f \<and> f \<le> 122 then [f - 32] else [])
       @ (if f = 115 then [383] else []) @ (if f = 107 then [8490] else []))"

lemma fold_variants_iff: "a \<in> set (fold_variants c) \<longleftrightarrow> canonicalize a = canonicalize c"
  by (auto simp: fold_variants_def canonicalize_def Let_def split: if_splits)

definition class_has :: "bool \<Rightarrow> char_class \<Rightarrow> nat \<Rightarrow> bool" where
  "class_has ic rs c \<longleftrightarrow> (if ic then \<exists>a \<in> set (fold_variants c). in_ranges rs a else in_ranges rs c)"

lemma class_has_insensitive:
  "class_has True rs c \<longleftrightarrow> (\<exists>a. in_ranges rs a \<and> canonicalize a = canonicalize c)"
  by (auto simp: class_has_def fold_variants_iff)

definition rs_digit :: char_class where "rs_digit = [(48, 57)]"
definition rs_upper :: char_class where "rs_upper = [(65, 90)]"
definition rs_lower :: char_class where "rs_lower = [(97, 122)]"
definition rs_word :: char_class where "rs_word = rs_lower @ rs_upper @ rs_digit @ [(95, 95)]"
definition rs_space :: char_class where
  "rs_space = [(9, 13), (32, 32), (160, 160), (5760, 5760), (8192, 8202), (8232, 8233),
     (8239, 8239), (8287, 8287), (12288, 12288), (65279, 65279)]"

definition rs_chars :: "string \<Rightarrow> char_class" where
  "rs_chars s = map (\<lambda>c. (of_char c, of_char c)) s"

section \<open>Patterns\<close>

datatype regex =
  RxClass bool char_class
| RxSeq regex regex
| RxAlt regex regex
| RxRep nat "nat option" regex
| RxBoundary
| RxNotBehind char_class
| RxNotAhead char_class
| RxEmpty

definition rx_ch :: "string \<Rightarrow> regex" where
  "rx_ch s = RxClass True (rs_chars s)"

fun rx_str :: "string \<Rightarrow> regex" where
  "rx_str [] = RxEmpty"
| "rx_str (c # cs) = RxSeq (RxClass True (rs_chars [c])) (rx_str cs)"

fun rx_seq :: "regex list \<Rightarrow> regex" where
  "rx_seq [] = RxEmpty"
| "rx_seq [r] = r"
| "rx_seq (r # rs) = RxSeq r (rx_seq rs)"

fun rx_alts :: "regex list \<Rightarrow> regex" where
  "rx_alts [] = RxEmpty"
| "rx_alts [r] = r"
| "rx_alts (r # rs) = RxAlt r (rx_alts rs)"

definition rx_opt :: "regex \<Rightarrow> regex" where "rx_opt r = RxRep 0 (Some 1) r"
definition rx_star :: "regex \<Rightarrow> regex" where "rx_star r = RxRep 0 None r"
definition rx_plus :: "regex \<Rightarrow> regex" where "rx_plus r = RxRep 1 None r"
definition rx_between :: "nat \<Rightarrow> nat \<Rightarrow> regex \<Rightarrow> regex" where "rx_between a b r = RxRep a (Some b) r"
definition rx_exactly :: "nat \<Rightarrow> regex \<Rightarrow> regex" where "rx_exactly a r = RxRep a (Some a) r"
definition rx_at_least :: "nat \<Rightarrow> regex \<Rightarrow> regex" where "rx_at_least a r = RxRep a None r"

section \<open>The matcher\<close>

text \<open>
  The optional iterations of a quantifier: one more iteration that makes progress first (greedy),
  then none. \<open>n\<close> is the input length; the measure is the rest of the input.
\<close>

function rep_opt :: "(nat \<Rightarrow> nat list) \<Rightarrow> nat \<Rightarrow> nat option \<Rightarrow> nat \<Rightarrow> nat list" where
  "rep_opt step n mx i =
     (if mx = Some 0 then [i]
      else concat (map (\<lambda>j. if i < j \<and> j \<le> n
                            then rep_opt step n (map_option (\<lambda>k. k - 1) mx) j else [])
                       (step i)) @ [i])"
  by pat_completeness auto

termination rep_opt
  by (relation "measure (\<lambda>(step, n, mx, i). n - i)") auto

declare rep_opt.simps [simp del]

primrec rep_min :: "nat \<Rightarrow> (nat \<Rightarrow> nat list) \<Rightarrow> (nat \<Rightarrow> nat list) \<Rightarrow> nat \<Rightarrow> nat list" where
  "rep_min 0 step rest i = rest i"
| "rep_min (Suc k) step rest i = concat (map (rep_min k step rest) (step i))"

lemma rep_min_numeral:
  "rep_min (numeral n) step rest i = concat (map (rep_min (pred_numeral n) step rest) (step i))"
  by (simp add: numeral_eq_Suc)

lemma rep_min_1: "rep_min 1 step rest i = concat (map rest (step i))"
  by (simp cong: map_cong)

definition is_word_at :: "bool \<Rightarrow> nat list \<Rightarrow> nat \<Rightarrow> bool" where
  "is_word_at ic s i \<longleftrightarrow> i < length s \<and> class_has ic rs_word (s ! i)"

definition at_boundary :: "bool \<Rightarrow> nat list \<Rightarrow> nat \<Rightarrow> bool" where
  "at_boundary ic s i \<longleftrightarrow> (0 < i \<and> is_word_at ic s (i - 1)) \<noteq> is_word_at ic s i"

primrec rx_match :: "bool \<Rightarrow> nat list \<Rightarrow> regex \<Rightarrow> nat \<Rightarrow> nat list" where
  "rx_match ic s (RxClass pos rs) i =
     (if i < length s \<and> class_has ic rs (s ! i) = pos then [Suc i] else [])"
| "rx_match ic s (RxSeq a b) i = concat (map (rx_match ic s b) (rx_match ic s a i))"
| "rx_match ic s (RxAlt a b) i = rx_match ic s a i @ rx_match ic s b i"
| "rx_match ic s (RxRep mn mx r) i =
     rep_min mn (rx_match ic s r)
       (rep_opt (rx_match ic s r) (length s) (map_option (\<lambda>m. m - mn) mx)) i"
| "rx_match ic s RxBoundary i = (if at_boundary ic s i then [i] else [])"
| "rx_match ic s (RxNotBehind rs) i =
     (if 0 < i \<and> i \<le> length s \<and> class_has ic rs (s ! (i - 1)) then [] else [i])"
| "rx_match ic s (RxNotAhead rs) i =
     (if i < length s \<and> class_has ic rs (s ! i) then [] else [i])"
| "rx_match ic s RxEmpty i = [i]"

text \<open>
  One \<^verbatim>\<open>exec\<close> from position \<open>i\<close>: the first position at or after \<open>i\<close> with
  a match, and the end of that match.
\<close>

function rx_exec :: "bool \<Rightarrow> regex \<Rightarrow> nat list \<Rightarrow> nat \<Rightarrow> (nat \<times> nat) option" where
  "rx_exec ic r s i =
     (if i > length s then None
      else case rx_match ic s r i of
             e # _ \<Rightarrow> Some (i, e)
           | [] \<Rightarrow> rx_exec ic r s (Suc i))"
  by pat_completeness auto

termination rx_exec
  by (relation "measure (\<lambda>(ic, r, s, i). Suc (length s) - i)") auto

declare rx_exec.simps [simp del]

text \<open>\<^verbatim>\<open>text.matchAll(pattern)\<close> with the \<^verbatim>\<open>g\<close> flag: \<^verbatim>\<open>lastIndex\<close> becomes the end of
  the match, one further after an empty match.\<close>

function rx_matchAll :: "bool \<Rightarrow> regex \<Rightarrow> nat list \<Rightarrow> nat \<Rightarrow> (nat \<times> nat) list" where
  "rx_matchAll ic r s i =
     (case rx_exec ic r s i of
        None \<Rightarrow> []
      | Some (b, e) \<Rightarrow>
          (b, e) # (let nxt = (if e = b then Suc e else e)
                    in if i < nxt then rx_matchAll ic r s nxt else []))"
  by pat_completeness auto

lemma rx_exec_bounds: "rx_exec ic r s i = Some (b, e) \<Longrightarrow> i \<le> b \<and> b \<le> length s"
proof (induction ic r s i rule: rx_exec.induct)
  case (1 ic r s i)
  from 1(2) show ?case
    by (subst (asm) rx_exec.simps) (use 1(1) in \<open>auto split: if_splits list.splits\<close>)
qed

termination rx_matchAll
proof (relation "measure (\<lambda>(ic, r, s, i). Suc (length s) - i)", goal_cases)
  case 1
  show ?case by simp
next
  case (2 ic r s i x b e nxt)
  then have "i \<le> b \<and> b \<le> length s" using rx_exec_bounds by auto
  with 2 show ?case by auto
qed

declare rx_matchAll.simps [simp del]

section \<open>Matches lie in the input\<close>

lemma rep_opt_bounds:
  assumes "\<And>i j. i \<le> n \<Longrightarrow> j \<in> set (step i) \<Longrightarrow> i \<le> j \<and> j \<le> n"
  shows "i \<le> n \<Longrightarrow> j \<in> set (rep_opt step n mx i) \<Longrightarrow> i \<le> j \<and> j \<le> n"
proof (induction "n - i" arbitrary: i mx rule: less_induct)
  case less
  show ?case
  proof (cases "j = i")
    case True
    with less.prems show ?thesis by simp
  next
    case False
    with less.prems(2) obtain k where k: "i < k" "k \<le> n"
      "j \<in> set (rep_opt step n (map_option (\<lambda>k. k - 1) mx) k)"
      by (subst (asm) rep_opt.simps) (auto split: if_splits)
    from k(1,2) have "n - k < n - i" by simp
    from less.hyps [OF this k(2,3)] k(1) show ?thesis by simp
  qed
qed

lemma rep_min_bounds:
  assumes "\<And>i j. i \<le> n \<Longrightarrow> j \<in> set (step i) \<Longrightarrow> i \<le> j \<and> j \<le> n"
    and "\<And>i j. i \<le> n \<Longrightarrow> j \<in> set (rest i) \<Longrightarrow> i \<le> j \<and> j \<le> n"
  shows "i \<le> n \<Longrightarrow> j \<in> set (rep_min k step rest i) \<Longrightarrow> i \<le> j \<and> j \<le> n"
proof (induction k arbitrary: i)
  case 0
  from assms(2) [OF 0(1)] 0(2) show ?case by simp
next
  case (Suc k)
  from Suc.prems(2) obtain m where m: "m \<in> set (step i)" "j \<in> set (rep_min k step rest m)" by auto
  from assms(1) [OF Suc.prems(1) m(1)] Suc.IH [of m] m(2) show ?case by simp
qed

lemma rx_match_bounds: "i \<le> length s \<Longrightarrow> j \<in> set (rx_match ic s r i) \<Longrightarrow> i \<le> j \<and> j \<le> length s"
proof (induction r arbitrary: i j)
  case (RxSeq a b)
  from RxSeq.prems(2) obtain m where m: "m \<in> set (rx_match ic s a i)" "j \<in> set (rx_match ic s b m)" by auto
  with RxSeq.IH(1) [OF RxSeq.prems(1) m(1)] RxSeq.IH(2) [of m j] show ?case by simp
next
  case (RxRep mn mx r)
  have step: "i \<le> j \<and> j \<le> length s" if "i \<le> length s" "j \<in> set (rx_match ic s r i)" for i j
    using RxRep.IH that .
  have opt: "i \<le> j \<and> j \<le> length s"
    if "i \<le> length s" "j \<in> set (rep_opt (rx_match ic s r) (length s) (map_option (\<lambda>m. m - mn) mx) i)" for i j
    using rep_opt_bounds [OF step that] by blast
  show ?case
    by (rule rep_min_bounds [OF step opt RxRep.prems(1)]) (use RxRep.prems(2) in simp_all)
next
  case (RxAlt a b)
  from RxAlt.prems(2) have "j \<in> set (rx_match ic s a i) \<or> j \<in> set (rx_match ic s b i)" by simp
  then show ?case using RxAlt.IH(1,2) [OF RxAlt.prems(1)] by blast
qed (simp_all split: if_splits)

lemma rx_exec_match:
  "rx_exec ic r s i = Some (b, e) \<Longrightarrow> i \<le> b \<and> b \<le> e \<and> e \<le> length s \<and> e \<in> set (rx_match ic s r b)"
proof (induction ic r s i rule: rx_exec.induct)
  case (1 ic r s i)
  from 1(2) consider "i \<le> length s" "b = i" "\<exists>es. rx_match ic s r i = e # es"
    | "i \<le> length s" "rx_match ic s r i = []" "rx_exec ic r s (Suc i) = Some (b, e)"
    by (subst (asm) rx_exec.simps) (auto split: if_splits list.splits)
  then show ?case
  proof cases
    case 1
    then show ?thesis using rx_match_bounds [of i s e ic r] by auto
  next
    case 2
    with 1(1) show ?thesis by auto
  qed
qed

text \<open>The guard of \<open>rx_matchAll\<close> always holds: the source iterates without one.\<close>

lemma rx_matchAll_unfold:
  "rx_matchAll ic r s i =
     (case rx_exec ic r s i of
        None \<Rightarrow> []
      | Some (b, e) \<Rightarrow> (b, e) # rx_matchAll ic r s (if e = b then Suc e else e))"
  by (subst rx_matchAll.simps) (auto simp: Let_def dest!: rx_exec_match split: option.split)

lemma rx_matchAll_sound:
  "(b, e) \<in> set (rx_matchAll ic r s i) \<Longrightarrow>
   i \<le> b \<and> b \<le> e \<and> e \<le> length s \<and> rx_exec ic r s b = Some (b, e)"
proof (induction ic r s i rule: rx_matchAll.induct)
  case (1 ic r s i)
  from 1(2) obtain b' e' where x: "rx_exec ic r s i = Some (b', e')"
    and d: "(b, e) = (b', e') \<or> (b, e) \<in> set (rx_matchAll ic r s (if e' = b' then Suc e' else e'))"
    unfolding rx_matchAll_unfold [of ic r s i] by (cases "rx_exec ic r s i") (auto split: prod.splits)
  note bd = rx_exec_match [OF x]
  from d show ?case
  proof
    assume "(b, e) = (b', e')"
    moreover have "rx_exec ic r s b' = Some (b', e')"
      using x bd
    proof (induction ic r s i rule: rx_exec.induct)
      case (1 ic r s i)
      show ?case
      proof (cases "i \<le> length s \<and> rx_match ic s r i = []")
        case True
        with 1(2) have y: "rx_exec ic r s (Suc i) = Some (b', e')" by (subst (asm) rx_exec.simps) simp
        with 1(1) True rx_exec_match [OF y] show ?thesis by auto
      next
        case False
        with 1(2) have "b' = i" by (subst (asm) rx_exec.simps) (auto split: if_splits list.splits)
        with 1(2) show ?thesis by simp
      qed
    qed
    ultimately show ?thesis using bd by simp
  next
    assume m: "(b, e) \<in> set (rx_matchAll ic r s (if e' = b' then Suc e' else e'))"
    have "i < (if e' = b' then Suc e' else e')" using bd by auto
    from 1(1) [OF x refl refl this m] this show ?thesis by auto
  qed
qed

text \<open>The matches of one pattern do not overlap and come from left to right.\<close>

lemma rx_matchAll_sorted: "sorted_wrt (\<lambda>(b, e) (b', e'). e \<le> b') (rx_matchAll ic r s i)"
proof (induction ic r s i rule: rx_matchAll.induct)
  case (1 ic r s i)
  show ?case
  proof (cases "rx_exec ic r s i")
    case None
    then show ?thesis by (subst rx_matchAll_unfold) simp
  next
    case (Some be)
    then obtain b e where x: "rx_exec ic r s i = Some (b, e)" by (cases be) auto
    let ?nx = "if e = b then Suc e else e"
    have "i < ?nx" using rx_exec_match [OF x] by auto
    from 1 [OF x refl refl this]
    have IH: "sorted_wrt (\<lambda>(b, e) (b', e'). e \<le> b') (rx_matchAll ic r s ?nx)" .
    moreover have "e \<le> b'" if "(b', e') \<in> set (rx_matchAll ic r s ?nx)" for b' e'
      using rx_matchAll_sound [OF that] by (auto split: if_splits)
    ultimately show ?thesis using x by (subst rx_matchAll_unfold) fastforce
  qed
qed

section \<open>Code points and code units\<close>

text \<open>
  Match positions count code points; \<^verbatim>\<open>match.index\<close> and the length of the matched string count
  code units.
\<close>

definition unit_width :: "nat \<Rightarrow> nat" where
  "unit_width c = (if c < 65536 then 1 else 2)"

definition unit_index :: "nat list \<Rightarrow> nat \<Rightarrow> nat" where
  "unit_index cps k = sum_list (map unit_width (take k cps))"

text \<open>Code units are numbers below \<open>2^16\<close>.\<close>

definition is_jsstr :: "jsstr \<Rightarrow> bool" where
  "is_jsstr s \<longleftrightarrow> (\<forall>u \<in> set s. u < 65536)"

lemma sum_unit_width: "is_jsstr s \<Longrightarrow> sum_list (map unit_width (code_points s)) = length s"
  by (induction s rule: code_points.induct) (auto simp: unit_width_def is_jsstr_def)

lemma unit_index_length: "is_jsstr s \<Longrightarrow> unit_index (code_points s) (length (code_points s)) = length s"
  by (simp add: unit_index_def sum_unit_width)

lemma unit_index_mono: "j \<le> k \<Longrightarrow> unit_index cps j \<le> unit_index cps k"
  by (auto simp: unit_index_def le_iff_add take_add)

lemma unit_index_strict: "j < k \<Longrightarrow> k \<le> length cps \<Longrightarrow> unit_index cps j < unit_index cps k"
proof -
  assume "j < k" "k \<le> length cps"
  then have "unit_index cps (Suc j) \<le> unit_index cps k"
    by (intro unit_index_mono) simp
  moreover have "unit_index cps (Suc j) = unit_index cps j + unit_width (cps ! j)"
    using \<open>j < k\<close> \<open>k \<le> length cps\<close> by (simp add: unit_index_def take_Suc_conv_app_nth)
  moreover have "0 < unit_width (cps ! j)" by (simp add: unit_width_def)
  ultimately show ?thesis by simp
qed

lemma unit_index_bound: "is_jsstr s \<Longrightarrow> unit_index (code_points s) k \<le> length s"
  using unit_index_mono [of k "max k (length (code_points s))" "code_points s"]
  by (simp add: unit_index_def sum_unit_width max_def split: if_splits)

end
