(* ===== verification/PiiDetector.thy ===== *)
theory PiiDetector
  imports JsRegex
begin

text \<open>
  Detection of personal data in a prompt (\<^verbatim>\<open>pii/pii-detector.ts\<close>): the six detector rules
  with their regular expressions and validators, the collection of candidates, the removal of
  overlapping candidates by precedence, and \<^verbatim>\<open>detectPii\<close>. Offsets count UTF-16 code units,
  as in the source.

  \<^verbatim>\<open>localeCompare\<close> is only applied to the detector and category names of the program,
  whose order any collation decides by their first two letters; it is a rank function here.
\<close>

section \<open>Data\<close>

datatype PiiCategory =
  CONTACT_INFO | FINANCIAL | GOVERNMENT_ID | CREDENTIAL | INTERNAL_SECRET | BUSINESS_CONFIDENTIAL

definition PII_CATEGORIES :: "PiiCategory list" where
  "PII_CATEGORIES =
     [CONTACT_INFO, FINANCIAL, GOVERNMENT_ID, CREDENTIAL, INTERNAL_SECRET, BUSINESS_CONFIDENTIAL]"

lemma set_PII_CATEGORIES [simp]: "c \<in> set PII_CATEGORIES" "distinct PII_CATEGORIES"
  by (cases c; simp add: PII_CATEGORIES_def) (simp add: PII_CATEGORIES_def)

datatype PiiDetectorId =
  det_email | det_phone | det_payment_card_luhn | det_government_id | det_api_key
| det_connection_string

record PiiSafeMetadata =
  meta_kind :: PiiDetectorId
  meta_length :: int
  meta_normalizedLength :: "nat option"

record DetectedPiiSpan =
  sp_start :: int
  sp_end :: int
  sp_category :: PiiCategory
  sp_detector :: PiiDetectorId
  sp_confidence :: rat
  sp_metadata :: PiiSafeMetadata

record CandidateSpan = DetectedPiiSpan +
  sp_priority :: int

record PiiDetectionResult =
  det_spans :: "DetectedPiiSpan list"
  det_categories :: "PiiCategory list"

record DetectorRule =
  dr_detector :: PiiDetectorId
  dr_category :: PiiCategory
  dr_confidence :: rat
  dr_priority :: int
  dr_ignoreCase :: bool
  dr_pattern :: regex
  dr_validate :: "(jsstr \<Rightarrow> bool) option"
  dr_normalizeLength :: "(jsstr \<Rightarrow> nat) option"

section \<open>Validators\<close>

definition digitsOnly :: "jsstr \<Rightarrow> jsstr" where
  "digitsOnly v = filter (\<lambda>u. 48 \<le> u \<and> u \<le> 57) v"

text \<open>The loop of \<^verbatim>\<open>luhnCheck\<close> runs from the last digit to the first.\<close>

fun luhn_loop :: "jsstr \<Rightarrow> bool \<Rightarrow> nat \<Rightarrow> nat" where
  "luhn_loop [] shouldDouble acc = acc"
| "luhn_loop (u # us) shouldDouble acc =
     (let digit = u - 48;
          digit = (if shouldDouble then (if digit * 2 > 9 then digit * 2 - 9 else digit * 2) else digit)
      in luhn_loop us (\<not> shouldDouble) (acc + digit))"

definition luhnCheck :: "jsstr \<Rightarrow> bool" where
  "luhnCheck digits = (let total = luhn_loop (rev digits) False 0 in total > 0 \<and> total mod 10 = 0)"

definition isValidPaymentCardCandidate :: "jsstr \<Rightarrow> bool" where
  "isValidPaymentCardCandidate v =
     (let digits = digitsOnly v in length digits \<ge> 13 \<and> length digits \<le> 19 \<and> luhnCheck digits)"

definition isValidPhoneCandidate :: "jsstr \<Rightarrow> bool" where
  "isValidPhoneCandidate v = (let digits = digitsOnly v in length digits \<ge> 10 \<and> length digits \<le> 15)"

section \<open>The rules\<close>

definition rs_alnum :: char_class where "rs_alnum = rs_upper @ rs_lower @ rs_digit"

definition rx_connection_string :: regex where
  "rx_connection_string = rx_seq
     [RxBoundary,
      rx_alts [rx_seq [rx_str ''mongodb'', rx_opt (rx_str ''+srv'')],
               rx_seq [rx_str ''postgres'', rx_opt (rx_str ''ql'')],
               rx_str ''mysql'', rx_str ''redis''],
      rx_str ''://'',
      rx_plus (RxClass False (rs_space @ [(34, 34), (39, 39)] @ rs_chars ''<>''))]"

definition rx_api_key :: regex where
  "rx_api_key = rx_seq
     [RxBoundary,
      rx_alts
        [rx_seq [rx_str ''sk-'', rx_at_least 16 (RxClass True (rs_alnum @ rs_chars ''_-''))],
         rx_seq [rx_str ''gsk_'', rx_at_least 16 (RxClass True (rs_alnum @ rs_chars ''_-''))],
         rx_seq [rx_str ''ghp_'', rx_at_least 20 (RxClass True (rs_alnum @ rs_chars ''_''))],
         rx_seq [rx_str ''xox'', rx_ch ''baprs'', rx_str ''-'',
                 rx_at_least 16 (RxClass True (rs_alnum @ rs_chars ''-''))],
         rx_seq [rx_str ''AIza'', rx_at_least 20 (RxClass True (rs_alnum @ rs_chars ''_-''))],
         rx_seq
           [rx_alts [rx_seq [rx_str ''api'', rx_opt (rx_ch ''_-''), rx_str ''key''],
                     rx_seq [rx_str ''access'', rx_opt (rx_ch ''_-''), rx_str ''token''],
                     rx_str ''bearer''],
            rx_star (RxClass True rs_space), rx_ch '':='', rx_star (RxClass True rs_space),
            rx_at_least 16 (RxClass True (rs_alnum @ rs_chars ''._~-''))]],
      RxBoundary]"

definition rx_payment_card :: regex where
  "rx_payment_card = rx_seq
     [RxNotBehind rs_digit,
      rx_between 13 19 (RxSeq (RxClass True rs_digit) (rx_opt (rx_ch '' -''))),
      RxNotAhead rs_digit]"

definition rx_government_id :: regex where
  "rx_government_id = rx_seq
     [RxBoundary,
      rx_alts
        [rx_seq [rx_exactly 5 (RxClass True rs_upper), rx_exactly 4 (RxClass True rs_digit),
                 RxClass True rs_upper],
         rx_seq [rx_exactly 2 (RxClass True rs_upper), rx_exactly 2 (RxClass True rs_digit),
                 rx_opt (rx_ch '' -''), rx_exactly 11 (RxClass True rs_digit)],
         rx_seq [rx_exactly 3 (RxClass True rs_digit), rx_opt (rx_ch '' -''),
                 rx_exactly 2 (RxClass True rs_digit), rx_opt (rx_ch '' -''),
                 rx_exactly 4 (RxClass True rs_digit)]],
      RxBoundary]"

definition rx_email :: regex where
  "rx_email = rx_seq
     [RxBoundary, rx_plus (RxClass True (rs_upper @ rs_digit @ rs_chars ''._%+-'')), rx_str ''@'',
      rx_plus (RxClass True (rs_upper @ rs_digit @ rs_chars ''.-'')), rx_str ''.'',
      rx_between 2 63 (RxClass True rs_upper), RxBoundary]"

definition rx_phone :: regex where
  "rx_phone = rx_seq
     [RxNotBehind (rs_word @ rs_chars ''@''),
      rx_opt (rx_seq [rx_opt (rx_ch ''+''), rx_between 1 3 (RxClass True rs_digit),
                      rx_opt (RxClass True (rs_space @ rs_chars ''.-''))]),
      rx_between 2 4
        (rx_seq [rx_opt (rx_ch ''(''), rx_between 2 4 (RxClass True rs_digit), rx_opt (rx_ch '')''),
                 rx_opt (RxClass True (rs_space @ rs_chars ''.-''))]),
      rx_between 3 4 (RxClass True rs_digit),
      RxNotAhead (rs_word @ rs_chars ''@'')]"

definition DETECTOR_RULES :: "DetectorRule list" where
  "DETECTOR_RULES =
     [\<lparr>dr_detector = det_connection_string, dr_category = INTERNAL_SECRET, dr_confidence = 95/100,
       dr_priority = 100, dr_ignoreCase = True, dr_pattern = rx_connection_string,
       dr_validate = None, dr_normalizeLength = None\<rparr>,
      \<lparr>dr_detector = det_api_key, dr_category = CREDENTIAL, dr_confidence = 9/10,
       dr_priority = 90, dr_ignoreCase = True, dr_pattern = rx_api_key,
       dr_validate = None, dr_normalizeLength = None\<rparr>,
      \<lparr>dr_detector = det_payment_card_luhn, dr_category = FINANCIAL, dr_confidence = 85/100,
       dr_priority = 80, dr_ignoreCase = False, dr_pattern = rx_payment_card,
       dr_validate = Some isValidPaymentCardCandidate,
       dr_normalizeLength = Some (\<lambda>v. length (digitsOnly v))\<rparr>,
      \<lparr>dr_detector = det_government_id, dr_category = GOVERNMENT_ID, dr_confidence = 8/10,
       dr_priority = 70, dr_ignoreCase = False, dr_pattern = rx_government_id,
       dr_validate = None, dr_normalizeLength = None\<rparr>,
      \<lparr>dr_detector = det_email, dr_category = CONTACT_INFO, dr_confidence = 85/100,
       dr_priority = 60, dr_ignoreCase = True, dr_pattern = rx_email,
       dr_validate = None, dr_normalizeLength = None\<rparr>,
      \<lparr>dr_detector = det_phone, dr_category = CONTACT_INFO, dr_confidence = 65/100,
       dr_priority = 50, dr_ignoreCase = False, dr_pattern = rx_phone,
       dr_validate = Some isValidPhoneCandidate,
       dr_normalizeLength = Some (\<lambda>v. length (digitsOnly v))\<rparr>]"

section \<open>Candidates and their selection\<close>

definition js_slice :: "jsstr \<Rightarrow> nat \<Rightarrow> nat \<Rightarrow> jsstr" where
  "js_slice s a b = take (b - a) (drop a s)"

definition match_candidate :: "jsstr \<Rightarrow> DetectorRule \<Rightarrow> nat \<times> nat \<Rightarrow> CandidateSpan list" where
  "match_candidate text rule be =
     (let cps = code_points text;
          start = unit_index cps (fst be);
          matchedValue = js_slice text start (unit_index cps (snd be))
      in if matchedValue = [] then []
         else if (case dr_validate rule of None \<Rightarrow> False | Some validate \<Rightarrow> \<not> validate matchedValue) then []
         else let end' = start + length matchedValue
              in [\<lparr>sp_start = int start, sp_end = int end', sp_category = dr_category rule,
                   sp_detector = dr_detector rule, sp_confidence = dr_confidence rule,
                   sp_metadata = \<lparr>meta_kind = dr_detector rule, meta_length = int end' - int start,
                     meta_normalizedLength = map_option (\<lambda>f. f matchedValue) (dr_normalizeLength rule)\<rparr>,
                   sp_priority = dr_priority rule\<rparr>])"

definition collectCandidates :: "jsstr \<Rightarrow> CandidateSpan list" where
  "collectCandidates text =
     concat (map (\<lambda>rule. concat (map (match_candidate text rule)
        (rx_matchAll (dr_ignoreCase rule) (dr_pattern rule) (code_points text) 0))) DETECTOR_RULES)"

definition spansOverlap :: "'a DetectedPiiSpan_scheme \<Rightarrow> 'b DetectedPiiSpan_scheme \<Rightarrow> bool" where
  "spansOverlap left right \<longleftrightarrow> sp_start left < sp_end right \<and> sp_start right < sp_end left"

text \<open>\<^verbatim>\<open>a || b\<close> on numbers.\<close>

definition js_or :: "int \<Rightarrow> int \<Rightarrow> int" where
  "js_or a b = (if a \<noteq> 0 then a else b)"

definition compareByPrecedence :: "CandidateSpan \<Rightarrow> CandidateSpan \<Rightarrow> int" where
  "compareByPrecedence left right =
     js_or (sp_priority right - sp_priority left)
      (js_or (sp_start left - sp_start right)
        ((sp_end right - sp_start right) - (sp_end left - sp_start left)))"

fun detector_rank :: "PiiDetectorId \<Rightarrow> int" where
  "detector_rank det_api_key = 0"
| "detector_rank det_connection_string = 1"
| "detector_rank det_email = 2"
| "detector_rank det_government_id = 3"
| "detector_rank det_payment_card_luhn = 4"
| "detector_rank det_phone = 5"

definition compareByPosition :: "DetectedPiiSpan \<Rightarrow> DetectedPiiSpan \<Rightarrow> int" where
  "compareByPosition left right =
     js_or (sp_start left - sp_start right)
      (js_or (sp_end left - sp_end right)
        (detector_rank (sp_detector left) - detector_rank (sp_detector right)))"

fun select_loop :: "CandidateSpan list \<Rightarrow> CandidateSpan list \<Rightarrow> CandidateSpan list" where
  "select_loop selected [] = selected"
| "select_loop selected (c # cs) =
     (if \<exists>span \<in> set selected. spansOverlap c span then select_loop selected cs
      else select_loop (selected @ [c]) cs)"

definition removeOverlaps :: "CandidateSpan list \<Rightarrow> CandidateSpan list" where
  "removeOverlaps candidates =
     select_loop [] (sort_by (\<lambda>x y. compareByPrecedence x y \<le> 0) candidates)"

definition removePriority :: "CandidateSpan \<Rightarrow> DetectedPiiSpan" where
  "removePriority c = \<lparr>sp_start = sp_start c, sp_end = sp_end c, sp_category = sp_category c,
     sp_detector = sp_detector c, sp_confidence = sp_confidence c, sp_metadata = sp_metadata c\<rparr>"

definition detectPii :: "jsstr \<Rightarrow> PiiDetectionResult" where
  "detectPii text =
     (let spans = sort_by (\<lambda>x y. compareByPosition x y \<le> 0)
                    (map removePriority (removeOverlaps (collectCandidates text)))
      in \<lparr>det_spans = spans, det_categories = distinct_first (map sp_category spans)\<rparr>)"

section \<open>What a candidate is\<close>

text \<open>
  \<open>rule_match text rule s\<close>: the span \<open>s\<close> is a match of the rule's pattern that passed
  the rule's validator, with exact offsets and the rule's labels.
\<close>

definition rule_match :: "jsstr \<Rightarrow> DetectorRule \<Rightarrow> 'x DetectedPiiSpan_scheme \<Rightarrow> bool" where
  "rule_match text rule s \<longleftrightarrow>
     (\<exists>b e. (b, e) \<in> set (rx_matchAll (dr_ignoreCase rule) (dr_pattern rule) (code_points text) 0)
        \<and> sp_start s = int (unit_index (code_points text) b)
        \<and> sp_end s = int (unit_index (code_points text) e)
        \<and> (\<forall>v. dr_validate rule = Some v \<longrightarrow> v (js_slice text (nat (sp_start s)) (nat (sp_end s)))))
     \<and> sp_category s = dr_category rule \<and> sp_detector s = dr_detector rule
     \<and> sp_confidence s = dr_confidence rule"

definition span_in :: "jsstr \<Rightarrow> 'x DetectedPiiSpan_scheme \<Rightarrow> bool" where
  "span_in text s \<longleftrightarrow> 0 \<le> sp_start s \<and> sp_start s < sp_end s \<and> sp_end s \<le> int (length text)"

lemma match_candidate_sound:
  assumes js: "is_jsstr text"
    and m: "(b, e) \<in> set (rx_matchAll (dr_ignoreCase rule) (dr_pattern rule) (code_points text) 0)"
    and c: "c \<in> set (match_candidate text rule (b, e))"
  shows "rule_match text rule c" and "span_in text c" and "sp_priority c = dr_priority rule"
proof -
  let ?cps = "code_points text"
  define st en where "st = unit_index ?cps b" and "en = unit_index ?cps e"
  have be: "b \<le> e" "e \<le> length ?cps" using rx_matchAll_sound [OF m] by auto
  have le: "st \<le> en" "en \<le> length text"
    using unit_index_mono [OF be(1)] unit_index_bound [OF js] by (simp_all add: st_def en_def)
  then have len: "length (js_slice text st en) = en - st" by (simp add: js_slice_def)
  from c have ne: "js_slice text st en \<noteq> []"
    by (auto simp: match_candidate_def Let_def st_def en_def split: if_splits)
  with len le have lt: "st < en" by (metis diff_is_0_eq length_0_conv not_le)
  with c len have pos: "sp_start c = int st" "sp_end c = int en"
    by (auto simp: match_candidate_def Let_def st_def en_def split: if_splits)
  from c ne len lt have lab: "sp_category c = dr_category rule" "sp_detector c = dr_detector rule"
    "sp_confidence c = dr_confidence rule" "sp_priority c = dr_priority rule"
    "\<forall>v. dr_validate rule = Some v \<longrightarrow> v (js_slice text st en)"
    by (auto simp: match_candidate_def Let_def st_def en_def split: if_splits)
  from pos lt le show "span_in text c" by (simp add: span_in_def)
  from m pos lab show "rule_match text rule c"
    unfolding rule_match_def by (auto simp: st_def en_def)
  show "sp_priority c = dr_priority rule" by (rule lab)
qed

lemma collectCandidates_sound:
  assumes "is_jsstr text" and "c \<in> set (collectCandidates text)"
  shows "\<exists>rule \<in> set DETECTOR_RULES. rule_match text rule c \<and> sp_priority c = dr_priority rule"
    and "span_in text c"
proof -
  from assms(2) obtain rule b e where "rule \<in> set DETECTOR_RULES"
    "(b, e) \<in> set (rx_matchAll (dr_ignoreCase rule) (dr_pattern rule) (code_points text) 0)"
    "c \<in> set (match_candidate text rule (b, e))"
    by (auto simp: collectCandidates_def)
  with match_candidate_sound [OF assms(1)] show
    "\<exists>rule \<in> set DETECTOR_RULES. rule_match text rule c \<and> sp_priority c = dr_priority rule" and "span_in text c"
    by blast+
qed

text \<open>Every validated match of a rule is a candidate.\<close>

lemma collectCandidates_complete:
  assumes js: "is_jsstr text" and r: "rule \<in> set DETECTOR_RULES" and m: "rule_match text rule s"
    and ne: "sp_start s < sp_end s"
  shows "\<exists>c \<in> set (collectCandidates text). sp_start c = sp_start s \<and> sp_end c = sp_end s
     \<and> sp_detector c = dr_detector rule \<and> sp_priority c = dr_priority rule"
proof -
  let ?cps = "code_points text"
  from m obtain b e where be: "(b, e) \<in> set (rx_matchAll (dr_ignoreCase rule) (dr_pattern rule) ?cps 0)"
    and st: "sp_start s = int (unit_index ?cps b)" "sp_end s = int (unit_index ?cps e)"
    and v: "\<forall>v. dr_validate rule = Some v \<longrightarrow> v (js_slice text (nat (sp_start s)) (nat (sp_end s)))"
    by (auto simp: rule_match_def)
  have "unit_index ?cps e \<le> length text" by (rule unit_index_bound [OF js])
  with st ne have len: "length (js_slice text (unit_index ?cps b) (unit_index ?cps e))
      = unit_index ?cps e - unit_index ?cps b" and pos: "unit_index ?cps b < unit_index ?cps e"
    by (simp_all add: js_slice_def)
  then have nn: "js_slice text (unit_index ?cps b) (unit_index ?cps e) \<noteq> []" by auto
  have "\<exists>c \<in> set (match_candidate text rule (b, e)). sp_start c = sp_start s \<and> sp_end c = sp_end s
      \<and> sp_detector c = dr_detector rule \<and> sp_priority c = dr_priority rule"
    using v nn len pos st by (auto simp: match_candidate_def Let_def split: option.splits)
  with be r show ?thesis by (fastforce simp: collectCandidates_def)
qed

section \<open>Selection by precedence\<close>

lemma compareByPrecedence_total: "compareByPrecedence x y \<le> 0 \<or> compareByPrecedence y x \<le> 0"
  by (auto simp: compareByPrecedence_def js_or_def)

lemma compareByPrecedence_trans:
  "compareByPrecedence x y \<le> 0 \<Longrightarrow> compareByPrecedence y z \<le> 0 \<Longrightarrow> compareByPrecedence x z \<le> 0"
  by (auto simp: compareByPrecedence_def js_or_def split: if_splits)

lemma compareByPosition_total: "compareByPosition x y \<le> 0 \<or> compareByPosition y x \<le> 0"
  by (auto simp: compareByPosition_def js_or_def)

lemma compareByPosition_trans:
  "compareByPosition x y \<le> 0 \<Longrightarrow> compareByPosition y z \<le> 0 \<Longrightarrow> compareByPosition x z \<le> 0"
  by (auto simp: compareByPosition_def js_or_def split: if_splits)

lemmas precedence_sorted = sorted_wrt_sort_by [where le = "\<lambda>x y. compareByPrecedence x y \<le> 0",
    OF compareByPrecedence_total compareByPrecedence_trans]

lemmas position_sorted = sorted_wrt_sort_by [where le = "\<lambda>x y. compareByPosition x y \<le> 0",
    OF compareByPosition_total compareByPosition_trans]

definition disjoint_spans :: "('x DetectedPiiSpan_scheme) list \<Rightarrow> bool" where
  "disjoint_spans ss \<longleftrightarrow> sorted_wrt (\<lambda>a b. \<not> spansOverlap a b) ss"

lemma spansOverlap_sym: "spansOverlap a b = spansOverlap b a"
  by (auto simp: spansOverlap_def)

lemma select_loop_subset: "set (select_loop sel cs) \<subseteq> set sel \<union> set cs"
  by (induction sel cs rule: select_loop.induct) auto

lemma select_loop_keeps: "set sel \<subseteq> set (select_loop sel cs)"
  by (induction sel cs rule: select_loop.induct) auto

lemma select_loop_disjoint: "disjoint_spans sel \<Longrightarrow> disjoint_spans (select_loop sel cs)"
proof (induction sel cs rule: select_loop.induct)
  case (2 sel c cs)
  show ?case
  proof (cases "\<exists>s \<in> set sel. spansOverlap c s")
    case False
    then have "disjoint_spans (sel @ [c])"
      using 2(3) by (auto simp: disjoint_spans_def sorted_wrt_append spansOverlap_def)
    with 2(2) [OF False] False show ?thesis by simp
  qed (use 2 in simp)
qed simp

text \<open>A candidate that is not selected overlaps a selected one that does not come after it.\<close>

lemma select_loop_maximal:
  assumes "sorted_wrt (\<lambda>x y. compareByPrecedence x y \<le> 0) (sel @ cs)"
    and "c \<in> set cs" and "sp_start c < sp_end c"
  shows "\<exists>s \<in> set (select_loop sel cs). spansOverlap c s \<and> compareByPrecedence s c \<le> 0"
  using assms
proof (induction sel cs rule: select_loop.induct)
  case (1 sel)
  then show ?case by simp
next
  case (2 sel d cs)
  show ?case
  proof (cases "\<exists>s \<in> set sel. spansOverlap d s")
    case True
    have "sorted_wrt (\<lambda>x y. compareByPrecedence x y \<le> 0) (sel @ cs)"
      using 2(3) by (auto simp: sorted_wrt_append)
    with 2(1) [OF True this] 2(3-5) True select_loop_keeps [of sel cs] show ?thesis
      by (fastforce simp: sorted_wrt_append)
  next
    case False
    have "sorted_wrt (\<lambda>x y. compareByPrecedence x y \<le> 0) ((sel @ [d]) @ cs)" using 2(3) by simp
    moreover have "d \<in> set (select_loop (sel @ [d]) cs)" using select_loop_keeps [of "sel @ [d]" cs] by auto
    moreover have "spansOverlap c c" "compareByPrecedence c c \<le> 0" using 2(5)
      by (simp_all add: spansOverlap_def compareByPrecedence_def js_or_def)
    ultimately show ?thesis using 2(2) [OF False] 2(4,5) False by auto
  qed
qed

lemma removeOverlaps_subset: "set (removeOverlaps cs) \<subseteq> set cs"
  using select_loop_subset [of "[]"] by (fastforce simp: removeOverlaps_def)

lemma removeOverlaps_disjoint: "disjoint_spans (removeOverlaps cs)"
  unfolding removeOverlaps_def by (rule select_loop_disjoint) (simp add: disjoint_spans_def)

lemma removeOverlaps_maximal:
  "c \<in> set cs \<Longrightarrow> sp_start c < sp_end c \<Longrightarrow>
   \<exists>s \<in> set (removeOverlaps cs). spansOverlap c s \<and> compareByPrecedence s c \<le> 0"
  unfolding removeOverlaps_def by (rule select_loop_maximal) (simp_all add: precedence_sorted)

section \<open>Properties of the detector\<close>

lemma removePriority_simps [simp]:
  "sp_start (removePriority c) = sp_start c" "sp_end (removePriority c) = sp_end c"
  "sp_category (removePriority c) = sp_category c" "sp_detector (removePriority c) = sp_detector c"
  "sp_confidence (removePriority c) = sp_confidence c" "sp_metadata (removePriority c) = sp_metadata c"
  by (simp_all add: removePriority_def)

lemma rule_match_removePriority [simp]: "rule_match text rule (removePriority c) = rule_match text rule c"
  by (simp add: rule_match_def)

lemma span_in_removePriority [simp]: "span_in text (removePriority c) = span_in text c"
  by (simp add: span_in_def)

lemma set_det_spans: "set (det_spans (detectPii text)) = removePriority ` set (removeOverlaps (collectCandidates text))"
  by (simp add: detectPii_def Let_def)

lemma detectPii_span:
  assumes "is_jsstr text" and "s \<in> set (det_spans (detectPii text))"
  shows "\<exists>rule \<in> set DETECTOR_RULES. rule_match text rule s" and "span_in text s"
  using assms collectCandidates_sound [OF assms(1)] removeOverlaps_subset [of "collectCandidates text"]
  unfolding set_det_spans by fastforce+

lemma pairwise_mset:
  assumes "sorted_wrt (\<lambda>a b. \<not> R a b) xs" and sym: "\<And>a b. R a b = R b a" and "mset ys = mset xs"
  shows "sorted_wrt (\<lambda>a b. \<not> R a b) ys"
  using assms(1,3)
proof (induction ys arbitrary: xs)
  case Nil
  then show ?case by simp
next
  case (Cons y ys)
  then have "y \<in> set xs" by (metis list.set_intros(1) mset_eq_setD)
  then obtain us vs where xs: "xs = us @ y # vs" by (metis split_list)
  with Cons.prems have "mset ys = mset (us @ vs)" by simp
  moreover from xs Cons.prems(1) have "sorted_wrt (\<lambda>a b. \<not> R a b) (us @ vs)"
    by (auto simp: sorted_wrt_append)
  moreover have "\<not> R y z" if "z \<in> set (us @ vs)" for z
    using that xs Cons.prems(1) sym [of z y] by (auto simp: sorted_wrt_append)
  moreover have "set ys = set (us @ vs)" using \<open>mset ys = mset (us @ vs)\<close> by (rule mset_eq_setD)
  ultimately show ?case using Cons.IH [of "us @ vs"] by simp
qed

lemma detectPii_disjoint: "disjoint_spans (det_spans (detectPii text))"
proof -
  have "disjoint_spans (map removePriority (removeOverlaps (collectCandidates text)))"
    using removeOverlaps_disjoint [of "collectCandidates text"]
    by (simp add: disjoint_spans_def sorted_wrt_map spansOverlap_def)
  then have "sorted_wrt (\<lambda>a b. \<not> spansOverlap a b) (map removePriority (removeOverlaps (collectCandidates text)))"
    by (simp add: disjoint_spans_def)
  from pairwise_mset [where R = spansOverlap, OF this spansOverlap_sym] show ?thesis
    by (simp add: disjoint_spans_def detectPii_def Let_def)
qed

lemma detectPii_ordered:
  assumes "is_jsstr text"
  shows "sorted_wrt (\<lambda>a b. sp_end a \<le> sp_start b) (det_spans (detectPii text))"
proof -
  let ?ss = "det_spans (detectPii text)"
  have "sorted_wrt (\<lambda>x y. compareByPosition x y \<le> 0) ?ss"
    by (simp add: detectPii_def Let_def position_sorted)
  then have "sorted_wrt (\<lambda>a b. sp_start a \<le> sp_start b) ?ss"
    by (rule sorted_wrt_mono_rel [rotated]) (auto simp: compareByPosition_def js_or_def split: if_splits)
  moreover have "sorted_wrt (\<lambda>a b. \<not> spansOverlap a b) ?ss"
    using detectPii_disjoint by (simp add: disjoint_spans_def)
  ultimately have "sorted_wrt (\<lambda>a b. sp_start a \<le> sp_start b \<and> \<not> spansOverlap a b) ?ss"
    by (simp add: sorted_wrt_iff_nth_less)
  then show ?thesis
  proof (rule sorted_wrt_mono_rel [rotated])
    fix x y
    assume "x \<in> set ?ss" "y \<in> set ?ss" and xy: "sp_start x \<le> sp_start y \<and> \<not> spansOverlap x y"
    then have "span_in text x" "span_in text y" using detectPii_span(2) [OF assms] by blast+
    with xy show "sp_end x \<le> sp_start y" by (auto simp: spansOverlap_def span_in_def)
  qed
qed

lemma filter_split: "filter P zs = xs @ ys \<Longrightarrow> \<exists>p q. zs = p @ q \<and> filter P p = xs \<and> filter P q = ys"
proof (induction zs arbitrary: xs)
  case (Cons z zs)
  show ?case
  proof (cases "P z \<and> xs \<noteq> []")
    case True
    then obtain xs' where xs: "xs = z # xs'" "filter P zs = xs' @ ys" using Cons.prems by (cases xs) auto
    with Cons.IH obtain p q where "zs = p @ q" "filter P p = xs'" "filter P q = ys" by blast
    with True xs show ?thesis by (intro exI [of _ "z # p"] exI [of _ q]) simp
  next
    case False
    show ?thesis
    proof (cases "P z")
      case True
      with False Cons.prems show ?thesis by (intro exI [of _ "[]"] exI [of _ "z # zs"]) simp
    next
      case nP: False
      with Cons.prems have "filter P zs = xs @ ys" by simp
      with Cons.IH obtain p q where "zs = p @ q" "filter P p = xs" "filter P q = ys" by blast
      with nP show ?thesis by (intro exI [of _ "z # p"] exI [of _ q]) simp
    qed
  qed
qed simp

lemma distinct_first_prefix:
  "distinct_first zs = xs @ c # ys \<Longrightarrow> \<exists>us vs. zs = us @ c # vs \<and> set us = set xs"
proof (induction zs arbitrary: xs ys)
  case (Cons z zs)
  show ?case
  proof (cases xs)
    case Nil
    then show ?thesis using Cons.prems by (intro exI [of _ "[]"] exI [of _ zs]) simp
  next
    case (Cons x xs')
    have e: "z # filter (\<lambda>y. y \<noteq> z) (distinct_first zs) = x # xs' @ c # ys" using Cons.prems unfolding Cons distinct_first.simps append_Cons .
    from arg_cong [OF e, of hd] have x: "x = z" by simp
    from arg_cong [OF e, of tl] have f: "filter (\<lambda>y. y \<noteq> z) (distinct_first zs) = xs' @ c # ys" by simp
    from f obtain p q where pq: "distinct_first zs = p @ q" "filter (\<lambda>y. y \<noteq> z) p = xs'" "filter (\<lambda>y. y \<noteq> z) q = c # ys"
      using filter_split by blast
    from pq(3) obtain u v where q: "q = u @ c # v" "\<forall>y \<in> set u. y = z" by (auto simp: filter_eq_Cons_iff)
    obtain us vs where "zs = us @ c # vs" "set us = set (p @ u)"
      using Cons.IH [of "p @ u" v] pq(1) q(1) by auto
    moreover have "insert z (set (p @ u)) = insert z (set xs')" using pq(2) q(2) by auto
    ultimately show ?thesis unfolding Cons x by (intro exI [of _ "z # us"] exI [of _ vs]) auto
  qed
qed simp

text \<open>
  C32. The spans that \<^verbatim>\<open>detectPii\<close> returns lie in the text, are not empty, come from left to
  right and do not overlap; each is an exact, validated match of one of the six detector rules and
  carries that rule's detector and category. The categories of the result are those of the spans, each
  once, in the order of their first span. Offsets count UTF-16 code units, for texts with characters
  outside the basic plane too.
\<close>

theorem detectPii_sound:
  assumes "is_jsstr text"
  shows "sorted_wrt (\<lambda>a b. sp_end a \<le> sp_start b) (det_spans (detectPii text))
    \<and> (\<forall>s \<in> set (det_spans (detectPii text)).
         span_in text s \<and> (\<exists>rule \<in> set DETECTOR_RULES. rule_match text rule s))
    \<and> set (det_categories (detectPii text)) = sp_category ` set (det_spans (detectPii text))
    \<and> distinct (det_categories (detectPii text))
    \<and> (\<forall>xs c ys. det_categories (detectPii text) = xs @ c # ys \<longrightarrow>
         (\<exists>us vs. map sp_category (det_spans (detectPii text)) = us @ c # vs \<and> set us = set xs))"
proof -
  have "det_categories (detectPii text) = distinct_first (map sp_category (det_spans (detectPii text)))"
    by (simp add: detectPii_def Let_def)
  then show ?thesis using detectPii_ordered [OF assms] detectPii_span [OF assms] distinct_first_prefix by auto
qed

text \<open>
  C33. Nothing that a rule recognises is lost without a reason: every validated match of a detector
  rule shares at least one character with a reported span of the same or a higher priority (a
  rule's own match is reported unless such a span takes its place).
\<close>

theorem detectPii_covers_matches:
  assumes "is_jsstr text" and "rule \<in> set DETECTOR_RULES" and "rule_match text rule m"
    and "sp_start m < sp_end m"
  shows "\<exists>s \<in> set (det_spans (detectPii text)). spansOverlap m s
    \<and> (\<exists>rule' \<in> set DETECTOR_RULES. rule_match text rule' s \<and> dr_priority rule \<le> dr_priority rule')"
proof -
  from collectCandidates_complete [OF assms] obtain c where c: "c \<in> set (collectCandidates text)"
    "sp_start c = sp_start m" "sp_end c = sp_end m" "sp_priority c = dr_priority rule" by blast
  with assms(4) removeOverlaps_maximal [of c] obtain s where
    s: "s \<in> set (removeOverlaps (collectCandidates text))" "spansOverlap c s" "compareByPrecedence s c \<le> 0"
    by auto
  then have "s \<in> set (collectCandidates text)" using removeOverlaps_subset by blast
  with collectCandidates_sound(1) [OF assms(1)] obtain rule' where r: "rule' \<in> set DETECTOR_RULES"
    "rule_match text rule' s" "sp_priority s = dr_priority rule'" by blast
  from s(3) c(4) r(3) have "dr_priority rule \<le> dr_priority rule'"
    by (auto simp: compareByPrecedence_def js_or_def split: if_splits)
  moreover have "spansOverlap m (removePriority s)" using s(2) c(2,3) by (simp add: spansOverlap_def)
  ultimately show ?thesis using s(1) r(1,2) by (auto simp: set_det_spans)
qed

section \<open>The Luhn check\<close>

definition luhn_digit :: "bool \<Rightarrow> nat \<Rightarrow> nat" where
  "luhn_digit dbl u = (let d = u - 48 in if dbl then (if d * 2 > 9 then d * 2 - 9 else d * 2) else d)"

lemma luhn_loop_acc: "luhn_loop us dbl acc = acc + luhn_loop us dbl 0"
proof (induction us arbitrary: dbl acc)
  case (Cons u us)
  have "luhn_loop (u # us) dbl a = luhn_loop us (\<not> dbl) (a + luhn_digit dbl u)" for a
    by (simp add: luhn_digit_def Let_def)
  with Cons [of "\<not> dbl" "acc + luhn_digit dbl u"] Cons [of "\<not> dbl" "luhn_digit dbl u"] show ?case
    by (simp del: luhn_loop.simps)
qed simp

lemma luhn_loop_Cons: "luhn_loop (u # us) dbl 0 = luhn_digit dbl u + luhn_loop us (\<not> dbl) 0"
  using luhn_loop_acc [of us "\<not> dbl" "luhn_digit dbl u"] by (simp add: luhn_digit_def Let_def)

lemma luhn_loop_split:
  "\<exists>a b dbl'. \<forall>u. luhn_loop (xs @ u # ys) dbl 0 = a + luhn_digit dbl' u + b"
proof (induction xs arbitrary: dbl)
  case Nil
  have "\<forall>u. luhn_loop ([] @ u # ys) dbl 0 = 0 + luhn_digit dbl u + luhn_loop ys (\<not> dbl) 0"
    by (simp add: luhn_loop_Cons del: luhn_loop.simps)
  then show ?case by blast
next
  case (Cons x xs)
  from Cons [of "\<not> dbl"] obtain a b dbl' where
    "\<forall>u. luhn_loop (xs @ u # ys) (\<not> dbl) 0 = a + luhn_digit dbl' u + b" by blast
  then have "\<forall>u. luhn_loop ((x # xs) @ u # ys) dbl 0 = (luhn_digit dbl x + a) + luhn_digit dbl' u + b"
    by (simp add: luhn_loop_Cons del: luhn_loop.simps)
  then show ?case by blast
qed

lemma luhn_digit_range: "48 \<le> u \<Longrightarrow> u \<le> 57 \<Longrightarrow> luhn_digit dbl u \<le> 9"
  by (auto simp: luhn_digit_def Let_def)

lemma luhn_digit_inj:
  "48 \<le> u \<Longrightarrow> u \<le> 57 \<Longrightarrow> 48 \<le> v \<Longrightarrow> v \<le> 57 \<Longrightarrow> luhn_digit dbl u = luhn_digit dbl v \<Longrightarrow> u = v"
  by (auto simp: luhn_digit_def Let_def split: if_splits) presburger+

text \<open>
  The Luhn check detects every error in a single digit: of two digit strings that differ in
  exactly one place, at most one passes, so a mistyped card number is not taken for a card number.
\<close>

theorem luhn_detects_single_digit_error:
  assumes "48 \<le> u" "u \<le> 57" "48 \<le> v" "v \<le> 57" "u \<noteq> v" and "luhnCheck (xs @ u # ys)"
  shows "\<not> luhnCheck (xs @ v # ys)"
proof
  assume "luhnCheck (xs @ v # ys)"
  with assms(6) have z: "luhn_loop (rev ys @ u # rev xs) False 0 mod 10 = 0"
    "luhn_loop (rev ys @ v # rev xs) False 0 mod 10 = 0" by (simp_all add: luhnCheck_def Let_def)
  from luhn_loop_split [of "rev ys" "rev xs" False] obtain a b d where
    "\<And>w. luhn_loop (rev ys @ w # rev xs) False 0 = a + luhn_digit d w + b" by blast
  with z have "(a + luhn_digit d u + b) mod 10 = 0" "(a + luhn_digit d v + b) mod 10 = 0" by metis+
  then obtain i j where "a + luhn_digit d u + b = 10 * i" "a + luhn_digit d v + b = 10 * j"
    by (auto simp: mod_eq_0_iff_dvd dvd_def)
  then have "10 * i + luhn_digit d v = 10 * j + luhn_digit d u" by linarith
  then have "luhn_digit d v mod 10 = luhn_digit d u mod 10" by (metis mod_mult_self4)
  with luhn_digit_range [OF assms(1,2), of d] luhn_digit_range [OF assms(3,4), of d]
  have "luhn_digit d u = luhn_digit d v" by simp
  with luhn_digit_inj assms(1-5) show False by blast
qed

theorem luhn_detects_single_digit_error_witness:
  "luhnCheck (js_lit ''4111111111111111'') \<and> \<not> luhnCheck (js_lit ''4111111111111112'')"
proof -
  have "luhnCheck (js_lit ''411111111111111'' @ 49 # [])" by code_simp
  with luhn_detects_single_digit_error [of 49 50 "js_lit ''411111111111111''" "[]"]
  have "luhnCheck (js_lit ''411111111111111'' @ [49])" "\<not> luhnCheck (js_lit ''411111111111111'' @ [50])" by simp_all
  then show ?thesis by (simp add: js_lit_def)
qed

section \<open>A detected address\<close>

definition demo_text :: jsstr where
  "demo_text = js_lit ''a@b.co''"

lemma demo_text_jsstr: "is_jsstr demo_text"
  by (simp add: demo_text_def is_jsstr_def js_lit_def)

lemmas rx_eval = rx_matchAll_unfold rx_exec.simps rep_opt.simps is_word_at_def at_boundary_def
  class_has_def in_ranges_def fold_variants_def canonicalize_def rs_digit_def rs_upper_def rs_lower_def
  rs_word_def rs_space_def rs_chars_def rx_ch_def rx_opt_def rx_star_def rx_plus_def rx_between_def
  rx_exactly_def rx_at_least_def rs_alnum_def rep_min_numeral rep_min_1 Let_def

lemma demo_code_points: "code_points demo_text = [97, 64, 98, 46, 99, 111]"
  by (simp add: demo_text_def js_lit_def is_high_def)

lemma demo_connection_string: "rx_matchAll True rx_connection_string [97, 64, 98, 46, 99, 111] 0 = []"
  by (simp add: rx_connection_string_def rx_eval)

lemma demo_api_key: "rx_matchAll True rx_api_key [97, 64, 98, 46, 99, 111] 0 = []"
  by (simp add: rx_api_key_def rx_eval)

lemma demo_payment_card: "rx_matchAll False rx_payment_card [97, 64, 98, 46, 99, 111] 0 = []"
  by (simp add: rx_payment_card_def rx_eval)

lemma demo_government_id: "rx_matchAll False rx_government_id [97, 64, 98, 46, 99, 111] 0 = []"
  by (simp add: rx_government_id_def rx_eval)

lemma demo_phone: "rx_matchAll False rx_phone [97, 64, 98, 46, 99, 111] 0 = []"
  by (simp add: rx_phone_def rx_eval)

lemma demo_email: "rx_matchAll True rx_email [97, 64, 98, 46, 99, 111] 0 = [(0, 6)]"
  by (simp add: rx_email_def rx_eval)

definition demo_span :: DetectedPiiSpan where
  "demo_span = \<lparr>sp_start = 0, sp_end = 6, sp_category = CONTACT_INFO, sp_detector = det_email,
     sp_confidence = 85/100, sp_metadata = \<lparr>meta_kind = det_email, meta_length = 6,
       meta_normalizedLength = None\<rparr>\<rparr>"

lemma demo_slice: "length demo_text = 6" "js_slice demo_text 0 (Suc (Suc (Suc (Suc (Suc (Suc 0)))))) = demo_text"
  "demo_text \<noteq> []"
  by (simp_all add: demo_text_def js_lit_def js_slice_def)

lemma demo_detect: "det_spans (detectPii demo_text) = [demo_span]"
  by (simp add: detectPii_def Let_def collectCandidates_def DETECTOR_RULES_def demo_code_points
      demo_connection_string demo_api_key demo_payment_card demo_government_id demo_phone demo_email
      match_candidate_def unit_index_def unit_width_def demo_slice
      removeOverlaps_def removePriority_def demo_span_def)

theorem detectPii_sound_witness:
  "is_jsstr demo_text \<and> det_spans (detectPii demo_text) = [demo_span] \<and> span_in demo_text demo_span
   \<and> set (det_categories (detectPii demo_text)) = {sp_category demo_span}"
  using detectPii_sound [OF demo_text_jsstr] demo_text_jsstr demo_detect by simp

theorem detectPii_covers_matches_witness:
  "\<exists>s \<in> set (det_spans (detectPii demo_text)). spansOverlap demo_span s"
proof -
  from detectPii_span(1) [OF demo_text_jsstr] obtain rule where
    "rule \<in> set DETECTOR_RULES" "rule_match demo_text rule demo_span" by (auto simp: demo_detect)
  moreover have "sp_start demo_span < sp_end demo_span" by (simp add: demo_span_def)
  ultimately show ?thesis using detectPii_covers_matches [OF demo_text_jsstr] by blast
qed

end
