(* ===== verification/MetricLabels.thy ===== *)
theory MetricLabels
  imports ProviderTypes
begin

text \<open>
  The approved metric label values and \<^verbatim>\<open>requireApprovedMetricLabel\<close> of
  \<^verbatim>\<open>shared/observability/metrics.ts\<close>: a label value that is not on the list is refused
  with an exception, so that no free text becomes a label.
\<close>

definition approved_piiCategories :: "string list" where
  "approved_piiCategories = [''CONTACT_INFO'', ''FINANCIAL'', ''GOVERNMENT_ID'', ''CREDENTIAL'',
     ''INTERNAL_SECRET'', ''BUSINESS_CONFIDENTIAL'']"

definition approved_policyActions :: "string list" where
  "approved_policyActions = [''ALLOW'', ''ALLOW_WITH_MASK'', ''BLOCK'']"

definition approved_policyReasons :: "string list" where
  "approved_policyReasons = [''risk_below_mask_threshold'', ''mask_threshold_reached'',
     ''budget_exceeded'', ''high_risk_pii'']"

definition approved_idempotencyOperations :: "string list" where
  "approved_idempotencyOperations = [''reserve'', ''mark_completed'', ''release_before_execution'']"

definition approved_idempotencyOutcomes :: "string list" where
  "approved_idempotencyOutcomes = [''reserved'', ''processing_duplicate'', ''completed_duplicate'',
     ''fingerprint_mismatch'', ''unavailable'', ''completed'', ''released'',
     ''release_refused_after_provider_start'']"

definition approved_chatOutcomes :: "string list" where
  "approved_chatOutcomes = [''COMPLETED'', ''FAILED'', ''INTERRUPTED'', ''BLOCKED'']"

definition requireApprovedMetricLabel :: "string \<Rightarrow> string \<Rightarrow> string list \<Rightarrow> exn + string" where
  "requireApprovedMetricLabel labelName value approvedValues =
     (if value \<notin> set approvedValues
      then Inl (ExnOther (''Unsupported '' @ labelName @ '' metric label.''))
      else Inr value)"

end
