(* ===== verification/PiiRisk.thy ===== *)
theory PiiRisk
  imports PiiDetector MetricLabels
begin

text \<open>
  Classification (\<^verbatim>\<open>pii/pii-classifier.ts\<close>) and risk score (\<^verbatim>\<open>pii/pii-risk-scorer.ts\<close>) of the
  detected spans. A classified span has the fields of a detected one.
\<close>

type_synonym ClassifiedPiiSpan = DetectedPiiSpan

record PiiClassificationResult =
  cls_spans :: "ClassifiedPiiSpan list"
  cls_categories :: "PiiCategory list"

section \<open>Classification\<close>

fun CATEGORY_BY_DETECTOR :: "PiiDetectorId \<Rightarrow> PiiCategory option" where
  "CATEGORY_BY_DETECTOR det_email = Some CONTACT_INFO"
| "CATEGORY_BY_DETECTOR det_phone = Some CONTACT_INFO"
| "CATEGORY_BY_DETECTOR det_payment_card_luhn = Some FINANCIAL"
| "CATEGORY_BY_DETECTOR det_government_id = Some GOVERNMENT_ID"
| "CATEGORY_BY_DETECTOR det_api_key = Some CREDENTIAL"
| "CATEGORY_BY_DETECTOR det_connection_string = Some INTERNAL_SECRET"

definition classifySpan :: "DetectedPiiSpan \<Rightarrow> exn + ClassifiedPiiSpan" where
  "classifySpan sp =
     (case CATEGORY_BY_DETECTOR (sp_detector sp) of
        None \<Rightarrow> Inl (ExnOther ''Unsupported PII detector classification'')
      | Some category \<Rightarrow>
          Inr \<lparr>sp_start = sp_start sp, sp_end = sp_end sp, sp_category = category,
               sp_detector = sp_detector sp, sp_confidence = sp_confidence sp,
               sp_metadata = sp_metadata sp\<rparr>)"

definition classifyDetectedPii :: "PiiDetectionResult \<Rightarrow> exn + PiiClassificationResult" where
  "classifyDetectedPii detection =
     (case map_err classifySpan (det_spans detection) of
        Inl e \<Rightarrow> Inl e
      | Inr spans \<Rightarrow> Inr \<lparr>cls_spans = spans, cls_categories = distinct_first (map sp_category spans)\<rparr>)"

lemma CATEGORY_BY_DETECTOR_total: "\<exists>c. CATEGORY_BY_DETECTOR d = Some c"
  by (cases d) auto

lemma detector_rule_category:
  "rule \<in> set DETECTOR_RULES \<Longrightarrow> CATEGORY_BY_DETECTOR (dr_detector rule) = Some (dr_category rule)"
  by (auto simp: DETECTOR_RULES_def)

text \<open>On the detector's own result the classification changes nothing: the table agrees with the
  rules.\<close>

lemma classify_detected:
  assumes "is_jsstr text"
  shows "classifyDetectedPii (detectPii text)
    = Inr \<lparr>cls_spans = det_spans (detectPii text), cls_categories = det_categories (detectPii text)\<rparr>"
proof -
  have "classifySpan s = Inr (id s)" if "s \<in> set (det_spans (detectPii text))" for s
  proof -
    from detectPii_span(1) [OF assms that] obtain rule where
      "rule \<in> set DETECTOR_RULES" "rule_match text rule s" by blast
    then have "CATEGORY_BY_DETECTOR (sp_detector s) = Some (sp_category s)"
      by (simp add: rule_match_def detector_rule_category)
    then show ?thesis by (simp add: classifySpan_def)
  qed
  from map_err_total [where f = classifySpan and g = id, OF this]
  have "map_err classifySpan (det_spans (detectPii text)) = Inr (det_spans (detectPii text))" by simp
  moreover have "det_categories (detectPii text) = distinct_first (map sp_category (det_spans (detectPii text)))"
    by (simp add: detectPii_def Let_def)
  ultimately show ?thesis by (simp add: classifyDetectedPii_def)
qed

section \<open>Risk\<close>

fun PII_CATEGORY_WEIGHTS :: "PiiCategory \<Rightarrow> int" where
  "PII_CATEGORY_WEIGHTS CONTACT_INFO = 10"
| "PII_CATEGORY_WEIGHTS FINANCIAL = 25"
| "PII_CATEGORY_WEIGHTS GOVERNMENT_ID = 30"
| "PII_CATEGORY_WEIGHTS CREDENTIAL = 40"
| "PII_CATEGORY_WEIGHTS INTERNAL_SECRET = 40"
| "PII_CATEGORY_WEIGHTS BUSINESS_CONFIDENTIAL = 20"

record PiiRiskContribution =
  rc_category :: PiiCategory
  rc_weight :: int
  rc_spanCount :: int
  rc_subtotal :: int

record PiiRiskAssessment =
  ra_score :: int
  ra_uncappedScore :: int
  ra_capped :: bool
  ra_contributions :: "PiiRiskContribution list"

text \<open>The key string joins offsets and names that contain no colon, so it is the tuple.\<close>

definition span_key :: "ClassifiedPiiSpan \<Rightarrow> int \<times> int \<times> PiiCategory \<times> PiiDetectorId" where
  "span_key s = (sp_start s, sp_end s, sp_category s, sp_detector s)"

definition removeExactDuplicates :: "ClassifiedPiiSpan list \<Rightarrow> ClassifiedPiiSpan list" where
  "removeExactDuplicates spans = filter_unseen span_key {} spans"

definition countSpansByCategory :: "ClassifiedPiiSpan list \<Rightarrow> PiiCategory \<Rightarrow> int option" where
  "countSpansByCategory spans =
     fold (\<lambda>s counts. counts(sp_category s \<mapsto>
             (case counts (sp_category s) of None \<Rightarrow> 0 | Some n \<Rightarrow> n) + 1)) spans (\<lambda>_. None)"

definition calculatePiiRisk :: "PiiClassificationResult \<Rightarrow> PiiRiskAssessment" where
  "calculatePiiRisk classification =
     (let uniqueSpans = removeExactDuplicates (cls_spans classification);
          spanCounts = countSpansByCategory uniqueSpans;
          contributions = concat (map (\<lambda>category.
             let spanCount = (case spanCounts category of None \<Rightarrow> 0 | Some n \<Rightarrow> n)
             in if spanCount = 0 then []
                else let weight = PII_CATEGORY_WEIGHTS category
                     in [\<lparr>rc_category = category, rc_weight = weight, rc_spanCount = spanCount,
                          rc_subtotal = weight * spanCount\<rparr>]) PII_CATEGORIES);
          uncappedScore = fold (\<lambda>c total. total + rc_subtotal c) contributions 0
      in \<lparr>ra_score = min 100 uncappedScore, ra_uncappedScore = uncappedScore,
          ra_capped = (uncappedScore > 100), ra_contributions = contributions\<rparr>)"

text \<open>The reference: the weights of the design document, summed over the set of the distinct spans
  (place, category and detector), and capped. It uses none of the code's functions.\<close>

fun document_weight :: "PiiCategory \<Rightarrow> int" where
  "document_weight CONTACT_INFO = 10"
| "document_weight BUSINESS_CONFIDENTIAL = 20"
| "document_weight FINANCIAL = 25"
| "document_weight GOVERNMENT_ID = 30"
| "document_weight CREDENTIAL = 40"
| "document_weight INTERNAL_SECRET = 40"

definition distinct_spans :: "ClassifiedPiiSpan list \<Rightarrow> (int \<times> int \<times> PiiCategory \<times> PiiDetectorId) set" where
  "distinct_spans spans = (\<lambda>s. (sp_start s, sp_end s, sp_category s, sp_detector s)) ` set spans"

definition risk_reference :: "ClassifiedPiiSpan list \<Rightarrow> int" where
  "risk_reference spans = min 100 (\<Sum>(start, stop, category, detector) \<in> distinct_spans spans. document_weight category)"

lemma weight_documented: "PII_CATEGORY_WEIGHTS c = document_weight c"
  by (cases c) simp_all

lemma sum_unique_spans:
  "(\<Sum>s \<leftarrow> removeExactDuplicates spans. PII_CATEGORY_WEIGHTS (sp_category s))
   = (\<Sum>(start, stop, category, detector) \<in> distinct_spans spans. document_weight category)"
proof -
  let ?u = "removeExactDuplicates spans" and ?w = "\<lambda>(start :: int, stop :: int, category, detector :: PiiDetectorId). document_weight category"
  have "(\<Sum>s \<leftarrow> ?u. PII_CATEGORY_WEIGHTS (sp_category s)) = (\<Sum>k \<leftarrow> map span_key ?u. ?w k)"
    by (simp add: comp_def span_key_def weight_documented)
  also have "\<dots> = (\<Sum>k \<in> set (map span_key ?u). ?w k)"
    using distinct_filter_unseen [of span_key "{}" spans] by (intro sum_list_distinct_conv_sum_set) (simp add: removeExactDuplicates_def)
  also have "set (map span_key ?u) = distinct_spans spans"
    using filter_unseen_keys [of span_key "{}" spans] by (auto simp: removeExactDuplicates_def distinct_spans_def span_key_def)
  finally show ?thesis .
qed

definition span_count :: "PiiCategory \<Rightarrow> ClassifiedPiiSpan list \<Rightarrow> nat" where
  "span_count c spans = length (filter (\<lambda>s. sp_category s = c) spans)"

lemma countSpans_fold:
  "(case fold (\<lambda>s counts. counts(sp_category s \<mapsto>
        (case counts (sp_category s) of None \<Rightarrow> 0 | Some n \<Rightarrow> n) + 1)) spans m c of
      None \<Rightarrow> 0 | Some n \<Rightarrow> n)
   = (case m c of None \<Rightarrow> 0 | Some n \<Rightarrow> n) + int (span_count c spans)"
  by (induction spans arbitrary: m) (auto simp: span_count_def)

lemma countSpans_get:
  "(case countSpansByCategory spans c of None \<Rightarrow> 0 | Some n \<Rightarrow> n) = int (span_count c spans)"
  using countSpans_fold [of spans "\<lambda>_. None" c] by (simp add: countSpansByCategory_def)

lemma fold_subtotals: "fold (\<lambda>c total. total + rc_subtotal c) cs a = a + (\<Sum>c \<leftarrow> cs. rc_subtotal c)"
  by (induction cs arbitrary: a) simp_all

lemma sum_weights_by_category:
  "(\<Sum>s \<leftarrow> spans. PII_CATEGORY_WEIGHTS (sp_category s))
   = (\<Sum>c \<leftarrow> PII_CATEGORIES. PII_CATEGORY_WEIGHTS c * int (span_count c spans))"
proof (induction spans)
  case Nil
  show ?case by (simp add: span_count_def PII_CATEGORIES_def)
next
  case (Cons s spans)
  then show ?case
    by (cases "sp_category s") (simp_all add: span_count_def PII_CATEGORIES_def algebra_simps)
qed

lemma uncapped_score:
  "ra_uncappedScore (calculatePiiRisk cl)
   = (\<Sum>s \<leftarrow> removeExactDuplicates (cls_spans cl). PII_CATEGORY_WEIGHTS (sp_category s))"
  unfolding calculatePiiRisk_def Let_def PiiRiskAssessment.select_convs fold_subtotals countSpans_get
    sum_weights_by_category
  by (simp add: PII_CATEGORIES_def)

lemma weights_nonneg: "0 \<le> PII_CATEGORY_WEIGHTS c"
  by (cases c) auto

lemma risk_score_range: "0 \<le> ra_score (calculatePiiRisk cl) \<and> ra_score (calculatePiiRisk cl) \<le> 100"
proof -
  have "0 \<le> ra_uncappedScore (calculatePiiRisk cl)"
    unfolding uncapped_score by (rule sum_list_nonneg) (auto simp: weights_nonneg)
  then show ?thesis by (simp add: calculatePiiRisk_def Let_def)
qed

lemma risk_score_reference: "ra_score (calculatePiiRisk cl) = risk_reference (cls_spans cl)"
  using uncapped_score [of cl] by (simp add: risk_reference_def sum_unique_spans calculatePiiRisk_def Let_def)

text \<open>
  The risk score, computed over a count per category of the list without exact duplicates, equals
  the definition of the design document: the sum of the documented category weights over the set of
  the distinct spans (start, end, category, detector), so that a repeated span counts once, capped at
  100. It always lies between 0 and 100, as the policy evaluation requires.
\<close>

theorem risk_score_matches_reference:
  "ra_score (calculatePiiRisk cl) = risk_reference (cls_spans cl)
   \<and> 0 \<le> ra_score (calculatePiiRisk cl) \<and> ra_score (calculatePiiRisk cl) \<le> 100
   \<and> (ra_capped (calculatePiiRisk cl) \<longleftrightarrow> ra_uncappedScore (calculatePiiRisk cl) > 100)"
proof -
  have "ra_capped (calculatePiiRisk cl) \<longleftrightarrow> ra_uncappedScore (calculatePiiRisk cl) > 100"
    by (simp add: calculatePiiRisk_def Let_def)
  with risk_score_range [of cl] risk_score_reference [of cl] show ?thesis by simp
qed

end
