(* ===== verification/PiiMasking.thy ===== *)
theory PiiMasking
  imports PiiRisk
begin

text \<open>
  Masking of classified spans (\<^verbatim>\<open>pii/pii-masker.ts\<close>) and the prompt processor
  (\<^verbatim>\<open>pii/pii-prompt-processor.ts\<close>). The code splices placeholders into the text from the last
  range to the first; the reference \<open>redact\<close> builds the masked text from left to right.
\<close>

section \<open>Data\<close>

definition GENERIC_PLACEHOLDER :: jsstr where
  "GENERIC_PLACEHOLDER = js_lit ''[PII_REDACTED]''"

fun APPROVED_PLACEHOLDER_BY_DETECTOR :: "PiiDetectorId \<Rightarrow> jsstr option" where
  "APPROVED_PLACEHOLDER_BY_DETECTOR det_email = Some (js_lit ''[EMAIL_REDACTED]'')"
| "APPROVED_PLACEHOLDER_BY_DETECTOR det_phone = Some (js_lit ''[PHONE_REDACTED]'')"
| "APPROVED_PLACEHOLDER_BY_DETECTOR det_api_key = Some (js_lit ''[CREDENTIAL_REDACTED]'')"
| "APPROVED_PLACEHOLDER_BY_DETECTOR _ = None"

definition placeholderFor :: "PiiDetectorId \<Rightarrow> jsstr" where
  "placeholderFor d = (case APPROVED_PLACEHOLDER_BY_DETECTOR d of Some p \<Rightarrow> p | None \<Rightarrow> GENERIC_PLACEHOLDER)"

record MaskRange =
  mr_sourceStart :: int
  mr_sourceEnd :: int
  mr_placeholder :: jsstr
  mr_categories :: "PiiCategory list"

record PiiMaskMetadata =
  mm_sourceStart :: int
  mm_sourceEnd :: int
  mm_maskedStart :: int
  mm_maskedEnd :: int
  mm_placeholder :: jsstr
  mm_categories :: "PiiCategory list"

record MaskRangeDraft =
  dft_sourceStart :: int
  dft_sourceEnd :: int
  dft_spans :: "ClassifiedPiiSpan list"

record PiiMaskResult =
  maskedText :: jsstr
  masks :: "PiiMaskMetadata list"

section \<open>Ranges\<close>

fun category_rank :: "PiiCategory \<Rightarrow> int" where
  "category_rank BUSINESS_CONFIDENTIAL = 0"
| "category_rank CONTACT_INFO = 1"
| "category_rank CREDENTIAL = 2"
| "category_rank FINANCIAL = 3"
| "category_rank GOVERNMENT_ID = 4"
| "category_rank INTERNAL_SECRET = 5"

definition compareSpans :: "ClassifiedPiiSpan \<Rightarrow> ClassifiedPiiSpan \<Rightarrow> int" where
  "compareSpans left right =
     js_or (sp_start left - sp_start right)
      (js_or (sp_end right - sp_end left)
        (js_or (category_rank (sp_category left) - category_rank (sp_category right))
          (detector_rank (sp_detector left) - detector_rank (sp_detector right))))"

definition assertValidSpan :: "ClassifiedPiiSpan \<Rightarrow> int \<Rightarrow> exn + unit" where
  "assertValidSpan s textLength =
     (if sp_start s < 0 \<or> sp_end s \<le> sp_start s \<or> sp_end s > textLength
      then Inl (ExnOther ''Invalid PII mask span'') else Inr ())"

definition finalizeRange :: "MaskRangeDraft \<Rightarrow> exn + MaskRange" where
  "finalizeRange draft =
     (case dft_spans draft of
        [] \<Rightarrow> Inl (ExnOther ''Invalid empty PII mask range'')
      | firstSpan # _ \<Rightarrow>
          Inr \<lparr>mr_sourceStart = dft_sourceStart draft, mr_sourceEnd = dft_sourceEnd draft,
               mr_placeholder = (if length (dft_spans draft) = 1 then placeholderFor (sp_detector firstSpan)
                                 else GENERIC_PLACEHOLDER),
               mr_categories = filter (\<lambda>c. \<exists>s \<in> set (dft_spans draft). sp_category s = c) PII_CATEGORIES\<rparr>)"

text \<open>The loop of \<^verbatim>\<open>normalizeMaskRanges\<close>; \<^verbatim>\<open>drafts.at(-1)\<close> is the last element.\<close>

fun draft_loop :: "int \<Rightarrow> MaskRangeDraft list \<Rightarrow> ClassifiedPiiSpan list \<Rightarrow> exn + MaskRangeDraft list" where
  "draft_loop textLength drafts [] = Inr drafts"
| "draft_loop textLength drafts (s # rest) =
     (case assertValidSpan s textLength of
        Inl e \<Rightarrow> Inl e
      | Inr _ \<Rightarrow>
          if drafts = [] \<or> dft_sourceEnd (last drafts) \<le> sp_start s
          then draft_loop textLength
                 (drafts @ [\<lparr>dft_sourceStart = sp_start s, dft_sourceEnd = sp_end s, dft_spans = [s]\<rparr>]) rest
          else let current = last drafts
               in draft_loop textLength
                    (butlast drafts @ [current\<lparr>dft_sourceEnd := max (dft_sourceEnd current) (sp_end s),
                                               dft_spans := dft_spans current @ [s]\<rparr>]) rest)"

definition normalizeMaskRanges :: "int \<Rightarrow> ClassifiedPiiSpan list \<Rightarrow> exn + MaskRange list" where
  "normalizeMaskRanges textLength spans =
     (let uniqueSpans = sort_by (\<lambda>x y. compareSpans x y \<le> 0) (removeExactDuplicates spans)
      in case draft_loop textLength [] uniqueSpans of
           Inl e \<Rightarrow> Inl e
         | Inr drafts \<Rightarrow> map_err finalizeRange drafts)"

section \<open>Masking\<close>

definition splice_range :: "MaskRange \<Rightarrow> jsstr \<Rightarrow> jsstr" where
  "splice_range r t = take (nat (mr_sourceStart r)) t @ mr_placeholder r @ drop (nat (mr_sourceEnd r)) t"

fun mask_metadata :: "int \<Rightarrow> MaskRange list \<Rightarrow> PiiMaskMetadata list" where
  "mask_metadata offsetDelta [] = []"
| "mask_metadata offsetDelta (r # rs) =
     (let maskedStart = mr_sourceStart r + offsetDelta;
          maskedEnd = maskedStart + int (length (mr_placeholder r))
      in \<lparr>mm_sourceStart = mr_sourceStart r, mm_sourceEnd = mr_sourceEnd r,
          mm_maskedStart = maskedStart, mm_maskedEnd = maskedEnd,
          mm_placeholder = mr_placeholder r, mm_categories = mr_categories r\<rparr>
         # mask_metadata (offsetDelta + (int (length (mr_placeholder r))
              - (mr_sourceEnd r - mr_sourceStart r))) rs)"

definition maskClassifiedPii :: "jsstr \<Rightarrow> PiiClassificationResult \<Rightarrow> exn + PiiMaskResult" where
  "maskClassifiedPii text classification =
     (case normalizeMaskRanges (int (length text)) (cls_spans classification) of
        Inl e \<Rightarrow> Inl e
      | Inr ranges \<Rightarrow> Inr \<lparr>maskedText = fold splice_range (rev ranges) text, masks = mask_metadata 0 ranges\<rparr>)"

section \<open>The prompt processor\<close>

record PiiPromptProcessingResult =
  pp_sanitizedPrompt :: jsstr
  pp_detection :: PiiDetectionResult
  pp_classification :: PiiClassificationResult
  pp_masking :: PiiMaskResult

fun pii_category_label :: "PiiCategory \<Rightarrow> string" where
  "pii_category_label CONTACT_INFO = ''CONTACT_INFO''"
| "pii_category_label FINANCIAL = ''FINANCIAL''"
| "pii_category_label GOVERNMENT_ID = ''GOVERNMENT_ID''"
| "pii_category_label CREDENTIAL = ''CREDENTIAL''"
| "pii_category_label INTERNAL_SECRET = ''INTERNAL_SECRET''"
| "pii_category_label BUSINESS_CONFIDENTIAL = ''BUSINESS_CONFIDENTIAL''"

definition count_detection :: "ClassifiedPiiSpan \<Rightarrow> ('x obs_scheme, exn, unit) act" where
  "count_detection s =
     (case requireApprovedMetricLabel ''PII category'' (pii_category_label (sp_category s))
             approved_piiCategories of
        Inl e \<Rightarrow> act_throw e
      | Inr label \<Rightarrow> act_modify (log_metric (MInc ''piiDetectionsTotal'' [label])))"

definition processPiiPromptImmutably :: "jsstr \<Rightarrow> ('x obs_scheme, exn, PiiPromptProcessingResult) act" where
  "processPiiPromptImmutably sourcePrompt =
     (let detection = detectPii sourcePrompt
      in case classifyDetectedPii detection of
           Inl e \<Rightarrow> act_throw e
         | Inr classification \<Rightarrow>
             act_then (act_for (cls_spans classification) count_detection)
               (case maskClassifiedPii sourcePrompt classification of
                  Inl e \<Rightarrow> act_throw e
                | Inr masking \<Rightarrow>
                    act_ret \<lparr>pp_sanitizedPrompt = maskedText masking, pp_detection = detection,
                      pp_classification = classification, pp_masking = masking\<rparr>))"

section \<open>Splicing from the right\<close>

text \<open>The reference: kept text, placeholder, kept text, from left to right, from offset \<open>p\<close>.\<close>

fun redact :: "jsstr \<Rightarrow> nat \<Rightarrow> (nat \<times> nat \<times> jsstr) list \<Rightarrow> jsstr" where
  "redact text p [] = drop p text"
| "redact text p ((a, b, ph) # rs) = js_slice text p a @ ph @ redact text b rs"

definition range_triple :: "MaskRange \<Rightarrow> nat \<times> nat \<times> jsstr" where
  "range_triple r = (nat (mr_sourceStart r), nat (mr_sourceEnd r), mr_placeholder r)"

text \<open>Ranges that lie in a text of length \<open>n\<close>, from left to right, starting at \<open>p\<close>.\<close>

fun ranges_from :: "nat \<Rightarrow> nat \<Rightarrow> MaskRange list \<Rightarrow> bool" where
  "ranges_from n p [] = (p \<le> n)"
| "ranges_from n p (r # rs) =
     (int p \<le> mr_sourceStart r \<and> mr_sourceStart r < mr_sourceEnd r \<and> mr_sourceEnd r \<le> int n
      \<and> ranges_from n (nat (mr_sourceEnd r)) rs)"

lemma splice_redact:
  "ranges_from (length text) p rs \<Longrightarrow>
   foldr splice_range rs text = take p text @ redact text p (map range_triple rs)"
proof (induction rs arbitrary: p)
  case Nil
  show ?case by simp
next
  case (Cons r rs)
  define a b where ab: "a = nat (mr_sourceStart r)" "b = nat (mr_sourceEnd r)"
  from Cons.prems have b: "p \<le> a" "a < b" "b \<le> length text" "ranges_from (length text) b rs"
    by (auto simp: ab)
  have t: "take a text = take p text @ js_slice text p a"
    using b(1) by (simp add: js_slice_def flip: take_add)
  have "foldr splice_range (r # rs) text = splice_range r (take b text @ redact text b (map range_triple rs))"
    using Cons.IH [OF b(4)] by simp
  also have "\<dots> = take a text @ mr_placeholder r @ redact text b (map range_triple rs)"
    using b(2,3) by (simp add: splice_range_def flip: ab)
  also have "\<dots> = take p text @ redact text p (map range_triple (r # rs))"
    by (simp add: t range_triple_def flip: ab)
  finally show ?case .
qed

lemma masked_text_redact:
  "ranges_from (length text) 0 rs \<Longrightarrow> fold splice_range (rev rs) text = redact text 0 (map range_triple rs)"
  using splice_redact [of "text" 0 rs] by (simp add: foldr_conv_fold)

definition mask_located :: "jsstr \<Rightarrow> PiiMaskMetadata \<Rightarrow> bool" where
  "mask_located t m \<longleftrightarrow> 0 \<le> mm_maskedStart m \<and> mm_maskedEnd m \<le> int (length t)
     \<and> mm_maskedEnd m = mm_maskedStart m + int (length (mm_placeholder m))
     \<and> js_slice t (nat (mm_maskedStart m)) (nat (mm_maskedEnd m)) = mm_placeholder m"

lemma mask_metadata_located:
  "ranges_from (length text) p rs \<Longrightarrow> int (length pre) = int p + delta \<Longrightarrow>
   m \<in> set (mask_metadata delta rs) \<Longrightarrow>
   mask_located (pre @ redact text p (map range_triple rs)) m"
proof (induction rs arbitrary: p pre delta)
  case Nil
  then show ?case by simp
next
  case (Cons r rs)
  define a b where ab: "a = nat (mr_sourceStart r)" "b = nat (mr_sourceEnd r)"
  let ?ph = "mr_placeholder r"
  let ?d = "delta + (int (length ?ph) - (mr_sourceEnd r - mr_sourceStart r))"
  from Cons.prems have b: "p \<le> a" "a < b" "b \<le> length text" "ranges_from (length text) b rs"
    "mr_sourceStart r = int a" "mr_sourceEnd r = int b" by (auto simp: ab)
  have "a - p \<le> length text - p" using b(2,3) by simp
  then have len: "length (js_slice text p a) = a - p" by (simp add: js_slice_def)
  have layout: "pre @ redact text p (map range_triple (r # rs))
      = (pre @ js_slice text p a @ ?ph) @ redact text b (map range_triple rs)"
    by (simp add: range_triple_def flip: ab)
  show ?case
  proof (cases "m \<in> set (mask_metadata ?d rs)")
    case True
    have "int (length (pre @ js_slice text p a @ ?ph)) = int b + ?d"
      using Cons.prems(2) len b by simp
    from Cons.IH [OF b(4) this True] show ?thesis unfolding layout .
  next
    case False
    with Cons.prems(3) have m: "mm_maskedStart m = mr_sourceStart r + delta"
      "mm_maskedEnd m = mr_sourceStart r + delta + int (length ?ph)" "mm_placeholder m = ?ph"
      by (auto simp: Let_def)
    have st: "mr_sourceStart r + delta = int (length (pre @ js_slice text p a))"
      using Cons.prems(2) len b by simp
    show ?thesis unfolding layout mask_located_def m st
      by (simp add: js_slice_def nat_add_distrib)
  qed
qed

section \<open>Ranges cover the spans\<close>

definition covers :: "int \<Rightarrow> 'x DetectedPiiSpan_scheme \<Rightarrow> bool" where
  "covers x s \<longleftrightarrow> sp_start s \<le> x \<and> x < sp_end s"

definition span_valid :: "int \<Rightarrow> ClassifiedPiiSpan \<Rightarrow> bool" where
  "span_valid n s \<longleftrightarrow> 0 \<le> sp_start s \<and> sp_start s < sp_end s \<and> sp_end s \<le> n"

lemma span_in_valid: "span_in text s = span_valid (int (length text)) s"
  by (simp add: span_in_def span_valid_def)

lemma assertValidSpan_iff: "assertValidSpan s n = (if span_valid n s then Inr () else Inl (ExnOther ''Invalid PII mask span''))"
  by (auto simp: assertValidSpan_def span_valid_def)

definition draft_ok :: "int \<Rightarrow> MaskRangeDraft \<Rightarrow> bool" where
  "draft_ok n d \<longleftrightarrow> dft_spans d \<noteq> [] \<and> 0 \<le> dft_sourceStart d \<and> dft_sourceStart d < dft_sourceEnd d
     \<and> dft_sourceEnd d \<le> n
     \<and> (\<forall>x. (dft_sourceStart d \<le> x \<and> x < dft_sourceEnd d) \<longleftrightarrow> (\<exists>s \<in> set (dft_spans d). covers x s))"

definition drafts_ok :: "int \<Rightarrow> MaskRangeDraft list \<Rightarrow> bool" where
  "drafts_ok n ds \<longleftrightarrow> (\<forall>d \<in> set ds. draft_ok n d)
     \<and> sorted_wrt (\<lambda>d e. dft_sourceEnd d \<le> dft_sourceStart e) ds"

definition drafted :: "MaskRangeDraft list \<Rightarrow> ClassifiedPiiSpan set" where
  "drafted ds = (\<Union>d \<in> set ds. set (dft_spans d))"

lemma drafts_ok_push:
  assumes "drafts_ok n ds" and "span_valid n s" and "ds = [] \<or> dft_sourceEnd (last ds) \<le> sp_start s"
  shows "drafts_ok n (ds @ [\<lparr>dft_sourceStart = sp_start s, dft_sourceEnd = sp_end s, dft_spans = [s]\<rparr>])"
proof (cases ds rule: rev_cases)
  case Nil
  with assms(2) show ?thesis by (simp add: drafts_ok_def draft_ok_def span_valid_def covers_def)
next
  case (snoc ds0 c)
  with assms(1,3) have "dft_sourceEnd d \<le> sp_start s" if "d \<in> set ds" for d
    using that by (fastforce simp: drafts_ok_def draft_ok_def sorted_wrt_append)
  with assms(1,2) show ?thesis
    by (auto simp: drafts_ok_def draft_ok_def span_valid_def covers_def sorted_wrt_append)
qed

lemma drafts_ok_merge:
  assumes "drafts_ok n (ds @ [c])" and "span_valid n s" and "dft_sourceStart c \<le> sp_start s"
    and "sp_start s < dft_sourceEnd c"
  shows "drafts_ok n (ds @ [c\<lparr>dft_sourceEnd := max (dft_sourceEnd c) (sp_end s), dft_spans := dft_spans c @ [s]\<rparr>])"
proof -
  from assms(1) have c: "draft_ok n c" by (simp add: drafts_ok_def)
  have "(dft_sourceStart c \<le> x \<and> x < max (dft_sourceEnd c) (sp_end s))
      \<longleftrightarrow> (dft_sourceStart c \<le> x \<and> x < dft_sourceEnd c) \<or> covers x s" for x
    using assms(3,4) by (auto simp: covers_def)
  with c assms(2) have "draft_ok n (c\<lparr>dft_sourceEnd := max (dft_sourceEnd c) (sp_end s), dft_spans := dft_spans c @ [s]\<rparr>)"
    by (auto simp: draft_ok_def span_valid_def)
  with assms(1) show ?thesis by (auto simp: drafts_ok_def sorted_wrt_append)
qed

lemma draft_loop_ok:
  assumes "\<forall>s \<in> set rest. span_valid n s" and "sorted_wrt (\<lambda>a b. sp_start a \<le> sp_start b) rest"
    and "drafts_ok n ds" and "ds \<noteq> [] \<Longrightarrow> \<forall>s \<in> set rest. dft_sourceStart (last ds) \<le> sp_start s"
  shows "\<exists>ds'. draft_loop n ds rest = Inr ds' \<and> drafts_ok n ds' \<and> drafted ds' = drafted ds \<union> set rest"
  using assms
proof (induction rest arbitrary: ds)
  case Nil
  then show ?case by simp
next
  case (Cons s rest)
  have v: "span_valid n s" "assertValidSpan s n = Inr ()" using Cons.prems(1) by (simp_all add: assertValidSpan_iff)
  show ?case
  proof (cases "ds = [] \<or> dft_sourceEnd (last ds) \<le> sp_start s")
    case True
    let ?ds = "ds @ [\<lparr>dft_sourceStart = sp_start s, dft_sourceEnd = sp_end s, dft_spans = [s]\<rparr>]"
    have "\<exists>ds'. draft_loop n ?ds rest = Inr ds' \<and> drafts_ok n ds' \<and> drafted ds' = drafted ?ds \<union> set rest"
      using Cons.prems(1,2) drafts_ok_push [OF Cons.prems(3) v(1) True] by (intro Cons.IH) auto
    with v True show ?thesis by (auto simp: drafted_def)
  next
    case False
    then obtain ds0 c where ds: "ds = ds0 @ [c]" by (metis rev_exhaust)
    let ?c = "c\<lparr>dft_sourceEnd := max (dft_sourceEnd c) (sp_end s), dft_spans := dft_spans c @ [s]\<rparr>"
    have "drafts_ok n (ds0 @ [?c])"
      using Cons.prems(3,4) False ds v(1) by (intro drafts_ok_merge) auto
    then have "\<exists>ds'. draft_loop n (ds0 @ [?c]) rest = Inr ds' \<and> drafts_ok n ds'
        \<and> drafted ds' = drafted (ds0 @ [?c]) \<union> set rest"
      using Cons.prems(1,2,4) ds by (intro Cons.IH) auto
    with v False ds show ?thesis by (auto simp: drafted_def Let_def)
  qed
qed

text \<open>A list that starts with an invalid span, and any list that contains one, is refused.\<close>

lemma draft_loop_invalid:
  "\<exists>s \<in> set rest. \<not> span_valid n s \<Longrightarrow> draft_loop n ds rest = Inl (ExnOther ''Invalid PII mask span'')"
  by (induction n ds rest rule: draft_loop.induct) (auto simp: assertValidSpan_iff Let_def)

lemma compareSpans_total: "compareSpans x y \<le> 0 \<or> compareSpans y x \<le> 0"
  by (auto simp: compareSpans_def js_or_def)

lemma compareSpans_trans:
  "compareSpans x y \<le> 0 \<Longrightarrow> compareSpans y z \<le> 0 \<Longrightarrow> compareSpans x z \<le> 0"
  by (auto simp: compareSpans_def js_or_def split: if_splits)

lemma sorted_starts: "sorted_wrt (\<lambda>a b. sp_start a \<le> sp_start b) (sort_by (\<lambda>x y. compareSpans x y \<le> 0) xs)"
  by (rule sorted_wrt_mono_rel [OF _ sorted_wrt_sort_by [where le = "\<lambda>x y. compareSpans x y \<le> 0",
        OF compareSpans_total compareSpans_trans]])
     (auto simp: compareSpans_def js_or_def split: if_splits)

definition range_of :: "MaskRangeDraft \<Rightarrow> MaskRange" where
  "range_of d = projr (finalizeRange d)"

lemma finalizeRange_ok: "draft_ok n d \<Longrightarrow> finalizeRange d = Inr (range_of d)"
  by (auto simp: draft_ok_def finalizeRange_def range_of_def split: list.split)

lemma range_of_bounds:
  "draft_ok n d \<Longrightarrow> mr_sourceStart (range_of d) = dft_sourceStart d \<and> mr_sourceEnd (range_of d) = dft_sourceEnd d"
  by (auto simp: draft_ok_def finalizeRange_def range_of_def split: list.split)

lemma drafts_ranges_from:
  "drafts_ok (int n) ds \<Longrightarrow> p \<le> n \<Longrightarrow> (\<forall>d \<in> set ds. int p \<le> dft_sourceStart d) \<Longrightarrow>
   ranges_from n p (map range_of ds)"
proof (induction ds arbitrary: p)
  case (Cons d ds)
  then have d: "draft_ok (int n) d" and rest: "drafts_ok (int n) ds"
    "\<forall>e \<in> set ds. dft_sourceEnd d \<le> dft_sourceStart e" by (auto simp: drafts_ok_def)
  from d have b: "0 \<le> dft_sourceEnd d" "dft_sourceEnd d \<le> int n" by (auto simp: draft_ok_def)
  with Cons.IH [OF rest(1), of "nat (dft_sourceEnd d)"] rest(2) have
    "ranges_from n (nat (dft_sourceEnd d)) (map range_of ds)" by auto
  with d b Cons.prems(3) show ?case by (simp add: range_of_bounds [OF d]) (simp add: draft_ok_def)
qed simp

definition in_range :: "int \<Rightarrow> MaskRange \<Rightarrow> bool" where
  "in_range x r \<longleftrightarrow> mr_sourceStart r \<le> x \<and> x < mr_sourceEnd r"

lemma removeExactDuplicates_covers:
  "(\<exists>s \<in> set (removeExactDuplicates ss). covers x s) \<longleftrightarrow> (\<exists>s \<in> set ss. covers x s)"
proof -
  have k: "(\<exists>s \<in> A. covers x s) \<longleftrightarrow> (\<exists>k \<in> span_key ` A. fst k \<le> x \<and> x < fst (snd k))" for A
    by (simp add: covers_def span_key_def)
  have "span_key ` set (removeExactDuplicates ss) = span_key ` set ss"
    by (simp add: removeExactDuplicates_def filter_unseen_keys)
  then show ?thesis unfolding k by simp
qed

lemma normalizeMaskRanges_ok:
  assumes "\<forall>s \<in> set spans. span_valid (int n) s"
  obtains rs where "normalizeMaskRanges (int n) spans = Inr rs" and "ranges_from n 0 rs"
    and "\<And>x. (\<exists>r \<in> set rs. in_range x r) \<longleftrightarrow> (\<exists>s \<in> set spans. covers x s)"
proof -
  let ?u = "sort_by (\<lambda>x y. compareSpans x y \<le> 0) (removeExactDuplicates spans)"
  have "set (removeExactDuplicates spans) \<subseteq> set spans"
    by (simp add: removeExactDuplicates_def set_filter_unseen_subset)
  with assms have "\<forall>s \<in> set ?u. span_valid (int n) s" by auto
  from draft_loop_ok [OF this sorted_starts, of "[]"] obtain ds where
    ds: "draft_loop (int n) [] ?u = Inr ds" "drafts_ok (int n) ds" "drafted ds = set (removeExactDuplicates spans)"
    by (auto simp: drafts_ok_def drafted_def)
  from ds(2) have ok: "\<And>d. d \<in> set ds \<Longrightarrow> draft_ok (int n) d" by (simp add: drafts_ok_def)
  then have "map_err finalizeRange ds = Inr (map range_of ds)"
    by (intro map_err_total finalizeRange_ok)
  with ds(1) have "normalizeMaskRanges (int n) spans = Inr (map range_of ds)"
    by (simp add: normalizeMaskRanges_def)
  moreover have "ranges_from n 0 (map range_of ds)"
    using ds(2) ok by (intro drafts_ranges_from) (auto simp: draft_ok_def)
  moreover have "(\<exists>r \<in> set (map range_of ds). in_range x r) \<longleftrightarrow> (\<exists>s \<in> set spans. covers x s)" for x
  proof -
    have "in_range x (range_of d) \<longleftrightarrow> (\<exists>s \<in> set (dft_spans d). covers x s)" if "d \<in> set ds" for d
      using ok [OF that] by (simp add: in_range_def range_of_bounds [OF ok [OF that]]) (simp add: draft_ok_def)
    then have "(\<exists>r \<in> set (map range_of ds). in_range x r) \<longleftrightarrow> (\<exists>d \<in> set ds. \<exists>s \<in> set (dft_spans d). covers x s)"
      by auto
    also have "\<dots> \<longleftrightarrow> (\<exists>s \<in> set (removeExactDuplicates spans). covers x s)"
      unfolding ds(3) [symmetric] drafted_def by auto
    finally show ?thesis by (simp add: removeExactDuplicates_covers)
  qed
  ultimately show thesis by (rule that)
qed

section \<open>Masking is exact\<close>

definition mask_triple :: "PiiMaskMetadata \<Rightarrow> nat \<times> nat \<times> jsstr" where
  "mask_triple m = (nat (mm_sourceStart m), nat (mm_sourceEnd m), mm_placeholder m)"

definition in_mask :: "int \<Rightarrow> PiiMaskMetadata \<Rightarrow> bool" where
  "in_mask x m \<longleftrightarrow> mm_sourceStart m \<le> x \<and> x < mm_sourceEnd m"

lemma mask_triples: "map mask_triple (mask_metadata d rs) = map range_triple rs"
  by (induction d rs rule: mask_metadata.induct) (simp_all add: Let_def mask_triple_def range_triple_def)

lemma in_masks: "(\<exists>m \<in> set (mask_metadata d rs). in_mask x m) \<longleftrightarrow> (\<exists>r \<in> set rs. in_range x r)"
  by (induction d rs rule: mask_metadata.induct) (simp_all add: Let_def in_mask_def in_range_def)

text \<open>
  C24. For spans that lie in the text, masking returns; the masked text keeps every character outside
  the masks, in order, and has the placeholder of each mask in its place; a character is masked
  exactly when some span covers it; and each mask record gives the exact offsets of its placeholder
  in the masked text.
\<close>

theorem mask_exact:
  assumes "\<forall>s \<in> set (cls_spans cl). span_in text s"
  shows "\<exists>res. maskClassifiedPii text cl = Inr res
    \<and> maskedText res = redact text 0 (map mask_triple (masks res))
    \<and> (\<forall>x. (\<exists>m \<in> set (masks res). in_mask x m) \<longleftrightarrow> (\<exists>s \<in> set (cls_spans cl). covers x s))
    \<and> (\<forall>m \<in> set (masks res). mask_located (maskedText res) m)"
proof -
  from assms have "\<forall>s \<in> set (cls_spans cl). span_valid (int (length text)) s" by (simp add: span_in_valid)
  then obtain rs where rs: "normalizeMaskRanges (int (length text)) (cls_spans cl) = Inr rs"
    "ranges_from (length text) 0 rs"
    "\<And>x. (\<exists>r \<in> set rs. in_range x r) \<longleftrightarrow> (\<exists>s \<in> set (cls_spans cl). covers x s)"
    by (rule normalizeMaskRanges_ok) blast
  let ?res = "\<lparr>maskedText = fold splice_range (rev rs) text, masks = mask_metadata 0 rs\<rparr>"
  have mt: "maskedText ?res = redact text 0 (map range_triple rs)"
    using masked_text_redact [OF rs(2)] by simp
  have "\<forall>m \<in> set (masks ?res). mask_located (maskedText ?res) m"
    using mask_metadata_located [OF rs(2), of "[]" 0] unfolding mt by simp
  moreover have "\<forall>x. (\<exists>m \<in> set (masks ?res). in_mask x m) \<longleftrightarrow> (\<exists>s \<in> set (cls_spans cl). covers x s)"
    by (simp add: in_masks rs(3))
  moreover have "maskedText ?res = redact text 0 (map mask_triple (masks ?res))"
    unfolding mt by (simp add: mask_triples)
  moreover have "maskClassifiedPii text cl = Inr ?res" by (simp add: maskClassifiedPii_def rs(1))
  ultimately show ?thesis by blast
qed

text \<open>
  A classification with a span that is empty, reversed or outside the text is refused with an
  exception, wherever the span stands in the list: no text is released under wrong offsets.
\<close>

theorem mask_rejects_invalid_span:
  assumes "s \<in> set (cls_spans cl)" and "\<not> span_in text s"
  shows "maskClassifiedPii text cl = Inl (ExnOther ''Invalid PII mask span'')"
proof -
  have "span_key s \<in> span_key ` set (removeExactDuplicates (cls_spans cl))"
    using assms(1) by (simp add: removeExactDuplicates_def filter_unseen_keys)
  then obtain t where t: "t \<in> set (removeExactDuplicates (cls_spans cl))" "span_key t = span_key s" by auto
  with assms(2) have "\<not> span_valid (int (length text)) t"
    by (simp add: span_in_def span_valid_def span_key_def)
  with t(1) have "\<exists>u \<in> set (sort_by (\<lambda>x y. compareSpans x y \<le> 0) (removeExactDuplicates (cls_spans cl))).
      \<not> span_valid (int (length text)) u" by auto
  from draft_loop_invalid [OF this] show ?thesis
    by (simp add: maskClassifiedPii_def normalizeMaskRanges_def)
qed

theorem mask_rejects_invalid_span_witness:
  "maskClassifiedPii [] \<lparr>cls_spans = [demo_span], cls_categories = [CONTACT_INFO]\<rparr>
     = Inl (ExnOther ''Invalid PII mask span'')"
  by (rule mask_rejects_invalid_span [of demo_span]) (simp_all add: span_in_def demo_span_def)

theorem mask_exact_witness:
  "\<exists>res. maskClassifiedPii demo_text \<lparr>cls_spans = [demo_span], cls_categories = [CONTACT_INFO]\<rparr> = Inr res
     \<and> maskedText res = redact demo_text 0 (map mask_triple (masks res)) \<and> (\<exists>m \<in> set (masks res). in_mask 3 m)"
proof -
  have "\<forall>s \<in> set (cls_spans \<lparr>cls_spans = [demo_span], cls_categories = [CONTACT_INFO]\<rparr>). span_in demo_text s"
    by (simp add: demo_span_def span_in_def demo_slice)
  moreover have "covers 3 demo_span" by (simp add: covers_def demo_span_def)
  ultimately show ?thesis
    using mask_exact [of "\<lparr>cls_spans = [demo_span], cls_categories = [CONTACT_INFO]\<rparr>" demo_text] by auto
qed

section \<open>The detector as a source of spans\<close>

text \<open>
  What the masker may rely on when its spans come from a detector: they lie in the text, from left to
  right, without overlap. Then no two spans are merged and every span gets the placeholder of its
  own detector.
\<close>

definition span_range :: "ClassifiedPiiSpan \<Rightarrow> MaskRange" where
  "span_range s = \<lparr>mr_sourceStart = sp_start s, mr_sourceEnd = sp_end s,
     mr_placeholder = placeholderFor (sp_detector s), mr_categories = [sp_category s]\<rparr>"

definition span_triple :: "ClassifiedPiiSpan \<Rightarrow> nat \<times> nat \<times> jsstr" where
  "span_triple s = (nat (sp_start s), nat (sp_end s), placeholderFor (sp_detector s))"

definition span_draft :: "ClassifiedPiiSpan \<Rightarrow> MaskRangeDraft" where
  "span_draft s = \<lparr>dft_sourceStart = sp_start s, dft_sourceEnd = sp_end s, dft_spans = [s]\<rparr>"

lemma filter_category: "filter (\<lambda>c. sp_category s = c) PII_CATEGORIES = [sp_category s]"
  by (cases "sp_category s") (simp_all add: PII_CATEGORIES_def)

lemma finalize_span_draft: "finalizeRange (span_draft s) = Inr (span_range s)"
  by (simp add: finalizeRange_def span_draft_def span_range_def filter_category)

lemma draft_loop_separate:
  "\<forall>s \<in> set rest. span_valid n s \<Longrightarrow> sorted_wrt (\<lambda>a b. sp_end a \<le> sp_start b) (done @ rest) \<Longrightarrow>
   draft_loop n (map span_draft done) rest = Inr (map span_draft (done @ rest))"
proof (induction rest arbitrary: "done")
  case (Cons s rest)
  have "map span_draft done = [] \<or> dft_sourceEnd (last (map span_draft done)) \<le> sp_start s"
    using Cons.prems(2) by (cases "done" rule: rev_cases) (auto simp: span_draft_def sorted_wrt_append)
  moreover have "draft_loop n (map span_draft (done @ [s])) rest = Inr (map span_draft ((done @ [s]) @ rest))"
    using Cons.prems by (intro Cons.IH) auto
  ultimately show ?case using Cons.prems(1)
    by (simp add: assertValidSpan_iff) (simp add: span_draft_def)
qed simp

locale span_source =
  fixes spans_of :: "jsstr \<Rightarrow> DetectedPiiSpan list"
  assumes spans_ordered: "is_jsstr t \<Longrightarrow> sorted_wrt (\<lambda>a b. sp_end a \<le> sp_start b) (spans_of t)"
    and spans_inside: "is_jsstr t \<Longrightarrow> s \<in> set (spans_of t) \<Longrightarrow> span_in t s"
begin

lemma spans_strict: "is_jsstr t \<Longrightarrow> sorted_wrt (\<lambda>a b. sp_start a < sp_start b) (spans_of t)"
  by (rule sorted_wrt_mono_rel [OF _ spans_ordered]) (use spans_inside in \<open>fastforce simp: span_in_def\<close>)+

lemma spans_unique: "is_jsstr t \<Longrightarrow> removeExactDuplicates (spans_of t) = spans_of t"
proof -
  assume "is_jsstr t"
  then have "distinct (map sp_start (spans_of t))"
    using strict_sorted_iff [of "map sp_start (spans_of t)"] spans_strict [of t]
    by (simp add: sorted_wrt_map)
  then have "distinct (map span_key (spans_of t))"
    unfolding distinct_map by (auto simp: inj_on_def span_key_def)
  then show ?thesis by (simp add: removeExactDuplicates_def filter_unseen_distinct)
qed

lemma spans_sorted: "is_jsstr t \<Longrightarrow> sort_by (\<lambda>x y. compareSpans x y \<le> 0) (spans_of t) = spans_of t"
  by (rule sort_by_sorted, rule sorted_wrt_mono_rel [OF _ spans_strict])
     (auto simp: compareSpans_def js_or_def)

lemma one_range_per_span:
  assumes "is_jsstr t"
  shows "normalizeMaskRanges (int (length t)) (spans_of t) = Inr (map span_range (spans_of t))"
proof -
  have "\<forall>s \<in> set (spans_of t). span_valid (int (length t)) s"
    using spans_inside [OF assms] by (simp add: span_in_valid)
  then have "draft_loop (int (length t)) [] (spans_of t) = Inr (map span_draft (spans_of t))"
    using draft_loop_separate [of "spans_of t" "int (length t)" "[]"] spans_ordered [OF assms] by simp
  moreover have "map_err finalizeRange (map span_draft ss) = Inr (map span_range ss)" for ss
    by (induction ss) (simp_all add: finalize_span_draft)
  ultimately show ?thesis
    by (simp add: normalizeMaskRanges_def spans_unique [OF assms] spans_sorted [OF assms])
qed

lemma spans_ranges_from:
  assumes "is_jsstr t"
  shows "ranges_from (length t) 0 (map span_range (spans_of t))"
proof -
  have "ranges_from (length t) p (map span_range ss)"
    if "sorted_wrt (\<lambda>a b. sp_end a \<le> sp_start b) ss" "\<forall>s \<in> set ss. span_in t s \<and> int p \<le> sp_start s"
      "p \<le> length t" for ss p
    using that by (induction ss arbitrary: p) (auto simp: span_range_def span_in_def)
  with spans_ordered [OF assms] spans_inside [OF assms] show ?thesis by (fastforce simp: span_in_def)
qed

lemma mask_spans:
  assumes "is_jsstr t"
  shows "maskClassifiedPii t \<lparr>cls_spans = spans_of t, cls_categories = cs\<rparr>
    = Inr \<lparr>maskedText = redact t 0 (map span_triple (spans_of t)),
           masks = mask_metadata 0 (map span_range (spans_of t))\<rparr>"
proof -
  have "range_triple \<circ> span_range = span_triple"
    by (rule ext) (simp add: range_triple_def span_range_def span_triple_def)
  with masked_text_redact [OF spans_ranges_from [OF assms]] one_range_per_span [OF assms] show ?thesis
    by (simp add: maskClassifiedPii_def)
qed

end

interpretation pii: span_source "\<lambda>t. det_spans (detectPii t)"
  by unfold_locales (simp_all add: detectPii_ordered detectPii_span)

lemma count_detection_logs:
  "act_for ss count_detection w
   = (Inr (), w\<lparr>metric_ops := metric_ops w
        @ map (\<lambda>s. MInc ''piiDetectionsTotal'' [pii_category_label (sp_category s)]) ss\<rparr>)"
proof (induction ss arbitrary: w)
  case (Cons s ss)
  have "requireApprovedMetricLabel ''PII category'' (pii_category_label (sp_category s)) approved_piiCategories
      = Inr (pii_category_label (sp_category s))"
    by (cases "sp_category s") (simp_all add: requireApprovedMetricLabel_def approved_piiCategories_def)
  then have "count_detection s w
      = (Inr (), log_metric (MInc ''piiDetectionsTotal'' [pii_category_label (sp_category s)]) w)"
    by (simp add: count_detection_def)
  with Cons show ?case by (simp add: act_then_apply log_metric_def)
qed simp

lemma processPii_result:
  assumes "is_jsstr text"
  obtains res where "processPiiPromptImmutably text w =
      (Inr res, w\<lparr>metric_ops := metric_ops w @ map (\<lambda>s. MInc ''piiDetectionsTotal''
          [pii_category_label (sp_category s)]) (det_spans (detectPii text))\<rparr>)"
    and "pp_sanitizedPrompt res = redact text 0 (map span_triple (det_spans (detectPii text)))"
    and "pp_classification res = \<lparr>cls_spans = det_spans (detectPii text),
           cls_categories = det_categories (detectPii text)\<rparr>"
proof
  let ?sp = "det_spans (detectPii text)"
  let ?res = "\<lparr>pp_sanitizedPrompt = redact text 0 (map span_triple ?sp), pp_detection = detectPii text,
    pp_classification = \<lparr>cls_spans = ?sp, cls_categories = det_categories (detectPii text)\<rparr>,
    pp_masking = \<lparr>maskedText = redact text 0 (map span_triple ?sp),
           masks = mask_metadata 0 (map span_range ?sp)\<rparr>\<rparr>"
  show "processPiiPromptImmutably text w = (Inr ?res, w\<lparr>metric_ops := metric_ops w @
      map (\<lambda>s. MInc ''piiDetectionsTotal'' [pii_category_label (sp_category s)]) ?sp\<rparr>)"
    by (simp add: processPiiPromptImmutably_def Let_def classify_detected [OF assms] pii.mask_spans [OF assms]
        act_then_apply count_detection_logs)
qed simp_all

text \<open>
  Processing a prompt never throws. The sanitized prompt is the prompt in which exactly the
  detected spans are replaced, each by the placeholder of its detector, and every other character is
  kept in order; one detection is counted per span under its category, and nothing else of the
  world changes.
\<close>

theorem prompt_processing_replaces_detected_spans:
  assumes "is_jsstr text"
  shows "\<exists>res. processPiiPromptImmutably text w =
      (Inr res, w\<lparr>metric_ops := metric_ops w @ map (\<lambda>s. MInc ''piiDetectionsTotal''
          [pii_category_label (sp_category s)]) (det_spans (detectPii text))\<rparr>)
    \<and> pp_sanitizedPrompt res = redact text 0
        (map (\<lambda>s. (nat (sp_start s), nat (sp_end s), placeholderFor (sp_detector s))) (det_spans (detectPii text)))"
proof -
  have "span_triple = (\<lambda>s. (nat (sp_start s), nat (sp_end s), placeholderFor (sp_detector s)))"
    by (rule ext) (simp add: span_triple_def)
  then show ?thesis by (rule_tac processPii_result [OF assms, of w]) auto
qed

text \<open>
  The characters that masking keeps, as the list of text pieces between the masked ranges.
\<close>

fun kept :: "jsstr \<Rightarrow> nat \<Rightarrow> (nat \<times> nat \<times> jsstr) list \<Rightarrow> jsstr list" where
  "kept text p [] = [drop p text]"
| "kept text p ((a, b, ph) # rs) = js_slice text p a # kept text b rs"

fun interleave :: "jsstr list \<Rightarrow> jsstr list \<Rightarrow> jsstr" where
  "interleave (k # ks) (ph # phs) = k @ ph @ interleave ks phs"
| "interleave ks [] = concat ks"
| "interleave [] phs = concat phs"

lemma redact_interleave: "redact text p rs = interleave (kept text p rs) (map (snd \<circ> snd) rs)"
  by (induction "text" p rs rule: redact.induct) simp_all

text \<open>
  C23. The sanitized prompt does not depend on the masked characters: two prompts with the same text
  between the detected spans and the same sequence of detectors give the same sanitized prompt,
  whatever the detected values are and however long they are.
\<close>

theorem sanitized_prompt_hides_detected_values:
  assumes "is_jsstr t1" and "is_jsstr t2"
    and "kept t1 0 (map span_triple (det_spans (detectPii t1))) = kept t2 0 (map span_triple (det_spans (detectPii t2)))"
    and "map sp_detector (det_spans (detectPii t1)) = map sp_detector (det_spans (detectPii t2))"
    and "processPiiPromptImmutably t1 w1 = (Inr r1, w1')" and "processPiiPromptImmutably t2 w2 = (Inr r2, w2')"
  shows "pp_sanitizedPrompt r1 = pp_sanitizedPrompt r2"
proof -
  have ph: "map (snd \<circ> snd) (map span_triple ss) = map placeholderFor (map sp_detector ss)" for ss
    by (simp add: span_triple_def)
  have s: "pp_sanitizedPrompt r = redact t 0 (map span_triple (det_spans (detectPii t)))"
    if "is_jsstr t" "processPiiPromptImmutably t w = (Inr r, w')" for t r and w w' :: "'a obs_scheme"
    using that(2) by (rule_tac processPii_result [OF that(1), of w]) simp
  have s': "pp_sanitizedPrompt r = redact t 0 (map span_triple (det_spans (detectPii t)))"
    if "is_jsstr t" "processPiiPromptImmutably t w = (Inr r, w')" for t r and w w' :: "'b obs_scheme"
    using that(2) by (rule_tac processPii_result [OF that(1), of w]) simp
  show ?thesis
    unfolding s [OF assms(1,5)] s' [OF assms(2,6)] redact_interleave ph assms(3,4) ..
qed

theorem prompt_processing_replaces_detected_spans_witness:
  "\<exists>res w'. processPiiPromptImmutably demo_text \<lparr>metric_ops = []\<rparr> = (Inr res, w')
     \<and> pp_sanitizedPrompt res = js_lit ''[EMAIL_REDACTED]''"
proof -
  have "redact demo_text 0 [(0, 6, js_lit ''[EMAIL_REDACTED]'')] = js_lit ''[EMAIL_REDACTED]''"
    by (simp add: js_slice_def demo_slice)
  with prompt_processing_replaces_detected_spans [OF demo_text_jsstr, of "\<lparr>metric_ops = []\<rparr>"] show ?thesis
    by (auto simp: demo_detect demo_span_def placeholderFor_def)
qed

definition demo_text2 :: jsstr where
  "demo_text2 = js_lit ''bc@d.eu''"

lemma demo_text2_jsstr: "is_jsstr demo_text2"
  by (simp add: demo_text2_def is_jsstr_def js_lit_def)

lemma demo2_code_points: "code_points demo_text2 = [98, 99, 64, 100, 46, 101, 117]"
  by (simp add: demo_text2_def js_lit_def is_high_def)

lemma demo2_matches:
  "rx_matchAll True rx_connection_string [98, 99, 64, 100, 46, 101, 117] 0 = []"
  "rx_matchAll True rx_api_key [98, 99, 64, 100, 46, 101, 117] 0 = []"
  "rx_matchAll False rx_payment_card [98, 99, 64, 100, 46, 101, 117] 0 = []"
  "rx_matchAll False rx_government_id [98, 99, 64, 100, 46, 101, 117] 0 = []"
  "rx_matchAll False rx_phone [98, 99, 64, 100, 46, 101, 117] 0 = []"
  "rx_matchAll True rx_email [98, 99, 64, 100, 46, 101, 117] 0 = [(0, 7)]"
  by (simp_all only: rx_connection_string_def rx_api_key_def rx_payment_card_def rx_government_id_def
      rx_phone_def rx_email_def) (simp_all add: rx_eval)

lemma demo2_slice: "length demo_text2 = 7"
  "js_slice demo_text2 0 (Suc (Suc (Suc (Suc (Suc (Suc (Suc 0))))))) = demo_text2" "demo_text2 \<noteq> []"
  by (simp_all add: demo_text2_def js_lit_def js_slice_def)

lemma demo2_detect: "map (\<lambda>s. (sp_start s, sp_end s, sp_detector s)) (det_spans (detectPii demo_text2)) = [(0, 7, det_email)]"
  by (simp add: detectPii_def Let_def collectCandidates_def DETECTOR_RULES_def demo2_code_points
      demo2_matches match_candidate_def unit_index_def unit_width_def demo2_slice removeOverlaps_def removePriority_def)

theorem sanitized_prompt_hides_detected_values_witness:
  "\<exists>r1 w1 r2 w2. processPiiPromptImmutably demo_text \<lparr>metric_ops = []\<rparr> = (Inr r1, w1)
     \<and> processPiiPromptImmutably demo_text2 \<lparr>metric_ops = []\<rparr> = (Inr r2, w2)
     \<and> demo_text \<noteq> demo_text2 \<and> pp_sanitizedPrompt r1 = pp_sanitizedPrompt r2"
proof -
  obtain r1 w1 r2 w2 where p: "processPiiPromptImmutably demo_text \<lparr>metric_ops = []\<rparr> = (Inr r1, w1)"
    "processPiiPromptImmutably demo_text2 \<lparr>metric_ops = []\<rparr> = (Inr r2, w2)"
    using processPii_result [OF demo_text_jsstr] processPii_result [OF demo_text2_jsstr] by metis
  from demo2_detect obtain s2 where s2: "det_spans (detectPii demo_text2) = [s2]" "sp_start s2 = 0"
    "sp_end s2 = 7" "sp_detector s2 = det_email" by auto
  have "kept demo_text 0 (map span_triple (det_spans (detectPii demo_text)))
      = kept demo_text2 0 (map span_triple (det_spans (detectPii demo_text2)))"
    and "map sp_detector (det_spans (detectPii demo_text)) = map sp_detector (det_spans (detectPii demo_text2))"
    using s2 by (simp_all add: demo_detect demo_span_def span_triple_def js_slice_def demo_slice demo2_slice)
  from sanitized_prompt_hides_detected_values [OF demo_text_jsstr demo_text2_jsstr this p] p
    demo_slice(1) demo2_slice(1) show ?thesis by fastforce
qed

section \<open>The rest of a dropped match\<close>

definition overlap_text :: jsstr where
  "overlap_text = js_lit ''123-45-6789-012''"

lemma overlap_text_jsstr: "is_jsstr overlap_text"
  by (simp add: overlap_text_def is_jsstr_def js_lit_def)

lemma overlap_code_points:
  "code_points overlap_text = [49, 50, 51, 45, 52, 53, 45, 54, 55, 56, 57, 45, 48, 49, 50]"
  by (simp add: overlap_text_def js_lit_def is_high_def)

lemma overlap_matches:
  "rx_matchAll True rx_connection_string [49, 50, 51, 45, 52, 53, 45, 54, 55, 56, 57, 45, 48, 49, 50] 0 = []"
  "rx_matchAll True rx_api_key [49, 50, 51, 45, 52, 53, 45, 54, 55, 56, 57, 45, 48, 49, 50] 0 = []"
  "rx_matchAll False rx_payment_card [49, 50, 51, 45, 52, 53, 45, 54, 55, 56, 57, 45, 48, 49, 50] 0 = []"
  "rx_matchAll False rx_government_id [49, 50, 51, 45, 52, 53, 45, 54, 55, 56, 57, 45, 48, 49, 50] 0 = [(0, 11)]"
  "rx_matchAll True rx_email [49, 50, 51, 45, 52, 53, 45, 54, 55, 56, 57, 45, 48, 49, 50] 0 = []"
  "rx_matchAll False rx_phone [49, 50, 51, 45, 52, 53, 45, 54, 55, 56, 57, 45, 48, 49, 50] 0 = [(0, 15)]"
  by (simp_all only: rx_connection_string_def rx_api_key_def rx_payment_card_def rx_government_id_def
      rx_phone_def rx_email_def) (simp_all add: rx_eval)

lemma overlap_index: "unit_index (code_points overlap_text) 0 = 0"
  "unit_index (code_points overlap_text) 11 = 11" "unit_index (code_points overlap_text) 15 = 15"
  by (simp_all add: overlap_code_points unit_index_def unit_width_def)

lemma overlap_slices: "js_slice overlap_text 0 11 = js_lit ''123-45-6789''"
  "js_slice overlap_text 0 15 = overlap_text" "overlap_text \<noteq> []" "length overlap_text = 15"
  by (simp_all add: overlap_text_def js_lit_def js_slice_def)

lemma overlap_phone_valid: "isValidPhoneCandidate overlap_text"
  by (simp add: isValidPhoneCandidate_def digitsOnly_def overlap_text_def js_lit_def)

lemma overlap_candidates:
  "map (\<lambda>c. (sp_start c, sp_end c, sp_detector c, sp_priority c)) (collectCandidates overlap_text)
   = [(0, 11, det_government_id, 70), (0, 15, det_phone, 50)]"
proof -
  have "js_lit ''123-45-6789'' \<noteq> []" by (simp add: js_lit_def)
  then show ?thesis
    unfolding collectCandidates_def DETECTOR_RULES_def
    by (simp add: match_candidate_def Let_def overlap_matches [folded overlap_code_points] overlap_index
        overlap_slices overlap_phone_valid)
qed

lemma overlap_detect:
  "map (\<lambda>s. (sp_start s, sp_end s, sp_detector s)) (det_spans (detectPii overlap_text))
   = [(0, 11, det_government_id)]"
proof -
  from overlap_candidates obtain a b where ab: "collectCandidates overlap_text = [a, b]"
    "sp_start a = 0" "sp_end a = 11" "sp_detector a = det_government_id" "sp_priority a = 70"
    "sp_start b = 0" "sp_end b = 15" "sp_priority b = 50"
    by (auto simp: map_eq_Cons_conv)
  then show ?thesis
    by (simp add: detectPii_def removeOverlaps_def compareByPrecedence_def js_or_def spansOverlap_def)
qed

text \<open>
  A match that overlap resolution drops is not masked as a whole. In the prompt
  \<^verbatim>\<open>123-45-6789-012\<close> the phone rule recognises all fifteen characters, but the government-id
  match of the first eleven takes precedence, and the sanitized prompt still shows the last four
  characters of the phone number.
\<close>

theorem dropped_match_keeps_tail:
  "\<exists>rule m res w'. rule \<in> set DETECTOR_RULES \<and> dr_detector rule = det_phone
     \<and> rule_match overlap_text rule (m :: DetectedPiiSpan) \<and> sp_start m = 0 \<and> sp_end m = 15
     \<and> processPiiPromptImmutably overlap_text \<lparr>metric_ops = []\<rparr> = (Inr res, w')
     \<and> pp_sanitizedPrompt res = js_lit ''[PII_REDACTED]'' @ js_lit ''-012''"
proof -
  from overlap_candidates obtain a b where ab: "collectCandidates overlap_text = [a, b]"
    "sp_start b = 0" "sp_end b = 15" "sp_detector b = det_phone" by (auto simp: map_eq_Cons_conv)
  with collectCandidates_sound(1) [OF overlap_text_jsstr, of b] obtain rule where
    r: "rule \<in> set DETECTOR_RULES" "rule_match overlap_text rule b" by auto
  then have "rule_match overlap_text rule (removePriority b)" "dr_detector rule = det_phone"
    using ab(4) by (simp_all add: rule_match_def)
  moreover obtain res w' where p: "processPiiPromptImmutably overlap_text \<lparr>metric_ops = []\<rparr> = (Inr res, w')"
    "pp_sanitizedPrompt res = redact overlap_text 0 (map span_triple (det_spans (detectPii overlap_text)))"
    by (rule processPii_result [OF overlap_text_jsstr, of "\<lparr>metric_ops = []\<rparr>"]) blast
  moreover from overlap_detect obtain s where "det_spans (detectPii overlap_text) = [s]" "sp_start s = 0"
    "sp_end s = 11" "sp_detector s = det_government_id" by (auto simp: map_eq_Cons_conv)
  then have "redact overlap_text 0 (map span_triple (det_spans (detectPii overlap_text)))
      = js_lit ''[PII_REDACTED]'' @ js_lit ''-012''"
    by (simp add: span_triple_def placeholderFor_def GENERIC_PLACEHOLDER_def js_slice_def overlap_text_def js_lit_def)
  ultimately show ?thesis using r(1) ab(2,3) by (metis removePriority_simps(1,2))
qed

end
