(* ===== verification/Policy.thy ===== *)
theory Policy
  imports PiiMasking
begin

text \<open>
  The policy engine: \<^verbatim>\<open>policy/policy.types.ts\<close>, \<^verbatim>\<open>policy/policy-evaluator.ts\<close>,
  \<^verbatim>\<open>policy/policy-events.ts\<close> and \<^verbatim>\<open>evaluatePolicy\<close> of \<^verbatim>\<open>chat/chat.service.ts\<close>.
  Thresholds come from the database, so they are rational numbers and the check that they are
  integers is part of the model. An evaluator that does not apply returns \<^verbatim>\<open>null\<close>, here
  \<open>None\<close>; an invalid input is an exception.
\<close>

section \<open>Data\<close>

record OrganisationPolicy =
  maskThreshold :: rat
  blockThreshold :: rat
  maxOutputTokensPerRequest :: int

record BudgetStatus =
  bs_monthlyBudgetTokens :: int
  bs_usedTokens :: int
  bs_reservedTokens :: "int option"
  bs_budgetedTokens :: "int option"
  bs_remainingTokens :: int
  bs_remainingPercent :: rat
  bs_exceeded :: bool

record PolicyEvaluationInput =
  in_pii :: PiiPromptProcessingResult
  in_risk :: PiiRiskAssessment
  in_budget :: BudgetStatus
  in_thresholds :: OrganisationPolicy

datatype PolicyAction = ALLOW | ALLOW_WITH_MASK | BLOCK

datatype PolicyReasonCode =
  risk_below_mask_threshold | mask_threshold_reached | budget_exceeded | high_risk_pii

text \<open>The three members of the union; only the masked one carries a provider prompt.\<close>

record PolicyDecision =
  pd_action :: PolicyAction
  pd_reasonCode :: PolicyReasonCode
  pd_providerPrompt :: "jsstr option"
  pd_riskScore :: int
  pd_categories :: "PiiCategory list"
  pd_detectorCount :: nat

section \<open>The evaluators\<close>

definition is_integer :: "rat \<Rightarrow> bool" where
  "is_integer q \<longleftrightarrow> snd (quotient_of q) = 1"

definition assertValidEvaluationInput :: "PolicyEvaluationInput \<Rightarrow> exn + unit" where
  "assertValidEvaluationInput inp =
     (let mask = maskThreshold (in_thresholds inp); block = blockThreshold (in_thresholds inp);
          score = ra_score (in_risk inp)
      in if \<not> is_integer mask \<or> \<not> is_integer block \<or> mask < 0 \<or> block > 100 \<or> block \<le> mask
            \<or> score < 0 \<or> score > 100
         then Inl (ExnOther ''Invalid policy evaluation input'') else Inr ())"

definition decision_of ::
  "PolicyAction \<Rightarrow> PolicyReasonCode \<Rightarrow> jsstr option \<Rightarrow> PolicyEvaluationInput \<Rightarrow> PolicyDecision" where
  "decision_of a r p inp =
     \<lparr>pd_action = a, pd_reasonCode = r, pd_providerPrompt = p, pd_riskScore = ra_score (in_risk inp),
      pd_categories = cls_categories (pp_classification (in_pii inp)),
      pd_detectorCount = length (cls_spans (pp_classification (in_pii inp)))\<rparr>"

definition evaluateAllow :: "PolicyEvaluationInput \<Rightarrow> exn + PolicyDecision option" where
  "evaluateAllow inp =
     (case assertValidEvaluationInput inp of
        Inl e \<Rightarrow> Inl e
      | Inr _ \<Rightarrow>
          if bs_exceeded (in_budget inp)
             \<or> of_int (ra_score (in_risk inp)) \<ge> maskThreshold (in_thresholds inp)
          then Inr None
          else Inr (Some (decision_of ALLOW risk_below_mask_threshold None inp)))"

definition evaluateAllowWithMask :: "PolicyEvaluationInput \<Rightarrow> exn + PolicyDecision option" where
  "evaluateAllowWithMask inp =
     (case assertValidEvaluationInput inp of
        Inl e \<Rightarrow> Inl e
      | Inr _ \<Rightarrow>
          if bs_exceeded (in_budget inp)
             \<or> of_int (ra_score (in_risk inp)) < maskThreshold (in_thresholds inp)
             \<or> of_int (ra_score (in_risk inp)) \<ge> blockThreshold (in_thresholds inp)
          then Inr None
          else Inr (Some (decision_of ALLOW_WITH_MASK mask_threshold_reached
                 (Some (pp_sanitizedPrompt (in_pii inp))) inp)))"

definition evaluateBlock :: "PolicyEvaluationInput \<Rightarrow> exn + PolicyDecision option" where
  "evaluateBlock inp =
     (case assertValidEvaluationInput inp of
        Inl e \<Rightarrow> Inl e
      | Inr _ \<Rightarrow>
          if \<not> bs_exceeded (in_budget inp)
             \<and> of_int (ra_score (in_risk inp)) < blockThreshold (in_thresholds inp)
          then Inr None
          else Inr (Some (decision_of BLOCK
                 (if bs_exceeded (in_budget inp) then budget_exceeded else high_risk_pii) None inp)))"

text \<open>\<^verbatim>\<open>a ?? b\<close> for evaluators that may throw.\<close>

definition or_else :: "exn + 'a option \<Rightarrow> exn + 'a option \<Rightarrow> exn + 'a option" where
  "or_else a b = (case a of Inl e \<Rightarrow> Inl e | Inr (Some d) \<Rightarrow> Inr (Some d) | Inr None \<Rightarrow> b)"

definition evaluatePolicy :: "PolicyEvaluationInput \<Rightarrow> exn + PolicyDecision" where
  "evaluatePolicy inp =
     (case or_else (or_else (evaluateBlock inp) (evaluateAllowWithMask inp)) (evaluateAllow inp) of
        Inl e \<Rightarrow> Inl e
      | Inr None \<Rightarrow> Inl (ExnOther ''Policy evaluation did not produce a decision.'')
      | Inr (Some d) \<Rightarrow> Inr d)"

section \<open>Events\<close>

datatype PolicyDecisionEventName = policy_allow | policy_mask | policy_block | policy_budget_block

record PolicyDecisionEvent =
  pe_event :: PolicyDecisionEventName
  pe_requestId :: string
  pe_decision :: PolicyAction
  pe_riskScore :: int
  pe_reasonCode :: PolicyReasonCode
  pe_categories :: "PiiCategory list"
  pe_detectorCount :: nat
  pe_orgId :: "string option"
  pe_userId :: "string option"

definition resolvePolicyEventName :: "PolicyDecision \<Rightarrow> PolicyDecisionEventName" where
  "resolvePolicyEventName d =
     (if pd_action d = BLOCK \<and> pd_reasonCode d = budget_exceeded then policy_budget_block
      else case pd_action d of ALLOW \<Rightarrow> policy_allow | ALLOW_WITH_MASK \<Rightarrow> policy_mask | BLOCK \<Rightarrow> policy_block)"

text \<open>The caller's identity is a pair of organisation and user id.\<close>

definition createPolicyDecisionEvent ::
  "string \<Rightarrow> PolicyDecision \<Rightarrow> (string \<times> string) option \<Rightarrow> PolicyDecisionEvent" where
  "createPolicyDecisionEvent requestId d auth =
     \<lparr>pe_event = resolvePolicyEventName d, pe_requestId = requestId, pe_decision = pd_action d,
      pe_riskScore = pd_riskScore d, pe_reasonCode = pd_reasonCode d, pe_categories = pd_categories d,
      pe_detectorCount = pd_detectorCount d, pe_orgId = map_option fst auth, pe_userId = map_option snd auth\<rparr>"

fun action_label :: "PolicyAction \<Rightarrow> string" where
  "action_label ALLOW = ''ALLOW''"
| "action_label ALLOW_WITH_MASK = ''ALLOW_WITH_MASK''"
| "action_label BLOCK = ''BLOCK''"

fun reason_label :: "PolicyReasonCode \<Rightarrow> string" where
  "reason_label risk_below_mask_threshold = ''risk_below_mask_threshold''"
| "reason_label mask_threshold_reached = ''mask_threshold_reached''"
| "reason_label budget_exceeded = ''budget_exceeded''"
| "reason_label high_risk_pii = ''high_risk_pii''"

text \<open>The logger is a parameter: a function of the world.\<close>

definition emitPolicyDecisionEvent ::
  "(PolicyDecisionEvent \<Rightarrow> 'x obs_scheme \<Rightarrow> 'x obs_scheme) \<Rightarrow> string \<Rightarrow> PolicyDecision \<Rightarrow>
   (string \<times> string) option \<Rightarrow> ('x obs_scheme, exn, PolicyDecisionEvent) act" where
  "emitPolicyDecisionEvent info requestId d auth =
     (let event = createPolicyDecisionEvent requestId d auth
      in case requireApprovedMetricLabel ''policy action'' (action_label (pe_decision event)) approved_policyActions of
           Inl e \<Rightarrow> act_throw e
         | Inr a \<Rightarrow>
             (case requireApprovedMetricLabel ''policy reason'' (reason_label (pe_reasonCode event)) approved_policyReasons of
                Inl e \<Rightarrow> act_throw e
              | Inr r \<Rightarrow>
                  act_then (act_modify (log_metric (MInc ''policyDecisionsTotal'' [a, r])))
                    (act_then (act_modify (info event)) (act_ret event))))"

section \<open>The decision\<close>

definition thresholds_valid :: "OrganisationPolicy \<Rightarrow> bool" where
  "thresholds_valid p \<longleftrightarrow> is_integer (maskThreshold p) \<and> is_integer (blockThreshold p)
     \<and> 0 \<le> maskThreshold p \<and> maskThreshold p < blockThreshold p \<and> blockThreshold p \<le> 100"

text \<open>The decision table of the design document.\<close>

definition policy_reference :: "bool \<Rightarrow> rat \<Rightarrow> OrganisationPolicy \<Rightarrow> PolicyAction \<times> PolicyReasonCode" where
  "policy_reference exceeded score p =
     (if exceeded then (BLOCK, budget_exceeded)
      else if score \<ge> blockThreshold p then (BLOCK, high_risk_pii)
      else if score \<ge> maskThreshold p then (ALLOW_WITH_MASK, mask_threshold_reached)
      else (ALLOW, risk_below_mask_threshold))"

lemma valid_input:
  "thresholds_valid (in_thresholds inp) \<Longrightarrow> 0 \<le> ra_score (in_risk inp) \<Longrightarrow> ra_score (in_risk inp) \<le> 100 \<Longrightarrow>
   assertValidEvaluationInput inp = Inr ()"
  by (auto simp: assertValidEvaluationInput_def thresholds_valid_def Let_def)

lemma evaluatePolicy_valid:
  assumes "assertValidEvaluationInput inp = Inr ()"
  shows "\<exists>p. evaluatePolicy inp = Inr (decision_of
        (fst (policy_reference (bs_exceeded (in_budget inp)) (of_int (ra_score (in_risk inp))) (in_thresholds inp)))
        (snd (policy_reference (bs_exceeded (in_budget inp)) (of_int (ra_score (in_risk inp))) (in_thresholds inp))) p inp)
     \<and> p = (if fst (policy_reference (bs_exceeded (in_budget inp)) (of_int (ra_score (in_risk inp))) (in_thresholds inp))
              = ALLOW_WITH_MASK then Some (pp_sanitizedPrompt (in_pii inp)) else None)"
proof -
  have "maskThreshold (in_thresholds inp) < blockThreshold (in_thresholds inp)"
    using assms by (auto simp: assertValidEvaluationInput_def Let_def split: if_splits)
  with assms show ?thesis
    by (auto simp: evaluatePolicy_def or_else_def evaluateBlock_def evaluateAllowWithMask_def
        evaluateAllow_def policy_reference_def)
qed

text \<open>
  C34. For the risk score that the scorer computes and thresholds that satisfy
  \<open>0 \<le> mask < block \<le> 100\<close>, the policy evaluation always produces a decision, it is the
  one of the design document's decision table (an exhausted budget blocks first, then the block
  threshold, then the mask threshold), and it carries a provider prompt exactly when the action is
  to mask, namely the sanitized prompt.
\<close>

theorem policy_decision_follows_table:
  assumes "thresholds_valid (in_thresholds inp)" and "in_risk inp = calculatePiiRisk (pp_classification (in_pii inp))"
  shows "\<exists>d. evaluatePolicy inp = Inr d
    \<and> (pd_action d, pd_reasonCode d)
        = policy_reference (bs_exceeded (in_budget inp)) (of_int (ra_score (in_risk inp))) (in_thresholds inp)
    \<and> pd_providerPrompt d = (if pd_action d = ALLOW_WITH_MASK then Some (pp_sanitizedPrompt (in_pii inp)) else None)
    \<and> pd_riskScore d = ra_score (in_risk inp)"
proof -
  have "assertValidEvaluationInput inp = Inr ()"
    using assms risk_score_range [of "pp_classification (in_pii inp)"] by (intro valid_input) simp_all
  from evaluatePolicy_valid [OF this] show ?thesis by (auto simp: decision_of_def)
qed

text \<open>
  The three evaluators are exclusive and complete: on a valid input exactly one of them returns
  a decision, so the order in which the service asks them does not matter; on an invalid input all
  three throw the same exception.
\<close>

theorem policy_evaluators_exclusive:
  "(assertValidEvaluationInput inp = Inr () \<and>
     (\<exists>!e. e \<in> {evaluateBlock, evaluateAllowWithMask, evaluateAllow} \<and> (\<exists>d. e inp = Inr (Some d))))
   \<or> (\<exists>x. assertValidEvaluationInput inp = Inl x \<and> evaluateBlock inp = Inl x
        \<and> evaluateAllowWithMask inp = Inl x \<and> evaluateAllow inp = Inl x)"
proof (cases "assertValidEvaluationInput inp")
  case (Inl x)
  then show ?thesis by (simp add: evaluateBlock_def evaluateAllowWithMask_def evaluateAllow_def)
next
  case (Inr u)
  then have lt: "maskThreshold (in_thresholds inp) < blockThreshold (in_thresholds inp)"
    by (auto simp: assertValidEvaluationInput_def Let_def split: if_splits)
  let ?s = "of_int (ra_score (in_risk inp)) :: rat"
  have b: "(\<exists>d. evaluateBlock inp = Inr (Some d)) \<longleftrightarrow>
      bs_exceeded (in_budget inp) \<or> blockThreshold (in_thresholds inp) \<le> ?s"
    and m: "(\<exists>d. evaluateAllowWithMask inp = Inr (Some d)) \<longleftrightarrow> \<not> bs_exceeded (in_budget inp)
      \<and> maskThreshold (in_thresholds inp) \<le> ?s \<and> ?s < blockThreshold (in_thresholds inp)"
    and a: "(\<exists>d. evaluateAllow inp = Inr (Some d)) \<longleftrightarrow> \<not> bs_exceeded (in_budget inp)
      \<and> ?s < maskThreshold (in_thresholds inp)"
    using Inr by (auto simp: evaluateBlock_def evaluateAllowWithMask_def evaluateAllow_def)
  have "\<exists>!e. e \<in> {evaluateBlock, evaluateAllowWithMask, evaluateAllow} \<and> (\<exists>d. e inp = Inr (Some d))"
  proof (cases "bs_exceeded (in_budget inp) \<or> blockThreshold (in_thresholds inp) \<le> ?s")
    case True
    with b m a lt show ?thesis by (intro ex1I [of _ evaluateBlock]) auto
  next
    case False
    show ?thesis
    proof (cases "maskThreshold (in_thresholds inp) \<le> ?s")
      case True
      with False b m a show ?thesis by (intro ex1I [of _ evaluateAllowWithMask]) auto
    next
      case False
      with \<open>\<not> (bs_exceeded (in_budget inp) \<or> blockThreshold (in_thresholds inp) \<le> ?s)\<close> b m a
      show ?thesis by (intro ex1I [of _ evaluateAllow]) auto
    qed
  qed
  with Inr show ?thesis by simp
qed

lemma emitPolicyDecisionEvent_returns:
  "emitPolicyDecisionEvent info rid d auth w =
     (Inr (createPolicyDecisionEvent rid d auth),
      info (createPolicyDecisionEvent rid d auth)
        (log_metric (MInc ''policyDecisionsTotal'' [action_label (pd_action d), reason_label (pd_reasonCode d)]) w))"
  by (cases "pd_action d"; cases "pd_reasonCode d")
     (simp_all add: emitPolicyDecisionEvent_def Let_def createPolicyDecisionEvent_def
       requireApprovedMetricLabel_def approved_policyActions_def approved_policyReasons_def act_then_apply)

definition demo_policy_thresholds :: OrganisationPolicy where
  "demo_policy_thresholds = \<lparr>maskThreshold = 30, blockThreshold = 70, maxOutputTokensPerRequest = 1024\<rparr>"

definition demo_policy_input :: PolicyEvaluationInput where
  "demo_policy_input =
     (let cl = \<lparr>cls_spans = [demo_span\<lparr>sp_category := CREDENTIAL\<rparr>], cls_categories = [CREDENTIAL]\<rparr>
      in \<lparr>in_pii = \<lparr>pp_sanitizedPrompt = js_lit ''x'', pp_detection = \<lparr>det_spans = [], det_categories = []\<rparr>,
             pp_classification = cl, pp_masking = \<lparr>maskedText = js_lit ''x'', masks = []\<rparr>\<rparr>,
          in_risk = calculatePiiRisk cl,
          in_budget = \<lparr>bs_monthlyBudgetTokens = 100, bs_usedTokens = 0, bs_reservedTokens = None,
             bs_budgetedTokens = None, bs_remainingTokens = 100, bs_remainingPercent = 100, bs_exceeded = False\<rparr>,
          in_thresholds = demo_policy_thresholds\<rparr>)"

theorem policy_decision_follows_table_witness:
  "\<exists>d. evaluatePolicy demo_policy_input = Inr d \<and> pd_action d = ALLOW_WITH_MASK
     \<and> pd_providerPrompt d = Some (js_lit ''x'')"
proof -
  have "thresholds_valid (in_thresholds demo_policy_input)"
    by (simp add: demo_policy_input_def demo_policy_thresholds_def thresholds_valid_def is_integer_def
        Let_def quotient_of_number)
  moreover have "in_risk demo_policy_input = calculatePiiRisk (pp_classification (in_pii demo_policy_input))"
    by (simp add: demo_policy_input_def Let_def)
  moreover have "ra_score (in_risk demo_policy_input) = 40"
    by (simp add: demo_policy_input_def Let_def risk_score_reference risk_reference_def
        distinct_spans_def)
  ultimately show ?thesis
    using policy_decision_follows_table [of demo_policy_input]
    by (auto simp: policy_reference_def demo_policy_input_def demo_policy_thresholds_def Let_def)
qed

end
