(* ===== verification/ChatMetrics.thy ===== *)
theory ChatMetrics
  imports Policy
begin

text \<open>
  The metrics of one chat execution (\<^verbatim>\<open>chat/chat.metrics.ts\<close>): the closure that
  \<^verbatim>\<open>startAcceptedChatMetrics\<close> returns is a record of its captured variables, and each method
  returns the updated record. The monotonic clock \<^verbatim>\<open>process.hrtime.bigint()\<close> is a parameter.
\<close>

datatype ChatTerminalOutcome = out_COMPLETED | out_FAILED | out_INTERRUPTED

fun chat_outcome_label :: "ChatTerminalOutcome \<Rightarrow> string" where
  "chat_outcome_label out_COMPLETED = ''COMPLETED''"
| "chat_outcome_label out_FAILED = ''FAILED''"
| "chat_outcome_label out_INTERRUPTED = ''INTERRUPTED''"

record ChatExecutionMetrics =
  cm_acceptedAt :: int
  cm_policyAction :: string
  cm_provider :: "ProviderId option"
  cm_providerStartedAt :: "int option"
  cm_firstTokenObserved :: bool
  cm_terminalObserved :: bool

definition elapsedSeconds :: "('x obs_scheme \<Rightarrow> int) \<Rightarrow> int \<Rightarrow> 'x obs_scheme \<Rightarrow> rat" where
  "elapsedSeconds hrtime startedAt w = of_int (hrtime w - startedAt) / 1000000000"

definition recordBlockedChat :: "'x obs_scheme \<Rightarrow> 'x obs_scheme" where
  "recordBlockedChat = log_metric (MInc ''chatRequestsTotal'' [''BLOCKED'', ''BLOCK''])"

definition startAcceptedChatMetrics ::
  "('x obs_scheme \<Rightarrow> int) \<Rightarrow> PolicyAction \<Rightarrow> 'x obs_scheme \<Rightarrow> exn + ChatExecutionMetrics" where
  "startAcceptedChatMetrics hrtime policyAction w =
     (let acceptedAt = hrtime w
      in case requireApprovedMetricLabel ''policy action'' (action_label policyAction) approved_policyActions of
           Inl e \<Rightarrow> Inl e
         | Inr a \<Rightarrow> Inr \<lparr>cm_acceptedAt = acceptedAt, cm_policyAction = a, cm_provider = None,
              cm_providerStartedAt = None, cm_firstTokenObserved = False, cm_terminalObserved = False\<rparr>)"

definition metrics_finish ::
  "('x obs_scheme \<Rightarrow> int) \<Rightarrow> ChatTerminalOutcome \<Rightarrow> ChatExecutionMetrics \<Rightarrow> 'x obs_scheme \<Rightarrow>
   (exn + ChatExecutionMetrics) \<times> 'x obs_scheme" where
  "metrics_finish hrtime oc m w =
     (if cm_terminalObserved m then (Inr m, w)
      else let m' = m\<lparr>cm_terminalObserved := True\<rparr>
           in case requireApprovedMetricLabel ''chat outcome'' (chat_outcome_label oc) approved_chatOutcomes of
                Inl e \<Rightarrow> (Inl e, w)
              | Inr a \<Rightarrow>
                  (Inr m', log_metric (MObserve ''chatCompletionDurationSeconds'' [a]
                       (elapsedSeconds hrtime (cm_acceptedAt m) w))
                     (log_metric (MInc ''chatRequestsTotal'' [a, cm_policyAction m]) w)))"

definition metrics_markProviderStarted ::
  "('x obs_scheme \<Rightarrow> int) \<Rightarrow> ProviderId \<Rightarrow> ChatExecutionMetrics \<Rightarrow> 'x obs_scheme \<Rightarrow> exn + ChatExecutionMetrics" where
  "metrics_markProviderStarted hrtime p m w =
     (case cm_providerStartedAt m of
        Some t \<Rightarrow> Inr m
      | None \<Rightarrow>
          (case requireApprovedMetricLabel ''provider'' (provider_label p)
                  (map provider_label ENABLED_PRODUCTION_PROVIDER_IDS) of
             Inl e \<Rightarrow> Inl e
           | Inr _ \<Rightarrow> Inr (m\<lparr>cm_provider := Some p, cm_providerStartedAt := Some (hrtime w)\<rparr>)))"

definition metrics_observeFirstToken ::
  "('x obs_scheme \<Rightarrow> int) \<Rightarrow> ChatExecutionMetrics \<Rightarrow> 'x obs_scheme \<Rightarrow> ChatExecutionMetrics \<times> 'x obs_scheme" where
  "metrics_observeFirstToken hrtime m w =
     (case (cm_provider m, cm_providerStartedAt m) of
        (Some p, Some t) \<Rightarrow>
          if cm_firstTokenObserved m then (m, w)
          else (m\<lparr>cm_firstTokenObserved := True\<rparr>,
                log_metric (MObserve ''chatTimeToFirstTokenSeconds'' [provider_label p]
                   (elapsedSeconds hrtime t w)) w)
      | _ \<Rightarrow> (m, w))"

lemma metrics_finish_returns: "\<exists>m'. fst (metrics_finish hrtime oc m w) = Inr m' \<and> cm_terminalObserved m'"
  by (cases oc) (auto simp: metrics_finish_def requireApprovedMetricLabel_def approved_chatOutcomes_def Let_def)

lemma startAcceptedChatMetrics_returns: "\<exists>m. startAcceptedChatMetrics hrtime a w = Inr m"
  by (cases a) (simp_all add: startAcceptedChatMetrics_def requireApprovedMetricLabel_def approved_policyActions_def Let_def)

text \<open>
  A chat execution is counted once: however often and with whatever outcomes
  \<^verbatim>\<open>finish\<close> is called, only the first call writes metrics.
\<close>

theorem chat_outcome_counted_once:
  assumes "metrics_finish hrtime oc1 m w = (Inr m1, w1)" and "metrics_finish hrtime oc2 m1 w2 = (r, w3)"
  shows "w3 = w2 \<and> r = Inr m1"
proof -
  have "cm_terminalObserved m1" using metrics_finish_returns [of hrtime oc1 m w] assms(1) by auto
  with assms(2) show ?thesis by (simp add: metrics_finish_def)
qed

theorem chat_outcome_counted_once_witness:
  "\<exists>m m1 w1. metrics_finish (\<lambda>_. 0) out_COMPLETED m \<lparr>metric_ops = []\<rparr> = (Inr m1, w1)
     \<and> metrics_finish (\<lambda>_. 0) out_FAILED m1 w1 = (Inr m1, w1)"
proof -
  obtain m1 w1 where "metrics_finish (\<lambda>_. 0) out_COMPLETED
      \<lparr>cm_acceptedAt = 0, cm_policyAction = ''ALLOW'', cm_provider = None, cm_providerStartedAt = None,
       cm_firstTokenObserved = False, cm_terminalObserved = False\<rparr> \<lparr>metric_ops = []\<rparr> = (Inr m1, w1)"
    by (simp add: metrics_finish_def Let_def requireApprovedMetricLabel_def approved_chatOutcomes_def)
  moreover obtain r w3 where "metrics_finish (\<lambda>_. 0) out_FAILED m1 w1 = (r, w3)" by fastforce
  ultimately show ?thesis using chat_outcome_counted_once by metis
qed

end
