(* ===== verification/Idempotency.thy ===== *)
theory Idempotency
  imports MetricLabels
begin

text \<open>
  Request deduplication (\<^verbatim>\<open>shared/idempotency/idempotency.service.ts\<close>) with its three Lua scripts.

  Redis is a parameter: a record of the four commands the scripts use, over a world whose type is
  open. \<open>redis_laws\<close> states what the code relies on, as the Redis documentation has it: what
  \<^verbatim>\<open>GET\<close>, \<^verbatim>\<open>SET .. NX\<close>, \<^verbatim>\<open>SET .. XX\<close> and \<^verbatim>\<open>DEL\<close> return and leave behind. A script runs
  without interruption. The connection may fail before the script runs, or after it ran and before
  the reply arrived; \<open>rd_link\<close> decides which.

  A stored string is either the JSON text of a record of the schema (represented by the record: the
  serialisation is injective and both decoders invert it), or the text \<^verbatim>\<open>RESERVED\<close>, or any
  other text, of which only matters whether \<^verbatim>\<open>cjson\<close> decodes it and which status and request id
  it then has. The keyed hash \<^verbatim>\<open>createHmac\<close> is a parameter too.
\<close>

section \<open>Data\<close>

datatype IdempotencyStatus = PROCESSING | COMPLETED

record IdempotencyRecord =
  ir_status :: IdempotencyStatus
  ir_requestId :: string
  ir_requestFingerprint :: string
  ir_at :: string

datatype redis_text =
  RtRecord IdempotencyRecord
| RtReserved
| RtOther "(string option \<times> string option) option"

datatype lua_result = LuaText redis_text | LuaInt int | LuaNil

datatype link_outcome = LinkUp | LinkDown | ReplyLost

record 's redis =
  rd_get :: "string \<Rightarrow> 's \<Rightarrow> redis_text option"
  rd_set_nx :: "string \<Rightarrow> redis_text \<Rightarrow> int \<Rightarrow> 's \<Rightarrow> bool \<times> 's"
  rd_set_xx :: "string \<Rightarrow> redis_text \<Rightarrow> int \<Rightarrow> 's \<Rightarrow> 's"
  rd_del :: "string \<Rightarrow> 's \<Rightarrow> int \<times> 's"
  rd_link :: "'s \<Rightarrow> link_outcome"

record 's idem_env =
  ie_redis :: "'s redis"
  ie_hmac :: "string \<Rightarrow> string"
  ie_now :: "'s \<Rightarrow> string"
  ie_processingTtl :: int
  ie_completedTtl :: int

record IdempotencyInput =
  ii_orgId :: string
  ii_userId :: string
  ii_clientRequestId :: string
  ii_requestId :: string
  ii_requestFingerprint :: string

section \<open>The scripts\<close>

definition RESERVE_SCRIPT :: "'s redis \<Rightarrow> string \<Rightarrow> redis_text \<Rightarrow> int \<Rightarrow> 's \<Rightarrow> lua_result \<times> 's" where
  "RESERVE_SCRIPT R key rec ttl s =
     (case rd_set_nx R key rec ttl s of
        (True, s') \<Rightarrow> (LuaText RtReserved, s')
      | (False, s') \<Rightarrow> ((case rd_get R key s' of None \<Rightarrow> LuaNil | Some t \<Rightarrow> LuaText t), s'))"

text \<open>What \<^verbatim>\<open>pcall(cjson.decode, current)\<close> gives: failure, or the fields \<^verbatim>\<open>status\<close> and
  \<^verbatim>\<open>requestId\<close>.\<close>

fun status_text :: "IdempotencyStatus \<Rightarrow> string" where
  "status_text PROCESSING = ''PROCESSING''"
| "status_text COMPLETED = ''COMPLETED''"

fun cjson_decode :: "redis_text \<Rightarrow> (string option \<times> string option) option" where
  "cjson_decode (RtRecord r) = Some (Some (status_text (ir_status r)), Some (ir_requestId r))"
| "cjson_decode RtReserved = None"
| "cjson_decode (RtOther d) = d"

definition owned_processing :: "string \<Rightarrow> string option \<times> string option \<Rightarrow> bool" where
  "owned_processing requestId d \<longleftrightarrow> fst d = Some ''PROCESSING'' \<and> snd d = Some requestId"

definition COMPLETE_SCRIPT ::
  "'s redis \<Rightarrow> string \<Rightarrow> string \<Rightarrow> redis_text \<Rightarrow> int \<Rightarrow> 's \<Rightarrow> lua_result \<times> 's" where
  "COMPLETE_SCRIPT R key requestId rec ttl s =
     (case rd_get R key s of
        None \<Rightarrow> (LuaInt 0, s)
      | Some current \<Rightarrow>
          (case cjson_decode current of
             None \<Rightarrow> (LuaInt (- 1), s)
           | Some record \<Rightarrow>
               if \<not> owned_processing requestId record then (LuaInt 0, s)
               else (LuaInt 1, rd_set_xx R key rec ttl s)))"

definition RELEASE_SCRIPT :: "'s redis \<Rightarrow> string \<Rightarrow> string \<Rightarrow> 's \<Rightarrow> lua_result \<times> 's" where
  "RELEASE_SCRIPT R key requestId s =
     (case rd_get R key s of
        None \<Rightarrow> (LuaInt 0, s)
      | Some current \<Rightarrow>
          (case cjson_decode current of
             None \<Rightarrow> (LuaInt (- 1), s)
           | Some record \<Rightarrow>
               if \<not> owned_processing requestId record then (LuaInt 0, s)
               else case rd_del R key s of (n, s') \<Rightarrow> (LuaInt n, s')))"

text \<open>\<^verbatim>\<open>store.evaluate\<close>: one round trip.\<close>

definition evaluate :: "'s redis \<Rightarrow> ('s \<Rightarrow> lua_result \<times> 's) \<Rightarrow> ('s, exn, lua_result) act" where
  "evaluate R script s =
     (case rd_link R s of
        LinkDown \<Rightarrow> (Inl (ExnOther ''Connection is closed.''), s)
      | ReplyLost \<Rightarrow> (Inl (ExnOther ''Connection is closed.''), snd (script s))
      | LinkUp \<Rightarrow> (case script s of (r, s') \<Rightarrow> (Inr r, s')))"

section \<open>Keys and fingerprints\<close>

definition NUL :: string where "NUL = [CHR 0x00]"

definition deriveIdempotencyKey :: "(string \<Rightarrow> string) \<Rightarrow> IdempotencyInput \<Rightarrow> string" where
  "deriveIdempotencyKey hmac inp =
     ''chat:idempotency:'' @ hmac (''chat:idempotency'' @ NUL @
        ii_orgId inp @ NUL @ ii_userId inp @ NUL @ ii_clientRequestId inp)"

definition createOpaqueHmac :: "(string \<Rightarrow> string) \<Rightarrow> string \<Rightarrow> string \<Rightarrow> string" where
  "createOpaqueHmac hmac domain value = hmac (domain @ NUL @ value)"

text \<open>\<^verbatim>\<open>JSON.stringify\<close> of a string.\<close>

definition hex_digit :: "nat \<Rightarrow> char" where
  "hex_digit n = ''0123456789abcdef'' ! n"

definition json_char :: "char \<Rightarrow> string" where
  "json_char c =
     (if c = CHR 0x22 then [CHR 0x5C, CHR 0x22]
      else if c = CHR 0x5C then [CHR 0x5C, CHR 0x5C]
      else if of_char c < (32 :: nat)
      then (if c = CHR 0x08 then [CHR 0x5C, CHR ''b''] else if c = CHR 0x09 then [CHR 0x5C, CHR ''t'']
            else if c = CHR 0x0A then [CHR 0x5C, CHR ''n''] else if c = CHR 0x0C then [CHR 0x5C, CHR ''f'']
            else if c = CHR 0x0D then [CHR 0x5C, CHR ''r'']
            else [CHR 0x5C, CHR ''u'', CHR ''0'', CHR ''0'', hex_digit (of_char c div 16), hex_digit (of_char c mod 16)])
      else [c])"

definition json_string :: "string \<Rightarrow> string" where
  "json_string s = CHR 0x22 # concat (map json_char s) @ [CHR 0x22]"

datatype RoutingMode = manual | auto

fun routing_text :: "RoutingMode \<Rightarrow> string" where
  "routing_text manual = ''manual''"
| "routing_text auto = ''auto''"

record IdempotencyRequestFingerprintInput =
  fi_conversationId :: string
  fi_prompt :: string
  fi_routingMode :: RoutingMode
  fi_providerId :: "string option"

definition createIdempotencyRequestFingerprint ::
  "(string \<Rightarrow> string) \<Rightarrow> IdempotencyRequestFingerprintInput \<Rightarrow> string" where
  "createIdempotencyRequestFingerprint hmac inp =
     (let promptFingerprint = createOpaqueHmac hmac ''chat:idempotency:prompt'' (fi_prompt inp);
          canonicalRequest = ''['' @ json_string ''v1'' @ '','' @ json_string (fi_conversationId inp) @ '',''
            @ json_string (routing_text (fi_routingMode inp)) @ '',''
            @ (case fi_providerId inp of None \<Rightarrow> ''null'' | Some p \<Rightarrow> json_string p) @ '',''
            @ json_string promptFingerprint @ '']''
      in createOpaqueHmac hmac ''chat:idempotency:request'' canonicalRequest)"

section \<open>The service\<close>

definition app_exn :: "nat \<Rightarrow> string \<Rightarrow> string \<Rightarrow> exn" where
  "app_exn st c m = ExnApp (app_error st c m)"

definition idempotencyUnavailable :: exn where
  "idempotencyUnavailable = ExnApp (app_error 503 ''IDEMPOTENCY_UNAVAILABLE''
     ''Request deduplication is temporarily unavailable.'')"

definition recordIdempotencyOutcome :: "string \<Rightarrow> string \<Rightarrow> ('x obs_scheme, exn, unit) act" where
  "recordIdempotencyOutcome operation oc =
     (case requireApprovedMetricLabel ''idempotency operation'' operation approved_idempotencyOperations of
        Inl e \<Rightarrow> act_throw e
      | Inr o' \<Rightarrow>
          (case requireApprovedMetricLabel ''idempotency outcome'' oc approved_idempotencyOutcomes of
             Inl e \<Rightarrow> act_throw e
           | Inr c' \<Rightarrow> act_modify (log_metric (MInc ''idempotencyOperationsTotal'' [o', c']))))"

definition is_fingerprint :: "string \<Rightarrow> bool" where
  "is_fingerprint f \<longleftrightarrow> length f = 64 \<and> (\<forall>c \<in> set f. c \<in> set ''0123456789abcdef'')"

definition zod_error :: exn where "zod_error = ExnOther ''ZodError''"

definition serializeRecord :: "IdempotencyRecord \<Rightarrow> exn + redis_text" where
  "serializeRecord r =
     (if ir_requestId r = [] \<or> \<not> is_fingerprint (ir_requestFingerprint r) then Inl zod_error
      else Inr (RtRecord r))"

fun parseRecord :: "lua_result \<Rightarrow> exn + IdempotencyRecord" where
  "parseRecord (LuaText (RtRecord r)) = Inr r"
| "parseRecord _ = Inl idempotencyUnavailable"

text \<open>The hex digests have the length of the schema, so \<^verbatim>\<open>timingSafeEqual\<close> on their bytes is
  equality of the strings.\<close>

definition requestFingerprintsMatch :: "string \<Rightarrow> string \<Rightarrow> bool" where
  "requestFingerprintsMatch left right \<longleftrightarrow> left = right"

text \<open>A reservation is the closure over key, request id, fingerprint and the local flag.\<close>

record IdempotencyReservation =
  rs_key :: string
  rs_requestId :: string
  rs_fingerprint :: string
  rs_providerExecutionStarted :: bool

definition reserve ::
  "('x obs_scheme) idem_env \<Rightarrow> IdempotencyInput \<Rightarrow> ('x obs_scheme, exn, IdempotencyReservation) act" where
  "reserve env inp w =
     (let key = deriveIdempotencyKey (ie_hmac env) inp
      in if \<not> is_fingerprint (ii_requestFingerprint inp) then (Inl zod_error, w)
         else case serializeRecord \<lparr>ir_status = PROCESSING, ir_requestId = ii_requestId inp,
                     ir_requestFingerprint = ii_requestFingerprint inp, ir_at = ie_now env w\<rparr> of
           Inl e \<Rightarrow> (Inl e, w)
         | Inr processingRecord \<Rightarrow>
           (case evaluate (ie_redis env)
                   (RESERVE_SCRIPT (ie_redis env) key processingRecord (ie_processingTtl env)) w of
              (Inl e, w') \<Rightarrow>
                act_then (recordIdempotencyOutcome ''reserve'' ''unavailable'')
                  (act_throw idempotencyUnavailable) w'
            | (Inr result, w') \<Rightarrow>
                if result \<noteq> LuaText RtReserved
                then (case parseRecord result of
                   Inl e \<Rightarrow> act_then (recordIdempotencyOutcome ''reserve'' ''unavailable'')
                              (act_throw idempotencyUnavailable) w'
                 | Inr record \<Rightarrow>
                     if \<not> requestFingerprintsMatch (ir_requestFingerprint record) (ii_requestFingerprint inp)
                     then act_then (recordIdempotencyOutcome ''reserve'' ''fingerprint_mismatch'')
                            (act_throw (app_exn 409 ''DUPLICATE_REQUEST''
                               ''This client request ID is already associated with another request.'')) w'
                     else if ir_status record = PROCESSING
                     then act_then (recordIdempotencyOutcome ''reserve'' ''processing_duplicate'')
                            (act_throw (app_exn 409 ''REQUEST_IN_PROGRESS''
                               ''This request is already processing.'')) w'
                     else act_then (recordIdempotencyOutcome ''reserve'' ''completed_duplicate'')
                            (act_throw (app_exn 409 ''DUPLICATE_REQUEST''
                               ''This request has already completed.'')) w')
                else act_then (recordIdempotencyOutcome ''reserve'' ''reserved'')
                       (act_ret \<lparr>rs_key = key, rs_requestId = ii_requestId inp,
                          rs_fingerprint = ii_requestFingerprint inp,
                          rs_providerExecutionStarted = False\<rparr>) w'))"

definition markProviderExecutionStarted :: "IdempotencyReservation \<Rightarrow> IdempotencyReservation" where
  "markProviderExecutionStarted rs = rs\<lparr>rs_providerExecutionStarted := True\<rparr>"

text \<open>\<^verbatim>\<open>Number(result) !== 1\<close>: only the number 1 passes; the scripts return numbers.\<close>

definition markCompleted ::
  "('x obs_scheme) idem_env \<Rightarrow> IdempotencyReservation \<Rightarrow> ('x obs_scheme, exn, unit) act" where
  "markCompleted env rs w =
     (case serializeRecord \<lparr>ir_status = COMPLETED, ir_requestId = rs_requestId rs,
             ir_requestFingerprint = rs_fingerprint rs, ir_at = ie_now env w\<rparr> of
        Inl e \<Rightarrow> (Inl e, w)
      | Inr completedRecord \<Rightarrow>
          (case evaluate (ie_redis env) (COMPLETE_SCRIPT (ie_redis env) (rs_key rs) (rs_requestId rs)
                  completedRecord (ie_completedTtl env)) w of
             (Inl e, w') \<Rightarrow> act_then (recordIdempotencyOutcome ''mark_completed'' ''unavailable'')
                             (act_throw idempotencyUnavailable) w'
           | (Inr result, w') \<Rightarrow>
               if result \<noteq> LuaInt 1
               then act_then (recordIdempotencyOutcome ''mark_completed'' ''unavailable'')
                      (act_throw idempotencyUnavailable) w'
               else recordIdempotencyOutcome ''mark_completed'' ''completed'' w'))"

definition releaseBeforeExecution ::
  "('x obs_scheme) idem_env \<Rightarrow> IdempotencyReservation \<Rightarrow> ('x obs_scheme, exn, unit) act" where
  "releaseBeforeExecution env rs w =
     (if rs_providerExecutionStarted rs
      then act_then (recordIdempotencyOutcome ''release_before_execution'' ''release_refused_after_provider_start'')
             (act_throw idempotencyUnavailable) w
      else case evaluate (ie_redis env) (RELEASE_SCRIPT (ie_redis env) (rs_key rs) (rs_requestId rs)) w of
             (Inl e, w') \<Rightarrow> act_then (recordIdempotencyOutcome ''release_before_execution'' ''unavailable'')
                             (act_throw idempotencyUnavailable) w'
           | (Inr result, w') \<Rightarrow>
               if result \<noteq> LuaInt 1
               then act_then (recordIdempotencyOutcome ''release_before_execution'' ''unavailable'')
                      (act_throw idempotencyUnavailable) w'
               else recordIdempotencyOutcome ''release_before_execution'' ''released'' w')"

section \<open>What Redis promises\<close>

definition redis_laws :: "('x obs_scheme) redis \<Rightarrow> bool" where
  "redis_laws R \<longleftrightarrow>
     (\<forall>k v ttl s. (rd_get R k s = None \<longrightarrow>
          fst (rd_set_nx R k v ttl s) \<and> rd_get R k (snd (rd_set_nx R k v ttl s)) = Some v
          \<and> (\<forall>k'. k' \<noteq> k \<longrightarrow> rd_get R k' (snd (rd_set_nx R k v ttl s)) = rd_get R k' s))
        \<and> (rd_get R k s \<noteq> None \<longrightarrow>
          \<not> fst (rd_set_nx R k v ttl s) \<and> (\<forall>k'. rd_get R k' (snd (rd_set_nx R k v ttl s)) = rd_get R k' s)))
     \<and> (\<forall>k v ttl s. rd_get R k s \<noteq> None \<longrightarrow> rd_get R k (rd_set_xx R k v ttl s) = Some v
          \<and> (\<forall>k'. k' \<noteq> k \<longrightarrow> rd_get R k' (rd_set_xx R k v ttl s) = rd_get R k' s))
     \<and> (\<forall>k s. rd_get R k s \<noteq> None \<longrightarrow> fst (rd_del R k s) = 1 \<and> rd_get R k (snd (rd_del R k s)) = None
          \<and> (\<forall>k'. k' \<noteq> k \<longrightarrow> rd_get R k' (snd (rd_del R k s)) = rd_get R k' s))
     \<and> (\<forall>k m s. rd_get R k (log_metric m s) = rd_get R k s)"

lemma redis_set_nx_free:
  "redis_laws R \<Longrightarrow> rd_get R k s = None \<Longrightarrow> rd_set_nx R k v ttl s = (b, s') \<Longrightarrow>
   b \<and> rd_get R k s' = Some v \<and> (\<forall>k'. k' \<noteq> k \<longrightarrow> rd_get R k' s' = rd_get R k' s)"
  unfolding redis_laws_def by (metis fst_conv snd_conv)

lemma redis_set_nx_taken:
  "redis_laws R \<Longrightarrow> rd_get R k s \<noteq> None \<Longrightarrow> rd_set_nx R k v ttl s = (b, s') \<Longrightarrow>
   \<not> b \<and> (\<forall>k'. rd_get R k' s' = rd_get R k' s)"
  unfolding redis_laws_def by (metis fst_conv snd_conv)

lemma redis_set_xx:
  "redis_laws R \<Longrightarrow> rd_get R k s \<noteq> None \<Longrightarrow> rd_get R k (rd_set_xx R k v ttl s) = Some v
     \<and> (\<forall>k'. k' \<noteq> k \<longrightarrow> rd_get R k' (rd_set_xx R k v ttl s) = rd_get R k' s)"
  unfolding redis_laws_def by blast

lemma redis_del:
  "redis_laws R \<Longrightarrow> rd_get R k s \<noteq> None \<Longrightarrow> rd_del R k s = (n, s') \<Longrightarrow>
   n = 1 \<and> rd_get R k s' = None \<and> (\<forall>k'. k' \<noteq> k \<longrightarrow> rd_get R k' s' = rd_get R k' s)"
  unfolding redis_laws_def by (metis fst_conv snd_conv)

lemma redis_log: "redis_laws R \<Longrightarrow> rd_get R k (log_metric m s) = rd_get R k s"
  by (simp add: redis_laws_def)

section \<open>The scripts on the store\<close>

lemma reserve_script:
  assumes "redis_laws R" and "RESERVE_SCRIPT R key rec ttl s = (res, s')"
  shows "rd_get R key s = None \<Longrightarrow> res = LuaText RtReserved \<and> rd_get R key s' = Some rec
      \<and> (\<forall>k. k \<noteq> key \<longrightarrow> rd_get R k s' = rd_get R k s)"
    and "rd_get R key s = Some t \<Longrightarrow> res = LuaText t \<and> (\<forall>k. rd_get R k s' = rd_get R k s)"
proof -
  obtain b s1 where nx: "rd_set_nx R key rec ttl s = (b, s1)" by fastforce
  show "rd_get R key s = None \<Longrightarrow> res = LuaText RtReserved \<and> rd_get R key s' = Some rec
      \<and> (\<forall>k. k \<noteq> key \<longrightarrow> rd_get R k s' = rd_get R k s)"
    using redis_set_nx_free [OF assms(1) _ nx] assms(2) nx by (simp add: RESERVE_SCRIPT_def)
  show "rd_get R key s = Some t \<Longrightarrow> res = LuaText t \<and> (\<forall>k. rd_get R k s' = rd_get R k s)"
    using redis_set_nx_taken [OF assms(1) _ nx] assms(2) nx by (simp add: RESERVE_SCRIPT_def)
qed

text \<open>The two other scripts touch the key only while it holds a processing record of the caller.\<close>

definition holds_for :: "('x obs_scheme) redis \<Rightarrow> string \<Rightarrow> string \<Rightarrow> 'x obs_scheme \<Rightarrow> bool" where
  "holds_for R key rid s \<longleftrightarrow> (\<exists>t d. rd_get R key s = Some t \<and> cjson_decode t = Some d \<and> owned_processing rid d)"

lemma complete_script:
  assumes "redis_laws R" and "COMPLETE_SCRIPT R key rid rec ttl s = (res, s')"
  shows "if holds_for R key rid s
     then res = LuaInt 1 \<and> rd_get R key s' = Some rec \<and> (\<forall>k. k \<noteq> key \<longrightarrow> rd_get R k s' = rd_get R k s)
     else res \<noteq> LuaInt 1 \<and> s' = s"
  using assms(2) redis_set_xx [OF assms(1), of key s rec ttl]
  by (auto simp: COMPLETE_SCRIPT_def holds_for_def split: option.splits if_splits)

lemma release_script:
  assumes "redis_laws R" and "RELEASE_SCRIPT R key rid s = (res, s')"
  shows "if holds_for R key rid s
     then res = LuaInt 1 \<and> rd_get R key s' = None \<and> (\<forall>k. k \<noteq> key \<longrightarrow> rd_get R k s' = rd_get R k s)
     else res \<noteq> LuaInt 1 \<and> s' = s"
proof (cases "holds_for R key rid s")
  case True
  then obtain t d where t: "rd_get R key s = Some t" "cjson_decode t = Some d" "owned_processing rid d"
    by (auto simp: holds_for_def)
  obtain n s1 where "rd_del R key s = (n, s1)" by fastforce
  with redis_del [OF assms(1) _ this] t assms(2) True show ?thesis by (simp add: RELEASE_SCRIPT_def)
next
  case False
  with assms(2) show ?thesis
    by (auto simp: RELEASE_SCRIPT_def holds_for_def split: option.splits if_splits)
qed

lemma outcome_recorded:
  "(operation, oc) \<in> {(''reserve'', ''unavailable''), (''reserve'', ''fingerprint_mismatch''),
     (''reserve'', ''processing_duplicate''), (''reserve'', ''completed_duplicate''), (''reserve'', ''reserved''),
     (''mark_completed'', ''unavailable''), (''mark_completed'', ''completed''),
     (''release_before_execution'', ''unavailable''), (''release_before_execution'', ''released''),
     (''release_before_execution'', ''release_refused_after_provider_start'')} \<Longrightarrow>
   recordIdempotencyOutcome operation oc w
     = (Inr (), log_metric (MInc ''idempotencyOperationsTotal'' [operation, oc]) w)"
  by (auto simp: recordIdempotencyOutcome_def requireApprovedMetricLabel_def
      approved_idempotencyOperations_def approved_idempotencyOutcomes_def)

section \<open>What a reservation attempt returns\<close>

text \<open>The answer that the stored value calls for, for a request with fingerprint \<open>fp\<close>.\<close>

definition reserve_answer :: "string \<Rightarrow> redis_text option \<Rightarrow> exn option" where
  "reserve_answer fp stored =
     (case stored of
        None \<Rightarrow> None
      | Some RtReserved \<Rightarrow> None
      | Some (RtOther d) \<Rightarrow> Some idempotencyUnavailable
      | Some (RtRecord r) \<Rightarrow>
          Some (if ir_requestFingerprint r \<noteq> fp
                then app_exn 409 ''DUPLICATE_REQUEST'' ''This client request ID is already associated with another request.''
                else if ir_status r = PROCESSING
                then app_exn 409 ''REQUEST_IN_PROGRESS'' ''This request is already processing.''
                else app_exn 409 ''DUPLICATE_REQUEST'' ''This request has already completed.''))"

abbreviation idem_key :: "('x obs_scheme) idem_env \<Rightarrow> IdempotencyInput \<Rightarrow> string" where
  "idem_key env inp \<equiv> deriveIdempotencyKey (ie_hmac env) inp"

definition processing_record :: "string \<Rightarrow> IdempotencyInput \<Rightarrow> IdempotencyRecord" where
  "processing_record t inp = \<lparr>ir_status = PROCESSING, ir_requestId = ii_requestId inp,
     ir_requestFingerprint = ii_requestFingerprint inp, ir_at = t\<rparr>"

definition reservation_of :: "string \<Rightarrow> IdempotencyInput \<Rightarrow> IdempotencyReservation" where
  "reservation_of key inp = \<lparr>rs_key = key, rs_requestId = ii_requestId inp,
     rs_fingerprint = ii_requestFingerprint inp, rs_providerExecutionStarted = False\<rparr>"

lemma reserve_link_up:
  assumes "is_fingerprint (ii_requestFingerprint inp)" and "ii_requestId inp \<noteq> []"
    and "rd_link (ie_redis env) w = LinkUp"
    and "RESERVE_SCRIPT (ie_redis env) (idem_key env inp) (RtRecord (processing_record (ie_now env w) inp))
           (ie_processingTtl env) w = (res, w1)"
  shows "\<exists>m. reserve env inp w =
     ((if res = LuaText RtReserved then Inr (reservation_of (idem_key env inp) inp)
       else case res of LuaText t \<Rightarrow> Inl (the (reserve_answer (ii_requestFingerprint inp) (Some t)))
                      | _ \<Rightarrow> Inl idempotencyUnavailable), log_metric m w1)"
proof -
  have ev: "evaluate (ie_redis env) (RESERVE_SCRIPT (ie_redis env) (idem_key env inp)
      (RtRecord (processing_record (ie_now env w) inp)) (ie_processingTtl env)) w = (Inr res, w1)"
    using assms(3,4) by (simp add: evaluate_def)
  have ser: "serializeRecord (processing_record (ie_now env w) inp)
      = Inr (RtRecord (processing_record (ie_now env w) inp))"
    using assms(1,2) by (simp add: serializeRecord_def processing_record_def)
  note run = reserve_def Let_def ser [unfolded processing_record_def] ev [unfolded processing_record_def]
    act_then_apply outcome_recorded assms(1)
  show ?thesis
  proof (cases "res = LuaText RtReserved")
    case True
    then show ?thesis by (auto simp: run reservation_of_def)
  next
    case False
    show ?thesis
    proof (cases res)
      case (LuaText t)
      with False show ?thesis
        by (cases t) (auto simp: run reserve_answer_def requestFingerprintsMatch_def)
    qed (use False in \<open>auto simp: run\<close>)
  qed
qed

text \<open>
  With a reachable store, a reservation attempt is decided by what the key holds: a free key is
  taken and holds the processing record of the request; a key of the same request that is still
  processing, of the same request that completed, of another request under the same client request
  id, and of unreadable content each give their own error. A refused attempt leaves the store as it
  was, and other keys never change.
\<close>

theorem reserve_decided_by_store:
  assumes "redis_laws (ie_redis env)" and "is_fingerprint (ii_requestFingerprint inp)" and "ii_requestId inp \<noteq> []"
    and "rd_link (ie_redis env) w = LinkUp" and "reserve env inp w = (r, w')"
  shows "case rd_get (ie_redis env) (idem_key env inp) w of
      None \<Rightarrow> r = Inr (reservation_of (idem_key env inp) inp)
        \<and> rd_get (ie_redis env) (idem_key env inp) w' = Some (RtRecord (processing_record (ie_now env w) inp))
        \<and> (\<forall>k. k \<noteq> idem_key env inp \<longrightarrow> rd_get (ie_redis env) k w' = rd_get (ie_redis env) k w)
    | Some t \<Rightarrow> (case reserve_answer (ii_requestFingerprint inp) (Some t) of
          None \<Rightarrow> t = RtReserved
        | Some e \<Rightarrow> r = Inl e \<and> (\<forall>k. rd_get (ie_redis env) k w' = rd_get (ie_redis env) k w))"
proof -
  obtain res w1 where sc: "RESERVE_SCRIPT (ie_redis env) (idem_key env inp)
      (RtRecord (processing_record (ie_now env w) inp)) (ie_processingTtl env) w = (res, w1)" by fastforce
  from reserve_link_up [OF assms(2-4) sc] assms(5) obtain m where
    m: "w' = log_metric m w1" "r = (if res = LuaText RtReserved then Inr (reservation_of (idem_key env inp) inp)
       else case res of LuaText t \<Rightarrow> Inl (the (reserve_answer (ii_requestFingerprint inp) (Some t)))
                      | _ \<Rightarrow> Inl idempotencyUnavailable)" by auto
  show ?thesis
  proof (cases "rd_get (ie_redis env) (idem_key env inp) w")
    case None
    with reserve_script(1) [OF assms(1) sc] m show ?thesis by (simp add: redis_log [OF assms(1)])
  next
    case (Some t)
    from reserve_script(2) [OF assms(1) sc Some] m Some show ?thesis
      by (cases t) (auto simp: redis_log [OF assms(1)] reserve_answer_def)
  qed
qed

section \<open>Mutual exclusion\<close>

text \<open>
  Requests that share a key, as they interleave. In a configuration \<open>(w, H, E)\<close> the set \<open>H\<close> holds the
  request ids with a reservation that is neither ended nor expired, and \<open>E\<close> those whose key expired
  while they were still running. A request ends by completing or releasing, whether that call succeeds
  or not, and also when its key expired before. When the key expires, every reservation on it lapses.
  \<open>other\<close> is anything that leaves the key alone. Request ids are drawn fresh for every request.
\<close>

inductive idem_step ::
  "('x obs_scheme) idem_env \<Rightarrow> string \<Rightarrow> 'x obs_scheme \<times> string set \<times> string set \<Rightarrow>
   'x obs_scheme \<times> string set \<times> string set \<Rightarrow> bool"
  for env key where
  reserved: "idem_key env inp = key \<Longrightarrow> reserve env inp w = (Inr rs, w') \<Longrightarrow> ii_requestId inp \<notin> H \<union> E \<Longrightarrow>
     idem_step env key (w, H, E) (w', insert (ii_requestId inp) H, E)"
| refused: "idem_key env inp = key \<Longrightarrow> reserve env inp w = (Inl e, w') \<Longrightarrow> ii_requestId inp \<notin> H \<union> E \<Longrightarrow>
     idem_step env key (w, H, E) (w', H, E)"
| completed: "rid \<in> H \<union> E \<Longrightarrow> rs_key rs = key \<Longrightarrow> rs_requestId rs = rid \<Longrightarrow> markCompleted env rs w = (r, w') \<Longrightarrow>
     idem_step env key (w, H, E) (w', H - {rid}, E - {rid})"
| released: "rid \<in> H \<union> E \<Longrightarrow> rs_key rs = key \<Longrightarrow> rs_requestId rs = rid \<Longrightarrow>
     releaseBeforeExecution env rs w = (r, w') \<Longrightarrow> idem_step env key (w, H, E) (w', H - {rid}, E - {rid})"
| expired: "rd_get (ie_redis env) key w' = None \<Longrightarrow> idem_step env key (w, H, E) (w', {}, H \<union> E)"
| other: "rd_get (ie_redis env) key w' = rd_get (ie_redis env) key w \<Longrightarrow> idem_step env key (w, H, E) (w', H, E)"

inductive idem_reachable ::
  "('x obs_scheme) idem_env \<Rightarrow> string \<Rightarrow> 'x obs_scheme \<times> string set \<times> string set \<Rightarrow> bool" for env key where
  idem_start: "rd_get (ie_redis env) key w \<noteq> Some RtReserved \<Longrightarrow> idem_reachable env key (w, {}, {})"
| idem_next: "idem_reachable env key c \<Longrightarrow> idem_step env key c c' \<Longrightarrow> idem_reachable env key c'"

definition exclusive :: "('x obs_scheme) idem_env \<Rightarrow> string \<Rightarrow> 'x obs_scheme \<times> string set \<times> string set \<Rightarrow> bool" where
  "exclusive env key c \<longleftrightarrow> (case c of (w, H, E) \<Rightarrow>
     (\<forall>rid \<in> H. \<exists>rec. rd_get (ie_redis env) key w = Some (RtRecord rec)
        \<and> ir_status rec = PROCESSING \<and> ir_requestId rec = rid)
     \<and> H \<inter> E = {} \<and> rd_get (ie_redis env) key w \<noteq> Some RtReserved)"

lemma evaluate_effect:
  assumes "evaluate R script w = (r, w1)"
  shows "w1 = w \<and> (\<exists>e. r = Inl e) \<or> w1 = snd (script w) \<and> ((\<exists>e. r = Inl e) \<or> r = Inr (fst (script w)))"
  using assms by (auto simp: evaluate_def split: link_outcome.splits prod.splits)

text \<open>What each operation may do to the key.\<close>

lemma reserve_effect:
  assumes laws: "redis_laws (ie_redis env)" and run: "reserve env inp w = (r, w')"
  defines "R \<equiv> ie_redis env" and "key \<equiv> idem_key env inp"
  shows "(rd_get R key w' = rd_get R key w
          \<or> rd_get R key w = None \<and> rd_get R key w' = Some (RtRecord (processing_record (ie_now env w) inp)))
    \<and> (\<forall>rs. r = Inr rs \<longrightarrow> rd_get R key w = Some RtReserved
         \<or> rd_get R key w = None \<and> rd_get R key w' = Some (RtRecord (processing_record (ie_now env w) inp)))"
proof (cases "is_fingerprint (ii_requestFingerprint inp) \<and> ii_requestId inp \<noteq> []")
  case False
  with run have "w' = w \<and> r = Inl zod_error"
    by (cases "is_fingerprint (ii_requestFingerprint inp)") (auto simp: reserve_def Let_def serializeRecord_def)
  then show ?thesis by simp
next
  case True
  let ?rec = "RtRecord (processing_record (ie_now env w) inp)"
  let ?script = "RESERVE_SCRIPT R key ?rec (ie_processingTtl env)"
  obtain res w1 where sc: "?script w = (res, w1)" by fastforce
  note eff = reserve_script [OF laws sc [unfolded R_def]]
  have st: "rd_get R key w1 = rd_get R key w \<or> rd_get R key w = None \<and> rd_get R key w1 = Some ?rec"
    using eff by (cases "rd_get R key w") (auto simp: R_def)
  show ?thesis
  proof (cases "rd_link R w")
    case LinkUp
    from reserve_link_up [OF _ _ LinkUp [unfolded R_def] sc [unfolded R_def key_def]] True run obtain m where
      w': "w' = log_metric m w1" and r: "(\<exists>rs. r = Inr rs) \<longrightarrow> res = LuaText RtReserved"
      by (auto split: if_splits lua_result.splits)
    have "rd_get R key w = Some RtReserved \<or> rd_get R key w = None \<and> rd_get R key w1 = Some ?rec"
      if "res = LuaText RtReserved"
      using eff that by (cases "rd_get R key w") (auto simp: R_def)
    with st r show ?thesis by (auto simp: w' R_def redis_log [OF laws])
  next
    case LinkDown
    with run True show ?thesis
      by (auto simp: reserve_def Let_def serializeRecord_def evaluate_def R_def act_then_apply outcome_recorded
          redis_log [OF laws])
  next
    case ReplyLost
    with run True sc have "\<exists>m e. w' = log_metric m w1 \<and> r = Inl e"
      by (auto simp: reserve_def Let_def serializeRecord_def evaluate_def R_def key_def act_then_apply
          outcome_recorded processing_record_def)
    with st show ?thesis by (auto simp: R_def redis_log [OF laws])
  qed
qed

lemma markCompleted_effect:
  assumes laws: "redis_laws (ie_redis env)" and run: "markCompleted env rs w = (r, w')"
  shows "rd_get (ie_redis env) (rs_key rs) w' = rd_get (ie_redis env) (rs_key rs) w
    \<or> holds_for (ie_redis env) (rs_key rs) (rs_requestId rs) w
      \<and> (\<exists>rec. rd_get (ie_redis env) (rs_key rs) w' = Some (RtRecord rec) \<and> ir_status rec = COMPLETED)"
proof -
  let ?R = "ie_redis env" and ?k = "rs_key rs" and ?rid = "rs_requestId rs"
  define rec where "rec = \<lparr>ir_status = COMPLETED, ir_requestId = ?rid,
             ir_requestFingerprint = rs_fingerprint rs, ir_at = ie_now env w\<rparr>"
  show ?thesis
  proof (cases "serializeRecord rec")
    case (Inl e)
    with run show ?thesis by (simp add: markCompleted_def rec_def)
  next
    case (Inr t)
    then have t: "t = RtRecord rec" by (simp add: serializeRecord_def split: if_splits)
    obtain res w1 where ev: "evaluate ?R (COMPLETE_SCRIPT ?R ?k ?rid t (ie_completedTtl env)) w = (res, w1)"
      by fastforce
    with run Inr have "\<exists>m. w' = log_metric m w1"
      by (auto simp: markCompleted_def rec_def act_then_apply outcome_recorded split: sum.splits if_splits)
    moreover obtain lr w2 where sc: "COMPLETE_SCRIPT ?R ?k ?rid t (ie_completedTtl env) w = (lr, w2)" by fastforce
    from evaluate_effect [OF ev] sc have "w1 = w \<or> w1 = w2" by auto
    ultimately show ?thesis
      using complete_script [OF laws sc] by (auto simp: redis_log [OF laws] t rec_def split: if_splits)
  qed
qed

lemma release_effect:
  assumes laws: "redis_laws (ie_redis env)" and run: "releaseBeforeExecution env rs w = (r, w')"
  shows "rd_get (ie_redis env) (rs_key rs) w' = rd_get (ie_redis env) (rs_key rs) w
    \<or> holds_for (ie_redis env) (rs_key rs) (rs_requestId rs) w
      \<and> \<not> rs_providerExecutionStarted rs \<and> rd_get (ie_redis env) (rs_key rs) w' = None"
proof (cases "rs_providerExecutionStarted rs")
  case True
  with run show ?thesis
    by (auto simp: releaseBeforeExecution_def act_then_apply outcome_recorded redis_log [OF laws])
next
  case False
  let ?R = "ie_redis env" and ?k = "rs_key rs" and ?rid = "rs_requestId rs"
  obtain res w1 where ev: "evaluate ?R (RELEASE_SCRIPT ?R ?k ?rid) w = (res, w1)" by fastforce
  with run False have "\<exists>m. w' = log_metric m w1"
    by (auto simp: releaseBeforeExecution_def act_then_apply outcome_recorded split: sum.splits if_splits)
  moreover obtain lr w2 where sc: "RELEASE_SCRIPT ?R ?k ?rid w = (lr, w2)" by fastforce
  from evaluate_effect [OF ev] sc have "w1 = w \<or> w1 = w2" by auto
  ultimately show ?thesis
    using release_script [OF laws sc] False by (auto simp: redis_log [OF laws] split: if_splits)
qed

lemma exclusive_record:
  "exclusive env key (w, H, E) \<Longrightarrow> a \<in> H \<Longrightarrow>
   \<exists>rec. rd_get (ie_redis env) key w = Some (RtRecord rec) \<and> ir_status rec = PROCESSING \<and> ir_requestId rec = a"
  by (simp add: exclusive_def)

lemma exclusive_holder: "exclusive env key (w, H, E) \<Longrightarrow> a \<in> H \<Longrightarrow> b \<in> H \<Longrightarrow> a = b"
  using exclusive_record [of env key w H E a] exclusive_record [of env key w H E b] by auto

lemma exclusive_holds_for:
  assumes "exclusive env key (w, H, E)" and "a \<in> H" and "holds_for (ie_redis env) key rid w"
  shows "rid = a"
proof -
  obtain rec where "rd_get (ie_redis env) key w = Some (RtRecord rec)" "ir_requestId rec = a"
    using exclusive_record [OF assms(1,2)] by blast
  then show ?thesis using assms(3) by (auto simp: holds_for_def owned_processing_def)
qed

lemma exclusive_unchanged:
  "exclusive env key (w, H, E) \<Longrightarrow> rd_get (ie_redis env) key w' = rd_get (ie_redis env) key w \<Longrightarrow>
   exclusive env key (w', H - A, E - A)"
  by (auto simp: exclusive_def)

text \<open>A request that ends: if it holds the key it is the only holder, otherwise the key stays.\<close>

lemma exclusive_ended:
  assumes ex: "exclusive env key (w, H, E)"
    and eff: "rd_get (ie_redis env) key w' = rd_get (ie_redis env) key w
      \<or> holds_for (ie_redis env) key rid w \<and> rd_get (ie_redis env) key w' \<noteq> Some RtReserved"
  shows "exclusive env key (w', H - {rid}, E - {rid})"
  using eff
proof
  assume h: "holds_for (ie_redis env) key rid w \<and> rd_get (ie_redis env) key w' \<noteq> Some RtReserved"
  then have "H - {rid} = {}" using exclusive_holds_for [OF ex] by blast
  then show ?thesis using h by (auto simp: exclusive_def)
qed (rule exclusive_unchanged [OF ex])

lemma exclusive_step:
  assumes "redis_laws (ie_redis env)" and "idem_step env key c c'" and "exclusive env key c"
  shows "exclusive env key c'"
  using assms(2)
proof (cases rule: idem_step.cases)
  case (reserved inp w rs w' H E)
  from reserve_effect [OF assms(1) reserved(4)] reserved assms(3) show ?thesis
    by (auto simp: exclusive_def processing_record_def)
next
  case (refused inp w e w' H E)
  from reserve_effect [OF assms(1) refused(4)] refused assms(3) show ?thesis
    by (auto simp: exclusive_def)
next
  case (completed rid H E rs w r w')
  show ?thesis unfolding completed(2)
    by (rule exclusive_ended [of env key w]) (use markCompleted_effect [OF assms(1) completed(6)] completed assms(3) in auto)
next
  case (released rid H E rs w r w')
  show ?thesis unfolding released(2)
    by (rule exclusive_ended [of env key w]) (use release_effect [OF assms(1) released(6)] released assms(3) in auto)
next
  case (expired w' w H E)
  then show ?thesis by (simp add: exclusive_def)
next
  case (other w' w H E)
  with assms(3) show ?thesis by (simp add: exclusive_def)
qed

lemma exclusive_reachable:
  "idem_reachable env key c \<Longrightarrow> redis_laws (ie_redis env) \<Longrightarrow> exclusive env key c"
proof (induction rule: idem_reachable.induct)
  case (idem_start w)
  then show ?case by (simp add: exclusive_def)
next
  case (idem_next c c')
  then show ?case using exclusive_step by blast
qed

text \<open>
  C25. At most one request at a time holds a reservation that has not expired: in every interleaving
  of reservations, completions, releases, lost connections and expiries of the key, also when a
  request whose reservation has expired completes or releases late, two unexpired holders are the
  same request, the key holds the processing record of that request, and it is none of the requests
  whose reservation expired. (After an expiry the former holder may still be running beside the new
  one; the processing lifetime has to exceed the run of a request.)
\<close>

theorem idempotency_mutual_exclusion:
  assumes "redis_laws (ie_redis env)" and "idem_reachable env key (w, H, E)"
  shows "(\<forall>a \<in> H. \<forall>b \<in> H. a = b) \<and> H \<inter> E = {}
    \<and> (\<forall>a \<in> H. \<exists>rec. rd_get (ie_redis env) key w = Some (RtRecord rec)
         \<and> ir_status rec = PROCESSING \<and> ir_requestId rec = a)"
proof -
  note ex = exclusive_reachable [OF assms(2,1)]
  from exclusive_holder [OF ex] ex show ?thesis by (simp add: exclusive_def)
qed

text \<open>
  A request can only end its own reservation: completing or releasing changes the key only while
  the key holds a processing record with the request id of the caller, so an expired reservation that
  another request took over is left alone; and after the provider was started a release changes
  nothing.
\<close>

theorem reservation_ownership:
  assumes "redis_laws (ie_redis env)" and "rd_get (ie_redis env) (rs_key rs) w = Some (RtRecord rec)"
    and "ir_status rec = COMPLETED \<or> ir_requestId rec \<noteq> rs_requestId rs"
  shows "rd_get (ie_redis env) (rs_key rs) (snd (markCompleted env rs w)) = Some (RtRecord rec)
    \<and> rd_get (ie_redis env) (rs_key rs) (snd (releaseBeforeExecution env rs w)) = Some (RtRecord rec)
    \<and> rd_get (ie_redis env) (rs_key rs) (snd (releaseBeforeExecution env (markProviderExecutionStarted rs) w))
        = Some (RtRecord rec)"
proof -
  have no: "\<not> holds_for (ie_redis env) (rs_key rs) (rs_requestId rs) w"
    using assms(2,3) by (auto simp: holds_for_def owned_processing_def)
  obtain r1 w1 r2 w2 r3 w3 where run: "markCompleted env rs w = (r1, w1)" "releaseBeforeExecution env rs w = (r2, w2)"
    "releaseBeforeExecution env (markProviderExecutionStarted rs) w = (r3, w3)" by (metis prod.exhaust)
  from markCompleted_effect [OF assms(1) run(1)] release_effect [OF assms(1) run(2)]
    release_effect [OF assms(1) run(3)] no assms(2) run show ?thesis
    by (simp add: markProviderExecutionStarted_def)
qed

section \<open>Keys and fingerprints separate requests\<close>

lemma split_at_NUL:
  "CHR 0x00 \<notin> set a \<Longrightarrow> CHR 0x00 \<notin> set a' \<Longrightarrow> a @ NUL @ r = a' @ NUL @ r' \<Longrightarrow> a = a' \<and> r = r'"
  by (induction a arbitrary: a') (auto simp: NUL_def Cons_eq_append_conv append_eq_Cons_conv)

text \<open>
  Idempotency keys separate tenants: for identifiers without NUL characters (they are UUIDs), two
  requests have the same key only when organisation, user and client request id all agree, or the
  keyed hash has a collision.
\<close>

theorem idempotency_key_separates:
  assumes "CHR 0x00 \<notin> set (ii_orgId a)" "CHR 0x00 \<notin> set (ii_userId a)"
    and "CHR 0x00 \<notin> set (ii_orgId b)" "CHR 0x00 \<notin> set (ii_userId b)"
    and "deriveIdempotencyKey hmac a = deriveIdempotencyKey hmac b"
  shows "(ii_orgId a = ii_orgId b \<and> ii_userId a = ii_userId b \<and> ii_clientRequestId a = ii_clientRequestId b)
    \<or> (\<exists>x y. x \<noteq> y \<and> hmac x = hmac y)"
proof -
  let ?m = "\<lambda>i. ''chat:idempotency'' @ NUL @ ii_orgId i @ NUL @ ii_userId i @ NUL @ ii_clientRequestId i"
  from assms(5) have "hmac (?m a) = hmac (?m b)" by (simp add: deriveIdempotencyKey_def)
  show ?thesis
  proof (cases "?m a = ?m b")
    case True
    then have "ii_orgId a @ NUL @ (ii_userId a @ NUL @ ii_clientRequestId a)
        = ii_orgId b @ NUL @ (ii_userId b @ NUL @ ii_clientRequestId b)" by (simp add: NUL_def)
    note o = split_at_NUL [OF assms(1,3) this]
    from split_at_NUL [OF assms(2,4) conjunct2 [OF o]] o show ?thesis by simp
  next
    case False
    with \<open>hmac (?m a) = hmac (?m b)\<close> show ?thesis by (intro disjI2 exI conjI)
  qed
qed

text \<open>JSON strings can be read back: no character's text is a prefix of another's, and none starts
  with the closing quote.\<close>

lemma json_char_quote: "json_char c \<noteq> [] \<and> hd (json_char c) \<noteq> CHR 0x22"
  by (simp add: json_char_def)

lemma hex_digit_inj: "i < 16 \<Longrightarrow> j < 16 \<Longrightarrow> hex_digit i = hex_digit j \<Longrightarrow> i = j"
  unfolding hex_digit_def by (simp add: numeral_eq_Suc less_Suc_eq) auto

lemma json_char_ctrl:
  "of_char c < (32 :: nat) \<Longrightarrow> c \<notin> {CHR 0x08, CHR 0x09, CHR 0x0A, CHR 0x0C, CHR 0x0D} \<Longrightarrow>
   json_char c = [CHR 0x5C, CHR ''u'', CHR ''0'', CHR ''0'', hex_digit (of_char c div 16), hex_digit (of_char c mod 16)]"
proof -
  assume lt: "of_char c < (32 :: nat)" and n: "c \<notin> {CHR 0x08, CHR 0x09, CHR 0x0A, CHR 0x0C, CHR 0x0D}"
  from lt have "c \<noteq> CHR 0x22" "c \<noteq> CHR 0x5C" by auto
  with lt n show ?thesis by (simp add: json_char_def)
qed

lemma json_char_cases:
  obtains (plain) "json_char c = [c]" "c \<noteq> CHR 0x5C"
  | (short) x where "json_char c = [CHR 0x5C, x]" "(c, x) \<in> {(CHR 0x22, CHR 0x22), (CHR 0x5C, CHR 0x5C),
      (CHR 0x08, CHR ''b''), (CHR 0x09, CHR ''t''), (CHR 0x0A, CHR ''n''), (CHR 0x0C, CHR ''f''), (CHR 0x0D, CHR ''r'')}"
  | (unicode) "json_char c = [CHR 0x5C, CHR ''u'', CHR ''0'', CHR ''0'', hex_digit (of_char c div 16), hex_digit (of_char c mod 16)]"
      "of_char c < (32 :: nat)"
proof (cases "c \<in> {CHR 0x22, CHR 0x5C, CHR 0x08, CHR 0x09, CHR 0x0A, CHR 0x0C, CHR 0x0D}")
  case True
  then show thesis using short by (auto simp: json_char_def)
next
  case False
  show thesis
  proof (cases "of_char c < (32 :: nat)")
    case True
    with False json_char_ctrl [OF True] show thesis by (intro unicode) auto
  next
    case lt: False
    with False show thesis by (intro plain) (auto simp: json_char_def)
  qed
qed

lemma json_char_inj:
  "json_char c @ r = json_char c' @ r' \<Longrightarrow> c = c' \<and> r = r'"
proof (cases c rule: json_char_cases; cases c' rule: json_char_cases)
  assume a: "json_char c @ r = json_char c' @ r'"
    and u: "json_char c = [CHR 0x5C, CHR ''u'', CHR ''0'', CHR ''0'', hex_digit (of_char c div 16), hex_digit (of_char c mod 16)]"
      "of_char c < (32 :: nat)"
    and u': "json_char c' = [CHR 0x5C, CHR ''u'', CHR ''0'', CHR ''0'', hex_digit (of_char c' div 16), hex_digit (of_char c' mod 16)]"
      "of_char c' < (32 :: nat)"
  have "hex_digit (of_char c div 16) = hex_digit (of_char c' div 16)"
    "hex_digit (of_char c mod 16) = hex_digit (of_char c' mod 16)" and r: "r = r'"
    using a unfolding u(1) u'(1) by auto
  then have "(of_char c :: nat) div 16 = of_char c' div 16" "(of_char c :: nat) mod 16 = of_char c' mod 16"
    using u(2) u'(2) by (intro hex_digit_inj; simp)+
  then have "(of_char c :: nat) = of_char c'" by (metis div_mult_mod_eq)
  with r show ?thesis by simp
qed auto

lemma json_string_prefix: "json_string s @ r = json_string s' @ r' \<Longrightarrow> s = s' \<and> r = r'"
proof -
  have core: "concat (map json_char s) @ CHR 0x22 # r = concat (map json_char s') @ CHR 0x22 # r' \<Longrightarrow> s = s' \<and> r = r'"
  proof (induction s arbitrary: s')
    case Nil
    then show ?case
    proof (cases s')
      case (Cons c cs)
      with Nil json_char_quote [of c] show ?thesis by (cases "json_char c") auto
    qed simp
  next
    case (Cons c cs)
    show ?case
    proof (cases s')
      case Nil
      with Cons.prems json_char_quote [of c] show ?thesis by (cases "json_char c") auto
    next
      case (Cons d ds)
      with Cons.prems json_char_inj [of c "concat (map json_char cs) @ CHR 0x22 # r" d] Cons.IH [of ds]
      show ?thesis by auto
    qed
  qed
  assume "json_string s @ r = json_string s' @ r'"
  then show ?thesis by (intro core) (simp add: json_string_def)
qed

text \<open>
  A client request id cannot be reused for different content: two requests have the same
  fingerprint only when conversation, routing mode, provider and prompt all agree, or the keyed hash
  has a collision.
\<close>

theorem request_fingerprint_binds_content:
  assumes "createIdempotencyRequestFingerprint hmac a = createIdempotencyRequestFingerprint hmac b"
  shows "a = b \<or> (\<exists>x y. x \<noteq> y \<and> hmac x = hmac y)"
proof (cases "inj hmac")
  case False
  then show ?thesis by (auto simp: inj_def)
next
  case True
  then have h: "hmac x = hmac y \<longleftrightarrow> x = y" for x y by (auto simp: inj_def)
  let ?fp = "\<lambda>i. createOpaqueHmac hmac ''chat:idempotency:prompt'' (fi_prompt i)"
  let ?prov = "\<lambda>i. case fi_providerId i of None \<Rightarrow> ''null'' | Some p \<Rightarrow> json_string p"
  from assms have eq: "json_string (fi_conversationId a) @ '','' @ json_string (routing_text (fi_routingMode a)) @ '',''
      @ ?prov a @ '','' @ json_string (?fp a) @ '']''
    = json_string (fi_conversationId b) @ '','' @ json_string (routing_text (fi_routingMode b)) @ '',''
      @ ?prov b @ '','' @ json_string (?fp b) @ '']''"
    by (simp add: createIdempotencyRequestFingerprint_def Let_def createOpaqueHmac_def h NUL_def)
  from json_string_prefix [OF this] have c: "fi_conversationId a = fi_conversationId b"
    and eq2: "json_string (routing_text (fi_routingMode a)) @ '','' @ ?prov a @ '','' @ json_string (?fp a) @ '']''
      = json_string (routing_text (fi_routingMode b)) @ '','' @ ?prov b @ '','' @ json_string (?fp b) @ '']''"
    by simp_all
  from json_string_prefix [OF eq2] have m: "fi_routingMode a = fi_routingMode b"
    and eq3: "?prov a @ '','' @ json_string (?fp a) @ '']'' = ?prov b @ '','' @ json_string (?fp b) @ '']''"
    by (cases "fi_routingMode a"; cases "fi_routingMode b"; simp)+
  have p: "fi_providerId a = fi_providerId b \<and> '','' @ json_string (?fp a) @ '']'' = '','' @ json_string (?fp b) @ '']''"
  proof (cases "fi_providerId a"; cases "fi_providerId b")
    fix x y
    assume xy: "fi_providerId a = Some x" "fi_providerId b = Some y"
    with json_string_prefix [of x "'','' @ json_string (?fp a) @ '']''" y "'','' @ json_string (?fp b) @ '']''"] eq3
    show ?thesis by simp
  qed (use eq3 in \<open>simp_all add: json_string_def\<close>)
  from p have "json_string (?fp a) @ '']'' = json_string (?fp b) @ '']''" by simp
  from json_string_prefix [OF this] have "fi_prompt a = fi_prompt b"
    by (simp add: createOpaqueHmac_def h)
  with c m p show ?thesis by (simp add: IdempotencyRequestFingerprintInput.equality)
qed

section \<open>A store in memory\<close>

record mem_world = obs +
  mw_store :: "string \<Rightarrow> redis_text option"

definition mem_redis :: "mem_world redis" where
  "mem_redis = \<lparr>rd_get = (\<lambda>k s. mw_store s k),
     rd_set_nx = (\<lambda>k v ttl s. if mw_store s k = None then (True, s\<lparr>mw_store := (mw_store s)(k := Some v)\<rparr>) else (False, s)),
     rd_set_xx = (\<lambda>k v ttl s. if mw_store s k = None then s else s\<lparr>mw_store := (mw_store s)(k := Some v)\<rparr>),
     rd_del = (\<lambda>k s. if mw_store s k = None then (0, s) else (1, s\<lparr>mw_store := (mw_store s)(k := None)\<rparr>)),
     rd_link = (\<lambda>_. LinkUp)\<rparr>"

lemma mem_redis_laws: "redis_laws mem_redis"
  by (simp add: redis_laws_def mem_redis_def log_metric_def)

definition mem_env :: "mem_world idem_env" where
  "mem_env = \<lparr>ie_redis = mem_redis, ie_hmac = id, ie_now = (\<lambda>_. ''2026-01-01T00:00:00.000Z''),
     ie_processingTtl = 900, ie_completedTtl = 86400\<rparr>"

definition mem_input :: IdempotencyInput where
  "mem_input = \<lparr>ii_orgId = ''o'', ii_userId = ''u'', ii_clientRequestId = ''c'', ii_requestId = ''r1'',
     ii_requestFingerprint = replicate 64 CHR ''a''\<rparr>"

definition mem_empty :: mem_world where
  "mem_empty = \<lparr>metric_ops = [], mw_store = Map.empty\<rparr>"

definition mem_reserved :: mem_world where
  "mem_reserved = snd (reserve mem_env mem_input mem_empty)"

lemma mem_facts: "ie_redis mem_env = mem_redis" "is_fingerprint (ii_requestFingerprint mem_input)"
  "ii_requestId mem_input \<noteq> []" "rd_link mem_redis w = LinkUp" "rd_get mem_redis k mem_empty = None"
  by (simp_all add: mem_env_def mem_input_def is_fingerprint_def mem_redis_def mem_empty_def)

theorem reserve_decided_by_store_witness:
  "reserve mem_env mem_input mem_empty = (Inr (reservation_of (idem_key mem_env mem_input) mem_input), mem_reserved)
   \<and> rd_get mem_redis (idem_key mem_env mem_input) mem_reserved
       = Some (RtRecord (processing_record (ie_now mem_env mem_empty) mem_input))"
proof -
  obtain r where r: "reserve mem_env mem_input mem_empty = (r, mem_reserved)"
    unfolding mem_reserved_def by (metis prod.collapse)
  from reserve_decided_by_store [of mem_env mem_input mem_empty, OF _ mem_facts(2,3) _ r] mem_redis_laws
  show ?thesis using r by (simp add: mem_facts)
qed

text \<open>The first request reserves, its key expires, and a second request takes the key over.\<close>

definition mem_second :: IdempotencyInput where
  "mem_second = mem_input\<lparr>ii_requestId := ''r2''\<rparr>"

definition mem_taken_over :: mem_world where
  "mem_taken_over = snd (reserve mem_env mem_second mem_empty)"

lemma mem_reserve:
  assumes "inp = mem_input \<or> inp = mem_second"
  obtains rs where "reserve mem_env inp mem_empty = (Inr rs, snd (reserve mem_env inp mem_empty))"
proof -
  obtain r w where r: "reserve mem_env inp mem_empty = (r, w)" by fastforce
  have inp: "is_fingerprint (ii_requestFingerprint inp)" "ii_requestId inp \<noteq> []"
    using assms mem_facts(2,3) by (auto simp: mem_second_def)
  obtain res w1 where sc: "RESERVE_SCRIPT (ie_redis mem_env) (idem_key mem_env inp)
      (RtRecord (processing_record (ie_now mem_env mem_empty) inp)) (ie_processingTtl mem_env) mem_empty = (res, w1)"
    by fastforce
  have "res = LuaText RtReserved"
    using reserve_script(1) [OF _ sc] mem_redis_laws by (simp add: mem_facts)
  with reserve_link_up [OF inp _ sc] r obtain rs where "r = Inr rs" by (auto simp: mem_facts)
  with r show thesis by (intro that) simp
qed

lemma mem_taken_over_reachable:
  "idem_reachable mem_env (idem_key mem_env mem_input) (mem_taken_over, {''r2''}, {''r1''})"
proof -
  let ?k = "idem_key mem_env mem_input"
  have k: "idem_key mem_env mem_second = ?k" by (simp add: mem_second_def deriveIdempotencyKey_def)
  have "idem_reachable mem_env ?k (mem_empty, {}, {})" by (rule idem_start) (simp add: mem_facts)
  moreover have "idem_step mem_env ?k (mem_empty, {}, {}) (mem_reserved, insert (ii_requestId mem_input) {}, {})"
    unfolding mem_reserved_def by (rule mem_reserve [OF disjI1 [OF refl]]) (rule idem_step.reserved, simp_all)
  moreover have "idem_step mem_env ?k (mem_reserved, insert (ii_requestId mem_input) {}, {}) (mem_empty, {}, insert (ii_requestId mem_input) {} \<union> {})"
    by (rule idem_step.expired) (simp add: mem_facts)
  moreover have "idem_step mem_env ?k (mem_empty, {}, insert (ii_requestId mem_input) {} \<union> {})
      (mem_taken_over, insert (ii_requestId mem_second) {}, insert (ii_requestId mem_input) {} \<union> {})"
    unfolding mem_taken_over_def
    by (rule mem_reserve [OF disjI2 [OF refl]]) (rule idem_step.reserved, use k in \<open>simp_all add: mem_second_def mem_input_def\<close>)
  ultimately have "idem_reachable mem_env ?k (mem_taken_over, insert (ii_requestId mem_second) {}, insert (ii_requestId mem_input) {} \<union> {})"
    using idem_next by blast
  then show ?thesis by (simp add: mem_second_def mem_input_def)
qed

theorem idempotency_mutual_exclusion_witness:
  "\<exists>rec. rd_get mem_redis (idem_key mem_env mem_input) mem_taken_over = Some (RtRecord rec)
     \<and> ir_status rec = PROCESSING \<and> ir_requestId rec = ''r2''"
  using idempotency_mutual_exclusion [OF _ mem_taken_over_reachable] mem_redis_laws by (simp add: mem_facts)

definition mem_done :: mem_world where
  "mem_done = mem_empty\<lparr>mw_store := [''k'' \<mapsto> RtRecord \<lparr>ir_status = COMPLETED, ir_requestId = ''r0'',
     ir_requestFingerprint = replicate 64 CHR ''a'', ir_at = ''t''\<rparr>]\<rparr>"

theorem reservation_ownership_witness:
  "mw_store (snd (markCompleted mem_env (reservation_of ''k'' mem_input) mem_done)) ''k'' = mw_store mem_done ''k''"
proof -
  have g: "rd_get (ie_redis mem_env) k w = mw_store w k" for k w by (simp add: mem_env_def mem_redis_def)
  have key: "rs_key (reservation_of ''k'' mem_input) = ''k''" by (simp add: reservation_of_def)
  have st: "mw_store mem_done ''k'' = Some (RtRecord \<lparr>ir_status = COMPLETED, ir_requestId = ''r0'',
     ir_requestFingerprint = replicate 64 CHR ''a'', ir_at = ''t''\<rparr>)" by (simp add: mem_done_def)
  from reservation_ownership [of mem_env "reservation_of ''k'' mem_input" mem_done, unfolded g key, OF _ st]
  show ?thesis using mem_redis_laws st by (simp add: mem_facts)
qed

theorem idempotency_key_separates_witness:
  "ii_orgId mem_input = ii_orgId (mem_input\<lparr>ii_requestId := ''r2''\<rparr>)
   \<or> (\<exists>x y. x \<noteq> y \<and> id x = (id y :: string))"
  using idempotency_key_separates [of mem_input "mem_input\<lparr>ii_requestId := ''r2''\<rparr>" id]
  by (simp add: mem_input_def deriveIdempotencyKey_def)

definition mem_request :: IdempotencyRequestFingerprintInput where
  "mem_request = \<lparr>fi_conversationId = ''c'', fi_prompt = ''hi'', fi_routingMode = auto, fi_providerId = None\<rparr>"

theorem request_fingerprint_binds_content_witness:
  "createIdempotencyRequestFingerprint id mem_request = createIdempotencyRequestFingerprint id mem_request
   \<and> (mem_request = mem_request \<or> (\<exists>x y. x \<noteq> y \<and> id x = (id y :: string)))"
  using request_fingerprint_binds_content [of id mem_request mem_request] by simp

end
