(* ===== verification/Jobs.thy ===== *)
theory Jobs
  imports Policy Idempotency
begin

text \<open>
  The records that the chat pipeline hands to accounting, queues and recovery:
  \<^verbatim>\<open>shared/async/job-contract.ts\<close>, \<^verbatim>\<open>billing/billing.types.ts\<close> and
  \<^verbatim>\<open>recovery/enqueue-recovery.repository.ts\<close>.
\<close>

datatype RequestOutcomeStatus = st_COMPLETED | st_FAILED | st_INTERRUPTED | st_BLOCKED

definition ASYNC_JOB_SCHEMA_VERSION :: nat where "ASYNC_JOB_SCHEMA_VERSION = 1"
definition REQUEST_COMPLETED_JOB_TYPE :: string where "REQUEST_COMPLETED_JOB_TYPE = ''request.completed''"
definition REQUEST_BLOCKED_JOB_TYPE :: string where "REQUEST_BLOCKED_JOB_TYPE = ''request.blocked''"

record NewRequestUsageRecord =
  nu_requestId :: string
  nu_orgId :: string
  nu_userId :: string
  nu_status :: RequestOutcomeStatus
  nu_policyAction :: PolicyAction
  nu_providerId :: "ProviderId option"
  nu_model :: "string option"
  nu_usage :: "TokenUsage option"

record RequestOutcomeJob =
  jb_schemaVersion :: nat
  jb_jobType :: string
  jb_requestId :: string
  jb_orgId :: string
  jb_userId :: string
  jb_status :: RequestOutcomeStatus
  jb_policyAction :: PolicyAction
  jb_providerId :: "ProviderId option"
  jb_model :: "string option"
  jb_usage :: "TokenUsage option"
  jb_occurredAt :: string

datatype EnqueueRecoveryQueueName = billing_queue | analytics_queue

record EnqueueRecoveryScope =
  sc_orgId :: string
  sc_requestId :: string
  sc_queueName :: EnqueueRecoveryQueueName
  sc_jobType :: string

datatype OrganisationPlan = FREE | PRO | ENTERPRISE

datatype RetentionMode = METADATA_ONLY | ENCRYPTED_STORAGE

end
