(* ===== verification/Encoding.thy ===== *)
theory Encoding
  imports JsRegex
begin

text \<open>
  The conversions of \<^verbatim>\<open>Buffer\<close> that the program uses: UTF-8 (\<^verbatim>\<open>Buffer.from(text, "utf8")\<close>
  and \<^verbatim>\<open>toString("utf8")\<close>, where invalid input decodes to U+FFFD the way the Encoding Standard
  prescribes) and unpadded base64url. A byte is a number below 256.
\<close>

section \<open>UTF-8\<close>

definition utf8_of_code_point :: "nat \<Rightarrow> nat list" where
  "utf8_of_code_point c =
     (if c < 128 then [c]
      else if c < 2048 then [192 + c div 64, 128 + c mod 64]
      else if 55296 \<le> c \<and> c \<le> 57343 then [239, 191, 189]
      else if c < 65536 then [224 + c div 4096, 128 + c div 64 mod 64, 128 + c mod 64]
      else [240 + c div 262144, 128 + c div 4096 mod 64, 128 + c div 64 mod 64, 128 + c mod 64])"

definition utf8_encode :: "jsstr \<Rightarrow> nat list" where
  "utf8_encode t = concat (map utf8_of_code_point (code_points t))"

definition cont :: "nat \<Rightarrow> bool" where
  "cont b \<longleftrightarrow> 128 \<le> b \<and> b \<le> 191"

definition three_ok :: "nat \<Rightarrow> nat \<Rightarrow> bool" where
  "three_ok b c \<longleftrightarrow> cont c \<and> (b = 224 \<longrightarrow> 160 \<le> c) \<and> (b = 237 \<longrightarrow> c \<le> 159)"

definition four_ok :: "nat \<Rightarrow> nat \<Rightarrow> bool" where
  "four_ok b c \<longleftrightarrow> cont c \<and> (b = 240 \<longrightarrow> 144 \<le> c) \<and> (b = 244 \<longrightarrow> c \<le> 143)"

text \<open>
  One step of the decoder at byte \<open>b\<close>: the code point and how many of the following bytes belong to
  it, or \<open>None\<close> when the input cuts the sequence off. A sequence that breaks off yields one U+FFFD
  and decoding resumes at the byte that broke it.
\<close>

definition utf8_step :: "nat \<Rightarrow> nat list \<Rightarrow> (nat \<times> nat) option" where
  "utf8_step b bs =
     (if b < 128 then Some (b, 0)
      else if 194 \<le> b \<and> b \<le> 223 then
        (case bs of
           [] \<Rightarrow> None
         | c # _ \<Rightarrow> if cont c then Some ((b - 192) * 64 + (c - 128), 1) else Some (65533, 0))
      else if 224 \<le> b \<and> b \<le> 239 then
        (case bs of
           [] \<Rightarrow> None
         | c # cs \<Rightarrow>
             if \<not> three_ok b c then Some (65533, 0)
             else (case cs of
                     [] \<Rightarrow> None
                   | d # _ \<Rightarrow> if cont d then Some ((b - 224) * 4096 + (c - 128) * 64 + (d - 128), 2)
                             else Some (65533, 1)))
      else if 240 \<le> b \<and> b \<le> 244 then
        (case bs of
           [] \<Rightarrow> None
         | c # cs \<Rightarrow>
             if \<not> four_ok b c then Some (65533, 0)
             else (case cs of
                     [] \<Rightarrow> None
                   | d # ds \<Rightarrow>
                       if \<not> cont d then Some (65533, 1)
                       else (case ds of
                               [] \<Rightarrow> None
                             | e # _ \<Rightarrow>
                                 if cont e
                                 then Some ((b - 240) * 262144 + (c - 128) * 4096 + (d - 128) * 64 + (e - 128), 3)
                                 else Some (65533, 2))))
      else Some (65533, 0))"

definition emit :: "nat \<Rightarrow> nat list \<times> nat list \<Rightarrow> nat list \<times> nat list" where
  "emit c r = (c # fst r, snd r)"

fun utf8_stream :: "nat list \<Rightarrow> nat list \<times> nat list" where
  "utf8_stream [] = ([], [])"
| "utf8_stream (b # bs) =
     (case utf8_step b bs of
        None \<Rightarrow> ([], b # bs)
      | Some (c, k) \<Rightarrow> emit c (utf8_stream (drop k bs)))"

definition utf8_code_points :: "nat list \<Rightarrow> nat list" where
  "utf8_code_points bs = fst (utf8_stream bs) @ (if snd (utf8_stream bs) = [] then [] else [65533])"

definition units_of_code_point :: "nat \<Rightarrow> nat list" where
  "units_of_code_point c =
     (if c < 65536 then [c] else [55296 + (c - 65536) div 1024, 56320 + (c - 65536) mod 1024])"

definition utf8_decode :: "nat list \<Rightarrow> jsstr" where
  "utf8_decode bs = concat (map units_of_code_point (utf8_code_points bs))"

definition scalar :: "nat \<Rightarrow> bool" where
  "scalar c \<longleftrightarrow> c < 55296 \<or> 57344 \<le> c \<and> c < 1114112"

text \<open>A string without lone surrogates.\<close>

definition well_formed :: "jsstr \<Rightarrow> bool" where
  "well_formed t \<longleftrightarrow> is_jsstr t \<and> (\<forall>c \<in> set (code_points t). scalar c)"

lemma split_div_64: "c = c div 4096 * 4096 + c div 64 mod 64 * 64 + c mod 64" for c :: nat
proof -
  have "c div 64 = c div 4096 * 64 + c div 64 mod 64" using div_mult2_eq [of c 64 64] by simp
  moreover have "c = c div 64 * 64 + c mod 64" by simp
  ultimately show ?thesis by linarith
qed

lemma stream_code_point: "scalar c \<Longrightarrow> utf8_stream (utf8_of_code_point c @ bs) = emit c (utf8_stream bs)"
proof -
  assume c: "scalar c"
  consider "c < 128" | "128 \<le> c" "c < 2048" | "2048 \<le> c" "c < 65536" | "65536 \<le> c" by linarith
  then show ?thesis
  proof cases
    case 1
    then show ?thesis by (simp add: utf8_of_code_point_def utf8_step_def)
  next
    case 2
    define x y where xy: "x = c div 64" "y = c mod 64"
    have "2 \<le> x" "x < 32" "y < 64" using 2 by (auto simp: xy)
    moreover have "c = x * 64 + y" by (simp add: xy)
    ultimately show ?thesis using 2 by (simp add: utf8_of_code_point_def cont_def utf8_step_def flip: xy)
  next
    case 3
    define x y z where xyz: "x = c div 4096" "y = c div 64 mod 64" "z = c mod 64"
    have "y < 64" "z < 64" "x < 16" using 3 by (auto simp: xyz)
    have eq: "c = x * 4096 + y * 64 + z" unfolding xyz by (rule split_div_64)
    have "three_ok (224 + x) (128 + y)"
      using c 3 \<open>y < 64\<close> \<open>z < 64\<close> eq by (auto simp: three_ok_def cont_def scalar_def)
    moreover have "utf8_of_code_point c = [224 + x, 128 + y, 128 + z]"
      using 3 c by (auto simp: utf8_of_code_point_def scalar_def xyz)
    ultimately show ?thesis using \<open>y < 64\<close> \<open>z < 64\<close> \<open>x < 16\<close> eq [symmetric] by (simp add: cont_def utf8_step_def)
  next
    case 4
    define u x y z where xyz: "u = c div 262144" "x = c div 4096 mod 64" "y = c div 64 mod 64" "z = c mod 64"
    have "x < 64" "y < 64" "z < 64" "u < 5" using 4 c by (auto simp: xyz scalar_def)
    have "c div 4096 = c div 262144 * 64 + c div 4096 mod 64"
      using div_mult2_eq [of c 4096 64] by simp
    with split_div_64 [of c] have eq: "c = u * 262144 + x * 4096 + y * 64 + z" unfolding xyz by linarith
    have "four_ok (240 + u) (128 + x)"
      using c 4 \<open>x < 64\<close> \<open>y < 64\<close> \<open>z < 64\<close> eq by (auto simp: four_ok_def cont_def scalar_def)
    moreover have "utf8_of_code_point c = [240 + u, 128 + x, 128 + y, 128 + z]"
      using 4 c by (auto simp: utf8_of_code_point_def scalar_def xyz)
    ultimately show ?thesis using \<open>y < 64\<close> \<open>z < 64\<close> \<open>x < 64\<close> \<open>u < 5\<close> eq [symmetric] by (simp add: cont_def utf8_step_def)
  qed
qed

lemma stream_code_points:
  "\<forall>c \<in> set cs. scalar c \<Longrightarrow> utf8_stream (concat (map utf8_of_code_point cs)) = (cs, [])"
  by (induction cs) (simp_all add: stream_code_point emit_def)

lemma decode_code_points:
  "\<forall>c \<in> set cs. scalar c \<Longrightarrow> utf8_code_points (concat (map utf8_of_code_point cs)) = cs"
  by (simp add: utf8_code_points_def stream_code_points)

text \<open>A stream decoded in pieces is decoded as a whole.\<close>

lemma utf8_step_append:
  "utf8_step b bs = Some (c, k) \<Longrightarrow> k \<le> length bs \<and> utf8_step b (bs @ ys) = Some (c, k)"
  by (auto simp: utf8_step_def split: list.splits if_splits)

lemma stream_append:
  "utf8_stream (xs @ ys) =
   (fst (utf8_stream xs) @ fst (utf8_stream (snd (utf8_stream xs) @ ys)), snd (utf8_stream (snd (utf8_stream xs) @ ys)))"
proof (induction xs rule: utf8_stream.induct)
  case (2 b bs)
  show ?case
  proof (cases "utf8_step b bs")
    case (Some ck)
    then obtain c k where ck: "utf8_step b bs = Some (c, k)" by (cases ck) auto
    from utf8_step_append [OF this] have "k \<le> length bs" "utf8_step b (bs @ ys) = Some (c, k)" by simp_all
    with 2 [OF ck] ck show ?thesis by (simp add: emit_def)
  qed simp
qed simp

lemma units_code_points: "is_jsstr t \<Longrightarrow> concat (map units_of_code_point (code_points t)) = t"
proof (induction t rule: code_points.induct)
  case (3 u v s)
  show ?case
  proof (cases "is_high u \<and> is_low v")
    case True
    define x y where xy: "x = u - 55296" "y = v - 56320"
    have uv: "u = 55296 + x" "v = 56320 + y" "x < 1024" "y < 1024"
      using True by (auto simp: is_high_def is_low_def xy)
    then have "(x * 1024 + y) div 1024 = x" "(x * 1024 + y) mod 1024 = y" by auto
    with True 3 uv show ?thesis by (simp add: units_of_code_point_def is_jsstr_def)
  next
    case False
    with 3 show ?thesis by (auto simp: units_of_code_point_def is_jsstr_def)
  qed
qed (auto simp: units_of_code_point_def is_jsstr_def)

lemma utf8_roundtrip: "well_formed t \<Longrightarrow> utf8_decode (utf8_encode t) = t"
  by (simp add: utf8_decode_def utf8_encode_def well_formed_def decode_code_points units_code_points)

lemma code_points_bound: "is_jsstr t \<Longrightarrow> c \<in> set (code_points t) \<Longrightarrow> c < 1114112"
  by (induction t rule: code_points.induct) (auto simp: is_jsstr_def is_high_def is_low_def split: if_splits)

lemma utf8_of_code_point_bytes: "c < 1114112 \<Longrightarrow> b \<in> set (utf8_of_code_point c) \<Longrightarrow> b < 256"
  by (auto simp: utf8_of_code_point_def split: if_splits)

lemma utf8_encode_bytes: "is_jsstr t \<Longrightarrow> b \<in> set (utf8_encode t) \<Longrightarrow> b < 256"
  using code_points_bound utf8_of_code_point_bytes by (fastforce simp: utf8_encode_def)

section \<open>Base64url\<close>

fun sextets :: "nat list \<Rightarrow> nat list" where
  "sextets [] = []"
| "sextets [a] = [a div 4, (a mod 4) * 16]"
| "sextets [a, b] = [a div 4, (a mod 4) * 16 + b div 16, (b mod 16) * 4]"
| "sextets (a # b # c # bs) =
     a div 4 # ((a mod 4) * 16 + b div 16) # ((b mod 16) * 4 + c div 64) # (c mod 64) # sextets bs"

fun bytes_of_sextets :: "nat list \<Rightarrow> nat list" where
  "bytes_of_sextets [] = []"
| "bytes_of_sextets [x] = []"
| "bytes_of_sextets [x, y] = [x * 4 + y div 16]"
| "bytes_of_sextets [x, y, z] = [x * 4 + y div 16, (y mod 16) * 16 + z div 4]"
| "bytes_of_sextets (x # y # z # v # xs) =
     (x * 4 + y div 16) # ((y mod 16) * 16 + z div 4) # ((z mod 4) * 64 + v) # bytes_of_sextets xs"

lemma bytes_of_sextets_inverse: "\<forall>b \<in> set bs. b < 256 \<Longrightarrow> bytes_of_sextets (sextets bs) = bs"
proof (induction bs rule: sextets.induct)
  case (4 a b c bs)
  define p q r s t u where d: "p = a div 4" "q = a mod 4" "r = b div 16" "s = b mod 16" "t = c div 64" "u = c mod 64"
  have "a = p * 4 + q" "b = r * 16 + s" "c = t * 64 + u" "q < 4" "s < 16" "u < 64" "r < 16" "t < 4"
    using 4(2) by (auto simp: d)
  with 4 show ?case by (simp add: flip: d)
next
  case (3 a b)
  define p q r s where d: "p = a div 4" "q = a mod 4" "r = b div 16" "s = b mod 16"
  have "a = p * 4 + q" "b = r * 16 + s" "q < 4" "s < 16" "r < 16" using 3 by (auto simp: d)
  then show ?case by (simp add: flip: d)
qed auto

lemma sextets_bound: "\<forall>b \<in> set bs. b < 256 \<Longrightarrow> x \<in> set (sextets bs) \<Longrightarrow> x < 64"
  by (induction bs rule: sextets.induct) auto

text \<open>The alphabet, and the value of a character; decoding skips what is not in it.\<close>

definition sextet_unit :: "nat \<Rightarrow> nat" where
  "sextet_unit n = (if n < 26 then 65 + n else if n < 52 then 97 + (n - 26)
     else if n < 62 then 48 + (n - 52) else if n = 62 then 45 else 95)"

definition unit_sextet :: "nat \<Rightarrow> nat option" where
  "unit_sextet u = (if 65 \<le> u \<and> u \<le> 90 then Some (u - 65) else if 97 \<le> u \<and> u \<le> 122 then Some (u - 97 + 26)
     else if 48 \<le> u \<and> u \<le> 57 then Some (u - 48 + 52) else if u = 45 \<or> u = 43 then Some 62
     else if u = 95 \<or> u = 47 then Some 63 else None)"

definition base64url_encode :: "nat list \<Rightarrow> jsstr" where
  "base64url_encode bs = map sextet_unit (sextets bs)"

definition base64url_decode :: "jsstr \<Rightarrow> nat list" where
  "base64url_decode t = bytes_of_sextets (List.map_filter unit_sextet t)"

lemma unit_sextet_inverse: "n < 64 \<Longrightarrow> unit_sextet (sextet_unit n) = Some n"
  by (auto simp: unit_sextet_def sextet_unit_def)

lemma map_filter_sextets: "\<forall>x \<in> set xs. x < 64 \<Longrightarrow> List.map_filter unit_sextet (map sextet_unit xs) = xs"
  by (induction xs) (simp_all add: unit_sextet_inverse map_filter_simps)

lemma base64url_roundtrip: "\<forall>b \<in> set bs. b < 256 \<Longrightarrow> base64url_decode (base64url_encode bs) = bs"
  using sextets_bound by (simp add: base64url_decode_def base64url_encode_def map_filter_sextets bytes_of_sextets_inverse)

text \<open>The units of \<^verbatim>\<open>[A-Za-z0-9_-]\<close>.\<close>

definition base64url_unit :: "nat \<Rightarrow> bool" where
  "base64url_unit u \<longleftrightarrow> 65 \<le> u \<and> u \<le> 90 \<or> 97 \<le> u \<and> u \<le> 122 \<or> 48 \<le> u \<and> u \<le> 57 \<or> u = 45 \<or> u = 95"

lemma base64url_encode_units: "\<forall>b \<in> set bs. b < 256 \<Longrightarrow> u \<in> set (base64url_encode bs) \<Longrightarrow> base64url_unit u"
  using sextets_bound by (fastforce simp: base64url_encode_def base64url_unit_def sextet_unit_def)

lemma base64url_encode_empty [simp]: "base64url_encode bs = [] \<longleftrightarrow> bs = []"
  by (cases bs rule: sextets.cases) (simp_all add: base64url_encode_def)

end
