(* ===== verification/ChatService.thy ===== *)
theory ChatService
  imports ProviderFallback ChatContext ChatMetrics Jobs Encoding
begin

text \<open>
  The chat pipeline (\<^verbatim>\<open>chat/chat.service.ts\<close>): \<^verbatim>\<open>prepareChatStream\<close>,
  \<^verbatim>\<open>finalizeChatStream\<close>, \<^verbatim>\<open>recordUsageAndComplete\<close> and their helpers, over the record of
  dependencies \<^verbatim>\<open>ChatPipelineDependencies\<close>. Each dependency is an arbitrary action.

  The world has a ghost field \<open>cw_calls\<close>: the trace of the dependency calls in their order,
  with their outcome. \<open>call\<close> performs a dependency and appends to the trace; nothing reads the
  trace, so it does not influence the run. Lines written to the logger are not modelled.

  The variables of \<^verbatim>\<open>prepareChatStream\<close> that its \<^verbatim>\<open>catch\<close> block reads
  (\<^verbatim>\<open>providerStarted\<close>, \<^verbatim>\<open>reservationFinalized\<close>, \<^verbatim>\<open>policyAction\<close>,
  \<^verbatim>\<open>executionMetrics\<close>, and the flag inside the reservation) are a record that the
  \<^verbatim>\<open>try\<close> block threads beside the world.
\<close>

section \<open>Data\<close>

record AuthContext =
  ac_orgId :: string
  ac_userId :: string
  ac_role :: string

record ChatStreamRequest =
  rq_conversationId :: string
  rq_prompt :: jsstr
  rq_clientRequestId :: string
  rq_providerId :: "ProviderId option"
  rq_routingMode :: RoutingMode

record ChatOrganisationContext =
  oc_plan :: OrganisationPlan
  oc_policy :: OrganisationPolicy
  oc_autoRoutingEnabled :: bool
  oc_retentionMode :: RetentionMode

record MessagePersistence =
  mp_conversationId :: string
  mp_retentionMode :: RetentionMode
  mp_userContent :: jsstr
  mp_assistantContent :: jsstr

record PersistInput =
  pi_orgId :: string
  pi_userId :: string
  pi_requestId :: string
  pi_message :: MessagePersistence
  pi_inputTokenCount :: "int option"
  pi_outputTokenCount :: "int option"

record AuditInput =
  au_orgId :: string
  au_actorId :: string
  au_actorRole :: string
  au_action :: string
  au_resourceId :: string
  au_riskScore :: int
  au_reasonCode :: string
  au_categoryCount :: nat

text \<open>The calls of the trace. A flag tells whether the call returned, an option is the value it
  returned.\<close>

datatype chat_call =
  DOwner bool | DOrganisation "ChatOrganisationContext option" | DReserve bool | DRateLimit bool
| DBudget "BudgetStatus option" | DProcess jsstr "PiiPromptProcessingResult option" | DPolicyEvent PolicyDecision bool | DAudit AuditInput bool
| DUsage NewRequestUsageRecord bool | DPersist PersistInput bool
| DEnqueueBilling RequestOutcomeJob bool | DEnqueueAnalytics RequestOutcomeJob bool
| DRecordFailure EnqueueRecoveryScope bool
| DHealth ProviderId bool | DHistory bool
| DStream "ProviderMessage list" int bool | DNext bool
| DMarkCompleted bool | DRelease bool

record chat_world = obs +
  cw_calls :: "chat_call list"

record ('s, 'it, 'gen) ChatPipelineDependencies =
  dp_assertConversationOwner :: "string \<Rightarrow> string \<Rightarrow> string \<Rightarrow> ('s, exn, unit) act"
  dp_loadOrganisationContext :: "string \<Rightarrow> ('s, exn, ChatOrganisationContext) act"
  dp_consumeRateLimit :: "string \<Rightarrow> string \<Rightarrow> OrganisationPlan \<Rightarrow> ('s, exn, unit) act"
  dp_reserve :: "IdempotencyInput \<Rightarrow> ('s, exn, IdempotencyReservation) act"
  dp_markCompleted :: "IdempotencyReservation \<Rightarrow> ('s, exn, unit) act"
  dp_releaseBeforeExecution :: "IdempotencyReservation \<Rightarrow> ('s, exn, unit) act"
  dp_readBudgetStatus :: "string \<Rightarrow> ('s, exn, BudgetStatus) act"
  dp_processPrompt :: "jsstr \<Rightarrow> ('s, exn, PiiPromptProcessingResult) act"
  dp_loadConversationHistory :: "string \<Rightarrow> string \<Rightarrow> string \<Rightarrow> ('s, exn, RetainedConversationMessage list) act"
  dp_candidates :: "('s, 'it) ProviderFallbackCandidate list"
  dp_readProviderHealth :: "ProviderId \<Rightarrow> ('s, exn, ProviderHealthState) act"
  dp_streamProvider :: "'s ProviderFallbackBaseRequest \<Rightarrow> ('s, 'it) ProviderFallbackCandidate list \<Rightarrow>
     ('s, exn, 'gen) act"
  dp_streamNext :: "'gen \<Rightarrow> ('s, exn, StreamChunk option \<times> 'gen) act"
  dp_appendUsage :: "NewRequestUsageRecord \<Rightarrow> ('s, exn, unit) act"
  dp_enqueueBillingJob :: "RequestOutcomeJob \<Rightarrow> ('s, exn, unit) act"
  dp_enqueueAnalyticsJob :: "RequestOutcomeJob \<Rightarrow> ('s, exn, unit) act"
  dp_recordEnqueueFailure :: "EnqueueRecoveryScope \<Rightarrow> ('s, exn, unit) act"
  dp_emitPolicyEvent :: "string \<Rightarrow> PolicyDecision \<Rightarrow> (string \<times> string) option \<Rightarrow> ('s, exn, PolicyDecisionEvent) act"
  dp_appendAudit :: "AuditInput \<Rightarrow> ('s, exn, unit) act"
  dp_persistMessages :: "PersistInput \<Rightarrow> ('s, exn, unit) act"

text \<open>What the module takes from its environment: the clock, the keyed hash, the configured model,
  Unicode normalisation.\<close>

record 's chat_env =
  ce_now :: "'s \<Rightarrow> string"
  ce_hrtime :: "'s \<Rightarrow> int"
  ce_hmac :: "string \<Rightarrow> string"
  ce_groqModel :: string
  ce_normalizeNFC :: "jsstr \<Rightarrow> jsstr"

record 's PrepareInput =
  pr_auth :: AuthContext
  pr_requestId :: string
  pr_request :: ChatStreamRequest
  pr_aborted :: "'s \<Rightarrow> bool"

record 'gen PreparedChatStream =
  ps_requestId :: string
  ps_clientRequestId :: string
  ps_orgId :: string
  ps_userId :: string
  ps_decision :: PolicyDecision
  ps_routingReason :: RoutingMode
  ps_model :: string
  ps_iterator :: 'gen
  ps_firstChunk :: StreamChunk
  ps_reservation :: IdempotencyReservation
  ps_conversationId :: string
  ps_retentionMode :: RetentionMode
  ps_originalUserContent :: jsstr
  ps_metrics :: ChatExecutionMetrics

section \<open>Calls\<close>

definition call_result ::
  "('a option \<Rightarrow> chat_call) \<Rightarrow> ('x chat_world_scheme, exn, 'a) act \<Rightarrow> ('x chat_world_scheme, exn, 'a) act" where
  "call_result ev m w = (case m w of (r, w') \<Rightarrow>
     (r, w'\<lparr>cw_calls := cw_calls w @ [ev (case r of Inr x \<Rightarrow> Some x | Inl _ \<Rightarrow> None)]\<rparr>))"

definition call ::
  "(bool \<Rightarrow> chat_call) \<Rightarrow> ('x chat_world_scheme, exn, 'a) act \<Rightarrow> ('x chat_world_scheme, exn, 'a) act" where
  "call ev = call_result (\<lambda>r. ev (r \<noteq> None))"

section \<open>Helpers\<close>

definition normalizePreStreamError :: "exn \<Rightarrow> exn" where
  "normalizePreStreamError e = (case e of ExnApp a \<Rightarrow> ExnApp a
     | _ \<Rightarrow> app_exn 503 ''PROVIDER_UNAVAILABLE'' ''No provider response was available.'')"

definition requireProviderPolicyAction :: "PolicyAction option \<Rightarrow> exn + PolicyAction" where
  "requireProviderPolicyAction a = (case a of
     None \<Rightarrow> Inl (ExnOther ''Provider policy action is unavailable.'') | Some x \<Rightarrow> Inr x)"

definition assertRoutingAllowed :: "ChatStreamRequest \<Rightarrow> ChatOrganisationContext \<Rightarrow> exn + unit" where
  "assertRoutingAllowed rq org =
     (if rq_routingMode rq = auto \<and> \<not> oc_autoRoutingEnabled org
      then Inl (app_exn 403 ''FEATURE_DISABLED'' ''Automatic provider routing is not enabled.'')
      else Inr ())"

definition no_provider :: exn where
  "no_provider = app_exn 503 ''PROVIDER_UNAVAILABLE'' ''No configured provider is available.''"

definition selectProductionCandidate ::
  "ChatStreamRequest \<Rightarrow> ('x chat_world_scheme, 'it, 'gen) ChatPipelineDependencies \<Rightarrow>
   ('x chat_world_scheme, exn, ('x chat_world_scheme, 'it) ProviderFallbackCandidate) act" where
  "selectProductionCandidate rq D =
     (case find (\<lambda>c. ad_providerId (adapter c) = groq) (dp_candidates D) of
        None \<Rightarrow> act_throw no_provider
      | Some c \<Rightarrow>
          if rq_routingMode rq = manual \<and> rq_providerId rq \<noteq> Some (ad_providerId (adapter c))
          then act_throw no_provider
          else act_bind (call (DHealth (ad_providerId (adapter c)))
                           (dp_readProviderHealth D (ad_providerId (adapter c))))
                 (\<lambda>health. if health = UNHEALTHY then act_throw no_provider else act_ret c))"

definition recordRecoveryFailureSafely ::
  "('x chat_world_scheme, 'it, 'gen) ChatPipelineDependencies \<Rightarrow> EnqueueRecoveryScope \<Rightarrow>
   ('x chat_world_scheme, exn, unit) act" where
  "recordRecoveryFailureSafely D scope =
     act_catch (call (DRecordFailure scope) (dp_recordEnqueueFailure D scope)) (\<lambda>_. act_ret ())"

section \<open>Accounting\<close>

record RecordInput =
  ri_requestId :: string
  ri_orgId :: string
  ri_userId :: string
  ri_model :: string
  ri_reservation :: IdempotencyReservation

record RecordOutcome =
  ro_status :: RequestOutcomeStatus
  ro_policyAction :: PolicyAction
  ro_usage :: "TokenUsage option"
  ro_messagePersistence :: "MessagePersistence option"

definition usage_record :: "RecordInput \<Rightarrow> RecordOutcome \<Rightarrow> NewRequestUsageRecord" where
  "usage_record i oc = \<lparr>nu_requestId = ri_requestId i, nu_orgId = ri_orgId i, nu_userId = ri_userId i,
     nu_status = ro_status oc, nu_policyAction = ro_policyAction oc, nu_providerId = Some groq,
     nu_model = Some (ri_model i), nu_usage = ro_usage oc\<rparr>"

definition completed_job :: "RecordInput \<Rightarrow> RecordOutcome \<Rightarrow> string \<Rightarrow> RequestOutcomeJob" where
  "completed_job i oc t = \<lparr>jb_schemaVersion = ASYNC_JOB_SCHEMA_VERSION, jb_jobType = REQUEST_COMPLETED_JOB_TYPE,
     jb_requestId = ri_requestId i, jb_orgId = ri_orgId i, jb_userId = ri_userId i,
     jb_status = ro_status oc, jb_policyAction = ro_policyAction oc, jb_providerId = Some groq,
     jb_model = Some (ri_model i), jb_usage = ro_usage oc, jb_occurredAt = t\<rparr>"

definition persist_input :: "RecordInput \<Rightarrow> RecordOutcome \<Rightarrow> MessagePersistence \<Rightarrow> PersistInput" where
  "persist_input i oc m = \<lparr>pi_orgId = ri_orgId i, pi_userId = ri_userId i, pi_requestId = ri_requestId i,
     pi_message = m, pi_inputTokenCount = map_option inputTokens (ro_usage oc),
     pi_outputTokenCount = map_option outputTokens (ro_usage oc)\<rparr>"

text \<open>\<^verbatim>\<open>messagePersistenceError\<close>: the error of \<^verbatim>\<open>persistMessages\<close>, kept for later.\<close>

definition persist_messages ::
  "('x chat_world_scheme, 'it, 'gen) ChatPipelineDependencies \<Rightarrow> RecordInput \<Rightarrow> RecordOutcome \<Rightarrow>
   ('x chat_world_scheme, exn, exn option) act" where
  "persist_messages D i oc =
     (case ro_messagePersistence oc of
        Some m \<Rightarrow>
          if ro_status oc = st_COMPLETED
          then act_catch (act_then (call (DPersist (persist_input i oc m))
                                      (dp_persistMessages D (persist_input i oc m))) (act_ret None))
                 (\<lambda>e. act_ret (Some e))
          else act_ret None
      | None \<Rightarrow> act_ret None)"

definition enqueue_billing ::
  "('x chat_world_scheme, 'it, 'gen) ChatPipelineDependencies \<Rightarrow> RecordInput \<Rightarrow> RequestOutcomeJob \<Rightarrow>
   ('x chat_world_scheme, exn, unit) act" where
  "enqueue_billing D i job =
     act_catch (call (DEnqueueBilling job) (dp_enqueueBillingJob D job))
       (\<lambda>_. recordRecoveryFailureSafely D \<lparr>sc_orgId = ri_orgId i, sc_requestId = ri_requestId i,
              sc_queueName = billing_queue, sc_jobType = REQUEST_COMPLETED_JOB_TYPE\<rparr>)"

definition enqueue_analytics ::
  "('x chat_world_scheme, 'it, 'gen) ChatPipelineDependencies \<Rightarrow> RequestOutcomeJob \<Rightarrow>
   ('x chat_world_scheme, exn, unit) act" where
  "enqueue_analytics D job =
     act_catch (call (DEnqueueAnalytics job) (dp_enqueueAnalyticsJob D job))
       (\<lambda>_. recordRecoveryFailureSafely D \<lparr>sc_orgId = jb_orgId job, sc_requestId = jb_requestId job,
              sc_queueName = analytics_queue, sc_jobType = jb_jobType job\<rparr>)"

text \<open>The \<^verbatim>\<open>finally\<close> block acts only when \<^verbatim>\<open>usagePersisted\<close> is set, that is after
  \<^verbatim>\<open>appendUsage\<close> returned, so it covers the rest of the \<^verbatim>\<open>try\<close> block.\<close>

definition recordUsageAndComplete ::
  "('x chat_world_scheme) chat_env \<Rightarrow> ('x chat_world_scheme, 'it, 'gen) ChatPipelineDependencies \<Rightarrow>
   RecordInput \<Rightarrow> RecordOutcome \<Rightarrow> ('x chat_world_scheme, exn, unit) act" where
  "recordUsageAndComplete env D i oc =
     act_bind (act_read (ce_now env)) (\<lambda>occurredAt.
       act_then (call (DUsage (usage_record i oc)) (dp_appendUsage D (usage_record i oc)))
         (act_finally
           (act_bind (persist_messages D i oc) (\<lambda>messagePersistenceError.
              act_then (enqueue_billing D i (completed_job i oc occurredAt))
                (act_then (enqueue_analytics D (completed_job i oc occurredAt))
                  (case messagePersistenceError of Some e \<Rightarrow> act_throw e | None \<Rightarrow> act_ret ()))))
           (call DMarkCompleted (dp_markCompleted D (ri_reservation i)))))"

section \<open>Preparation\<close>

record prep_locals =
  pl_providerStarted :: bool
  pl_reservationFinalized :: bool
  pl_policyAction :: "PolicyAction option"
  pl_metrics :: "ChatExecutionMetrics option"
  pl_reservation :: IdempotencyReservation

definition lift :: "('w, exn, 'a) act \<Rightarrow> ('w \<times> prep_locals, exn, 'a) act" where
  "lift m wl = (case m (fst wl) of (r, w') \<Rightarrow> (r, (w', snd wl)))"

definition set_local :: "(prep_locals \<Rightarrow> prep_locals) \<Rightarrow> ('w \<times> prep_locals, exn, unit) act" where
  "set_local f = act_modify (\<lambda>(w, l). (w, f l))"

definition utf8_bytes :: "jsstr \<Rightarrow> string" where
  "utf8_bytes t = map char_of (utf8_encode t)"

definition idempotency_input :: "'s chat_env \<Rightarrow> 's PrepareInput \<Rightarrow> IdempotencyInput" where
  "idempotency_input env inp =
     \<lparr>ii_orgId = ac_orgId (pr_auth inp), ii_userId = ac_userId (pr_auth inp),
      ii_clientRequestId = rq_clientRequestId (pr_request inp), ii_requestId = pr_requestId inp,
      ii_requestFingerprint = createIdempotencyRequestFingerprint (ce_hmac env)
        \<lparr>fi_conversationId = rq_conversationId (pr_request inp),
         fi_prompt = utf8_bytes (rq_prompt (pr_request inp)),
         fi_routingMode = rq_routingMode (pr_request inp),
         fi_providerId = map_option provider_label (rq_providerId (pr_request inp))\<rparr>\<rparr>"

fun audit_action :: "PolicyAction \<Rightarrow> string" where
  "audit_action ALLOW = ''policy.allow''"
| "audit_action ALLOW_WITH_MASK = ''policy.mask''"
| "audit_action BLOCK = ''policy.block''"

text \<open>\<^verbatim>\<open>buildAuditMetadata\<close> with the schema of the policy actions.\<close>

definition buildAuditMetadata :: "int \<Rightarrow> string \<Rightarrow> nat \<Rightarrow> exn + unit" where
  "buildAuditMetadata risk reason n =
     (if 0 \<le> risk \<and> risk \<le> 100 \<and> 1 \<le> length reason \<and> length reason \<le> 80 \<and> n \<le> 100 then Inr ()
      else Inl (ExnOther ''Invalid safe audit metadata.''))"

definition policy_audit :: "'s PrepareInput \<Rightarrow> PolicyDecision \<Rightarrow> AuditInput" where
  "policy_audit inp d =
     \<lparr>au_orgId = ac_orgId (pr_auth inp), au_actorId = ac_userId (pr_auth inp), au_actorRole = ac_role (pr_auth inp),
      au_action = audit_action (pd_action d), au_resourceId = pr_requestId inp,
      au_riskScore = pd_riskScore d, au_reasonCode = reason_label (pd_reasonCode d),
      au_categoryCount = length (pd_categories d)\<rparr>"

definition blocked_usage :: "'s PrepareInput \<Rightarrow> NewRequestUsageRecord" where
  "blocked_usage inp = \<lparr>nu_requestId = pr_requestId inp, nu_orgId = ac_orgId (pr_auth inp),
     nu_userId = ac_userId (pr_auth inp), nu_status = st_BLOCKED, nu_policyAction = BLOCK,
     nu_providerId = None, nu_model = None, nu_usage = None\<rparr>"

definition blocked_job :: "'s PrepareInput \<Rightarrow> string \<Rightarrow> RequestOutcomeJob" where
  "blocked_job inp t = \<lparr>jb_schemaVersion = ASYNC_JOB_SCHEMA_VERSION, jb_jobType = REQUEST_BLOCKED_JOB_TYPE,
     jb_requestId = pr_requestId inp, jb_orgId = ac_orgId (pr_auth inp), jb_userId = ac_userId (pr_auth inp),
     jb_status = st_BLOCKED, jb_policyAction = BLOCK, jb_providerId = None, jb_model = None,
     jb_usage = None, jb_occurredAt = t\<rparr>"

definition policy_blocked :: "PolicyDecision \<Rightarrow> exn" where
  "policy_blocked d = ExnApp \<lparr>ae_statusCode = 403, ae_code = ''POLICY_BLOCKED'',
     ae_message = ''This request was blocked by your organisation's data policy.'',
     ae_details = PolicyDetails (pd_riskScore d) (map pii_category_label (pd_categories d))\<rparr>"

text \<open>The branch for a blocked request.\<close>

definition block_request ::
  "('x chat_world_scheme) chat_env \<Rightarrow> ('x chat_world_scheme, 'it, 'gen) ChatPipelineDependencies \<Rightarrow>
   ('x chat_world_scheme) PrepareInput \<Rightarrow> PolicyDecision \<Rightarrow>
   ('x chat_world_scheme \<times> prep_locals, exn, 'a) act" where
  "block_request env D inp d =
     act_then (lift (act_modify recordBlockedChat))
      (act_bind (lift (act_read (ce_now env))) (\<lambda>occurredAt.
        act_then (lift (call (DUsage (blocked_usage inp)) (dp_appendUsage D (blocked_usage inp))))
         (act_then (lift (enqueue_analytics D (blocked_job inp occurredAt)))
          (act_bind (act_read (\<lambda>(w, l). pl_reservation l)) (\<lambda>reservation.
            act_then (lift (call DMarkCompleted (dp_markCompleted D reservation)))
             (act_then (set_local (\<lambda>l. l\<lparr>pl_reservationFinalized := True\<rparr>))
               (act_throw (policy_blocked d))))))))"

text \<open>\<^verbatim>\<open>processPrompt\<close>, the risk and the policy decision, for the prompt and for the history.\<close>

definition evaluate_prompt ::
  "('x chat_world_scheme, 'it, 'gen) ChatPipelineDependencies \<Rightarrow> ChatOrganisationContext \<Rightarrow> BudgetStatus \<Rightarrow>
   jsstr \<Rightarrow> ('x chat_world_scheme, exn, PolicyDecision) act" where
  "evaluate_prompt D org budget content =
     act_bind (call_result (DProcess content) (dp_processPrompt D content)) (\<lambda>pii.
       of_sum (evaluatePolicy \<lparr>in_pii = pii, in_risk = calculatePiiRisk (pp_classification pii),
                 in_budget = budget, in_thresholds = oc_policy org\<rparr>))"

definition approved_prompt :: "PolicyDecision \<Rightarrow> jsstr \<Rightarrow> jsstr" where
  "approved_prompt d content = (if pd_action d = ALLOW_WITH_MASK then the (pd_providerPrompt d) else content)"

definition sanitizeUserContent ::
  "('x chat_world_scheme, 'it, 'gen) ChatPipelineDependencies \<Rightarrow> ChatOrganisationContext \<Rightarrow> BudgetStatus \<Rightarrow>
   jsstr \<Rightarrow> ('x chat_world_scheme, exn, jsstr option) act" where
  "sanitizeUserContent D org budget content =
     act_bind (evaluate_prompt D org budget content) (\<lambda>d.
       act_ret (if pd_action d = BLOCK then None else Some (approved_prompt d content)))"

definition provider_history ::
  "('x chat_world_scheme, 'it, 'gen) ChatPipelineDependencies \<Rightarrow> ('x chat_world_scheme) PrepareInput \<Rightarrow>
   ChatOrganisationContext \<Rightarrow> BudgetStatus \<Rightarrow> ('x chat_world_scheme, exn, ProviderMessage list) act" where
  "provider_history D inp org budget =
     (if oc_retentionMode org = ENCRYPTED_STORAGE
      then act_bind (call DHistory (dp_loadConversationHistory D (ac_orgId (pr_auth inp))
                       (ac_userId (pr_auth inp)) (rq_conversationId (pr_request inp))))
             (\<lambda>messages. buildBoundedProviderHistory messages (sanitizeUserContent D org budget) None)
      else act_ret [])"

definition stream_request ::
  "('x chat_world_scheme) chat_env \<Rightarrow> ('x chat_world_scheme) PrepareInput \<Rightarrow> ChatOrganisationContext \<Rightarrow>
   PolicyDecision \<Rightarrow> ProviderMessage list \<Rightarrow> ('x chat_world_scheme, 'it) ProviderFallbackCandidate \<Rightarrow>
   ('x chat_world_scheme) ProviderFallbackBaseRequest" where
  "stream_request env inp org d history c =
     \<lparr>br_requestId = pr_requestId inp,
      br_messages = buildProductAwareProviderMessages (ce_normalizeNFC env) (rq_prompt (pr_request inp))
        (approved_prompt d (rq_prompt (pr_request inp))) history,
      br_maxOutputTokens = min (cap_maxOutputTokens (ad_getCapabilities (adapter c)))
        (maxOutputTokensPerRequest (oc_policy org)),
      br_abortSignal = Some (pr_aborted inp)\<rparr>"

definition prepared_stream ::
  "('x chat_world_scheme) PrepareInput \<Rightarrow> ChatOrganisationContext \<Rightarrow> PolicyDecision \<Rightarrow> string \<Rightarrow>
   'gen \<Rightarrow> StreamChunk \<Rightarrow> IdempotencyReservation \<Rightarrow> ChatExecutionMetrics \<Rightarrow> 'gen PreparedChatStream" where
  "prepared_stream inp org d model gen chunk rs m =
     \<lparr>ps_requestId = pr_requestId inp, ps_clientRequestId = rq_clientRequestId (pr_request inp),
      ps_orgId = ac_orgId (pr_auth inp), ps_userId = ac_userId (pr_auth inp), ps_decision = d,
      ps_routingReason = rq_routingMode (pr_request inp), ps_model = model, ps_iterator = gen,
      ps_firstChunk = chunk, ps_reservation = rs, ps_conversationId = rq_conversationId (pr_request inp),
      ps_retentionMode = oc_retentionMode org, ps_originalUserContent = rq_prompt (pr_request inp),
      ps_metrics = m\<rparr>"

text \<open>From the accepted decision to the first chunk. The callback that collects
  \<^verbatim>\<open>fallbackEvents\<close> only logs and fills an array that nothing reads; it is left out.\<close>

definition open_provider_stream ::
  "('x chat_world_scheme) chat_env \<Rightarrow> ('x chat_world_scheme, 'it, 'gen) ChatPipelineDependencies \<Rightarrow>
   ('x chat_world_scheme) PrepareInput \<Rightarrow> ChatOrganisationContext \<Rightarrow> PolicyDecision \<Rightarrow>
   ChatExecutionMetrics \<Rightarrow> ('x chat_world_scheme, 'it) ProviderFallbackCandidate \<Rightarrow> ProviderMessage list \<Rightarrow>
   ('x chat_world_scheme \<times> prep_locals, exn, 'gen PreparedChatStream) act" where
  "open_provider_stream env D inp org d m c history =
     (let rq = stream_request env inp org d history c in
      act_bind (lift (call (DStream (br_messages rq) (br_maxOutputTokens rq)) (dp_streamProvider D rq [c]))) (\<lambda>iterator.
      act_then (set_local (\<lambda>l. l\<lparr>pl_reservation := markProviderExecutionStarted (pl_reservation l)\<rparr>))
     (act_then (set_local (\<lambda>l. l\<lparr>pl_providerStarted := True\<rparr>))
     (act_bind (lift (act_read (metrics_markProviderStarted (ce_hrtime env) (ad_providerId (adapter c)) m))) (\<lambda>started.
      act_bind (of_sum started) (\<lambda>m'.
      act_then (set_local (\<lambda>l. l\<lparr>pl_metrics := Some m'\<rparr>))
     (act_bind (lift (call DNext (dp_streamNext D iterator))) (\<lambda>(firstResult, iterator').
        case firstResult of
          None \<Rightarrow> act_throw (app_exn 503 ''PROVIDER_UNAVAILABLE'' ''No provider response was available.'')
        | Some chunk \<Rightarrow> act_bind (act_read (\<lambda>(w, l). pl_reservation l)) (\<lambda>rs.
            act_ret (prepared_stream inp org d (cand_model c) iterator' chunk rs m'))))))))))"

definition accept_request ::
  "('x chat_world_scheme) chat_env \<Rightarrow> ('x chat_world_scheme, 'it, 'gen) ChatPipelineDependencies \<Rightarrow>
   ('x chat_world_scheme) PrepareInput \<Rightarrow> ChatOrganisationContext \<Rightarrow> BudgetStatus \<Rightarrow> PolicyDecision \<Rightarrow>
   ('x chat_world_scheme \<times> prep_locals, exn, 'gen PreparedChatStream) act" where
  "accept_request env D inp org budget d =
     act_then (set_local (\<lambda>l. l\<lparr>pl_policyAction := Some (pd_action d)\<rparr>))
    (act_bind (lift (act_read (startAcceptedChatMetrics (ce_hrtime env) (pd_action d)))) (\<lambda>started.
     act_bind (of_sum started) (\<lambda>m.
     act_then (set_local (\<lambda>l. l\<lparr>pl_metrics := Some m\<rparr>))
    (act_bind (lift (selectProductionCandidate (pr_request inp) D)) (\<lambda>c.
     act_bind (lift (provider_history D inp org budget)) (\<lambda>history.
       open_provider_stream env D inp org d m c history))))))"

text \<open>The \<^verbatim>\<open>try\<close> block.\<close>

definition prepare_reserved ::
  "('x chat_world_scheme) chat_env \<Rightarrow> ('x chat_world_scheme, 'it, 'gen) ChatPipelineDependencies \<Rightarrow>
   ('x chat_world_scheme) PrepareInput \<Rightarrow> ChatOrganisationContext \<Rightarrow>
   ('x chat_world_scheme \<times> prep_locals, exn, 'gen PreparedChatStream) act" where
  "prepare_reserved env D inp org =
     act_then (lift (call DRateLimit (dp_consumeRateLimit D (ac_orgId (pr_auth inp))
                 (ac_userId (pr_auth inp)) (oc_plan org))))
    (act_bind (lift (call_result DBudget (dp_readBudgetStatus D (ac_orgId (pr_auth inp))))) (\<lambda>budget.
     act_bind (lift (evaluate_prompt D org budget (rq_prompt (pr_request inp)))) (\<lambda>d.
     act_then (lift (call (DPolicyEvent d) (dp_emitPolicyEvent D (pr_requestId inp) d
                 (Some (ac_orgId (pr_auth inp), ac_userId (pr_auth inp))))))
    (act_then (of_sum (buildAuditMetadata (pd_riskScore d) (reason_label (pd_reasonCode d)) (length (pd_categories d))))
    (act_then (lift (call (DAudit (policy_audit inp d)) (dp_appendAudit D (policy_audit inp d))))
      (if pd_action d = BLOCK then block_request env D inp d
       else accept_request env D inp org budget d))))))"

text \<open>The \<^verbatim>\<open>catch\<close> block.\<close>

definition finish_metrics ::
  "('x chat_world_scheme) chat_env \<Rightarrow> ('x chat_world_scheme) PrepareInput \<Rightarrow>
   ('x chat_world_scheme \<times> prep_locals, exn, unit) act" where
  "finish_metrics env inp = (\<lambda>(w, l).
     (case pl_metrics l of
        None \<Rightarrow> (Inr (), (w, l))
      | Some m \<Rightarrow>
          (case metrics_finish (ce_hrtime env) (if pr_aborted inp w then out_INTERRUPTED else out_FAILED) m w of
             (Inl e, w') \<Rightarrow> (Inl e, (w', l))
           | (Inr m', w') \<Rightarrow> (Inr (), (w', l\<lparr>pl_metrics := Some m'\<rparr>)))))"

definition settle_reservation ::
  "('x chat_world_scheme) chat_env \<Rightarrow> ('x chat_world_scheme, 'it, 'gen) ChatPipelineDependencies \<Rightarrow>
   ('x chat_world_scheme) PrepareInput \<Rightarrow> ('x chat_world_scheme \<times> prep_locals, exn, unit) act" where
  "settle_reservation env D inp = (\<lambda>(w, l).
     (if pl_reservationFinalized l then act_ret ()
      else if pl_providerStarted l
      then act_bind (of_sum (requireProviderPolicyAction (pl_policyAction l))) (\<lambda>a.
             lift (recordUsageAndComplete env D
               \<lparr>ri_requestId = pr_requestId inp, ri_orgId = ac_orgId (pr_auth inp),
                ri_userId = ac_userId (pr_auth inp), ri_model = ce_groqModel env,
                ri_reservation = pl_reservation l\<rparr>
               \<lparr>ro_status = st_FAILED, ro_policyAction = a, ro_usage = None, ro_messagePersistence = None\<rparr>))
      else lift (call DRelease (dp_releaseBeforeExecution D (pl_reservation l)))) (w, l))"

definition prepare_failed ::
  "('x chat_world_scheme) chat_env \<Rightarrow> ('x chat_world_scheme, 'it, 'gen) ChatPipelineDependencies \<Rightarrow>
   ('x chat_world_scheme) PrepareInput \<Rightarrow> exn \<Rightarrow> ('x chat_world_scheme \<times> prep_locals, exn, 'a) act" where
  "prepare_failed env D inp e =
     act_then (finish_metrics env inp)
      (act_then (settle_reservation env D inp) (act_throw (normalizePreStreamError e)))"

definition initial_locals :: "IdempotencyReservation \<Rightarrow> prep_locals" where
  "initial_locals rs = \<lparr>pl_providerStarted = False, pl_reservationFinalized = False, pl_policyAction = None,
     pl_metrics = None, pl_reservation = rs\<rparr>"

definition with_locals :: "prep_locals \<Rightarrow> ('w \<times> prep_locals, exn, 'a) act \<Rightarrow> ('w, exn, 'a) act" where
  "with_locals l m w = (case m (w, l) of (r, wl) \<Rightarrow> (r, fst wl))"

definition prepareChatStream ::
  "('x chat_world_scheme) chat_env \<Rightarrow> ('x chat_world_scheme, 'it, 'gen) ChatPipelineDependencies \<Rightarrow>
   ('x chat_world_scheme) PrepareInput \<Rightarrow> ('x chat_world_scheme, exn, 'gen PreparedChatStream) act" where
  "prepareChatStream env D inp =
     act_then (call DOwner (dp_assertConversationOwner D (ac_orgId (pr_auth inp)) (ac_userId (pr_auth inp))
                 (rq_conversationId (pr_request inp))))
    (act_bind (call_result DOrganisation (dp_loadOrganisationContext D (ac_orgId (pr_auth inp)))) (\<lambda>org.
     act_then (of_sum (assertRoutingAllowed (pr_request inp) org))
    (act_bind (call DReserve (dp_reserve D (idempotency_input env inp))) (\<lambda>reservation.
       with_locals (initial_locals reservation)
         (act_catch (prepare_reserved env D inp org) (prepare_failed env D inp))))))"

section \<open>Finalisation\<close>

record FinalOutcome =
  fo_status :: RequestOutcomeStatus
  fo_usage :: "TokenUsage option"
  fo_assistantContent :: "jsstr option"

definition finalizeChatStream ::
  "('x chat_world_scheme) chat_env \<Rightarrow> ('x chat_world_scheme, 'it, 'gen) ChatPipelineDependencies \<Rightarrow>
   'gen PreparedChatStream \<Rightarrow> FinalOutcome \<Rightarrow> ('x chat_world_scheme, exn, unit) act" where
  "finalizeChatStream env D p oc =
     recordUsageAndComplete env D
       \<lparr>ri_requestId = ps_requestId p, ri_orgId = ps_orgId p, ri_userId = ps_userId p, ri_model = ps_model p,
        ri_reservation = ps_reservation p\<rparr>
       \<lparr>ro_status = fo_status oc,
        ro_policyAction = (if pd_action (ps_decision p) = ALLOW_WITH_MASK then ALLOW_WITH_MASK else ALLOW),
        ro_usage = fo_usage oc,
        ro_messagePersistence = map_option (\<lambda>c. \<lparr>mp_conversationId = ps_conversationId p,
            mp_retentionMode = ps_retentionMode p, mp_userContent = ps_originalUserContent p,
            mp_assistantContent = c\<rparr>) (fo_assistantContent oc)\<rparr>"

end
