(* ===== verification/ActionLogic.thy ===== *)
theory ActionLogic
  imports Prelude
begin

text \<open>
  Weakest preconditions for actions: \<open>wp m Q s\<close> says that \<open>m\<close>, run from \<open>s\<close>, ends with an outcome
  and a state that satisfy \<open>Q\<close>. Actions are total, so this is total correctness. The collection
  \<open>wp_simps\<close> computes the precondition along the structure of an action; what an unspecified
  call does enters through rules of the form \<open>wp_mono\<close>.
\<close>

named_theorems wp_simps

definition wp :: "('s, 'e, 'a) act \<Rightarrow> ('e + 'a \<Rightarrow> 's \<Rightarrow> bool) \<Rightarrow> 's \<Rightarrow> bool" where
  "wp m Q s \<longleftrightarrow> (case m s of (r, s') \<Rightarrow> Q r s')"

lemma wpI: "Q (fst (m s)) (snd (m s)) \<Longrightarrow> wp m Q s"
  by (simp add: wp_def case_prod_beta)

lemma wpD: "wp m Q s \<Longrightarrow> m s = (r, s') \<Longrightarrow> Q r s'"
  by (simp add: wp_def)

lemma wp_mono: "wp m P s \<Longrightarrow> (\<And>r s'. P r s' \<Longrightarrow> Q r s') \<Longrightarrow> wp m Q s"
  by (auto simp: wp_def)

lemma wp_conj: "wp m (\<lambda>r s'. P r s' \<and> Q r s') s \<longleftrightarrow> wp m P s \<and> wp m Q s"
  by (auto simp: wp_def)

lemma wp_ret [wp_simps]: "wp (act_ret x) Q s \<longleftrightarrow> Q (Inr x) s"
  by (simp add: wp_def)

lemma wp_throw [wp_simps]: "wp (act_throw e) Q s \<longleftrightarrow> Q (Inl e) s"
  by (simp add: wp_def)

lemma wp_modify [wp_simps]: "wp (act_modify f) Q s \<longleftrightarrow> Q (Inr ()) (f s)"
  by (simp add: wp_def)

lemma wp_read [wp_simps]: "wp (act_read f) Q s \<longleftrightarrow> Q (Inr (f s)) s"
  by (simp add: wp_def)

lemma wp_bind [wp_simps]:
  "wp (act_bind m k) Q s \<longleftrightarrow>
   wp m (\<lambda>r s'. case r of Inl e \<Rightarrow> Q (Inl e) s' | Inr x \<Rightarrow> wp (k x) Q s') s"
  by (auto simp: wp_def act_bind_apply split: prod.splits sum.splits)

lemma wp_then [wp_simps]:
  "wp (act_then m k) Q s \<longleftrightarrow>
   wp m (\<lambda>r s'. case r of Inl e \<Rightarrow> Q (Inl e) s' | Inr _ \<Rightarrow> wp k Q s') s"
  by (simp add: act_then_def wp_bind)

lemma wp_catch [wp_simps]:
  "wp (act_catch m h) Q s \<longleftrightarrow>
   wp m (\<lambda>r s'. case r of Inl e \<Rightarrow> wp (h e) Q s' | Inr x \<Rightarrow> Q (Inr x) s') s"
  by (auto simp: wp_def act_catch_apply split: prod.splits sum.splits)

lemma wp_finally [wp_simps]:
  "wp (act_finally m f) Q s \<longleftrightarrow>
   wp m (\<lambda>r. wp f (\<lambda>r'. Q (case r' of Inl e \<Rightarrow> Inl e | Inr _ \<Rightarrow> r))) s"
  by (auto simp: wp_def act_finally_apply split: prod.splits sum.splits)

lemma wp_of_sum [wp_simps]: "wp (of_sum r) Q s \<longleftrightarrow> Q r s"
  by (cases r) (simp_all add: of_sum_def wp_simps)

lemma wp_if: "(b \<Longrightarrow> wp m Q s) \<Longrightarrow> (\<not> b \<Longrightarrow> wp k Q s) \<Longrightarrow> wp (if b then m else k) Q s"
  by simp

text \<open>Every outcome satisfies a postcondition that holds everywhere.\<close>

lemma wp_trivial: "(\<And>r s'. Q r s') \<Longrightarrow> wp m Q s"
  by (simp add: wp_def case_prod_beta)

end
