(* ===== verification/ChatTrace.thy ===== *)
theory ChatTrace
  imports ChatService ActionLogic
begin

text \<open>
  What a run of the chat pipeline calls, and in which order: properties of the trace of
  dependency calls, for arbitrary dependencies.
\<close>

section \<open>Rules for calls\<close>

lemma wp_call_result:
  assumes "\<And>e w'. cw_calls w' = cw_calls w @ [ev None] \<Longrightarrow> Q (Inl e) w'"
    and "\<And>x w'. fst (m w) = Inr x \<Longrightarrow> cw_calls w' = cw_calls w @ [ev (Some x)] \<Longrightarrow> Q (Inr x) w'"
  shows "wp (call_result ev m) Q w"
  using assms by (auto simp: wp_def call_result_def split: prod.splits sum.splits)

lemma wp_call:
  assumes "\<And>e w'. cw_calls w' = cw_calls w @ [ev False] \<Longrightarrow> Q (Inl e) w'"
    and "\<And>x w'. cw_calls w' = cw_calls w @ [ev True] \<Longrightarrow> Q (Inr x) w'"
  shows "wp (call ev m) Q w"
  unfolding call_def by (rule wp_call_result) (simp_all add: assms)

lemma wp_lift [wp_simps]: "wp (lift m) Q (w, l) \<longleftrightarrow> wp m (\<lambda>r w'. Q r (w', l)) w"
  by (simp add: wp_def lift_def split: prod.split)

lemma wp_set_local [wp_simps]: "wp (set_local f) Q (w, l) \<longleftrightarrow> Q (Inr ()) (w, f l)"
  by (simp add: wp_def set_local_def)

lemma wp_with_locals [wp_simps]: "wp (with_locals l m) Q w \<longleftrightarrow> wp m (\<lambda>r wl. Q r (fst wl)) (w, l)"
  by (simp add: wp_def with_locals_def split: prod.split)

section \<open>Accounting\<close>

text \<open>The calls of one enqueue: the attempt and, when it failed, the record of the failure.\<close>

definition enqueue_trace :: "(bool \<Rightarrow> chat_call) \<Rightarrow> EnqueueRecoveryScope \<Rightarrow> chat_call list \<Rightarrow> bool" where
  "enqueue_trace ev scope t \<longleftrightarrow> t = [ev True] \<or> (\<exists>b. t = [ev False, DRecordFailure scope b])"

lemma enqueue_trace_ok: "enqueue_trace ev scope [ev True]"
  and enqueue_trace_failed: "enqueue_trace ev scope [ev False, DRecordFailure scope b]"
  by (simp_all add: enqueue_trace_def)

lemma wp_recordRecoveryFailureSafely:
  assumes "\<And>b w'. cw_calls w' = cw_calls w @ [DRecordFailure scope b] \<Longrightarrow> Q (Inr ()) w'"
  shows "wp (recordRecoveryFailureSafely D scope) Q w"
  unfolding recordRecoveryFailureSafely_def wp_catch
  by (rule wp_call) (auto simp: wp_simps intro: assms)

definition scope_of :: "RecordInput \<Rightarrow> EnqueueRecoveryQueueName \<Rightarrow> string \<Rightarrow> EnqueueRecoveryScope" where
  "scope_of i q jt = \<lparr>sc_orgId = ri_orgId i, sc_requestId = ri_requestId i, sc_queueName = q, sc_jobType = jt\<rparr>"

lemma wp_enqueue_billing:
  assumes "\<And>t w'. enqueue_trace (DEnqueueBilling job) (scope_of i billing_queue REQUEST_COMPLETED_JOB_TYPE) t \<Longrightarrow>
    cw_calls w' = cw_calls w @ t \<Longrightarrow> Q (Inr ()) w'"
  shows "wp (enqueue_billing D i job) Q w"
  unfolding enqueue_billing_def wp_catch
  by (rule wp_call) (auto simp: scope_of_def [symmetric] intro!: wp_recordRecoveryFailureSafely
      intro: assms [OF enqueue_trace_ok] assms [OF enqueue_trace_failed])

lemma wp_enqueue_analytics:
  assumes "\<And>t w'. enqueue_trace (DEnqueueAnalytics job)
      \<lparr>sc_orgId = jb_orgId job, sc_requestId = jb_requestId job, sc_queueName = analytics_queue, sc_jobType = jb_jobType job\<rparr> t \<Longrightarrow>
    cw_calls w' = cw_calls w @ t \<Longrightarrow> Q (Inr ()) w'"
  shows "wp (enqueue_analytics D job) Q w"
  unfolding enqueue_analytics_def wp_catch
  by (rule wp_call) (auto intro!: wp_recordRecoveryFailureSafely
      intro: assms [OF enqueue_trace_ok] assms [OF enqueue_trace_failed])

text \<open>
  The specification of the accounting: \<open>accounted i oc now r t\<close> relates the outcome \<open>r\<close> of
  \<^verbatim>\<open>recordUsageAndComplete\<close> to the calls \<open>t\<close> it makes. \<open>pe\<close> is the error of the message
  persistence, if it was attempted and failed.
\<close>

definition persist_trace :: "RecordInput \<Rightarrow> RecordOutcome \<Rightarrow> exn option \<Rightarrow> chat_call list \<Rightarrow> bool" where
  "persist_trace i oc pe t \<longleftrightarrow>
     (case ro_messagePersistence oc of
        Some m \<Rightarrow> if ro_status oc = st_COMPLETED then t = [DPersist (persist_input i oc m) (pe = None)]
                 else t = [] \<and> pe = None
      | None \<Rightarrow> t = [] \<and> pe = None)"

definition accounted ::
  "RecordInput \<Rightarrow> RecordOutcome \<Rightarrow> string \<Rightarrow> exn + unit \<Rightarrow> chat_call list \<Rightarrow> bool" where
  "accounted i oc now r t \<longleftrightarrow>
     (\<exists>e. r = Inl e \<and> t = [DUsage (usage_record i oc) False])
   \<or> (\<exists>pe tp tb ta b. t = DUsage (usage_record i oc) True # tp @ tb @ ta @ [DMarkCompleted b]
        \<and> persist_trace i oc pe tp
        \<and> enqueue_trace (DEnqueueBilling (completed_job i oc now)) (scope_of i billing_queue REQUEST_COMPLETED_JOB_TYPE) tb
        \<and> enqueue_trace (DEnqueueAnalytics (completed_job i oc now)) (scope_of i analytics_queue REQUEST_COMPLETED_JOB_TYPE) ta
        \<and> (b \<longrightarrow> r = (case pe of None \<Rightarrow> Inr () | Some e \<Rightarrow> Inl e)) \<and> (\<not> b \<longrightarrow> (\<exists>e. r = Inl e)))"

lemma accounted_done:
  assumes "persist_trace i oc pe tp"
    and "enqueue_trace (DEnqueueBilling (completed_job i oc now)) (scope_of i billing_queue REQUEST_COMPLETED_JOB_TYPE) tb"
    and "enqueue_trace (DEnqueueAnalytics (completed_job i oc now)) (scope_of i analytics_queue REQUEST_COMPLETED_JOB_TYPE) ta"
    and "b \<longrightarrow> r = (case pe of None \<Rightarrow> Inr () | Some e \<Rightarrow> Inl e)" and "\<not> b \<longrightarrow> (\<exists>e. r = Inl e)"
  shows "accounted i oc now r (DUsage (usage_record i oc) True # tp @ tb @ ta @ [DMarkCompleted b])"
  unfolding accounted_def using assms by blast

lemma wp_persist_messages:
  assumes "\<And>pe t w'. persist_trace i oc pe t \<Longrightarrow> cw_calls w' = cw_calls w @ t \<Longrightarrow> Q (Inr pe) w'"
  shows "wp (persist_messages D i oc) Q w"
proof (cases "\<exists>m. ro_messagePersistence oc = Some m \<and> ro_status oc = st_COMPLETED")
  case True
  then obtain m where m: "ro_messagePersistence oc = Some m" "ro_status oc = st_COMPLETED" by blast
  have "wp (call (DPersist (persist_input i oc m)) (dp_persistMessages D (persist_input i oc m)))
      (\<lambda>r s'. case r of Inl e \<Rightarrow> Q (Inr (Some e)) s' | Inr x \<Rightarrow> Q (Inr None) s') w"
    by (rule wp_call) (auto intro!: assms simp: persist_trace_def m)
  with m show ?thesis
    by (auto simp: persist_messages_def wp_simps elim!: wp_mono split: sum.splits)
next
  case False
  then have "persist_messages D i oc = act_ret None" by (auto simp: persist_messages_def split: option.split)
  moreover have "persist_trace i oc None []" using False by (auto simp: persist_trace_def split: option.split)
  ultimately show ?thesis by (simp add: wp_simps assms)
qed

lemma wp_rethrow:
  "wp (case pe of None \<Rightarrow> act_ret () | Some e \<Rightarrow> act_throw e) Q s \<longleftrightarrow> Q (case pe of None \<Rightarrow> Inr () | Some e \<Rightarrow> Inl e) s"
  by (simp add: wp_simps split: option.split)

lemma wp_recordUsageAndComplete:
  assumes "\<And>r t w'. accounted i oc (ce_now env w) r t \<Longrightarrow> cw_calls w' = cw_calls w @ t \<Longrightarrow> Q r w'"
  shows "wp (recordUsageAndComplete env D i oc) Q w"
proof -
  let ?job = "completed_job i oc (ce_now env w)" and ?u = "DUsage (usage_record i oc)"
  have scope: "\<lparr>sc_orgId = jb_orgId ?job, sc_requestId = jb_requestId ?job, sc_queueName = analytics_queue,
      sc_jobType = jb_jobType ?job\<rparr> = scope_of i analytics_queue REQUEST_COMPLETED_JOB_TYPE"
    by (simp add: completed_job_def scope_of_def)
  have end_ok: "wp (call DMarkCompleted (dp_markCompleted D (ri_reservation i)))
      (\<lambda>r'. Q (case r' of Inl e \<Rightarrow> Inl e | Inr _ \<Rightarrow> (case pe of None \<Rightarrow> Inr () | Some e \<Rightarrow> Inl e))) w4"
    if "cw_calls w4 = cw_calls w @ ?u True # tp @ tb @ ta" "persist_trace i oc pe tp"
      "enqueue_trace (DEnqueueBilling ?job) (scope_of i billing_queue REQUEST_COMPLETED_JOB_TYPE) tb"
      "enqueue_trace (DEnqueueAnalytics ?job) (scope_of i analytics_queue REQUEST_COMPLETED_JOB_TYPE) ta"
    for w4 pe tp tb ta
    using that(1) by (intro wp_call) (simp_all add: assms [OF accounted_done [OF that(2-4), of False]]
        assms [OF accounted_done [OF that(2-4), of True]])
  show ?thesis
    unfolding recordUsageAndComplete_def wp_bind wp_then wp_finally wp_read sum.case
  proof (rule wp_call, goal_cases)
    case (1 e w')
    then show ?case by (auto intro!: assms simp: accounted_def)
  next
    case (2 x w1)
    show ?case unfolding sum.case
    proof (rule wp_persist_messages, goal_cases)
      case (1 pe tp w2)
      show ?case unfolding sum.case
        by (rule wp_enqueue_billing, unfold sum.case, rule wp_enqueue_analytics,
            unfold sum.case scope wp_rethrow, rule end_ok)
           (use 1 2 in simp_all)
    qed
  qed
qed

end
