(* ===== verification/ChatProtocol.thy ===== *)
theory ChatProtocol
  imports ChatTrace
begin

text \<open>
  The protocol of the chat pipeline as an abstract state machine. A phase records what the run has
  established so far (organisation, budget, decision); \<open>chat_step\<close> says which dependency call is
  allowed next and with which arguments. The main lemma shows that \<^verbatim>\<open>prepareChatStream\<close>
  refines this machine, for every behaviour of the dependencies; the properties of the pipeline
  are then properties of the machine.
\<close>

section \<open>Phases\<close>

datatype chat_phase =
  Entered | Owned | Scoped ChatOrganisationContext
| Reserved ChatOrganisationContext | Limited ChatOrganisationContext
| Budgeted ChatOrganisationContext BudgetStatus
| Decided ChatOrganisationContext BudgetStatus PolicyDecision
| Announced ChatOrganisationContext BudgetStatus PolicyDecision
| Audited ChatOrganisationContext BudgetStatus PolicyDecision
| Selected ChatOrganisationContext BudgetStatus PolicyDecision
| Recalled ChatOrganisationContext BudgetStatus PolicyDecision "jsstr list"
| Streaming PolicyDecision | Answered PolicyDecision
| BlockAccounted PolicyDecision | BlockMissed PolicyDecision | BlockQueued PolicyDecision | Blocked PolicyDecision
| Refused | Halted

definition policy_input ::
  "ChatOrganisationContext \<Rightarrow> BudgetStatus \<Rightarrow> PiiPromptProcessingResult \<Rightarrow> PolicyEvaluationInput" where
  "policy_input org bg pii = \<lparr>in_pii = pii, in_risk = calculatePiiRisk (pp_classification pii),
     in_budget = bg, in_thresholds = oc_policy org\<rparr>"

text \<open>The contents the history may contribute: approved by a decision other than \<open>BLOCK\<close>.\<close>

definition approve_content ::
  "ChatOrganisationContext \<Rightarrow> BudgetStatus \<Rightarrow> jsstr \<Rightarrow> PiiPromptProcessingResult \<Rightarrow> jsstr list \<Rightarrow> jsstr list" where
  "approve_content org bg c pii oks =
     (case evaluatePolicy (policy_input org bg pii) of
        Inr d \<Rightarrow> if pd_action d = BLOCK then oks else approved_prompt d c # oks
      | Inl _ \<Rightarrow> oks)"

text \<open>The messages a stream may be opened with: the approved prompt last, before it only approved
  user contents and answers or instructions.\<close>

definition messages_allowed :: "'s PrepareInput \<Rightarrow> PolicyDecision \<Rightarrow> jsstr list \<Rightarrow> ProviderMessage list \<Rightarrow> bool" where
  "messages_allowed inp d oks msgs \<longleftrightarrow>
     msgs \<noteq> [] \<and> last msgs = \<lparr>pm_role = RoleUser, pm_content = approved_prompt d (rq_prompt (pr_request inp))\<rparr>
     \<and> (\<forall>m \<in> set (butlast msgs). pm_role m = RoleUser \<longrightarrow> pm_content m \<in> set oks)"

definition open_step ::
  "'s PrepareInput \<Rightarrow> ChatOrganisationContext \<Rightarrow> PolicyDecision \<Rightarrow> jsstr list \<Rightarrow> ProviderMessage list \<Rightarrow> int \<Rightarrow> bool \<Rightarrow>
   chat_phase option" where
  "open_step inp org d oks msgs mx b =
     (if messages_allowed inp d oks msgs \<and> mx \<le> maxOutputTokensPerRequest (oc_policy org)
      then Some (if b then Streaming d else Halted) else None)"

definition chat_step :: "'s PrepareInput \<Rightarrow> chat_phase \<Rightarrow> chat_call \<Rightarrow> chat_phase option" where
  "chat_step inp ph c = (case ph of
     Entered \<Rightarrow> (case c of DOwner b \<Rightarrow> Some (if b then Owned else Refused) | _ \<Rightarrow> None)
   | Owned \<Rightarrow> (case c of DOrganisation r \<Rightarrow> Some (case r of None \<Rightarrow> Refused | Some org \<Rightarrow> Scoped org) | _ \<Rightarrow> None)
   | Scoped org \<Rightarrow> (case c of
        DReserve b \<Rightarrow> if assertRoutingAllowed (pr_request inp) org = Inr ()
                      then Some (if b then Reserved org else Refused) else None
      | _ \<Rightarrow> None)
   | Reserved org \<Rightarrow> (case c of DRateLimit b \<Rightarrow> Some (if b then Limited org else Halted) | _ \<Rightarrow> None)
   | Limited org \<Rightarrow> (case c of DBudget r \<Rightarrow> Some (case r of None \<Rightarrow> Halted | Some bg \<Rightarrow> Budgeted org bg) | _ \<Rightarrow> None)
   | Budgeted org bg \<Rightarrow> (case c of
        DProcess p r \<Rightarrow>
          if p = rq_prompt (pr_request inp)
          then Some (case r of None \<Rightarrow> Halted
                 | Some pii \<Rightarrow> (case evaluatePolicy (policy_input org bg pii) of Inl _ \<Rightarrow> Halted | Inr d \<Rightarrow> Decided org bg d))
          else None
      | _ \<Rightarrow> None)
   | Decided org bg d \<Rightarrow> (case c of
        DPolicyEvent d' b \<Rightarrow> if d' = d then Some (if b then Announced org bg d else Halted) else None | _ \<Rightarrow> None)
   | Announced org bg d \<Rightarrow> (case c of
        DAudit a b \<Rightarrow> if a = policy_audit inp d then Some (if b then Audited org bg d else Halted) else None | _ \<Rightarrow> None)
   | Audited org bg d \<Rightarrow> (case c of
        DHealth p b \<Rightarrow> if pd_action d \<noteq> BLOCK \<and> p = groq then Some (if b then Selected org bg d else Halted) else None
      | DUsage u b \<Rightarrow> if pd_action d = BLOCK \<and> u = blocked_usage inp
                      then Some (if b then BlockAccounted d else Halted) else None
      | _ \<Rightarrow> None)
   | Selected org bg d \<Rightarrow> (case c of
        DHistory b \<Rightarrow> if oc_retentionMode org = ENCRYPTED_STORAGE
                      then Some (if b then Recalled org bg d [] else Halted) else None
      | DStream msgs mx b \<Rightarrow> open_step inp org d [] msgs mx b
      | _ \<Rightarrow> None)
   | Recalled org bg d oks \<Rightarrow> (case c of
        DProcess p r \<Rightarrow> Some (case r of None \<Rightarrow> Halted | Some pii \<Rightarrow> Recalled org bg d (approve_content org bg p pii oks))
      | DStream msgs mx b \<Rightarrow> open_step inp org d oks msgs mx b
      | _ \<Rightarrow> None)
   | Streaming d \<Rightarrow> (case c of DNext b \<Rightarrow> Some (if b then Answered d else Streaming d) | _ \<Rightarrow> None)
   | BlockAccounted d \<Rightarrow> (case c of
        DEnqueueAnalytics job b \<Rightarrow> if job = blocked_job inp (jb_occurredAt job)
                      then Some (if b then BlockQueued d else BlockMissed d) else None
      | _ \<Rightarrow> None)
   | BlockMissed d \<Rightarrow> (case c of DRecordFailure scope b \<Rightarrow> Some (BlockQueued d) | _ \<Rightarrow> None)
   | BlockQueued d \<Rightarrow> (case c of DMarkCompleted b \<Rightarrow> Some (if b then Blocked d else Halted) | _ \<Rightarrow> None)
   | _ \<Rightarrow> None)"

fun chat_run :: "'s PrepareInput \<Rightarrow> chat_phase \<Rightarrow> chat_call list \<Rightarrow> chat_phase option" where
  "chat_run inp ph [] = Some ph"
| "chat_run inp ph (c # cs) = (case chat_step inp ph c of None \<Rightarrow> None | Some ph' \<Rightarrow> chat_run inp ph' cs)"

lemma chat_run_append:
  "chat_run inp ph (cs @ ds) = (case chat_run inp ph cs of None \<Rightarrow> None | Some ph' \<Rightarrow> chat_run inp ph' ds)"
  by (induction inp ph cs rule: chat_run.induct) (simp_all split: option.split)

text \<open>The reservation is held and no provider was started; the provider was started.\<close>

fun holding :: "chat_phase \<Rightarrow> bool" where
  "holding (Reserved _) = True" | "holding (Limited _) = True" | "holding (Budgeted _ _) = True"
| "holding (Decided _ _ _) = True" | "holding (Announced _ _ _) = True" | "holding (Audited _ _ _) = True"
| "holding (Selected _ _ _) = True" | "holding (Recalled _ _ _ _) = True"
| "holding (BlockAccounted _) = True" | "holding (BlockMissed _) = True" | "holding (BlockQueued _) = True"
| "holding Halted = True" | "holding _ = False"

fun started_with :: "chat_phase \<Rightarrow> PolicyDecision option" where
  "started_with (Streaming d) = Some d" | "started_with (Answered d) = Some d" | "started_with _ = None"

lemmas chat_step_simps = chat_step_def [of _ Entered] chat_step_def [of _ Owned] chat_step_def [of _ "Scoped _"]
  chat_step_def [of _ "Reserved _"] chat_step_def [of _ "Limited _"] chat_step_def [of _ "Budgeted _ _"]
  chat_step_def [of _ "Decided _ _ _"] chat_step_def [of _ "Announced _ _ _"] chat_step_def [of _ "Audited _ _ _"]
  chat_step_def [of _ "Selected _ _ _"] chat_step_def [of _ "Recalled _ _ _ _"] chat_step_def [of _ "Streaming _"]
  chat_step_def [of _ "BlockAccounted _"] chat_step_def [of _ "BlockMissed _"] chat_step_def [of _ "BlockQueued _"]

section \<open>The rule for one call\<close>

definition in_phase :: "'s PrepareInput \<Rightarrow> 'x chat_world_scheme \<Rightarrow> chat_phase \<Rightarrow> 'x chat_world_scheme \<Rightarrow> bool" where
  "in_phase inp w0 ph w \<longleftrightarrow> (\<exists>t. cw_calls w = cw_calls w0 @ t \<and> chat_run inp Entered t = Some ph)"

lemma in_phase_start: "in_phase inp w Entered w"
  by (simp add: in_phase_def)

lemma in_phase_step:
  "in_phase inp w0 ph w \<Longrightarrow> cw_calls w' = cw_calls w @ [c] \<Longrightarrow> chat_step inp ph c = Some ph' \<Longrightarrow> in_phase inp w0 ph' w'"
  by (auto simp: in_phase_def chat_run_append)

lemma in_phase_metric [simp]: "in_phase inp w0 ph (log_metric x w) = in_phase inp w0 ph w"
  by (simp add: in_phase_def log_metric_def)

lemma wp_call_phase:
  assumes "in_phase inp w0 ph w" and "chat_step inp ph (ev False) = Some p1" and "chat_step inp ph (ev True) = Some p2"
    and "\<And>e w'. in_phase inp w0 p1 w' \<Longrightarrow> Q (Inl e) w'" and "\<And>x w'. in_phase inp w0 p2 w' \<Longrightarrow> Q (Inr x) w'"
  shows "wp (call ev m) Q w"
  by (rule wp_call) (use assms in_phase_step in metis)+

lemma wp_call_result_phase:
  assumes "in_phase inp w0 ph w" and "chat_step inp ph (ev None) = Some p1"
    and "\<And>x. chat_step inp ph (ev (Some x)) = Some (p2 x)"
    and "\<And>e w'. in_phase inp w0 p1 w' \<Longrightarrow> Q (Inl e) w'" and "\<And>x w'. in_phase inp w0 (p2 x) w' \<Longrightarrow> Q (Inr x) w'"
  shows "wp (call_result ev m) Q w"
  by (rule wp_call_result) (use assms in_phase_step in metis)+

section \<open>The history\<close>

lemma evaluate_prompt_alt:
  "evaluate_prompt D org bg c = act_bind (call_result (DProcess c) (dp_processPrompt D c))
     (\<lambda>pii. of_sum (evaluatePolicy (policy_input org bg pii)))"
  by (simp add: evaluate_prompt_def policy_input_def)

lemma wp_evaluate_history:
  assumes "in_phase inp w0 (Recalled org bg d oks) w"
    and fail: "\<And>e ph w'. holding ph \<Longrightarrow> in_phase inp w0 ph w' \<Longrightarrow> Q (Inl e) w'"
    and ok: "\<And>d' w'. in_phase inp w0 (Recalled org bg d
        (if pd_action d' = BLOCK then oks else approved_prompt d' c # oks)) w' \<Longrightarrow> Q (Inr d') w'"
  shows "wp (evaluate_prompt D org bg c) Q w"
  unfolding evaluate_prompt_alt wp_bind wp_of_sum
proof (rule wp_call_result_phase [OF assms(1)])
  show "chat_step inp (Recalled org bg d oks) (DProcess c None) = Some Halted" by (simp add: chat_step_simps)
  show "chat_step inp (Recalled org bg d oks) (DProcess c (Some x)) = Some (Recalled org bg d (approve_content org bg c x oks))" for x
    by (simp add: chat_step_simps)
next
  fix e w' assume "in_phase inp w0 Halted w'"
  then show "case Inl e of Inl e \<Rightarrow> Q (Inl e) w' | Inr x \<Rightarrow> Q (evaluatePolicy (policy_input org bg x)) w'"
    using fail [of Halted] by simp
next
  fix x w' assume "in_phase inp w0 (Recalled org bg d (approve_content org bg c x oks)) w'"
  then show "case Inr x of Inl e \<Rightarrow> Q (Inl e) w' | Inr x \<Rightarrow> Q (evaluatePolicy (policy_input org bg x)) w'"
    using ok fail [of "Recalled org bg d (approve_content org bg c x oks)"]
    by (cases "evaluatePolicy (policy_input org bg x)") (auto simp: approve_content_def)
qed

lemma wp_sanitizeUserContent:
  assumes "in_phase inp w0 (Recalled org bg d oks) w"
    and fail: "\<And>e ph w'. holding ph \<Longrightarrow> in_phase inp w0 ph w' \<Longrightarrow> Q (Inl e) w'"
    and ok: "\<And>r oks' w'. in_phase inp w0 (Recalled org bg d oks') w' \<Longrightarrow> set oks \<subseteq> set oks' \<Longrightarrow>
        set_option r \<subseteq> set oks' \<Longrightarrow> Q (Inr r) w'"
  shows "wp (sanitizeUserContent D org bg c) Q w"
  unfolding sanitizeUserContent_def wp_bind wp_ret
proof (rule wp_evaluate_history [OF assms(1)], goal_cases)
  case (1 e ph w')
  then show ?case by (simp add: fail)
next
  case (2 d' w')
  then show ?case using ok [OF 2, of None] ok [OF 2, of "Some (approved_prompt d' c)"] by (auto simp: subset_insertI)
qed

definition approved_pairs :: "jsstr list \<Rightarrow> (ProviderMessage \<times> ProviderMessage) list \<Rightarrow> bool" where
  "approved_pairs oks ps \<longleftrightarrow> (\<forall>p \<in> set ps. pm_content (fst p) \<in> set oks \<and> pm_role (snd p) = RoleAssistant)"

lemma wp_approve_pairs:
  assumes "in_phase inp w0 (Recalled org bg d oks) w"
    and fail: "\<And>e ph w'. holding ph \<Longrightarrow> in_phase inp w0 ph w' \<Longrightarrow> Q (Inl e) w'"
    and ok: "\<And>ps oks' w'. in_phase inp w0 (Recalled org bg d oks') w' \<Longrightarrow> set oks \<subseteq> set oks' \<Longrightarrow>
        approved_pairs oks' ps \<Longrightarrow> Q (Inr ps) w'"
  shows "wp (approve_pairs (sanitizeUserContent D org bg) pairs) Q w"
  using assms
proof (induction pairs arbitrary: oks w Q)
  case Nil
  show ?case unfolding approve_pairs.simps wp_ret by (rule Nil(3) [OF Nil(1)]) (simp_all add: approved_pairs_def)
next
  case (Cons p pairs)
  show ?case
  proof (cases "\<exists>u a. hp_user p = Some u \<and> hp_assistant p = Some a")
    case False
    then have "approve_pairs (sanitizeUserContent D org bg) (p # pairs) = approve_pairs (sanitizeUserContent D org bg) pairs"
      by (auto split: option.split)
    with Cons show ?thesis by simp
  next
    case True
    then obtain u a where ua: "hp_user p = Some u" "hp_assistant p = Some a" by blast
    show ?thesis
      unfolding approve_pairs.simps ua prod.case option.case wp_bind wp_ret
    proof (rule wp_sanitizeUserContent [OF Cons.prems(1)], goal_cases)
      case (1 e ph w')
      then show ?case by (simp add: Cons.prems(2))
    next
      case (2 r oks1 w1)
      show ?case unfolding sum.case
      proof (rule Cons.IH [OF 2(1)], goal_cases)
        case (1 e ph w')
        then show ?case by (simp add: Cons.prems(2))
      next
        case (2 ps oks' w')
        with \<open>set oks \<subseteq> set oks1\<close> \<open>set_option r \<subseteq> set oks1\<close> show ?case
          by (cases r) (auto intro!: Cons.prems(3) simp: approved_pairs_def)
      qed
    qed
  qed
qed

lemma wp_provider_history:
  assumes sel: "in_phase inp w0 (Selected org bg d) w"
    and fail: "\<And>e ph w'. holding ph \<Longrightarrow> in_phase inp w0 ph w' \<Longrightarrow> Q (Inl e) w'"
    and none: "\<And>w'. in_phase inp w0 (Selected org bg d) w' \<Longrightarrow> Q (Inr []) w'"
    and ok: "\<And>ms oks w'. in_phase inp w0 (Recalled org bg d oks) w' \<Longrightarrow>
        (\<forall>m \<in> set ms. pm_role m = RoleUser \<longrightarrow> pm_content m \<in> set oks) \<Longrightarrow> Q (Inr ms) w'"
  shows "wp (provider_history D inp org bg) Q w"
proof (cases "oc_retentionMode org = ENCRYPTED_STORAGE")
  case False
  then show ?thesis using none [OF sel] by (simp only: provider_history_def if_False wp_ret)
next
  case True
  show ?thesis
    unfolding provider_history_def if_P [OF True] wp_bind
  proof (rule wp_call_phase [OF sel, of _ Halted "Recalled org bg d []"], goal_cases)
    case (3 e w')
    then show ?case using fail [of Halted] by simp
  next
    case (4 messages w1)
    show ?case
      unfolding sum.case buildBoundedProviderHistory_def wp_bind Let_def wp_ret
    proof (rule wp_approve_pairs [OF 4], goal_cases)
      case (1 e ph w')
      then show ?case by (simp add: fail)
    next
      case (2 ps oks w')
      obtain k where k: "select_pairs MAX_PROVIDER_HISTORY_ESTIMATED_TOKENS [] 0 (rev ps) = take k (rev ps)"
        using select_pairs_prefix [of MAX_PROVIDER_HISTORY_ESTIMATED_TOKENS "[]" 0 "rev ps"] by auto
      then have sub: "set (select_pairs MAX_PROVIDER_HISTORY_ESTIMATED_TOKENS [] 0 (rev ps)) \<subseteq> set ps"
        using set_take_subset [of k "rev ps"] by simp
      show ?case unfolding sum.case option.case
        by (rule ok [OF 2(1)]) (use 2(3) sub in \<open>fastforce simp: approved_pairs_def\<close>)
    qed
  qed (simp_all add: chat_step_simps True)
qed

lemma messages_allowed_built:
  assumes "\<forall>m \<in> set ms. pm_role m = RoleUser \<longrightarrow> pm_content m \<in> set oks"
  shows "messages_allowed inp d oks (br_messages (stream_request env inp org d ms c))"
  using assms by (auto simp: messages_allowed_def stream_request_def buildProductAwareProviderMessages_def Let_def butlast_append)

section \<open>The refinement\<close>

definition locals_match :: "chat_phase \<Rightarrow> prep_locals \<Rightarrow> bool" where
  "locals_match ph l \<longleftrightarrow>
     holding ph \<and> \<not> pl_providerStarted l \<and> \<not> pl_reservationFinalized l
   \<or> (\<exists>d. started_with ph = Some d \<and> pl_providerStarted l \<and> \<not> pl_reservationFinalized l
          \<and> pl_policyAction l = Some (pd_action d))
   \<or> (\<exists>d. ph = Blocked d \<and> pl_reservationFinalized l)"

text \<open>What holds after the \<^verbatim>\<open>try\<close> block.\<close>

definition reserved_post ::
  "'s PrepareInput \<Rightarrow> 'x chat_world_scheme \<Rightarrow> exn + 'gen PreparedChatStream \<Rightarrow> 'x chat_world_scheme \<times> prep_locals \<Rightarrow> bool" where
  "reserved_post inp w0 r wl \<longleftrightarrow>
     (\<exists>ph. in_phase inp w0 ph (fst wl) \<and> locals_match ph (snd wl)
        \<and> (\<forall>p. r = Inr p \<longrightarrow> ph = Answered (ps_decision p))
        \<and> (\<forall>d. ph = Blocked d \<longrightarrow> r = Inl (policy_blocked d)))"

lemma reserved_post_failed:
  "in_phase inp w0 ph w \<Longrightarrow> holding ph \<Longrightarrow> \<not> pl_providerStarted l \<Longrightarrow> \<not> pl_reservationFinalized l \<Longrightarrow>
   reserved_post inp w0 (Inl e) (w, l)"
  by (auto simp: reserved_post_def locals_match_def)

lemma reserved_post_started:
  "in_phase inp w0 (Streaming d) w \<or> in_phase inp w0 (Answered d) w \<Longrightarrow> pl_providerStarted l \<Longrightarrow>
   \<not> pl_reservationFinalized l \<Longrightarrow> pl_policyAction l = Some (pd_action d) \<Longrightarrow> reserved_post inp w0 (Inl e) (w, l)"
  by (auto simp: reserved_post_def locals_match_def)

lemma markProviderStarted_groq:
  "\<exists>m'. metrics_markProviderStarted hr groq m w = Inr m'"
  by (auto simp: metrics_markProviderStarted_def requireApprovedMetricLabel_def ENABLED_PRODUCTION_PROVIDER_IDS_def
      split: option.split)

lemma wp_open_provider_stream:
  assumes ph: "in_phase inp w0 ph w" and step: "\<And>b. chat_step inp ph (DStream (br_messages (stream_request env inp org d ms c))
      (br_maxOutputTokens (stream_request env inp org d ms c)) b) = Some (if b then Streaming d else Halted)"
    and l: "\<not> pl_providerStarted l" "\<not> pl_reservationFinalized l" "pl_policyAction l = Some (pd_action d)"
    and groq: "ad_providerId (adapter c) = groq"
  shows "wp (open_provider_stream env D inp org d m c ms) (reserved_post inp w0) (w, l)"
  unfolding open_provider_stream_def Let_def wp_bind wp_then wp_lift wp_set_local wp_read
proof (rule wp_call_phase [OF ph, of _ Halted "Streaming d"], goal_cases)
  case (3 e w')
  then show ?case using l by (simp add: reserved_post_failed)
next
  case (4 it w1)
  obtain m' where m': "metrics_markProviderStarted (ce_hrtime env) groq m w1 = Inr m'"
    using markProviderStarted_groq by blast
  show ?case
    unfolding sum.case wp_set_local wp_lift wp_read groq m' wp_of_sum
  proof (rule wp_call_phase [OF 4, of _ "Streaming d" "Answered d"], goal_cases)
    case (3 e w')
    then show ?case using l by (simp add: reserved_post_started [of _ _ d])
  next
    case (4 x w')
    show ?case
    proof (cases "fst x")
      case None
      with 4 l show ?thesis by (simp add: case_prod_beta wp_throw reserved_post_started [of _ _ d])
    next
      case (Some chunk)
      with 4 l show ?thesis
        by (simp add: case_prod_beta wp_bind wp_read wp_ret) (auto simp: reserved_post_def locals_match_def prepared_stream_def)
    qed
  qed (simp_all add: chat_step_simps)
qed (simp_all add: step)

lemma wp_selectProductionCandidate:
  assumes aud: "in_phase inp w0 (Audited org bg d) w" and act: "pd_action d \<noteq> BLOCK"
    and fail: "\<And>e ph w'. holding ph \<Longrightarrow> in_phase inp w0 ph w' \<Longrightarrow> Q (Inl e) w'"
    and ok: "\<And>c w'. in_phase inp w0 (Selected org bg d) w' \<Longrightarrow> ad_providerId (adapter c) = groq \<Longrightarrow> Q (Inr c) w'"
  shows "wp (selectProductionCandidate rq D) Q w"
proof (cases "find (\<lambda>c. ad_providerId (adapter c) = groq) (dp_candidates D)")
  case None
  then show ?thesis using fail [OF _ aud] by (simp add: selectProductionCandidate_def wp_throw)
next
  case (Some c)
  then have groq: "ad_providerId (adapter c) = groq" by (auto simp: find_Some_iff)
  show ?thesis
    unfolding selectProductionCandidate_def Some option.case
  proof (rule wp_if, goal_cases)
    case 1
    then show ?case using fail [OF _ aud] by (simp add: wp_throw)
  next
    case 2
    show ?case unfolding wp_bind
    proof (rule wp_call_phase [OF aud, of _ Halted "Selected org bg d"], goal_cases)
      case (3 e w')
      then show ?case using fail [of Halted] by simp
    next
      case (4 health w')
      then show ?case unfolding sum.case using fail [OF _ 4] ok [OF 4 groq] by (simp add: wp_simps)
    qed (simp_all add: chat_step_simps act groq)
  qed
qed

lemma stream_step_allowed:
  assumes "\<forall>m \<in> set ms. pm_role m = RoleUser \<longrightarrow> pm_content m \<in> set oks"
  shows "open_step inp org d oks (br_messages (stream_request env inp org d ms c))
      (br_maxOutputTokens (stream_request env inp org d ms c)) b = Some (if b then Streaming d else Halted)"
  using messages_allowed_built [OF assms] by (simp add: open_step_def stream_request_def)

lemma wp_accept_request:
  assumes "in_phase inp w0 (Audited org bg d) w" and "pd_action d \<noteq> BLOCK"
    and l: "\<not> pl_providerStarted l" "\<not> pl_reservationFinalized l"
  shows "wp (accept_request env D inp org bg d) (reserved_post inp w0) (w, l)"
proof -
  obtain m where m: "startAcceptedChatMetrics (ce_hrtime env) (pd_action d) w = Inr m"
    using startAcceptedChatMetrics_returns by blast
  let ?l = "l\<lparr>pl_policyAction := Some (pd_action d), pl_metrics := Some m\<rparr>"
  show ?thesis
    unfolding accept_request_def wp_bind wp_then wp_lift wp_set_local sum.case wp_read m wp_of_sum
  proof (rule wp_selectProductionCandidate [OF assms(1,2)], goal_cases)
    case (1 e ph w')
    then show ?case using l by (simp add: reserved_post_failed)
  next
    case (2 c w1)
    show ?case unfolding sum.case wp_lift
    proof (rule wp_provider_history [OF 2(1)], goal_cases)
      case (1 e ph w')
      then show ?case using l by (simp add: reserved_post_failed)
    next
      case (2 w')
      show ?case unfolding sum.case
        by (rule wp_open_provider_stream [OF 2])
           (use l \<open>ad_providerId (adapter c) = groq\<close> in \<open>simp_all add: chat_step_simps stream_step_allowed\<close>)
    next
      case (3 ms oks w')
      show ?case unfolding sum.case
        by (rule wp_open_provider_stream [OF 3(1)])
           (use l \<open>ad_providerId (adapter c) = groq\<close> 3(2) in \<open>simp_all add: chat_step_simps stream_step_allowed\<close>)
    qed
  qed
qed

lemma in_phase_recordBlocked [simp]: "in_phase inp w0 ph (recordBlockedChat w) = in_phase inp w0 ph w"
  by (simp add: recordBlockedChat_def)

lemma wp_block_analytics:
  assumes "in_phase inp w0 (BlockAccounted d) w" and "\<And>w'. in_phase inp w0 (BlockQueued d) w' \<Longrightarrow> Q (Inr ()) w'"
  shows "wp (enqueue_analytics D (blocked_job inp now)) Q w"
proof (rule wp_enqueue_analytics, goal_cases)
  case t: (1 t w')
  have "blocked_job inp now = blocked_job inp (jb_occurredAt (blocked_job inp now))" by (simp add: blocked_job_def)
  then have "chat_run inp (BlockAccounted d) t = Some (BlockQueued d)"
    using t(1) by (auto simp: enqueue_trace_def chat_step_simps)
  with assms(1) t(2) have "in_phase inp w0 (BlockQueued d) w'" by (auto simp: in_phase_def chat_run_append)
  then show ?case by (rule assms(2))
qed

lemma wp_block_request:
  assumes "in_phase inp w0 (Audited org bg d) w" and "pd_action d = BLOCK"
    and l: "\<not> pl_providerStarted l" "\<not> pl_reservationFinalized l"
  shows "wp (block_request env D inp d) (reserved_post inp w0) (w, l)"
  unfolding block_request_def wp_bind wp_then wp_lift wp_set_local sum.case wp_read wp_modify
proof (rule wp_call_phase [of inp w0 "Audited org bg d" _ _ Halted "BlockAccounted d"], goal_cases)
  case (4 e w')
  then show ?case using l by (simp add: reserved_post_failed)
next
  case (5 x w1)
  show ?case unfolding sum.case wp_lift
  proof (rule wp_block_analytics [OF 5], goal_cases)
    case (1 w2)
    show ?case unfolding sum.case wp_lift prod.case
    proof (rule wp_call_phase [OF 1, of _ Halted "Blocked d"], goal_cases)
      case (3 e w')
      then show ?case using l by (simp add: reserved_post_failed)
    next
      case (4 x w')
      then show ?case by (auto simp: wp_simps reserved_post_def locals_match_def)
    qed (simp_all add: chat_step_simps)
  qed
qed (use assms in \<open>simp_all add: chat_step_simps\<close>)

lemma wp_prepare_reserved:
  assumes "in_phase inp w0 (Reserved org) w" and l: "\<not> pl_providerStarted l" "\<not> pl_reservationFinalized l"
  shows "wp (prepare_reserved env D inp org) (reserved_post inp w0) (w, l)"
  unfolding prepare_reserved_def wp_bind wp_then wp_lift
proof (rule wp_call_phase [OF assms(1), of _ Halted "Limited org"], goal_cases)
  case (3 e w')
  then show ?case using l by (simp add: reserved_post_failed)
next
  case (4 x w1)
  show ?case unfolding sum.case wp_lift
  proof (rule wp_call_result_phase [OF 4, of _ Halted "\<lambda>bg. Budgeted org bg"], goal_cases)
    case (3 e w')
    then show ?case using l by (simp add: reserved_post_failed)
  next
    case (4 bg w2)
    show ?case unfolding sum.case wp_lift evaluate_prompt_alt wp_bind wp_of_sum
    proof (rule wp_call_result_phase [OF 4, of _ Halted "\<lambda>pii. case evaluatePolicy (policy_input org bg pii) of
          Inl _ \<Rightarrow> Halted | Inr d \<Rightarrow> Decided org bg d"], goal_cases)
      case (3 e w')
      then show ?case using l by (simp add: reserved_post_failed)
    next
      case (4 pii w3)
      show ?case
      proof (cases "evaluatePolicy (policy_input org bg pii)")
        case (Inl e)
        with 4 l show ?thesis by (simp add: reserved_post_failed)
      next
        case (Inr d)
        with 4 have dec: "in_phase inp w0 (Decided org bg d) w3" by simp
        show ?thesis unfolding sum.case Inr wp_lift
        proof (rule wp_call_phase [OF dec, of _ Halted "Announced org bg d"], goal_cases)
          case (3 e w')
          then show ?case using l by (simp add: reserved_post_failed)
        next
          case (4 x w4)
          show ?case unfolding sum.case wp_of_sum
          proof (cases "buildAuditMetadata (pd_riskScore d) (reason_label (pd_reasonCode d)) (length (pd_categories d))", goal_cases)
            case (1 e)
            with 4 l show ?case by (simp add: reserved_post_failed)
          next
            case (2 u)
            show ?case unfolding 2 sum.case wp_lift
            proof (rule wp_call_phase [OF 4, of _ Halted "Audited org bg d"], goal_cases)
              case (3 e w')
              then show ?case using l by (simp add: reserved_post_failed)
            next
              case (4 x w5)
              then show ?case unfolding sum.case using l
                by (auto intro!: wp_if wp_block_request wp_accept_request)
            qed (simp_all add: chat_step_simps)
          qed
        qed (simp_all add: chat_step_simps)
      qed
    qed (simp_all add: chat_step_simps)
  qed (simp_all add: chat_step_simps)
qed (simp_all add: chat_step_simps)

text \<open>The \<^verbatim>\<open>catch\<close> block settles the reservation once.\<close>

definition failed_input :: "'s chat_env \<Rightarrow> 's PrepareInput \<Rightarrow> IdempotencyReservation \<Rightarrow> RecordInput" where
  "failed_input env inp rs = \<lparr>ri_requestId = pr_requestId inp, ri_orgId = ac_orgId (pr_auth inp),
     ri_userId = ac_userId (pr_auth inp), ri_model = ce_groqModel env, ri_reservation = rs\<rparr>"

definition failed_outcome :: "PolicyDecision \<Rightarrow> RecordOutcome" where
  "failed_outcome d = \<lparr>ro_status = st_FAILED, ro_policyAction = pd_action d, ro_usage = None, ro_messagePersistence = None\<rparr>"

definition is_app :: "exn \<Rightarrow> bool" where
  "is_app e \<longleftrightarrow> (\<exists>a. e = ExnApp a)"

lemma is_app_normalized [simp]: "is_app (normalizePreStreamError e)"
  by (simp add: is_app_def normalizePreStreamError_def app_exn_def split: exn.split)

lemma normalize_policy_blocked [simp]: "normalizePreStreamError (policy_blocked d) = policy_blocked d"
  by (simp add: normalizePreStreamError_def policy_blocked_def)

text \<open>How a failed preparation ends, by the phase it had reached.\<close>

definition settled :: "'s chat_env \<Rightarrow> 's PrepareInput \<Rightarrow> chat_phase \<Rightarrow> exn \<Rightarrow> chat_call list \<Rightarrow> bool" where
  "settled env inp ph e t \<longleftrightarrow>
     (if holding ph then \<exists>b. t = [DRelease b] \<and> (b \<longrightarrow> is_app e)
      else case started_with ph of
        Some d \<Rightarrow> \<exists>rs now r. accounted (failed_input env inp rs) (failed_outcome d) now r t
                    \<and> (case r of Inl e' \<Rightarrow> e = e' | Inr _ \<Rightarrow> is_app e)
      | None \<Rightarrow> t = [])"

definition prepared_trace ::
  "'s chat_env \<Rightarrow> 's PrepareInput \<Rightarrow> exn + 'gen PreparedChatStream \<Rightarrow> chat_call list \<Rightarrow> bool" where
  "prepared_trace env inp r t \<longleftrightarrow>
     (\<exists>ph t1 t2. t = t1 @ t2 \<and> chat_run inp Entered t1 = Some ph
        \<and> (case r of Inr p \<Rightarrow> ph = Answered (ps_decision p) \<and> t2 = []
            | Inl e \<Rightarrow> settled env inp ph e t2 \<and> (\<forall>d. ph = Blocked d \<longrightarrow> e = policy_blocked d)))"

lemma settled_started:
  "started_with ph = Some d \<Longrightarrow> accounted (failed_input env inp rs) (failed_outcome d) now r t \<Longrightarrow>
   (case r of Inl e' \<Rightarrow> e = e' | Inr _ \<Rightarrow> is_app e) \<Longrightarrow> settled env inp ph e t"
  unfolding settled_def by (cases ph) auto

lemma wp_finish_metrics:
  assumes "\<And>w' mm. cw_calls w' = cw_calls w \<Longrightarrow> Q (Inr ()) (w', l\<lparr>pl_metrics := mm\<rparr>)"
  shows "wp (finish_metrics env inp) Q (w, l)"
proof (cases "pl_metrics l")
  case None
  with assms [of w None] show ?thesis by (cases l) (simp add: wp_def finish_metrics_def)
next
  case (Some m)
  let ?oc = "if pr_aborted inp w then out_INTERRUPTED else out_FAILED"
  obtain m' w' where m': "metrics_finish (ce_hrtime env) ?oc m w = (Inr m', w')"
    using metrics_finish_returns [of "ce_hrtime env" ?oc m w] by (metis prod.collapse)
  then have "cw_calls w' = cw_calls w"
    by (auto simp: metrics_finish_def log_metric_def Let_def split: if_splits sum.splits)
  with assms m' Some show ?thesis by (simp add: wp_def finish_metrics_def)
qed

lemma wp_prepare_failed:
  assumes "in_phase inp w0 ph w" and match: "locals_match ph l" and blocked: "\<forall>d. ph = Blocked d \<longrightarrow> e = policy_blocked d"
    and post: "\<And>e' t w' l'. settled env inp ph e' t \<Longrightarrow> \<forall>d. ph = Blocked d \<longrightarrow> e' = policy_blocked d \<Longrightarrow>
      cw_calls w' = cw_calls w @ t \<Longrightarrow> Q (Inl e') (w', l')"
  shows "wp (prepare_failed env D inp e) Q (w, l)"
  unfolding prepare_failed_def wp_then wp_throw
proof (rule wp_finish_metrics, goal_cases)
  case (1 w1 mm)
  consider (hold) "holding ph" "\<not> pl_providerStarted l" "\<not> pl_reservationFinalized l"
    | (start) d where "started_with ph = Some d" "pl_providerStarted l" "\<not> pl_reservationFinalized l"
        "pl_policyAction l = Some (pd_action d)"
    | (block) d where "ph = Blocked d" "pl_reservationFinalized l"
    using match by (auto simp: locals_match_def)
  then show ?case
  proof cases
    case hold
    have rel: "Q (Inl e') (w', l')" if "b \<longrightarrow> is_app e'" "cw_calls w' = cw_calls w @ [DRelease b]" for b e' w' l'
      by (rule post [of _ "[DRelease b]"]) (use that hold in \<open>auto simp: settled_def\<close>)
    have "wp (call DRelease (dp_releaseBeforeExecution D (pl_reservation l)))
        (\<lambda>r w'. case r of Inl e \<Rightarrow> Q (Inl e) (w', l\<lparr>pl_metrics := mm\<rparr>)
          | Inr _ \<Rightarrow> Q (Inl (normalizePreStreamError e)) (w', l\<lparr>pl_metrics := mm\<rparr>)) w1"
      by (intro wp_call) (simp_all add: rel [of False] rel [of True] 1)
    with hold show ?thesis by (simp add: wp_def settle_reservation_def lift_def split: prod.splits)
  next
    case start
    have "wp (recordUsageAndComplete env D (failed_input env inp (pl_reservation l)) (failed_outcome d))
        (\<lambda>r w'. case r of Inl e \<Rightarrow> Q (Inl e) (w', l\<lparr>pl_metrics := mm\<rparr>)
          | Inr _ \<Rightarrow> Q (Inl (normalizePreStreamError e)) (w', l\<lparr>pl_metrics := mm\<rparr>)) w1"
    proof (rule wp_recordUsageAndComplete, goal_cases)
      case (1 r t w')
      with \<open>cw_calls w1 = cw_calls w\<close> start show ?case
        by (cases r) (auto intro!: post [OF settled_started [OF start(1)]])
    qed
    with start show ?thesis
      by (simp add: wp_def settle_reservation_def lift_def of_sum_def requireProviderPolicyAction_def act_simps
          failed_input_def failed_outcome_def split: prod.splits)
  next
    case block
    with 1 blocked post [of e "[]" w1] show ?thesis
      by (simp add: wp_def settle_reservation_def settled_def)
  qed
qed

lemma prepared_trace_failed:
  "chat_run inp Entered t1 = Some ph \<Longrightarrow> settled env inp ph e t2 \<Longrightarrow> \<forall>d. ph = Blocked d \<longrightarrow> e = policy_blocked d \<Longrightarrow>
   prepared_trace env inp (Inl e) (t1 @ t2)"
  unfolding prepared_trace_def by auto

lemma prepared_trace_opened:
  "chat_run inp Entered t = Some (Answered (ps_decision p)) \<Longrightarrow> prepared_trace env inp (Inr p) t"
  unfolding prepared_trace_def by auto

lemma wp_prepareChatStream:
  assumes post: "\<And>r t w'. prepared_trace env inp r t \<Longrightarrow> cw_calls w' = cw_calls w @ t \<Longrightarrow> Q r w'"
  shows "wp (prepareChatStream env D inp) Q w"
proof -
  have refused: "Q (Inl e) w'" if ph: "in_phase inp w ph w'" "ph = Refused \<or> (\<exists>org. ph = Scoped org)" for ph w' e
  proof -
    obtain t where t: "cw_calls w' = cw_calls w @ t" "chat_run inp Entered t = Some ph"
      using ph(1) by (auto simp: in_phase_def)
    have "prepared_trace env inp (Inl e) (t @ [])"
      by (rule prepared_trace_failed [OF t(2)]) (use ph(2) in \<open>auto simp: settled_def\<close>)
    with t(1) show ?thesis by (auto intro: post)
  qed
  show ?thesis
    unfolding prepareChatStream_def wp_bind wp_then
  proof (rule wp_call_phase [OF in_phase_start [of inp w], of _ Refused Owned], goal_cases)
    case (3 e w')
    then show ?case using refused by simp
  next
    case (4 x w1)
    show ?case unfolding sum.case
    proof (rule wp_call_result_phase [OF 4, of _ Refused Scoped], goal_cases)
      case (3 e w')
      then show ?case using refused by simp
    next
      case (4 org w2)
      show ?case unfolding sum.case wp_of_sum
      proof (cases "assertRoutingAllowed (pr_request inp) org", goal_cases)
        case (1 e)
        then show ?case using 4 refused by simp
      next
        case (2 u)
        show ?case unfolding 2 sum.case
        proof (rule wp_call_phase [OF 4, of _ Refused "Reserved org"], goal_cases)
          case (3 e w')
          then show ?case using refused by simp
        next
          case (4 rs w3)
          show ?case unfolding sum.case wp_with_locals wp_catch
          proof (rule wp_mono [OF wp_prepare_reserved [OF 4]], goal_cases)
            case (3 r wl)
            then obtain ph t1 where t1: "cw_calls (fst wl) = cw_calls w @ t1" "chat_run inp Entered t1 = Some ph"
              and lm: "locals_match ph (snd wl)" and ok: "\<forall>p. r = Inr p \<longrightarrow> ph = Answered (ps_decision p)"
              and bl: "\<forall>d. ph = Blocked d \<longrightarrow> r = Inl (policy_blocked d)"
              by (auto simp: reserved_post_def in_phase_def)
            show ?case
            proof (cases r)
              case (Inr p)
              with t1 ok show ?thesis by (auto intro!: post [OF prepared_trace_opened])
            next
              case (Inl e)
              have "wp (prepare_failed env D inp e) (\<lambda>r wl. Q r (fst wl)) (fst wl, snd wl)"
              proof (rule wp_prepare_failed [of inp w ph], goal_cases)
                case 1
                then show ?case using t1 by (auto simp: in_phase_def)
              next
                case (4 e' t w' l')
                with t1 show ?case by (auto intro!: post [OF prepared_trace_failed])
              qed (use lm bl Inl in auto)
              with Inl show ?thesis by simp
            qed
          qed (simp_all add: initial_locals_def)
        qed (simp_all add: chat_step_simps 2)
      qed
    qed (simp_all add: chat_step_simps)
  qed (simp_all add: chat_step_simps)
qed

end
