(* ===== verification/ChatProperties.thy ===== *)
theory ChatProperties
  imports ChatProtocol
begin

text \<open>
  The properties of the chat pipeline, from the protocol it refines: what reaches a provider, what a
  blocked request does, how a reservation is settled and how usage is accounted.
\<close>

definition new_calls :: "('x chat_world_scheme, exn, 'a) act \<Rightarrow> 'x chat_world_scheme \<Rightarrow> chat_call list" where
  "new_calls m w = drop (length (cw_calls w)) (cw_calls (snd (m w)))"

lemma new_calls_eq: "cw_calls (snd (m w)) = cw_calls w @ t \<Longrightarrow> new_calls m w = t"
  by (simp add: new_calls_def)

lemma prepare_trace_obtain:
  "cw_calls (snd (prepareChatStream env D inp w)) = cw_calls w @ new_calls (prepareChatStream env D inp) w
   \<and> prepared_trace env inp (fst (prepareChatStream env D inp w)) (new_calls (prepareChatStream env D inp) w)"
proof -
  have "wp (prepareChatStream env D inp) (\<lambda>r w'. \<exists>t. prepared_trace env inp r t \<and> cw_calls w' = cw_calls w @ t) w"
    by (rule wp_prepareChatStream) blast
  then obtain t where "prepared_trace env inp (fst (prepareChatStream env D inp w)) t"
      "cw_calls (snd (prepareChatStream env D inp w)) = cw_calls w @ t"
    by (auto simp: wp_def split: prod.splits)
  then show ?thesis by (simp add: new_calls_eq)
qed

lemma record_trace_obtain:
  "cw_calls (snd (recordUsageAndComplete env D i oc w)) = cw_calls w @ new_calls (recordUsageAndComplete env D i oc) w
   \<and> accounted i oc (ce_now env w) (fst (recordUsageAndComplete env D i oc w)) (new_calls (recordUsageAndComplete env D i oc) w)"
proof -
  have "wp (recordUsageAndComplete env D i oc) (\<lambda>r w'. \<exists>t. accounted i oc (ce_now env w) r t \<and> cw_calls w' = cw_calls w @ t) w"
    by (rule wp_recordUsageAndComplete) blast
  then obtain t where "accounted i oc (ce_now env w) (fst (recordUsageAndComplete env D i oc w)) t"
      "cw_calls (snd (recordUsageAndComplete env D i oc w)) = cw_calls w @ t"
    by (auto simp: wp_def split: prod.splits)
  then show ?thesis by (simp add: new_calls_eq)
qed

section \<open>Invariants of the protocol\<close>

fun provider_call :: "chat_call \<Rightarrow> bool" where
  "provider_call (DHealth _ _) = True"
| "provider_call (DHistory _) = True"
| "provider_call (DStream _ _ _) = True"
| "provider_call (DNext _) = True"
| "provider_call _ = False"

text \<open>What the trace of a run that is in a phase contains.\<close>

definition decided_by :: "'s PrepareInput \<Rightarrow> chat_call list \<Rightarrow> ChatOrganisationContext \<Rightarrow> BudgetStatus \<Rightarrow> PolicyDecision \<Rightarrow> bool" where
  "decided_by inp t org bg d \<longleftrightarrow> DOrganisation (Some org) \<in> set t \<and> DBudget (Some bg) \<in> set t
     \<and> (\<exists>pii. DProcess (rq_prompt (pr_request inp)) (Some pii) \<in> set t \<and> evaluatePolicy (policy_input org bg pii) = Inr d)"

definition events_are :: "chat_call list \<Rightarrow> PolicyDecision \<Rightarrow> bool" where
  "events_are t d \<longleftrightarrow> (\<forall>d' b. DPolicyEvent d' b \<in> set t \<longrightarrow> d' = d)"

definition untouched :: "chat_call list \<Rightarrow> bool" where
  "untouched t \<longleftrightarrow> \<not> (\<exists>c \<in> set t. provider_call c)"

definition content_approved :: "ChatOrganisationContext \<Rightarrow> BudgetStatus \<Rightarrow> chat_call list \<Rightarrow> jsstr \<Rightarrow> bool" where
  "content_approved org bg t x \<longleftrightarrow>
     (\<exists>c pii d. DProcess c (Some pii) \<in> set t \<and> evaluatePolicy (policy_input org bg pii) = Inr d
        \<and> pd_action d \<noteq> BLOCK \<and> x = approved_prompt d c)"

definition accepted_by :: "'s PrepareInput \<Rightarrow> chat_call list \<Rightarrow> ChatOrganisationContext \<Rightarrow> BudgetStatus \<Rightarrow> PolicyDecision \<Rightarrow> bool" where
  "accepted_by inp t org bg d \<longleftrightarrow> decided_by inp t org bg d \<and> pd_action d \<noteq> BLOCK
     \<and> DPolicyEvent d True \<in> set t \<and> DAudit (policy_audit inp d) True \<in> set t"

fun phase_inv :: "'s PrepareInput \<Rightarrow> chat_call list \<Rightarrow> chat_phase \<Rightarrow> bool" where
  "phase_inv inp t Entered \<longleftrightarrow> t = []"
| "phase_inv inp t Owned \<longleftrightarrow> untouched t \<and> (\<forall>d b. DPolicyEvent d b \<notin> set t)"
| "phase_inv inp t (Scoped org) \<longleftrightarrow> untouched t \<and> (\<forall>d b. DPolicyEvent d b \<notin> set t) \<and> DOrganisation (Some org) \<in> set t"
| "phase_inv inp t (Reserved org) \<longleftrightarrow> untouched t \<and> (\<forall>d b. DPolicyEvent d b \<notin> set t) \<and> DOrganisation (Some org) \<in> set t"
| "phase_inv inp t (Limited org) \<longleftrightarrow> untouched t \<and> (\<forall>d b. DPolicyEvent d b \<notin> set t) \<and> DOrganisation (Some org) \<in> set t"
| "phase_inv inp t (Budgeted org bg) \<longleftrightarrow> untouched t \<and> (\<forall>d b. DPolicyEvent d b \<notin> set t)
     \<and> DOrganisation (Some org) \<in> set t \<and> DBudget (Some bg) \<in> set t"
| "phase_inv inp t (Decided org bg d) \<longleftrightarrow> untouched t \<and> (\<forall>d b. DPolicyEvent d b \<notin> set t) \<and> decided_by inp t org bg d"
| "phase_inv inp t (Announced org bg d) \<longleftrightarrow> untouched t \<and> events_are t d \<and> decided_by inp t org bg d \<and> DPolicyEvent d True \<in> set t"
| "phase_inv inp t (Audited org bg d) \<longleftrightarrow> untouched t \<and> events_are t d \<and> decided_by inp t org bg d
     \<and> DPolicyEvent d True \<in> set t \<and> DAudit (policy_audit inp d) True \<in> set t"
| "phase_inv inp t (Selected org bg d) \<longleftrightarrow> events_are t d \<and> accepted_by inp t org bg d"
| "phase_inv inp t (Recalled org bg d oks) \<longleftrightarrow> events_are t d \<and> accepted_by inp t org bg d
     \<and> (\<forall>x \<in> set oks. content_approved org bg t x)"
| "phase_inv inp t (Streaming d) \<longleftrightarrow> events_are t d \<and> pd_action d \<noteq> BLOCK"
| "phase_inv inp t (Answered d) \<longleftrightarrow> events_are t d \<and> pd_action d \<noteq> BLOCK"
| "phase_inv inp t (BlockAccounted d) \<longleftrightarrow> untouched t"
| "phase_inv inp t (BlockMissed d) \<longleftrightarrow> untouched t"
| "phase_inv inp t (BlockQueued d) \<longleftrightarrow> untouched t"
| "phase_inv inp t (Blocked d) \<longleftrightarrow> untouched t"
| "phase_inv inp t Refused \<longleftrightarrow> untouched t"
| "phase_inv inp t Halted \<longleftrightarrow> untouched t \<or> (\<exists>d. events_are t d \<and> pd_action d \<noteq> BLOCK)"

text \<open>Every stream that was opened was allowed.\<close>

definition streams_ok :: "'s PrepareInput \<Rightarrow> chat_call list \<Rightarrow> bool" where
  "streams_ok inp t \<longleftrightarrow> (\<forall>msgs mx b. DStream msgs mx b \<in> set t \<longrightarrow>
     (\<exists>org bg d oks. accepted_by inp t org bg d \<and> (\<forall>x \<in> set oks. content_approved org bg t x)
        \<and> messages_allowed inp d oks msgs \<and> mx \<le> maxOutputTokensPerRequest (oc_policy org)))"

lemma content_approved_mono: "content_approved org bg t x \<Longrightarrow> content_approved org bg (t @ u) x"
  by (auto simp: content_approved_def)

lemma accepted_by_mono: "accepted_by inp t org bg d \<Longrightarrow> accepted_by inp (t @ u) org bg d"
  by (auto simp: accepted_by_def decided_by_def)

lemma approve_content_approved:
  "\<forall>x \<in> set oks. content_approved org bg t x \<Longrightarrow> x \<in> set (approve_content org bg c pii oks) \<Longrightarrow>
   content_approved org bg (t @ [DProcess c (Some pii)]) x"
proof -
  assume old: "\<forall>x \<in> set oks. content_approved org bg t x" and x: "x \<in> set (approve_content org bg c pii oks)"
  consider "x \<in> set oks" | d where "evaluatePolicy (policy_input org bg pii) = Inr d" "pd_action d \<noteq> BLOCK" "x = approved_prompt d c"
    using x by (auto simp: approve_content_def split: sum.splits if_splits)
  then show ?thesis using old by cases (auto simp: content_approved_mono, auto simp: content_approved_def)
qed

lemmas trace_defs = untouched_def events_are_def decided_by_def accepted_by_def

lemma phase_inv_step:
  assumes "phase_inv inp t ph" and "chat_step inp ph c = Some ph'"
  shows "phase_inv inp (t @ [c]) ph'"
proof (cases ph)
  case (Recalled org bg d oks)
  then have "pd_action d \<noteq> BLOCK" using assms(1) by (simp add: accepted_by_def)
  with assms Recalled show ?thesis
    by (auto simp: chat_step_simps open_step_def accepted_by_mono approve_content_approved events_are_def
        split: chat_call.splits if_splits option.splits)
qed (use assms in \<open>auto simp: chat_step_def open_step_def trace_defs split: chat_call.splits if_splits option.splits sum.splits\<close>)

lemma streams_ok_step:
  assumes "phase_inv inp t ph" and "streams_ok inp t" and "chat_step inp ph c = Some ph'"
  shows "streams_ok inp (t @ [c])"
proof (cases "\<exists>msgs mx b. c = DStream msgs mx b")
  case True
  then obtain msgs mx b where c: "c = DStream msgs mx b" by blast
  obtain org bg d oks where "accepted_by inp t org bg d" "\<forall>x \<in> set oks. content_approved org bg t x"
      "messages_allowed inp d oks msgs" "mx \<le> maxOutputTokensPerRequest (oc_policy org)"
  proof (cases ph)
    case (Selected org bg d)
    with that [of org bg d "[]"] c assms(1,3) show ?thesis
      by (auto simp: chat_step_simps open_step_def split: if_splits)
  next
    case (Recalled org bg d oks)
    with that [of org bg d oks] c assms(1,3) show ?thesis
      by (auto simp: chat_step_simps open_step_def split: if_splits)
  qed (use c assms(3) in \<open>simp_all add: chat_step_def\<close>)
  with assms(2) c show ?thesis
    unfolding streams_ok_def by (fastforce intro: accepted_by_mono content_approved_mono)
next
  case False
  with assms(2) show ?thesis
    unfolding streams_ok_def by (fastforce intro: accepted_by_mono content_approved_mono)
qed

lemma run_inv: "chat_run inp Entered t = Some ph \<Longrightarrow> phase_inv inp t ph \<and> streams_ok inp t"
proof (induction t arbitrary: ph rule: rev_induct)
  case Nil
  then show ?case by (auto simp: streams_ok_def)
next
  case (snoc c t)
  then obtain ph0 where "chat_run inp Entered t = Some ph0" "chat_step inp ph0 c = Some ph"
    by (auto simp: chat_run_append split: option.splits)
  with snoc.IH show ?case by (meson phase_inv_step streams_ok_step)
qed

text \<open>The calls that settle a reservation or account for usage.\<close>

fun settling_call :: "chat_call \<Rightarrow> bool" where
  "settling_call (DRelease _) = True" | "settling_call (DEnqueueBilling _ _) = True"
| "settling_call (DPersist _ _) = True" | "settling_call _ = False"

fun usage_call :: "chat_call \<Rightarrow> bool" where
  "usage_call (DUsage _ _) = True" | "usage_call _ = False"

fun accounting_call :: "chat_call \<Rightarrow> bool" where
  "accounting_call (DUsage _ _) = True" | "accounting_call (DPersist _ _) = True"
| "accounting_call (DEnqueueBilling _ _) = True" | "accounting_call (DEnqueueAnalytics _ _) = True"
| "accounting_call (DRecordFailure _ _) = True" | "accounting_call (DMarkCompleted _) = True"
| "accounting_call (DRelease _) = True" | "accounting_call _ = False"

lemma no_accounting: "\<forall>c \<in> set t. \<not> accounting_call c \<Longrightarrow> filter usage_call t = []"
  by (auto simp: filter_empty_conv elim!: usage_call.elims)

fun block_phase :: "chat_phase \<Rightarrow> bool" where
  "block_phase (BlockAccounted _) = True" | "block_phase (BlockMissed _) = True"
| "block_phase (BlockQueued _) = True" | "block_phase (Blocked _) = True" | "block_phase _ = False"

text \<open>Before the reservation is settled: no release, no billing, usage only for a blocked request,
  and a provider answers only in the phases after the start.\<close>

definition quiet_trace :: "chat_call list \<Rightarrow> chat_phase \<Rightarrow> bool" where
  "quiet_trace t ph \<longleftrightarrow> \<not> (\<exists>c \<in> set t. settling_call c)
     \<and> (if block_phase ph then length (filter usage_call t) = 1
        else if ph = Halted then length (filter usage_call t) \<le> 1 else \<forall>c \<in> set t. \<not> accounting_call c)
     \<and> (\<forall>b. DNext b \<in> set t \<longrightarrow> started_with ph \<noteq> None)
     \<and> (DReserve True \<in> set t \<longleftrightarrow> holding ph \<or> started_with ph \<noteq> None \<or> block_phase ph)
     \<and> (\<forall>d. ph = Blocked d \<longrightarrow> last t = DMarkCompleted True)"

lemma quiet_trace_step:
  "quiet_trace t ph \<Longrightarrow> chat_step inp ph c = Some ph' \<Longrightarrow> quiet_trace (t @ [c]) ph'"
  by (cases ph) (auto simp: quiet_trace_def chat_step_def open_step_def no_accounting
      split: chat_call.splits if_splits option.splits sum.splits)

lemma run_quiet: "chat_run inp Entered t = Some ph \<Longrightarrow> quiet_trace t ph"
proof (induction t arbitrary: ph rule: rev_induct)
  case Nil
  then show ?case by (auto simp: quiet_trace_def)
next
  case (snoc c t)
  then obtain ph0 where "chat_run inp Entered t = Some ph0" "chat_step inp ph0 c = Some ph"
    by (auto simp: chat_run_append split: option.splits)
  with snoc.IH show ?case by (meson quiet_trace_step)
qed

section \<open>What settles a run\<close>

lemma accounted_calls:
  assumes "accounted i oc now r t"
  shows "(\<forall>c \<in> set t. accounting_call c) \<and> (\<forall>b. DRelease b \<notin> set t)
    \<and> filter usage_call t = [hd t] \<and> (\<exists>b. hd t = DUsage (usage_record i oc) b)
    \<and> ((\<exists>b. last t = DMarkCompleted b) \<or> (\<exists>u. last t = DUsage u False))"
proof -
  have p: "(\<forall>c \<in> set t. accounting_call c \<and> \<not> usage_call c) \<and> (\<forall>b. DRelease b \<notin> set t)" if "persist_trace i oc pe t" for pe t
    using that by (auto simp: persist_trace_def split: option.splits if_splits)
  have q: "(\<forall>c \<in> set t. accounting_call c \<and> \<not> usage_call c) \<and> (\<forall>b. DRelease b \<notin> set t)"
    if "enqueue_trace (DEnqueueBilling job) sc t \<or> enqueue_trace (DEnqueueAnalytics job) sc t" for job sc t
    using that by (auto simp: enqueue_trace_def)
  from assms consider "t = [DUsage (usage_record i oc) False]"
    | pe tp tb ta b where "t = DUsage (usage_record i oc) True # tp @ tb @ ta @ [DMarkCompleted b]" "persist_trace i oc pe tp"
      "enqueue_trace (DEnqueueBilling (completed_job i oc now)) (scope_of i billing_queue REQUEST_COMPLETED_JOB_TYPE) tb"
      "enqueue_trace (DEnqueueAnalytics (completed_job i oc now)) (scope_of i analytics_queue REQUEST_COMPLETED_JOB_TYPE) ta"
    unfolding accounted_def by blast
  then show ?thesis
  proof cases
    case 1
    then show ?thesis by auto
  next
    case 2
    with p [OF 2(2)] q [OF disjI1, OF 2(3)] q [OF disjI2, OF 2(4)] show ?thesis
      by (auto simp: filter_empty_conv)
  qed
qed

lemma settled_calls:
  "settled env inp ph e t \<Longrightarrow> \<forall>c \<in> set t. accounting_call c"
  using accounted_calls unfolding settled_def by (fastforce split: if_splits option.splits)

lemma accounting_not_provider: "accounting_call c \<Longrightarrow> \<not> provider_call c"
  by (cases c) simp_all

section \<open>Properties\<close>

text \<open>
  C3. For every behaviour of the dependencies, a run of \<^verbatim>\<open>prepareChatStream\<close> refines the
  protocol machine: ownership, organisation, routing check, reservation, rate limit, budget, PII
  processing, policy event and audit come in this order, a provider stream is opened only
  afterwards; a failed run settles the reservation according to the phase it had reached, and a
  blocked run ends with the \<^verbatim>\<open>POLICY_BLOCKED\<close> error.
\<close>

theorem chat_pipeline_refines_protocol:
  "cw_calls (snd (prepareChatStream env D inp w)) = cw_calls w @ new_calls (prepareChatStream env D inp) w
   \<and> prepared_trace env inp (fst (prepareChatStream env D inp w)) (new_calls (prepareChatStream env D inp) w)"
  by (rule prepare_trace_obtain)

lemma prepare_cases:
  obtains (opened) p where "fst (prepareChatStream env D inp w) = Inr p"
      "chat_run inp Entered (new_calls (prepareChatStream env D inp) w) = Some (Answered (ps_decision p))"
  | (failed) e ph t1 t2 where "fst (prepareChatStream env D inp w) = Inl e"
      "new_calls (prepareChatStream env D inp) w = t1 @ t2" "chat_run inp Entered t1 = Some ph" "settled env inp ph e t2"
      "\<forall>d. ph = Blocked d \<longrightarrow> e = policy_blocked d"
proof (cases "fst (prepareChatStream env D inp w)")
  case (Inl e)
  with prepare_trace_obtain [of env D inp w] obtain ph t1 t2 where "new_calls (prepareChatStream env D inp) w = t1 @ t2"
      "chat_run inp Entered t1 = Some ph" "settled env inp ph e t2" "\<forall>d. ph = Blocked d \<longrightarrow> e = policy_blocked d"
    unfolding prepared_trace_def by auto
  with Inl show ?thesis by (rule failed)
next
  case (Inr p)
  with prepare_trace_obtain [of env D inp w] have "chat_run inp Entered (new_calls (prepareChatStream env D inp) w) = Some (Answered (ps_decision p))"
    unfolding prepared_trace_def by auto
  with Inr show ?thesis by (rule opened)
qed

text \<open>
  C10. When the policy decides to block, no provider is consulted: the run makes no health check,
  loads no history, opens no stream and reads no chunk, and it ends with an error.
\<close>

theorem blocked_request_never_reaches_provider:
  assumes "DPolicyEvent d b \<in> set (new_calls (prepareChatStream env D inp) w)" and "pd_action d = BLOCK"
  shows "untouched (new_calls (prepareChatStream env D inp) w) \<and> (\<exists>e. fst (prepareChatStream env D inp w) = Inl e)"
proof (cases rule: prepare_cases [of env D inp w])
  case (opened p)
  with run_inv [OF opened(2)] assms show ?thesis by (auto simp: events_are_def)
next
  case (failed e ph t1 t2)
  have "DPolicyEvent d b \<notin> set t2" using settled_calls [OF failed(4)] by auto
  then have d: "DPolicyEvent d b \<in> set t1" using assms(1) failed(2) by auto
  have "untouched t1"
    using run_inv [OF failed(3)] d assms(2) failed(4)
    by (cases ph) (auto simp: events_are_def accepted_by_def untouched_def)
  with failed settled_calls [OF failed(4)] show ?thesis
    by (auto simp: untouched_def dest: accounting_not_provider)
qed

lemma provider_content:
  assumes "DStream msgs mx b \<in> set (new_calls (prepareChatStream env D inp) w)"
  shows "\<exists>org bg d oks. accepted_by inp (new_calls (prepareChatStream env D inp) w) org bg d
    \<and> (\<forall>x \<in> set oks. content_approved org bg (new_calls (prepareChatStream env D inp) w) x)
    \<and> messages_allowed inp d oks msgs \<and> mx \<le> maxOutputTokensPerRequest (oc_policy org)"
proof (cases rule: prepare_cases [of env D inp w])
  case (opened p)
  from run_inv [OF opened(2)] assms show ?thesis unfolding streams_ok_def by blast
next
  case (failed e ph t1 t2)
  have "DStream msgs mx b \<notin> set t2" using settled_calls [OF failed(4)] by auto
  then have "DStream msgs mx b \<in> set t1" using assms(1) failed(2) by auto
  with run_inv [OF failed(3)] obtain org bg d oks where "accepted_by inp t1 org bg d"
      "\<forall>x \<in> set oks. content_approved org bg t1 x" "messages_allowed inp d oks msgs"
      "mx \<le> maxOutputTokensPerRequest (oc_policy org)"
    unfolding streams_ok_def by blast
  then show ?thesis unfolding failed(2) using accepted_by_mono content_approved_mono by blast
qed

text \<open>
  C2. Whatever is sent to a provider was approved: when a stream is opened, the request's prompt has
  been evaluated in this run to a decision other than block, the decision was announced and its
  audit record written, the last message is the prompt that this decision approves (the sanitized
  one when it masks), every earlier user message is the approved form of a text that was evaluated
  and not blocked in this run, and the output limit respects the organisation's policy.
\<close>

theorem provider_gets_only_approved_content:
  assumes "DStream msgs mx b \<in> set (new_calls (prepareChatStream env D inp) w)"
  shows "\<exists>org bg d oks. accepted_by inp (new_calls (prepareChatStream env D inp) w) org bg d
    \<and> (\<forall>x \<in> set oks. content_approved org bg (new_calls (prepareChatStream env D inp) w) x)
    \<and> messages_allowed inp d oks msgs \<and> mx \<le> maxOutputTokensPerRequest (oc_policy org)"
  using assms by (rule provider_content)

text \<open>
  C11. Every reservation a run of \<^verbatim>\<open>prepareChatStream\<close> takes is dealt with: a run that
  returns a stream leaves it to the caller untouched (no usage, no completion, no release); a run
  that fails after reserving ends by releasing it, by completing it or with a failed usage write;
  it is released only if no provider was asked for a chunk, and then nothing follows.
\<close>

theorem reservation_settled:
  assumes "DReserve True \<in> set (new_calls (prepareChatStream env D inp) w)"
  shows "(\<exists>p. fst (prepareChatStream env D inp w) = Inr p
      \<and> (\<forall>c \<in> set (new_calls (prepareChatStream env D inp) w). \<not> accounting_call c))
    \<or> (\<exists>e b. fst (prepareChatStream env D inp w) = Inl e \<and> last (new_calls (prepareChatStream env D inp) w) = DRelease b
        \<and> (\<forall>b'. DNext b' \<notin> set (new_calls (prepareChatStream env D inp) w)))
    \<or> (\<exists>e. fst (prepareChatStream env D inp w) = Inl e
        \<and> (\<forall>b. DRelease b \<notin> set (new_calls (prepareChatStream env D inp) w))
        \<and> ((\<exists>b. last (new_calls (prepareChatStream env D inp) w) = DMarkCompleted b)
         \<or> (\<exists>u. last (new_calls (prepareChatStream env D inp) w) = DUsage u False)))"
proof (cases rule: prepare_cases [of env D inp w])
  case (opened p)
  with run_quiet [OF opened(2)] show ?thesis by (auto simp: quiet_trace_def)
next
  case (failed e ph t1 t2)
  note quiet = run_quiet [OF failed(3)] and settled = failed(4)
  have rel: "DRelease b \<notin> set t1" for b using quiet by (force simp: quiet_trace_def)
  consider (hold) "holding ph" | (start) d where "\<not> holding ph" "started_with ph = Some d" | (neither) "\<not> holding ph" "started_with ph = None"
    by fastforce
  then show ?thesis
  proof cases
    case hold
    then have "started_with ph = None" by (cases ph) simp_all
    with hold quiet settled failed(1,2) show ?thesis by (auto simp: settled_def quiet_trace_def)
  next
    case start
    then obtain rs now r where acc: "accounted (failed_input env inp rs) (failed_outcome d) now r t2"
      using settled by (auto simp: settled_def)
    then have "t2 \<noteq> []" by (auto simp: accounted_def)
    with accounted_calls [OF acc] rel failed(1,2) show ?thesis by simp
  next
    case neither
    with settled have "t2 = []" by (simp add: settled_def)
    with assms failed(2) quiet neither obtain d where "ph = Blocked d"
      by (cases ph) (auto simp: quiet_trace_def)
    with quiet \<open>t2 = []\<close> rel failed(1,2) show ?thesis by (auto simp: quiet_trace_def)
  qed
qed

text \<open>
  A request is accounted exactly once: a run of \<^verbatim>\<open>prepareChatStream\<close> that returns a
  stream followed by \<^verbatim>\<open>finalizeChatStream\<close> writes one usage record, and it carries the ids
  of the request, the outcome of the stream and the action that was decided.
\<close>

theorem usage_recorded_once:
  assumes "prepareChatStream env D inp w = (Inr p, w1)"
  shows "\<exists>b. filter usage_call (new_calls (act_then (prepareChatStream env D inp) (finalizeChatStream env D p oc)) w)
     = [DUsage \<lparr>nu_requestId = ps_requestId p, nu_orgId = ps_orgId p, nu_userId = ps_userId p, nu_status = fo_status oc,
          nu_policyAction = (if pd_action (ps_decision p) = ALLOW_WITH_MASK then ALLOW_WITH_MASK else ALLOW),
          nu_providerId = Some groq, nu_model = Some (ps_model p), nu_usage = fo_usage oc\<rparr> b]"
proof -
  let ?t = "new_calls (prepareChatStream env D inp) w" and ?u = "new_calls (finalizeChatStream env D p oc) w1"
  have t: "cw_calls w1 = cw_calls w @ ?t" using prepare_trace_obtain [of env D inp w] assms by simp
  have "filter usage_call ?t = []"
  proof (cases rule: prepare_cases [of env D inp w])
    case (opened q)
    with run_quiet [OF opened(2)] show ?thesis by (simp add: quiet_trace_def no_accounting)
  qed (use assms in simp)
  moreover obtain i oc' where fin: "finalizeChatStream env D p oc = recordUsageAndComplete env D i oc'"
    and u: "usage_record i oc' = \<lparr>nu_requestId = ps_requestId p, nu_orgId = ps_orgId p, nu_userId = ps_userId p,
          nu_status = fo_status oc,
          nu_policyAction = (if pd_action (ps_decision p) = ALLOW_WITH_MASK then ALLOW_WITH_MASK else ALLOW),
          nu_providerId = Some groq, nu_model = Some (ps_model p), nu_usage = fo_usage oc\<rparr>"
    unfolding finalizeChatStream_def by (simp add: usage_record_def)
  note rec = record_trace_obtain [of env D i oc' w1, folded fin]
  have "\<exists>b. filter usage_call ?u = [DUsage (usage_record i oc') b]"
    using accounted_calls [OF conjunct2 [OF rec]] by auto
  moreover have "new_calls (act_then (prepareChatStream env D inp) (finalizeChatStream env D p oc)) w = ?t @ ?u"
    by (rule new_calls_eq) (use assms t conjunct1 [OF rec] in \<open>simp add: act_then_apply\<close>)
  ultimately show ?thesis by (simp add: u)
qed

text \<open>
  C12. Accounting follows its specification for every behaviour of the dependencies: the usage record
  is written first; if that fails nothing else happens and the error is thrown; otherwise the
  messages of a completed stream are persisted, the billing and the analytics job are enqueued once
  each with the same content as the usage record, a failed enqueue is recorded for recovery and
  swallowed, and the reservation is completed last; the outcome is the error of the completion, else
  the error of the persistence, else success.
\<close>

theorem accounting_follows_specification:
  "cw_calls (snd (recordUsageAndComplete env D i oc w)) = cw_calls w @ new_calls (recordUsageAndComplete env D i oc) w
   \<and> accounted i oc (ce_now env w) (fst (recordUsageAndComplete env D i oc w)) (new_calls (recordUsageAndComplete env D i oc) w)"
  by (rule record_trace_obtain)

section \<open>With the PII processor\<close>

text \<open>Every result of \<^verbatim>\<open>processPrompt\<close> in the trace is one that the dependency returned.\<close>

definition processed_ok :: "(jsstr \<Rightarrow> PiiPromptProcessingResult \<Rightarrow> bool) \<Rightarrow> nat \<Rightarrow> chat_call list \<Rightarrow> bool" where
  "processed_ok P n t \<longleftrightarrow> (\<forall>c pii. DProcess c (Some pii) \<in> set (drop n t) \<longrightarrow> P c pii)"

lemma processed_ok_snoc:
  "processed_ok P n t \<Longrightarrow> (\<And>c pii. x = DProcess c (Some pii) \<Longrightarrow> P c pii) \<Longrightarrow> processed_ok P n (t @ [x])"
  by (auto simp: processed_ok_def drop_Cons' split: if_splits)

abbreviation ok_world where "ok_world P n \<equiv> \<lambda>w. processed_ok P n (cw_calls w)"
abbreviation ok_locals where "ok_locals P n \<equiv> \<lambda>wl. processed_ok P n (cw_calls (fst wl))"

lemma keeps_call:
  assumes "\<And>b c r. ev b \<noteq> DProcess c r"
  shows "keeps (ok_world P n) (call ev m)"
proof (rule keepsI, goal_cases)
  case (1 w)
  have "x = ev b \<Longrightarrow> x \<noteq> DProcess c r" for x b c r using assms by simp
  with 1 show ?case by (auto simp: call_def call_result_def split: prod.splits intro!: processed_ok_snoc)
qed

lemma keeps_call_result:
  assumes "\<And>x c pii w. fst (m w) = Inr x \<Longrightarrow> ev (Some x) = DProcess c (Some pii) \<Longrightarrow> P c pii" and "\<And>c pii. ev None \<noteq> DProcess c (Some pii)"
  shows "keeps (ok_world P n) (call_result ev m)"
proof (rule keepsI, goal_cases)
  case (1 w)
  obtain r w' where "m w = (r, w')" by fastforce
  with 1 assms(1) [of w] assms(2) show ?case
    by (cases r) (auto simp: call_result_def intro!: processed_ok_snoc)
qed

lemma keeps_lift: "keeps (ok_world P n) m \<Longrightarrow> keeps (ok_locals P n) (lift m)"
  by (auto simp: keeps_def lift_def split: prod.splits)

lemma keeps_set_local: "keeps (ok_locals P n) (set_local f)"
  by (auto simp: keeps_def set_local_def)

lemma keeps_with_locals: "keeps (ok_locals P n) m \<Longrightarrow> keeps (ok_world P n) (with_locals l m)"
  by (force simp: keeps_def with_locals_def case_prod_beta)

lemma keeps_of_sum: "keeps P (of_sum r)"
  by (cases r) (simp_all add: of_sum_def keeps_intros)

lemma keeps_metric: "keeps (ok_world P n) (act_modify recordBlockedChat)"
  by (simp add: keeps_def recordBlockedChat_def log_metric_def)

lemma keeps_finish_metrics: "keeps (ok_locals P n) (finish_metrics env inp)"
proof (rule keepsI)
  fix wl :: "'a chat_world_scheme \<times> prep_locals" assume "processed_ok P n (cw_calls (fst wl))"
  then have "wp (finish_metrics env inp) (\<lambda>_ wl'. processed_ok P n (cw_calls (fst wl'))) (fst wl, snd wl)"
    by (intro wp_finish_metrics) simp
  then show "processed_ok P n (cw_calls (fst (snd (finish_metrics env inp wl))))"
    by (simp add: wp_def split: prod.splits)
qed

lemmas chat_keeps = keeps_intros keeps_call keeps_lift keeps_set_local keeps_with_locals keeps_of_sum keeps_metric
  keeps_finish_metrics

lemma keeps_option: "(x = None \<Longrightarrow> keeps P m) \<Longrightarrow> (\<And>y. x = Some y \<Longrightarrow> keeps P (k y)) \<Longrightarrow>
    keeps P (case x of None \<Rightarrow> m | Some y \<Rightarrow> k y)"
  by (cases x) simp_all

lemma keeps_approve_pairs: "(\<And>c. keeps P (san c)) \<Longrightarrow> keeps P (approve_pairs san ps)"
  by (induction ps) (auto intro!: keeps_intros keeps_option)

definition returns_only ::
  "('x chat_world_scheme, 'it, 'gen) ChatPipelineDependencies \<Rightarrow> (jsstr \<Rightarrow> PiiPromptProcessingResult \<Rightarrow> bool) \<Rightarrow> bool" where
  "returns_only D P \<longleftrightarrow> (\<forall>c w pii. fst (dp_processPrompt D c w) = Inr pii \<longrightarrow> P c pii)"

lemma keeps_evaluate_prompt: "returns_only D P \<Longrightarrow> keeps (ok_world P n) (evaluate_prompt D org bg c)"
  unfolding evaluate_prompt_def by (intro chat_keeps keeps_call_result) (auto simp: returns_only_def)

lemma keeps_provider_history: "returns_only D P \<Longrightarrow> keeps (ok_world P n) (provider_history D inp org bg)"
  unfolding provider_history_def buildBoundedProviderHistory_def sanitizeUserContent_def Let_def
  by (intro chat_keeps keeps_approve_pairs keeps_evaluate_prompt) simp_all

lemma keeps_enqueue: "keeps (ok_world P n) (enqueue_billing D i job)" "keeps (ok_world P n) (enqueue_analytics D job)"
  unfolding enqueue_billing_def enqueue_analytics_def recordRecoveryFailureSafely_def
  by (intro chat_keeps; simp)+

lemma keeps_recordUsage: "keeps (ok_world P n) (recordUsageAndComplete env D i oc)"
  unfolding recordUsageAndComplete_def persist_messages_def
  by (intro chat_keeps keeps_enqueue keeps_option) simp_all

lemma keeps_selectCandidate: "keeps (ok_world P n) (selectProductionCandidate rq D)"
  unfolding selectProductionCandidate_def by (intro chat_keeps keeps_option) simp_all

lemma keeps_block_request: "keeps (ok_locals P n) (block_request env D inp d)"
  unfolding block_request_def by (intro chat_keeps keeps_enqueue) simp_all

lemma keeps_open_stream: "keeps (ok_locals P n) (open_provider_stream env D inp org d m c ms)"
  unfolding open_provider_stream_def Let_def case_prod_beta by (intro chat_keeps keeps_option) simp_all

lemma keeps_settle: "keeps (ok_locals P n) (settle_reservation env D inp)"
proof (rule keepsI)
  fix wl :: "'a chat_world_scheme \<times> prep_locals" assume ok: "processed_ok P n (cw_calls (fst wl))"
  obtain w l where wl: "wl = (w, l)" by fastforce
  have "keeps (ok_locals P n) (if pl_reservationFinalized l then act_ret ()
      else if pl_providerStarted l
      then act_bind (of_sum (requireProviderPolicyAction (pl_policyAction l))) (\<lambda>a.
             lift (recordUsageAndComplete env D
               \<lparr>ri_requestId = pr_requestId inp, ri_orgId = ac_orgId (pr_auth inp),
                ri_userId = ac_userId (pr_auth inp), ri_model = ce_groqModel env,
                ri_reservation = pl_reservation l\<rparr>
               \<lparr>ro_status = st_FAILED, ro_policyAction = a, ro_usage = None, ro_messagePersistence = None\<rparr>))
      else lift (call DRelease (dp_releaseBeforeExecution D (pl_reservation l))))"
    by (intro chat_keeps keeps_recordUsage) simp_all
  from keepsD [OF this ok] show "processed_ok P n (cw_calls (fst (snd (settle_reservation env D inp wl))))"
    by (simp add: settle_reservation_def wl)
qed

lemma keeps_prepareChatStream: "returns_only D P \<Longrightarrow> keeps (ok_world P n) (prepareChatStream env D inp)"
  unfolding prepareChatStream_def prepare_reserved_def accept_request_def prepare_failed_def
  by (intro chat_keeps keeps_call_result keeps_evaluate_prompt keeps_provider_history keeps_selectCandidate
      keeps_block_request keeps_open_stream keeps_settle) simp_all

lemma processed_new_calls:
  assumes "returns_only D P" and "DProcess c (Some pii) \<in> set (new_calls (prepareChatStream env D inp) w)"
  shows "P c pii"
proof -
  let ?n = "length (cw_calls w)"
  have "processed_ok P ?n (cw_calls w)" by (simp add: processed_ok_def)
  then have "processed_ok P ?n (cw_calls (snd (prepareChatStream env D inp w)))"
    by (rule keepsD [OF keeps_prepareChatStream [OF assms(1)]])
  with assms(2) show ?thesis by (simp add: processed_ok_def new_calls_def)
qed

lemma evaluatePolicy_input_valid: "evaluatePolicy inp = Inr d \<Longrightarrow> assertValidEvaluationInput inp = Inr ()"
  by (cases "assertValidEvaluationInput inp") (auto simp: evaluatePolicy_def or_else_def evaluateBlock_def)

lemma decision_not_blocked:
  assumes "evaluatePolicy inp = Inr d" and "pd_action d \<noteq> BLOCK"
  shows "\<not> bs_exceeded (in_budget inp)" and "of_int (ra_score (in_risk inp)) < blockThreshold (in_thresholds inp)"
    and "pd_action d = ALLOW_WITH_MASK \<longleftrightarrow> \<not> of_int (ra_score (in_risk inp)) < maskThreshold (in_thresholds inp)"
    and "pd_action d = ALLOW_WITH_MASK \<longrightarrow> pd_providerPrompt d = Some (pp_sanitizedPrompt (in_pii inp))"
  using evaluatePolicy_valid [OF evaluatePolicy_input_valid [OF assms(1)]] assms
  by (auto simp: decision_of_def policy_reference_def split: if_splits)

text \<open>
  C1. With the PII processor of the program: the prompt that a provider receives is exactly the
  user's prompt when its risk score is below the mask threshold of the organisation, and otherwise
  the prompt with every detected span replaced by its placeholder; no stream is opened when the
  score reaches the block threshold or the budget is exceeded.
\<close>

theorem provider_prompt_is_redacted:
  assumes "dp_processPrompt D = processPiiPromptImmutably" and "is_jsstr (rq_prompt (pr_request inp))"
    and "DStream msgs mx b \<in> set (new_calls (prepareChatStream env D inp) w)"
  shows "\<exists>org bg. DOrganisation (Some org) \<in> set (new_calls (prepareChatStream env D inp) w)
    \<and> DBudget (Some bg) \<in> set (new_calls (prepareChatStream env D inp) w) \<and> \<not> bs_exceeded bg
    \<and> of_int (risk_reference (det_spans (detectPii (rq_prompt (pr_request inp))))) < blockThreshold (oc_policy org)
    \<and> last msgs = \<lparr>pm_role = RoleUser, pm_content =
        (if of_int (risk_reference (det_spans (detectPii (rq_prompt (pr_request inp))))) < maskThreshold (oc_policy org)
         then rq_prompt (pr_request inp)
         else redact (rq_prompt (pr_request inp)) 0 (map span_triple (det_spans (detectPii (rq_prompt (pr_request inp))))))\<rparr>"
proof -
  let ?t = "new_calls (prepareChatStream env D inp) w" and ?p = "rq_prompt (pr_request inp)"
  let ?res = "\<lambda>c pii. is_jsstr c \<longrightarrow> pp_sanitizedPrompt pii = redact c 0 (map span_triple (det_spans (detectPii c)))
      \<and> cls_spans (pp_classification pii) = det_spans (detectPii c)"
  obtain org bg d oks where acc: "accepted_by inp ?t org bg d" and msgs: "messages_allowed inp d oks msgs"
    using provider_content [OF assms(3)] by blast
  then obtain pii where pii: "DProcess ?p (Some pii) \<in> set ?t" "evaluatePolicy (policy_input org bg pii) = Inr d"
    by (auto simp: accepted_by_def decided_by_def)
  have "returns_only D ?res"
    unfolding returns_only_def assms(1)
  proof (intro allI impI)
    fix c w pii assume c: "fst (processPiiPromptImmutably c w) = Inr pii" "is_jsstr c"
    from processPii_result [OF c(2), of w] obtain res where "processPiiPromptImmutably c w = (Inr res,
        w\<lparr>metric_ops := metric_ops w @ map (\<lambda>s. MInc ''piiDetectionsTotal'' [pii_category_label (sp_category s)]) (det_spans (detectPii c))\<rparr>)"
        "pp_sanitizedPrompt res = redact c 0 (map span_triple (det_spans (detectPii c)))"
        "cls_spans (pp_classification res) = det_spans (detectPii c)" by (metis PiiClassificationResult.select_convs(1))
    with c(1) show "pp_sanitizedPrompt pii = redact c 0 (map span_triple (det_spans (detectPii c)))
      \<and> cls_spans (pp_classification pii) = det_spans (detectPii c)" by simp
  qed
  from processed_new_calls [OF this pii(1)] assms(2) have res:
      "pp_sanitizedPrompt pii = redact ?p 0 (map span_triple (det_spans (detectPii ?p)))"
      "cls_spans (pp_classification pii) = det_spans (detectPii ?p)" by auto
  have "DOrganisation (Some org) \<in> set ?t" "DBudget (Some bg) \<in> set ?t" and nb: "pd_action d \<noteq> BLOCK"
      and "last msgs = \<lparr>pm_role = RoleUser, pm_content = approved_prompt d ?p\<rparr>"
    using acc msgs by (simp_all add: accepted_by_def decided_by_def messages_allowed_def)
  with decision_not_blocked [OF pii(2) nb] show ?thesis
    by (intro exI [of _ org] exI [of _ bg])
       (simp add: policy_input_def risk_score_reference res approved_prompt_def)
qed

section \<open>A run with the PII processor\<close>

definition processed_prompt :: "jsstr \<Rightarrow> PiiPromptProcessingResult" where
  "processed_prompt c = \<lparr>pp_sanitizedPrompt = redact c 0 (map span_triple (det_spans (detectPii c))),
     pp_detection = detectPii c,
     pp_classification = \<lparr>cls_spans = det_spans (detectPii c), cls_categories = det_categories (detectPii c)\<rparr>,
     pp_masking = \<lparr>maskedText = redact c 0 (map span_triple (det_spans (detectPii c))),
       masks = mask_metadata 0 (map span_range (det_spans (detectPii c)))\<rparr>\<rparr>"

lemma processPii_eq:
  assumes "is_jsstr c"
  shows "processPiiPromptImmutably c w = (Inr (processed_prompt c), w\<lparr>metric_ops := metric_ops w @
      map (\<lambda>s. MInc ''piiDetectionsTotal'' [pii_category_label (sp_category s)]) (det_spans (detectPii c))\<rparr>)"
  by (simp add: processPiiPromptImmutably_def Let_def classify_detected [OF assms] pii.mask_spans [OF assms]
        act_then_apply count_detection_logs processed_prompt_def)

definition chat_demo_budget :: "bool \<Rightarrow> BudgetStatus" where
  "chat_demo_budget x = \<lparr>bs_monthlyBudgetTokens = 100, bs_usedTokens = 0, bs_reservedTokens = None,
     bs_budgetedTokens = None, bs_remainingTokens = 100, bs_remainingPercent = 100, bs_exceeded = x\<rparr>"

definition chat_demo_org :: ChatOrganisationContext where
  "chat_demo_org = \<lparr>oc_plan = FREE,
     oc_policy = \<lparr>maskThreshold = 10, blockThreshold = 70, maxOutputTokensPerRequest = 1024\<rparr>,
     oc_autoRoutingEnabled = True, oc_retentionMode = METADATA_ONLY\<rparr>"

definition chat_demo_candidate :: "(chat_world, unit) ProviderFallbackCandidate" where
  "chat_demo_candidate = \<lparr>adapter = \<lparr>ad_providerId = groq, ad_complete = (\<lambda>_. act_throw (ExnOther ''unused'')),
      ad_stream = (\<lambda>_. act_ret ()), ad_next = (\<lambda>_. act_ret (None, ())),
      ad_checkHealth = act_throw (ExnOther ''unused''),
      ad_getCapabilities = \<lparr>cap_providerId = groq, cap_supportedModels = [''m''], cap_supportsStreaming = True,
        cap_supportsNonStreaming = True, cap_maxInputTokens = 20000, cap_maxOutputTokens = 4096\<rparr>\<rparr>, cand_model = ''m''\<rparr>"

definition chat_demo_reservation :: IdempotencyReservation where
  "chat_demo_reservation = \<lparr>rs_key = ''k'', rs_requestId = ''r'', rs_fingerprint = ''f'', rs_providerExecutionStarted = False\<rparr>"

text \<open>Dependencies that succeed; \<open>x\<close>: the budget is exceeded; the provider yields what \<open>yields\<close> tells, or
  always the same chunk \<open>c\<close>.\<close>

definition chat_demo_with ::
  "bool \<Rightarrow> 'gen \<Rightarrow> ('gen \<Rightarrow> StreamChunk option \<times> 'gen) \<Rightarrow> (chat_world, unit, 'gen) ChatPipelineDependencies" where
  "chat_demo_with x gen yields = \<lparr>dp_assertConversationOwner = (\<lambda>_ _ _. act_ret ()),
     dp_loadOrganisationContext = (\<lambda>_. act_ret chat_demo_org),
     dp_consumeRateLimit = (\<lambda>_ _ _. act_ret ()), dp_reserve = (\<lambda>_. act_ret chat_demo_reservation),
     dp_markCompleted = (\<lambda>_. act_ret ()), dp_releaseBeforeExecution = (\<lambda>_. act_ret ()),
     dp_readBudgetStatus = (\<lambda>_. act_ret (chat_demo_budget x)), dp_processPrompt = processPiiPromptImmutably,
     dp_loadConversationHistory = (\<lambda>_ _ _. act_ret []), dp_candidates = [chat_demo_candidate],
     dp_readProviderHealth = (\<lambda>_. act_ret HEALTHY), dp_streamProvider = (\<lambda>_ _. act_ret gen),
     dp_streamNext = (\<lambda>g. act_ret (yields g)), dp_appendUsage = (\<lambda>_. act_ret ()),
     dp_enqueueBillingJob = (\<lambda>_. act_ret ()), dp_enqueueAnalyticsJob = (\<lambda>_. act_ret ()),
     dp_recordEnqueueFailure = (\<lambda>_. act_ret ()),
     dp_emitPolicyEvent = (\<lambda>r d a. act_ret (createPolicyDecisionEvent r d a)),
     dp_appendAudit = (\<lambda>_. act_ret ()), dp_persistMessages = (\<lambda>_. act_ret ())\<rparr>"

abbreviation chat_demo_deps :: "bool \<Rightarrow> StreamChunk option \<Rightarrow> (chat_world, unit, unit) ChatPipelineDependencies" where
  "chat_demo_deps x c \<equiv> chat_demo_with x () (\<lambda>_. (c, ()))"

definition chat_demo_env :: "chat_world chat_env" where
  "chat_demo_env = \<lparr>ce_now = (\<lambda>_. ''t''), ce_hrtime = (\<lambda>_. 0), ce_hmac = (\<lambda>x. x), ce_groqModel = ''m'',
     ce_normalizeNFC = (\<lambda>x. x)\<rparr>"

definition chat_demo_input :: "chat_world PrepareInput" where
  "chat_demo_input = \<lparr>pr_auth = \<lparr>ac_orgId = ''o'', ac_userId = ''u'', ac_role = ''EMPLOYEE''\<rparr>, pr_requestId = ''r'',
     pr_request = \<lparr>rq_conversationId = ''c'', rq_prompt = demo_text, rq_clientRequestId = ''q'',
       rq_providerId = None, rq_routingMode = auto\<rparr>, pr_aborted = (\<lambda>_. False)\<rparr>"

definition chat_demo_world :: chat_world where
  "chat_demo_world = \<lparr>metric_ops = [], cw_calls = []\<rparr>"

lemma chat_demo_decision:
  obtains d where "evaluatePolicy (policy_input chat_demo_org (chat_demo_budget x) (processed_prompt demo_text)) = Inr d"
    "pd_action d = (if x then BLOCK else ALLOW_WITH_MASK)"
    "buildAuditMetadata (pd_riskScore d) (reason_label (pd_reasonCode d)) (length (pd_categories d)) = Inr ()"
proof -
  let ?i = "policy_input chat_demo_org (chat_demo_budget x) (processed_prompt demo_text)"
  have score: "ra_score (in_risk ?i) = 10"
    by (simp add: policy_input_def processed_prompt_def risk_score_reference risk_reference_def demo_detect
        distinct_spans_def demo_span_def)
  have "assertValidEvaluationInput ?i = Inr ()"
    by (rule valid_input) (simp_all add: score, simp_all add: policy_input_def chat_demo_org_def thresholds_valid_def
        is_integer_def quotient_of_number)
  note valid = evaluatePolicy_valid [OF this]
  have "policy_reference (bs_exceeded (in_budget ?i)) (of_int (ra_score (in_risk ?i))) (in_thresholds ?i)
      = (if x then BLOCK else ALLOW_WITH_MASK, if x then budget_exceeded else mask_threshold_reached)"
    unfolding score by (simp add: policy_reference_def policy_input_def chat_demo_org_def chat_demo_budget_def)
  with valid obtain p where d: "evaluatePolicy ?i = Inr (decision_of
      (if x then BLOCK else ALLOW_WITH_MASK) (if x then budget_exceeded else mask_threshold_reached) p ?i)"
    by (metis fst_conv snd_conv)
  moreover have "length (det_categories (detectPii demo_text)) = 1"
    using demo_detect by (simp add: detectPii_def Let_def)
  ultimately show ?thesis
    by (intro that [OF d]) (simp_all add: decision_of_def score buildAuditMetadata_def, simp_all add: policy_input_def processed_prompt_def)
qed

lemma chat_demo_sel [simp]:
  "dp_assertConversationOwner (chat_demo_with x gen yields) = (\<lambda>_ _ _. act_ret ())"
  "dp_loadOrganisationContext (chat_demo_with x gen yields) = (\<lambda>_. act_ret chat_demo_org)"
  "dp_consumeRateLimit (chat_demo_with x gen yields) = (\<lambda>_ _ _. act_ret ())"
  "dp_reserve (chat_demo_with x gen yields) = (\<lambda>_. act_ret chat_demo_reservation)"
  "dp_markCompleted (chat_demo_with x gen yields) = (\<lambda>_. act_ret ())"
  "dp_releaseBeforeExecution (chat_demo_with x gen yields) = (\<lambda>_. act_ret ())"
  "dp_readBudgetStatus (chat_demo_with x gen yields) = (\<lambda>_. act_ret (chat_demo_budget x))"
  "dp_processPrompt (chat_demo_with x gen yields) = processPiiPromptImmutably"
  "dp_candidates (chat_demo_with x gen yields) = [chat_demo_candidate]"
  "dp_readProviderHealth (chat_demo_with x gen yields) = (\<lambda>_. act_ret HEALTHY)"
  "dp_streamProvider (chat_demo_with x gen yields) = (\<lambda>_ _. act_ret gen)"
  "dp_streamNext (chat_demo_with x gen yields) = (\<lambda>g. act_ret (yields g))"
  "dp_appendUsage (chat_demo_with x gen yields) = (\<lambda>_. act_ret ())"
  "dp_enqueueAnalyticsJob (chat_demo_with x gen yields) = (\<lambda>_. act_ret ())"
  "dp_emitPolicyEvent (chat_demo_with x gen yields) = (\<lambda>r d a. act_ret (createPolicyDecisionEvent r d a))"
  "dp_appendAudit (chat_demo_with x gen yields) = (\<lambda>_. act_ret ())"
  "rq_prompt (pr_request chat_demo_input) = demo_text" "rq_routingMode (pr_request chat_demo_input) = auto"
  "oc_autoRoutingEnabled chat_demo_org" "oc_retentionMode chat_demo_org = METADATA_ONLY"
  "maxOutputTokensPerRequest (oc_policy chat_demo_org) = 1024"
  "ad_providerId (adapter chat_demo_candidate) = groq"
  "cap_maxOutputTokens (ad_getCapabilities (adapter chat_demo_candidate)) = 4096"
  by (simp_all add: chat_demo_with_def chat_demo_input_def chat_demo_org_def chat_demo_candidate_def)

text \<open>Equations that run calls which succeed.\<close>

lemma run_calls:
  "call ev (act_ret x) w = (Inr x, w\<lparr>cw_calls := cw_calls w @ [ev True]\<rparr>)"
  "call_result evr (act_ret x) w = (Inr x, w\<lparr>cw_calls := cw_calls w @ [evr (Some x)]\<rparr>)"
  "of_sum (Inr x) = act_ret x"
  "lift m (w, l) = (fst (m w), (snd (m w), l))"
  "set_local f (w, l) = (Inr (), (w, f l))"
  by (simp_all add: call_def call_result_def of_sum_def lift_def set_local_def case_prod_beta)

lemma run_process:
  "call_result (DProcess demo_text) (processPiiPromptImmutably demo_text) w = (Inr (processed_prompt demo_text),
     w\<lparr>metric_ops := metric_ops w @ map (\<lambda>s. MInc ''piiDetectionsTotal'' [pii_category_label (sp_category s)]) (det_spans (detectPii demo_text)),
       cw_calls := cw_calls w @ [DProcess demo_text (Some (processed_prompt demo_text))]\<rparr>)"
  by (simp add: call_result_def processPii_eq [OF demo_text_jsstr])

lemmas run_simps = act_bind_apply act_then_apply act_catch_apply run_calls run_process

definition chat_demo_decided :: "bool \<Rightarrow> PolicyDecision \<Rightarrow> chat_world" where
  "chat_demo_decided x d = \<lparr>metric_ops = map (\<lambda>s. MInc ''piiDetectionsTotal'' [pii_category_label (sp_category s)])
       (det_spans (detectPii demo_text)),
     cw_calls = [DOwner True, DOrganisation (Some chat_demo_org), DReserve True, DRateLimit True,
       DBudget (Some (chat_demo_budget x)), DProcess demo_text (Some (processed_prompt demo_text)),
       DPolicyEvent d True, DAudit (policy_audit chat_demo_input d) True]\<rparr>"

lemma run_to_decision:
  assumes "evaluatePolicy (policy_input chat_demo_org (chat_demo_budget x) (processed_prompt demo_text)) = Inr d"
    "buildAuditMetadata (pd_riskScore d) (reason_label (pd_reasonCode d)) (length (pd_categories d)) = Inr ()"
  shows "prepareChatStream chat_demo_env (chat_demo_with x gen yields) chat_demo_input chat_demo_world
      = with_locals (initial_locals chat_demo_reservation)
          (act_catch (if pd_action d = BLOCK then block_request chat_demo_env (chat_demo_with x gen yields) chat_demo_input d
             else accept_request chat_demo_env (chat_demo_with x gen yields) chat_demo_input chat_demo_org (chat_demo_budget x) d)
             (prepare_failed chat_demo_env (chat_demo_with x gen yields) chat_demo_input)) (chat_demo_decided x d)"
  by (simp add: prepareChatStream_def prepare_reserved_def evaluate_prompt_alt assms assertRoutingAllowed_def
      with_locals_def run_simps chat_demo_world_def chat_demo_decided_def)

lemma chat_demo_blocked:
  obtains d where "pd_action d = BLOCK" "DPolicyEvent d True \<in>
    set (new_calls (prepareChatStream chat_demo_env (chat_demo_deps True c) chat_demo_input) chat_demo_world)"
proof -
  obtain d where d: "evaluatePolicy (policy_input chat_demo_org (chat_demo_budget True) (processed_prompt demo_text)) = Inr d"
    "pd_action d = BLOCK"
    "buildAuditMetadata (pd_riskScore d) (reason_label (pd_reasonCode d)) (length (pd_categories d)) = Inr ()"
    using chat_demo_decision [of True] by auto
  have "DPolicyEvent d True \<in> set (new_calls (prepareChatStream chat_demo_env (chat_demo_deps True c) chat_demo_input) chat_demo_world)"
    unfolding new_calls_def run_to_decision [OF d(1,3)] if_P [OF d(2)]
    by (simp add: block_request_def enqueue_analytics_def with_locals_def run_simps d(2) chat_demo_decided_def chat_demo_world_def
        initial_locals_def prepare_failed_def finish_metrics_def settle_reservation_def recordBlockedChat_def log_metric_def)
  with d(2) show ?thesis by (rule that)
qed

lemma chat_demo_prepared:
  assumes first: "yields gen = (Some chunk, gen')"
  obtains p w1 msgs where
    "prepareChatStream chat_demo_env (chat_demo_with False gen yields) chat_demo_input chat_demo_world = (Inr p, w1)"
    "DStream msgs 1024 True \<in> set (cw_calls w1)" "DReserve True \<in> set (cw_calls w1)"
    "\<forall>org. DOrganisation (Some org) \<in> set (cw_calls w1) \<longrightarrow> org = chat_demo_org"
    "ps_firstChunk p = chunk" "ps_iterator p = gen'" "0 \<le> pd_riskScore (ps_decision p)" "pd_riskScore (ps_decision p) \<le> 100"
proof -
  obtain d where d: "evaluatePolicy (policy_input chat_demo_org (chat_demo_budget False) (processed_prompt demo_text)) = Inr d"
    "pd_action d = ALLOW_WITH_MASK"
    "buildAuditMetadata (pd_riskScore d) (reason_label (pd_reasonCode d)) (length (pd_categories d)) = Inr ()"
    using chat_demo_decision [of False] by auto
  then have nb: "pd_action d \<noteq> BLOCK" by simp
  obtain m where m: "startAcceptedChatMetrics (ce_hrtime chat_demo_env) ALLOW_WITH_MASK (chat_demo_decided False d) = Inr m"
    using startAcceptedChatMetrics_returns by blast
  have mm: "\<exists>m'. metrics_markProviderStarted (ce_hrtime chat_demo_env) groq m w = Inr m'" for w by (rule markProviderStarted_groq)
  let ?w = "(chat_demo_decided False d)\<lparr>cw_calls := cw_calls (chat_demo_decided False d) @ [DHealth groq True,
      DStream (br_messages (stream_request chat_demo_env chat_demo_input chat_demo_org d [] chat_demo_candidate)) 1024 True]\<rparr>"
  obtain m' where m': "metrics_markProviderStarted (ce_hrtime chat_demo_env) groq m ?w = Inr m'" using mm by blast
  have mx: "br_maxOutputTokens (stream_request chat_demo_env chat_demo_input chat_demo_org d [] chat_demo_candidate) = 1024"
    by (simp add: stream_request_def)
  have "\<exists>p. prepareChatStream chat_demo_env (chat_demo_with False gen yields) chat_demo_input chat_demo_world
      = (Inr p, ?w\<lparr>cw_calls := cw_calls ?w @ [DNext True]\<rparr>) \<and> ps_firstChunk p = chunk \<and> ps_iterator p = gen' \<and> ps_decision p = d"
    unfolding run_to_decision [OF d(1,3)] if_not_P [OF nb]
    by (simp add: accept_request_def open_provider_stream_def Let_def with_locals_def run_simps d(2) m m' mx
        selectProductionCandidate_def provider_history_def first) (simp add: prepared_stream_def)
  moreover have "cw_calls ?w = cw_calls (chat_demo_decided False d) @ [DHealth groq True,
      DStream (br_messages (stream_request chat_demo_env chat_demo_input chat_demo_org d [] chat_demo_candidate)) 1024 True]" by simp
  moreover have "0 \<le> pd_riskScore d" "pd_riskScore d \<le> 100" using d(3) by (auto simp: buildAuditMetadata_def split: if_splits)
  ultimately show ?thesis by (auto intro!: that simp: chat_demo_decided_def)
qed

lemmas chat_demo_masked = chat_demo_prepared [where yields = "\<lambda>_. (Some (ChunkToken []), ())" and gen = "()", OF refl]

section \<open>Witnesses\<close>

theorem blocked_request_never_reaches_provider_witness:
  "untouched (new_calls (prepareChatStream chat_demo_env (chat_demo_deps True None) chat_demo_input) chat_demo_world)
   \<and> (\<exists>e. fst (prepareChatStream chat_demo_env (chat_demo_deps True None) chat_demo_input chat_demo_world) = Inl e)"
proof -
  obtain d where "pd_action d = BLOCK" "DPolicyEvent d True \<in>
    set (new_calls (prepareChatStream chat_demo_env (chat_demo_deps True None) chat_demo_input) chat_demo_world)"
    by (rule chat_demo_blocked)
  then show ?thesis using blocked_request_never_reaches_provider by blast
qed

lemma chat_demo_new_calls:
  "prepareChatStream chat_demo_env D chat_demo_input chat_demo_world = (r, w1) \<Longrightarrow>
   new_calls (prepareChatStream chat_demo_env D chat_demo_input) chat_demo_world = cw_calls w1"
  by (simp add: new_calls_def chat_demo_world_def)

abbreviation chat_demo_stream where "chat_demo_stream \<equiv> chat_demo_deps False (Some (ChunkToken []))"

theorem provider_gets_only_approved_content_witness:
  "\<exists>msgs org bg d oks. accepted_by chat_demo_input
       (new_calls (prepareChatStream chat_demo_env chat_demo_stream chat_demo_input) chat_demo_world) org bg d
     \<and> messages_allowed chat_demo_input d oks msgs"
proof -
  obtain p w1 msgs where "prepareChatStream chat_demo_env chat_demo_stream chat_demo_input chat_demo_world = (Inr p, w1)"
    "DStream msgs 1024 True \<in> set (cw_calls w1)" by (rule chat_demo_masked)
  with chat_demo_new_calls provider_gets_only_approved_content show ?thesis by metis
qed

theorem reservation_settled_witness:
  "\<exists>p. fst (prepareChatStream chat_demo_env chat_demo_stream chat_demo_input chat_demo_world) = Inr p
     \<and> filter accounting_call (new_calls (prepareChatStream chat_demo_env chat_demo_stream chat_demo_input) chat_demo_world) = []"
proof -
  obtain p w1 where p: "prepareChatStream chat_demo_env chat_demo_stream chat_demo_input chat_demo_world = (Inr p, w1)"
    "DReserve True \<in> set (cw_calls w1)" by (rule chat_demo_masked)
  then have "DReserve True \<in> set (new_calls (prepareChatStream chat_demo_env chat_demo_stream chat_demo_input) chat_demo_world)"
    using chat_demo_new_calls by metis
  from reservation_settled [OF this] p(1) show ?thesis by (auto simp: filter_empty_conv)
qed

theorem usage_recorded_once_witness:
  "\<exists>p u b. filter usage_call (new_calls (act_then (prepareChatStream chat_demo_env chat_demo_stream chat_demo_input)
      (finalizeChatStream chat_demo_env chat_demo_stream p \<lparr>fo_status = st_INTERRUPTED, fo_usage = None, fo_assistantContent = None\<rparr>))
      chat_demo_world) = [DUsage u b]"
proof -
  obtain p w1 where "prepareChatStream chat_demo_env chat_demo_stream chat_demo_input chat_demo_world = (Inr p, w1)"
    by (rule chat_demo_masked)
  from usage_recorded_once [OF this] show ?thesis by blast
qed

theorem provider_prompt_is_redacted_witness:
  "\<exists>msgs b. DStream msgs 1024 b \<in> set (new_calls (prepareChatStream chat_demo_env chat_demo_stream chat_demo_input) chat_demo_world)
     \<and> last msgs = \<lparr>pm_role = RoleUser, pm_content = js_lit ''[EMAIL_REDACTED]''\<rparr>"
proof -
  obtain p w1 msgs where run: "prepareChatStream chat_demo_env chat_demo_stream chat_demo_input chat_demo_world = (Inr p, w1)"
    and s: "DStream msgs 1024 True \<in> set (cw_calls w1)"
    and org: "\<forall>org. DOrganisation (Some org) \<in> set (cw_calls w1) \<longrightarrow> org = chat_demo_org" by (rule chat_demo_masked)
  note s = s [folded chat_demo_new_calls [OF run]] and org = org [folded chat_demo_new_calls [OF run]]
  have score: "risk_reference (det_spans (detectPii demo_text)) = 10"
    by (simp add: demo_detect risk_reference_def distinct_spans_def demo_span_def)
  have red: "redact demo_text 0 (map span_triple (det_spans (detectPii demo_text))) = js_lit ''[EMAIL_REDACTED]''"
    by (simp add: demo_detect span_triple_def demo_span_def placeholderFor_def js_slice_def demo_slice)
  have "\<exists>org. DOrganisation (Some org) \<in> set (new_calls (prepareChatStream chat_demo_env chat_demo_stream chat_demo_input) chat_demo_world)
     \<and> last msgs = \<lparr>pm_role = RoleUser, pm_content = (if 10 < maskThreshold (oc_policy org) then demo_text else js_lit ''[EMAIL_REDACTED]'')\<rparr>"
    using provider_prompt_is_redacted [OF _ _ s] demo_text_jsstr by (auto simp: score red)
  then have "last msgs = \<lparr>pm_role = RoleUser, pm_content = js_lit ''[EMAIL_REDACTED]''\<rparr>"
    using org by (auto simp: chat_demo_org_def)
  with s show ?thesis by blast
qed

end
