(* ===== verification/Pagination.thy ===== *)
theory Pagination
  imports Prelude
begin

text \<open>
  Keyset pagination: the listings of the program sort by a key, return \<open>limit\<close> items of a query
  for \<open>limit + 1\<close> and resume after the key of the last item. The locale states what a listing
  needs of its order and of its cursor filter; following the cursors of an unchanged collection
  then yields the sorted collection cut into pages (\<open>walk_complete\<close>): every document once, in order,
  and no further page.
\<close>

section \<open>Comparison of identifiers\<close>

text \<open>The binary order of strings that the database sorts by.\<close>

fun str_less :: "nat list \<Rightarrow> nat list \<Rightarrow> bool" where
  "str_less s [] = False"
| "str_less [] (y # ys) = True"
| "str_less (x # xs) (y # ys) = (x < y \<or> x = y \<and> str_less xs ys)"

lemma str_less_irrefl [simp]: "\<not> str_less s s"
  by (induction s) auto

lemma str_less_trans: "str_less s t \<Longrightarrow> str_less t u \<Longrightarrow> str_less s u"
proof (induction s u arbitrary: t rule: str_less.induct)
  case (1 s)
  then show ?case by (cases t) auto
next
  case (3 x xs y ys)
  then show ?case by (cases t) auto
qed simp

lemma str_less_total: "s \<noteq> t \<Longrightarrow> str_less s t \<or> str_less t s"
proof (induction s t rule: str_less.induct)
  case (1 s)
  then show ?case by (cases s) auto
qed auto

definition id_less :: "string \<Rightarrow> string \<Rightarrow> bool" where
  "id_less s t \<longleftrightarrow> str_less (js_lit s) (js_lit t)"

lemma id_less_irrefl [simp]: "\<not> id_less s s"
  by (simp add: id_less_def)

lemma id_less_trans: "id_less s t \<Longrightarrow> id_less t u \<Longrightarrow> id_less s u"
  unfolding id_less_def by (rule str_less_trans)

lemma id_less_total: "s \<noteq> t \<Longrightarrow> id_less s t \<or> id_less t s"
proof -
  assume "s \<noteq> t"
  then have "js_lit s \<noteq> js_lit t" by (simp add: js_lit_def inj_map_eq_map inj_on_def)
  then show ?thesis unfolding id_less_def by (rule str_less_total)
qed

section \<open>Pages\<close>

text \<open>What a query returns, and the documents and next cursor of a page.\<close>

definition query :: "('d \<Rightarrow> 'd \<Rightarrow> bool) \<Rightarrow> ('d \<Rightarrow> bool) \<Rightarrow> nat \<Rightarrow> 'd list \<Rightarrow> 'd list" where
  "query le p n docs = take n (sort_by le (filter p docs))"

definition page_items :: "nat \<Rightarrow> 'd list \<Rightarrow> 'd list" where
  "page_items limit ds = (if limit < length ds then take limit ds else ds)"

definition page_next :: "('d \<Rightarrow> 'k) \<Rightarrow> nat \<Rightarrow> 'd list \<Rightarrow> 'k option" where
  "page_next key limit ds =
     (if limit < length ds \<and> page_items limit ds \<noteq> [] then Some (key (last (page_items limit ds))) else None)"

text \<open>Following the cursors; the fuel bounds the number of pages.\<close>

fun walk :: "('k option \<Rightarrow> 'd list \<times> 'k option) \<Rightarrow> nat \<Rightarrow> 'k option \<Rightarrow> 'd list list" where
  "walk page 0 c = []"
| "walk page (Suc n) c =
     (case page c of (items, next_cursor) \<Rightarrow>
        items # (case next_cursor of None \<Rightarrow> [] | Some k \<Rightarrow> walk page n (Some k)))"

text \<open>Whether a client that follows the cursors is through after at most \<open>n\<close> requests.\<close>

fun walk_ends :: "('k option \<Rightarrow> 'd list \<times> 'k option) \<Rightarrow> nat \<Rightarrow> 'k option \<Rightarrow> bool" where
  "walk_ends page 0 c = False"
| "walk_ends page (Suc n) c = (case snd (page c) of None \<Rightarrow> True | Some k \<Rightarrow> walk_ends page n (Some k))"

text \<open>
  What following the cursors has to give: the list cut into pages of \<open>limit\<close> items, of which only
  the last may be shorter; an empty list is one empty page.
\<close>

function pages_of :: "nat \<Rightarrow> 'a list \<Rightarrow> 'a list list" where
  "pages_of limit xs = (if limit = 0 \<or> length xs \<le> limit then [xs] else take limit xs # pages_of limit (drop limit xs))"
  by pat_completeness auto

termination by (relation "measure (\<lambda>(limit, xs). length xs)") auto

declare pages_of.simps [simp del]

lemma pages_of_not_Nil [simp]: "pages_of limit xs \<noteq> []"
  by (subst pages_of.simps) simp

lemma concat_pages_of: "concat (pages_of limit xs) = xs"
proof (induction limit xs rule: pages_of.induct)
  case (1 limit xs)
  then show ?case by (subst pages_of.simps) simp
qed

lemma map_pages_of: "map (map f) (pages_of limit xs) = pages_of limit (map f xs)"
proof (induction limit xs rule: pages_of.induct)
  case (1 limit xs)
  then show ?case by (subst (1 2) pages_of.simps) (simp add: take_map drop_map)
qed

lemma length_pages_of: "length (pages_of limit xs) \<le> max 1 (length xs)"
proof (induction limit xs rule: pages_of.induct)
  case (1 limit xs)
  then show ?case by (subst pages_of.simps) (auto simp: max_def split: if_splits)
qed

lemma page_length: "0 < limit \<Longrightarrow> page \<in> set (pages_of limit xs) \<Longrightarrow> length page \<le> limit"
proof (induction limit xs rule: pages_of.induct)
  case (1 limit xs)
  then show ?case by (subst (asm) (2) pages_of.simps) (auto split: if_splits)
qed

lemma pages_of_nonempty: "page \<in> set (pages_of limit xs) \<Longrightarrow> xs \<noteq> [] \<Longrightarrow> page \<noteq> []"
proof (induction limit xs rule: pages_of.induct)
  case (1 limit xs)
  then show ?case by (subst (asm) (2) pages_of.simps) (auto split: if_splits)
qed

lemma set_query: "set (query le p n ds) \<subseteq> {d \<in> set ds. p d}"
proof -
  have "set (query le p n ds) \<subseteq> set (sort_by le (filter p ds))" unfolding query_def by (rule set_take_subset)
  then show ?thesis by auto
qed

lemma page_items_query: "d \<in> set (page_items limit (query le p n ds)) \<Longrightarrow> d \<in> set ds"
  using set_query [of le p n ds] set_take_subset [of limit "query le p n ds"]
  by (auto simp: page_items_def split: if_splits)

locale keyset =
  fixes before :: "'d \<Rightarrow> 'd \<Rightarrow> bool"
    and key :: "'d \<Rightarrow> 'k"
    and after :: "'k option \<Rightarrow> 'd \<Rightarrow> bool"
  assumes irrefl: "\<not> before x x"
    and trans: "before x y \<Longrightarrow> before y z \<Longrightarrow> before x z"
    and total: "key x \<noteq> key y \<Longrightarrow> before x y \<or> before y x"
    and after_start: "after None d"
    and after_key: "after (Some (key x)) d \<longleftrightarrow> before x d"
begin

definition le :: "'d \<Rightarrow> 'd \<Rightarrow> bool" where
  "le x y \<longleftrightarrow> \<not> before y x"

definition page :: "'d list \<Rightarrow> nat \<Rightarrow> 'k option \<Rightarrow> 'd list \<times> 'k option" where
  "page docs limit c = (let ds = query le (after c) (Suc limit) docs in (page_items limit ds, page_next key limit ds))"

lemma asym: "before x y \<Longrightarrow> \<not> before y x"
  using irrefl trans by blast

lemma sorted_insert:
  "sorted_wrt before ys \<Longrightarrow> key x \<notin> key ` set ys \<Longrightarrow> sorted_wrt before (insert_by le x ys)"
proof (induction ys)
  case (Cons y ys)
  then have "before x y \<or> before y x" using total by force
  with Cons show ?case by (auto simp: le_def dest: asym intro: trans)
qed simp

lemma sorted_sort: "distinct (map key ds) \<Longrightarrow> sorted_wrt before (sort_by le ds)"
  by (induction ds) (auto simp: sorted_insert)

lemma sorted_unique:
  "sorted_wrt before xs \<Longrightarrow> sorted_wrt before ys \<Longrightarrow> set xs = set ys \<Longrightarrow> xs = ys"
proof (induction xs arbitrary: ys)
  case (Cons x xs)
  then obtain y ys' where ys: "ys = y # ys'" by (cases ys) auto
  have x: "\<forall>z \<in> set xs. before x z" and y: "\<forall>z \<in> set ys'. before y z" using Cons.prems ys by auto
  have "x = y"
    using Cons.prems(3) x y asym unfolding ys by (metis insert_iff list.set(2))
  moreover have "x \<notin> set xs" "y \<notin> set ys'" using x y irrefl by blast+
  ultimately have "set xs = set ys'" using Cons.prems(3) unfolding ys by auto
  with Cons \<open>x = y\<close> show ?case unfolding ys by auto
qed simp

lemma sort_filter:
  assumes "distinct (map key ds)"
  shows "sort_by le (filter p ds) = filter p (sort_by le ds)"
proof (rule sorted_unique)
  show "sorted_wrt before (sort_by le (filter p ds))"
    using assms by (intro sorted_sort) (rule distinct_map_filter)
  show "sorted_wrt before (filter p (sort_by le ds))"
    using sorted_sort [OF assms] by (rule sorted_wrt_filter)
qed auto

lemma filter_after:
  assumes "sorted_wrt before (xs @ x # ys)"
  shows "filter (after (Some (key x))) (xs @ x # ys) = ys"
proof -
  have "\<forall>z \<in> set xs. \<not> before x z" "\<forall>z \<in> set ys. before x z"
    using assms asym by (auto simp: sorted_wrt_append)
  then show ?thesis using irrefl by (simp add: after_key filter_empty_conv)
qed

text \<open>The pages from a cursor on are the rest of the sorted collection.\<close>

lemma walk_rest:
  assumes "distinct (map key ds)" and "0 < limit" and "sort_by le ds = xs @ ys"
    and "filter (after c) (sort_by le ds) = ys" and "length (pages_of limit ys) \<le> fuel"
  shows "walk (page ds limit) fuel c = pages_of limit ys \<and> walk_ends (page ds limit) fuel c"
  using assms
proof (induction fuel arbitrary: c xs ys)
  case (Suc fuel)
  have q: "query le (after c) (Suc limit) ds = take (Suc limit) ys"
    using Suc.prems by (simp add: query_def sort_filter)
  show ?case
  proof (cases "limit < length ys")
    case False
    then show ?thesis using q by (simp add: page_def Let_def page_items_def page_next_def pages_of.simps [of limit ys])
  next
    case True
    define zs where "zs = take limit ys"
    have len: "length zs = limit" and zs: "zs \<noteq> []" using True Suc.prems(2) by (auto simp: zs_def)
    have p: "page ds limit c = (zs, Some (key (last zs)))"
      using q True zs by (simp add: page_def Let_def page_items_def page_next_def zs_def min_def)
    have split: "sort_by le ds = (xs @ butlast zs) @ last zs # drop limit ys"
    proof -
      have "butlast zs @ [last zs] = zs" using zs by simp
      moreover have "ys = zs @ drop limit ys" by (simp add: zs_def)
      ultimately show ?thesis using Suc.prems(3) by (metis append.assoc append_Cons append_Nil)
    qed
    have later: "filter (after (Some (key (last zs)))) (sort_by le ds) = drop limit ys"
      unfolding split by (rule filter_after) (use sorted_sort [OF Suc.prems(1)] split in simp)
    have few: "length (pages_of limit (drop limit ys)) \<le> fuel"
      using Suc.prems(2,5) True by (simp add: pages_of.simps [of limit ys])
    have rest: "sort_by le ds = (xs @ zs) @ drop limit ys" using Suc.prems(3) by (simp add: zs_def)
    have "walk (page ds limit) fuel (Some (key (last zs))) = pages_of limit (drop limit ys)
        \<and> walk_ends (page ds limit) fuel (Some (key (last zs)))"
      by (rule Suc.IH [OF Suc.prems(1,2) rest later few])
    with p True Suc.prems(2) show ?thesis by (simp add: zs_def pages_of.simps [of limit ys])
  qed
qed simp

lemma walk_complete:
  assumes "distinct (map key ds)" and "0 < limit" and "length (pages_of limit (sort_by le ds)) \<le> fuel"
  shows "walk (page ds limit) fuel None = pages_of limit (sort_by le ds) \<and> walk_ends (page ds limit) fuel None"
  using walk_rest [OF assms(1,2), of "[]" "sort_by le ds" None fuel] assms(3) after_start by simp

lemma page_next_in:
  assumes "snd (page docs limit c) = Some k"
  shows "\<exists>d \<in> set docs. k = key d"
proof -
  let ?items = "page_items limit (query le (after c) (Suc limit) docs)"
  have "?items \<noteq> []" "k = key (last ?items)"
    using assms by (simp_all add: page_def Let_def page_next_def split: if_splits)
  then show ?thesis using page_items_query [OF last_in_set] by blast
qed

lemma page_bound: "length (fst (page ds limit c)) \<le> limit"
  by (auto simp: page_def Let_def page_items_def)

end

text \<open>Pages whose cursors travel encoded and whose documents are presented to the client.\<close>

lemma walk_presented:
  assumes "\<And>c. ok c \<Longrightarrow> page' (map_option enc c) = (map f (fst (page c)), map_option enc (snd (page c))) \<and> ok (snd (page c))"
    and "ok c"
  shows "walk page' n (map_option enc c) = map (map f) (walk page n c)
    \<and> walk_ends page' n (map_option enc c) = walk_ends page n c"
  using assms(2)
proof (induction n arbitrary: c)
  case (Suc n)
  obtain items next_cursor where p: "page c = (items, next_cursor)" by fastforce
  then have "page' (map_option enc c) = (map f items, map_option enc next_cursor)" "ok next_cursor"
    using assms(1) [OF Suc.prems] by simp_all
  with Suc.IH [of next_cursor] p show ?case by (cases next_cursor) simp_all
qed simp

end
