(* ===== verification/Store.thy ===== *)
theory Store
  imports Pagination ActionLogic ProviderTypes
begin

text \<open>
  The document database behind the repositories. A collection is a parameter: its operations are
  arbitrary actions, \<open>cl_docs\<close> is what is committed in a world, and \<open>collection_laws\<close> states the
  documented behaviour that the proofs use: a query returns the sorted, limited selection, a
  creation that succeeds validated its documents and kept the unique indexes, an update changes one
  matching document. An operation may fail at any time. \<open>transaction_laws\<close> says that a transaction
  that succeeds committed one complete run of its body, and that one that fails either changed
  nothing or failed after the commit.
\<close>

record ('s, 'd) collection =
  cl_docs :: "'s \<Rightarrow> 'd list"
  cl_find :: "('d \<Rightarrow> bool) \<Rightarrow> ('d \<Rightarrow> 'd \<Rightarrow> bool) \<Rightarrow> nat \<Rightarrow> ('s, exn, 'd list) act"
  cl_findOne :: "('d \<Rightarrow> bool) \<Rightarrow> ('s, exn, 'd option) act"
  cl_count :: "('d \<Rightarrow> bool) \<Rightarrow> ('s, exn, nat) act"
  cl_create :: "'d list \<Rightarrow> ('s, exn, unit) act"
  cl_update :: "('d \<Rightarrow> bool) \<Rightarrow> ('d \<Rightarrow> 'd) \<Rightarrow> ('s, exn, 'd option) act"

definition find_law :: "('s, 'd) collection \<Rightarrow> bool" where
  "find_law C \<longleftrightarrow> (\<forall>p le n s. cl_docs C (snd (cl_find C p le n s)) = cl_docs C s
     \<and> (\<forall>ds. fst (cl_find C p le n s) = Inr ds \<longrightarrow> ds = query le p n (cl_docs C s)))"

definition findOne_law :: "('s, 'd) collection \<Rightarrow> bool" where
  "findOne_law C \<longleftrightarrow> (\<forall>p s. cl_docs C (snd (cl_findOne C p s)) = cl_docs C s
     \<and> (fst (cl_findOne C p s) = Inr None \<longrightarrow> (\<forall>d \<in> set (cl_docs C s). \<not> p d))
     \<and> (\<forall>d. fst (cl_findOne C p s) = Inr (Some d) \<longrightarrow> d \<in> set (cl_docs C s) \<and> p d))"

definition count_law :: "('s, 'd) collection \<Rightarrow> bool" where
  "count_law C \<longleftrightarrow> (\<forall>p s. cl_docs C (snd (cl_count C p s)) = cl_docs C s
     \<and> (\<forall>n. fst (cl_count C p s) = Inr n \<longrightarrow> n = length (filter p (cl_docs C s))))"

definition create_law :: "('d \<Rightarrow> bool) \<Rightarrow> ('d list \<Rightarrow> bool) \<Rightarrow> ('s, 'd) collection \<Rightarrow> bool" where
  "create_law valid unique C \<longleftrightarrow> (\<forall>ds s. fst (cl_create C ds s) = Inr () \<longrightarrow>
     cl_docs C (snd (cl_create C ds s)) = cl_docs C s @ ds \<and> list_all valid ds \<and> unique (cl_docs C s @ ds))"

definition update_law :: "('s, 'd) collection \<Rightarrow> bool" where
  "update_law C \<longleftrightarrow> (\<forall>p f s.
     (fst (cl_update C p f s) = Inr None \<longrightarrow>
        (\<forall>d \<in> set (cl_docs C s). \<not> p d) \<and> cl_docs C (snd (cl_update C p f s)) = cl_docs C s)
   \<and> (\<forall>d'. fst (cl_update C p f s) = Inr (Some d') \<longrightarrow>
        (\<exists>xs d ys. cl_docs C s = xs @ d # ys \<and> p d \<and> d' = f d \<and> cl_docs C (snd (cl_update C p f s)) = xs @ f d # ys)))"

definition collection_laws :: "('d \<Rightarrow> bool) \<Rightarrow> ('d list \<Rightarrow> bool) \<Rightarrow> ('s, 'd) collection \<Rightarrow> bool" where
  "collection_laws valid unique C \<longleftrightarrow>
     find_law C \<and> findOne_law C \<and> count_law C \<and> create_law valid unique C \<and> update_law C"

text \<open>An action that leaves an observation of the world alone.\<close>

definition leaves :: "('s \<Rightarrow> 'x) \<Rightarrow> ('s, 'e, 'a) act \<Rightarrow> bool" where
  "leaves f m \<longleftrightarrow> (\<forall>s. f (snd (m s)) = f s)"

lemma leavesD: "leaves f m \<Longrightarrow> m s = (r, s') \<Longrightarrow> f s' = f s"
  unfolding leaves_def by (metis snd_conv)

lemma leaves_bind: "leaves f m \<Longrightarrow> (\<And>x. leaves f (k x)) \<Longrightarrow> leaves f (act_bind m k)"
  by (auto simp: leaves_def act_bind_apply split: prod.split sum.split) (metis snd_conv)+

lemma leaves_ret: "leaves f (act_ret x)" and leaves_throw: "leaves f (act_throw e)"
  by (simp_all add: leaves_def)

text \<open>Sessions: \<^verbatim>\<open>startSession\<close>, \<^verbatim>\<open>withTransaction\<close> and \<^verbatim>\<open>endSession\<close>.\<close>

record 's sessions =
  se_start :: "('s, exn, unit) act"
  se_transaction :: "('s, exn, unit) act \<Rightarrow> ('s, exn, unit) act"
  se_end :: "('s, exn, unit) act"

definition transaction_laws :: "('s \<Rightarrow> 'x) \<Rightarrow> 's sessions \<Rightarrow> bool" where
  "transaction_laws committed T \<longleftrightarrow> leaves committed (se_start T) \<and> leaves committed (se_end T)
   \<and> (\<forall>m s. (let r = fst (se_transaction T m s); s' = snd (se_transaction T m s);
                run = (\<exists>s0 s1. committed s0 = committed s \<and> m s0 = (Inr (), s1) \<and> committed s' = committed s1)
             in (r = Inr () \<longrightarrow> run) \<and> (r \<noteq> Inr () \<longrightarrow> committed s' = committed s \<or> run)))"

lemma transactionD:
  assumes "transaction_laws committed T" and "se_transaction T m s = (r, s')"
  shows "(\<exists>s0 s1. committed s0 = committed s \<and> m s0 = (Inr (), s1) \<and> committed s' = committed s1)
       \<or> r \<noteq> Inr () \<and> committed s' = committed s"
proof -
  have "\<forall>m s. (let r = fst (se_transaction T m s); s' = snd (se_transaction T m s);
                run = (\<exists>s0 s1. committed s0 = committed s \<and> m s0 = (Inr (), s1) \<and> committed s' = committed s1)
             in (r = Inr () \<longrightarrow> run) \<and> (r \<noteq> Inr () \<longrightarrow> committed s' = committed s \<or> run))"
    using assms(1) unfolding transaction_laws_def by (elim conjE)
  from this [rule_format, of m s] assms(2) show ?thesis by (auto simp: Let_def)
qed

lemma transaction_leaves:
  "transaction_laws committed T \<Longrightarrow> leaves committed (se_start T) \<and> leaves committed (se_end T)"
  unfolding transaction_laws_def by (elim conjE) (rule conjI)

lemma findD:
  assumes "find_law C" and "cl_find C p le n s = (r, s')"
  shows "cl_docs C s' = cl_docs C s" and "r = Inr ds \<Longrightarrow> ds = query le p n (cl_docs C s)"
  using assms unfolding find_law_def by (metis fst_conv snd_conv)+

lemma findOneD:
  assumes "findOne_law C" and "cl_findOne C p s = (r, s')"
  shows "cl_docs C s' = cl_docs C s" and "r = Inr None \<Longrightarrow> d \<in> set (cl_docs C s) \<Longrightarrow> \<not> p d"
    and "r = Inr (Some d) \<Longrightarrow> d \<in> set (cl_docs C s) \<and> p d"
  using assms unfolding findOne_law_def by (metis fst_conv snd_conv)+

lemma countD:
  assumes "count_law C" and "cl_count C p s = (r, s')"
  shows "cl_docs C s' = cl_docs C s" and "r = Inr n \<Longrightarrow> n = length (filter p (cl_docs C s))"
  using assms unfolding count_law_def by (metis fst_conv snd_conv)+

lemma createD:
  assumes "create_law valid unique C" and "cl_create C ds s = (Inr (), s')"
  shows "cl_docs C s' = cl_docs C s @ ds \<and> list_all valid ds \<and> unique (cl_docs C s @ ds)"
  using assms unfolding create_law_def by (metis fst_conv snd_conv)

lemma updateD:
  assumes "update_law C" and "cl_update C p f s = (r, s')"
  shows "r = Inr None \<Longrightarrow> (\<forall>d \<in> set (cl_docs C s). \<not> p d) \<and> cl_docs C s' = cl_docs C s"
    and "r = Inr (Some d') \<Longrightarrow>
      \<exists>xs d ys. cl_docs C s = xs @ d # ys \<and> p d \<and> d' = f d \<and> cl_docs C s' = xs @ f d # ys"
  using assms unfolding update_law_def by (metis fst_conv snd_conv)+

section \<open>A collection in memory\<close>

text \<open>It shows that the laws can hold: the world is the list of documents.\<close>

fun update_first :: "('d \<Rightarrow> bool) \<Rightarrow> ('d \<Rightarrow> 'd) \<Rightarrow> 'd list \<Rightarrow> 'd option \<times> 'd list" where
  "update_first p f [] = (None, [])"
| "update_first p f (d # ds) =
     (if p d then (Some (f d), f d # ds) else (case update_first p f ds of (r, ds') \<Rightarrow> (r, d # ds')))"

lemma update_first_None: "update_first p f ds = (None, ds') \<Longrightarrow> (\<forall>d \<in> set ds. \<not> p d) \<and> ds' = ds"
  by (induction ds arbitrary: ds') (auto split: if_splits prod.splits)

lemma update_first_Some:
  "update_first p f ds = (Some d', ds') \<Longrightarrow> \<exists>xs d ys. ds = xs @ d # ys \<and> p d \<and> d' = f d \<and> ds' = xs @ f d # ys"
proof (induction ds arbitrary: ds')
  case (Cons d ds)
  show ?case
  proof (cases "p d")
    case True
    with Cons.prems show ?thesis by (intro exI [of _ "[]"]) auto
  next
    case False
    then obtain es where es: "update_first p f ds = (Some d', es)" "ds' = d # es"
      using Cons.prems by (auto split: prod.splits)
    from Cons.IH [OF es(1)] obtain xs e ys where "ds = xs @ e # ys" "p e" "d' = f e" "es = xs @ f e # ys" by blast
    with es(2) show ?thesis by (intro exI [of _ "d # xs"]) auto
  qed
qed simp

definition mem_collection ::
  "('d \<Rightarrow> bool) \<Rightarrow> ('d list \<Rightarrow> bool) \<Rightarrow> ('s \<Rightarrow> 'd list) \<Rightarrow> (('d list \<Rightarrow> 'd list) \<Rightarrow> 's \<Rightarrow> 's) \<Rightarrow> ('s, 'd) collection" where
  "mem_collection valid unique get upd = \<lparr>
     cl_docs = get,
     cl_find = (\<lambda>p le n s. (Inr (query le p n (get s)), s)),
     cl_findOne = (\<lambda>p s. (Inr (find p (get s)), s)),
     cl_count = (\<lambda>p s. (Inr (length (filter p (get s))), s)),
     cl_create = (\<lambda>ds s. if list_all valid ds \<and> unique (get s @ ds) then (Inr (), upd (\<lambda>xs. xs @ ds) s)
                    else (Inl (ExnOther ''ValidationError''), s)),
     cl_update = (\<lambda>p f s. (Inr (fst (update_first p f (get s))), upd (\<lambda>xs. snd (update_first p f xs)) s))\<rparr>"

lemma mem_collection_laws:
  assumes "\<And>f s. get (upd f s) = f (get s)"
  shows "collection_laws valid unique (mem_collection valid unique get upd)"
proof -
  let ?C = "mem_collection valid unique get upd"
  have "find_law ?C" "count_law ?C" "create_law valid unique ?C"
    by (auto simp: find_law_def count_law_def create_law_def mem_collection_def assms)
  moreover have "findOne_law ?C"
    by (auto simp: findOne_law_def mem_collection_def find_None_iff find_Some_iff)
  moreover have "update_law ?C"
    unfolding update_law_def
  proof (intro allI)
    fix p f s
    obtain r ds where u: "update_first p f (get s) = (r, ds)" by fastforce
    show "(fst (cl_update ?C p f s) = Inr None \<longrightarrow>
        (\<forall>d \<in> set (cl_docs ?C s). \<not> p d) \<and> cl_docs ?C (snd (cl_update ?C p f s)) = cl_docs ?C s)
     \<and> (\<forall>d'. fst (cl_update ?C p f s) = Inr (Some d') \<longrightarrow>
        (\<exists>xs d ys. cl_docs ?C s = xs @ d # ys \<and> p d \<and> d' = f d \<and> cl_docs ?C (snd (cl_update ?C p f s)) = xs @ f d # ys))"
      using u update_first_None [of p f "get s" ds] update_first_Some [of p f "get s" _ ds]
      by (auto simp: mem_collection_def assms)
  qed
  ultimately show ?thesis by (simp add: collection_laws_def)
qed

definition mem_sessions :: "'s sessions" where
  "mem_sessions = \<lparr>se_start = act_ret (), se_transaction = (\<lambda>m s. case m s of (Inr x, s') \<Rightarrow> (Inr x, s') | (Inl e, s') \<Rightarrow> (Inl e, s)),
     se_end = act_ret ()\<rparr>"

lemma mem_sessions_laws: "transaction_laws committed mem_sessions"
  by (auto simp: transaction_laws_def mem_sessions_def leaves_ret Let_def split: prod.splits sum.splits)

end
