(* ===== verification/Json.thy ===== *)
theory Json
  imports Encoding
begin

text \<open>
  \<^verbatim>\<open>JSON.stringify\<close> and \<^verbatim>\<open>JSON.parse\<close> on texts of UTF-16 code units, and the theorem that the
  second inverts the first. A number is an integer or a fraction; the program prints no fraction,
  so the printer of fractions is a parameter. An object is the list of its properties in their
  order; a repeated key overwrites the value at its first place.

  The parser is a recursive descent with fuel; a nested call always starts behind at least one
  consumed unit, so the length of the text is enough fuel.
\<close>

datatype json = JNull | JBool bool | JInt int | JDec rat | JStr jsstr | JArr "json list" | JObj "(jsstr \<times> json) list"

section \<open>Printing\<close>

definition hex_unit :: "nat \<Rightarrow> nat" where
  "hex_unit n = (if n < 10 then 48 + n else 87 + n)"

definition unicode_escape :: "nat \<Rightarrow> jsstr" where
  "unicode_escape u = [92, 117, hex_unit (u div 4096 mod 16), hex_unit (u div 256 mod 16),
     hex_unit (u div 16 mod 16), hex_unit (u mod 16)]"

definition escape_unit :: "nat \<Rightarrow> jsstr" where
  "escape_unit u =
     (if u = 34 then [92, 34] else if u = 92 then [92, 92] else if u = 8 then [92, 98]
      else if u = 9 then [92, 116] else if u = 10 then [92, 110] else if u = 12 then [92, 102]
      else if u = 13 then [92, 114]
      else if u < 32 \<or> is_high u \<or> is_low u then unicode_escape u else [u])"

fun escape_units :: "jsstr \<Rightarrow> jsstr" where
  "escape_units [] = []"
| "escape_units [u] = escape_unit u"
| "escape_units (u # v # s) =
     (if is_high u \<and> is_low v then u # v # escape_units s else escape_unit u @ escape_units (v # s))"

definition json_quote :: "jsstr \<Rightarrow> jsstr" where
  "json_quote s = 34 # escape_units s @ [34]"

fun nat_digits :: "nat \<Rightarrow> jsstr" where
  "nat_digits n = (if n < 10 then [48 + n] else nat_digits (n div 10) @ [48 + n mod 10])"

declare nat_digits.simps [simp del]

definition int_text :: "int \<Rightarrow> jsstr" where
  "int_text i = (if i < 0 then 45 # nat_digits (nat (- i)) else nat_digits (nat i))"

fun list_text :: "nat \<Rightarrow> jsstr list \<Rightarrow> jsstr" where
  "list_text close [] = [close]"
| "list_text close [t] = t @ [close]"
| "list_text close (t # u # ts) = t @ 44 # list_text close (u # ts)"

fun json_text :: "(rat \<Rightarrow> jsstr) \<Rightarrow> json \<Rightarrow> jsstr" where
  "json_text nt JNull = js_lit ''null''"
| "json_text nt (JBool b) = js_lit (if b then ''true'' else ''false'')"
| "json_text nt (JInt i) = int_text i"
| "json_text nt (JDec q) = nt q"
| "json_text nt (JStr s) = json_quote s"
| "json_text nt (JArr vs) = 91 # list_text 93 (map (json_text nt) vs)"
| "json_text nt (JObj ps) = 123 # list_text 125 (map (\<lambda>p. json_quote (fst p) @ 58 # json_text nt (snd p)) ps)"

section \<open>Parsing\<close>

fun skip_ws :: "jsstr \<Rightarrow> jsstr" where
  "skip_ws [] = []"
| "skip_ws (u # s) = (if u = 32 \<or> u = 9 \<or> u = 10 \<or> u = 13 then skip_ws s else u # s)"

definition hex_value :: "nat \<Rightarrow> nat option" where
  "hex_value u = (if 48 \<le> u \<and> u \<le> 57 then Some (u - 48) else if 97 \<le> u \<and> u \<le> 102 then Some (u - 87)
     else if 65 \<le> u \<and> u \<le> 70 then Some (u - 55) else None)"

definition hex4 :: "nat \<Rightarrow> nat \<Rightarrow> nat \<Rightarrow> nat \<Rightarrow> nat option" where
  "hex4 a b c d = (case (hex_value a, hex_value b, hex_value c, hex_value d) of
     (Some x, Some y, Some z, Some w) \<Rightarrow> Some (x * 4096 + y * 256 + z * 16 + w) | _ \<Rightarrow> None)"

definition simple_escape :: "nat \<Rightarrow> nat option" where
  "simple_escape u = (if u = 34 \<or> u = 92 \<or> u = 47 then Some u else if u = 98 then Some 8
     else if u = 102 then Some 12 else if u = 110 then Some 10 else if u = 114 then Some 13
     else if u = 116 then Some 9 else None)"

text \<open>The rest of a string literal after its opening quote.\<close>

fun parse_string :: "jsstr \<Rightarrow> (jsstr \<times> jsstr) option" where
  "parse_string [] = None"
| "parse_string (u # s) =
     (if u = 34 then Some ([], s)
      else if u = 92 then
        (case s of
           [] \<Rightarrow> None
         | e # r \<Rightarrow>
             if e = 117 then
               (case r of
                  a # b # c # d # r' \<Rightarrow>
                    (case hex4 a b c d of
                       None \<Rightarrow> None
                     | Some x \<Rightarrow> (case parse_string r' of None \<Rightarrow> None | Some (t, q) \<Rightarrow> Some (x # t, q)))
                | _ \<Rightarrow> None)
             else
               (case simple_escape e of
                  None \<Rightarrow> None
                | Some x \<Rightarrow> (case parse_string r of None \<Rightarrow> None | Some (t, q) \<Rightarrow> Some (x # t, q))))
      else if u < 32 then None
      else (case parse_string s of None \<Rightarrow> None | Some (t, q) \<Rightarrow> Some (u # t, q)))"

definition is_digit :: "nat \<Rightarrow> bool" where
  "is_digit u \<longleftrightarrow> 48 \<le> u \<and> u \<le> 57"

definition digits_value :: "jsstr \<Rightarrow> nat" where
  "digits_value ds = foldl (\<lambda>n d. n * 10 + (d - 48)) 0 ds"

text \<open>Fraction and exponent; \<open>None\<close> when one of them has no digit.\<close>

definition parse_frac :: "jsstr \<Rightarrow> (rat \<times> jsstr) option" where
  "parse_frac s =
     (case s of
        u # r \<Rightarrow>
          if u = 46 then
            let ds = takeWhile is_digit r
            in if ds = [] then None
               else Some (of_nat (digits_value ds) / 10 ^ length ds, dropWhile is_digit r)
          else Some (0, s)
      | [] \<Rightarrow> Some (0, s))"

definition parse_exp :: "jsstr \<Rightarrow> (int \<times> jsstr) option" where
  "parse_exp s =
     (case s of
        u # r \<Rightarrow>
          if u = 101 \<or> u = 69 then
            let neg = (r \<noteq> [] \<and> hd r = 45);
                r' = (if r \<noteq> [] \<and> (hd r = 45 \<or> hd r = 43) then tl r else r);
                ds = takeWhile is_digit r'
            in if ds = [] then None
               else Some ((if neg then - 1 else 1) * int (digits_value ds), dropWhile is_digit r')
          else Some (0, s)
      | [] \<Rightarrow> Some (0, s))"

definition number_value :: "bool \<Rightarrow> nat \<Rightarrow> rat \<Rightarrow> int \<Rightarrow> json" where
  "number_value neg i f e =
     (let q = (if neg then - 1 else 1) * (of_nat i + f) * (if 0 \<le> e then 10 ^ nat e else 1 / 10 ^ nat (- e))
      in if snd (quotient_of q) = 1 then JInt (fst (quotient_of q)) else JDec q)"

definition parse_number :: "jsstr \<Rightarrow> (json \<times> jsstr) option" where
  "parse_number s =
     (let neg = (s \<noteq> [] \<and> hd s = 45);
          r = (if neg then tl s else s);
          ds = takeWhile is_digit r
      in if ds = [] \<or> (hd ds = 48 \<and> length ds > 1) then None
         else case parse_frac (dropWhile is_digit r) of
           None \<Rightarrow> None
         | Some (f, r1) \<Rightarrow>
             (case parse_exp r1 of None \<Rightarrow> None | Some (e, r2) \<Rightarrow> Some (number_value neg (digits_value ds) f e, r2)))"

text \<open>\<^verbatim>\<open>CreateDataProperty\<close>: a key that exists keeps its place.\<close>

fun obj_put :: "jsstr \<Rightarrow> json \<Rightarrow> (jsstr \<times> json) list \<Rightarrow> (jsstr \<times> json) list" where
  "obj_put k v [] = [(k, v)]"
| "obj_put k v ((k', v') # ps) = (if k' = k then (k, v) # ps else (k', v') # obj_put k v ps)"

definition literal :: "string \<Rightarrow> json \<Rightarrow> jsstr \<Rightarrow> (json \<times> jsstr) option" where
  "literal w v s = (if take (length w) s = js_lit w then Some (v, drop (length w) s) else None)"

fun parse_value :: "nat \<Rightarrow> jsstr \<Rightarrow> (json \<times> jsstr) option"
  and parse_elements :: "nat \<Rightarrow> jsstr \<Rightarrow> (json list \<times> jsstr) option"
  and parse_members :: "nat \<Rightarrow> jsstr \<Rightarrow> (jsstr \<times> json) list \<Rightarrow> ((jsstr \<times> json) list \<times> jsstr) option" where
  "parse_value 0 s = None"
| "parse_value (Suc n) s =
     (case skip_ws s of
        [] \<Rightarrow> None
      | u # r \<Rightarrow>
          if u = 123 then
            (case skip_ws r of
               [] \<Rightarrow> None
             | v # r' \<Rightarrow> if v = 125 then Some (JObj [], r')
                        else map_option (\<lambda>(ps, q). (JObj ps, q)) (parse_members n (v # r') []))
          else if u = 91 then
            (case skip_ws r of
               [] \<Rightarrow> None
             | v # r' \<Rightarrow> if v = 93 then Some (JArr [], r')
                        else map_option (\<lambda>(vs, q). (JArr vs, q)) (parse_elements n (v # r')))
          else if u = 34 then map_option (\<lambda>(t, q). (JStr t, q)) (parse_string r)
          else if u = 116 then literal ''true'' (JBool True) (u # r)
          else if u = 102 then literal ''false'' (JBool False) (u # r)
          else if u = 110 then literal ''null'' JNull (u # r)
          else parse_number (u # r))"
| "parse_elements 0 s = None"
| "parse_elements (Suc n) s =
     (case parse_value n s of
        None \<Rightarrow> None
      | Some (v, r) \<Rightarrow>
          (case skip_ws r of
             [] \<Rightarrow> None
           | u # q \<Rightarrow> if u = 93 then Some ([v], q)
                      else if u = 44 then map_option (\<lambda>(vs, p). (v # vs, p)) (parse_elements n q)
                      else None))"
| "parse_members 0 s ps = None"
| "parse_members (Suc n) s ps =
     (case skip_ws s of
        [] \<Rightarrow> None
      | u # r \<Rightarrow>
          if u \<noteq> 34 then None
          else case parse_string r of
            None \<Rightarrow> None
          | Some (k, r1) \<Rightarrow>
              (case skip_ws r1 of
                 [] \<Rightarrow> None
               | c # r2 \<Rightarrow>
                   if c \<noteq> 58 then None
                   else case parse_value n r2 of
                     None \<Rightarrow> None
                   | Some (v, r3) \<Rightarrow>
                       (case skip_ws r3 of
                          [] \<Rightarrow> None
                        | d # q \<Rightarrow> if d = 125 then Some (obj_put k v ps, q)
                                   else if d = 44 then parse_members n q (obj_put k v ps)
                                   else None)))"

definition json_parse :: "jsstr \<Rightarrow> json option" where
  "json_parse s = (case parse_value (Suc (length s)) s of
     None \<Rightarrow> None | Some (v, r) \<Rightarrow> if skip_ws r = [] then Some v else None)"

section \<open>Strings\<close>

lemma hex_value_unit: "n < 16 \<Longrightarrow> hex_value (hex_unit n) = Some n"
  by (auto simp: hex_value_def hex_unit_def)

lemma nibbles: "u < 65536 \<Longrightarrow> u div 4096 mod 16 * 4096 + u div 256 mod 16 * 256 + u div 16 mod 16 * 16 + u mod 16 = u" for u :: nat
proof -
  assume u: "u < 65536"
  have "u = u div 16 * 16 + u mod 16" "u div 16 = u div 256 * 16 + u div 16 mod 16"
    "u div 256 = u div 4096 * 16 + u div 256 mod 16"
    using div_mult2_eq [of u 16 16] div_mult2_eq [of u 256 16] by simp_all
  moreover have "u div 4096 mod 16 = u div 4096" using u by simp
  ultimately show ?thesis by linarith
qed

lemma parse_unicode_escape:
  assumes "u < 65536"
  shows "parse_string (unicode_escape u @ t) = map_option (\<lambda>(x, q). (u # x, q)) (parse_string t)"
proof -
  have "hex4 (hex_unit (u div 4096 mod 16)) (hex_unit (u div 256 mod 16)) (hex_unit (u div 16 mod 16)) (hex_unit (u mod 16)) = Some u"
    by (simp add: hex4_def hex_value_unit nibbles [OF assms])
  then show ?thesis by (simp add: unicode_escape_def split: option.split)
qed

lemma parse_escape_unit:
  assumes "u < 65536"
  shows "parse_string (escape_unit u @ t) = map_option (\<lambda>(x, q). (u # x, q)) (parse_string t)"
proof (cases "u < 32 \<or> is_high u \<or> is_low u \<or> u = 34 \<or> u = 92")
  case False
  then show ?thesis by (simp add: escape_unit_def split: option.split)
next
  case True
  then show ?thesis
    using parse_unicode_escape [OF assms, of t]
    by (auto simp: escape_unit_def simple_escape_def is_high_def is_low_def split: option.split)
qed

lemma parse_plain_unit:
  assumes "u \<noteq> 34" and "u \<noteq> 92" and "32 \<le> u"
  shows "parse_string (u # t) = map_option (\<lambda>(x, q). (u # x, q)) (parse_string t)"
  using assms by (simp split: option.split)

lemma parse_escape_units: "is_jsstr s \<Longrightarrow> parse_string (escape_units s @ 34 # r) = Some (s, r)"
proof (induction s rule: escape_units.induct)
  case (3 u v s)
  have b: "u < 65536" "v < 65536" "is_jsstr s" "is_jsstr (v # s)" using 3(3) by (auto simp: is_jsstr_def)
  show ?case
  proof (cases "is_high u \<and> is_low v")
    case True
    then have p: "u \<noteq> 34" "u \<noteq> 92" "32 \<le> u" "v \<noteq> 34" "v \<noteq> 92" "32 \<le> v"
      by (auto simp: is_high_def is_low_def)
    have e: "escape_units (u # v # s) @ 34 # r = u # v # (escape_units s @ 34 # r)" using True by simp
    show ?thesis
      unfolding e parse_plain_unit [OF p(1-3)] parse_plain_unit [OF p(4-6)] 3(1) [OF True b(3)] by simp
  next
    case False
    have e: "escape_units (u # v # s) @ 34 # r = escape_unit u @ (escape_units (v # s) @ 34 # r)" using False by auto
    show ?thesis unfolding e parse_escape_unit [OF b(1)] 3(2) [OF False b(4)] by simp
  qed
next
  case (2 u)
  then show ?case by (simp add: is_jsstr_def parse_escape_unit)
qed simp

section \<open>Numbers\<close>

lemma nat_digits_digits: "u \<in> set (nat_digits n) \<Longrightarrow> is_digit u"
proof (induction n rule: nat_digits.induct)
  case (1 n)
  have "nat_digits n = (if n < 10 then [48 + n] else nat_digits (n div 10) @ [48 + n mod 10])"
    by (rule nat_digits.simps)
  with 1 show ?case by (auto simp: is_digit_def split: if_splits)
qed

lemma nat_digits_nonempty [simp]: "nat_digits n \<noteq> []"
  by (subst nat_digits.simps) simp

lemma digits_value_nat_digits [simp]: "digits_value (nat_digits n) = n"
proof (induction n rule: nat_digits.induct)
  case (1 n)
  then show ?case by (subst nat_digits.simps) (auto simp: digits_value_def)
qed

lemma nat_digits_head: "hd (nat_digits n) = 48 \<Longrightarrow> length (nat_digits n) = 1"
proof (induction n rule: nat_digits.induct)
  case (1 n)
  show ?case
  proof (cases "n < 10")
    case False
    then have "hd (nat_digits n) = hd (nat_digits (n div 10))" by (subst nat_digits.simps) simp
    with 1 False have "length (nat_digits (n div 10)) = 1" "hd (nat_digits (n div 10)) = 48" by auto
    then have "nat_digits (n div 10) = [48]" by (cases "nat_digits (n div 10)") auto
    then have "n div 10 = 0" using digits_value_nat_digits [of "n div 10"] by (simp add: digits_value_def)
    with False show ?thesis by simp
  qed (subst nat_digits.simps, simp)
qed

definition delimited :: "jsstr \<Rightarrow> bool" where
  "delimited r \<longleftrightarrow> r = [] \<or> \<not> is_digit (hd r) \<and> hd r \<notin> {46, 101, 69}"

lemma parse_digits:
  assumes "delimited r"
  shows "takeWhile is_digit (nat_digits n @ r) = nat_digits n" and "dropWhile is_digit (nat_digits n @ r) = r"
  using assms nat_digits_digits by (auto simp: takeWhile_append dropWhile_append delimited_def)
    (cases r; simp)+

lemma parse_int_text:
  assumes "delimited r"
  shows "parse_number (int_text i @ r) = Some (JInt i, r)"
proof -
  have fe: "parse_frac r = Some (0, r)" "parse_exp r = Some (0, r)"
    using assms by (auto simp: parse_frac_def parse_exp_def delimited_def split: list.split)
  have h: "hd (nat_digits n @ t) \<noteq> 45" for n t
    using nat_digits_digits [of "hd (nat_digits n)" n] by (auto simp: is_digit_def)
  have z: "\<not> (hd (nat_digits n) = 48 \<and> length (nat_digits n) > 1)" for n
    using nat_digits_head [of n] by auto
  have q: "quotient_of (of_int j) = (j, 1)" for j by (simp add: quotient_of_int [symmetric] of_int_def [symmetric])
  show ?thesis
    using h [of "nat i" r] z [of "nat i"] z [of "nat (- i)"] fe
    by (auto simp: parse_number_def int_text_def Let_def parse_digits [OF assms] number_value_def)
qed

section \<open>Values\<close>

text \<open>The values that the program prints: strings of code units, no fraction, and no key twice in an object.\<close>

fun wf_json :: "json \<Rightarrow> bool" where
  "wf_json (JDec q) = False"
| "wf_json (JStr s) = is_jsstr s"
| "wf_json (JArr vs) = list_all wf_json vs"
| "wf_json (JObj ps) = (distinct (map fst ps) \<and> list_all (\<lambda>p. is_jsstr (fst p) \<and> wf_json (snd p)) ps)"
| "wf_json v = True"

lemma obj_put_new: "k \<notin> fst ` set ps \<Longrightarrow> obj_put k v ps = ps @ [(k, v)]"
  by (induction ps) auto

definition starts_value :: "jsstr \<Rightarrow> bool" where
  "starts_value t \<longleftrightarrow> t \<noteq> [] \<and> hd t \<notin> {32, 9, 10, 13, 93, 125}"

lemma int_text_starts: "starts_value (int_text i) \<and> hd (int_text i @ r) \<notin> {123, 91, 34, 116, 102, 110}"
  using nat_digits_digits [of "hd (nat_digits (nat i))" "nat i"]
  by (auto simp: starts_value_def int_text_def is_digit_def)

lemma json_text_starts: "wf_json v \<Longrightarrow> starts_value (json_text nt v)"
  by (cases v) (use int_text_starts in \<open>auto simp: starts_value_def js_lit_def json_quote_def\<close>)

lemma skip_ws_id: "starts_value t \<Longrightarrow> skip_ws (t @ r) = t @ r"
  by (cases t) (auto simp: starts_value_def)

lemma delimited_units [simp]: "delimited (93 # r)" "delimited (125 # r)" "delimited (44 # r)" "delimited []"
  by (simp_all add: delimited_def is_digit_def)

lemma parse_json_quote: "is_jsstr s \<Longrightarrow> parse_string (tl (json_quote s @ r)) = Some (s, r)"
  by (simp add: json_quote_def parse_escape_units)

abbreviation parses_back :: "(rat \<Rightarrow> jsstr) \<Rightarrow> json \<Rightarrow> bool" where
  "parses_back nt v \<equiv> \<forall>n r. delimited r \<longrightarrow> length (json_text nt v) < n \<longrightarrow> parse_value n (json_text nt v @ r) = Some (v, r)"

lemma parse_elements_text:
  assumes "\<And>v. v \<in> set vs \<Longrightarrow> parses_back nt v" and "vs \<noteq> []" and "length (list_text 93 (map (json_text nt) vs)) < n"
  shows "parse_elements n (list_text 93 (map (json_text nt) vs) @ r) = Some (vs, r)"
  using assms
proof (induction vs arbitrary: n rule: induct_list012)
  case (2 v)
  then obtain m where n: "n = Suc m" by (cases n) auto
  with 2 have "parse_value m (json_text nt v @ 93 # r) = Some (v, 93 # r)" by simp
  with n show ?case by simp
next
  case (3 v v' vs)
  then obtain m where n: "n = Suc m" by (cases n) auto
  let ?t = "list_text 93 (map (json_text nt) (v' # vs)) @ r"
  from 3 n have "parse_value m (json_text nt v @ 44 # ?t) = Some (v, 44 # ?t)" by simp
  moreover have "parse_elements m ?t = Some (v' # vs, r)" using 3(2)[of m] 3(3-5) n by simp
  ultimately show ?case using n by simp
qed simp

abbreviation member_text :: "(rat \<Rightarrow> jsstr) \<Rightarrow> jsstr \<times> json \<Rightarrow> jsstr" where
  "member_text nt \<equiv> \<lambda>p. json_quote (fst p) @ 58 # json_text nt (snd p)"

lemma parse_members_first:
  assumes "parses_back nt (snd p)" and "is_jsstr (fst p)" and "delimited (d # q)" and "d = 44 \<or> d = 125"
    and "length (json_text nt (snd p)) < n"
  shows "parse_members (Suc n) (member_text nt p @ d # q) acc =
     (if d = 125 then Some (obj_put (fst p) (snd p) acc, q) else parse_members n q (obj_put (fst p) (snd p) acc))"
proof -
  let ?r = "58 # json_text nt (snd p) @ d # q"
  have s: "parse_string (escape_units (fst p) @ 34 # ?r) = Some (fst p, ?r)" by (rule parse_escape_units [OF assms(2)])
  have v: "parse_value n (json_text nt (snd p) @ d # q) = Some (snd p, d # q)" using assms by blast
  have j: "member_text nt p @ d # q = 34 # (escape_units (fst p) @ 34 # ?r)" by (simp add: json_quote_def)
  show ?thesis using assms(4) unfolding j by (auto simp: s v)
qed

lemma parse_members_text:
  assumes "\<And>p. p \<in> set ps \<Longrightarrow> parses_back nt (snd p)" and "\<And>p. p \<in> set ps \<Longrightarrow> is_jsstr (fst p)"
    and "ps \<noteq> []" and "distinct (map fst (acc @ ps))" and "length (list_text 125 (map (member_text nt) ps)) < n"
  shows "parse_members n (list_text 125 (map (member_text nt) ps) @ r) acc = Some (acc @ ps, r)"
  using assms
proof (induction ps arbitrary: n acc rule: induct_list012)
  case (2 p)
  then obtain m where n: "n = Suc m" by (cases n) auto
  have "obj_put (fst p) (snd p) acc = acc @ [p]" using 2(4) obj_put_new [of "fst p" acc "snd p"] by auto
  then show ?case using parse_members_first [of nt p 125 r m acc] 2(1,2,5) n by simp
next
  case (3 p p' ps)
  then obtain m where n: "n = Suc m" by (cases n) auto
  have o: "obj_put (fst p) (snd p) acc = acc @ [p]" using 3(6) obj_put_new [of "fst p" acc "snd p"] by auto
  have "parse_members m (list_text 125 (map (member_text nt) (p' # ps)) @ r) (acc @ [p]) = Some ((acc @ [p]) @ p' # ps, r)"
    using 3(2)[of "acc @ [p]" m] 3(3-7) n by simp
  then show ?case
    using parse_members_first [of nt p 44 "list_text 125 (map (member_text nt) (p' # ps)) @ r" m acc] 3(3,4,7) n o by simp
qed simp

lemma list_text_starts: "ts \<noteq> [] \<Longrightarrow> starts_value (hd ts) \<Longrightarrow> starts_value (list_text c ts)"
  by (induction ts rule: induct_list012) (auto simp: starts_value_def)

lemma starts_value_cons: "starts_value t \<Longrightarrow> \<exists>u s. t = u # s \<and> u \<notin> {32, 9, 10, 13, 93, 125}"
  by (cases t) (auto simp: starts_value_def)

lemma parse_json_text: "wf_json v \<Longrightarrow> parses_back nt v"
proof (induction v)
  case JNull
  then show ?case by (auto simp: js_lit_def literal_def dest!: less_imp_Suc_add)
next
  case (JBool b)
  then show ?case by (auto simp: js_lit_def literal_def dest!: less_imp_Suc_add)
next
  case (JInt i)
  show ?case
  proof (intro allI impI)
    fix n and r :: jsstr
    assume d: "delimited r" and "length (json_text nt (JInt i)) < n"
    then obtain m where n: "n = Suc m" by (cases n) auto
    obtain u s where t: "int_text i @ r = u # s" "u \<notin> {32, 9, 10, 13}" "u \<notin> {123, 91, 34, 116, 102, 110}"
      using int_text_starts [of i r] by (cases "int_text i") (auto simp: starts_value_def)
    have "parse_number (u # s) = Some (JInt i, r)" using parse_int_text [OF d, of i] t(1) by simp
    with t n show "parse_value n (json_text nt (JInt i) @ r) = Some (JInt i, r)" by simp
  qed
next
  case (JStr s)
  then show ?case by (auto simp: json_quote_def parse_escape_units dest!: less_imp_Suc_add)
next
  case (JArr vs)
  show ?case
  proof (intro allI impI)
    fix n and r :: jsstr
    assume "length (json_text nt (JArr vs)) < n"
    then obtain m where n: "n = Suc m" "length (list_text 93 (map (json_text nt) vs)) < m" by (cases n) auto
    show "parse_value n (json_text nt (JArr vs) @ r) = Some (JArr vs, r)"
    proof (cases "vs = []")
      case False
      then have "starts_value (list_text 93 (map (json_text nt) vs))"
        using JArr.prems by (intro list_text_starts) (auto simp: hd_map list_all_iff json_text_starts)
      from starts_value_cons [OF this] obtain u s where
        t: "list_text 93 (map (json_text nt) vs) = u # s" "u \<notin> {32, 9, 10, 13, 93, 125}" by blast
      have "parse_elements m (list_text 93 (map (json_text nt) vs) @ r) = Some (vs, r)"
        using JArr False n by (intro parse_elements_text) (auto simp: list_all_iff)
      with t n(1) show ?thesis by simp
    qed (use n in simp)
  qed
next
  case (JObj ps)
  show ?case
  proof (intro allI impI)
    fix n and r :: jsstr
    assume "length (json_text nt (JObj ps)) < n"
    then obtain m where n: "n = Suc m" "length (list_text 125 (map (member_text nt) ps)) < m" by (cases n) auto
    show "parse_value n (json_text nt (JObj ps) @ r) = Some (JObj ps, r)"
    proof (cases "ps = []")
      case False
      then have "starts_value (list_text 125 (map (member_text nt) ps))"
        by (intro list_text_starts) (auto simp: hd_map starts_value_def json_quote_def)
      from starts_value_cons [OF this] obtain u s where
        t: "list_text 125 (map (member_text nt) ps) = u # s" "u \<notin> {32, 9, 10, 13, 93, 125}" by blast
      have "parse_members m (list_text 125 (map (member_text nt) ps) @ r) [] = Some ([] @ ps, r)"
        using JObj False n by (intro parse_members_text) (auto simp: list_all_iff snds.simps)
      with t n(1) show ?thesis by simp
    qed (use n in simp)
  qed
qed simp

lemma json_roundtrip: "wf_json v \<Longrightarrow> json_parse (json_text nt v) = Some v"
  using parse_json_text [of v nt, rule_format, of "[]" "Suc (length (json_text nt v))"]
  by (simp add: json_parse_def del: parse_value.simps)

end
