(* ===== verification/IsoDate.thy ===== *)
theory IsoDate
  imports Json
begin

text \<open>
  The parts of \<^verbatim>\<open>Date\<close> that the program uses. A date is its number of milliseconds since the
  start of 1970 UTC. \<open>civil\<close> computes year, month, day and time of day, \<open>of_civil\<close> is
  \<^verbatim>\<open>Date.UTC\<close>; \<open>toISOString\<close> and \<open>date_parse\<close> print and read the ISO format.
\<close>

section \<open>The calendar\<close>

definition leap_year :: "int \<Rightarrow> bool" where
  "leap_year y \<longleftrightarrow> y mod 4 = 0 \<and> (y mod 100 \<noteq> 0 \<or> y mod 400 = 0)"

definition year_days :: "int \<Rightarrow> nat" where
  "year_days y = (if leap_year y then 366 else 365)"

definition month_lengths :: "int \<Rightarrow> nat list" where
  "month_lengths y = [31, if leap_year y then 29 else 28, 31, 30, 31, 30, 31, 31, 30, 31, 30, 31]"

text \<open>Days from the start of 1970 to the start of the year.\<close>

definition leaps_until :: "int \<Rightarrow> int" where
  "leaps_until y = y div 4 - y div 100 + y div 400"

definition epoch_days :: "int \<Rightarrow> int" where
  "epoch_days y = 365 * (y - 1970) + leaps_until (y - 1) - leaps_until 1969"

lemma div_succ: "0 < k \<Longrightarrow> (n + 1) div k = n div k + (if (n + 1) mod k = 0 then 1 else 0)" for n k :: int
proof -
  assume k: "0 < k"
  have n: "n = n div k * k + n mod k" "0 \<le> n mod k" "n mod k < k" using k by simp_all
  show ?thesis
  proof (cases "n mod k = k - 1")
    case True
    then have e: "n + 1 = (n div k + 1) * k" unfolding distrib_right using n(1) by linarith
    then have "(n + 1) div k = n div k + 1" "(n + 1) mod k = 0" using k by (metis nonzero_mult_div_cancel_right less_irrefl, metis mod_mult_self2_is_0)
    then show ?thesis by simp
  next
    case False
    with n have b: "0 \<le> n mod k + 1" "n mod k + 1 < k" by simp_all
    have e: "n + 1 = k * (n div k) + (n mod k + 1)" by simp
    have "(n + 1) div k = n div k" "(n + 1) mod k = n mod k + 1"
      using int_div_pos_eq [OF e b] int_mod_pos_eq [OF e b] by simp_all
    with n show ?thesis by simp
  qed
qed

lemma leap_arith:
  fixes a b c :: int
  assumes "a' = a + (if x then 1 else 0)" and "b' = b + (if z then 1 else 0)" and "c' = c + (if w then 1 else 0)"
    and "w \<Longrightarrow> z" and "z \<Longrightarrow> x"
  shows "a' - b' + c' = a - b + c + (if x \<and> (\<not> z \<or> w) then 1 else 0)"
  unfolding assms(1-3) using assms(4,5) by (cases x; cases z; cases w) simp_all

lemma epoch_days_succ: "epoch_days (y + 1) = epoch_days y + int (year_days y)"
proof -
  have m: "y mod 400 = 0 \<Longrightarrow> y mod 100 = 0" "y mod 100 = 0 \<Longrightarrow> y mod 4 = 0"
    using mod_mod_cancel [of 100 400 y] mod_mod_cancel [of 4 100 y] by auto
  have s: "y div k = (y - 1) div k + (if y mod k = 0 then 1 else 0)" if "0 < k" for k
    using div_succ [OF that, of "y - 1"] by simp
  have "leaps_until y = leaps_until (y - 1) + (if leap_year y then 1 else 0)"
    unfolding leaps_until_def leap_year_def by (rule leap_arith) (use s m in simp_all)
  then show ?thesis by (simp add: epoch_days_def year_days_def)
qed

lemma year_days_pos [simp]: "0 < year_days y"
  by (simp add: year_days_def)

function year_up :: "int \<Rightarrow> nat \<Rightarrow> int \<times> nat" where
  "year_up y r = (if r < year_days y then (y, r) else year_up (y + 1) (r - year_days y))"
  by pat_completeness auto
termination
  by (relation "measure snd") (auto simp: year_days_def)

function year_down :: "int \<Rightarrow> nat \<Rightarrow> int \<times> nat" where
  "year_down y r = (if r \<le> year_days (y - 1) then (y - 1, year_days (y - 1) - r)
     else year_down (y - 1) (r - year_days (y - 1)))"
  by pat_completeness auto
termination
  by (relation "measure snd") (auto simp: year_days_def)

declare year_up.simps [simp del] year_down.simps [simp del]

text \<open>The year of a day number, and the day in the year.\<close>

definition year_of_days :: "int \<Rightarrow> int \<times> nat" where
  "year_of_days d = (if 0 \<le> d then year_up 1970 (nat d) else year_down 1970 (nat (- d)))"

lemma year_up_days: "year_up y r = (y', r') \<Longrightarrow> epoch_days y + int r = epoch_days y' + int r' \<and> r' < year_days y'"
proof (induction y r rule: year_up.induct)
  case (1 y r)
  show ?case
  proof (cases "r < year_days y")
    case False
    then have "year_up (y + 1) (r - year_days y) = (y', r')" using 1(2) by (subst (asm) year_up.simps) simp
    with 1(1) [OF False] False show ?thesis by (simp add: epoch_days_succ of_nat_diff)
  qed (use 1(2) in \<open>simp add: year_up.simps\<close>)
qed

lemma year_down_days: "0 < r \<Longrightarrow> year_down y r = (y', r') \<Longrightarrow> epoch_days y - int r = epoch_days y' + int r' \<and> r' < year_days y'"
proof (induction y r rule: year_down.induct)
  case (1 y r)
  have s: "epoch_days y = epoch_days (y - 1) + int (year_days (y - 1))" using epoch_days_succ [of "y - 1"] by simp
  show ?case
  proof (cases "r \<le> year_days (y - 1)")
    case True
    then have "y' = y - 1 \<and> r' = year_days (y - 1) - r" using 1(3) by (auto simp: year_down.simps)
    with s True 1(2) show ?thesis by (simp add: of_nat_diff)
  next
    case False
    then have "year_down (y - 1) (r - year_days (y - 1)) = (y', r')" using 1(3) by (subst (asm) year_down.simps) simp
    with 1(1) [OF False] False s show ?thesis by (simp add: of_nat_diff)
  qed
qed

lemma year_of_days_correct:
  "year_of_days d = (y, r) \<Longrightarrow> d = epoch_days y + int r \<and> r < year_days y"
  using year_up_days [of 1970 "nat d" y r] year_down_days [of "nat (- d)" 1970 y r]
  by (auto simp: year_of_days_def epoch_days_def split: if_splits)

fun month_of_day :: "nat \<Rightarrow> nat list \<Rightarrow> nat \<Rightarrow> nat \<times> nat" where
  "month_of_day m [] d = (m, d)"
| "month_of_day m (l # ls) d = (if d < l then (m, d) else month_of_day (Suc m) ls (d - l))"

lemma month_of_day_correct:
  "d < sum_list ls \<Longrightarrow> month_of_day m ls d = (m', d') \<Longrightarrow>
   m \<le> m' \<and> m' < m + length ls \<and> d' < ls ! (m' - m) \<and> d = sum_list (take (m' - m) ls) + d'"
proof (induction m ls d rule: month_of_day.induct)
  case (2 m l ls d)
  show ?case
  proof (cases "d < l")
    case False
    with 2 have "Suc m \<le> m' \<and> m' < Suc m + length ls \<and> d' < ls ! (m' - Suc m)
        \<and> d - l = sum_list (take (m' - Suc m) ls) + d'" by simp
    moreover from calculation have "m' - m = Suc (m' - Suc m)" by linarith
    ultimately show ?thesis using False by simp linarith
  qed (use 2 in simp)
qed simp

section \<open>Dates\<close>

text \<open>Month and day count from one.\<close>

record civil_date =
  cv_year :: int
  cv_month :: nat
  cv_day :: nat
  cv_ms :: nat

definition DAY_MS :: int where "DAY_MS = 86400000"

definition civil :: "int \<Rightarrow> civil_date" where
  "civil t = (case year_of_days (t div DAY_MS) of (y, r) \<Rightarrow>
     (case month_of_day 1 (month_lengths y) r of (m, d) \<Rightarrow>
        \<lparr>cv_year = y, cv_month = m, cv_day = Suc d, cv_ms = nat (t mod DAY_MS)\<rparr>))"

definition of_civil :: "int \<Rightarrow> nat \<Rightarrow> nat \<Rightarrow> nat \<Rightarrow> int" where
  "of_civil y m d ms = (epoch_days y + int (sum_list (take (m - 1) (month_lengths y))) + int d - 1) * DAY_MS + int ms"

lemma sum_month_lengths: "sum_list (month_lengths y) = year_days y"
  by (simp add: month_lengths_def year_days_def)

lemma month_length_bound: "i < 12 \<Longrightarrow> month_lengths y ! i \<le> 31"
  by (auto simp: month_lengths_def nth_Cons split: nat.splits)

lemma civil_correct:
  assumes "civil t = c"
  shows "of_civil (cv_year c) (cv_month c) (cv_day c) (cv_ms c) = t"
    and "1 \<le> cv_month c" and "cv_month c \<le> 12" and "1 \<le> cv_day c" and "cv_day c \<le> 31" and "cv_ms c < 86400000"
proof -
  obtain y r where y: "year_of_days (t div DAY_MS) = (y, r)" by fastforce
  obtain m d where m: "month_of_day 1 (month_lengths y) r = (m, d)" by fastforce
  have c: "c = \<lparr>cv_year = y, cv_month = m, cv_day = Suc d, cv_ms = nat (t mod DAY_MS)\<rparr>"
    using assms y m by (simp add: civil_def)
  have yr: "t div DAY_MS = epoch_days y + int r" "r < year_days y" using year_of_days_correct [OF y] by simp_all
  then have "r < sum_list (month_lengths y)" by (simp add: sum_month_lengths)
  from month_of_day_correct [OF this m] have md: "1 \<le> m" "m < 1 + length (month_lengths y)"
    "d < month_lengths y ! (m - 1)" "r = sum_list (take (m - 1) (month_lengths y)) + d" by simp_all
  have l: "length (month_lengths y) = 12" by (simp add: month_lengths_def)
  have t: "t = t div DAY_MS * DAY_MS + t mod DAY_MS" "0 \<le> t mod DAY_MS" "t mod DAY_MS < DAY_MS" by (simp_all add: DAY_MS_def)
  show "of_civil (cv_year c) (cv_month c) (cv_day c) (cv_ms c) = t"
    using t yr md(4) by (simp add: c of_civil_def)
  show "1 \<le> cv_month c" "cv_month c \<le> 12" "1 \<le> cv_day c" using md l by (simp_all add: c)
  have "month_lengths y ! (m - 1) \<le> 31" using md l by (intro month_length_bound) simp
  with md(3) show "cv_day c \<le> 31" by (simp add: c)
  show "cv_ms c < 86400000" using t by (simp add: c DAY_MS_def)
qed

section \<open>The ISO format\<close>

definition two_digits :: "nat \<Rightarrow> jsstr" where
  "two_digits n = [48 + n div 10 mod 10, 48 + n mod 10]"

definition four_digits :: "nat \<Rightarrow> jsstr" where
  "four_digits n = two_digits (n div 100) @ two_digits (n mod 100)"

definition year_text :: "int \<Rightarrow> jsstr" where
  "year_text y =
     (if 0 \<le> y \<and> y \<le> 9999 then four_digits (nat y)
      else (if y < 0 then 45 else 43) # two_digits (nat \<bar>y\<bar> div 10000) @ four_digits (nat \<bar>y\<bar> mod 10000))"

definition time_text :: "nat \<Rightarrow> jsstr" where
  "time_text ms = two_digits (ms div 3600000) @ 58 # two_digits (ms div 60000 mod 60) @ 58 #
     two_digits (ms div 1000 mod 60) @ 46 # (48 + ms mod 1000 div 100) # two_digits (ms mod 100)"

definition toISOString :: "int \<Rightarrow> jsstr" where
  "toISOString t = (let c = civil t in
     year_text (cv_year c) @ 45 # two_digits (cv_month c) @ 45 # two_digits (cv_day c) @ 84 # time_text (cv_ms c) @ [90])"

definition num_at :: "jsstr \<Rightarrow> nat \<Rightarrow> nat \<Rightarrow> nat option" where
  "num_at s i k = (let ds = take k (drop i s) in
     if length ds = k \<and> list_all is_digit ds then Some (digits_value ds) else None)"

definition unit_at :: "jsstr \<Rightarrow> nat \<Rightarrow> nat \<Rightarrow> bool" where
  "unit_at s i u \<longleftrightarrow> i < length s \<and> s ! i = u"

text \<open>Seconds and milliseconds, after the minutes; digits beyond the third are dropped.\<close>

definition parse_seconds :: "jsstr \<Rightarrow> nat option" where
  "parse_seconds s =
     (if s = [90] then Some 0
      else if \<not> unit_at s 0 58 then None
      else case num_at s 1 2 of
          None \<Rightarrow> None
        | Some sec \<Rightarrow>
            if 59 < sec then None
            else if drop 3 s = [90] then Some (sec * 1000)
            else if \<not> unit_at s 3 46 then None
            else let ds = takeWhile is_digit (drop 4 s) in
              if ds = [] \<or> dropWhile is_digit (drop 4 s) \<noteq> [90] then None
              else Some (sec * 1000 + digits_value (take 3 (ds @ [48, 48]))))"

definition date_parse :: "jsstr \<Rightarrow> int option" where
  "date_parse s =
     (case (num_at s 0 4, num_at s 5 2, num_at s 8 2, num_at s 11 2, num_at s 14 2, parse_seconds (drop 16 s)) of
        (Some y, Some m, Some d, Some h, Some mi, Some sec) \<Rightarrow>
          if unit_at s 4 45 \<and> unit_at s 7 45 \<and> unit_at s 10 84 \<and> unit_at s 13 58
             \<and> 1 \<le> m \<and> m \<le> 12 \<and> 1 \<le> d \<and> d \<le> 31 \<and> h \<le> 23 \<and> mi \<le> 59
          then Some (of_civil (int y) m d (h * 3600000 + mi * 60000 + sec)) else None
      | _ \<Rightarrow> None)"

lemma digit_units: "n < 10 \<Longrightarrow> is_digit (48 + n)"
  by (simp add: is_digit_def)

lemma two_digits_value: "n < 100 \<Longrightarrow> n div 10 * 10 + n mod 10 = n \<and> n div 10 mod 10 = n div 10" for n :: nat
  by simp

lemma num_two: "n < 100 \<Longrightarrow> drop i s = two_digits n @ r \<Longrightarrow> num_at s i 2 = Some n"
  by (simp add: num_at_def two_digits_def digits_value_def digit_units)

lemma num_four: "n < 10000 \<Longrightarrow> num_at (four_digits n @ r) 0 4 = Some n"
proof -
  assume n: "n < 10000"
  define a b c d where abcd: "a = n div 100 div 10" "b = n div 100 mod 10" "c = n mod 100 div 10" "d = n mod 100 mod 10"
  have "a < 10" "b < 10" "c < 10" "d < 10" using n by (auto simp: abcd)
  moreover have "n = a * 1000 + b * 100 + c * 10 + d"
  proof -
    have "n = n div 100 * 100 + n mod 100" "n div 100 = a * 10 + b" "n mod 100 = c * 10 + d" by (simp_all add: abcd)
    then show ?thesis by linarith
  qed
  moreover have "a mod 10 = a" "c mod 10 = c" using calculation by simp_all
  ultimately show ?thesis
    by (simp add: num_at_def four_digits_def two_digits_def digits_value_def digit_units flip: abcd)
qed

lemma time_parts: "ms < 86400000 \<Longrightarrow>
  ms div 3600000 \<le> 23 \<and> ms div 3600000 * 3600000 + ms div 60000 mod 60 * 60000 + (ms div 1000 mod 60 * 1000 + ms mod 1000) = ms"
  for ms :: nat
proof -
  assume ms: "ms < 86400000"
  have "ms = ms div 1000 * 1000 + ms mod 1000" "ms div 1000 = ms div 60000 * 60 + ms div 1000 mod 60"
    "ms div 60000 = ms div 3600000 * 60 + ms div 60000 mod 60"
    using div_mult2_eq [of ms 1000 60] div_mult2_eq [of ms 60000 60] by simp_all
  moreover have "ms div 3600000 \<le> 23" using ms by simp
  ultimately show ?thesis by linarith
qed

lemma parse_seconds_text:
  assumes "sec < 60" and "m < 1000"
  shows "parse_seconds (58 # two_digits sec @ 46 # (48 + m div 100) # two_digits (m mod 100) @ [90]) = Some (sec * 1000 + m)"
proof -
  define a b c where abc: "a = m div 100" "b = m mod 100 div 10" "c = m mod 100 mod 10"
  have abc_b: "a < 10" "b < 10" "c < 10" using assms by (auto simp: abc)
  have "m = m div 100 * 100 + m mod 100" "m mod 100 = b * 10 + c" by (simp_all add: abc)
  then have m: "a * 100 + b * 10 + c = m" using abc by linarith
  have n: "num_at (58 # two_digits sec @ r) 1 2 = Some sec" for r
    using assms by (intro num_two [of _ _ _ r]) simp_all
  have t: "two_digits (m mod 100) = [48 + b, 48 + c]" using abc_b by (simp add: two_digits_def abc)
  have nd: "\<not> is_digit 90" by (simp add: is_digit_def)
  have l: "two_digits sec = [48 + sec div 10 mod 10, 48 + sec mod 10]" by (simp add: two_digits_def)
  show ?thesis
    using n [of "46 # (48 + a) # [48 + b, 48 + c] @ [90]"] assms abc_b m nd
    unfolding parse_seconds_def t by (simp add: l unit_at_def digit_units digits_value_def Let_def flip: abc(1))
qed

lemma date_roundtrip:
  assumes "0 \<le> cv_year (civil t)" and "cv_year (civil t) \<le> 9999"
  shows "date_parse (toISOString t) = Some t"
proof -
  obtain y m d ms where c: "civil t = \<lparr>cv_year = y, cv_month = m, cv_day = d, cv_ms = ms\<rparr>"
    by (cases "civil t") auto
  note cc = civil_correct [OF c]
  have b: "of_civil y m d ms = t" "1 \<le> m" "m \<le> 12" "1 \<le> d" "d \<le> 31" "ms < 86400000" using cc by simp_all
  have y: "0 \<le> y" "y \<le> 9999" using assms c by simp_all
  note tp = time_parts [OF b(6)]
  let ?s = "toISOString t"
  have s: "?s = four_digits (nat y) @ 45 # two_digits m @ 45 # two_digits d @ 84 # two_digits (ms div 3600000) @ 58 #
      two_digits (ms div 60000 mod 60) @ 58 # two_digits (ms div 1000 mod 60) @ 46 # (48 + ms mod 1000 div 100) #
      two_digits (ms mod 100) @ [90]"
    using y by (simp add: toISOString_def c year_text_def time_text_def)
  have mm: "ms mod 1000 mod 100 = ms mod 100" by (simp add: mod_mod_cancel)
  have sec: "parse_seconds (58 # two_digits (ms div 1000 mod 60) @ 46 # (48 + ms mod 1000 div 100) # two_digits (ms mod 100) @ [90])
      = Some (ms div 1000 mod 60 * 1000 + ms mod 1000)"
    using parse_seconds_text [of "ms div 1000 mod 60" "ms mod 1000"] by (simp add: mm)
  have n: "num_at ?s 0 4 = Some (nat y)" unfolding s using y by (intro num_four) simp
  have drops: "drop 5 ?s = two_digits m @ drop 7 ?s" "drop 8 ?s = two_digits d @ drop 10 ?s"
    "drop 11 ?s = two_digits (ms div 3600000) @ drop 13 ?s"
    "drop 14 ?s = two_digits (ms div 60000 mod 60) @ drop 16 ?s"
    "drop 16 ?s = 58 # two_digits (ms div 1000 mod 60) @ 46 # (48 + ms mod 1000 div 100) # two_digits (ms mod 100) @ [90]"
    "unit_at ?s 4 45" "unit_at ?s 7 45" "unit_at ?s 10 84" "unit_at ?s 13 58"
    unfolding s by (simp_all add: four_digits_def two_digits_def unit_at_def)
  have "num_at ?s 5 2 = Some m" "num_at ?s 8 2 = Some d" "num_at ?s 11 2 = Some (ms div 3600000)"
    "num_at ?s 14 2 = Some (ms div 60000 mod 60)"
    using b tp drops by (auto intro!: num_two)
  moreover have "ms div 60000 mod 60 \<le> 59" using pos_mod_bound [of 60 "ms div 60000"] by simp
  ultimately show ?thesis
    using n sec drops b tp y by (simp add: date_parse_def)
qed

end
