(* ===== verification/Sse.thy ===== *)
theory Sse
  imports Json
begin

text \<open>
  The server-sent events between the backend and the browser: the frames that
  \<^verbatim>\<open>chat/chat.sse.ts\<close> writes and the incremental reader of
  \<^verbatim>\<open>frontend/src/lib/streaming/sse-parser.ts\<close>. The network delivers the bytes of the frames in
  chunks of any size; the round trip theorem says that the reader yields the written events
  whatever the chunks are, also when a chunk ends inside a character.

  An asynchronous generator is the list of the values it yields and whether it ends normally or
  throws.
\<close>

section \<open>Writing\<close>

datatype ChatSseEventName =
  ev_request_started | ev_policy | ev_routing | ev_fallback | ev_token | ev_done | ev_error

fun sse_event_label :: "ChatSseEventName \<Rightarrow> string" where
  "sse_event_label ev_request_started = ''request_started''"
| "sse_event_label ev_policy = ''policy''"
| "sse_event_label ev_routing = ''routing''"
| "sse_event_label ev_fallback = ''fallback''"
| "sse_event_label ev_token = ''token''"
| "sse_event_label ev_done = ''done''"
| "sse_event_label ev_error = ''error''"

definition sse_body :: "(rat \<Rightarrow> jsstr) \<Rightarrow> ChatSseEventName \<Rightarrow> json \<Rightarrow> jsstr" where
  "sse_body nt event data =
     js_lit ''event: '' @ js_lit (sse_event_label event) @ [10] @ js_lit ''data: '' @ json_text nt data"

definition sse_frame :: "(rat \<Rightarrow> jsstr) \<Rightarrow> ChatSseEventName \<Rightarrow> json \<Rightarrow> jsstr" where
  "sse_frame nt event data = sse_body nt event data @ [10, 10]"

section \<open>Reading\<close>

record ParsedSseEvent =
  pe_event :: jsstr
  pe_data :: json

definition js_space :: "nat \<Rightarrow> bool" where
  "js_space u \<longleftrightarrow> in_ranges rs_space u"

definition trimStart :: "jsstr \<Rightarrow> jsstr" where
  "trimStart s = dropWhile js_space s"

text \<open>\<^verbatim>\<open>startsWith\<close> and the rest behind the prefix.\<close>

definition strip_prefix :: "string \<Rightarrow> jsstr \<Rightarrow> jsstr option" where
  "strip_prefix p s = (if take (length p) s = js_lit p then Some (drop (length p) s) else None)"

text \<open>\<^verbatim>\<open>split("\n")\<close>, \<^verbatim>\<open>split("\n\n")\<close> and \<^verbatim>\<open>replace(/\r\n/gu, "\n")\<close>.\<close>

fun split_lines :: "jsstr \<Rightarrow> jsstr list" where
  "split_lines [] = [[]]"
| "split_lines (u # s) =
     (if u = 10 then [] # split_lines s else (u # hd (split_lines s)) # tl (split_lines s))"

fun split_frames :: "jsstr \<Rightarrow> jsstr list" where
  "split_frames [] = [[]]"
| "split_frames [u] = [[u]]"
| "split_frames (u # v # s) =
     (if u = 10 \<and> v = 10 then [] # split_frames s
      else (u # hd (split_frames (v # s))) # tl (split_frames (v # s)))"

fun normalize_newlines :: "jsstr \<Rightarrow> jsstr" where
  "normalize_newlines [] = []"
| "normalize_newlines [u] = [u]"
| "normalize_newlines (u # v # s) =
     (if u = 13 \<and> v = 10 then 10 # normalize_newlines s else u # normalize_newlines (v # s))"

fun join_lines :: "jsstr list \<Rightarrow> jsstr" where
  "join_lines [] = []"
| "join_lines [l] = l"
| "join_lines (l # m # ls) = l @ 10 # join_lines (m # ls)"

text \<open>The loop over the lines: the name of the event and the data lines so far.\<close>

fun frame_lines :: "jsstr list \<Rightarrow> jsstr \<Rightarrow> jsstr list \<Rightarrow> jsstr \<times> jsstr list" where
  "frame_lines [] eventName dataLines = (eventName, dataLines)"
| "frame_lines (line # lines) eventName dataLines =
     (if strip_prefix '':'' line \<noteq> None then frame_lines lines eventName dataLines
      else case strip_prefix ''event:'' line of
          Some r \<Rightarrow> frame_lines lines (trimStart r) dataLines
        | None \<Rightarrow>
            (case strip_prefix ''data:'' line of
               Some r \<Rightarrow> frame_lines lines eventName (dataLines @ [trimStart r])
             | None \<Rightarrow> frame_lines lines eventName dataLines))"

text \<open>\<open>None\<close> when \<^verbatim>\<open>JSON.parse\<close> throws.\<close>

definition parseFrame :: "jsstr \<Rightarrow> ParsedSseEvent list option" where
  "parseFrame frame =
     (if list_all js_space frame then Some []
      else case frame_lines (split_lines frame) (js_lit ''message'') [] of (eventName, dataLines) \<Rightarrow>
        if dataLines = [] then Some []
        else (case json_parse (join_lines dataLines) of
                None \<Rightarrow> None
              | Some d \<Rightarrow> Some [\<lparr>pe_event = eventName, pe_data = d\<rparr>]))"

fun flatMap_frames :: "jsstr list \<Rightarrow> ParsedSseEvent list option" where
  "flatMap_frames [] = Some []"
| "flatMap_frames (f # fs) =
     (case parseFrame f of
        None \<Rightarrow> None
      | Some es \<Rightarrow> map_option ((@) es) (flatMap_frames fs))"

definition parseSseFrames :: "jsstr \<Rightarrow> (ParsedSseEvent list \<times> jsstr) option" where
  "parseSseFrames buffer =
     (let frames = split_frames (normalize_newlines buffer)
      in map_option (\<lambda>events. (events, last frames)) (flatMap_frames (butlast frames)))"

text \<open>
  A \<^verbatim>\<open>TextDecoder\<close>: the bytes of an unfinished character and whether it has put out a
  character. It drops a byte order mark at the start; the final call flushes it.
\<close>

record TextDecoder =
  td_pending :: "nat list"
  td_started :: bool

definition drop_bom :: "bool \<Rightarrow> nat list \<Rightarrow> nat list" where
  "drop_bom started cs = (if \<not> started \<and> cs \<noteq> [] \<and> hd cs = 65279 then tl cs else cs)"

definition decode_chunk :: "TextDecoder \<Rightarrow> nat list \<Rightarrow> jsstr \<times> TextDecoder" where
  "decode_chunk td chunk =
     (case utf8_stream (td_pending td @ chunk) of (cs, p) \<Rightarrow>
        (concat (map units_of_code_point (drop_bom (td_started td) cs)),
         \<lparr>td_pending = p, td_started = td_started td \<or> cs \<noteq> []\<rparr>))"

definition decode_flush :: "TextDecoder \<Rightarrow> jsstr" where
  "decode_flush td =
     concat (map units_of_code_point (drop_bom (td_started td) (utf8_code_points (td_pending td))))"

fun read_loop :: "TextDecoder \<Rightarrow> jsstr \<Rightarrow> nat list list \<Rightarrow> ParsedSseEvent list \<times> bool" where
  "read_loop td buffer [] =
     (case parseFrame (buffer @ decode_flush td) of None \<Rightarrow> ([], False) | Some es \<Rightarrow> (es, True))"
| "read_loop td buffer (chunk # chunks) =
     (case decode_chunk td chunk of (t, td') \<Rightarrow>
        (case parseSseFrames (buffer @ t) of
           None \<Rightarrow> ([], False)
         | Some (events, remainder) \<Rightarrow>
             (case read_loop td' remainder chunks of (es, ok) \<Rightarrow> (events @ es, ok))))"

definition readSseStream :: "nat list list \<Rightarrow> ParsedSseEvent list \<times> bool" where
  "readSseStream chunks = read_loop \<lparr>td_pending = [], td_started = False\<rparr> [] chunks"

section \<open>Printed texts\<close>

text \<open>A printed value has no control character and no lone surrogate.\<close>

fun paired :: "jsstr \<Rightarrow> bool" where
  "paired [] = True"
| "paired [u] = (\<not> is_high u \<and> \<not> is_low u)"
| "paired (u # v # s) = (if is_high u then is_low v \<and> paired s else \<not> is_low u \<and> paired (v # s))"

lemma high_low: "is_high u \<Longrightarrow> \<not> is_low u"
  by (simp add: is_high_def is_low_def)

lemma paired_append: "paired s \<Longrightarrow> paired (s @ t) = paired t"
proof (induction s rule: paired.induct)
  case (2 u)
  then show ?case by (cases t) auto
qed (auto simp: high_low)

lemma paired_cons: "\<not> is_high u \<Longrightarrow> \<not> is_low u \<Longrightarrow> paired (u # t) = paired t"
  using paired_append [of "[u]" t] by simp

lemma scalar_plain: "\<not> is_high u \<Longrightarrow> \<not> is_low u \<Longrightarrow> u < 65536 \<Longrightarrow> scalar u"
  by (auto simp: scalar_def is_high_def is_low_def)

lemma scalar_pair: "is_high u \<Longrightarrow> is_low v \<Longrightarrow> scalar (65536 + (u - 55296) * 1024 + (v - 56320))"
  by (auto simp: scalar_def is_high_def is_low_def)

lemma paired_well_formed: "paired s \<Longrightarrow> is_jsstr s \<Longrightarrow> well_formed s"
proof (induction s rule: paired.induct)
  case (3 u v s)
  then show ?case
    by (cases "is_high u") (auto simp: well_formed_def is_jsstr_def scalar_pair scalar_plain)
qed (auto simp: well_formed_def is_jsstr_def scalar_plain)

text \<open>Units that JSON text may hold.\<close>

definition printable :: "jsstr \<Rightarrow> bool" where
  "printable s \<longleftrightarrow> paired s \<and> (\<forall>u \<in> set s. 32 \<le> u \<and> u < 65536)"

lemma printable_append: "printable s \<Longrightarrow> printable t \<Longrightarrow> printable (s @ t)"
  by (auto simp: printable_def paired_append)

lemma printable_ascii: "\<forall>u \<in> set s. 32 \<le> u \<and> u < 128 \<Longrightarrow> printable s"
proof (induction s)
  case (Cons u s)
  then have "\<not> is_high u" "\<not> is_low u" by (auto simp: is_high_def is_low_def)
  with Cons show ?case by (auto simp: printable_def paired_cons)
qed (simp add: printable_def)

lemma printable_cons: "32 \<le> u \<Longrightarrow> u < 128 \<Longrightarrow> printable t \<Longrightarrow> printable (u # t)"
  using printable_append [of "[u]" t] printable_ascii [of "[u]"] by simp

lemma hex_unit_ascii: "n < 16 \<Longrightarrow> 32 \<le> hex_unit n \<and> hex_unit n < 128"
  by (auto simp: hex_unit_def)

lemma printable_escape_unit: "u < 65536 \<Longrightarrow> printable (escape_unit u)"
proof (cases "u < 32 \<or> is_high u \<or> is_low u \<or> u = 34 \<or> u = 92")
  case True
  then show ?thesis
    by (intro printable_ascii) (auto simp: escape_unit_def unicode_escape_def hex_unit_ascii is_high_def is_low_def)
next
  case False
  then show "u < 65536 \<Longrightarrow> ?thesis" by (simp add: escape_unit_def printable_def)
qed

lemma printable_escape_units: "is_jsstr s \<Longrightarrow> printable (escape_units s)"
proof (induction s rule: escape_units.induct)
  case (3 u v s)
  show ?case
  proof (cases "is_high u \<and> is_low v")
    case True
    then have "32 \<le> u" "32 \<le> v" by (auto simp: is_high_def is_low_def)
    moreover have "printable (escape_units s)" using 3(1) [OF True] 3(3) by (simp add: is_jsstr_def)
    ultimately show ?thesis using True 3(3) by (simp add: printable_def is_jsstr_def)
  next
    case False
    have "escape_units (u # v # s) = escape_unit u @ escape_units (v # s)" using False by auto
    then show ?thesis
      using 3(2) [OF False] 3(3) by (simp add: printable_append printable_escape_unit is_jsstr_def)
  qed
next
  case (2 u)
  then show ?case by (simp add: printable_escape_unit is_jsstr_def)
qed (simp add: printable_def)

lemma printable_quote: "is_jsstr s \<Longrightarrow> printable (json_quote s)"
  unfolding json_quote_def
  by (intro printable_cons printable_append printable_escape_units printable_ascii) simp_all

lemma printable_list_text:
  "32 \<le> c \<Longrightarrow> c < 128 \<Longrightarrow> (\<And>t. t \<in> set ts \<Longrightarrow> printable t) \<Longrightarrow> printable (list_text c ts)"
  by (induction ts rule: induct_list012) (simp_all add: printable_append printable_cons printable_ascii)

lemma printable_json_text: "wf_json v \<Longrightarrow> printable (json_text nt v)"
proof (induction v)
  case (JInt i)
  have "\<forall>u \<in> set (int_text i). 32 \<le> u \<and> u < 128"
    by (auto simp: int_text_def is_digit_def dest!: nat_digits_digits)
  then show ?case by (simp add: printable_ascii)
next
  case (JArr vs)
  then show ?case by (auto simp: list_all_iff intro!: printable_cons printable_list_text)
next
  case (JObj ps)
  then show ?case
    by (auto simp: list_all_iff snds.simps intro!: printable_cons printable_list_text printable_append printable_quote)
qed (auto simp: js_lit_def printable_quote intro!: printable_ascii)

section \<open>Frames\<close>

definition gap_free :: "jsstr \<Rightarrow> bool" where
  "gap_free s \<longleftrightarrow> \<not> (\<exists>a b. s = a @ 10 # 10 # b)"

lemma gap_free_short [simp]: "gap_free []" "gap_free [u]"
  by (auto simp: gap_free_def append_eq_Cons_conv Cons_eq_append_conv)

lemma gap_free_cons [simp]: "gap_free (u # v # s) \<longleftrightarrow> \<not> (u = 10 \<and> v = 10) \<and> gap_free (v # s)"
  by (fastforce simp: gap_free_def Cons_eq_append_conv)

lemma gap_free_line: "10 \<notin> set s \<Longrightarrow> gap_free (s @ [10])"
  by (induction s rule: induct_list012) auto

lemma gap_free_lines: "10 \<notin> set a \<Longrightarrow> gap_free (10 # t) \<Longrightarrow> gap_free (a @ 10 # t)"
  by (induction a rule: induct_list012) auto

lemma gap_free_prefix: "gap_free (s @ t) \<Longrightarrow> gap_free s"
  by (fastforce simp: gap_free_def)

lemma split_frames_gap_free: "gap_free s \<Longrightarrow> split_frames s = [s]"
  by (induction s rule: split_frames.induct) auto

lemma split_frames_frame: "gap_free (b @ [10]) \<Longrightarrow> split_frames (b @ 10 # 10 # s) = b # split_frames s"
  by (induction b rule: induct_list012) auto

lemma split_frames_concat:
  "\<forall>b \<in> set bs. gap_free (b @ [10]) \<Longrightarrow> gap_free r \<Longrightarrow>
   split_frames (concat (map (\<lambda>b. b @ [10, 10]) bs) @ r) = bs @ [r]"
  by (induction bs) (simp_all add: split_frames_gap_free split_frames_frame)

lemma normalize_newlines_id: "13 \<notin> set s \<Longrightarrow> normalize_newlines s = s"
  by (induction s rule: normalize_newlines.induct) auto

lemma frames_prefix:
  assumes "\<forall>b \<in> set bs. gap_free (b @ [10])" and "p @ rest = concat (map (\<lambda>b. b @ [10, 10]) bs)"
  shows "\<exists>k r. p = concat (map (\<lambda>b. b @ [10, 10]) (take k bs)) @ r \<and> gap_free r
           \<and> r @ rest = concat (map (\<lambda>b. b @ [10, 10]) (drop k bs))"
  using assms
proof (induction bs arbitrary: p)
  case Nil
  then show ?case by simp
next
  case (Cons b bs)
  let ?C = "concat (map (\<lambda>b. b @ [10, 10]) bs)"
  have eq: "p @ rest = (b @ [10]) @ 10 # ?C" using Cons.prems by simp
  show ?case
  proof (cases "length p \<le> Suc (length b)")
    case True
    then have "p = take (length p) (b @ [10])"
      using eq unfolding append_eq_append_conv_if by simp
    then have "gap_free p" using Cons.prems(1) gap_free_prefix by (metis append_take_drop_id list.set_intros(1))
    then show ?thesis using Cons.prems(2) by (intro exI [of _ 0] exI [of _ p]) simp
  next
    case False
    then have "length (b @ [10, 10]) \<le> length p" by simp
    moreover have "(b @ [10, 10]) @ ?C = p @ rest" using eq by simp
    ultimately have "b @ [10, 10] = take (length (b @ [10, 10])) p"
      unfolding append_eq_append_conv_if by (simp del: length_append)
    then obtain p' where p: "p = b @ [10, 10] @ p'" by (metis append.assoc append_take_drop_id)
    with eq have "p' @ rest = ?C" by simp
    from Cons.IH [OF _ this] Cons.prems(1) obtain k r where
      "p' = concat (map (\<lambda>b. b @ [10, 10]) (take k bs)) @ r" "gap_free r"
      "r @ rest = concat (map (\<lambda>b. b @ [10, 10]) (drop k bs))" by auto
    with p show ?thesis by (intro exI [of _ "Suc k"] exI [of _ r]) simp
  qed
qed

lemma flatMap_frames_single:
  "list_all2 (\<lambda>b e. parseFrame b = Some [e]) bs es \<Longrightarrow> flatMap_frames bs = Some es"
  by (induction rule: list_all2_induct) auto

section \<open>The streaming decoder\<close>

abbreviation utf16 :: "nat list \<Rightarrow> jsstr" where
  "utf16 cs \<equiv> concat (map units_of_code_point cs)"

definition decoder_ok :: "TextDecoder \<Rightarrow> nat list \<Rightarrow> nat list \<Rightarrow> bool" where
  "decoder_ok td rest cs \<longleftrightarrow> utf8_stream (td_pending td @ rest) = (cs, [])
     \<and> utf8_stream (td_pending td) = ([], td_pending td)
     \<and> (\<not> td_started td \<longrightarrow> cs = [] \<or> hd cs \<noteq> 65279)"

lemma utf8_stream_pending: "utf8_stream xs = (cs, p) \<Longrightarrow> utf8_stream p = ([], p)"
  using stream_append [of xs "[]"] by (cases "utf8_stream p") auto

lemma decode_chunk_step:
  assumes ok: "decoder_ok td (chunk @ rest) cs" and "decode_chunk td chunk = (t, td')"
  shows "\<exists>cs'. utf16 cs = t @ utf16 cs' \<and> decoder_ok td' rest cs'"
proof -
  obtain cs1 p where 1: "utf8_stream (td_pending td @ chunk) = (cs1, p)" by fastforce
  obtain cs2 q where 2: "utf8_stream (p @ rest) = (cs2, q)" by fastforce
  have cs: "cs = cs1 @ cs2" "q = []"
    using ok stream_append [of "td_pending td @ chunk" rest] 1 2 by (simp_all add: decoder_ok_def)
  have "drop_bom (td_started td) cs1 = cs1" using ok cs by (auto simp: drop_bom_def decoder_ok_def)
  with assms(2) 1 have t: "t = utf16 cs1" "td' = \<lparr>td_pending = p, td_started = td_started td \<or> cs1 \<noteq> []\<rparr>"
    by (simp_all add: decode_chunk_def)
  have "decoder_ok td' rest cs2"
    using ok cs t 2 utf8_stream_pending [OF 1] by (auto simp: decoder_ok_def)
  with t cs show ?thesis by (intro exI [of _ cs2]) simp
qed

lemma decoder_ok_end: "decoder_ok td [] cs \<Longrightarrow> cs = [] \<and> decode_flush td = []"
  by (auto simp: decoder_ok_def decode_flush_def drop_bom_def utf8_code_points_def)

section \<open>The reader\<close>

lemma parseFrame_empty [simp]: "parseFrame [] = Some []"
  by (simp add: parseFrame_def)

lemma read_loop_frames:
  assumes "\<forall>b \<in> set bs. gap_free (b @ [10]) \<and> 13 \<notin> set b" and "list_all2 (\<lambda>b e. parseFrame b = Some [e]) bs es"
    and "decoder_ok td (concat chunks) cs" and "gap_free buffer"
    and "buffer @ utf16 cs = concat (map (\<lambda>b. b @ [10, 10]) bs)"
  shows "read_loop td buffer chunks = (es, True)"
  using assms
proof (induction chunks arbitrary: td buffer cs bs es)
  case Nil
  with decoder_ok_end have cs: "cs = []" "decode_flush td = []" by auto
  have "bs = []"
  proof (cases bs)
    case (Cons b bs')
    with Nil cs show ?thesis by (auto simp: gap_free_def)
  qed simp
  with Nil cs show ?case by simp
next
  case (Cons chunk chunks)
  obtain t td' where d: "decode_chunk td chunk = (t, td')" by fastforce
  obtain cs' where cs': "utf16 cs = t @ utf16 cs'" "decoder_ok td' (concat chunks) cs'"
    using decode_chunk_step [OF _ d, of "concat chunks" cs] Cons.prems(3) by auto
  have "(buffer @ t) @ utf16 cs' = concat (map (\<lambda>b. b @ [10, 10]) bs)" using Cons.prems(5) cs' by simp
  from frames_prefix [OF _ this] Cons.prems(1) obtain k r where
    p: "buffer @ t = concat (map (\<lambda>b. b @ [10, 10]) (take k bs)) @ r" "gap_free r"
      "r @ utf16 cs' = concat (map (\<lambda>b. b @ [10, 10]) (drop k bs))" by auto
  have "13 \<notin> set (concat (map (\<lambda>b. b @ [10, 10]) bs))" using Cons.prems(1) by auto
  then have n: "13 \<notin> set (buffer @ t)" using Cons.prems(5) cs'(1) by (metis Un_iff append.assoc set_append)
  have "split_frames (buffer @ t) = take k bs @ [r]"
    using split_frames_concat [of "take k bs" r] Cons.prems(1) p by (auto dest: in_set_takeD)
  moreover have "flatMap_frames (take k bs) = Some (take k es)"
    using Cons.prems(2) by (intro flatMap_frames_single list_all2_takeI)
  ultimately have "parseSseFrames (buffer @ t) = Some (take k es, r)"
    by (simp add: parseSseFrames_def normalize_newlines_id [OF n])
  moreover have "read_loop td' r chunks = (drop k es, True)"
    using Cons.IH [of "drop k bs" "drop k es" td' cs' r] Cons.prems(1,2) p cs'
    by (auto dest: in_set_dropD)
  ultimately show ?case using d by simp
qed

lemma split_lines_plain: "10 \<notin> set s \<Longrightarrow> split_lines s = [s]"
  by (induction s) auto

lemma split_lines_line: "10 \<notin> set s \<Longrightarrow> split_lines (s @ 10 # t) = s # split_lines t"
  by (induction s) auto

lemma printable_units: "printable s \<Longrightarrow> 10 \<notin> set s \<and> 13 \<notin> set s"
  by (auto simp: printable_def)

lemma label_units: "printable (js_lit (sse_event_label ev)) \<and> trimStart (32 # js_lit (sse_event_label ev)) = js_lit (sse_event_label ev)"
  by (cases ev; simp; rule conjI; (rule printable_ascii)?; simp add: js_lit_def trimStart_def js_space_def in_ranges_def rs_space_def)

lemma parseFrame_body:
  assumes "wf_json (JObj ps)"
  shows "parseFrame (sse_body nt ev (JObj ps)) = Some [\<lparr>pe_event = js_lit (sse_event_label ev), pe_data = JObj ps\<rparr>]"
proof -
  let ?l = "js_lit (sse_event_label ev)" and ?j = "json_text nt (JObj ps)"
  have nl: "10 \<notin> set ?l" "10 \<notin> set ?j"
    using label_units printable_units printable_json_text [OF assms] by blast+
  have j: "trimStart (32 # ?j) = ?j" by (simp add: trimStart_def js_space_def in_ranges_def rs_space_def)
  have "split_lines (sse_body nt ev (JObj ps)) = [js_lit ''event: '' @ ?l, js_lit ''data: '' @ ?j]"
    using split_lines_line [of "js_lit ''event: '' @ ?l" "js_lit ''data: '' @ ?j"] nl
    by (simp add: sse_body_def split_lines_plain js_lit_def)
  moreover have "\<not> list_all js_space (sse_body nt ev (JObj ps))"
    by (simp add: sse_body_def js_lit_def js_space_def in_ranges_def rs_space_def)
  ultimately show ?thesis
    using label_units [of ev] j json_roundtrip [OF assms, of nt]
    by (simp add: parseFrame_def strip_prefix_def js_lit_def)
qed

lemma well_formed_frame:
  assumes "wf_json v"
  shows "well_formed (sse_frame nt ev v)"
proof -
  have pr: "printable (js_lit ''event: '' @ js_lit (sse_event_label ev))" "printable (js_lit ''data: '' @ json_text nt v)"
    using label_units [of ev] printable_json_text [OF assms, of nt]
    by (auto intro!: printable_append) (auto intro!: printable_ascii simp: js_lit_def)
  have n: "\<not> is_high 10" "\<not> is_low 10" by (simp_all add: is_high_def is_low_def)
  have e: "sse_frame nt ev v = (js_lit ''event: '' @ js_lit (sse_event_label ev)) @ 10 # ((js_lit ''data: '' @ json_text nt v) @ [10, 10])"
    by (simp add: sse_frame_def sse_body_def)
  have "paired (sse_frame nt ev v)" using pr n unfolding e by (simp add: printable_def paired_append paired_cons del: append_assoc)
  moreover have "is_jsstr (sse_frame nt ev v)" using pr unfolding e by (auto simp: printable_def is_jsstr_def)
  ultimately show ?thesis by (rule paired_well_formed)
qed

lemma body_units:
  assumes "wf_json v"
  shows "gap_free (sse_body nt ev v @ [10])" and "13 \<notin> set (sse_body nt ev v)"
proof -
  let ?a = "js_lit ''event: '' @ js_lit (sse_event_label ev)" and ?d = "js_lit ''data: '' @ json_text nt v"
  have "10 \<notin> set ?a \<and> 13 \<notin> set ?a" "10 \<notin> set ?d \<and> 13 \<notin> set ?d"
    using label_units [of ev] printable_json_text [OF assms, of nt] by (auto dest!: printable_units simp: js_lit_def)
  moreover have "gap_free (10 # ?d @ [10])"
    using gap_free_line [of ?d] calculation by (simp add: js_lit_def)
  ultimately show "gap_free (sse_body nt ev v @ [10])" "13 \<notin> set (sse_body nt ev v)"
    using gap_free_lines [of ?a "?d @ [10]"] by (simp_all add: sse_body_def)
qed

section \<open>The round trip\<close>

text \<open>An event that the backend writes: a name and an object.\<close>

definition written_event :: "ChatSseEventName \<times> (jsstr \<times> json) list \<Rightarrow> ParsedSseEvent" where
  "written_event e = \<lparr>pe_event = js_lit (sse_event_label (fst e)), pe_data = JObj (snd e)\<rparr>"

definition frame_of :: "(rat \<Rightarrow> jsstr) \<Rightarrow> ChatSseEventName \<times> (jsstr \<times> json) list \<Rightarrow> jsstr" where
  "frame_of nt e = sse_frame nt (fst e) (JObj (snd e))"

lemma concat_well_formed:
  "\<forall>f \<in> set fs. well_formed f \<Longrightarrow> \<exists>cs. utf8_stream (concat (map utf8_encode fs)) = (cs, []) \<and> utf16 cs = concat fs
     \<and> cs = concat (map code_points fs)"
proof (induction fs)
  case (Cons f fs)
  then obtain cs where cs: "utf8_stream (concat (map utf8_encode fs)) = (cs, [])" "utf16 cs = concat fs"
    "cs = concat (map code_points fs)" by auto
  have f: "utf8_stream (utf8_encode f) = (code_points f, [])" "utf16 (code_points f) = f"
    using Cons.prems by (simp_all add: utf8_encode_def well_formed_def stream_code_points units_code_points)
  have "utf8_stream (utf8_encode f @ concat (map utf8_encode fs)) = (code_points f @ cs, [])"
    using stream_append [of "utf8_encode f"] f cs by simp
  with f cs show ?case by simp
qed simp

lemma code_points_frame: "\<exists>r. code_points (frame_of nt e) = 101 # r"
proof -
  have "frame_of nt e = 101 # 118 # tl (tl (frame_of nt e))"
    by (simp add: frame_of_def sse_frame_def sse_body_def js_lit_def)
  moreover have "code_points (101 # 118 # t) = 101 # code_points (118 # t)" for t by (simp add: is_high_def)
  ultimately show ?thesis by metis
qed

lemma sse_stream_read:
  assumes "\<forall>e \<in> set evs. wf_json (JObj (snd e))"
    and "concat chunks = concat (map (\<lambda>e. utf8_encode (frame_of nt e)) evs)"
  shows "readSseStream chunks = (map written_event evs, True)"
proof -
  define bs where "bs = map (\<lambda>e. sse_body nt (fst e) (JObj (snd e))) evs"
  have fr: "concat (map (\<lambda>b. b @ [10, 10]) bs) = concat (map (frame_of nt) evs)"
    unfolding bs_def by (simp add: comp_def frame_of_def [abs_def] sse_frame_def)
  have "\<forall>f \<in> set (map (frame_of nt) evs). well_formed f"
    using assms(1) by (auto simp: frame_of_def well_formed_frame)
  from concat_well_formed [OF this] obtain cs where
    cs: "utf8_stream (concat chunks) = (cs, [])" "utf16 cs = concat (map (frame_of nt) evs)"
      "cs = concat (map code_points (map (frame_of nt) evs))"
    using assms(2) by (auto simp: comp_def)
  have "cs = [] \<or> hd cs \<noteq> 65279"
    using code_points_frame [of nt "hd evs"] cs(3) by (cases evs) auto
  with cs have ok: "decoder_ok \<lparr>td_pending = [], td_started = False\<rparr> (concat chunks) cs"
    by (simp add: decoder_ok_def)
  have "list_all2 (\<lambda>b e. parseFrame b = Some [e]) bs (map written_event evs)"
    using assms(1) unfolding bs_def
    by (auto simp: list_all2_conv_all_nth parseFrame_body written_event_def)
  moreover have "\<forall>b \<in> set bs. gap_free (b @ [10]) \<and> 13 \<notin> set b"
    using assms(1) body_units by (auto simp: bs_def)
  ultimately show ?thesis
    using read_loop_frames [OF _ _ ok, of bs "map written_event evs" "[]"] cs fr
    by (simp add: readSseStream_def)
qed

text \<open>
  C37. Whatever events the backend writes and however the network cuts their bytes into chunks, the
  reader of the browser yields exactly these events in their order and ends normally. Texts with
  lone surrogates are included: the printer escapes them.
\<close>

theorem sse_stream_roundtrip:
  assumes "\<forall>e \<in> set evs. wf_json (JObj (snd e))"
    and "concat chunks = concat (map (\<lambda>e. utf8_encode (frame_of nt e)) evs)"
  shows "readSseStream chunks = (map written_event evs, True)"
  using assms by (rule sse_stream_read)

text \<open>A token with a character of three bytes, cut inside the character, and a lone surrogate.\<close>

theorem sse_stream_roundtrip_witness:
  "readSseStream
     [utf8_encode (js_lit ''event: token'' @ [10] @ js_lit ''data: {'' @ [34, 116, 34, 58, 34]) @ [226, 130],
      [172] @ utf8_encode ([92, 117, 100, 56, 48, 48, 34] @ js_lit ''}'' @ [10, 10])]
   = ([\<lparr>pe_event = js_lit ''token'', pe_data = JObj [([116], JStr [8364, 55296])]\<rparr>], True)"
proof -
  let ?e = "(ev_token, [([116], JStr [8364, 55296])])"
  have "readSseStream
     [utf8_encode (js_lit ''event: token'' @ [10] @ js_lit ''data: {'' @ [34, 116, 34, 58, 34]) @ [226, 130],
      [172] @ utf8_encode ([92, 117, 100, 56, 48, 48, 34] @ js_lit ''}'' @ [10, 10])]
    = (map written_event [?e], True)"
    by (rule sse_stream_roundtrip [where nt = "\<lambda>_. []"])
      (simp_all add: is_jsstr_def frame_of_def sse_frame_def sse_body_def json_quote_def js_lit_def utf8_encode_def
        escape_unit_def unicode_escape_def hex_unit_def is_high_def is_low_def utf8_of_code_point_def)
  then show ?thesis by (simp add: written_event_def)
qed

end
