(* ===== verification/Encryption.thy ===== *)
theory Encryption
  imports Idempotency Json ActionLogic
begin

text \<open>
  Encrypted storage (\<^verbatim>\<open>shared/security/encryption.ts\<close>): key rings, the payload schema, the
  encryption service and the module's runtime state. AES-256-GCM and the random bytes of
  \<^verbatim>\<open>node:crypto\<close> are the record \<open>crypto\<close>; \<open>crypto_laws\<close> states what the proofs use: lengths,
  that opening inverts sealing, that a successful opening means that the text seals to this
  ciphertext and tag (GCM is deterministic for a key and an initialisation vector), and that the
  ciphertext alone determines the text (it is the text under a key stream).
\<close>

section \<open>Cryptography\<close>

text \<open>\<open>None\<close> when the primitive throws.\<close>

record 's crypto =
  cr_randomBytes :: "nat \<Rightarrow> 's \<Rightarrow> nat list \<times> 's"
  cr_seal :: "nat list \<Rightarrow> nat list \<Rightarrow> nat list \<Rightarrow> nat list \<Rightarrow> (nat list \<times> nat list) option"
  cr_open :: "nat list \<Rightarrow> nat list \<Rightarrow> nat list \<Rightarrow> nat list \<Rightarrow> nat list \<Rightarrow> nat list option"

definition bytes :: "nat list \<Rightarrow> bool" where
  "bytes bs \<longleftrightarrow> (\<forall>b \<in> set bs. b < 256)"

definition crypto_laws :: "'s crypto \<Rightarrow> bool" where
  "crypto_laws C \<longleftrightarrow>
     (\<forall>n s. length (fst (cr_randomBytes C n s)) = n \<and> bytes (fst (cr_randomBytes C n s)))
   \<and> (\<forall>k iv a p. length k = 32 \<and> length iv = 12 \<longrightarrow> cr_seal C k iv a p \<noteq> None)
   \<and> (\<forall>k iv a p c t. bytes p \<and> cr_seal C k iv a p = Some (c, t) \<longrightarrow>
        length c = length p \<and> bytes c \<and> length t = 16 \<and> bytes t)
   \<and> (\<forall>k iv a p c t. cr_open C k iv a t c = Some p \<longleftrightarrow> cr_seal C k iv a p = Some (c, t))
   \<and> (\<forall>k iv a a' p p' c t t'. cr_seal C k iv a p = Some (c, t) \<and> cr_seal C k iv a' p' = Some (c, t') \<longrightarrow> p = p')"

section \<open>Payloads and key rings\<close>

definition ENCRYPTION_ALGORITHM :: string where "ENCRYPTION_ALGORITHM = ''AES-256-GCM''"
definition IV_BYTES :: nat where "IV_BYTES = 12"
definition AUTH_TAG_BYTES :: nat where "AUTH_TAG_BYTES = 16"
definition KEY_BYTES :: nat where "KEY_BYTES = 32"
definition AAD_VERSION :: string where "AAD_VERSION = ''proxiai:aad:v1''"

record EncryptedPayload =
  ep_algorithm :: string
  ep_ciphertext :: jsstr
  ep_iv :: jsstr
  ep_authTag :: jsstr
  ep_keyVersion :: int

datatype EncryptionEntityType = MESSAGE_entity | CONVERSATION_entity

record EncryptionContext =
  ec_orgId :: string
  ec_entityType :: EncryptionEntityType
  ec_entityId :: string
  ec_fieldName :: string
  ec_conversationId :: string
  ec_messageId :: "string option"

record EncryptionKeyring =
  kr_activeVersion :: int
  kr_keys :: "(int \<times> nat list) list"

definition canonicalBase64Url :: "nat option \<Rightarrow> jsstr \<Rightarrow> bool" where
  "canonicalBase64Url n v \<longleftrightarrow> v \<noteq> [] \<and> list_all base64url_unit v
     \<and> (case n of None \<Rightarrow> True | Some k \<Rightarrow> length (base64url_decode v) = k)
     \<and> base64url_encode (base64url_decode v) = v"

definition encryptedPayload_ok :: "EncryptedPayload \<Rightarrow> bool" where
  "encryptedPayload_ok p \<longleftrightarrow> ep_algorithm p = ENCRYPTION_ALGORITHM
     \<and> canonicalBase64Url None (ep_ciphertext p) \<and> canonicalBase64Url (Some IV_BYTES) (ep_iv p)
     \<and> canonicalBase64Url (Some AUTH_TAG_BYTES) (ep_authTag p)
     \<and> 0 < ep_keyVersion p \<and> is_safe_integer (ep_keyVersion p)"

definition configurationError :: exn where
  "configurationError = ExnOther ''Invalid environment configuration: MESSAGE_ENCRYPTION_KEYS_JSON''"

definition unavailableError :: exn where
  "unavailableError = app_exn 503 ''ENCRYPTION_UNAVAILABLE'' ''Encrypted storage is temporarily unavailable.''"

definition contentUnavailableError :: exn where
  "contentUnavailableError = app_exn 500 ''MESSAGE_CONTENT_UNAVAILABLE'' ''Stored message content is unavailable.''"

text \<open>The keys of the JSON object match \<^verbatim>\<open>[1-9]\d*\<close> and the values are canonical keys.\<close>

definition version_text :: "jsstr \<Rightarrow> bool" where
  "version_text s \<longleftrightarrow> s \<noteq> [] \<and> list_all is_digit s \<and> hd s \<noteq> 48"

fun keyring_entry :: "jsstr \<times> json \<Rightarrow> (int \<times> nat list) option" where
  "keyring_entry (k, JStr v) =
     (if version_text k \<and> canonicalBase64Url (Some KEY_BYTES) v
      then Some (int (digits_value k), base64url_decode v) else None)"
| "keyring_entry _ = None"

fun keyring_entries :: "(jsstr \<times> json) list \<Rightarrow> (int \<times> nat list) list option" where
  "keyring_entries [] = Some []"
| "keyring_entries (p # ps) =
     (case keyring_entry p of
        None \<Rightarrow> None
      | Some e \<Rightarrow> map_option ((#) e) (keyring_entries ps))"

definition loadEncryptionKeyring :: "jsstr \<Rightarrow> int \<Rightarrow> exn + EncryptionKeyring" where
  "loadEncryptionKeyring keysJson activeVersion =
     (case json_parse keysJson of
        Some (JObj ps) \<Rightarrow>
          (case keyring_entries ps of
             None \<Rightarrow> Inl configurationError
           | Some ks \<Rightarrow> if map_of ks activeVersion = None then Inl configurationError
                        else Inr \<lparr>kr_activeVersion = activeVersion, kr_keys = ks\<rparr>)
      | _ \<Rightarrow> Inl configurationError)"

section \<open>The service\<close>

fun entity_label :: "EncryptionEntityType \<Rightarrow> string" where
  "entity_label MESSAGE_entity = ''MESSAGE''"
| "entity_label CONVERSATION_entity = ''CONVERSATION''"

fun join_with_unit :: "nat \<Rightarrow> jsstr list \<Rightarrow> jsstr" where
  "join_with_unit u [] = []"
| "join_with_unit u [s] = s"
| "join_with_unit u (s # t # ts) = s @ u # join_with_unit u (t # ts)"

definition aad_fields :: "EncryptionContext \<Rightarrow> string list" where
  "aad_fields c = [AAD_VERSION, ec_orgId c, entity_label (ec_entityType c), ec_entityId c, ec_fieldName c,
     ec_conversationId c, (case ec_messageId c of None \<Rightarrow> ''-'' | Some m \<Rightarrow> m)]"

definition buildAad :: "EncryptionContext \<Rightarrow> nat list" where
  "buildAad c = utf8_encode (join_with_unit 31 (map js_lit (aad_fields c)))"

definition encrypt ::
  "'s crypto \<Rightarrow> EncryptionKeyring \<Rightarrow> jsstr \<Rightarrow> EncryptionContext \<Rightarrow> ('s, exn, EncryptedPayload) act" where
  "encrypt C kr plaintext context s =
     (case map_of (kr_keys kr) (kr_activeVersion kr) of
        None \<Rightarrow> (Inl unavailableError, s)
      | Some key \<Rightarrow>
          (case cr_randomBytes C IV_BYTES s of (iv, s') \<Rightarrow>
             (case cr_seal C key iv (buildAad context) (utf8_encode plaintext) of
                None \<Rightarrow> (Inl unavailableError, s')
              | Some (ciphertext, authTag) \<Rightarrow>
                  (Inr \<lparr>ep_algorithm = ENCRYPTION_ALGORITHM, ep_ciphertext = base64url_encode ciphertext,
                        ep_iv = base64url_encode iv, ep_authTag = base64url_encode authTag,
                        ep_keyVersion = kr_activeVersion kr\<rparr>, s'))))"

definition decrypt ::
  "'s crypto \<Rightarrow> EncryptionKeyring \<Rightarrow> EncryptedPayload \<Rightarrow> EncryptionContext \<Rightarrow> exn + jsstr" where
  "decrypt C kr payload context =
     (if \<not> encryptedPayload_ok payload then Inl contentUnavailableError
      else case map_of (kr_keys kr) (ep_keyVersion payload) of
          None \<Rightarrow> Inl unavailableError
        | Some key \<Rightarrow>
            (case cr_open C key (base64url_decode (ep_iv payload)) (buildAad context)
                    (base64url_decode (ep_authTag payload)) (base64url_decode (ep_ciphertext payload)) of
               None \<Rightarrow> Inl contentUnavailableError
             | Some plain \<Rightarrow> Inr (utf8_decode plain)))"

text \<open>\<^verbatim>\<open>normalizeEncryptedPayload\<close> copies the five fields out of a document.\<close>

definition normalizeEncryptedPayload :: "'a EncryptedPayload_scheme \<Rightarrow> EncryptedPayload" where
  "normalizeEncryptedPayload p = \<lparr>ep_algorithm = ep_algorithm p, ep_ciphertext = ep_ciphertext p,
     ep_iv = ep_iv p, ep_authTag = ep_authTag p, ep_keyVersion = ep_keyVersion p\<rparr>"

section \<open>The runtime service\<close>

text \<open>\<^verbatim>\<open>runtimeKeyring\<close> and \<^verbatim>\<open>runtimeService\<close> are set and cleared together.\<close>

record 's enc_env =
  en_crypto :: "'s crypto"
  en_keysJson :: "jsstr option"
  en_activeVersion :: "int option"

definition canary :: jsstr where
  "canary = js_lit ''encryption-canary''"

definition canary_context :: EncryptionContext where
  "canary_context = \<lparr>ec_orgId = ''00000000-0000-4000-8000-000000000000'', ec_entityType = MESSAGE_entity,
     ec_entityId = ''00000000-0000-4000-8000-000000000001'', ec_fieldName = ''content'',
     ec_conversationId = ''00000000-0000-4000-8000-000000000002'',
     ec_messageId = Some ''00000000-0000-4000-8000-000000000001''\<rparr>"

text \<open>The canary of one key version.\<close>

definition check_canary :: "'s crypto \<Rightarrow> EncryptionKeyring \<Rightarrow> int \<Rightarrow> ('s, exn, unit) act" where
  "check_canary C kr version =
     act_bind (encrypt C (kr\<lparr>kr_activeVersion := version\<rparr>) canary canary_context) (\<lambda>payload.
       case decrypt C (kr\<lparr>kr_activeVersion := version\<rparr>) payload canary_context of
         Inl e \<Rightarrow> act_throw e
       | Inr t \<Rightarrow> if t \<noteq> canary then act_throw configurationError else act_ret ())"

text \<open>The state: the world of the random numbers and the key ring of the running service.\<close>

definition initializeEncryption :: "'s enc_env \<Rightarrow> ('s \<times> EncryptionKeyring option, exn, unit) act" where
  "initializeEncryption E w =
     (case (en_keysJson E, en_activeVersion E) of
        (Some keysJson, Some version) \<Rightarrow>
          (case loadEncryptionKeyring keysJson version of
             Inl e \<Rightarrow> (Inl e, w)
           | Inr kr \<Rightarrow>
               (case act_for (map fst (kr_keys kr)) (check_canary (en_crypto E) kr) (fst w) of
                  (Inl e, s') \<Rightarrow> (Inl e, (s', snd w))
                | (Inr _, s') \<Rightarrow> (Inr (), (s', Some kr))))
      | _ \<Rightarrow> (Inr (), (fst w, None)))"

definition requireEncryptionService :: "'s enc_env \<Rightarrow> ('s \<times> EncryptionKeyring option, exn, EncryptionKeyring) act" where
  "requireEncryptionService E w =
     (case (if snd w = None \<and> en_keysJson E \<noteq> None \<and> en_activeVersion E \<noteq> None
            then initializeEncryption E w else (Inr (), w)) of
        (Inl e, w') \<Rightarrow> (Inl e, w')
      | (Inr _, w') \<Rightarrow>
          (case snd w' of None \<Rightarrow> (Inl unavailableError, w') | Some kr \<Rightarrow> (Inr kr, w')))"

definition isEncryptionReady :: "'s \<times> EncryptionKeyring option \<Rightarrow> bool" where
  "isEncryptionReady w \<longleftrightarrow> snd w \<noteq> None"

definition hasEncryptionKeyVersion :: "'s \<times> EncryptionKeyring option \<Rightarrow> int \<Rightarrow> bool" where
  "hasEncryptionKeyVersion w version \<longleftrightarrow> (case snd w of None \<Rightarrow> False | Some kr \<Rightarrow> map_of (kr_keys kr) version \<noteq> None)"

section \<open>The round trip\<close>

lemma canonical_encode:
  assumes "bytes bs" and "bs \<noteq> []" and "\<And>k. n = Some k \<Longrightarrow> length bs = k"
  shows "canonicalBase64Url n (base64url_encode bs)"
  using assms base64url_encode_units [of bs] base64url_roundtrip [of bs]
  by (auto simp: canonicalBase64Url_def bytes_def list_all_iff split: option.split)

lemma utf8_encode_empty [simp]: "utf8_encode t = [] \<longleftrightarrow> t = []"
proof -
  have "utf8_of_code_point c \<noteq> []" for c by (simp add: utf8_of_code_point_def)
  moreover have "code_points t = [] \<longleftrightarrow> t = []" by (cases t rule: code_points.cases) auto
  ultimately show ?thesis by (auto simp: utf8_encode_def)
qed

lemma crypto_random:
  assumes "crypto_laws C" and "cr_randomBytes C n s = (iv, s')"
  shows "length iv = n \<and> bytes iv"
proof -
  have "\<forall>n s. length (fst (cr_randomBytes C n s)) = n \<and> bytes (fst (cr_randomBytes C n s))"
    using assms(1) unfolding crypto_laws_def by (elim conjE)
  with assms(2) show ?thesis by (metis fst_conv)
qed

lemma crypto_total:
  assumes "crypto_laws C" and "length k = 32" and "length iv = 12"
  shows "cr_seal C k iv a p \<noteq> None"
proof -
  have "\<forall>k iv a p. length k = 32 \<and> length iv = 12 \<longrightarrow> cr_seal C k iv a p \<noteq> None"
    using assms(1) unfolding crypto_laws_def by (elim conjE)
  with assms(2,3) show ?thesis by simp
qed

lemma crypto_seal:
  assumes "crypto_laws C" and "bytes p" and "cr_seal C k iv a p = Some (c, t)"
  shows "length c = length p \<and> bytes c \<and> length t = 16 \<and> bytes t"
proof -
  have "\<forall>k iv a p c t. bytes p \<and> cr_seal C k iv a p = Some (c, t) \<longrightarrow>
          length c = length p \<and> bytes c \<and> length t = 16 \<and> bytes t"
    using assms(1) unfolding crypto_laws_def by (elim conjE)
  with assms(2,3) show ?thesis by metis
qed

lemma crypto_open:
  assumes "crypto_laws C"
  shows "cr_open C k iv a t c = Some p \<longleftrightarrow> cr_seal C k iv a p = Some (c, t)"
proof -
  have "\<forall>k iv a p c t. cr_open C k iv a t c = Some p \<longleftrightarrow> cr_seal C k iv a p = Some (c, t)"
    using assms unfolding crypto_laws_def by (elim conjE)
  then show ?thesis by simp
qed

lemma crypto_text:
  assumes "crypto_laws C" and "cr_seal C k iv a p = Some (c, t)" and "cr_seal C k iv a' p' = Some (c, t')"
  shows "p = p'"
proof -
  have "\<forall>k iv a a' p p' c t t'. cr_seal C k iv a p = Some (c, t) \<and> cr_seal C k iv a' p' = Some (c, t') \<longrightarrow> p = p'"
    using assms(1) unfolding crypto_laws_def by (elim conjE)
  with assms(2,3) show ?thesis by metis
qed

lemma utf8_bytes_ok: "is_jsstr t \<Longrightarrow> bytes (utf8_encode t)"
  by (auto simp: bytes_def utf8_encode_bytes)

text \<open>What a successful encryption wrote, and what a decryption reads.\<close>

lemma encrypt_sealed:
  assumes "crypto_laws C" and "is_jsstr t" and "encrypt C kr t context s = (Inr p, s')"
  obtains key iv c tag where "map_of (kr_keys kr) (kr_activeVersion kr) = Some key"
    and "cr_seal C key iv (buildAad context) (utf8_encode t) = Some (c, tag)"
    and "p = \<lparr>ep_algorithm = ENCRYPTION_ALGORITHM, ep_ciphertext = base64url_encode c, ep_iv = base64url_encode iv,
              ep_authTag = base64url_encode tag, ep_keyVersion = kr_activeVersion kr\<rparr>"
    and "length iv = 12" and "bytes iv" and "length tag = 16" and "bytes tag"
    and "length c = length (utf8_encode t)" and "bytes c"
proof -
  from assms(3) obtain key iv c tag where
    k: "map_of (kr_keys kr) (kr_activeVersion kr) = Some key"
    and r: "cr_randomBytes C IV_BYTES s = (iv, s')"
    and e: "cr_seal C key iv (buildAad context) (utf8_encode t) = Some (c, tag)"
    and p: "p = \<lparr>ep_algorithm = ENCRYPTION_ALGORITHM, ep_ciphertext = base64url_encode c, ep_iv = base64url_encode iv,
              ep_authTag = base64url_encode tag, ep_keyVersion = kr_activeVersion kr\<rparr>"
    by (auto simp: encrypt_def split: option.splits prod.splits)
  show ?thesis
    using that [OF k e p] crypto_random [OF assms(1) r] crypto_seal [OF assms(1) utf8_bytes_ok [OF assms(2)] e]
    by (simp add: IV_BYTES_def)
qed

lemma decrypt_sealed:
  assumes "crypto_laws C" and "length iv = 12" and "bytes iv" and "length tag = 16" and "bytes tag" and "bytes c"
    and "0 < v" and "is_safe_integer v"
  shows "decrypt C kr \<lparr>ep_algorithm = ENCRYPTION_ALGORITHM, ep_ciphertext = base64url_encode c,
            ep_iv = base64url_encode iv, ep_authTag = base64url_encode tag, ep_keyVersion = v\<rparr> context
       = (if c = [] then Inl contentUnavailableError
          else case map_of (kr_keys kr) v of
              None \<Rightarrow> Inl unavailableError
            | Some key \<Rightarrow> (case cr_open C key iv (buildAad context) tag c of
                            None \<Rightarrow> Inl contentUnavailableError | Some q \<Rightarrow> Inr (utf8_decode q)))"
proof -
  have d: "base64url_decode (base64url_encode iv) = iv" "base64url_decode (base64url_encode tag) = tag"
    "base64url_decode (base64url_encode c) = c"
    using assms base64url_roundtrip by (auto simp: bytes_def)
  have "iv \<noteq> []" "tag \<noteq> []" using assms by auto
  then have ok: "canonicalBase64Url (Some IV_BYTES) (base64url_encode iv)"
    "canonicalBase64Url (Some AUTH_TAG_BYTES) (base64url_encode tag)"
    using canonical_encode [of iv "Some IV_BYTES"] canonical_encode [of tag "Some AUTH_TAG_BYTES"] assms(2-5)
    by (auto simp: IV_BYTES_def AUTH_TAG_BYTES_def)
  show ?thesis
  proof (cases "c = []")
    case True
    then show ?thesis by (simp add: decrypt_def encryptedPayload_ok_def canonicalBase64Url_def)
  next
    case False
    then have "canonicalBase64Url None (base64url_encode c)" using assms by (auto intro: canonical_encode)
    with False ok assms show ?thesis by (simp add: decrypt_def encryptedPayload_ok_def d cong: option.case_cong)
  qed
qed

definition key_available :: "EncryptionKeyring \<Rightarrow> EncryptionKeyring \<Rightarrow> bool" where
  "key_available kr kr' \<longleftrightarrow> 0 < kr_activeVersion kr \<and> is_safe_integer (kr_activeVersion kr)
     \<and> map_of (kr_keys kr') (kr_activeVersion kr) = map_of (kr_keys kr) (kr_activeVersion kr)"

definition protectable :: "jsstr \<Rightarrow> bool" where
  "protectable t \<longleftrightarrow> well_formed t \<and> t \<noteq> []"

lemma decrypt_encrypt:
  assumes laws: "crypto_laws C" and "key_available kr kr'" and t: "protectable t"
    and "encrypt C kr t context s = (Inr p, s')"
  shows "decrypt C kr' p context = Inr t"
proof -
  have "is_jsstr t" using t by (simp add: protectable_def well_formed_def)
  from encrypt_sealed [OF laws this assms(4)] obtain key iv c tag where
    k: "map_of (kr_keys kr) (kr_activeVersion kr) = Some key"
    and e: "cr_seal C key iv (buildAad context) (utf8_encode t) = Some (c, tag)"
    and p: "p = \<lparr>ep_algorithm = ENCRYPTION_ALGORITHM, ep_ciphertext = base64url_encode c, ep_iv = base64url_encode iv,
              ep_authTag = base64url_encode tag, ep_keyVersion = kr_activeVersion kr\<rparr>"
    and l: "length iv = 12" "bytes iv" "length tag = 16" "bytes tag" "length c = length (utf8_encode t)" "bytes c" .
  have "c \<noteq> []" using l t by (auto simp: protectable_def)
  then show ?thesis
    using assms(2) k t crypto_open [OF laws, of key iv "buildAad context" tag c "utf8_encode t"] e
    unfolding p by (simp add: decrypt_sealed [OF laws] l key_available_def utf8_roundtrip protectable_def)
qed

text \<open>
  What the clients of the service rely on: a text protected in a context under one state of the
  service is read back in the same context under a later state. \<open>usable\<close> relates the two states.
\<close>

locale field_protection =
  fixes protect :: "'k \<Rightarrow> jsstr \<Rightarrow> EncryptionContext \<Rightarrow> ('s, exn, EncryptedPayload) act"
    and reveal :: "'k \<Rightarrow> EncryptedPayload \<Rightarrow> EncryptionContext \<Rightarrow> exn + jsstr"
    and usable :: "'k \<Rightarrow> 'k \<Rightarrow> bool"
  assumes reveal_protect:
    "usable k k' \<Longrightarrow> protectable t \<Longrightarrow> protect k t c s = (Inr p, s') \<Longrightarrow> reveal k' p c = Inr t"
begin

lemma protect_injective:
  assumes "usable k k" and "protectable t" and "protectable u"
    and "protect k t c s = (Inr p, s1)" and "protect k u c s' = (Inr p, s2)"
  shows "t = u"
  using reveal_protect [OF assms(1,2,4)] reveal_protect [OF assms(1,3,5)] by simp

end

interpretation aes: field_protection
  "\<lambda>k. encrypt (fst k) (snd k)" "\<lambda>k. decrypt (fst k) (snd k)"
  "\<lambda>k k'. crypto_laws (fst k) \<and> fst k' = fst k \<and> key_available (snd k) (snd k')"
  by unfold_locales (auto intro: decrypt_encrypt)

text \<open>
  C26. A text that is not empty and has no lone surrogate, encrypted under the active key, is
  encrypted successfully, and every key ring that still holds this key version decrypts it in the
  same context to the same text, whatever its active version is.
\<close>

theorem encryption_roundtrip:
  assumes "crypto_laws C" and "map_of (kr_keys kr) (kr_activeVersion kr) = Some key" and "length key = KEY_BYTES"
    and "0 < kr_activeVersion kr" and "is_safe_integer (kr_activeVersion kr)"
    and "well_formed t" and "t \<noteq> []"
  shows "\<exists>p s'. encrypt C kr t context s = (Inr p, s') \<and> encryptedPayload_ok p
    \<and> (\<forall>kr'. map_of (kr_keys kr') (kr_activeVersion kr) = Some key \<longrightarrow> decrypt C kr' p context = Inr t)"
proof -
  obtain iv s' where r: "cr_randomBytes C IV_BYTES s = (iv, s')" by fastforce
  then have "length iv = 12" using crypto_random [OF assms(1)] by (auto simp: IV_BYTES_def)
  then obtain c tag where "cr_seal C key iv (buildAad context) (utf8_encode t) = Some (c, tag)"
    using crypto_total [OF assms(1)] assms(3) by (metis KEY_BYTES_def option.exhaust surj_pair)
  with r assms(2) obtain p where e: "encrypt C kr t context s = (Inr p, s')" by (simp add: encrypt_def)
  have d: "decrypt C kr' p context = Inr t" if "map_of (kr_keys kr') (kr_activeVersion kr) = Some key" for kr'
    using assms that by (intro decrypt_encrypt [OF _ _ _ e]) (simp_all add: key_available_def protectable_def)
  moreover have "encryptedPayload_ok p"
    using d [OF assms(2)] by (auto simp: decrypt_def split: if_splits)
  ultimately show ?thesis using e by blast
qed

section \<open>Texts that cannot be read back\<close>

lemma encrypt_empty:
  assumes "crypto_laws C" and "encrypt C kr [] context s = (Inr p, s')"
  shows "ep_ciphertext p = []"
proof -
  have "is_jsstr []" by (simp add: is_jsstr_def)
  from encrypt_sealed [OF assms(1) this assms(2)] obtain c tag iv where
    "p = \<lparr>ep_algorithm = ENCRYPTION_ALGORITHM, ep_ciphertext = base64url_encode c, ep_iv = base64url_encode iv,
              ep_authTag = base64url_encode tag, ep_keyVersion = kr_activeVersion kr\<rparr>" "length c = length (utf8_encode [])"
    by blast
  then show ?thesis by (simp add: utf8_encode_def)
qed

text \<open>
  The empty text is encrypted without an error, but no key ring and no context decrypts the
  result: the ciphertext is the empty string, which the payload schema refuses.
\<close>

theorem empty_text_unreadable:
  assumes "crypto_laws C" and "encrypt C kr [] context s = (Inr p, s')"
  shows "ep_ciphertext p = [] \<and> decrypt C kr' p context' = Inl contentUnavailableError"
  using encrypt_empty [OF assms] by (simp add: decrypt_def encryptedPayload_ok_def canonicalBase64Url_def)

section \<open>Binding to the context\<close>

lemma join_with_unit_inject:
  assumes "length xs = length ys" and "\<forall>x \<in> set (xs @ ys). u \<notin> set x" and "join_with_unit u xs = join_with_unit u ys"
  shows "xs = ys"
  using assms
proof (induction xs ys rule: list_induct2)
  case (Cons x xs y ys)
  show ?case
  proof (cases xs)
    case Nil
    with Cons show ?thesis by simp
  next
    case (Cons x' xs')
    with Cons.hyps obtain y' ys' where ys: "ys = y' # ys'" by (cases ys) auto
    have "x @ u # join_with_unit u xs = y @ u # join_with_unit u ys" using Cons.prems(2) Cons ys by simp
    moreover have "u \<notin> set x" "u \<notin> set y" using Cons.prems(1) by simp_all
    moreover have "takeWhile (\<lambda>v. v \<noteq> u) (z @ u # r) = z" if "u \<notin> set z" for z r
      using that by (induction z) auto
    ultimately have "x = y \<and> join_with_unit u xs = join_with_unit u ys"
      by (metis append_eq_append_conv list.inject)
    with Cons.IH Cons.prems(1) show ?thesis by simp
  qed
qed simp

definition plain_context :: "EncryptionContext \<Rightarrow> bool" where
  "plain_context c \<longleftrightarrow> list_all (\<lambda>f. CHR 0x1F \<notin> set f) (aad_fields c) \<and> ec_messageId c \<noteq> Some ''-''"

lemma js_lit_inject: "js_lit s = js_lit t \<longleftrightarrow> s = t"
  by (simp add: js_lit_def inj_map_eq_map inj_on_def)

lemma js_lit_well_formed: "\<forall>u \<in> set t. u < 256 \<Longrightarrow> well_formed t"
proof -
  assume a: "\<forall>u \<in> set t. u < 256"
  then have "code_points t = t"
    by (induction t rule: code_points.induct) (auto simp: is_high_def)
  with a show ?thesis by (auto simp: well_formed_def is_jsstr_def scalar_def)
qed

lemma join_units: "\<forall>x \<in> set xs. \<forall>v \<in> set x. v < 256 \<Longrightarrow> u < 256 \<Longrightarrow> \<forall>v \<in> set (join_with_unit u xs). v < 256"
  by (induction u xs rule: join_with_unit.induct) auto

lemma buildAad_inject:
  assumes "plain_context c" and "plain_context c'" and "buildAad c = buildAad c'"
  shows "c = c'"
proof -
  let ?j = "\<lambda>c. join_with_unit 31 (map js_lit (aad_fields c))"
  have "well_formed (?j c)" for c
    by (intro js_lit_well_formed join_units) (auto simp: js_lit_def)
  then have "?j c = ?j c'" using assms(3) by (metis buildAad_def utf8_roundtrip)
  moreover have "(31::nat) \<notin> set (js_lit f)" if "CHR 0x1F \<notin> set f" for f
  proof
    assume "31 \<in> set (js_lit f)"
    then obtain ch where "ch \<in> set f" "of_char ch = (31::nat)" by (auto simp: js_lit_def)
    moreover have "of_char (CHR 0x1F) = (31::nat)" by simp
    ultimately show False using that by (metis of_char_eq_iff)
  qed
  ultimately have "map js_lit (aad_fields c) = map js_lit (aad_fields c')"
    using assms(1,2) by (intro join_with_unit_inject) (auto simp: plain_context_def list_all_iff aad_fields_def)
  then have "aad_fields c = aad_fields c'" by (simp add: inj_map_eq_map inj_on_def js_lit_inject)
  moreover have "ec_entityType c = ec_entityType c'" if "entity_label (ec_entityType c) = entity_label (ec_entityType c')"
    using that by (cases "ec_entityType c"; cases "ec_entityType c'") simp_all
  ultimately show ?thesis
    using assms(1,2) by (auto simp: aad_fields_def plain_context_def split: option.splits)
qed

text \<open>The tags of one ciphertext under the two contexts differ if their associated data do.\<close>

definition tag_separates :: "'s crypto \<Rightarrow> nat list \<Rightarrow> nat list \<Rightarrow> EncryptionContext \<Rightarrow> EncryptionContext \<Rightarrow> bool" where
  "tag_separates C key plain c c' \<longleftrightarrow> (\<forall>iv ct tag.
     cr_seal C key iv (buildAad c) plain = Some (ct, tag) \<longrightarrow> buildAad c \<noteq> buildAad c' \<longrightarrow>
     cr_seal C key iv (buildAad c') plain \<noteq> Some (ct, tag))"

text \<open>
  C27. A payload is bound to its organisation, entity, field, conversation and message: moved to
  another context it does not decrypt, provided that the tag separates the two contexts.
\<close>

theorem ciphertext_bound_to_context:
  assumes "crypto_laws C" and "is_jsstr t" and "encrypt C kr t c s = (Inr p, s')"
    and "map_of (kr_keys kr') (kr_activeVersion kr) = Some key" and "map_of (kr_keys kr) (kr_activeVersion kr) = Some key"
    and "plain_context c" and "plain_context c'" and "tag_separates C key (utf8_encode t) c c'" and "c' \<noteq> c"
  shows "\<exists>e. decrypt C kr' p c' = Inl e"
proof (rule ccontr)
  assume "\<nexists>e. decrypt C kr' p c' = Inl e"
  then obtain q where q: "decrypt C kr' p c' = Inr q" by (meson sumE)
  from encrypt_sealed [OF assms(1-3)] assms(5) obtain iv ct tag where
    e: "cr_seal C key iv (buildAad c) (utf8_encode t) = Some (ct, tag)"
    and p: "p = \<lparr>ep_algorithm = ENCRYPTION_ALGORITHM, ep_ciphertext = base64url_encode ct, ep_iv = base64url_encode iv,
              ep_authTag = base64url_encode tag, ep_keyVersion = kr_activeVersion kr\<rparr>"
    and l: "length iv = 12" "bytes iv" "length tag = 16" "bytes tag" "bytes ct"
    by (metis option.inject)
  have d: "base64url_decode (base64url_encode iv) = iv" "base64url_decode (base64url_encode tag) = tag"
    "base64url_decode (base64url_encode ct) = ct"
    using l base64url_roundtrip by (auto simp: bytes_def)
  from q assms(4) obtain plain where "cr_open C key iv (buildAad c') tag ct = Some plain"
    unfolding p by (auto simp: decrypt_def d split: if_splits option.splits)
  then have s: "cr_seal C key iv (buildAad c') plain = Some (ct, tag)" by (simp add: crypto_open [OF assms(1)])
  then have "plain = utf8_encode t" using crypto_text [OF assms(1)] e by blast
  with s e assms(8) have "buildAad c = buildAad c'" by (auto simp: tag_separates_def)
  with buildAad_inject assms(6,7,9) show False by blast
qed

section \<open>Witnesses\<close>

text \<open>A cipher that shows the ciphertext and whose tag is a checksum of the associated data.\<close>

definition toy_tag :: "nat list \<Rightarrow> nat list" where
  "toy_tag a = sum_list a mod 256 # replicate 15 0"

definition toy_crypto :: "'s crypto" where
  "toy_crypto = \<lparr>
     cr_randomBytes = (\<lambda>n s. (replicate n 0, s)),
     cr_seal = (\<lambda>k iv a p. Some (p, toy_tag a)),
     cr_open = (\<lambda>k iv a t c. if t = toy_tag a then Some c else None)\<rparr>"

lemma toy_crypto_laws: "crypto_laws toy_crypto"
  by (auto simp: crypto_laws_def toy_crypto_def bytes_def toy_tag_def)

definition toy_keyring :: EncryptionKeyring where
  "toy_keyring = \<lparr>kr_activeVersion = 1, kr_keys = [(1, replicate 32 7)]\<rparr>"

definition toy_context :: "string \<Rightarrow> EncryptionContext" where
  "toy_context m = \<lparr>ec_orgId = ''o'', ec_entityType = MESSAGE_entity, ec_entityId = m, ec_fieldName = ''content'',
     ec_conversationId = ''c'', ec_messageId = Some m\<rparr>"

theorem encryption_roundtrip_witness:
  "\<exists>p s'. encrypt toy_crypto toy_keyring (js_lit ''hi'') (toy_context ''m'') () = (Inr p, s') \<and> encryptedPayload_ok p
    \<and> (\<forall>kr'. map_of (kr_keys kr') (kr_activeVersion toy_keyring) = Some (replicate 32 7) \<longrightarrow>
         decrypt (toy_crypto :: unit crypto) kr' p (toy_context ''m'') = Inr (js_lit ''hi''))"
  by (rule encryption_roundtrip [OF toy_crypto_laws])
    (simp_all add: toy_keyring_def KEY_BYTES_def is_safe_integer_def MAX_SAFE_INTEGER_def js_lit_well_formed js_lit_def)

theorem empty_text_unreadable_witness:
  "\<exists>p. encrypt toy_crypto toy_keyring [] (toy_context ''m'') () = (Inr p, ())
     \<and> decrypt (toy_crypto :: unit crypto) toy_keyring p (toy_context ''m'') = Inl contentUnavailableError"
proof -
  obtain p where e: "encrypt toy_crypto toy_keyring [] (toy_context ''m'') () = (Inr p, ())"
    by (simp add: encrypt_def toy_keyring_def toy_crypto_def)
  with empty_text_unreadable [OF toy_crypto_laws e] show ?thesis by blast
qed

lemma toy_aad: "buildAad (toy_context ''n'') \<noteq> buildAad (toy_context ''m'')"
  "sum_list (buildAad (toy_context ''n'')) mod 256 \<noteq> sum_list (buildAad (toy_context ''m'')) mod 256"
  by (simp_all add: buildAad_def toy_context_def aad_fields_def AAD_VERSION_def utf8_encode_def js_lit_def is_high_def
      utf8_of_code_point_def)

theorem ciphertext_bound_to_context_witness:
  "\<exists>p e. encrypt toy_crypto toy_keyring (js_lit ''hi'') (toy_context ''m'') () = (Inr p, ())
     \<and> decrypt (toy_crypto :: unit crypto) toy_keyring p (toy_context ''n'') = Inl e"
proof -
  obtain p where e: "encrypt toy_crypto toy_keyring (js_lit ''hi'') (toy_context ''m'') () = (Inr p, ())"
    by (simp add: encrypt_def toy_keyring_def toy_crypto_def)
  have "tag_separates (toy_crypto :: unit crypto) (replicate 32 7) (utf8_encode (js_lit ''hi'')) (toy_context ''m'') (toy_context ''n'')"
    using toy_aad by (simp add: tag_separates_def toy_crypto_def toy_tag_def)
  then have "\<exists>x. decrypt (toy_crypto :: unit crypto) toy_keyring p (toy_context ''n'') = Inl x"
    by (intro ciphertext_bound_to_context [OF toy_crypto_laws _ e])
      (simp_all add: is_jsstr_def js_lit_def toy_keyring_def plain_context_def aad_fields_def toy_context_def AAD_VERSION_def)
  with e show ?thesis by blast
qed

end
