(* ===== verification/Cursors.thy ===== *)
theory Cursors
  imports IsoDate Sse Encryption
begin

text \<open>
  The opaque pagination cursors: \<^verbatim>\<open>messages/message.cursor.ts\<close>,
  \<^verbatim>\<open>conversations/conversation.cursor.ts\<close> and \<^verbatim>\<open>admin/admin.cursor.ts\<close>. A cursor is
  the base64url text of a JSON object. The string checks of the schema library (\<open>uuid()\<close>,
  \<open>datetime()\<close>) are a parameter; \<open>schema_laws\<close> says that they accept what the program writes.
\<close>

record schema_checks =
  sc_uuid :: "jsstr \<Rightarrow> bool"
  sc_datetime :: "jsstr \<Rightarrow> bool"

text \<open>A date of a cursor: its year has four digits.\<close>

definition iso_date :: "int \<Rightarrow> bool" where
  "iso_date t \<longleftrightarrow> 0 \<le> cv_year (civil t) \<and> cv_year (civil t) \<le> 9999"

definition schema_laws :: "schema_checks \<Rightarrow> bool" where
  "schema_laws Z \<longleftrightarrow> (\<forall>t. iso_date t \<longrightarrow> sc_datetime Z (toISOString t))"

definition no_fraction :: "rat \<Rightarrow> jsstr" where
  "no_fraction q = []"

definition encode_json :: "json \<Rightarrow> jsstr" where
  "encode_json v = base64url_encode (utf8_encode (json_text no_fraction v))"

definition decode_json :: "jsstr \<Rightarrow> json option" where
  "decode_json s = json_parse (utf8_decode (base64url_decode s))"

text \<open>A strict object with exactly the given keys.\<close>

definition strict_fields :: "string list \<Rightarrow> json \<Rightarrow> json list option" where
  "strict_fields ks v =
     (case v of
        JObj ps \<Rightarrow>
          if set (map fst ps) \<subseteq> set (map js_lit ks) then those (map (\<lambda>k. map_of ps (js_lit k)) ks) else None
      | _ \<Rightarrow> None)"

definition datetime_field :: "schema_checks \<Rightarrow> json \<Rightarrow> int option" where
  "datetime_field Z v = (case v of JStr s \<Rightarrow> if sc_datetime Z s then date_parse s else None | _ \<Rightarrow> None)"

definition string_field :: "(jsstr \<Rightarrow> bool) \<Rightarrow> json \<Rightarrow> jsstr option" where
  "string_field p v = (case v of JStr s \<Rightarrow> if p s then Some s else None | _ \<Rightarrow> None)"

definition invalid_cursor :: "string \<Rightarrow> exn" where
  "invalid_cursor message = app_exn 400 ''INVALID_CURSOR'' message"

section \<open>Messages\<close>

record MessageListCursor =
  mc_createdAt :: int
  mc_messageId :: jsstr

definition encodeMessageCursor :: "MessageListCursor \<Rightarrow> jsstr" where
  "encodeMessageCursor c = encode_json (JObj
     [(js_lit ''createdAt'', JStr (toISOString (mc_createdAt c))), (js_lit ''messageId'', JStr (mc_messageId c))])"

definition decodeMessageCursor :: "schema_checks \<Rightarrow> jsstr \<Rightarrow> exn + MessageListCursor" where
  "decodeMessageCursor Z encoded =
     (case Option.bind (decode_json encoded) (strict_fields [''createdAt'', ''messageId'']) of
        Some [d, i] \<Rightarrow>
          (case (datetime_field Z d, string_field (sc_uuid Z) i) of
             (Some t, Some s) \<Rightarrow> Inr \<lparr>mc_createdAt = t, mc_messageId = s\<rparr>
           | _ \<Rightarrow> Inl (invalid_cursor ''Message cursor is invalid.''))
      | _ \<Rightarrow> Inl (invalid_cursor ''Message cursor is invalid.''))"

section \<open>Conversations\<close>

record ConversationListCursor =
  cc_conversationId :: jsstr
  cc_lastMessageAt :: "int option"

definition encodeConversationCursor :: "ConversationListCursor \<Rightarrow> jsstr" where
  "encodeConversationCursor c = encode_json (JObj
     [(js_lit ''conversationId'', JStr (cc_conversationId c)),
      (js_lit ''lastMessageAt'', (case cc_lastMessageAt c of None \<Rightarrow> JNull | Some t \<Rightarrow> JStr (toISOString t)))])"

definition decodeConversationCursor :: "schema_checks \<Rightarrow> jsstr \<Rightarrow> exn + ConversationListCursor" where
  "decodeConversationCursor Z encoded =
     (case Option.bind (decode_json encoded) (strict_fields [''conversationId'', ''lastMessageAt'']) of
        Some [i, d] \<Rightarrow>
          (case string_field (sc_uuid Z) i of
             None \<Rightarrow> Inl (invalid_cursor ''Conversation cursor is invalid.'')
           | Some s \<Rightarrow>
               (if d = JNull then Inr \<lparr>cc_conversationId = s, cc_lastMessageAt = None\<rparr>
                else case datetime_field Z d of
                    Some t \<Rightarrow> Inr \<lparr>cc_conversationId = s, cc_lastMessageAt = Some t\<rparr>
                  | None \<Rightarrow> Inl (invalid_cursor ''Conversation cursor is invalid.'')))
      | _ \<Rightarrow> Inl (invalid_cursor ''Conversation cursor is invalid.''))"

section \<open>Administration lists\<close>

record AdminListCursor =
  lc_createdAt :: int
  lc_id :: jsstr

definition encodeAdminCursor :: "AdminListCursor \<Rightarrow> jsstr" where
  "encodeAdminCursor c = encode_json (JObj
     [(js_lit ''createdAt'', JStr (toISOString (lc_createdAt c))), (js_lit ''id'', JStr (lc_id c))])"

definition admin_id_ok :: "jsstr \<Rightarrow> bool" where
  "admin_id_ok s \<longleftrightarrow> 1 \<le> length s \<and> length s \<le> 200"

definition invalid_admin_cursor :: exn where
  "invalid_admin_cursor = ExnApp \<lparr>ae_statusCode = 400, ae_code = ''INVALID_CURSOR'',
     ae_message = ''Pagination cursor is invalid.'',
     ae_details = FieldErrors [(''cursor'', ''Invalid pagination cursor.'')]\<rparr>"

definition decodeAdminCursor :: "schema_checks \<Rightarrow> jsstr \<Rightarrow> exn + AdminListCursor" where
  "decodeAdminCursor Z encoded =
     (case Option.bind (decode_json encoded) (strict_fields [''createdAt'', ''id'']) of
        Some [d, i] \<Rightarrow>
          (case (datetime_field Z d, string_field admin_id_ok i) of
             (Some t, Some s) \<Rightarrow> Inr \<lparr>lc_createdAt = t, lc_id = s\<rparr>
           | _ \<Rightarrow> Inl invalid_admin_cursor)
      | _ \<Rightarrow> Inl invalid_admin_cursor)"

section \<open>Round trips\<close>

lemma decode_encode_json:
  assumes "wf_json v"
  shows "decode_json (encode_json v) = Some v"
proof -
  have wf: "well_formed (json_text no_fraction v)"
    using printable_json_text [OF assms] by (auto simp: printable_def is_jsstr_def intro!: paired_well_formed)
  have "is_jsstr (json_text no_fraction v)" using wf by (simp add: well_formed_def)
  then have "\<forall>b \<in> set (utf8_encode (json_text no_fraction v)). b < 256" by (simp add: utf8_encode_bytes)
  then show ?thesis
    by (simp add: decode_json_def encode_json_def base64url_roundtrip utf8_roundtrip [OF wf] json_roundtrip [OF assms])
qed

lemma iso_units: "is_jsstr (toISOString t)"
proof -
  obtain y m d ms where c: "civil t = \<lparr>cv_year = y, cv_month = m, cv_day = d, cv_ms = ms\<rparr>" by (cases "civil t") auto
  have d: "48 + n mod 10 < 65536" for n :: nat
  proof -
    have "n mod 10 < 10" by simp
    then show ?thesis by linarith
  qed
  have "\<forall>u \<in> set (two_digits n). u < 65536" for n using d by (simp add: two_digits_def)
  moreover have "48 + ms mod 1000 div 100 < 65536"
  proof -
    have "ms mod 1000 < 1000" by simp
    then have "ms mod 1000 div 100 < 10" by (simp add: less_mult_imp_div_less)
    then show ?thesis by linarith
  qed
  ultimately show ?thesis
    unfolding is_jsstr_def toISOString_def c year_text_def four_digits_def time_text_def Let_def
    by (auto split: if_splits)
qed

lemma decode_two:
  assumes "js_lit a \<noteq> js_lit b" and "wf_json u" and "wf_json v"
  shows "Option.bind (decode_json (encode_json (JObj [(js_lit a, u), (js_lit b, v)]))) (strict_fields [a, b]) = Some [u, v]"
proof -
  have "is_jsstr (js_lit x)" for x
    using js_lit_well_formed [of "js_lit x"] by (simp add: well_formed_def js_lit_def)
  then have "wf_json (JObj [(js_lit a, u), (js_lit b, v)])" using assms by simp
  then show ?thesis using assms(1) by (simp add: decode_encode_json strict_fields_def)
qed

lemma datetime_field_iso: "schema_laws Z \<Longrightarrow> iso_date t \<Longrightarrow> datetime_field Z (JStr (toISOString t)) = Some t"
  by (simp add: datetime_field_def schema_laws_def date_roundtrip iso_date_def)

lemma message_cursor_roundtrip:
  assumes "schema_laws Z" and "iso_date (mc_createdAt c)" and "sc_uuid Z (mc_messageId c)" and "is_jsstr (mc_messageId c)"
  shows "decodeMessageCursor Z (encodeMessageCursor c) = Inr c"
proof -
  have k: "js_lit ''createdAt'' \<noteq> js_lit ''messageId''" by (simp add: js_lit_def)
  show ?thesis
    unfolding decodeMessageCursor_def encodeMessageCursor_def
    using assms decode_two [OF k] iso_units by (simp add: datetime_field_iso string_field_def)
qed

lemma conversation_cursor_roundtrip:
  assumes "schema_laws Z" and "case cc_lastMessageAt c of None \<Rightarrow> True | Some t \<Rightarrow> iso_date t"
    and "sc_uuid Z (cc_conversationId c)" and "is_jsstr (cc_conversationId c)"
  shows "decodeConversationCursor Z (encodeConversationCursor c) = Inr c"
proof -
  have k: "js_lit ''conversationId'' \<noteq> js_lit ''lastMessageAt''" by (simp add: js_lit_def)
  show ?thesis
  proof (cases "cc_lastMessageAt c")
    case None
    then show ?thesis
      unfolding decodeConversationCursor_def encodeConversationCursor_def
      using assms decode_two [OF k] by (simp add: string_field_def)
  next
    case (Some t)
    then show ?thesis
      unfolding decodeConversationCursor_def encodeConversationCursor_def
      using assms decode_two [OF k] iso_units by (simp add: string_field_def datetime_field_iso)
  qed
qed

lemma admin_cursor_roundtrip:
  assumes "schema_laws Z" and "iso_date (lc_createdAt c)" and "admin_id_ok (lc_id c)" and "is_jsstr (lc_id c)"
  shows "decodeAdminCursor Z (encodeAdminCursor c) = Inr c"
proof -
  have k: "js_lit ''createdAt'' \<noteq> js_lit ''id''" by (simp add: js_lit_def)
  show ?thesis
    unfolding decodeAdminCursor_def encodeAdminCursor_def
    using assms decode_two [OF k] iso_units by (simp add: datetime_field_iso string_field_def)
qed

end
