(* ===== verification/Conversations.thy ===== *)
theory Conversations
  imports Store Cursors
begin

text \<open>
  Conversations: the model's constraints (\<^verbatim>\<open>conversation.model.ts\<close>), the repository and
  \<^verbatim>\<open>conversation.service.ts\<close>. Titles other than the default are stored encrypted.

  The world of these services is the world of the database paired with the key ring of the running
  encryption service; \<open>on_store\<close> runs a database operation in it; the
  handlers of the endpoints use it for their larger worlds, too.
\<close>

section \<open>The shared environment\<close>

definition on_store :: "('s, 'e, 'a) act \<Rightarrow> ('s \<times> 'k, 'e, 'a) act" where
  "on_store m w = (case m (fst w) of (r, s') \<Rightarrow> (r, (s', snd w)))"

definition hex_char :: "nat \<Rightarrow> bool" where
  "hex_char u \<longleftrightarrow> 48 \<le> u \<and> u \<le> 57 \<or> 65 \<le> u \<and> u \<le> 70 \<or> 97 \<le> u \<and> u \<le> 102"

text \<open>\<^verbatim>\<open>UUID_V4_PATTERN\<close>.\<close>

definition uuid_v4 :: "string \<Rightarrow> bool" where
  "uuid_v4 s \<longleftrightarrow> length s = 36 \<and> list_all (\<lambda>i.
     (if i \<in> {8, 13, 18, 23} then s ! i = CHR ''-''
      else if i = 14 then s ! i = CHR ''4''
      else if i = 19 then s ! i \<in> set ''89abAB''
      else hex_char (of_char (s ! i)))) [0..<36]"

definition protect :: "'s enc_env \<Rightarrow> jsstr \<Rightarrow> EncryptionContext \<Rightarrow> ('s \<times> EncryptionKeyring option, exn, EncryptedPayload) act" where
  "protect E t context = act_bind (requireEncryptionService E) (\<lambda>kr. on_store (encrypt (en_crypto E) kr t context))"

definition reveal :: "'s enc_env \<Rightarrow> EncryptedPayload \<Rightarrow> EncryptionContext \<Rightarrow> ('s \<times> EncryptionKeyring option, exn, jsstr) act" where
  "reveal E p context = act_bind (requireEncryptionService E) (\<lambda>kr.
     case decrypt (en_crypto E) kr (normalizeEncryptedPayload p) context of
       Inl e \<Rightarrow> act_throw e | Inr t \<Rightarrow> act_ret t)"

section \<open>The model\<close>

record Conversation =
  cn_conversationId :: string
  cn_orgId :: string
  cn_userId :: string
  cn_title :: jsstr
  cn_titleEnc :: "EncryptedPayload option"
  cn_messageCount :: int
  cn_lastMessageAt :: "int option"
  cn_createdAt :: int

definition DEFAULT_CONVERSATION_TITLE :: jsstr where
  "DEFAULT_CONVERSATION_TITLE = js_lit ''New conversation''"

definition conversation_valid :: "Conversation \<Rightarrow> bool" where
  "conversation_valid c \<longleftrightarrow> uuid_v4 (cn_conversationId c) \<and> uuid_v4 (cn_orgId c) \<and> uuid_v4 (cn_userId c)
     \<and> 1 \<le> length (cn_title c) \<and> length (cn_title c) \<le> 120
     \<and> (case cn_titleEnc c of None \<Rightarrow> True | Some p \<Rightarrow> ep_algorithm p = ENCRYPTION_ALGORITHM
          \<and> ep_ciphertext p \<noteq> [] \<and> ep_iv p \<noteq> [] \<and> ep_authTag p \<noteq> [] \<and> 1 \<le> ep_keyVersion p)
     \<and> 0 \<le> cn_messageCount c \<and> is_safe_integer (cn_messageCount c)"

definition conversation_unique :: "Conversation list \<Rightarrow> bool" where
  "conversation_unique cs \<longleftrightarrow> distinct (map cn_conversationId cs)"

record 's conversation_env =
  ve_conversations :: "('s, Conversation) collection"
  ve_encryption :: "'s enc_env"
  ve_randomUUID :: "'s \<Rightarrow> string \<times> 's"
  ve_now :: "'s \<Rightarrow> int"

section \<open>The repository\<close>

definition owned_by :: "string \<Rightarrow> string \<Rightarrow> Conversation \<Rightarrow> bool" where
  "owned_by orgId userId c \<longleftrightarrow> cn_orgId c = orgId \<and> cn_userId c = userId"

definition findOwnedById ::
  "'s conversation_env \<Rightarrow> string \<Rightarrow> string \<Rightarrow> string \<Rightarrow> ('s, exn, Conversation option) act" where
  "findOwnedById V orgId userId conversationId =
     cl_findOne (ve_conversations V) (\<lambda>c. owned_by orgId userId c \<and> cn_conversationId c = conversationId)"

definition updateTitleOwned ::
  "'s conversation_env \<Rightarrow> string \<Rightarrow> string \<Rightarrow> string \<Rightarrow> jsstr \<Rightarrow> EncryptedPayload option \<Rightarrow>
   ('s, exn, Conversation option) act" where
  "updateTitleOwned V orgId userId conversationId title titleEnc =
     cl_update (ve_conversations V) (\<lambda>c. owned_by orgId userId c \<and> cn_conversationId c = conversationId)
       (\<lambda>c. c\<lparr>cn_title := title, cn_titleEnc := titleEnc\<rparr>)"

text \<open>Newest first; conversations without messages last.\<close>

definition conversation_before :: "Conversation \<Rightarrow> Conversation \<Rightarrow> bool" where
  "conversation_before c d \<longleftrightarrow>
     (case (cn_lastMessageAt c, cn_lastMessageAt d) of
        (Some t, Some u) \<Rightarrow> u < t \<or> t = u \<and> id_less (cn_conversationId d) (cn_conversationId c)
      | (Some t, None) \<Rightarrow> True
      | (None, Some u) \<Rightarrow> False
      | (None, None) \<Rightarrow> id_less (cn_conversationId d) (cn_conversationId c))"

definition conversation_cursor_filter :: "ConversationListCursor option \<Rightarrow> Conversation \<Rightarrow> bool" where
  "conversation_cursor_filter cursor d =
     (case cursor of
        None \<Rightarrow> True
      | Some c \<Rightarrow>
          (case cc_lastMessageAt c of
             None \<Rightarrow> cn_lastMessageAt d = None \<and> str_less (js_lit (cn_conversationId d)) (cc_conversationId c)
           | Some t \<Rightarrow>
               (case cn_lastMessageAt d of
                  Some u \<Rightarrow> u < t \<or> u = t \<and> str_less (js_lit (cn_conversationId d)) (cc_conversationId c)
                | None \<Rightarrow> True)))"

definition listOwned ::
  "'s conversation_env \<Rightarrow> string \<Rightarrow> string \<Rightarrow> nat \<Rightarrow> ConversationListCursor option \<Rightarrow> ('s, exn, Conversation list) act" where
  "listOwned V orgId userId limit cursor =
     cl_find (ve_conversations V) (\<lambda>c. owned_by orgId userId c \<and> conversation_cursor_filter cursor c)
       (\<lambda>c d. \<not> conversation_before d c) (Suc limit)"

section \<open>The service\<close>

record ConversationSummary =
  cs_conversationId :: string
  cs_title :: jsstr
  cs_messageCount :: int
  cs_createdAt :: int
  cs_lastMessageAt :: "int option"

definition title_context :: "string \<Rightarrow> string \<Rightarrow> EncryptionContext" where
  "title_context orgId conversationId = \<lparr>ec_orgId = orgId, ec_entityType = CONVERSATION_entity,
     ec_entityId = conversationId, ec_fieldName = ''title'', ec_conversationId = conversationId, ec_messageId = None\<rparr>"

definition encryptConversationTitle ::
  "'s conversation_env \<Rightarrow> string \<Rightarrow> string \<Rightarrow> jsstr \<Rightarrow> ('s \<times> EncryptionKeyring option, exn, EncryptedPayload) act" where
  "encryptConversationTitle V orgId conversationId title =
     protect (ve_encryption V) title (title_context orgId conversationId)"

definition decryptConversationTitle ::
  "'s conversation_env \<Rightarrow> Conversation \<Rightarrow> ('s \<times> EncryptionKeyring option, exn, jsstr) act" where
  "decryptConversationTitle V c =
     (case cn_titleEnc c of
        None \<Rightarrow> act_ret (cn_title c)
      | Some p \<Rightarrow> reveal (ve_encryption V) p (title_context (cn_orgId c) (cn_conversationId c)))"

definition toConversationSummary ::
  "'s conversation_env \<Rightarrow> Conversation \<Rightarrow> ('s \<times> EncryptionKeyring option, exn, ConversationSummary) act" where
  "toConversationSummary V c = act_bind (decryptConversationTitle V c) (\<lambda>title.
     act_ret \<lparr>cs_conversationId = cn_conversationId c, cs_title = title, cs_messageCount = cn_messageCount c,
              cs_createdAt = cn_createdAt c, cs_lastMessageAt = cn_lastMessageAt c\<rparr>)"

definition conversation_not_found :: exn where
  "conversation_not_found = app_exn 404 ''NOT_FOUND'' ''Conversation not found.''"

text \<open>The document that the model creates: defaults for the fields that the record leaves out.\<close>

definition new_conversation ::
  "string \<Rightarrow> string \<Rightarrow> string \<Rightarrow> EncryptedPayload option \<Rightarrow> int \<Rightarrow> Conversation" where
  "new_conversation conversationId orgId userId titleEnc now =
     \<lparr>cn_conversationId = conversationId, cn_orgId = orgId, cn_userId = userId, cn_title = DEFAULT_CONVERSATION_TITLE,
      cn_titleEnc = titleEnc, cn_messageCount = 0, cn_lastMessageAt = None, cn_createdAt = now\<rparr>"

definition createConversationForOwner ::
  "'s conversation_env \<Rightarrow> string \<Rightarrow> string \<Rightarrow> jsstr option \<Rightarrow> ('s \<times> EncryptionKeyring option, exn, ConversationSummary) act" where
  "createConversationForOwner V orgId userId title =
     act_bind (\<lambda>w. case ve_randomUUID V (fst w) of (i, s') \<Rightarrow> (Inr i, (s', snd w))) (\<lambda>conversationId.
     act_bind (case title of
                 None \<Rightarrow> act_ret None
               | Some t \<Rightarrow> if t = DEFAULT_CONVERSATION_TITLE then act_ret None
                          else act_bind (encryptConversationTitle V orgId conversationId t) (\<lambda>p. act_ret (Some p))) (\<lambda>titleEnc.
     act_bind (act_read (\<lambda>w. new_conversation conversationId orgId userId titleEnc (ve_now V (fst w)))) (\<lambda>doc.
     act_then (on_store (cl_create (ve_conversations V) [doc])) (toConversationSummary V doc))))"

definition getConversationForOwner ::
  "'s conversation_env \<Rightarrow> string \<Rightarrow> string \<Rightarrow> string \<Rightarrow> ('s \<times> EncryptionKeyring option, exn, ConversationSummary) act" where
  "getConversationForOwner V orgId userId conversationId =
     act_bind (on_store (findOwnedById V orgId userId conversationId)) (\<lambda>found.
       case found of None \<Rightarrow> act_throw conversation_not_found | Some c \<Rightarrow> toConversationSummary V c)"

definition updateConversationTitleForOwner ::
  "'s conversation_env \<Rightarrow> string \<Rightarrow> string \<Rightarrow> string \<Rightarrow> jsstr \<Rightarrow> ('s \<times> EncryptionKeyring option, exn, ConversationSummary) act" where
  "updateConversationTitleForOwner V orgId userId conversationId title =
     act_bind (if title = DEFAULT_CONVERSATION_TITLE then act_ret None
               else act_bind (encryptConversationTitle V orgId conversationId title) (\<lambda>p. act_ret (Some p))) (\<lambda>titleEnc.
     act_bind (on_store (updateTitleOwned V orgId userId conversationId DEFAULT_CONVERSATION_TITLE titleEnc)) (\<lambda>updated.
       case updated of None \<Rightarrow> act_throw conversation_not_found | Some c \<Rightarrow> toConversationSummary V c))"

fun act_map :: "('a \<Rightarrow> ('s, 'e, 'b) act) \<Rightarrow> 'a list \<Rightarrow> ('s, 'e, 'b list) act" where
  "act_map f [] = act_ret []"
| "act_map f (x # xs) = act_bind (f x) (\<lambda>y. act_bind (act_map f xs) (\<lambda>ys. act_ret (y # ys)))"

definition summary_cursor :: "ConversationSummary \<Rightarrow> ConversationListCursor" where
  "summary_cursor s = \<lparr>cc_conversationId = js_lit (cs_conversationId s), cc_lastMessageAt = cs_lastMessageAt s\<rparr>"

definition listConversationsForOwner ::
  "'s conversation_env \<Rightarrow> string \<Rightarrow> string \<Rightarrow> nat \<Rightarrow> ConversationListCursor option \<Rightarrow>
   ('s \<times> EncryptionKeyring option, exn, ConversationSummary list \<times> jsstr option) act" where
  "listConversationsForOwner V orgId userId limit cursor =
     act_bind (on_store (listOwned V orgId userId limit cursor)) (\<lambda>conversations.
     act_bind (act_map (toConversationSummary V) (page_items limit conversations)) (\<lambda>items.
       act_ret (items,
         (if limit < length conversations \<and> items \<noteq> []
          then Some (encodeConversationCursor (summary_cursor (last items))) else None))))"

section \<open>The running service\<close>

text \<open>A world in which the encryption service runs with a usable active key.\<close>

definition service_ready :: "'s enc_env \<Rightarrow> 's \<times> EncryptionKeyring option \<Rightarrow> bool" where
  "service_ready E w \<longleftrightarrow> crypto_laws (en_crypto E) \<and> (\<exists>kr. snd w = Some kr \<and> key_available kr kr
     \<and> (\<exists>key. map_of (kr_keys kr) (kr_activeVersion kr) = Some key \<and> length key = KEY_BYTES))"

lemma require_ready: "snd w = Some kr \<Longrightarrow> requireEncryptionService E w = (Inr kr, w)"
  by (simp add: requireEncryptionService_def)

lemma protect_ready:
  "snd w = Some kr \<Longrightarrow> protect E t c w = (case encrypt (en_crypto E) kr t c (fst w) of (r, s') \<Rightarrow> (r, (s', snd w)))"
  by (simp add: protect_def act_bind_apply require_ready on_store_def split: prod.split sum.split)

lemma normalize_id [simp]: "normalizeEncryptedPayload p = p" for p :: EncryptedPayload
  by (simp add: normalizeEncryptedPayload_def)

lemma reveal_ready:
  "snd w = Some kr \<Longrightarrow> reveal E p c w = (decrypt (en_crypto E) kr p c, w)"
  by (simp add: reveal_def act_bind_apply require_ready split: sum.split)

lemma reveal_protected:
  assumes "service_ready E w" and "protectable t" and "protect E t c w = (Inr p, w')" and "snd w'' = snd w"
  shows "reveal E p c w'' = (Inr t, w'')" and "snd w' = snd w" and "fst w' = snd (encrypt (en_crypto E) (the (snd w)) t c (fst w))"
proof -
  from assms(1) obtain kr where kr: "snd w = Some kr" "key_available kr kr" "crypto_laws (en_crypto E)"
    by (auto simp: service_ready_def)
  obtain s' where e: "encrypt (en_crypto E) kr t c (fst w) = (Inr p, s')" "w' = (s', snd w)"
    using assms(3) by (auto simp: protect_ready [OF kr(1)] split: prod.splits)
  show "reveal E p c w'' = (Inr t, w'')"
    using decrypt_encrypt [OF kr(3,2) assms(2) e(1)] assms(4) kr(1) by (simp add: reveal_ready)
  show "snd w' = snd w" "fst w' = snd (encrypt (en_crypto E) (the (snd w)) t c (fst w))" using e kr by simp_all
qed

text \<open>Random numbers and identifiers do not touch the documents.\<close>

definition draws_leave :: "('s \<Rightarrow> 'x) \<Rightarrow> 's crypto \<Rightarrow> bool" where
  "draws_leave f C \<longleftrightarrow> (\<forall>n s. f (snd (cr_randomBytes C n s)) = f s)"

lemma encrypt_leaves: "draws_leave f C \<Longrightarrow> f (snd (encrypt C kr t c s)) = f s"
proof -
  assume d: "draws_leave f C"
  obtain iv s' where r: "cr_randomBytes C IV_BYTES s = (iv, s')" by fastforce
  then have "f s' = f s" using d unfolding draws_leave_def by (metis snd_conv)
  with r show ?thesis by (simp add: encrypt_def split: option.split)
qed

section \<open>Titles\<close>

text \<open>
  A title chosen at creation never reaches the database in clear: the stored document has the
  default title and the encrypted one, belongs to the owner, and reading the conversation gives the
  chosen title back.
\<close>

theorem title_stored_encrypted:
  assumes ready: "service_ready (ve_encryption V) w" and laws: "collection_laws conversation_valid conversation_unique (ve_conversations V)"
    and draws: "draws_leave (cl_docs (ve_conversations V)) (en_crypto (ve_encryption V))"
    and uuid: "\<And>s. cl_docs (ve_conversations V) (snd (ve_randomUUID V s)) = cl_docs (ve_conversations V) s"
    and title: "protectable title" "title \<noteq> DEFAULT_CONVERSATION_TITLE"
    and run: "createConversationForOwner V orgId userId (Some title) w = (Inr summary, w')"
  shows "\<exists>doc. cl_docs (ve_conversations V) (fst w') = cl_docs (ve_conversations V) (fst w) @ [doc]
    \<and> cn_title doc = DEFAULT_CONVERSATION_TITLE \<and> cn_titleEnc doc \<noteq> None \<and> owned_by orgId userId doc
    \<and> cs_title summary = title
    \<and> (\<forall>s w''. getConversationForOwner V orgId userId (cs_conversationId summary) w' = (Inr s, w'') \<longrightarrow> cs_title s = title)"
proof -
  let ?C = "ve_conversations V" and ?E = "ve_encryption V"
  obtain i s1 where i: "ve_randomUUID V (fst w) = (i, s1)" by fastforce
  have ready1: "service_ready ?E (s1, snd w)" using ready by (simp add: service_ready_def)
  from run i title(2) obtain p w2 where p: "protect ?E title (title_context orgId i) (s1, snd w) = (Inr p, w2)"
    by (auto simp: createConversationForOwner_def act_bind_apply act_then_apply encryptConversationTitle_def
        split: prod.splits sum.splits)
  define doc where "doc = new_conversation i orgId userId (Some p) (ve_now V (fst w2))"
  obtain r3 s3 where c: "cl_create ?C [doc] (fst w2) = (r3, s3)" by fastforce
  note rp = reveal_protected [OF ready1 title(1) p]
  have sw: "snd w2 = snd w" using rp(2) [OF refl] by simp
  have rev: "reveal ?E p (title_context orgId i) w'' = (Inr title, w'')" if "snd w'' = snd w" for w''
    using rp(1) that by simp
  have summ: "toConversationSummary V doc w'' = (Inr \<lparr>cs_conversationId = i, cs_title = title, cs_messageCount = 0,
      cs_createdAt = cn_createdAt doc, cs_lastMessageAt = None\<rparr>, w'')" if "snd w'' = snd w" for w''
    using rev [OF that]
    by (simp add: toConversationSummary_def decryptConversationTitle_def act_bind_apply doc_def new_conversation_def)
  have rest: "r3 = Inr ()" "w' = (s3, snd w)" "cs_conversationId summary = i" "cs_title summary = title"
    using run i title(2) p c summ [of "(s3, snd w)"] sw
    by (auto simp: createConversationForOwner_def act_bind_apply act_then_apply encryptConversationTitle_def on_store_def
        doc_def [symmetric] split: sum.splits)
  have created: "cl_docs ?C s3 = cl_docs ?C (fst w2) @ [doc]" "conversation_unique (cl_docs ?C (fst w2) @ [doc])"
    using createD [of conversation_valid conversation_unique ?C "[doc]" "fst w2" s3] laws c rest(1)
    by (auto simp: collection_laws_def)
  have same: "cl_docs ?C (fst w2) = cl_docs ?C (fst w)"
    using rp(3) [OF refl] encrypt_leaves [OF draws] uuid [of "fst w"] i by simp
  have get: "cs_title s = title" if g: "getConversationForOwner V orgId userId i w' = (Inr s, w'')" for s w''
  proof -
    obtain r4 s4 where f: "findOwnedById V orgId userId i s3 = (r4, s4)" by fastforce
    from g f rest(2) obtain d where d: "r4 = Inr (Some d)" "toConversationSummary V d (s4, snd w) = (Inr s, w'')"
      by (auto simp: getConversationForOwner_def act_bind_apply on_store_def split: sum.splits option.splits)
    have "findOne_law ?C" using laws by (simp add: collection_laws_def)
    from findOneD(3) [OF this f [unfolded findOwnedById_def] d(1)] created(1)
    have "d \<in> set (cl_docs ?C (fst w2) @ [doc])" "cn_conversationId d = i" by auto
    moreover have "cn_conversationId doc = i" by (simp add: doc_def new_conversation_def)
    ultimately have "d = doc"
      using created(2) by (auto simp: conversation_unique_def rev_image_eqI)
    with d(2) summ [of "(s4, snd w)"] show ?thesis by auto
  qed
  show ?thesis
    using created(1) same rest get
    by (intro exI [of _ doc]) (auto simp: doc_def new_conversation_def owned_by_def)
qed

section \<open>Listing\<close>

definition conversation_key :: "Conversation \<Rightarrow> ConversationListCursor" where
  "conversation_key c = \<lparr>cc_conversationId = js_lit (cn_conversationId c), cc_lastMessageAt = cn_lastMessageAt c\<rparr>"

interpretation conversation_pages: keyset conversation_before conversation_key conversation_cursor_filter
proof
  fix x y z :: Conversation and d
  show "\<not> conversation_before x x" by (simp add: conversation_before_def split: option.split)
  show "conversation_before x y \<Longrightarrow> conversation_before y z \<Longrightarrow> conversation_before x z"
    by (auto simp: conversation_before_def split: option.splits intro: id_less_trans)
  show "conversation_key x \<noteq> conversation_key y \<Longrightarrow> conversation_before x y \<or> conversation_before y x"
    using id_less_total [of "cn_conversationId x" "cn_conversationId y"]
    by (cases "cn_conversationId x = cn_conversationId y"; cases "cn_lastMessageAt x"; cases "cn_lastMessageAt y") (auto simp: conversation_before_def conversation_key_def)
  show "conversation_cursor_filter None d" by (simp add: conversation_cursor_filter_def)
  show "conversation_cursor_filter (Some (conversation_key x)) d \<longleftrightarrow> conversation_before x d"
    by (auto simp: conversation_cursor_filter_def conversation_before_def conversation_key_def id_less_def split: option.split)
qed

text \<open>One request of a client that follows the cursors: the controller decodes the cursor.\<close>

definition conversation_page_request ::
  "schema_checks \<Rightarrow> 's conversation_env \<Rightarrow> string \<Rightarrow> string \<Rightarrow> nat \<Rightarrow> jsstr option \<Rightarrow>
   ('s \<times> EncryptionKeyring option, exn, ConversationSummary list \<times> jsstr option) act" where
  "conversation_page_request Z V orgId userId limit cursor =
     (case cursor of
        None \<Rightarrow> listConversationsForOwner V orgId userId limit None
      | Some text \<Rightarrow>
          (case decodeConversationCursor Z text of
             Inl e \<Rightarrow> act_throw e
           | Inr c \<Rightarrow> listConversationsForOwner V orgId userId limit (Some c)))"

definition summary_of :: "'s conversation_env \<Rightarrow> 's \<times> EncryptionKeyring option \<Rightarrow> Conversation \<Rightarrow> ConversationSummary" where
  "summary_of V w c = (case toConversationSummary V c w of (Inr s, _) \<Rightarrow> s)"

text \<open>A world at rest: queries succeed and change nothing, titles decrypt, and identifiers and dates
  are of the form that cursors admit.\<close>

definition at_rest :: "schema_checks \<Rightarrow> 's conversation_env \<Rightarrow> 's \<times> EncryptionKeyring option \<Rightarrow> bool" where
  "at_rest Z V w \<longleftrightarrow>
     (\<forall>p le n. cl_find (ve_conversations V) p le n (fst w) = (Inr (query le p n (cl_docs (ve_conversations V) (fst w))), fst w))
   \<and> (\<forall>c \<in> set (cl_docs (ve_conversations V) (fst w)). toConversationSummary V c w = (Inr (summary_of V w c), w)
        \<and> sc_uuid Z (js_lit (cn_conversationId c))
        \<and> (case cn_lastMessageAt c of None \<Rightarrow> True | Some t \<Rightarrow> iso_date t))"

lemma act_map_const:
  "(\<And>x. x \<in> set xs \<Longrightarrow> f x w = (Inr (g x), w)) \<Longrightarrow> act_map f xs w = (Inr (map g xs), w)"
  by (induction xs) (simp_all add: act_bind_apply)

lemma summary_fields:
  "toConversationSummary V c w = (Inr s, w') \<Longrightarrow> cs_conversationId s = cn_conversationId c \<and> cs_lastMessageAt s = cn_lastMessageAt c"
  by (auto simp: toConversationSummary_def act_bind_apply split: prod.splits sum.splits)

lemma list_page:
  assumes rest: "at_rest Z V w"
  shows "listConversationsForOwner V orgId userId limit cursor w =
    (let (items, next_cursor) = conversation_pages.page (filter (owned_by orgId userId) (cl_docs (ve_conversations V) (fst w))) limit cursor
     in (Inr (map (summary_of V w) items, map_option encodeConversationCursor next_cursor), w))"
proof -
  let ?docs = "cl_docs (ve_conversations V) (fst w)"
  let ?ds = "query conversation_pages.le (conversation_cursor_filter cursor) (Suc limit) (filter (owned_by orgId userId) ?docs)"
  have q: "query (\<lambda>c d. \<not> conversation_before d c) (\<lambda>c. owned_by orgId userId c \<and> conversation_cursor_filter cursor c) (Suc limit) ?docs = ?ds"
    unfolding query_def filter_filter conversation_pages.le_def [abs_def] by (simp add: conj_commute)
  have sub: "d \<in> set ?docs" if "d \<in> set (page_items limit ?ds)" for d
    using page_items_query [OF that] by simp
  have m: "act_map (toConversationSummary V) (page_items limit ?ds) w = (Inr (map (summary_of V w) (page_items limit ?ds)), w)"
    using rest sub by (intro act_map_const) (auto simp: at_rest_def)
  have key: "summary_cursor (summary_of V w c) = conversation_key c" if "c \<in> set ?docs" for c
  proof -
    have "toConversationSummary V c w = (Inr (summary_of V w c), w)" using rest that by (simp add: at_rest_def)
    from summary_fields [OF this] show ?thesis by (simp add: summary_cursor_def conversation_key_def)
  qed
  have last_key: "summary_cursor (last (map (summary_of V w) (page_items limit ?ds))) = conversation_key (last (page_items limit ?ds))"
    if "page_items limit ?ds \<noteq> []"
    using that key [OF sub [OF last_in_set [OF that]]] by (simp add: last_map)
  have f: "cl_find (ve_conversations V) p le n (fst w) = (Inr (query le p n ?docs), fst w)" for p le n
    using rest by (simp add: at_rest_def)
  show ?thesis
    using m last_key
    by (auto simp: listConversationsForOwner_def listOwned_def act_bind_apply on_store_def f q
        conversation_pages.page_def Let_def page_next_def)
qed

text \<open>
  C31. A client that follows the cursors of the conversation list, starting without one, receives the
  owner's conversations exactly once, newest first and those without messages last: its pages are that
  list cut after every \<open>limit\<close> conversations. No page exceeds the limit, none is empty (but the only
  page of an owner without conversations), and the client is through after as many requests as there
  are pages, at most one for each conversation.
\<close>

theorem conversation_listing_complete:
  assumes rest: "at_rest Z V w" and zod: "schema_laws Z" and limit: "0 < limit"
    and unique: "conversation_unique (cl_docs (ve_conversations V) (fst w))"
  shows "let page = \<lambda>c. case conversation_page_request Z V orgId userId limit c w of (Inr p, _) \<Rightarrow> p;
        owned = sort_by (\<lambda>c d. \<not> conversation_before d c)
          (filter (owned_by orgId userId) (cl_docs (ve_conversations V) (fst w)));
        pages = pages_of limit (map (summary_of V w) owned)
    in walk_ends page (length pages) None
     \<and> (\<forall>fuel \<ge> length pages. walk page fuel None = pages)
     \<and> concat pages = map (summary_of V w) owned
     \<and> length pages \<le> max 1 (length owned)
     \<and> (\<forall>p \<in> set pages. length p \<le> limit \<and> (owned \<noteq> [] \<longrightarrow> p \<noteq> []))"
proof -
  let ?docs = "filter (owned_by orgId userId) (cl_docs (ve_conversations V) (fst w))"
  let ?page = "conversation_pages.page ?docs limit"
  let ?ok = "\<lambda>c. \<forall>k. c = Some k \<longrightarrow> decodeConversationCursor Z (encodeConversationCursor k) = Inr k"
  have dist: "distinct (map conversation_key ?docs)"
  proof -
    have "distinct (map cn_conversationId ?docs)" using unique by (simp add: conversation_unique_def distinct_map_filter)
    then have "inj_on cn_conversationId (set ?docs)" "distinct ?docs" by (auto simp: distinct_map)
    then show ?thesis unfolding distinct_map by (auto simp: inj_on_def conversation_key_def js_lit_inject)
  qed
  have ok: "?ok (snd (?page c))" for c
  proof (intro allI impI)
    fix k assume "snd (?page c) = Some k"
    then obtain d where d: "d \<in> set ?docs" "k = conversation_key d"
      using conversation_pages.page_next_in by blast
    have "is_jsstr (js_lit x)" for x
      using js_lit_well_formed [of "js_lit x"] by (simp add: well_formed_def js_lit_def)
    with d rest zod show "decodeConversationCursor Z (encodeConversationCursor k) = Inr k"
      by (intro conversation_cursor_roundtrip) (auto simp: at_rest_def conversation_key_def)
  qed
  let ?req = "\<lambda>c. case conversation_page_request Z V orgId userId limit c w of (Inr p, _) \<Rightarrow> p"
  let ?pages = "pages_of limit (sort_by conversation_pages.le ?docs)"
  have "walk ?req fuel (map_option encodeConversationCursor None) = map (map (summary_of V w)) (walk ?page fuel None)
      \<and> walk_ends ?req fuel (map_option encodeConversationCursor None) = walk_ends ?page fuel None" for fuel
    using ok
    by (intro walk_presented [of ?ok])
      (auto simp: conversation_page_request_def list_page [OF rest] case_prod_beta split: option.split)
  then have run: "walk ?req fuel None = map (map (summary_of V w)) ?pages \<and> walk_ends ?req fuel None"
    if "length ?pages \<le> fuel" for fuel
    using conversation_pages.walk_complete [OF dist limit that] by simp
  let ?owned = "sort_by (\<lambda>c d. \<not> conversation_before d c) ?docs"
  have pages: "map (map (summary_of V w)) ?pages = pages_of limit (map (summary_of V w) ?owned)"
    unfolding conversation_pages.le_def [abs_def] by (rule map_pages_of)
  then have len: "length ?pages = length (pages_of limit (map (summary_of V w) ?owned))" by (metis length_map)
  have "walk_ends ?req (length (pages_of limit (map (summary_of V w) ?owned))) None"
    using run [of "length ?pages"] by (simp only: len order_refl simp_thms)
  moreover have "\<forall>fuel \<ge> length (pages_of limit (map (summary_of V w) ?owned)).
      walk ?req fuel None = pages_of limit (map (summary_of V w) ?owned)"
    using run unfolding pages len by blast
  moreover have "length (pages_of limit (map (summary_of V w) ?owned)) \<le> max 1 (length ?owned)"
    using length_pages_of [of limit "map (summary_of V w) ?owned"] by (simp only: length_map)
  moreover have "\<forall>p \<in> set (pages_of limit (map (summary_of V w) ?owned)). length p \<le> limit \<and> (?owned \<noteq> [] \<longrightarrow> p \<noteq> [])"
    using page_length [OF limit] pages_of_nonempty by (metis list.map_disc_iff)
  ultimately show ?thesis unfolding Let_def concat_pages_of by (intro conjI) simp_all
qed

section \<open>Witnesses\<close>

definition demo_uuid :: "nat \<Rightarrow> string" where
  "demo_uuid n = (if n = 0 then ''00000000-0000-4000-8000-000000000000''
     else if n = 1 then ''00000000-0000-4000-8000-000000000001'' else ''00000000-0000-4000-8000-000000000002'')"

lemma demo_uuid_valid: "uuid_v4 (demo_uuid n)"
proof -
  have "uuid_v4 ''00000000-0000-4000-8000-000000000000''" "uuid_v4 ''00000000-0000-4000-8000-000000000001''"
    "uuid_v4 ''00000000-0000-4000-8000-000000000002''" by code_simp+
  then show ?thesis by (simp add: demo_uuid_def)
qed

definition demo_conversations :: "(Conversation list \<times> nat) conversation_env" where
  "demo_conversations = \<lparr>
     ve_conversations = mem_collection conversation_valid conversation_unique fst (\<lambda>f s. (f (fst s), snd s)),
     ve_encryption = \<lparr>en_crypto = toy_crypto, en_keysJson = None, en_activeVersion = None\<rparr>,
     ve_randomUUID = (\<lambda>s. (demo_uuid (snd s), (fst s, Suc (snd s)))),
     ve_now = (\<lambda>_. 0)\<rparr>"

lemma demo_service_ready: "service_ready \<lparr>en_crypto = toy_crypto, en_keysJson = None, en_activeVersion = None\<rparr> (s, Some toy_keyring)"
  by (auto simp: service_ready_def toy_crypto_laws key_available_def toy_keyring_def is_safe_integer_def
      MAX_SAFE_INTEGER_def KEY_BYTES_def)

lemma toy_encrypt:
  "encrypt toy_crypto toy_keyring t c s = (Inr \<lparr>ep_algorithm = ENCRYPTION_ALGORITHM, ep_ciphertext = base64url_encode (utf8_encode t),
     ep_iv = base64url_encode (replicate 12 0), ep_authTag = base64url_encode (toy_tag (buildAad c)), ep_keyVersion = 1\<rparr>, s)"
  by (simp add: encrypt_def toy_crypto_def toy_keyring_def IV_BYTES_def)

theorem title_stored_encrypted_witness:
  "\<exists>summary w' doc. createConversationForOwner demo_conversations (demo_uuid 1) (demo_uuid 2) (Some (js_lit ''Plan'')) (([], 0), Some toy_keyring)
       = (Inr summary, w') \<and> fst (fst w') = [doc] \<and> cn_title doc = DEFAULT_CONVERSATION_TITLE
     \<and> cn_titleEnc doc \<noteq> None \<and> cs_title summary = js_lit ''Plan''"
proof -
  let ?w = "(([], 0), Some toy_keyring) :: (Conversation list \<times> nat) \<times> EncryptionKeyring option"
  have t: "protectable (js_lit ''Plan'')" "js_lit ''Plan'' \<noteq> DEFAULT_CONVERSATION_TITLE"
    by (simp_all add: protectable_def js_lit_well_formed js_lit_def DEFAULT_CONVERSATION_TITLE_def)
  have e: "ve_encryption demo_conversations = \<lparr>en_crypto = toy_crypto, en_keysJson = None, en_activeVersion = None\<rparr>"
    by (simp add: demo_conversations_def)
  have laws: "collection_laws conversation_valid conversation_unique (ve_conversations demo_conversations)"
    unfolding demo_conversations_def by (simp add: mem_collection_laws)
  obtain p w1 where p: "protect (ve_encryption demo_conversations) (js_lit ''Plan'') (title_context (demo_uuid 1) (demo_uuid 0)) (([], 1), Some toy_keyring) = (Inr p, w1)"
    and w1: "w1 = (([], 1), Some toy_keyring)" and pv: "ep_algorithm p = ENCRYPTION_ALGORITHM" "ep_ciphertext p \<noteq> []" "ep_iv p \<noteq> []" "ep_authTag p \<noteq> []" "ep_keyVersion p = 1"
    by (simp add: protect_ready [of _ toy_keyring] e toy_encrypt toy_tag_def js_lit_def)
  have rev: "reveal (ve_encryption demo_conversations) p (title_context (demo_uuid 1) (demo_uuid 0)) w'' = (Inr (js_lit ''Plan''), w'')"
    if "snd w'' = Some toy_keyring" for w''
    using reveal_protected(1) [OF _ t(1) p, of w''] that by (simp add: e demo_service_ready)
  define doc where "doc = new_conversation (demo_uuid 0) (demo_uuid 1) (demo_uuid 2) (Some p) 0"
  have "conversation_valid doc"
    using pv by (simp add: doc_def new_conversation_def conversation_valid_def demo_uuid_valid DEFAULT_CONVERSATION_TITLE_def is_safe_integer_def MAX_SAFE_INTEGER_def)
  moreover have "conversation_unique [doc]" by (simp add: conversation_unique_def)
  ultimately have c: "cl_create (ve_conversations demo_conversations) [doc] ([], 1) = (Inr (), ([doc], 1))"
    by (simp add: demo_conversations_def mem_collection_def)
  have d: "ve_randomUUID demo_conversations s = (demo_uuid (snd s), (fst s, Suc (snd s)))" "ve_now demo_conversations s = 0" for s
    by (simp_all add: demo_conversations_def)
  obtain summary where sm: "toConversationSummary demo_conversations doc (([doc], 1), Some toy_keyring) = (Inr summary, (([doc], 1), Some toy_keyring))"
    by (simp add: toConversationSummary_def decryptConversationTitle_def act_bind_apply doc_def new_conversation_def rev [simplified])
  have run: "createConversationForOwner demo_conversations (demo_uuid 1) (demo_uuid 2) (Some (js_lit ''Plan'')) ?w
      = (Inr summary, (([doc], 1), Some toy_keyring))"
    using t(2) p w1 c sm
    by (simp add: createConversationForOwner_def act_bind_apply act_then_apply encryptConversationTitle_def on_store_def d doc_def)
  show ?thesis
    using title_stored_encrypted [OF _ laws _ _ t run] run
    by (auto simp: e demo_service_ready) (auto simp: demo_conversations_def mem_collection_def draws_leave_def toy_crypto_def)
qed

definition demo_listing :: "Conversation list" where
  "demo_listing = [new_conversation (demo_uuid 0) (demo_uuid 1) (demo_uuid 2) None 0,
     (new_conversation (demo_uuid 1) (demo_uuid 1) (demo_uuid 2) None 0)\<lparr>cn_lastMessageAt := Some 5\<rparr>]"

definition demo_checks :: schema_checks where
  "demo_checks = \<lparr>sc_uuid = (\<lambda>_. True), sc_datetime = (\<lambda>_. True)\<rparr>"

lemma iso_date_5: "iso_date 5"
proof -
  have "year_up 1970 0 = (1970, 0)" by (subst year_up.simps) (simp add: year_days_def leap_year_def)
  then show ?thesis
    by (simp add: iso_date_def civil_def year_of_days_def DAY_MS_def year_days_def leap_year_def month_lengths_def)
qed

theorem conversation_listing_complete_witness:
  "let page = \<lambda>c. case conversation_page_request demo_checks demo_conversations (demo_uuid 1) (demo_uuid 2) 1 c
       ((demo_listing, 0), None) of (Inr p, _) \<Rightarrow> p
   in walk_ends page 2 None \<and> map (map cs_conversationId) (walk page 3 None) = [[demo_uuid 1], [demo_uuid 0]]"
proof -
  let ?w = "((demo_listing, 0), None) :: (Conversation list \<times> nat) \<times> EncryptionKeyring option"
  have docs: "cl_docs (ve_conversations demo_conversations) (fst ?w) = demo_listing"
    by (simp add: demo_conversations_def mem_collection_def)
  have f: "cl_find (ve_conversations demo_conversations) p le n (fst ?w) = (Inr (query le p n demo_listing), fst ?w)" for p le n
    by (simp add: demo_conversations_def mem_collection_def)
  have s: "toConversationSummary demo_conversations c ?w = (Inr (summary_of demo_conversations ?w c), ?w)
    \<and> cs_conversationId (summary_of demo_conversations ?w c) = cn_conversationId c" if "c \<in> set demo_listing" for c
  proof -
    have "cn_titleEnc c = None" using that by (auto simp: demo_listing_def new_conversation_def)
    then show ?thesis by (simp add: toConversationSummary_def decryptConversationTitle_def act_bind_apply summary_of_def)
  qed
  have i: "\<forall>c \<in> set demo_listing. case cn_lastMessageAt c of None \<Rightarrow> True | Some t \<Rightarrow> iso_date t"
    by (simp add: demo_listing_def new_conversation_def iso_date_5)
  have "at_rest demo_checks demo_conversations ?w"
    unfolding at_rest_def docs using s i f by (simp add: demo_checks_def)
  moreover have "schema_laws demo_checks" by (simp add: schema_laws_def demo_checks_def)
  moreover have "conversation_unique demo_listing"
    by (simp add: conversation_unique_def demo_listing_def new_conversation_def demo_uuid_def)
  moreover have "sort_by (\<lambda>c d. \<not> conversation_before d c) (filter (owned_by (demo_uuid 1) (demo_uuid 2)) demo_listing) = rev demo_listing"
    by (simp add: demo_listing_def owned_by_def new_conversation_def conversation_before_def)
  moreover have "pages_of 1 (map (summary_of demo_conversations ?w) (rev demo_listing))
      = [[summary_of demo_conversations ?w (demo_listing ! 1)], [summary_of demo_conversations ?w (demo_listing ! 0)]]"
    by (simp add: pages_of.simps demo_listing_def)
  ultimately have "let page = \<lambda>c. case conversation_page_request demo_checks demo_conversations (demo_uuid 1) (demo_uuid 2) 1 c ?w of (Inr p, _) \<Rightarrow> p
      in walk_ends page 2 None \<and> walk page 3 None
        = [[summary_of demo_conversations ?w (demo_listing ! 1)], [summary_of demo_conversations ?w (demo_listing ! 0)]]"
    using conversation_listing_complete [of demo_checks demo_conversations ?w 1 "demo_uuid 1" "demo_uuid 2"] docs
    by (simp add: Let_def numeral_2_eq_2 del: walk.simps walk_ends.simps)
  moreover have "cs_conversationId (summary_of demo_conversations ?w (demo_listing ! 1)) = demo_uuid 1"
      "cs_conversationId (summary_of demo_conversations ?w (demo_listing ! 0)) = demo_uuid 0"
    using s [of "demo_listing ! 1"] s [of "demo_listing ! 0"] by (simp_all add: demo_listing_def new_conversation_def)
  ultimately show ?thesis by (simp add: Let_def del: walk.simps walk_ends.simps)
qed
end
