(* ===== verification/ChatController.thy ===== *)
theory ChatController
  imports ChatProperties Conversations
begin

text \<open>
  The streaming endpoint (\<^verbatim>\<open>chat/chat.controller.ts\<close>) with its request schema
  (\<^verbatim>\<open>chat/chat.schema.ts\<close>) and the writer of \<^verbatim>\<open>chat/chat.sse.ts\<close>: validation,
  preparation, the loop over the chunks of the provider, accounting, the terminal event, and the
  \<^verbatim>\<open>catch\<close> block.

  The world of the pipeline is paired with the variables of \<^verbatim>\<open>streamChat\<close> and the response.
  The connection is a parameter. \<^verbatim>\<open>handleDisconnect\<close> runs between two steps of the function,
  while it awaits; \<open>he_disconnected\<close> tells in a world whether it has run. The ghost trace of calls
  is not part of what the connection can change.

  The provider decides when its stream ends, so the loop has fuel; without fuel the function is
  still running and the result is \<open>False\<close>.
\<close>

section \<open>The request\<close>

text \<open>\<^verbatim>\<open>String.prototype.trim\<close>.\<close>

definition js_trim :: "jsstr \<Rightarrow> jsstr" where
  "js_trim s = rev (trimStart (rev (trimStart s)))"

text \<open>\<^verbatim>\<open>chatStreamRequestSchema\<close>: a strict object; the issues of a failed parse are texts of
  the schema library.\<close>

definition plain_text :: "jsstr \<Rightarrow> string" where
  "plain_text s = map char_of s"

definition request_provider :: "json option \<Rightarrow> ProviderId option option" where
  "request_provider v = (case v of None \<Rightarrow> Some None
     | Some (JStr s) \<Rightarrow> if s = js_lit ''groq'' then Some (Some groq) else None
     | _ \<Rightarrow> None)"

definition request_routing :: "json option \<Rightarrow> RoutingMode option" where
  "request_routing v = (case v of None \<Rightarrow> Some auto
     | Some (JStr s) \<Rightarrow> if s = js_lit ''manual'' then Some manual else if s = js_lit ''auto'' then Some auto else None
     | _ \<Rightarrow> None)"

definition request_prompt :: "json \<Rightarrow> jsstr option" where
  "request_prompt v = (case v of
     JStr s \<Rightarrow> if 1 \<le> length (js_trim s) \<and> length (js_trim s) \<le> 20000 then Some (js_trim s) else None
   | _ \<Rightarrow> None)"

definition chatStreamRequestSchema :: "schema_checks \<Rightarrow> json \<Rightarrow> ChatStreamRequest option" where
  "chatStreamRequestSchema Z body =
     (case body of
        JObj ps \<Rightarrow>
          if set (map fst ps) \<subseteq> set (map js_lit [''conversationId'', ''prompt'', ''clientRequestId'', ''providerId'', ''routingMode''])
          then (let field = \<lambda>k. map_of ps (js_lit k)
            in case (Option.bind (field ''conversationId'') (string_field (sc_uuid Z)),
                     Option.bind (field ''prompt'') request_prompt,
                     Option.bind (field ''clientRequestId'') (string_field (sc_uuid Z)),
                     request_provider (field ''providerId''), request_routing (field ''routingMode'')) of
                 (Some c, Some p, Some r, Some provider, Some routing) \<Rightarrow>
                   if routing = manual \<and> provider = None \<or> routing = auto \<and> provider \<noteq> None then None
                   else Some \<lparr>rq_conversationId = plain_text c, rq_prompt = p, rq_clientRequestId = plain_text r,
                              rq_providerId = provider, rq_routingMode = routing\<rparr>
               | _ \<Rightarrow> None)
          else None
      | _ \<Rightarrow> None)"

definition validation_error :: "(string \<times> string) list \<Rightarrow> exn" where
  "validation_error issues = ExnApp \<lparr>ae_statusCode = 400, ae_code = ''VALIDATION_ERROR'',
     ae_message = ''Request validation failed.'', ae_details = FieldErrors issues\<rparr>"

section \<open>The state of the function\<close>

type_synonym sse_event = "ChatSseEventName \<times> (jsstr \<times> json) list"

record 'gen stream_state =
  ct_disconnected :: bool
  ct_accountingStarted :: bool
  ct_firstTokenLogged :: bool
  ct_terminalEventLogged :: bool
  ct_prepared :: "'gen PreparedChatStream option"
  ct_headersSent :: bool
  ct_ended :: bool
  ct_events :: "sse_event list"
  ct_terminalLog :: "(ChatTerminalOutcome \<times> string option) list"

definition stream_start :: "'gen stream_state" where
  "stream_start = \<lparr>ct_disconnected = False, ct_accountingStarted = False, ct_firstTokenLogged = False,
     ct_terminalEventLogged = False, ct_prepared = None, ct_headersSent = False, ct_ended = False, ct_events = [],
     ct_terminalLog = []\<rparr>"

record 's connection =
  he_disconnected :: "'s \<Rightarrow> bool"
  he_shutdown :: "'s \<Rightarrow> bool"
  he_destroyed :: "'s \<Rightarrow> bool"
  he_abort :: "'s \<Rightarrow> 's"
  he_write :: "jsstr \<Rightarrow> 's \<Rightarrow> bool \<times> 's"
  he_wait :: "('s, exn, unit) act"
  he_fraction :: "rat \<Rightarrow> jsstr"

type_synonym ('x, 'gen, 'a) stream_act =
  "(('x chat_world_scheme) \<times> 'gen stream_state, exn, 'a) act"

text \<open>An action of the connection.\<close>

definition net :: "('x chat_world_scheme, exn, 'a) act \<Rightarrow> ('x, 'gen, 'a) stream_act" where
  "net m = on_store (\<lambda>w. case m w of (r, w') \<Rightarrow> (r, w'\<lparr>cw_calls := cw_calls w\<rparr>))"

definition set_stream :: "('gen stream_state \<Rightarrow> 'gen stream_state) \<Rightarrow> ('x, 'gen, unit) stream_act" where
  "set_stream f = act_modify (\<lambda>(w, c). (w, f c))"

definition is_disconnected :: "('x chat_world_scheme) connection \<Rightarrow> 'x chat_world_scheme \<times> 'gen stream_state \<Rightarrow> bool" where
  "is_disconnected H s \<longleftrightarrow> ct_disconnected (snd s) \<or> he_disconnected H (fst s)"

section \<open>Server-sent events\<close>

definition writable :: "('x chat_world_scheme) connection \<Rightarrow> 'x chat_world_scheme \<times> 'gen stream_state \<Rightarrow> bool" where
  "writable H s \<longleftrightarrow> \<not> he_destroyed H (fst s) \<and> \<not> ct_ended (snd s)"

definition startSse :: "('x, 'gen, unit) stream_act" where
  "startSse = set_stream (\<lambda>c. c\<lparr>ct_headersSent := True\<rparr>)"

definition writeSseEvent ::
  "('x chat_world_scheme) connection \<Rightarrow> ChatSseEventName \<Rightarrow> (jsstr \<times> json) list \<Rightarrow> ('x, 'gen, bool) stream_act" where
  "writeSseEvent H event data =
     act_bind (act_read (writable H)) (\<lambda>open.
       if \<not> open then act_ret False
       else act_bind (net (\<lambda>w. case he_write H (sse_frame (he_fraction H) event (JObj data)) w of (ok, w') \<Rightarrow> (Inr ok, w'))) (\<lambda>ok.
         act_then (set_stream (\<lambda>c. c\<lparr>ct_events := ct_events c @ [(event, data)]\<rparr>))
          (if ok then act_ret True
           else act_then (net (he_wait H)) (act_read (writable H)))))"

definition endResponse :: "('x, 'gen, unit) stream_act" where
  "endResponse = set_stream (\<lambda>c. c\<lparr>ct_ended := True\<rparr>)"

definition text_json :: "string \<Rightarrow> json" where
  "text_json s = JStr (js_lit s)"

definition request_started_data :: "'gen PreparedChatStream \<Rightarrow> (jsstr \<times> json) list" where
  "request_started_data p = [(js_lit ''requestId'', text_json (ps_requestId p)),
     (js_lit ''clientRequestId'', text_json (ps_clientRequestId p))]"

definition masked_json :: "'gen PreparedChatStream \<Rightarrow> json" where
  "masked_json p = JBool (pd_action (ps_decision p) = ALLOW_WITH_MASK)"

definition policy_data :: "'gen PreparedChatStream \<Rightarrow> (jsstr \<times> json) list" where
  "policy_data p = [(js_lit ''action'', text_json (action_label (pd_action (ps_decision p)))),
     (js_lit ''riskScore'', JInt (pd_riskScore (ps_decision p))),
     (js_lit ''categories'', JArr (map (\<lambda>c. text_json (pii_category_label c)) (pd_categories (ps_decision p)))),
     (js_lit ''masked'', masked_json p)]"

definition routing_data :: "'gen PreparedChatStream \<Rightarrow> (jsstr \<times> json) list" where
  "routing_data p = [(js_lit ''provider'', text_json (provider_label groq)),
     (js_lit ''routingReason'', text_json (routing_text (ps_routingReason p))),
     (js_lit ''fallbackPosition'', JInt 0)]"

definition token_data :: "jsstr \<Rightarrow> (jsstr \<times> json) list" where
  "token_data t = [(js_lit ''text'', JStr t)]"

definition usage_json :: "TokenUsage \<Rightarrow> json" where
  "usage_json u = JObj [(js_lit ''inputTokens'', JInt (inputTokens u)), (js_lit ''outputTokens'', JInt (outputTokens u)),
     (js_lit ''totalTokens'', JInt (totalTokens u))]"

definition done_data :: "'gen PreparedChatStream \<Rightarrow> TokenUsage option \<Rightarrow> int \<Rightarrow> (jsstr \<times> json) list" where
  "done_data p usage latencyMs = [(js_lit ''requestId'', text_json (ps_requestId p)),
     (js_lit ''provider'', text_json (provider_label groq)), (js_lit ''model'', text_json (ps_model p)),
     (js_lit ''routingReason'', text_json (routing_text (ps_routingReason p)))]
     @ (case usage of None \<Rightarrow> [] | Some u \<Rightarrow> [(js_lit ''usage'', usage_json u)])
     @ [(js_lit ''latencyMs'', JInt latencyMs), (js_lit ''cacheHit'', JBool False), (js_lit ''masked'', masked_json p)]"

definition error_data :: "string \<Rightarrow> (jsstr \<times> json) list" where
  "error_data requestId = [(js_lit ''code'', text_json ''STREAM_INTERRUPTED''),
     (js_lit ''message'', text_json ''The provider response was interrupted.''),
     (js_lit ''requestId'', text_json requestId), (js_lit ''retryable'', JBool True)]"

definition initial_events :: "'gen PreparedChatStream \<Rightarrow> sse_event list" where
  "initial_events p = [(ev_request_started, request_started_data p), (ev_policy, policy_data p), (ev_routing, routing_data p)]"

definition writeInitialEvents ::
  "('x chat_world_scheme) connection \<Rightarrow> 'gen PreparedChatStream \<Rightarrow> ('x, 'gen, unit) stream_act" where
  "writeInitialEvents H p = act_for (initial_events p) (\<lambda>(event, data). act_then (writeSseEvent H event data) (act_ret ()))"

section \<open>Outcome\<close>

fun outcome_of :: "RequestOutcomeStatus \<Rightarrow> ChatTerminalOutcome" where
  "outcome_of st_COMPLETED = out_COMPLETED"
| "outcome_of st_INTERRUPTED = out_INTERRUPTED"
| "outcome_of _ = out_FAILED"

definition logTerminalEvent ::
  "('x chat_world_scheme) chat_env \<Rightarrow> RequestOutcomeStatus \<Rightarrow> string option \<Rightarrow> ('x, 'gen, unit) stream_act" where
  "logTerminalEvent env status errorCode = (\<lambda>(w, c).
     if ct_terminalEventLogged c then (Inr (), (w, c))
     else let c' = c\<lparr>ct_terminalEventLogged := True\<rparr> in
       case ct_prepared c of
         None \<Rightarrow> (Inr (), (w, c'\<lparr>ct_terminalLog := ct_terminalLog c @ [(outcome_of status, errorCode)]\<rparr>))
       | Some p \<Rightarrow>
           (case metrics_finish (ce_hrtime env) (outcome_of status) (ps_metrics p) w of
              (Inl e, w') \<Rightarrow> (Inl e, (w', c'))
            | (Inr m, w') \<Rightarrow> (Inr (), (w', c'\<lparr>ct_prepared := Some (p\<lparr>ps_metrics := m\<rparr>),
                ct_terminalLog := ct_terminalLog c @ [(outcome_of status, errorCode)]\<rparr>))))"

definition observe_first_token ::
  "('x chat_world_scheme) chat_env \<Rightarrow> ('x, 'gen, unit) stream_act" where
  "observe_first_token env = (\<lambda>(w, c).
     case ct_prepared c of
       None \<Rightarrow> (Inr (), (w, c))
     | Some p \<Rightarrow>
         if ct_firstTokenLogged c then (Inr (), (w, c))
         else (case metrics_observeFirstToken (ce_hrtime env) (ps_metrics p) w of
             (m, w') \<Rightarrow> (Inr (), (w', c\<lparr>ct_firstTokenLogged := True, ct_prepared := Some (p\<lparr>ps_metrics := m\<rparr>)\<rparr>))))"

text \<open>\<^verbatim>\<open>accountingStarted = true\<close> and \<^verbatim>\<open>finalizeChatStream\<close>.\<close>

definition account ::
  "('x chat_world_scheme) chat_env \<Rightarrow> ('x chat_world_scheme, 'it, 'gen) ChatPipelineDependencies \<Rightarrow>
   'gen PreparedChatStream \<Rightarrow> FinalOutcome \<Rightarrow> ('x, 'gen, unit) stream_act" where
  "account env D p oc = act_then (set_stream (\<lambda>c. c\<lparr>ct_accountingStarted := True\<rparr>)) (on_store (finalizeChatStream env D p oc))"

definition unfinished :: "RequestOutcomeStatus \<Rightarrow> FinalOutcome" where
  "unfinished status = \<lparr>fo_status = status, fo_usage = None, fo_assistantContent = None\<rparr>"

definition interrupted_status :: "bool \<Rightarrow> RequestOutcomeStatus" where
  "interrupted_status b = (if b then st_INTERRUPTED else st_FAILED)"

section \<open>The stream\<close>

datatype loop_end = loop_completed | loop_left | loop_running

definition complete_stream ::
  "('x chat_world_scheme) chat_env \<Rightarrow> ('x chat_world_scheme) connection \<Rightarrow>
   ('x chat_world_scheme, 'it, 'gen) ChatPipelineDependencies \<Rightarrow> 'gen PreparedChatStream \<Rightarrow>
   TokenUsage option \<Rightarrow> int \<Rightarrow> jsstr \<Rightarrow> ('x, 'gen, loop_end) stream_act" where
  "complete_stream env H D p usage latencyMs content =
     act_then (account env D p \<lparr>fo_status = st_COMPLETED, fo_usage = usage, fo_assistantContent = Some content\<rparr>)
    (act_then (writeSseEvent H ev_done (done_data p usage latencyMs))
    (act_then (logTerminalEvent env st_COMPLETED None)
    (act_then endResponse (act_ret loop_completed))))"

text \<open>What follows the write of a token.\<close>

definition token_written ::
  "('x chat_world_scheme) chat_env \<Rightarrow> ('x chat_world_scheme) connection \<Rightarrow>
   ('x chat_world_scheme, 'it, 'gen) ChatPipelineDependencies \<Rightarrow> 'gen \<Rightarrow>
   (StreamChunk option \<times> 'gen \<Rightarrow> ('x, 'gen, loop_end) stream_act) \<Rightarrow> bool \<Rightarrow> ('x, 'gen, loop_end) stream_act" where
  "token_written env H D gen continue written =
     (if \<not> written then
        act_then (set_stream (\<lambda>c. c\<lparr>ct_disconnected := True\<rparr>))
       (act_then (net (\<lambda>w. (Inr (), he_abort H w))) (act_ret loop_left))
      else
        act_then (observe_first_token env)
       (act_bind (on_store (call DNext (dp_streamNext D gen))) continue))"

fun forward_chunks ::
  "nat \<Rightarrow> ('x chat_world_scheme) chat_env \<Rightarrow> ('x chat_world_scheme) connection \<Rightarrow>
   ('x chat_world_scheme, 'it, 'gen) ChatPipelineDependencies \<Rightarrow> 'gen PreparedChatStream \<Rightarrow>
   StreamChunk option \<Rightarrow> 'gen \<Rightarrow> jsstr \<Rightarrow> ('x, 'gen, loop_end) stream_act" where
  "forward_chunks 0 env H D p chunk gen content = act_ret loop_running"
| "forward_chunks (Suc n) env H D p chunk gen content =
     (case chunk of
        None \<Rightarrow> act_ret loop_left
      | Some (ChunkToken t) \<Rightarrow>
          act_bind (writeSseEvent H ev_token (token_data t))
            (token_written env H D gen (\<lambda>(chunk', gen'). forward_chunks n env H D p chunk' gen' (content @ t)))
      | Some (ChunkDone reason usage latencyMs cost) \<Rightarrow> complete_stream env H D p usage latencyMs content)"

definition interruption_code :: "bool \<Rightarrow> string" where
  "interruption_code b = (if b then ''CLIENT_DISCONNECTED'' else ''STREAM_INTERRUPTED'')"

definition leave_stream ::
  "('x chat_world_scheme) chat_env \<Rightarrow> ('x chat_world_scheme) connection \<Rightarrow>
   ('x chat_world_scheme, 'it, 'gen) ChatPipelineDependencies \<Rightarrow> 'gen PreparedChatStream \<Rightarrow> ('x, 'gen, unit) stream_act" where
  "leave_stream env H D p =
     act_then
      (act_bind (act_read (\<lambda>s. ct_accountingStarted (snd s))) (\<lambda>accounted.
         if accounted then act_ret ()
         else act_bind (act_read (is_disconnected H)) (\<lambda>gone.
              act_then (account env D p (unfinished (interrupted_status gone)))
             (act_bind (act_read (is_disconnected H)) (\<lambda>gone'.
                logTerminalEvent env (interrupted_status gone') (Some (interruption_code gone')))))))
      (act_bind (act_read (is_disconnected H)) (\<lambda>gone.
         if gone then act_ret ()
         else act_then (writeSseEvent H ev_error (error_data (ps_requestId p))) endResponse))"

text \<open>The body of the \<^verbatim>\<open>try\<close> block, from the prepared stream on.\<close>

definition stream_prepared ::
  "nat \<Rightarrow> ('x chat_world_scheme) chat_env \<Rightarrow> ('x chat_world_scheme) connection \<Rightarrow>
   ('x chat_world_scheme, 'it, 'gen) ChatPipelineDependencies \<Rightarrow> 'gen PreparedChatStream \<Rightarrow> ('x, 'gen, bool) stream_act" where
  "stream_prepared n env H D p =
     act_bind (act_read (is_disconnected H)) (\<lambda>gone.
       if gone then
         act_then (account env D p (unfinished st_INTERRUPTED))
        (act_then (logTerminalEvent env st_INTERRUPTED (Some ''CLIENT_DISCONNECTED'')) (act_ret True))
       else
         act_then startSse
        (act_then (writeInitialEvents H p)
        (act_bind (forward_chunks n env H D p (Some (ps_firstChunk p)) (ps_iterator p) []) (\<lambda>left.
           case left of
             loop_completed \<Rightarrow> act_ret True
           | loop_running \<Rightarrow> act_ret False
           | loop_left \<Rightarrow> act_then (leave_stream env H D p) (act_ret True)))))"

definition stream_failed ::
  "('x chat_world_scheme) chat_env \<Rightarrow> ('x chat_world_scheme) connection \<Rightarrow>
   ('x chat_world_scheme, 'it, 'gen) ChatPipelineDependencies \<Rightarrow> string \<Rightarrow> exn \<Rightarrow> ('x, 'gen, bool) stream_act" where
  "stream_failed env H D requestId e =
     act_bind (act_read (\<lambda>s. (he_shutdown H (fst s), is_disconnected H s \<or> he_shutdown H (fst s), snd s)))
      (\<lambda>(serverShutdown, interrupted, c).
        if \<not> ct_headersSent c then act_throw e
        else act_then
          (case ct_prepared c of
             None \<Rightarrow> act_ret ()
           | Some p \<Rightarrow>
               if ct_accountingStarted c then act_ret ()
               else act_catch (account env D p (unfinished (interrupted_status interrupted))) (\<lambda>_. act_ret ()))
         (act_then (logTerminalEvent env (interrupted_status interrupted)
              (Some (if serverShutdown then ''SERVER_SHUTDOWN'' else interruption_code interrupted)))
           (if interrupted then act_ret True
            else act_then (writeSseEvent H ev_error (error_data requestId)) (act_then endResponse (act_ret True)))))"

definition stream_try ::
  "nat \<Rightarrow> ('x chat_world_scheme) chat_env \<Rightarrow> ('x chat_world_scheme) connection \<Rightarrow>
   ('x chat_world_scheme, 'it, 'gen) ChatPipelineDependencies \<Rightarrow> ('x chat_world_scheme) PrepareInput \<Rightarrow>
   ('x, 'gen, bool) stream_act" where
  "stream_try n env H D inp =
     act_catch
       (act_bind (on_store (prepareChatStream env D inp)) (\<lambda>p.
          act_then (set_stream (\<lambda>c. c\<lparr>ct_prepared := Some p\<rparr>)) (stream_prepared n env H D p)))
       (stream_failed env H D (pr_requestId inp))"

text \<open>The handler. The registry of active streams and the listeners that the \<^verbatim>\<open>finally\<close> block
  removes belong to the connection.\<close>

definition streamChat ::
  "nat \<Rightarrow> schema_checks \<Rightarrow> (json \<Rightarrow> (string \<times> string) list) \<Rightarrow> ('x chat_world_scheme) chat_env \<Rightarrow>
   ('x chat_world_scheme) connection \<Rightarrow> ('x chat_world_scheme, 'it, 'gen) ChatPipelineDependencies \<Rightarrow>
   ('x chat_world_scheme \<Rightarrow> bool) \<Rightarrow> AuthContext option \<Rightarrow> string \<Rightarrow> json \<Rightarrow> ('x, 'gen, bool) stream_act" where
  "streamChat n Z issues env H D isAborted auth requestId body =
     (case auth of
        None \<Rightarrow> act_throw (app_exn 401 ''UNAUTHORIZED'' ''Authentication required.'')
      | Some a \<Rightarrow>
          (case chatStreamRequestSchema Z body of
             None \<Rightarrow> act_throw (validation_error (issues body))
           | Some request \<Rightarrow>
               stream_try n env H D \<lparr>pr_auth = a, pr_requestId = requestId, pr_request = request, pr_aborted = isAborted\<rparr>))"

end
