(* ===== verification/ChatStream.thy ===== *)
theory ChatStream
  imports ChatController
begin

text \<open>
  What the streaming endpoint does after the preparation, for every behaviour of the pipeline's
  dependencies and of the connection: it accounts the request exactly once, announces completion
  only after the accounting of a completed stream succeeded, and what it accounted is what it sent.
\<close>

section \<open>Rules\<close>

definition final_input :: "'gen PreparedChatStream \<Rightarrow> RecordInput" where
  "final_input p = \<lparr>ri_requestId = ps_requestId p, ri_orgId = ps_orgId p, ri_userId = ps_userId p,
     ri_model = ps_model p, ri_reservation = ps_reservation p\<rparr>"

definition final_outcome :: "'gen PreparedChatStream \<Rightarrow> FinalOutcome \<Rightarrow> RecordOutcome" where
  "final_outcome p oc = \<lparr>ro_status = fo_status oc,
     ro_policyAction = (if pd_action (ps_decision p) = ALLOW_WITH_MASK then ALLOW_WITH_MASK else ALLOW),
     ro_usage = fo_usage oc,
     ro_messagePersistence = map_option (\<lambda>c. \<lparr>mp_conversationId = ps_conversationId p,
        mp_retentionMode = ps_retentionMode p, mp_userContent = ps_originalUserContent p,
        mp_assistantContent = c\<rparr>) (fo_assistantContent oc)\<rparr>"

lemma finalize_records:
  "finalizeChatStream env D p oc = recordUsageAndComplete env D (final_input p) (final_outcome p oc)"
  by (simp add: finalizeChatStream_def final_input_def final_outcome_def)

lemma final_metrics [simp]:
  "final_input (p\<lparr>ps_metrics := m\<rparr>) = final_input p" "final_outcome (p\<lparr>ps_metrics := m\<rparr>) oc = final_outcome p oc"
  by (simp_all add: final_input_def final_outcome_def)

lemma wp_on_store [wp_simps]: "wp (on_store m) Q (w, c) \<longleftrightarrow> wp m (\<lambda>r w'. Q r (w', c)) w"
  by (simp add: wp_def on_store_def split: prod.split)

lemma wp_set_stream [wp_simps]: "wp (set_stream f) Q (w, c) \<longleftrightarrow> Q (Inr ()) (w, f c)"
  by (simp add: wp_def set_stream_def)

lemma wp_net:
  assumes "\<And>r w'. cw_calls w' = cw_calls w \<Longrightarrow> (\<exists>w''. m w = (r, w'')) \<Longrightarrow> Q r (w', c)"
  shows "wp (net m) Q (w, c)"
  using assms by (auto simp: wp_def net_def on_store_def split: prod.split)

lemma wp_account:
  assumes "\<And>r t now w'. accounted (final_input p) (final_outcome p oc) now r t \<Longrightarrow> cw_calls w' = cw_calls w @ t \<Longrightarrow>
    Q r (w', c\<lparr>ct_accountingStarted := True\<rparr>)"
  shows "wp (account env D p oc) Q (w, c)"
  unfolding account_def wp_then wp_set_stream sum.case wp_on_store finalize_records
  by (rule wp_recordUsageAndComplete) (simp add: assms)

text \<open>A connection that stays open and never fails.\<close>

definition steady :: "('x chat_world_scheme) connection \<Rightarrow> bool" where
  "steady H \<longleftrightarrow> (\<forall>w. \<not> he_disconnected H w \<and> \<not> he_shutdown H w \<and> \<not> he_destroyed H w \<and> (\<exists>w'. he_wait H w = (Inr (), w')))"

lemma wp_writeSseEvent:
  assumes closed: "\<And>w'. cw_calls w' = cw_calls w \<Longrightarrow> (steady H \<longrightarrow> ct_ended c) \<Longrightarrow> Q (Inr False) (w', c)"
    and sent: "\<And>w'. cw_calls w' = cw_calls w \<Longrightarrow> Q (Inr True) (w', c\<lparr>ct_events := ct_events c @ [(event, data)]\<rparr>)"
    and lost: "\<And>r w'. cw_calls w' = cw_calls w \<Longrightarrow> \<not> steady H \<Longrightarrow> r = Inr False \<or> (\<exists>e. r = Inl e) \<Longrightarrow>
      Q r (w', c\<lparr>ct_events := ct_events c @ [(event, data)]\<rparr>)"
  shows "wp (writeSseEvent H event data) Q (w, c)"
proof -
  let ?c = "c\<lparr>ct_events := ct_events c @ [(event, data)]\<rparr>"
  have waited: "wp (act_then (net (he_wait H)) (act_read (writable H))) Q (w1, ?c)"
    if "cw_calls w1 = cw_calls w" "writable H (w, c)" for w1
    unfolding wp_then
  proof (rule wp_net, goal_cases)
    case (1 r w2)
    with that(1) have w2: "cw_calls w2 = cw_calls w" by simp
    show ?case
    proof (cases r)
      case (Inl e)
      have "\<not> steady H"
      proof
        assume "steady H"
        then obtain w' where "he_wait H w1 = (Inr (), w')" unfolding steady_def by blast
        with 1(2) Inl show False by simp
      qed
      with lost [OF w2] Inl show ?thesis by simp
    next
      case (Inr u)
      show ?thesis
      proof (cases "writable H (w2, ?c)")
        case True
        with sent [OF w2] Inr show ?thesis by (simp add: wp_read)
      next
        case False
        with that(2) have "\<not> steady H" by (auto simp: steady_def writable_def)
        with lost [OF w2] Inr False show ?thesis by (simp add: wp_read)
      qed
    qed
  qed
  show ?thesis
  proof (cases "writable H (w, c)")
    case False
    then have "steady H \<longrightarrow> ct_ended c" by (auto simp: steady_def writable_def)
    with closed False show ?thesis by (simp add: writeSseEvent_def wp_simps)
  next
    case True
    have "wp (act_bind (net (\<lambda>w. case he_write H (sse_frame (he_fraction H) event (JObj data)) w of (ok, w') \<Rightarrow> (Inr ok, w'))) (\<lambda>ok.
         act_then (set_stream (\<lambda>c. c\<lparr>ct_events := ct_events c @ [(event, data)]\<rparr>))
          (if ok then act_ret True else act_then (net (he_wait H)) (act_read (writable H))))) Q (w, c)"
      unfolding wp_bind
    proof (rule wp_net, goal_cases)
      case (1 r w1)
      then obtain ok where "r = Inr ok" by (auto split: prod.splits)
      then show ?case using 1(1) sent waited [OF _ True] by (cases ok) (simp_all add: wp_then [of "set_stream f" for f] wp_set_stream wp_ret)
    qed
    with True show ?thesis by (simp add: writeSseEvent_def wp_bind wp_read)
  qed
qed

text \<open>What writing metrics and logging leaves alone.\<close>

definition noted :: "'gen stream_state \<Rightarrow> 'gen stream_state \<Rightarrow> bool" where
  "noted c c' \<longleftrightarrow> ct_events c' = ct_events c \<and> ct_headersSent c' = ct_headersSent c \<and> ct_ended c' = ct_ended c
     \<and> ct_accountingStarted c' = ct_accountingStarted c \<and> ct_disconnected c' = ct_disconnected c
     \<and> (\<forall>p. ct_prepared c = Some p \<longrightarrow> (\<exists>m. ct_prepared c' = Some (p\<lparr>ps_metrics := m\<rparr>)))"

lemma metrics_keep_calls:
  "cw_calls (snd (metrics_finish hr oc m w)) = cw_calls w" "cw_calls (snd (metrics_observeFirstToken hr m w)) = cw_calls w"
  for w :: "'x chat_world_scheme"
  by (auto simp: metrics_finish_def metrics_observeFirstToken_def Let_def log_metric_def split: sum.split option.split)

lemma keep_metrics: "\<exists>m. p = p\<lparr>ps_metrics := m\<rparr>" for p :: "'gen PreparedChatStream"
  by (rule exI [of _ "ps_metrics p"]) simp

lemma wp_logTerminalEvent:
  assumes "\<And>w' c'. cw_calls w' = cw_calls w \<Longrightarrow> noted c c' \<Longrightarrow> Q (Inr ()) (w', c')"
  shows "wp (logTerminalEvent env status code) Q (w, c)"
proof (cases "ct_terminalEventLogged c \<or> ct_prepared c = None")
  case True
  have "noted c c" "\<And>p. noted c (c\<lparr>ct_terminalEventLogged := True, ct_terminalLog := p\<rparr>)"
    by (auto simp: noted_def intro: keep_metrics)
  with assms [of w] True show ?thesis
    by (auto simp: wp_def logTerminalEvent_def Let_def)
next
  case False
  then obtain p where p: "ct_prepared c = Some p" "\<not> ct_terminalEventLogged c" by auto
  obtain m w' where f: "metrics_finish (ce_hrtime env) (outcome_of status) (ps_metrics p) w = (Inr m, w')"
    using metrics_finish_returns [of "ce_hrtime env" "outcome_of status" "ps_metrics p" w] by (metis prod.collapse)
  then have "cw_calls w' = cw_calls w" using metrics_keep_calls(1) [of "ce_hrtime env" "outcome_of status" "ps_metrics p" w] by simp
  moreover have "noted c (c\<lparr>ct_terminalEventLogged := True, ct_prepared := Some (p\<lparr>ps_metrics := m\<rparr>),
      ct_terminalLog := ct_terminalLog c @ [(outcome_of status, code)]\<rparr>)" using p by (auto simp: noted_def)
  ultimately show ?thesis using p f assms by (simp add: wp_def logTerminalEvent_def Let_def)
qed

lemma wp_observe_first_token:
  assumes "\<And>w' c'. cw_calls w' = cw_calls w \<Longrightarrow> noted c c' \<Longrightarrow> Q (Inr ()) (w', c')"
  shows "wp (observe_first_token env) Q (w, c)"
proof (cases "ct_firstTokenLogged c \<or> ct_prepared c = None")
  case True
  have "noted c c" by (auto simp: noted_def intro: keep_metrics)
  with assms [of w c] True show ?thesis by (auto simp: wp_def observe_first_token_def split: option.split)
next
  case False
  then obtain p where p: "ct_prepared c = Some p" "\<not> ct_firstTokenLogged c" by auto
  obtain m w' where f: "metrics_observeFirstToken (ce_hrtime env) (ps_metrics p) w = (m, w')" by (rule prod.exhaust)
  then have "cw_calls w' = cw_calls w" using metrics_keep_calls(2) [of "ce_hrtime env" "ps_metrics p" w] by simp
  moreover have "noted c (c\<lparr>ct_firstTokenLogged := True, ct_prepared := Some (p\<lparr>ps_metrics := m\<rparr>)\<rparr>)"
    using p by (auto simp: noted_def)
  ultimately show ?thesis using p f assms by (simp add: wp_def observe_first_token_def)
qed

section \<open>The two phases of a stream\<close>

definition next_call :: "chat_call \<Rightarrow> bool" where
  "next_call c \<longleftrightarrow> (\<exists>b. c = DNext b)"

definition token_event :: "jsstr \<Rightarrow> sse_event" where
  "token_event t = (ev_token, token_data t)"

definition opened_with :: "('x chat_world_scheme) connection \<Rightarrow> 'gen PreparedChatStream \<Rightarrow> sse_event list \<Rightarrow> bool" where
  "opened_with H p es \<longleftrightarrow> subseq es (initial_events p) \<and> (steady H \<longrightarrow> es = initial_events p)"

definition keeps_prepared :: "'gen PreparedChatStream \<Rightarrow> 'gen stream_state \<Rightarrow> bool" where
  "keeps_prepared p c \<longleftrightarrow> (\<exists>m. ct_prepared c = Some (p\<lparr>ps_metrics := m\<rparr>))"

text \<open>Before the accounting: only chunks were requested, and the events are the initial ones and
  one per token.\<close>

definition ongoing ::
  "('x chat_world_scheme) connection \<Rightarrow> chat_call list \<Rightarrow> 'gen PreparedChatStream \<Rightarrow> jsstr list \<Rightarrow>
   'x chat_world_scheme \<times> 'gen stream_state \<Rightarrow> bool" where
  "ongoing H base p ts = (\<lambda>(w, c). (\<exists>nx es. cw_calls w = base @ nx \<and> list_all next_call nx
      \<and> ct_events c = es @ map token_event ts \<and> opened_with H p es)
     \<and> keeps_prepared p c \<and> ct_headersSent c \<and> \<not> ct_accountingStarted c
     \<and> (steady H \<longrightarrow> \<not> ct_disconnected c \<and> \<not> ct_ended c))"

text \<open>After it: the accounting with its outcome, and the terminal events written so far.\<close>

definition settled_stream ::
  "('x chat_world_scheme) connection \<Rightarrow> chat_call list \<Rightarrow> 'gen PreparedChatStream \<Rightarrow> FinalOutcome \<Rightarrow> exn + unit \<Rightarrow>
   jsstr list \<Rightarrow> sse_event list \<Rightarrow> 'x chat_world_scheme \<times> 'gen stream_state \<Rightarrow> bool" where
  "settled_stream H base p oc r ts term = (\<lambda>(w, c).
     (\<exists>nx t now es. cw_calls w = base @ nx @ t \<and> list_all next_call nx
        \<and> accounted (final_input p) (final_outcome p oc) now r t
        \<and> ct_events c = es @ map token_event ts @ term \<and> (ct_headersSent c \<longrightarrow> opened_with H p es) \<and> (\<not> ct_headersSent c \<longrightarrow> es = []))
     \<and> keeps_prepared p c \<and> ct_accountingStarted c \<and> (steady H \<longrightarrow> \<not> ct_disconnected c \<and> ct_headersSent c)
     \<and> (fo_status oc = st_COMPLETED \<longrightarrow> fo_assistantContent oc = Some (concat ts)))"

text \<open>Completion is announced only after a completed stream was accounted without an error; after a
  terminal event only error events can follow.\<close>

definition announces :: "'gen PreparedChatStream \<Rightarrow> FinalOutcome \<Rightarrow> exn + unit \<Rightarrow> sse_event list \<Rightarrow> bool" where
  "announces p oc r term \<longleftrightarrow> (\<exists>ds es. term = ds @ es \<and> (\<forall>e \<in> set es. \<exists>rid. e = (ev_error, error_data rid))
     \<and> (ds = [] \<or> fo_status oc = st_COMPLETED \<and> r = Inr () \<and> (\<exists>latency. ds = [(ev_done, done_data p (fo_usage oc) latency)])))"

definition finished_stream ::
  "('x chat_world_scheme) connection \<Rightarrow> chat_call list \<Rightarrow> 'gen PreparedChatStream \<Rightarrow>
   'x chat_world_scheme \<times> 'gen stream_state \<Rightarrow> bool" where
  "finished_stream H base p s \<longleftrightarrow> (\<exists>oc r ts term. settled_stream H base p oc r ts term s \<and> announces p oc r term
     \<and> (steady H \<longrightarrow> length term = 1 \<and> ct_ended (snd s)))"

text \<open>Where an exception can leave the stream: before or after the accounting.\<close>

definition halted_stream ::
  "('x chat_world_scheme) connection \<Rightarrow> chat_call list \<Rightarrow> 'gen PreparedChatStream \<Rightarrow>
   'x chat_world_scheme \<times> 'gen stream_state \<Rightarrow> bool" where
  "halted_stream H base p s \<longleftrightarrow> (\<exists>oc r ts term. settled_stream H base p oc r ts term s \<and> announces p oc r term
     \<and> (steady H \<longrightarrow> term = [] \<and> \<not> ct_ended (snd s)))"

definition broken_stream ::
  "('x chat_world_scheme) connection \<Rightarrow> chat_call list \<Rightarrow> 'gen PreparedChatStream \<Rightarrow>
   'x chat_world_scheme \<times> 'gen stream_state \<Rightarrow> bool" where
  "broken_stream H base p s \<longleftrightarrow> (\<exists>ts. ongoing H base p ts s) \<or> halted_stream H base p s"

definition after_failure ::
  "('x chat_world_scheme) connection \<Rightarrow> chat_call list \<Rightarrow> 'gen PreparedChatStream \<Rightarrow> exn + 'a \<Rightarrow>
   'x chat_world_scheme \<times> 'gen stream_state \<Rightarrow> bool" where
  "after_failure H base p r s \<longleftrightarrow> (case r of Inl e \<Rightarrow> \<not> steady H \<and> halted_stream H base p s | Inr _ \<Rightarrow> finished_stream H base p s)"

lemma ongoing_noted: "ongoing H base p ts (w, c) \<Longrightarrow> cw_calls w' = cw_calls w \<Longrightarrow> noted c c' \<Longrightarrow> ongoing H base p ts (w', c')"
  by (fastforce simp: ongoing_def noted_def keeps_prepared_def)

lemma ongoing_next:
  "ongoing H base p ts (w, c) \<Longrightarrow> cw_calls w' = cw_calls w @ [DNext b] \<Longrightarrow> ongoing H base p ts (w', c)"
proof -
  assume o: "ongoing H base p ts (w, c)" and c: "cw_calls w' = cw_calls w @ [DNext b]"
  from o obtain nx es where n: "cw_calls w = base @ nx" "list_all next_call nx" "ct_events c = es @ map token_event ts" "opened_with H p es"
    unfolding ongoing_def by blast
  then have "cw_calls w' = base @ (nx @ [DNext b])" "list_all next_call (nx @ [DNext b])" using c by (simp_all add: next_call_def)
  with o n show ?thesis unfolding ongoing_def by blast
qed

lemma ongoing_token:
  "ongoing H base p ts (w, c) \<Longrightarrow> cw_calls w' = cw_calls w \<Longrightarrow>
   ongoing H base p (ts @ [t]) (w', c\<lparr>ct_events := ct_events c @ [(ev_token, token_data t)]\<rparr>)"
  by (auto simp: ongoing_def token_event_def keeps_prepared_def)

lemma ongoing_settled:
  assumes "ongoing H base p ts (w, c)" and "accounted (final_input p) (final_outcome p oc) now r t"
    and "cw_calls w' = cw_calls w @ t" and "fo_status oc = st_COMPLETED \<longrightarrow> fo_assistantContent oc = Some (concat ts)"
  shows "settled_stream H base p oc r ts [] (w', c\<lparr>ct_accountingStarted := True\<rparr>)"
    and "steady H \<longrightarrow> \<not> ct_ended c"
proof -
  from assms(1) obtain nx es where o: "cw_calls w = base @ nx" "list_all next_call nx" "ct_events c = es @ map token_event ts"
    "opened_with H p es" "keeps_prepared p c" "ct_headersSent c" "steady H \<longrightarrow> \<not> ct_disconnected c \<and> \<not> ct_ended c"
    unfolding ongoing_def by blast
  then have "cw_calls w' = base @ nx @ t" "keeps_prepared p (c\<lparr>ct_accountingStarted := True\<rparr>)"
    using assms(3) by (simp_all add: keeps_prepared_def)
  with o assms(2,4) show "settled_stream H base p oc r ts [] (w', c\<lparr>ct_accountingStarted := True\<rparr>)" "steady H \<longrightarrow> \<not> ct_ended c"
    unfolding settled_stream_def by auto
qed

lemma settled_noted:
  "settled_stream H base p oc r ts term (w, c) \<Longrightarrow> cw_calls w' = cw_calls w \<Longrightarrow> noted c c' \<Longrightarrow>
   settled_stream H base p oc r ts term (w', c')"
  by (fastforce simp: settled_stream_def noted_def keeps_prepared_def)

lemma settled_event:
  "settled_stream H base p oc r ts term (w, c) \<Longrightarrow> cw_calls w' = cw_calls w \<Longrightarrow>
   settled_stream H base p oc r ts (term @ [e]) (w', c\<lparr>ct_events := ct_events c @ [e]\<rparr>)"
  by (auto simp: settled_stream_def keeps_prepared_def)

lemma settled_same: "settled_stream H base p oc r ts term (w, c) \<Longrightarrow> cw_calls w' = cw_calls w \<Longrightarrow> settled_stream H base p oc r ts term (w', c)"
  by (auto simp: settled_stream_def)

lemma settled_end: "settled_stream H base p oc r ts term (w, c) \<Longrightarrow> settled_stream H base p oc r ts term (w, c\<lparr>ct_ended := True\<rparr>)"
  by (auto simp: settled_stream_def keeps_prepared_def)

lemma announces_nil [simp]: "announces p oc r []"
  by (simp add: announces_def)

lemma announces_error: "announces p oc r term \<Longrightarrow> announces p oc r (term @ [(ev_error, error_data rid)])"
proof -
  assume "announces p oc r term"
  then obtain ds es where "term = ds @ es" "\<forall>e \<in> set es. \<exists>rid. e = (ev_error, error_data rid)"
    "ds = [] \<or> fo_status oc = st_COMPLETED \<and> r = Inr () \<and> (\<exists>latency. ds = [(ev_done, done_data p (fo_usage oc) latency)])"
    unfolding announces_def by blast
  then show ?thesis unfolding announces_def by (intro exI [of _ ds] exI [of _ "es @ [(ev_error, error_data rid)]"]) auto
qed

lemma announces_done:
  "fo_status oc = st_COMPLETED \<Longrightarrow> announces p oc (Inr ()) [(ev_done, done_data p (fo_usage oc) latency)]"
  unfolding announces_def by force

section \<open>The stages\<close>

lemma wp_terminal_event:
  fixes w :: "'x chat_world_scheme"
  assumes s: "settled_stream H base p oc r ts term (w, c)" and st: "steady H \<longrightarrow> \<not> ct_ended c"
  shows "wp (writeSseEvent H event data)
    (\<lambda>x s'. \<exists>term'. settled_stream H base p oc r ts term' s' \<and> (term' = term \<or> term' = term @ [(event, data)])
       \<and> (steady H \<longrightarrow> term' = term @ [(event, data)] \<and> x = Inr True \<and> \<not> ct_ended (snd s'))) (w, c)"
proof (rule wp_writeSseEvent)
  fix w' :: "'x chat_world_scheme" assume w': "cw_calls w' = cw_calls w"
  show "\<exists>term'. settled_stream H base p oc r ts term' (w', c) \<and> (term' = term \<or> term' = term @ [(event, data)])
     \<and> (steady H \<longrightarrow> term' = term @ [(event, data)] \<and> (Inr False :: exn + bool) = Inr True \<and> \<not> ct_ended (snd (w', c)))"
    if "steady H \<longrightarrow> ct_ended c"
    using settled_same [OF s w'] st that by blast
qed (use settled_event [OF s] st in fastforce)+

lemma settled_halted: "settled_stream H base p oc r ts [] (w, c) \<Longrightarrow> steady H \<longrightarrow> \<not> ct_ended c \<Longrightarrow> halted_stream H base p (w, c)"
  unfolding halted_stream_def by (metis announces_nil snd_conv)

text \<open>The error event and the end of the response.\<close>

lemma end_ret: "act_then endResponse (act_ret ()) = endResponse"
  by (rule ext) (simp add: endResponse_def set_stream_def act_then_apply split: prod.split)

lemma wp_error_event:
  assumes s: "settled_stream H base p oc r ts term (w, c)" and n: "announces p oc r term"
    and st: "steady H \<longrightarrow> term = [] \<and> \<not> ct_ended c"
  shows "wp (act_then (writeSseEvent H ev_error (error_data rid)) (act_then endResponse (act_ret x))) (after_failure H base p) (w, c)"
  unfolding wp_then
proof (rule wp_mono [OF wp_terminal_event [OF s]])
  show "steady H \<longrightarrow> \<not> ct_ended c" using st by blast
  fix x' :: "exn + bool" and s'
  assume "\<exists>term'. settled_stream H base p oc r ts term' s' \<and> (term' = term \<or> term' = term @ [(ev_error, error_data rid)])
       \<and> (steady H \<longrightarrow> term' = term @ [(ev_error, error_data rid)] \<and> x' = Inr True \<and> \<not> ct_ended (snd s'))"
  then obtain term' w' c' where t: "settled_stream H base p oc r ts term' (w', c')" "announces p oc r term'" "s' = (w', c')"
    "steady H \<longrightarrow> length term' = 1 \<and> x' = Inr True"
    using announces_error [OF n] n st by (metis append_Nil length_Cons list.size(3) One_nat_def prod.collapse)
  then have "finished_stream H base p (w', c'\<lparr>ct_ended := True\<rparr>)"
    unfolding finished_stream_def using settled_end by fastforce
  moreover have "\<not> steady H \<Longrightarrow> halted_stream H base p (w', c')" unfolding halted_stream_def using t(1,2) by blast
  ultimately show "case x' of Inl e \<Rightarrow> after_failure H base p (Inl e) s' | Inr _ \<Rightarrow> wp endResponse (\<lambda>r s'.
      case r of Inl e \<Rightarrow> after_failure H base p (Inl e) s' | Inr _ \<Rightarrow> wp (act_ret x) (after_failure H base p) s') s'"
    using t(3,4) by (cases x') (auto simp: endResponse_def wp_set_stream wp_ret after_failure_def)
qed

lemma wp_cong: "m s = m' s \<Longrightarrow> wp m Q s = wp m' Q s"
  by (simp add: wp_def)

lemma wp_stream_failed:
  assumes b: "broken_stream H base p (w, c)"
  shows "wp (stream_failed env H D requestId e) (after_failure H base p) (w, c)"
proof -
  let ?gone = "is_disconnected H (w, c) \<or> he_shutdown H w"
  have gone: "\<not> steady H" if ?gone
  proof
    assume "steady H"
    moreover have "steady H \<longrightarrow> \<not> ct_disconnected c"
      using b by (auto simp: broken_stream_def ongoing_def halted_stream_def settled_stream_def)
    ultimately show False using that by (auto simp: steady_def is_disconnected_def)
  qed
  have tail: "wp (act_then (logTerminalEvent env st code)
      (if ?gone then act_ret True else act_then (writeSseEvent H ev_error (error_data rid)) (act_then endResponse (act_ret True))))
      (after_failure H base p) (w', c')"
    if s: "settled_stream H base p oc r ts term (w', c')" "announces p oc r term" "steady H \<longrightarrow> term = [] \<and> \<not> ct_ended c'"
    for st code rid w' c' oc r ts "term"
    unfolding wp_then [of "logTerminalEvent env st code"]
  proof (rule wp_logTerminalEvent, unfold sum.case)
    fix w'' :: "'a chat_world_scheme" and c'' assume n: "cw_calls w'' = cw_calls w'" "noted c' c''"
    have s'': "settled_stream H base p oc r ts term (w'', c'')" by (rule settled_noted [OF s(1) n])
    have st'': "steady H \<longrightarrow> term = [] \<and> \<not> ct_ended c''" using s(3) n(2) by (simp add: noted_def)
    show "wp (if ?gone then act_ret True else act_then (writeSseEvent H ev_error (error_data rid)) (act_then endResponse (act_ret True)))
        (after_failure H base p) (w'', c'')"
    proof (cases ?gone)
      case True
      with gone have "finished_stream H base p (w'', c'')" unfolding finished_stream_def using s'' s(2) by blast
      then show ?thesis using True by (simp only: if_True wp_ret after_failure_def sum.case)
    next
      case False
      then show ?thesis using wp_error_event [OF s'' s(2) st''] by (simp only: if_False)
    qed
  qed
  show ?thesis
  proof (cases "ct_headersSent c")
    case False
    with b have h: "halted_stream H base p (w, c)" by (auto simp: broken_stream_def ongoing_def)
    with False have "\<not> steady H" by (auto simp: halted_stream_def settled_stream_def)
    with h False show ?thesis by (simp add: stream_failed_def wp_bind wp_read wp_throw after_failure_def)
  next
    case hs: True
    from b consider ts where "ongoing H base p ts (w, c)" | "halted_stream H base p (w, c)" unfolding broken_stream_def by blast
    then show ?thesis
    proof cases
      case 1
      then obtain m where p: "ct_prepared c = Some (p\<lparr>ps_metrics := m\<rparr>)" "\<not> ct_accountingStarted c"
        by (auto simp: ongoing_def keeps_prepared_def)
      have "wp (act_catch (account env D (p\<lparr>ps_metrics := m\<rparr>) (unfinished (interrupted_status ?gone))) (\<lambda>_. act_ret ()))
          (\<lambda>r s'. case r of Inl e \<Rightarrow> after_failure H base p (Inl e) s'
            | Inr _ \<Rightarrow> wp (act_then (logTerminalEvent env st code)
      (if ?gone then act_ret True else act_then (writeSseEvent H ev_error (error_data rid)) (act_then endResponse (act_ret True))))
      (after_failure H base p) s') (w, c)" for st code rid
        unfolding wp_catch
      proof (rule wp_account, unfold final_metrics)
        fix r t now and w' :: "'a chat_world_scheme"
        assume t: "accounted (final_input p) (final_outcome p (unfinished (interrupted_status ?gone))) now r t" "cw_calls w' = cw_calls w @ t"
        have "fo_status (unfinished (interrupted_status ?gone)) \<noteq> st_COMPLETED" by (simp add: unfinished_def interrupted_status_def)
        then have "settled_stream H base p (unfinished (interrupted_status ?gone)) r ts [] (w', c\<lparr>ct_accountingStarted := True\<rparr>)"
          "steady H \<longrightarrow> \<not> ct_ended c"
          using ongoing_settled [OF 1 t] by blast+
        from tail [OF this(1) announces_nil, of st code rid] this(2)
        show "case r of Inl e \<Rightarrow> wp (act_ret ()) (\<lambda>r s'. case r of Inl e \<Rightarrow> after_failure H base p (Inl e) s'
            | Inr _ \<Rightarrow> wp (act_then (logTerminalEvent env st code)
      (if ?gone then act_ret True else act_then (writeSseEvent H ev_error (error_data rid)) (act_then endResponse (act_ret True))))
      (after_failure H base p) s') (w', c\<lparr>ct_accountingStarted := True\<rparr>)
          | Inr x \<Rightarrow> (case Inr x of Inl e \<Rightarrow> after_failure H base p (Inl e) (w', c\<lparr>ct_accountingStarted := True\<rparr>)
            | Inr _ \<Rightarrow> wp (act_then (logTerminalEvent env st code)
      (if ?gone then act_ret True else act_then (writeSseEvent H ev_error (error_data rid)) (act_then endResponse (act_ret True))))
      (after_failure H base p) (w', c\<lparr>ct_accountingStarted := True\<rparr>))"
          by (cases r) (simp_all add: wp_ret)
      qed
      then have "wp (act_then (act_catch (account env D (p\<lparr>ps_metrics := m\<rparr>) (unfinished (interrupted_status ?gone))) (\<lambda>_. act_ret ()))
          (act_then (logTerminalEvent env (interrupted_status ?gone)
              (Some (if he_shutdown H w then ''SERVER_SHUTDOWN'' else interruption_code ?gone)))
           (if ?gone then act_ret True
            else act_then (writeSseEvent H ev_error (error_data requestId)) (act_then endResponse (act_ret True)))))
        (after_failure H base p) (w, c)"
        unfolding wp_then [of "act_catch m k" for m k] .
      then show ?thesis
        by (subst wp_cong) (use hs p in \<open>simp_all add: stream_failed_def act_bind_apply\<close>)
    next
      case 2
      then obtain oc r ts "term" where s: "settled_stream H base p oc r ts term (w, c)" "announces p oc r term"
          "steady H \<longrightarrow> term = [] \<and> \<not> ct_ended c"
        by (auto simp: halted_stream_def)
      then have "ct_accountingStarted c" by (auto simp: settled_stream_def)
      then have "stream_failed env H D requestId e (w, c)
        = act_then (logTerminalEvent env (interrupted_status ?gone)
              (Some (if he_shutdown H w then ''SERVER_SHUTDOWN'' else interruption_code ?gone)))
           (if ?gone then act_ret True
            else act_then (writeSseEvent H ev_error (error_data requestId)) (act_then endResponse (act_ret True))) (w, c)"
        using hs by (cases "ct_prepared c") (simp_all add: stream_failed_def act_bind_apply act_then_apply [of "act_ret ()"])
      then show ?thesis unfolding wp_def by (simp only: tail [OF s, unfolded wp_def])
    qed
  qed
qed

lemma wp_complete_stream:
  fixes w :: "'x chat_world_scheme"
  assumes o: "ongoing H base p ts (w, c)"
  shows "wp (complete_stream env H D p usage latency (concat ts))
    (\<lambda>r s'. case r of Inl e \<Rightarrow> broken_stream H base p s' | Inr l \<Rightarrow> l = loop_completed \<and> finished_stream H base p s') (w, c)"
  unfolding complete_stream_def wp_then [of "account env D p oc" for oc]
proof (rule wp_account)
  let ?oc = "\<lparr>fo_status = st_COMPLETED, fo_usage = usage, fo_assistantContent = Some (concat ts)\<rparr>"
  let ?P = "\<lambda>r s'. case r of Inl e \<Rightarrow> broken_stream H base p s' | Inr l \<Rightarrow> l = loop_completed \<and> finished_stream H base p s'"
  fix r t now and w' :: "'x chat_world_scheme"
  assume t: "accounted (final_input p) (final_outcome p ?oc) now r t" "cw_calls w' = cw_calls w @ t"
  let ?c = "c\<lparr>ct_accountingStarted := True\<rparr>" and ?ev = "(ev_done, done_data p usage latency)"
  have s: "settled_stream H base p ?oc r ts [] (w', ?c)" and st: "steady H \<longrightarrow> \<not> ct_ended ?c"
    using ongoing_settled [OF o t] by simp_all
  show "case r of Inl e \<Rightarrow> ?P (Inl e) (w', ?c)
    | Inr _ \<Rightarrow> wp (act_then (writeSseEvent H ev_done (done_data p usage latency))
        (act_then (logTerminalEvent env st_COMPLETED None) (act_then endResponse (act_ret loop_completed)))) ?P (w', ?c)"
  proof (cases r)
    case (Inl e)
    with settled_halted [OF s] st show ?thesis by (simp add: broken_stream_def)
  next
    case (Inr u)
    have "wp (act_then (writeSseEvent H ev_done (done_data p usage latency))
        (act_then (logTerminalEvent env st_COMPLETED None) (act_then endResponse (act_ret loop_completed)))) ?P (w', ?c)"
      unfolding wp_then [of "writeSseEvent H e d" for e d]
    proof (rule wp_mono [OF wp_terminal_event [OF s st]])
      fix x :: "exn + bool" and s'
      assume "\<exists>term'. settled_stream H base p ?oc r ts term' s' \<and> (term' = [] \<or> term' = [] @ [?ev])
         \<and> (steady H \<longrightarrow> term' = [] @ [?ev] \<and> x = Inr True \<and> \<not> ct_ended (snd s'))"
      then obtain term' w2 c2 where t: "settled_stream H base p ?oc r ts term' (w2, c2)" "s' = (w2, c2)"
        "term' = [] \<or> term' = [?ev]" "steady H \<longrightarrow> term' = [?ev] \<and> x = Inr True \<and> \<not> ct_ended c2"
        by (cases s') auto
      have n: "announces p ?oc r term'" using t(3) announces_done [of ?oc p latency] Inr by (auto simp: unit_eq)
      show "case x of Inl e \<Rightarrow> ?P (Inl e) s' | Inr _ \<Rightarrow>
        wp (act_then (logTerminalEvent env st_COMPLETED None) (act_then endResponse (act_ret loop_completed))) ?P s'"
      proof (cases x)
        case (Inl e)
        with t n have "halted_stream H base p s'" unfolding halted_stream_def by blast
        with Inl show ?thesis by (simp add: broken_stream_def)
      next
        case (Inr b)
        have "finished_stream H base p (w3, c3\<lparr>ct_ended := True\<rparr>)" if "cw_calls w3 = cw_calls w2" "noted c2 c3" for w3 c3
          unfolding finished_stream_def using settled_end [OF settled_noted [OF t(1) that]] n t(4) by fastforce
        then show ?thesis unfolding t(2) Inr sum.case wp_then [of "logTerminalEvent env st_COMPLETED None"]
          by (intro wp_logTerminalEvent) (simp add: endResponse_def wp_then wp_set_stream wp_ret)
      qed
    qed
    with Inr show ?thesis by simp
  qed
qed

definition chunks_end ::
  "('x chat_world_scheme) connection \<Rightarrow> chat_call list \<Rightarrow> 'gen PreparedChatStream \<Rightarrow> exn + loop_end \<Rightarrow>
   'x chat_world_scheme \<times> 'gen stream_state \<Rightarrow> bool" where
  "chunks_end H base p r s \<longleftrightarrow> (case r of Inl e \<Rightarrow> broken_stream H base p s
     | Inr loop_completed \<Rightarrow> finished_stream H base p s
     | Inr loop_left \<Rightarrow> (\<exists>ts. ongoing H base p ts s)
     | Inr loop_running \<Rightarrow> True)"

lemma ongoing_abort:
  "ongoing H base p ts (w, c) \<Longrightarrow> \<not> steady H \<Longrightarrow> cw_calls w' = cw_calls w \<Longrightarrow>
   ongoing H base p ts (w', c\<lparr>ct_disconnected := True\<rparr>)"
  by (auto simp: ongoing_def keeps_prepared_def)

lemma ongoing_same: "ongoing H base p ts (w, c) \<Longrightarrow> cw_calls w' = cw_calls w \<Longrightarrow> ongoing H base p ts (w', c)"
  by (auto simp: ongoing_def)

lemma wp_forward_chunks:
  fixes w :: "'x chat_world_scheme"
  assumes "ongoing H base p ts (w, c)"
  shows "wp (forward_chunks n env H D p chunk gen (concat ts)) (chunks_end H base p) (w, c)"
  using assms
proof (induction n arbitrary: ts w c chunk gen)
  case 0
  show ?case by (simp add: wp_def chunks_end_def)
next
  case (Suc n)
  show ?case
  proof (cases chunk)
    case None
    with Suc.prems show ?thesis by (auto simp: wp_def chunks_end_def)
  next
    case (Some ch)
    show ?thesis
    proof (cases ch)
      case (ChunkDone reason usage latency cost)
      have "wp (complete_stream env H D p usage latency (concat ts)) (chunks_end H base p) (w, c)"
        by (rule wp_mono [OF wp_complete_stream [OF Suc.prems]]) (auto simp: chunks_end_def split: sum.splits)
      with Some ChunkDone show ?thesis by simp
    next
      case (ChunkToken t)
      let ?k = "\<lambda>(chunk', gen'). forward_chunks n env H D p chunk' gen' (concat ts @ t)"
      have left: "wp (token_written env H D gen ?k False) (chunks_end H base p) (w1, c1)"
        if "ongoing H base p ts1 (w1, c1)" "\<not> steady H" for w1 :: "'x chat_world_scheme" and c1 ts1
        unfolding token_written_def not_False_eq_True if_True wp_then wp_set_stream sum.case
      proof (rule wp_net, unfold wp_ret, goal_cases)
        case (1 r w')
        from 1 ongoing_abort [OF that 1(1)] show ?case by (auto simp: chunks_end_def wp_ret)
      qed
      have more: "wp (token_written env H D gen ?k True) (chunks_end H base p) (w1, c1)"
        if o: "ongoing H base p (ts @ [t]) (w1, c1)" for w1 :: "'x chat_world_scheme" and c1
        unfolding token_written_def not_True_eq_False if_False wp_then
      proof (rule wp_observe_first_token, unfold sum.case wp_bind wp_on_store, rule wp_call)
        fix w2 w3 :: "'x chat_world_scheme" and c2 e x
        assume n: "cw_calls w2 = cw_calls w1" "noted c1 c2"
        note o2 = ongoing_next [OF ongoing_noted [OF o n]]
        show "case Inl e of Inl e \<Rightarrow> chunks_end H base p (Inl e) (w3, c2) | Inr x \<Rightarrow> wp (?k x) (chunks_end H base p) (w3, c2)"
          if "cw_calls w3 = cw_calls w2 @ [DNext False]"
          using o2 [OF that] by (auto simp: chunks_end_def broken_stream_def)
        show "case Inr x of Inl e \<Rightarrow> chunks_end H base p (Inl e) (w3, c2) | Inr x \<Rightarrow> wp (?k x) (chunks_end H base p) (w3, c2)"
          if "cw_calls w3 = cw_calls w2 @ [DNext True]"
          using Suc.IH [OF o2 [OF that]] by (simp split: prod.split)
      qed
      have "wp (act_bind (writeSseEvent H ev_token (token_data t)) (token_written env H D gen ?k)) (chunks_end H base p) (w, c)"
        unfolding wp_bind
      proof (rule wp_writeSseEvent, unfold sum.case)
        fix w' :: "'x chat_world_scheme" assume w': "cw_calls w' = cw_calls w"
        note o = ongoing_token [OF Suc.prems w', of t]
        show "wp (token_written env H D gen ?k False) (chunks_end H base p) (w', c)" if "steady H \<longrightarrow> ct_ended c"
          using left [OF ongoing_same [OF Suc.prems w']] that Suc.prems by (auto simp: ongoing_def)
        show "wp (token_written env H D gen ?k True) (chunks_end H base p) (w', c\<lparr>ct_events := ct_events c @ [(ev_token, token_data t)]\<rparr>)"
          by (rule more [OF o])
        show "case r of Inl e \<Rightarrow> chunks_end H base p (Inl e) (w', c\<lparr>ct_events := ct_events c @ [(ev_token, token_data t)]\<rparr>)
          | Inr x \<Rightarrow> wp (token_written env H D gen ?k x) (chunks_end H base p) (w', c\<lparr>ct_events := ct_events c @ [(ev_token, token_data t)]\<rparr>)"
          if "\<not> steady H" "r = Inr False \<or> (\<exists>e. r = Inl e)" for r
          using that(2) left [OF o that(1)] o by (auto simp: chunks_end_def broken_stream_def)
      qed
      with Some ChunkToken show ?thesis by simp
    qed
  qed
qed

lemma wp_leave_stream:
  fixes w :: "'x chat_world_scheme"
  assumes o: "ongoing H base p ts (w, c)"
  shows "wp (leave_stream env H D p) (\<lambda>r s'. case r of Inl e \<Rightarrow> broken_stream H base p s' | Inr _ \<Rightarrow> finished_stream H base p s') (w, c)"
proof -
  let ?P = "\<lambda>(r :: exn + unit) s'. case r of Inl e \<Rightarrow> broken_stream H base p s' | Inr _ \<Rightarrow> finished_stream H base p s'"
  let ?last = "act_bind (act_read (is_disconnected H)) (\<lambda>gone. if gone then act_ret ()
     else act_then (writeSseEvent H ev_error (error_data (ps_requestId p))) endResponse)"
  have last: "wp ?last ?P (w', c')"
    if s: "settled_stream H base p oc r ts [] (w', c')" "steady H \<longrightarrow> \<not> ct_ended c'" for w' :: "'x chat_world_scheme" and c' oc r
  proof (cases "is_disconnected H (w', c')")
    case True
    have "\<not> steady H" using True s(1) by (auto simp: is_disconnected_def steady_def settled_stream_def)
    then have "finished_stream H base p (w', c')" unfolding finished_stream_def using s(1) announces_nil by blast
    with True show ?thesis by (simp add: wp_bind wp_read wp_ret)
  next
    case False
    have "wp (act_then (writeSseEvent H ev_error (error_data (ps_requestId p))) (act_then endResponse (act_ret ()))) (after_failure H base p) (w', c')"
      by (rule wp_error_event [OF s(1) announces_nil]) (use s(2) in simp)
    then have "wp (act_then (writeSseEvent H ev_error (error_data (ps_requestId p))) endResponse) ?P (w', c')"
      unfolding end_ret by (rule wp_mono) (auto simp: after_failure_def broken_stream_def split: sum.splits)
    with False show ?thesis by (simp add: wp_bind wp_read)
  qed
  have acc: "\<not> ct_accountingStarted c" using o by (simp add: ongoing_def)
  have "wp (act_then (account env D p (unfinished (interrupted_status g)))
       (act_bind (act_read (is_disconnected H)) (\<lambda>gone'. logTerminalEvent env (interrupted_status gone') (Some (interruption_code gone')))))
       (\<lambda>r s'. case r of Inl e \<Rightarrow> ?P (Inl e) s' | Inr _ \<Rightarrow> wp ?last ?P s') (w, c)" for g
    unfolding wp_then [of "account env D p oc" for oc]
  proof (rule wp_account)
    fix r t now and w' :: "'x chat_world_scheme"
    assume t: "accounted (final_input p) (final_outcome p (unfinished (interrupted_status g))) now r t" "cw_calls w' = cw_calls w @ t"
    let ?c = "c\<lparr>ct_accountingStarted := True\<rparr>"
    have "fo_status (unfinished (interrupted_status g)) \<noteq> st_COMPLETED" by (simp add: unfinished_def interrupted_status_def)
    then have s: "settled_stream H base p (unfinished (interrupted_status g)) r ts [] (w', ?c)" and st: "steady H \<longrightarrow> \<not> ct_ended ?c"
      using ongoing_settled [OF o t] by simp_all
    have log: "wp (act_bind (act_read (is_disconnected H)) (\<lambda>gone'. logTerminalEvent env (interrupted_status gone') (Some (interruption_code gone'))))
        (\<lambda>r s'. case r of Inl e \<Rightarrow> ?P (Inl e) s' | Inr _ \<Rightarrow> wp ?last ?P s') (w', ?c)"
      unfolding wp_bind [where k = "\<lambda>gone'. logTerminalEvent env (interrupted_status gone') (Some (interruption_code gone'))"]
        wp_read sum.case
    proof (rule wp_logTerminalEvent, unfold sum.case)
      fix w2 :: "'x chat_world_scheme" and c2 assume n: "cw_calls w2 = cw_calls w'" "noted ?c c2"
      show "wp ?last ?P (w2, c2)" by (rule last [OF settled_noted [OF s n]]) (use st n(2) in \<open>simp add: noted_def\<close>)
    qed
    show "case r of Inl e \<Rightarrow> case Inl e of Inl e \<Rightarrow> ?P (Inl e) (w', ?c) | Inr _ \<Rightarrow> wp ?last ?P (w', ?c)
      | Inr x \<Rightarrow> wp (act_bind (act_read (is_disconnected H)) (\<lambda>gone'. logTerminalEvent env (interrupted_status gone') (Some (interruption_code gone'))))
        (\<lambda>r s'. case r of Inl e \<Rightarrow> ?P (Inl e) s' | Inr _ \<Rightarrow> wp ?last ?P s') (w', ?c)"
    proof (cases r)
      case (Inl e)
      with settled_halted [OF s st] show ?thesis by (simp add: broken_stream_def)
    next
      case (Inr u)
      with log show ?thesis by (simp only: sum.case)
    qed
  qed
  then have "wp (act_then (act_then (account env D p (unfinished (interrupted_status (is_disconnected H (w, c)))))
       (act_bind (act_read (is_disconnected H)) (\<lambda>gone'. logTerminalEvent env (interrupted_status gone') (Some (interruption_code gone')))))
       ?last) ?P (w, c)"
    unfolding wp_then [of "act_then m k" for m k] .
  moreover have "leave_stream env H D p (w, c) = act_then (act_then (account env D p (unfinished (interrupted_status (is_disconnected H (w, c)))))
       (act_bind (act_read (is_disconnected H)) (\<lambda>gone'. logTerminalEvent env (interrupted_status gone') (Some (interruption_code gone')))))
       ?last (w, c)"
    using acc unfolding leave_stream_def act_then_apply act_bind_apply act_read_apply prod.case sum.case snd_conv by simp
  ultimately show ?thesis unfolding wp_def by simp
qed

section \<open>The whole stream\<close>

definition initiating ::
  "('x chat_world_scheme) connection \<Rightarrow> chat_call list \<Rightarrow> 'gen PreparedChatStream \<Rightarrow> sse_event list \<Rightarrow>
   'x chat_world_scheme \<times> 'gen stream_state \<Rightarrow> bool" where
  "initiating H base p evs = (\<lambda>(w, c). cw_calls w = base \<and> subseq (ct_events c) evs \<and> (steady H \<longrightarrow> ct_events c = evs)
     \<and> keeps_prepared p c \<and> ct_headersSent c \<and> \<not> ct_accountingStarted c
     \<and> (steady H \<longrightarrow> \<not> ct_disconnected c \<and> \<not> ct_ended c))"

lemma initiating_ongoing:
  "initiating H base p evs s \<Longrightarrow> initial_events p = evs @ rest \<Longrightarrow> steady H \<longrightarrow> rest = [] \<Longrightarrow> ongoing H base p [] s"
  by (cases s) (auto simp: initiating_def ongoing_def opened_with_def intro: subseq_order.order_trans intro!: exI [of _ "[]"])

lemma subseq_snoc: "subseq xs ys \<Longrightarrow> subseq (xs @ [z]) (ys @ [z])" "subseq xs ys \<Longrightarrow> subseq xs (ys @ [z])"
  by (simp_all add: list_emb_prefix)

lemma wp_initial_events:
  fixes w :: "'x chat_world_scheme"
  assumes "initiating H base p done (w, c)" and "initial_events p = done @ evs"
  shows "wp (act_for evs (\<lambda>(event, data). act_then (writeSseEvent H event data) (act_ret ())))
    (\<lambda>r s'. case r of Inl e \<Rightarrow> broken_stream H base p s' | Inr _ \<Rightarrow> ongoing H base p [] s') (w, c)"
  using assms
proof (induction evs arbitrary: "done" w c)
  case Nil
  then show ?case using initiating_ongoing [OF Nil(1)] by (auto simp: wp_def)
next
  case (Cons ev evs)
  obtain event data where ev: "ev = (event, data)" by (rule prod.exhaust)
  let ?Q = "\<lambda>(r :: exn + unit) s'. case r of Inl e \<Rightarrow> broken_stream H base p s' | Inr _ \<Rightarrow> ongoing H base p [] s'"
  let ?c = "c\<lparr>ct_events := ct_events c @ [(event, data)]\<rparr>"
  have app: "initial_events p = (done @ [(event, data)]) @ evs" using Cons.prems(2) ev by simp
  have sent: "initiating H base p (done @ [(event, data)]) (w', ?c)" if "cw_calls w' = cw_calls w" for w' :: "'x chat_world_scheme"
    using Cons.prems(1) that by (auto simp: initiating_def keeps_prepared_def)
  have skipped: "initiating H base p (done @ [(event, data)]) (w', c)" if "cw_calls w' = cw_calls w" "\<not> steady H" for w' :: "'x chat_world_scheme"
    using Cons.prems(1) that by (auto simp: initiating_def intro: subseq_snoc)
  have "wp (writeSseEvent H event data) (\<lambda>r s'. case r of Inl e \<Rightarrow> broken_stream H base p s'
      | Inr _ \<Rightarrow> wp (act_for evs (\<lambda>(event, data). act_then (writeSseEvent H event data) (act_ret ()))) ?Q s') (w, c)"
  proof (rule wp_writeSseEvent, unfold sum.case)
    fix w' :: "'x chat_world_scheme" assume w': "cw_calls w' = cw_calls w"
    show "wp (act_for evs (\<lambda>(event, data). act_then (writeSseEvent H event data) (act_ret ()))) ?Q (w', c)" if "steady H \<longrightarrow> ct_ended c"
    proof -
      have "\<not> steady H" using that Cons.prems(1) by (auto simp: initiating_def)
      from Cons.IH [OF skipped [OF w' this] app] show ?thesis .
    qed
    show "wp (act_for evs (\<lambda>(event, data). act_then (writeSseEvent H event data) (act_ret ()))) ?Q (w', ?c)"
      by (rule Cons.IH [OF sent [OF w'] app])
    show "case r of Inl e \<Rightarrow> broken_stream H base p (w', ?c)
      | Inr _ \<Rightarrow> wp (act_for evs (\<lambda>(event, data). act_then (writeSseEvent H event data) (act_ret ()))) ?Q (w', ?c)"
      if "\<not> steady H" for r :: "exn + bool"
    proof (cases r)
      case (Inl e)
      then show ?thesis using initiating_ongoing [OF sent [OF w'] app] that by (auto simp: broken_stream_def)
    next
      case (Inr b)
      then show ?thesis using Cons.IH [OF sent [OF w'] app] by (simp only: sum.case)
    qed
  qed
  then have "wp (act_then (writeSseEvent H event data) (act_ret ()))
     (\<lambda>r s'. case r of Inl e \<Rightarrow> ?Q (Inl e) s' | Inr _ \<Rightarrow> wp (act_for evs (\<lambda>(event, data). act_then (writeSseEvent H event data) (act_ret ()))) ?Q s') (w, c)"
    unfolding wp_then [of "writeSseEvent H event data"]
  proof (rule wp_mono, goal_cases)
    case (1 r s')
    then show ?case by (cases r) (simp_all only: sum.case wp_ret)
  qed
  then show ?case unfolding ev act_for.simps prod.case wp_then [of "act_then m k" for m k] .
qed

definition prepared_start :: "'gen PreparedChatStream \<Rightarrow> 'gen stream_state \<Rightarrow> bool" where
  "prepared_start p c \<longleftrightarrow> c = stream_start\<lparr>ct_prepared := Some p\<rparr>"

lemma wp_stream_prepared:
  fixes w :: "'x chat_world_scheme"
  assumes c: "prepared_start p c"
  shows "wp (stream_prepared n env H D p)
    (\<lambda>r s'. case r of Inl e \<Rightarrow> broken_stream H (cw_calls w) p s' | Inr b \<Rightarrow> b \<longrightarrow> finished_stream H (cw_calls w) p s') (w, c)"
proof -
  let ?base = "cw_calls w" and ?Q = "\<lambda>(r :: exn + bool) s'. case r of Inl e \<Rightarrow> broken_stream H (cw_calls w) p s' | Inr b \<Rightarrow> b \<longrightarrow> finished_stream H (cw_calls w) p s'"
  have fields: "keeps_prepared p c" "ct_events c = []" "\<not> ct_headersSent c" "\<not> ct_accountingStarted c" "\<not> ct_ended c" "\<not> ct_disconnected c"
    using c keep_metrics [of p] by (simp_all add: prepared_start_def stream_start_def keeps_prepared_def)
  show ?thesis
  proof (cases "is_disconnected H (w, c)")
    case True
    then have ns: "\<not> steady H" using fields(6) by (auto simp: is_disconnected_def steady_def)
    have "wp (act_then (account env D p (unfinished st_INTERRUPTED))
        (act_then (logTerminalEvent env st_INTERRUPTED (Some ''CLIENT_DISCONNECTED'')) (act_ret True))) ?Q (w, c)"
      unfolding wp_then [of "account env D p oc" for oc]
    proof (rule wp_account)
      fix r t now and w' :: "'x chat_world_scheme"
      assume t: "accounted (final_input p) (final_outcome p (unfinished st_INTERRUPTED)) now r t" "cw_calls w' = cw_calls w @ t"
      let ?c = "c\<lparr>ct_accountingStarted := True\<rparr>"
      have s: "settled_stream H ?base p (unfinished st_INTERRUPTED) r [] [] (w', ?c)"
        using t fields ns by (force simp: settled_stream_def keeps_prepared_def unfinished_def intro: exI [of _ "[]"])
      have fin: "finished_stream H ?base p (w2, c2)" if "cw_calls w2 = cw_calls w'" "noted ?c c2" for w2 :: "'x chat_world_scheme" and c2
        unfolding finished_stream_def using settled_noted [OF s that] ns announces_nil by blast
      have halt: "halted_stream H ?base p (w', ?c)" by (rule settled_halted [OF s]) (use ns in simp)
      show "case r of Inl e \<Rightarrow> ?Q (Inl e) (w', ?c)
        | Inr _ \<Rightarrow> wp (act_then (logTerminalEvent env st_INTERRUPTED (Some ''CLIENT_DISCONNECTED'')) (act_ret True)) ?Q (w', ?c)"
        by (cases r) (auto simp: broken_stream_def halt wp_then wp_ret fin intro!: wp_logTerminalEvent)
    qed
    with True show ?thesis by (simp add: stream_prepared_def wp_bind wp_read)
  next
    case False
    let ?c = "c\<lparr>ct_headersSent := True\<rparr>"
    have init: "initiating H ?base p [] (w, ?c)"
      using fields by (auto simp: initiating_def keeps_prepared_def)
    let ?rest = "act_bind (forward_chunks n env H D p (Some (ps_firstChunk p)) (ps_iterator p) []) (\<lambda>left.
           case left of loop_completed \<Rightarrow> act_ret True | loop_running \<Rightarrow> act_ret False
           | loop_left \<Rightarrow> act_then (leave_stream env H D p) (act_ret True))"
    have left: "wp (act_then (leave_stream env H D p) (act_ret True)) ?Q (w1, c1)"
      if "ongoing H ?base p ts (w1, c1)" for w1 :: "'x chat_world_scheme" and c1 ts
      unfolding wp_then by (rule wp_mono [OF wp_leave_stream [OF that]]) (auto simp: wp_ret split: sum.splits)
    have rest: "wp ?rest ?Q (w1, c1)" if "ongoing H ?base p [] (w1, c1)" for w1 :: "'x chat_world_scheme" and c1
      unfolding wp_bind
    proof (rule wp_mono [OF wp_forward_chunks [OF that, unfolded concat.simps]])
      fix r and s' :: "'x chat_world_scheme \<times> 'a stream_state"
      assume e: "chunks_end H ?base p r s'"
      show "case r of Inl e \<Rightarrow> ?Q (Inl e) s' | Inr l \<Rightarrow> wp (case l of loop_completed \<Rightarrow> act_ret True
          | loop_left \<Rightarrow> act_then (leave_stream env H D p) (act_ret True) | loop_running \<Rightarrow> act_ret False) ?Q s'"
      proof (cases r)
        case (Inr l)
        with e left show ?thesis by (cases s'; cases l) (auto simp: chunks_end_def wp_ret simp del: split_paired_All)
      qed (use e in \<open>simp add: chunks_end_def\<close>)
    qed
    have "wp (act_then (writeInitialEvents H p) ?rest) ?Q (w, ?c)"
      unfolding wp_then writeInitialEvents_def
    proof (rule wp_mono [OF wp_initial_events [OF init]])
      fix r :: "exn + unit" and s' :: "'x chat_world_scheme \<times> 'a stream_state"
      assume e: "case r of Inl e \<Rightarrow> broken_stream H ?base p s' | Inr _ \<Rightarrow> ongoing H ?base p [] s'"
      show "case r of Inl e \<Rightarrow> ?Q (Inl e) s' | Inr _ \<Rightarrow> wp ?rest ?Q s'"
      proof (cases r)
        case (Inr u)
        with e rest show ?thesis by (cases s') (simp only: sum.case)
      qed (use e in simp)
    qed simp
    with False show ?thesis
      by (simp only: stream_prepared_def wp_bind [of "act_read f" for f] wp_read sum.case if_False
          startSse_def wp_then [of "set_stream f" for f] wp_set_stream)
  qed
qed

lemma stream_try_run:
  fixes w w1 :: "'x chat_world_scheme"
  assumes p: "prepareChatStream env D inp w = (Inr p, w1)" and run: "stream_try n env H D inp (w, stream_start) = (r, s')"
  shows "r = Inr False \<or> after_failure H (cw_calls w1) p r s'"
proof -
  let ?R = "\<lambda>r s'. r = Inr False \<or> after_failure H (cw_calls w1) p r s'"
  let ?c = "stream_start\<lparr>ct_prepared := Some p\<rparr>"
  have "wp (stream_prepared n env H D p)
      (\<lambda>r s'. case r of Inl e \<Rightarrow> wp (stream_failed env H D (pr_requestId inp) e) ?R s' | Inr b \<Rightarrow> ?R (Inr b) s') (w1, ?c)"
  proof (rule wp_mono [OF wp_stream_prepared])
    show "prepared_start p ?c" by (simp add: prepared_start_def)
    fix r :: "exn + bool" and s' :: "'x chat_world_scheme \<times> 'a stream_state"
    assume e: "case r of Inl e \<Rightarrow> broken_stream H (cw_calls w1) p s' | Inr b \<Rightarrow> b \<longrightarrow> finished_stream H (cw_calls w1) p s'"
    obtain w' c' where s': "s' = (w', c')" by (rule prod.exhaust)
    show "case r of Inl e \<Rightarrow> wp (stream_failed env H D (pr_requestId inp) e) ?R s' | Inr b \<Rightarrow> ?R (Inr b) s'"
    proof (cases r)
      case (Inl x)
      with e have "broken_stream H (cw_calls w1) p (w', c')" by (simp add: s')
      from wp_mono [OF wp_stream_failed [OF this], of ?R env D "pr_requestId inp" x] show ?thesis by (simp add: Inl s')
    next
      case (Inr b)
      with e show ?thesis by (cases b) (simp_all add: after_failure_def)
    qed
  qed
  then have "wp (stream_try n env H D inp) ?R (w, stream_start)"
    unfolding stream_try_def wp_catch wp_bind wp_on_store wp_then wp_set_stream
    by (simp add: wp_def [of "prepareChatStream env D inp"] p wp_set_stream)
  with run show ?thesis by (simp add: wp_def)
qed

end
