(* ===== verification/ChatEndpoint.thy ===== *)
theory ChatEndpoint
  imports ChatStream
begin

text \<open>
  The properties of the streaming endpoint: accounting exactly once, honest completion, a terminal
  event for every connected client, and termination.
\<close>

section \<open>The properties of the endpoint\<close>

lemma stream_settled:
  assumes "prepareChatStream env D inp w = (Inr p, w1)" and "stream_try n env H D inp (w, stream_start) = (r, s')"
    and "r \<noteq> Inr False"
  obtains oc ru ts "term" where "settled_stream H (cw_calls w1) p oc ru ts term s'" and "announces p oc ru term"
    and "steady H \<longrightarrow> r = Inr True \<and> length term = 1 \<and> ct_ended (snd s')"
proof -
  have a: "after_failure H (cw_calls w1) p r s'" using stream_try_run [OF assms(1,2)] assms(3) by blast
  show ?thesis
  proof (cases r)
    case (Inl e)
    with a show ?thesis using that by (auto simp: after_failure_def halted_stream_def)
  next
    case (Inr b)
    with assms(3) a show ?thesis using that by (auto simp: after_failure_def finished_stream_def)
  qed
qed

text \<open>
  C8. Whatever the provider, the database and the connection do, a prepared stream that ends was
  accounted exactly once, under the ids of the request; before it only chunks were requested, and
  after it none.
\<close>

theorem stream_accounted_once:
  assumes "prepareChatStream env D inp w = (Inr p, w1)" and "stream_try n env H D inp (w, stream_start) = (r, s')"
    and "r \<noteq> Inr False"
  shows "\<exists>nx u b t. cw_calls (fst s') = cw_calls w1 @ nx @ DUsage u b # t
    \<and> list_all next_call nx \<and> (\<forall>c \<in> set t. \<not> usage_call c \<and> \<not> next_call c)
    \<and> nu_requestId u = ps_requestId p \<and> nu_orgId u = ps_orgId p \<and> nu_userId u = ps_userId p"
proof -
  obtain oc ru ts "term" where s: "settled_stream H (cw_calls w1) p oc ru ts term s'"
    by (rule stream_settled [OF assms])
  obtain w' c' where s': "s' = (w', c')" by (rule prod.exhaust)
  from s obtain nx t now where c: "cw_calls (fst s') = cw_calls w1 @ nx @ t" "list_all next_call nx"
      and a: "accounted (final_input p) (final_outcome p oc) now ru t"
    unfolding settled_stream_def s' by auto
  let ?u = "usage_record (final_input p) (final_outcome p oc)"
  from accounted_calls [OF a] obtain b where t: "filter usage_call t = [hd t]" "hd t = DUsage ?u b" "\<forall>c \<in> set t. accounting_call c"
    by blast
  then obtain t' where tl: "t = DUsage ?u b # t'" by (cases t) auto
  with t(1) have "\<forall>c \<in> set t'. \<not> usage_call c" by (auto simp: filter_empty_conv)
  moreover have "\<forall>c \<in> set t'. \<not> next_call c" using t(3) tl by (auto simp: next_call_def)
  moreover have "nu_requestId ?u = ps_requestId p" "nu_orgId ?u = ps_orgId p" "nu_userId ?u = ps_userId p"
    by (simp_all add: usage_record_def final_input_def)
  ultimately show ?thesis using c tl by blast
qed

lemma accounted_completed:
  assumes "accounted (final_input p) (final_outcome p oc) now (Inr ()) t" and "fo_status oc = st_COMPLETED"
    and "fo_assistantContent oc = Some content"
  shows "\<exists>u i. DUsage u True \<in> set t \<and> nu_status u = st_COMPLETED \<and> nu_usage u = fo_usage oc
    \<and> DPersist i True \<in> set t \<and> mp_assistantContent (pi_message i) = content
    \<and> mp_userContent (pi_message i) = ps_originalUserContent p \<and> DMarkCompleted True \<in> set t"
proof -
  let ?i = "persist_input (final_input p) (final_outcome p oc) \<lparr>mp_conversationId = ps_conversationId p,
        mp_retentionMode = ps_retentionMode p, mp_userContent = ps_originalUserContent p, mp_assistantContent = content\<rparr>"
  let ?u = "usage_record (final_input p) (final_outcome p oc)"
  from assms(1) obtain pe tp tb ta b where t: "t = DUsage ?u True # tp @ tb @ ta @ [DMarkCompleted b]"
    "persist_trace (final_input p) (final_outcome p oc) pe tp"
    "b \<longrightarrow> Inr () = (case pe of None \<Rightarrow> Inr () | Some e \<Rightarrow> Inl e)" "b"
    unfolding accounted_def by auto
  then have "pe = None" by (cases pe) auto
  then have "tp = [DPersist ?i True]" using t(2) assms(2,3) by (simp add: persist_trace_def final_outcome_def)
  moreover have "nu_status ?u = st_COMPLETED" "nu_usage ?u = fo_usage oc" using assms(2) by (simp_all add: usage_record_def final_outcome_def)
  moreover have "mp_assistantContent (pi_message ?i) = content" "mp_userContent (pi_message ?i) = ps_originalUserContent p"
    by (simp_all add: persist_input_def)
  ultimately show ?thesis using t(1,4) by (intro exI [of _ ?u] exI [of _ ?i]) simp
qed

text \<open>The names of the events.\<close>

lemma event_names:
  "e \<in> set (initial_events p) \<Longrightarrow> fst e \<in> {ev_request_started, ev_policy, ev_routing}" "fst (token_event t) = ev_token"
  by (auto simp: initial_events_def token_event_def)

lemma subseq_set: "subseq xs ys \<Longrightarrow> x \<in> set xs \<Longrightarrow> x \<in> set ys"
  by (erule (1) list_emb_set) simp

lemma settled_events:
  assumes "settled_stream H base p oc r ts term s" and "announces p oc r term"
  shows "\<exists>es ds errs. ct_events (snd s) = es @ map token_event ts @ ds @ errs
    \<and> (\<forall>e \<in> set es. fst e \<in> {ev_request_started, ev_policy, ev_routing}) \<and> (\<forall>e \<in> set errs. \<exists>rid. e = (ev_error, error_data rid)) \<and> term = ds @ errs
    \<and> (ds = [] \<or> fo_status oc = st_COMPLETED \<and> r = Inr () \<and> (\<exists>latency. ds = [(ev_done, done_data p (fo_usage oc) latency)]))"
proof -
  from assms(1) obtain es where es: "ct_events (snd s) = es @ map token_event ts @ term" "subseq es (initial_events p) \<or> es = []"
    by (cases s) (auto simp: settled_stream_def opened_with_def)
  from es(2) have "set es \<subseteq> set (initial_events p)" by (auto dest: subseq_set)
  then have "\<forall>e \<in> set es. fst e \<in> {ev_request_started, ev_policy, ev_routing}" by (intro ballI event_names(1) [of _ p]) blast
  moreover from assms(2) obtain ds errs where "term = ds @ errs" "\<forall>e \<in> set errs. \<exists>rid. e = (ev_error, error_data rid)"
    "ds = [] \<or> fo_status oc = st_COMPLETED \<and> r = Inr () \<and> (\<exists>latency. ds = [(ev_done, done_data p (fo_usage oc) latency)])"
    by (auto simp: announces_def)
  ultimately show ?thesis using es(1) by (intro exI [of _ es] exI [of _ ds] exI [of _ errs]) simp
qed

lemma done_accounted:
  assumes "prepareChatStream env D inp w = (Inr p, w1)" and "stream_try n env H D inp (w, stream_start) = (r, s')"
    and "r \<noteq> Inr False" and "(ev_done, d) \<in> set (ct_events (snd s'))"
  shows "\<exists>es ts errs t u i latency.
      ct_events (snd s') = es @ map token_event ts @ (ev_done, done_data p (nu_usage u) latency) # errs
    \<and> (\<forall>e \<in> set (es @ errs). fst e \<noteq> ev_token \<and> fst e \<noteq> ev_done)
    \<and> cw_calls (fst s') = cw_calls w1 @ t \<and> DUsage u True \<in> set t \<and> nu_status u = st_COMPLETED
    \<and> DPersist i True \<in> set t \<and> mp_userContent (pi_message i) = ps_originalUserContent p
    \<and> mp_assistantContent (pi_message i) = concat ts \<and> DMarkCompleted True \<in> set t"
proof -
  obtain oc ru ts "term" where s: "settled_stream H (cw_calls w1) p oc ru ts term s'" "announces p oc ru term"
    by (rule stream_settled [OF assms(1-3)])
  obtain es ds errs where ev: "ct_events (snd s') = es @ map token_event ts @ ds @ errs"
    "\<forall>e \<in> set es. fst e \<in> {ev_request_started, ev_policy, ev_routing}" "\<forall>e \<in> set errs. \<exists>rid. e = (ev_error, error_data rid)"
    "ds = [] \<or> fo_status oc = st_COMPLETED \<and> ru = Inr () \<and> (\<exists>latency. ds = [(ev_done, done_data p (fo_usage oc) latency)])"
    using settled_events [OF s] by blast
  have "ds \<noteq> []"
  proof
    assume "ds = []"
    with assms(4) ev(1-3) event_names(2) show False by (auto simp: token_event_def)
  qed
  with ev(4) obtain latency where c: "fo_status oc = st_COMPLETED" "ru = Inr ()" "ds = [(ev_done, done_data p (fo_usage oc) latency)]"
    by blast
  obtain w' c' where s': "s' = (w', c')" by (rule prod.exhaust)
  from s(1) c(1) obtain nx t now where calls: "cw_calls (fst s') = cw_calls w1 @ nx @ t"
    and a: "accounted (final_input p) (final_outcome p oc) now ru t" and content: "fo_assistantContent oc = Some (concat ts)"
    unfolding settled_stream_def s' by auto
  obtain u i where u: "DUsage u True \<in> set t" "nu_status u = st_COMPLETED" "nu_usage u = fo_usage oc" "DPersist i True \<in> set t"
    "mp_assistantContent (pi_message i) = concat ts" "mp_userContent (pi_message i) = ps_originalUserContent p" "DMarkCompleted True \<in> set t"
    using accounted_completed [OF a [unfolded c(2)] c(1) content] by blast
  have "ct_events (snd s') = es @ map token_event ts @ (ev_done, done_data p (nu_usage u) latency) # errs"
    using ev(1) c(3) u(3) by simp
  moreover have "\<forall>e \<in> set (es @ errs). fst e \<noteq> ev_token \<and> fst e \<noteq> ev_done" using ev(2,3) by auto
  moreover have "cw_calls (fst s') = cw_calls w1 @ (nx @ t)" "DUsage u True \<in> set (nx @ t)" "DPersist i True \<in> set (nx @ t)"
    "DMarkCompleted True \<in> set (nx @ t)" using calls u by simp_all
  ultimately show ?thesis using u(2,5,6) by metis
qed

text \<open>
  C16. Completion is never announced before it is accounted: when a \<^verbatim>\<open>done\<close> event was sent, the
  usage was recorded as completed with the usage that the event names, the messages were persisted
  and the reservation completed, all without an error; the persisted answer is exactly the
  concatenation of the tokens sent, and the persisted question the user's own.
\<close>

theorem done_event_is_accounted:
  assumes "prepareChatStream env D inp w = (Inr p, w1)" and "stream_try n env H D inp (w, stream_start) = (r, s')"
    and "r \<noteq> Inr False" and "(ev_done, d) \<in> set (ct_events (snd s'))"
  shows "\<exists>es ts errs t u i latency.
      ct_events (snd s') = es @ map token_event ts @ (ev_done, done_data p (nu_usage u) latency) # errs
    \<and> (\<forall>e \<in> set (es @ errs). fst e \<noteq> ev_token \<and> fst e \<noteq> ev_done)
    \<and> cw_calls (fst s') = cw_calls w1 @ t \<and> DUsage u True \<in> set t \<and> nu_status u = st_COMPLETED
    \<and> DPersist i True \<in> set t \<and> mp_userContent (pi_message i) = ps_originalUserContent p
    \<and> mp_assistantContent (pi_message i) = concat ts \<and> DMarkCompleted True \<in> set t"
  using assms by (rule done_accounted)

lemma steady_events:
  assumes "prepareChatStream env D inp w = (Inr p, w1)" and "stream_try n env H D inp (w, stream_start) = (r, s')"
    and "r \<noteq> Inr False" and "steady H"
  shows "r = Inr True \<and> ct_ended (snd s') \<and> (\<exists>ts e. ct_events (snd s') = initial_events p @ map token_event ts @ [e]
    \<and> (fst e = ev_done \<or> fst e = ev_error))"
proof -
  obtain oc ru ts "term" where s: "settled_stream H (cw_calls w1) p oc ru ts term s'" "announces p oc ru term"
    and "steady H \<longrightarrow> r = Inr True \<and> length term = 1 \<and> ct_ended (snd s')"
    by (rule stream_settled [OF assms(1-3)])
  then have st: "r = Inr True" "length term = 1" "ct_ended (snd s')" using assms(4) by simp_all
  obtain w' c' where s': "s' = (w', c')" by (rule prod.exhaust)
  from s(1) assms(4) have "ct_events (snd s') = initial_events p @ map token_event ts @ term"
    unfolding settled_stream_def s' opened_with_def by auto
  moreover from st(2) obtain e where "term = [e]" by (cases "term") auto
  moreover from this s(2) have "fst e = ev_done \<or> fst e = ev_error"
    by (auto simp: announces_def append_eq_Cons_conv Cons_eq_append_conv)
  ultimately show ?thesis using st(1,3) by blast
qed

section \<open>The stream ends\<close>

lemma wp_bind_all:
  "(\<And>e s'. Q (Inl e) s') \<Longrightarrow> (\<And>x s'. wp (k x) Q s') \<Longrightarrow> wp (act_bind m k) Q s"
  unfolding wp_bind by (rule wp_trivial) (auto split: sum.split)

lemma wp_then_all: "(\<And>e s'. Q (Inl e) s') \<Longrightarrow> (\<And>s'. wp k Q s') \<Longrightarrow> wp (act_then m k) Q s"
  unfolding act_then_def by (rule wp_bind_all)

text \<open>A provider stream that can deliver only so many more chunks.\<close>

definition chunks_bounded :: "('x chat_world_scheme, 'it, 'gen) ChatPipelineDependencies \<Rightarrow> ('gen \<Rightarrow> nat) \<Rightarrow> bool" where
  "chunks_bounded D rank \<longleftrightarrow>
     (\<forall>gen w chunk gen'. fst (dp_streamNext D gen w) = Inr (Some chunk, gen') \<longrightarrow> rank gen' < rank gen)"

lemma forward_chunks_ends:
  assumes "chunks_bounded D rank" and "case chunk of None \<Rightarrow> 0 < n | Some _ \<Rightarrow> Suc (rank gen) < n"
  shows "wp (forward_chunks n env H D p chunk gen content) (\<lambda>r s'. r \<noteq> Inr loop_running) s"
  using assms(2)
proof (induction n arbitrary: chunk gen content s)
  case 0
  then show ?case by (cases chunk) simp_all
next
  case (Suc n)
  show ?case
  proof (cases chunk)
    case None
    then show ?thesis by (simp add: wp_def)
  next
    case (Some ch)
    show ?thesis
    proof (cases ch)
      case (ChunkToken t)
      let ?k = "\<lambda>(chunk', gen'). forward_chunks n env H D p chunk' gen' (content @ t)"
      have more: "wp (act_bind (on_store (call DNext (dp_streamNext D gen))) ?k) (\<lambda>r s'. r \<noteq> Inr loop_running) s'" for s'
      proof (cases s')
        case (Pair w c)
        show ?thesis unfolding Pair wp_bind wp_on_store call_def
        proof (rule wp_call_result, unfold sum.case)
          fix x and w' :: "'a chat_world_scheme"
          assume x: "fst (dp_streamNext D gen w) = Inr x"
          obtain chunk' gen' where xp: "x = (chunk', gen')" by (rule prod.exhaust)
          have "case chunk' of None \<Rightarrow> 0 < n | Some _ \<Rightarrow> Suc (rank gen') < n"
          proof (cases chunk')
            case None
            then show ?thesis using Suc.prems Some by simp
          next
            case (Some d)
            then have "rank gen' < rank gen" using assms(1) x xp unfolding chunks_bounded_def by blast
            then show ?thesis using Suc.prems \<open>chunk = Some ch\<close> Some by simp
          qed
          from Suc.IH [OF this] show "wp (?k x) (\<lambda>r s'. r \<noteq> Inr loop_running) (w', c)" by (simp add: xp)
        qed simp
      qed
      have "wp (token_written env H D gen ?k written) (\<lambda>r s'. r \<noteq> Inr loop_running) s'" for written s'
        unfolding token_written_def
        by (rule wp_if; (rule wp_then_all, simp)+) (simp_all add: wp_ret more wp_def [of "act_ret loop_left"])
      then show ?thesis unfolding Some ChunkToken by (simp only: forward_chunks.simps option.case StreamChunk.case) (rule wp_bind_all, simp_all)
    next
      case (ChunkDone reason usage latency cost)
      have "wp (complete_stream env H D p usage latency content) (\<lambda>r s'. r \<noteq> Inr loop_running) s'" for s'
        unfolding complete_stream_def by (rule wp_then_all, simp)+ (simp add: wp_def)
      with Some ChunkDone show ?thesis by simp
    qed
  qed
qed

lemma stream_try_ends:
  assumes bounded: "chunks_bounded D rank"
    and fuel: "\<forall>p w1. prepareChatStream env D inp w = (Inr p, w1) \<longrightarrow> rank (ps_iterator p) + 2 \<le> n"
  shows "fst (stream_try n env H D inp (w, stream_start)) \<noteq> Inr False"
proof -
  let ?Q = "\<lambda>(r :: exn + bool) s'. r \<noteq> Inr False"
  have failed: "wp (stream_failed env H D rid e) ?Q s" for rid e s
    unfolding stream_failed_def
    by (rule wp_bind_all, simp) (auto simp: wp_throw wp_ret intro!: wp_then_all wp_if)
  have prep: "wp (stream_prepared n env H D p) ?Q s" if "rank (ps_iterator p) + 2 \<le> n" for p s
    unfolding stream_prepared_def
  proof (rule wp_bind_all, simp, rule wp_if)
    fix gone :: bool and s'
    show "wp (act_then (account env D p (unfinished st_INTERRUPTED))
         (act_then (logTerminalEvent env st_INTERRUPTED (Some ''CLIENT_DISCONNECTED'')) (act_ret True))) ?Q s'"
      by (rule wp_then_all, simp)+ (simp add: wp_ret)
    have "wp (act_bind (forward_chunks n env H D p (Some (ps_firstChunk p)) (ps_iterator p) []) (\<lambda>left.
           case left of loop_completed \<Rightarrow> act_ret True | loop_running \<Rightarrow> act_ret False
           | loop_left \<Rightarrow> act_then (leave_stream env H D p) (act_ret True))) ?Q s2" for s2
      unfolding wp_bind
      by (rule wp_mono [OF forward_chunks_ends [OF bounded]])
        (use that in \<open>auto simp: wp_ret intro!: wp_then_all split: sum.splits loop_end.splits\<close>)
    then show "wp (act_then startSse (act_then (writeInitialEvents H p)
        (act_bind (forward_chunks n env H D p (Some (ps_firstChunk p)) (ps_iterator p) []) (\<lambda>left.
           case left of loop_completed \<Rightarrow> act_ret True | loop_running \<Rightarrow> act_ret False
           | loop_left \<Rightarrow> act_then (leave_stream env H D p) (act_ret True))))) ?Q s'"
      by (intro wp_then_all) simp_all
  qed
  have run: "wp (act_then (set_stream (\<lambda>c. c\<lparr>ct_prepared := Some p\<rparr>)) (stream_prepared n env H D p))
      (\<lambda>r s'. case r of Inl e \<Rightarrow> wp (stream_failed env H D (pr_requestId inp) e) ?Q s' | Inr x \<Rightarrow> ?Q (Inr x) s') s"
    if "rank (ps_iterator p) + 2 \<le> n" for p s
    unfolding wp_then
    by (rule wp_trivial) (auto simp: failed split: sum.split intro!: wp_mono [OF prep [OF that]])
  obtain r w1 where p: "prepareChatStream env D inp w = (r, w1)" by (rule prod.exhaust)
  have "wp (stream_try n env H D inp) ?Q (w, stream_start)"
  proof (cases r)
    case (Inl e)
    then show ?thesis unfolding stream_try_def wp_catch wp_bind [of "on_store m" for m] wp_on_store
      by (simp add: wp_def [of "prepareChatStream env D inp"] p failed)
  next
    case (Inr q)
    then have "rank (ps_iterator q) + 2 \<le> n" using fuel p by blast
    from run [OF this] Inr show ?thesis unfolding stream_try_def wp_catch wp_bind [of "on_store m" for m] wp_on_store
      by (simp only: wp_def [of "prepareChatStream env D inp"] p prod.case sum.case)
  qed
  then show ?thesis by (simp add: wp_def split: prod.splits)
qed

text \<open>
  C18. The endpoint terminates with the provider: when the provider's stream delivers at most
  \<open>rank\<close> more chunks, \<open>rank + 2\<close> rounds of the loop suffice, whatever everything else does.
\<close>

theorem stream_terminates:
  assumes "chunks_bounded D rank"
    and "\<forall>p w1. prepareChatStream env D inp w = (Inr p, w1) \<longrightarrow> rank (ps_iterator p) + 2 \<le> n"
  shows "fst (stream_try n env H D inp (w, stream_start)) \<noteq> Inr False"
  using assms by (rule stream_try_ends)


section \<open>Witnesses\<close>

text \<open>A provider that sends one token and the end, and a connection that takes everything.\<close>

definition demo_yields :: "nat \<Rightarrow> StreamChunk option \<times> nat" where
  "demo_yields n = (if n = 2 then (Some (ChunkToken (js_lit ''ok'')), 1)
     else if n = 1 then (Some (ChunkDone FinishStop None 5 None), 0) else (None, 0))"

abbreviation demo_provider :: "(chat_world, unit, nat) ChatPipelineDependencies" where
  "demo_provider \<equiv> chat_demo_with False 2 demo_yields"

definition demo_connection :: "chat_world connection" where
  "demo_connection = \<lparr>he_disconnected = (\<lambda>_. False), he_shutdown = (\<lambda>_. False), he_destroyed = (\<lambda>_. False),
     he_abort = (\<lambda>w. w), he_write = (\<lambda>_ w. (True, w)), he_wait = act_ret (), he_fraction = (\<lambda>_. [])\<rparr>"

lemma demo_steady: "steady demo_connection"
  by (simp add: steady_def demo_connection_def)

lemma demo_bounded: "chunks_bounded demo_provider (\<lambda>n. n)"
  by (auto simp: chunks_bounded_def demo_yields_def split: if_splits)

lemma demo_prepared:
  obtains p w1 where "prepareChatStream chat_demo_env demo_provider chat_demo_input chat_demo_world = (Inr p, w1)"
    "ps_firstChunk p = ChunkToken (js_lit ''ok'')" "ps_iterator p = 1" "0 \<le> pd_riskScore (ps_decision p)" "pd_riskScore (ps_decision p) \<le> 100"
  by (rule chat_demo_prepared [of demo_yields 2 "ChunkToken (js_lit ''ok'')" 1]) (auto simp: demo_yields_def)

lemma demo_fuel:
  "prepareChatStream chat_demo_env demo_provider chat_demo_input chat_demo_world = (Inr p, w1) \<Longrightarrow> ps_iterator p + 2 \<le> 3"
  using demo_prepared by (metis Pair_inject eval_nat_numeral(3) le_refl one_add_one plus_1_eq_Suc add.commute sum.inject(2) numeral_3_eq_3 add_Suc_right)

theorem stream_terminates_witness:
  "fst (stream_try 3 chat_demo_env demo_connection demo_provider chat_demo_input (chat_demo_world, stream_start)) \<noteq> Inr False"
  by (rule stream_terminates [OF demo_bounded]) (use demo_fuel in blast)

lemma demo_run:
  obtains p w1 r s' where "prepareChatStream chat_demo_env demo_provider chat_demo_input chat_demo_world = (Inr p, w1)"
    "stream_try 3 chat_demo_env demo_connection demo_provider chat_demo_input (chat_demo_world, stream_start) = (r, s')" "r \<noteq> Inr False"
proof -
  have "fst (stream_try 3 chat_demo_env demo_connection demo_provider chat_demo_input (chat_demo_world, stream_start)) \<noteq> Inr False"
    by (rule stream_try_ends [OF demo_bounded]) (use demo_fuel in blast)
  with demo_prepared that show ?thesis by (metis prod.collapse)
qed

theorem stream_accounted_once_witness:
  "\<exists>u b. DUsage u b \<in> set (cw_calls (fst (snd
     (stream_try 3 chat_demo_env demo_connection demo_provider chat_demo_input (chat_demo_world, stream_start)))))"
proof -
  obtain p w1 r s' where "prepareChatStream chat_demo_env demo_provider chat_demo_input chat_demo_world = (Inr p, w1)"
    and r: "stream_try 3 chat_demo_env demo_connection demo_provider chat_demo_input (chat_demo_world, stream_start) = (r, s')"
    and "r \<noteq> Inr False" by (rule demo_run)
  from stream_accounted_once [OF this] obtain u b where "DUsage u b \<in> set (cw_calls (fst s'))" by force
  then show ?thesis by (auto simp: r)
qed


text \<open>The run itself, step by step.\<close>

lemma demo_write:
  "\<not> ct_ended c \<Longrightarrow> writeSseEvent demo_connection e d (w, c) = (Inr True, (w, c\<lparr>ct_events := ct_events c @ [(e, d)]\<rparr>))"
  by (simp add: writeSseEvent_def act_bind_apply act_then_apply writable_def net_def on_store_def set_stream_def demo_connection_def)

lemma demo_account:
  "\<exists>w'. account chat_demo_env demo_provider p oc (w, c) = (Inr (), (w', c\<lparr>ct_accountingStarted := True\<rparr>))"
proof -
  have "\<exists>w'. finalizeChatStream chat_demo_env demo_provider p oc w = (Inr (), w')"
    by (simp add: finalizeChatStream_def recordUsageAndComplete_def act_bind_apply act_then_apply act_finally_apply
        persist_messages_def enqueue_billing_def enqueue_analytics_def act_catch_apply run_calls chat_demo_with_def split: option.split)
  then show ?thesis by (auto simp: account_def act_then_apply set_stream_def on_store_def)
qed

lemma demo_log: "\<exists>w' c'. logTerminalEvent env st code (w, c) = (Inr (), (w', c')) \<and> noted c c'"
  and demo_observe: "\<exists>w' c'. observe_first_token env (w, c) = (Inr (), (w', c')) \<and> noted c c'"
proof -
  have "wp (logTerminalEvent env st code) (\<lambda>r s'. r = Inr () \<and> noted c (snd s')) (w, c)"
    by (rule wp_logTerminalEvent) simp
  then show "\<exists>w' c'. logTerminalEvent env st code (w, c) = (Inr (), (w', c')) \<and> noted c c'"
    by (auto simp: wp_def split: prod.splits)
  have "wp (observe_first_token env) (\<lambda>r s'. r = Inr () \<and> noted c (snd s')) (w, c)"
    by (rule wp_observe_first_token) simp
  then show "\<exists>w' c'. observe_first_token env (w, c) = (Inr (), (w', c')) \<and> noted c c'"
    by (auto simp: wp_def split: prod.splits)
qed

lemma demo_completed_stream:
  assumes "\<not> ct_ended c"
  shows "\<exists>s'. complete_stream chat_demo_env demo_connection demo_provider p None 5 content (w, c) = (Inr loop_completed, s')
    \<and> ct_events (snd s') = ct_events c @ [(ev_done, done_data p None 5)]"
proof -
  obtain w1 where a: "account chat_demo_env demo_provider p \<lparr>fo_status = st_COMPLETED, fo_usage = None, fo_assistantContent = Some content\<rparr> (w, c)
      = (Inr (), (w1, c\<lparr>ct_accountingStarted := True\<rparr>))" using demo_account by blast
  let ?c = "c\<lparr>ct_accountingStarted := True, ct_events := ct_events c @ [(ev_done, done_data p None 5)]\<rparr>"
  obtain w2 c2 where l: "logTerminalEvent chat_demo_env st_COMPLETED None (w1, ?c) = (Inr (), (w2, c2))" "noted ?c c2" using demo_log by blast
  have wr: "writeSseEvent demo_connection ev_done (done_data p None 5) (w1, c\<lparr>ct_accountingStarted := True\<rparr>) = (Inr True, (w1, ?c))"
    using assms by (simp add: demo_write)
  show ?thesis using l(2) by (simp add: complete_stream_def act_then_apply a wr l(1) endResponse_def set_stream_def noted_def)
qed

lemma demo_forward:
  assumes "\<not> ct_ended c"
  shows "\<exists>s'. forward_chunks 3 chat_demo_env demo_connection demo_provider p (Some (ChunkToken (js_lit ''ok''))) 1 [] (w, c)
      = (Inr loop_completed, s') \<and> ct_events (snd s') = ct_events c @ [token_event (js_lit ''ok''), (ev_done, done_data p None 5)]"
proof -
  let ?c = "c\<lparr>ct_events := ct_events c @ [(ev_token, token_data (js_lit ''ok''))]\<rparr>"
  obtain w1 c1 where o: "observe_first_token chat_demo_env (w, ?c) = (Inr (), (w1, c1))" "noted ?c c1" using demo_observe by blast
  have "\<not> ct_ended c1" using assms o(2) by (simp add: noted_def)
  from demo_completed_stream [OF this] obtain s' where
    d: "complete_stream chat_demo_env demo_connection demo_provider p None 5 (js_lit ''ok'') (w1\<lparr>cw_calls := cw_calls w1 @ [DNext True]\<rparr>, c1)
      = (Inr loop_completed, s')" "ct_events (snd s') = ct_events c1 @ [(ev_done, done_data p None 5)]" by blast
  have "forward_chunks 3 chat_demo_env demo_connection demo_provider p (Some (ChunkToken (js_lit ''ok''))) 1 [] (w, c) = (Inr loop_completed, s')"
    using assms by (simp add: numeral_3_eq_3 act_bind_apply act_then_apply demo_write token_written_def o(1) on_store_def run_calls
        demo_yields_def d(1))
  with d(2) o(2) show ?thesis by (simp add: noted_def token_event_def)
qed

lemma demo_stream:
  assumes p: "prepareChatStream chat_demo_env demo_provider chat_demo_input chat_demo_world = (Inr p, w1)"
    and c: "ps_firstChunk p = ChunkToken (js_lit ''ok'')" "ps_iterator p = 1"
  shows "\<exists>s'. stream_try 3 chat_demo_env demo_connection demo_provider chat_demo_input (chat_demo_world, stream_start) = (Inr True, s')
    \<and> ct_events (snd s') = initial_events p @ [token_event (js_lit ''ok''), (ev_done, done_data p None 5)]"
proof -
  let ?c = "stream_start\<lparr>ct_prepared := Some p, ct_headersSent := True, ct_events := initial_events p\<rparr>"
  obtain s' where f: "forward_chunks 3 chat_demo_env demo_connection demo_provider p (Some (ChunkToken (js_lit ''ok''))) 1 [] (w1, ?c)
      = (Inr loop_completed, s')" "ct_events (snd s') = ct_events ?c @ [token_event (js_lit ''ok''), (ev_done, done_data p None 5)]"
    using demo_forward [of ?c p w1] by (auto simp: stream_start_def)
  have i: "writeInitialEvents demo_connection p (w1, stream_start\<lparr>ct_prepared := Some p, ct_headersSent := True\<rparr>) = (Inr (), (w1, ?c))"
    by (simp add: writeInitialEvents_def initial_events_def act_then_apply demo_write stream_start_def)
  have "is_disconnected demo_connection (w1, stream_start\<lparr>ct_prepared := Some p\<rparr>) = False"
    by (simp add: is_disconnected_def demo_connection_def stream_start_def)
  then have "stream_try 3 chat_demo_env demo_connection demo_provider chat_demo_input (chat_demo_world, stream_start) = (Inr True, s')"
    by (simp add: stream_try_def act_catch_apply act_bind_apply act_then_apply on_store_def p set_stream_def stream_prepared_def
        startSse_def i c f(1) [simplified])
  with f(2) show ?thesis by simp
qed

theorem done_event_is_accounted_witness:
  "\<exists>i. DPersist i True \<in> set (cw_calls (fst (snd
     (stream_try 3 chat_demo_env demo_connection demo_provider chat_demo_input (chat_demo_world, stream_start)))))"
proof -
  obtain p w1 where p: "prepareChatStream chat_demo_env demo_provider chat_demo_input chat_demo_world = (Inr p, w1)"
    "ps_firstChunk p = ChunkToken (js_lit ''ok'')" "ps_iterator p = 1" by (rule demo_prepared)
  obtain s' where s: "stream_try 3 chat_demo_env demo_connection demo_provider chat_demo_input (chat_demo_world, stream_start) = (Inr True, s')"
    "ct_events (snd s') = initial_events p @ [token_event (js_lit ''ok''), (ev_done, done_data p None 5)]" using demo_stream [OF p] by blast
  then have "(ev_done, done_data p None 5) \<in> set (ct_events (snd s'))" by simp
  from done_event_is_accounted [OF p(1) s(1) _ this] obtain t i where "cw_calls (fst s') = cw_calls w1 @ t" "DPersist i True \<in> set t"
    by blast
  then show ?thesis by (auto simp: s(1))
qed

end
