(* ===== verification/ChatClient.thy ===== *)
theory ChatClient
  imports ChatEndpoint
begin

text \<open>
  The browser's side of a chat stream: the event schemas of
  \<^verbatim>\<open>frontend/src/features/chat/chat.types.ts\<close> and the generator \<^verbatim>\<open>streamChat\<close> of
  \<^verbatim>\<open>chat.api.ts\<close>, from the response body on; and the composition with the endpoint: what the
  endpoint writes is what the browser yields.
\<close>

section \<open>Schemas\<close>

text \<open>A schema maps a value to the parsed value, or fails. An object schema keeps its own keys; an
  optional key may be absent.\<close>

type_synonym schema = "json \<Rightarrow> json option"

definition z_check :: "(json \<Rightarrow> bool) \<Rightarrow> schema" where
  "z_check p v = (if p v then Some v else None)"

fun is_text :: "json \<Rightarrow> bool" where
  "is_text (JStr s) = True" | "is_text v = False"

fun is_bool :: "json \<Rightarrow> bool" where
  "is_bool (JBool b) = True" | "is_bool v = False"

definition is_uuid :: "schema_checks \<Rightarrow> json \<Rightarrow> bool" where
  "is_uuid Z v = (case v of JStr s \<Rightarrow> sc_uuid Z s | _ \<Rightarrow> False)"

definition is_enum :: "string list \<Rightarrow> json \<Rightarrow> bool" where
  "is_enum names v = (case v of JStr s \<Rightarrow> s \<in> set (map js_lit names) | _ \<Rightarrow> False)"

text \<open>A number, with its bounds.\<close>

definition is_number :: "(rat \<Rightarrow> bool) \<Rightarrow> json \<Rightarrow> bool" where
  "is_number p v = (case v of JInt i \<Rightarrow> p (of_int i) | JDec q \<Rightarrow> p q | _ \<Rightarrow> False)"

definition is_count :: "json \<Rightarrow> bool" where
  "is_count v = (case v of JInt i \<Rightarrow> is_safe_integer i \<and> 0 \<le> i | _ \<Rightarrow> False)"

definition z_array :: "schema \<Rightarrow> schema" where
  "z_array S v = (case v of JArr vs \<Rightarrow> map_option JArr (those (map S vs)) | _ \<Rightarrow> None)"

fun z_fields :: "(string \<times> bool \<times> schema) list \<Rightarrow> (jsstr \<times> json) list \<Rightarrow> (jsstr \<times> json) list option" where
  "z_fields [] ps = Some []"
| "z_fields ((k, optional, S) # fs) ps =
     (case map_of ps (js_lit k) of
        None \<Rightarrow> if optional then z_fields fs ps else None
      | Some v \<Rightarrow> (case (S v, z_fields fs ps) of
            (Some v', Some rest) \<Rightarrow> Some ((js_lit k, v') # rest)
          | _ \<Rightarrow> None))"

definition z_object :: "(string \<times> bool \<times> schema) list \<Rightarrow> schema" where
  "z_object fs v = (case v of JObj ps \<Rightarrow> map_option JObj (z_fields fs ps) | _ \<Rightarrow> None)"

definition piiCategorySchema :: schema where
  "piiCategorySchema = z_check (is_enum [''CONTACT_INFO'', ''FINANCIAL'', ''GOVERNMENT_ID'', ''CREDENTIAL'',
     ''INTERNAL_SECRET'', ''BUSINESS_CONFIDENTIAL''])"

definition requestStartedEventSchema :: "schema_checks \<Rightarrow> schema" where
  "requestStartedEventSchema Z = z_object [(''requestId'', False, z_check (is_uuid Z)),
     (''clientRequestId'', False, z_check (is_uuid Z))]"

definition policyEventSchema :: schema where
  "policyEventSchema = z_object [(''action'', False, z_check (is_enum [''ALLOW'', ''ALLOW_WITH_MASK'', ''BLOCK''])),
     (''riskScore'', False, z_check (is_number (\<lambda>q. 0 \<le> q \<and> q \<le> 100))),
     (''categories'', False, z_array piiCategorySchema), (''masked'', False, z_check is_bool)]"

definition routingEventSchema :: schema where
  "routingEventSchema = z_object [(''provider'', False, z_check is_text), (''routingReason'', False, z_check is_text),
     (''fallbackPosition'', False, z_check is_count)]"

text \<open>The schema of a fallback passes unknown keys through.\<close>

definition fallbackEventSchema :: schema where
  "fallbackEventSchema v = (case v of
     JObj ps \<Rightarrow> if z_fields [(''fromProvider'', True, z_check is_text), (''toProvider'', True, z_check is_text),
                   (''reason'', True, z_check is_text)] ps \<noteq> None then Some (JObj ps) else None
   | _ \<Rightarrow> None)"

definition tokenEventSchema :: schema where
  "tokenEventSchema = z_object [(''text'', False, z_check is_text)]"

definition usageSchema :: schema where
  "usageSchema = z_object [(''inputTokens'', False, z_check is_count), (''outputTokens'', False, z_check is_count),
     (''totalTokens'', False, z_check is_count)]"

definition doneEventSchema :: "schema_checks \<Rightarrow> schema" where
  "doneEventSchema Z = z_object [(''requestId'', False, z_check (is_uuid Z)), (''provider'', False, z_check is_text),
     (''model'', False, z_check is_text), (''routingReason'', False, z_check is_text), (''usage'', True, usageSchema),
     (''latencyMs'', False, z_check (is_number (\<lambda>q. 0 \<le> q))), (''cacheHit'', False, z_check is_bool),
     (''masked'', False, z_check is_bool)]"

definition streamErrorEventSchema :: schema where
  "streamErrorEventSchema = z_object [(''code'', False, z_check is_text), (''message'', False, z_check is_text),
     (''requestId'', False, z_check is_text), (''retryable'', False, z_check is_bool)]"

fun chatEventSchemas :: "schema_checks \<Rightarrow> ChatSseEventName \<Rightarrow> schema" where
  "chatEventSchemas Z ev_request_started = requestStartedEventSchema Z"
| "chatEventSchemas Z ev_policy = policyEventSchema"
| "chatEventSchemas Z ev_routing = routingEventSchema"
| "chatEventSchemas Z ev_fallback = fallbackEventSchema"
| "chatEventSchemas Z ev_token = tokenEventSchema"
| "chatEventSchemas Z ev_done = doneEventSchema Z"
| "chatEventSchemas Z ev_error = streamErrorEventSchema"

section \<open>The generator\<close>

definition chat_event_names :: "ChatSseEventName list" where
  "chat_event_names = [ev_request_started, ev_policy, ev_routing, ev_fallback, ev_token, ev_done, ev_error]"

definition event_named :: "jsstr \<Rightarrow> ChatSseEventName option" where
  "event_named name = find (\<lambda>e. js_lit (sse_event_label e) = name) chat_event_names"

text \<open>\<^verbatim>\<open>event.event in chatEventSchemas\<close> also holds for what the object inherits; such a property
  has no method \<^verbatim>\<open>parse\<close>, so the call throws.\<close>

definition inherited_names :: "string list" where
  "inherited_names = [''constructor'', ''hasOwnProperty'', ''isPrototypeOf'', ''propertyIsEnumerable'', ''toLocaleString'',
     ''toString'', ''valueOf'', ''__defineGetter__'', ''__defineSetter__'', ''__lookupGetter__'', ''__lookupSetter__'', ''__proto__'']"

datatype client_end = client_done | client_read_error | client_schema_error | client_type_error | client_interrupted

text \<open>The loop: the events yielded, how it ended, and whether a terminal event was received.\<close>

fun client_loop :: "schema_checks \<Rightarrow> bool \<Rightarrow> ParsedSseEvent list \<Rightarrow> bool \<Rightarrow>
  (ChatSseEventName \<times> json) list \<times> client_end \<times> bool" where
  "client_loop Z ok [] terminal = ([], if ok then client_done else client_read_error, terminal)"
| "client_loop Z ok (e # es) terminal =
     (case event_named (pe_event e) of
        None \<Rightarrow> if pe_event e \<in> set (map js_lit inherited_names) then ([], client_type_error, terminal)
                else client_loop Z ok es terminal
      | Some name \<Rightarrow>
          (case chatEventSchemas Z name (pe_data e) of
             None \<Rightarrow> ([], client_schema_error, terminal)
           | Some data \<Rightarrow>
               (case client_loop Z ok es (terminal \<or> name = ev_done \<or> name = ev_error) of
                  (ys, r, t) \<Rightarrow> ((name, data) # ys, r, t))))"

text \<open>\<^verbatim>\<open>streamChat\<close> from the response body on; \<open>signalAborted\<close> is read at the end.\<close>

definition client_streamChat :: "schema_checks \<Rightarrow> bool \<Rightarrow> nat list list \<Rightarrow> (ChatSseEventName \<times> json) list \<times> client_end" where
  "client_streamChat Z signalAborted body =
     (case readSseStream body of (events, ok) \<Rightarrow>
        (case client_loop Z ok events False of (ys, r, terminal) \<Rightarrow>
           (ys, if r = client_done \<and> \<not> terminal \<and> \<not> signalAborted then client_interrupted else r)))"

section \<open>The browser accepts what the endpoint writes\<close>

definition shown :: "sse_event \<Rightarrow> ChatSseEventName \<times> json" where
  "shown e = (fst e, JObj (snd e))"

lemma event_named_label: "event_named (js_lit (sse_event_label e)) = Some e"
  by (cases e) (simp_all add: event_named_def chat_event_names_def js_lit_def)

lemma client_loop_written:
  assumes "\<forall>e \<in> set evs. chatEventSchemas Z (fst e) (JObj (snd e)) = Some (JObj (snd e))"
  shows "client_loop Z ok (map written_event evs) terminal
    = (map shown evs, if ok then client_done else client_read_error, terminal \<or> (\<exists>e \<in> set evs. fst e = ev_done \<or> fst e = ev_error))"
  using assms
  by (induction evs arbitrary: terminal) (auto simp: written_event_def event_named_label shown_def)

definition counts_ok :: "TokenUsage \<Rightarrow> bool" where
  "counts_ok u \<longleftrightarrow> (\<forall>n \<in> {inputTokens u, outputTokens u, totalTokens u}. 0 \<le> n \<and> is_safe_integer n)"

text \<open>What the schemas ask of the values of a request.\<close>

definition presentable :: "schema_checks \<Rightarrow> 'gen PreparedChatStream \<Rightarrow> bool" where
  "presentable Z p \<longleftrightarrow> sc_uuid Z (js_lit (ps_requestId p)) \<and> sc_uuid Z (js_lit (ps_clientRequestId p))
     \<and> 0 \<le> pd_riskScore (ps_decision p) \<and> pd_riskScore (ps_decision p) \<le> 100"

lemmas schema_simps = z_object_def z_check_def is_uuid_def is_enum_def is_number_def is_count_def text_json_def masked_json_def

lemma category_accepted: "piiCategorySchema (text_json (pii_category_label c)) = Some (text_json (pii_category_label c))"
  by (cases c) (simp_all add: piiCategorySchema_def schema_simps)

lemma categories_accepted:
  "z_array piiCategorySchema (JArr (map (\<lambda>c. text_json (pii_category_label c)) cs)) = Some (JArr (map (\<lambda>c. text_json (pii_category_label c)) cs))"
proof -
  have "those (map piiCategorySchema (map (\<lambda>c. text_json (pii_category_label c)) cs)) = Some (map (\<lambda>c. text_json (pii_category_label c)) cs)"
    by (induction cs) (simp_all add: category_accepted)
  then show ?thesis by (simp add: z_array_def comp_def)
qed

lemma action_accepted: "z_check (is_enum [''ALLOW'', ''ALLOW_WITH_MASK'', ''BLOCK'']) (text_json (action_label a)) = Some (text_json (action_label a))"
  by (cases a) (simp_all add: schema_simps)

lemma initial_accepted:
  assumes "presentable Z p" and "e \<in> set (initial_events p)"
  shows "chatEventSchemas Z (fst e) (JObj (snd e)) = Some (JObj (snd e))"
proof -
  have "requestStartedEventSchema Z (JObj (request_started_data p)) = Some (JObj (request_started_data p))"
    using assms(1) by (simp add: requestStartedEventSchema_def request_started_data_def presentable_def schema_simps js_lit_inj)
  moreover have "policyEventSchema (JObj (policy_data p)) = Some (JObj (policy_data p))"
    using assms(1) categories_accepted action_accepted
    by (simp add: policyEventSchema_def policy_data_def presentable_def z_object_def js_lit_inj)
      (simp add: schema_simps)
  moreover have "routingEventSchema (JObj (routing_data p)) = Some (JObj (routing_data p))"
    by (simp add: routingEventSchema_def routing_data_def schema_simps js_lit_inj is_safe_integer_def MAX_SAFE_INTEGER_def)
  ultimately show ?thesis using assms(2) by (auto simp: initial_events_def)
qed

lemma token_accepted: "tokenEventSchema (JObj (token_data t)) = Some (JObj (token_data t))"
  by (simp add: tokenEventSchema_def token_data_def schema_simps)

lemma error_accepted: "streamErrorEventSchema (JObj (error_data r)) = Some (JObj (error_data r))"
  by (simp add: streamErrorEventSchema_def error_data_def schema_simps js_lit_inj)

lemma usage_accepted: "counts_ok u \<Longrightarrow> usageSchema (usage_json u) = Some (usage_json u)"
  by (simp add: usageSchema_def usage_json_def counts_ok_def schema_simps js_lit_inj)

lemma done_accepted:
  assumes "presentable Z p" and "0 \<le> latency" and "\<forall>u. usage = Some u \<longrightarrow> counts_ok u"
  shows "doneEventSchema Z (JObj (done_data p usage latency)) = Some (JObj (done_data p usage latency))"
proof (cases usage)
  case None
  with assms show ?thesis by (simp add: doneEventSchema_def done_data_def presentable_def schema_simps js_lit_inj)
next
  case (Some u)
  with assms usage_accepted [of u] show ?thesis
    by (simp add: doneEventSchema_def done_data_def presentable_def schema_simps js_lit_inj)
qed

text \<open>All these data are JSON values.\<close>

lemma lit_units: "is_jsstr (js_lit s)"
  using js_lit_well_formed [of "js_lit s"] by (simp add: well_formed_def js_lit_def)

lemma initial_json: "e \<in> set (initial_events p) \<Longrightarrow> wf_json (JObj (snd e))"
  by (auto simp: initial_events_def request_started_data_def policy_data_def routing_data_def text_json_def masked_json_def
      js_lit_inj lit_units list_all_iff)

lemma token_json: "is_jsstr t \<Longrightarrow> wf_json (JObj (token_data t))"
  by (simp add: token_data_def lit_units)

lemma error_json: "wf_json (JObj (error_data r))"
  by (simp add: error_data_def text_json_def js_lit_inj lit_units)

lemma done_json: "wf_json (JObj (done_data p usage latency))"
  by (cases usage) (simp_all add: done_data_def usage_json_def text_json_def masked_json_def js_lit_inj lit_units)

text \<open>
  C13. From the provider to the screen: once the endpoint has streamed a prepared answer to its end over
  a connection that stays open, and the browser has received the bytes that were written (cut into pieces
  in any way), the browser yields exactly the events that the endpoint wrote: each of them, in order and
  with its whole data; it ends normally and never reports an interrupted stream. These events are the
  initial ones, the tokens, and one last event, \<^verbatim>\<open>error\<close> or \<^verbatim>\<open>done\<close>; after \<^verbatim>\<open>done\<close> the
  concatenation of the tokens is the answer that was persisted. The values are those that the schemas are
  made for: identifiers that are UUIDs, tokens of UTF-16 code units, a latency and counts that are not
  negative, safe integers.
\<close>

theorem browser_shows_what_was_sent:
  assumes p: "prepareChatStream env D inp w = (Inr p, w1)" and run: "stream_try n env H D inp (w, stream_start) = (r, s')"
    and ended: "r \<noteq> Inr False" and open_connection: "steady H" and ids: "presentable Z p"
    and units: "\<forall>t. (ev_token, token_data t) \<in> set (ct_events (snd s')) \<longrightarrow> is_jsstr t"
    and counts: "\<forall>u l. (ev_done, done_data p u l) \<in> set (ct_events (snd s')) \<longrightarrow> 0 \<le> l \<and> (\<forall>v. u = Some v \<longrightarrow> counts_ok v)"
    and bytes: "concat body = concat (map (\<lambda>e. utf8_encode (frame_of (he_fraction H) e)) (ct_events (snd s')))"
  shows "client_streamChat Z signalAborted body = (map (\<lambda>e. (fst e, JObj (snd e))) (ct_events (snd s')), client_done)
    \<and> (\<exists>ts e. ct_events (snd s') = initial_events p @ map (\<lambda>t. (ev_token, token_data t)) ts @ [e]
        \<and> (fst e = ev_error \<or> fst e = ev_done \<and> (\<exists>i. DPersist i True \<in> set (cw_calls (fst s'))
              \<and> mp_assistantContent (pi_message i) = concat ts)))"
proof -
  obtain oc ru ts "term" where s: "settled_stream H (cw_calls w1) p oc ru ts term s'" "announces p oc ru term"
    and "steady H \<longrightarrow> r = Inr True \<and> length term = 1 \<and> ct_ended (snd s')"
    by (rule stream_settled [OF p run ended])
  then obtain e where t: "term = [e]" using open_connection by (cases "term") auto
  obtain w' c' where s': "s' = (w', c')" by (rule prod.exhaust)
  from s(1) open_connection have ev: "ct_events (snd s') = initial_events p @ map token_event ts @ [e]"
    unfolding settled_stream_def s' opened_with_def t by auto
  let ?evs = "initial_events p @ map token_event ts @ [e]"
  have kind: "(\<exists>rid. e = (ev_error, error_data rid)) \<or>
      (\<exists>latency. e = (ev_done, done_data p (fo_usage oc) latency)) \<and> fo_status oc = st_COMPLETED \<and> ru = Inr ()"
    using s(2) unfolding announces_def t by (auto simp: Cons_eq_append_conv)
  have tokens: "is_jsstr t" if "t \<in> set ts" for t
    using units that unfolding ev by (auto simp: token_event_def)
  have last: "chatEventSchemas Z (fst e) (JObj (snd e)) = Some (JObj (snd e))" "wf_json (JObj (snd e))"
  proof -
    have "e \<in> set (ct_events (snd s'))" by (simp add: ev)
    with kind counts have "(\<exists>rid. e = (ev_error, error_data rid))
        \<or> (\<exists>l u. e = (ev_done, done_data p u l) \<and> 0 \<le> l \<and> (\<forall>v. u = Some v \<longrightarrow> counts_ok v))" by blast
    then show "chatEventSchemas Z (fst e) (JObj (snd e)) = Some (JObj (snd e))" "wf_json (JObj (snd e))"
      using done_accepted [OF ids] by (auto simp: error_accepted error_json done_json simp del: wf_json.simps)
  qed
  have accepted: "\<forall>e \<in> set ?evs. chatEventSchemas Z (fst e) (JObj (snd e)) = Some (JObj (snd e))"
    using initial_accepted [OF ids] token_accepted last(1) by (auto simp: token_event_def)
  have json: "\<forall>e \<in> set ?evs. wf_json (JObj (snd e))"
    using initial_json token_json [OF tokens] last(2) by (auto simp: token_event_def simp del: wf_json.simps)
  have "readSseStream body = (map written_event ?evs, True)"
    by (rule sse_stream_read [OF json]) (use bytes in \<open>simp only: ev\<close>)
  moreover have "fst e = ev_done \<or> fst e = ev_error" using kind by auto
  ultimately have "client_streamChat Z signalAborted body = (map shown ?evs, client_done)"
    by (simp only: client_streamChat_def prod.case client_loop_written [OF accepted]) auto
  then have "client_streamChat Z signalAborted body = (map (\<lambda>e. (fst e, JObj (snd e))) (ct_events (snd s')), client_done)"
    by (simp only: ev shown_def [abs_def])
  moreover have "ct_events (snd s') = initial_events p @ map (\<lambda>t. (ev_token, token_data t)) ts @ [e]"
    by (simp add: ev token_event_def)
  moreover have "fst e = ev_error \<or> fst e = ev_done \<and> (\<exists>i. DPersist i True \<in> set (cw_calls (fst s'))
          \<and> mp_assistantContent (pi_message i) = concat ts)"
    using kind
  proof
    assume "(\<exists>latency. e = (ev_done, done_data p (fo_usage oc) latency)) \<and> fo_status oc = st_COMPLETED \<and> ru = Inr ()"
    then have c: "fst e = ev_done" "fo_status oc = st_COMPLETED" "ru = Inr ()" by auto
    from s(1) c(2) obtain nx t now where calls: "cw_calls (fst s') = cw_calls w1 @ nx @ t"
      and a: "accounted (final_input p) (final_outcome p oc) now ru t" and content: "fo_assistantContent oc = Some (concat ts)"
      unfolding settled_stream_def s' by auto
    from accounted_completed [OF a [unfolded c(3)] c(2) content] obtain i where
      "DPersist i True \<in> set t" "mp_assistantContent (pi_message i) = concat ts" by blast
    then show ?thesis using c(1) calls by auto
  qed auto
  ultimately show ?thesis by blast
qed

section \<open>Witness\<close>

definition demo_uuids :: schema_checks where
  "demo_uuids = \<lparr>sc_uuid = (\<lambda>_. True), sc_datetime = (\<lambda>_. True)\<rparr>"

theorem browser_shows_what_was_sent_witness:
  "\<exists>p w1 s'. prepareChatStream chat_demo_env demo_provider chat_demo_input chat_demo_world = (Inr p, w1)
    \<and> stream_try 3 chat_demo_env demo_connection demo_provider chat_demo_input (chat_demo_world, stream_start) = (Inr True, s')
    \<and> client_streamChat demo_uuids False (map (\<lambda>e. utf8_encode (frame_of (he_fraction demo_connection) e)) (ct_events (snd s')))
      = (map (\<lambda>e. (fst e, JObj (snd e))) (initial_events p) @ [(ev_token, JObj (token_data (js_lit ''ok''))),
           (ev_done, JObj (done_data p None 5))], client_done)"
proof -
  obtain p w1 where p: "prepareChatStream chat_demo_env demo_provider chat_demo_input chat_demo_world = (Inr p, w1)"
    "ps_firstChunk p = ChunkToken (js_lit ''ok'')" "ps_iterator p = 1"
    and risk: "0 \<le> pd_riskScore (ps_decision p)" "pd_riskScore (ps_decision p) \<le> 100" by (rule demo_prepared)
  obtain s' where s: "stream_try 3 chat_demo_env demo_connection demo_provider chat_demo_input (chat_demo_world, stream_start) = (Inr True, s')"
    and ev: "ct_events (snd s') = initial_events p @ [token_event (js_lit ''ok''), (ev_done, done_data p None 5)]" using demo_stream [OF p] by blast
  have ids: "presentable demo_uuids p" using risk by (simp add: presentable_def demo_uuids_def)
  have units: "\<forall>t. (ev_token, token_data t) \<in> set (ct_events (snd s')) \<longrightarrow> is_jsstr t"
    by (auto simp: ev token_event_def token_data_def lit_units initial_events_def)
  have counts: "\<forall>u l. (ev_done, done_data p u l) \<in> set (ct_events (snd s')) \<longrightarrow> 0 \<le> l \<and> (\<forall>v. u = Some v \<longrightarrow> counts_ok v)"
  proof (intro allI impI)
    fix u l assume "(ev_done, done_data p u l) \<in> set (ct_events (snd s'))"
    then have "done_data p u l = done_data p None 5" by (auto simp: ev token_event_def initial_events_def)
    then have "u = None \<and> l = 5" by (cases u) (simp_all add: done_data_def js_lit_inj)
    then show "0 \<le> l \<and> (\<forall>v. u = Some v \<longrightarrow> counts_ok v)" by simp
  qed
  let ?body = "map (\<lambda>e. utf8_encode (frame_of (he_fraction demo_connection) e)) (ct_events (snd s'))"
  from browser_shows_what_was_sent [OF p(1) s _ demo_steady ids units counts refl, of False]
  have "client_streamChat demo_uuids False ?body = (map (\<lambda>e. (fst e, JObj (snd e))) (ct_events (snd s')), client_done)"
    by simp
  with p(1) s show ?thesis by (intro exI [of _ p] exI [of _ w1] exI [of _ s']) (simp add: ev token_event_def)
qed

end
