(* ===== verification/Messages.thy ===== *)
theory Messages
  imports Conversations ChatContext Jobs
begin

text \<open>
  Retained messages: the model's constraints and unique indexes (\<^verbatim>\<open>message.model.ts\<close>), the
  repository, and \<^verbatim>\<open>message.service.ts\<close>: listing, the history for the provider, and the
  transaction that stores the two messages of a completed request.
\<close>

section \<open>The model\<close>

datatype MessageRole = USER_role | ASSISTANT_role | SYSTEM_role

record Message =
  me_messageId :: string
  me_orgId :: string
  me_conversationId :: string
  me_userId :: string
  me_requestId :: "string option"
  me_role :: MessageRole
  me_contentEnc :: "EncryptedPayload option"
  me_contentStored :: bool
  me_tokenCount :: "int option"
  me_createdAt :: int

definition content_valid :: "EncryptedPayload \<Rightarrow> bool" where
  "content_valid p \<longleftrightarrow> ep_algorithm p = ENCRYPTION_ALGORITHM \<and> ep_ciphertext p \<noteq> [] \<and> ep_iv p \<noteq> []
     \<and> ep_authTag p \<noteq> [] \<and> 1 \<le> ep_keyVersion p \<and> is_safe_integer (ep_keyVersion p)"

definition message_valid :: "Message \<Rightarrow> bool" where
  "message_valid m \<longleftrightarrow> uuid_v4 (me_messageId m) \<and> uuid_v4 (me_orgId m) \<and> uuid_v4 (me_conversationId m)
     \<and> uuid_v4 (me_userId m) \<and> (case me_requestId m of None \<Rightarrow> True | Some r \<Rightarrow> length r \<le> 128)
     \<and> (case me_contentEnc m of None \<Rightarrow> True | Some p \<Rightarrow> content_valid p)
     \<and> (case me_tokenCount m of None \<Rightarrow> True | Some n \<Rightarrow> 0 \<le> n \<and> is_safe_integer n)
     \<and> me_contentStored m = (me_contentEnc m \<noteq> None)"

text \<open>The unique indexes: message ids, and one message per organisation, request and role.\<close>

definition message_unique :: "Message list \<Rightarrow> bool" where
  "message_unique ms \<longleftrightarrow> distinct (map me_messageId ms)
     \<and> distinct (map (\<lambda>m. (me_orgId m, me_requestId m, me_role m)) (filter (\<lambda>m. me_requestId m \<noteq> None) ms))"

record 's message_env = "'s conversation_env" +
  ve_messages :: "('s, Message) collection"
  ve_sessions :: "'s sessions"

section \<open>The repository\<close>

definition message_before :: "Message \<Rightarrow> Message \<Rightarrow> bool" where
  "message_before m n \<longleftrightarrow> me_createdAt m < me_createdAt n
     \<or> me_createdAt m = me_createdAt n \<and> id_less (me_messageId m) (me_messageId n)"

definition message_cursor_filter :: "MessageListCursor option \<Rightarrow> Message \<Rightarrow> bool" where
  "message_cursor_filter cursor m =
     (case cursor of
        None \<Rightarrow> True
      | Some c \<Rightarrow> mc_createdAt c < me_createdAt m
          \<or> me_createdAt m = mc_createdAt c \<and> str_less (mc_messageId c) (js_lit (me_messageId m)))"

definition findRetainedForConversation ::
  "('s, 'x) message_env_scheme \<Rightarrow> string \<Rightarrow> string \<Rightarrow> nat \<Rightarrow> MessageListCursor option \<Rightarrow> ('s, exn, Message list) act" where
  "findRetainedForConversation V orgId conversationId limit cursor =
     cl_find (ve_messages V)
       (\<lambda>m. me_orgId m = orgId \<and> me_conversationId m = conversationId \<and> message_cursor_filter cursor m)
       (\<lambda>m n. \<not> message_before n m) (Suc limit)"

definition recent_of :: "string \<Rightarrow> string \<Rightarrow> string \<Rightarrow> Message \<Rightarrow> bool" where
  "recent_of orgId userId conversationId m \<longleftrightarrow> me_orgId m = orgId \<and> me_userId m = userId
     \<and> me_conversationId m = conversationId \<and> me_contentStored m \<and> me_role m \<in> {USER_role, ASSISTANT_role}"

definition findRecentRetainedForOwner ::
  "('s, 'x) message_env_scheme \<Rightarrow> string \<Rightarrow> string \<Rightarrow> string \<Rightarrow> nat \<Rightarrow> ('s, exn, Message list) act" where
  "findRecentRetainedForOwner V orgId userId conversationId limit =
     cl_find (ve_messages V) (recent_of orgId userId conversationId) (\<lambda>m n. \<not> message_before m n) limit"

definition of_request :: "string \<Rightarrow> string \<Rightarrow> Message \<Rightarrow> bool" where
  "of_request orgId requestId m \<longleftrightarrow> me_orgId m = orgId \<and> me_requestId m = Some requestId"

definition countByRequest :: "('s, 'x) message_env_scheme \<Rightarrow> string \<Rightarrow> string \<Rightarrow> ('s, exn, nat) act" where
  "countByRequest V orgId requestId = cl_count (ve_messages V) (of_request orgId requestId)"

definition createPair :: "('s, 'x) message_env_scheme \<Rightarrow> Message list \<Rightarrow> ('s, exn, unit) act" where
  "createPair V records = cl_create (ve_messages V) records"

definition incrementConversationActivity ::
  "('s, 'x) message_env_scheme \<Rightarrow> string \<Rightarrow> string \<Rightarrow> string \<Rightarrow> int \<Rightarrow> ('s, exn, bool) act" where
  "incrementConversationActivity V orgId userId conversationId occurredAt =
     act_bind (cl_update (ve_conversations V) (\<lambda>c. owned_by orgId userId c \<and> cn_conversationId c = conversationId)
        (\<lambda>c. c\<lparr>cn_messageCount := cn_messageCount c + 2, cn_lastMessageAt := Some occurredAt\<rparr>))
       (\<lambda>matched. act_ret (matched \<noteq> None))"

section \<open>The service\<close>

definition PROVIDER_HISTORY_RECORD_LIMIT :: nat where "PROVIDER_HISTORY_RECORD_LIMIT = 20"

definition content_context :: "string \<Rightarrow> string \<Rightarrow> string \<Rightarrow> EncryptionContext" where
  "content_context orgId conversationId messageId = \<lparr>ec_orgId = orgId, ec_entityType = MESSAGE_entity,
     ec_entityId = messageId, ec_fieldName = ''content'', ec_conversationId = conversationId, ec_messageId = Some messageId\<rparr>"

definition decryptMessageContent ::
  "('s, 'x) message_env_scheme \<Rightarrow> Message \<Rightarrow> ('s \<times> EncryptionKeyring option, exn, jsstr option) act" where
  "decryptMessageContent V m =
     (case me_contentEnc m of
        None \<Rightarrow> act_ret None
      | Some p \<Rightarrow> act_bind (reveal (ve_encryption V) p (content_context (me_orgId m) (me_conversationId m) (me_messageId m)))
                    (\<lambda>t. act_ret (Some t)))"

definition persistenceError :: exn where
  "persistenceError = app_exn 503 ''MESSAGE_PERSISTENCE_UNAVAILABLE''
     ''Completed message persistence is temporarily unavailable.''"

definition historyUnavailable :: exn where
  "historyUnavailable = app_exn 503 ''MESSAGE_HISTORY_UNAVAILABLE'' ''Conversation memory is temporarily unavailable.''"

record SafeMessageSummary =
  sm_messageId :: string
  sm_role :: MessageRole
  sm_tokenCount :: "int option"
  sm_createdAt :: int
  sm_content :: "jsstr option"

text \<open>\<^verbatim>\<open>contentAvailable\<close> tells whether \<^verbatim>\<open>content\<close> is present.\<close>

definition toSafeMessageSummary ::
  "('s, 'x) message_env_scheme \<Rightarrow> Message \<Rightarrow> ('s \<times> EncryptionKeyring option, exn, SafeMessageSummary) act" where
  "toSafeMessageSummary V m = act_bind (decryptMessageContent V m) (\<lambda>content.
     act_ret \<lparr>sm_messageId = me_messageId m, sm_role = me_role m, sm_tokenCount = me_tokenCount m,
              sm_createdAt = me_createdAt m, sm_content = content\<rparr>)"

definition listMessagesForConversationOwner ::
  "'s message_env \<Rightarrow> string \<Rightarrow> string \<Rightarrow> string \<Rightarrow> nat \<Rightarrow> MessageListCursor option \<Rightarrow>
   ('s \<times> EncryptionKeyring option, exn, SafeMessageSummary list \<times> jsstr option) act" where
  "listMessagesForConversationOwner V orgId userId conversationId limit cursor =
     act_then (getConversationForOwner (conversation_env.truncate V) orgId userId conversationId)
    (act_bind (on_store (findRetainedForConversation V orgId conversationId limit cursor)) (\<lambda>messages.
     act_bind (act_map (toSafeMessageSummary V) (page_items limit messages)) (\<lambda>items.
       act_ret (items,
         (if limit < length messages \<and> items \<noteq> []
          then Some (encodeMessageCursor \<lparr>mc_createdAt = sm_createdAt (last items),
                 mc_messageId = js_lit (sm_messageId (last items))\<rparr>) else None)))))"

text \<open>The callback of \<^verbatim>\<open>flatMap\<close> in \<^verbatim>\<open>loadRecentProviderHistory\<close>.\<close>

fun recall ::
  "('s, 'x) message_env_scheme \<Rightarrow> Message list \<Rightarrow> ('s \<times> EncryptionKeyring option, exn, RetainedConversationMessage list) act" where
  "recall V [] = act_ret []"
| "recall V (m # ms) =
     (if me_requestId m = None \<or> me_role m = SYSTEM_role then recall V ms
      else act_bind (decryptMessageContent V m) (\<lambda>content.
        case content of
          None \<Rightarrow> act_throw historyUnavailable
        | Some t \<Rightarrow> act_bind (recall V ms) (\<lambda>rest.
            act_ret (\<lparr>rm_requestId = the (me_requestId m),
              rm_role = (if me_role m = USER_role then retained_user else retained_assistant), rm_content = t\<rparr> # rest))))"

definition loadRecentProviderHistory ::
  "('s, 'x) message_env_scheme \<Rightarrow> string \<Rightarrow> string \<Rightarrow> string \<Rightarrow>
   ('s \<times> EncryptionKeyring option, exn, RetainedConversationMessage list) act" where
  "loadRecentProviderHistory V orgId userId conversationId =
     act_catch
       (act_bind (on_store (findRecentRetainedForOwner V orgId userId conversationId PROVIDER_HISTORY_RECORD_LIMIT))
          (\<lambda>messages. recall V (rev messages)))
       (\<lambda>_. act_throw historyUnavailable)"

record PersistCompletedMessagePairInput =
  pp_orgId :: string
  pp_userId :: string
  pp_conversationId :: string
  pp_requestId :: string
  pp_retentionMode :: RetentionMode
  pp_userContent :: jsstr
  pp_assistantContent :: jsstr
  pp_inputTokenCount :: "int option"
  pp_outputTokenCount :: "int option"
  pp_occurredAt :: "int option"

definition message_record ::
  "PersistCompletedMessagePairInput \<Rightarrow> string \<Rightarrow> MessageRole \<Rightarrow> EncryptedPayload option \<Rightarrow> int option \<Rightarrow> int \<Rightarrow> Message" where
  "message_record i messageId role content tokens t =
     \<lparr>me_messageId = messageId, me_orgId = pp_orgId i, me_conversationId = pp_conversationId i, me_userId = pp_userId i,
      me_requestId = Some (pp_requestId i), me_role = role, me_contentEnc = content, me_contentStored = (content \<noteq> None),
      me_tokenCount = tokens, me_createdAt = t\<rparr>"

definition createEncryptedRecords ::
  "('s, 'x) message_env_scheme \<Rightarrow> PersistCompletedMessagePairInput \<Rightarrow> string \<Rightarrow> string \<Rightarrow> int \<Rightarrow> int \<Rightarrow>
   ('s \<times> EncryptionKeyring option, exn, Message list) act" where
  "createEncryptedRecords V i userMessageId assistantMessageId t t' =
     act_bind (requireEncryptionService (ve_encryption V)) (\<lambda>kr.
     act_bind (on_store (encrypt (en_crypto (ve_encryption V)) kr (pp_userContent i)
                 (content_context (pp_orgId i) (pp_conversationId i) userMessageId))) (\<lambda>u.
     act_bind (on_store (encrypt (en_crypto (ve_encryption V)) kr (pp_assistantContent i)
                 (content_context (pp_orgId i) (pp_conversationId i) assistantMessageId))) (\<lambda>a.
       act_ret [message_record i userMessageId USER_role (Some u) (pp_inputTokenCount i) t,
                message_record i assistantMessageId ASSISTANT_role (Some a) (pp_outputTokenCount i) t'])))"

definition completed_records ::
  "('s, 'x) message_env_scheme \<Rightarrow> PersistCompletedMessagePairInput \<Rightarrow> string \<Rightarrow> string \<Rightarrow> int \<Rightarrow> int \<Rightarrow>
   ('s \<times> EncryptionKeyring option, exn, Message list) act" where
  "completed_records V i userMessageId assistantMessageId t t' =
     (if pp_retentionMode i = METADATA_ONLY
      then act_ret [message_record i userMessageId USER_role None (pp_inputTokenCount i) t,
                    message_record i assistantMessageId ASSISTANT_role None (pp_outputTokenCount i) t']
      else createEncryptedRecords V i userMessageId assistantMessageId t t')"

definition pair_transaction ::
  "('s, 'x) message_env_scheme \<Rightarrow> PersistCompletedMessagePairInput \<Rightarrow> Message list \<Rightarrow> int \<Rightarrow> ('s, exn, unit) act" where
  "pair_transaction V i records t' =
     act_bind (countByRequest V (pp_orgId i) (pp_requestId i)) (\<lambda>existingCount.
       if existingCount = 2 then act_ret ()
       else if existingCount \<noteq> 0 then act_throw persistenceError
       else act_then (createPair V records)
             (act_bind (incrementConversationActivity V (pp_orgId i) (pp_userId i) (pp_conversationId i) t') (\<lambda>updated.
                if \<not> updated then act_throw conversation_not_found else act_ret ())))"

definition rethrow_app :: "exn \<Rightarrow> exn" where
  "rethrow_app e = (case e of ExnApp a \<Rightarrow> ExnApp a | _ \<Rightarrow> persistenceError)"

definition draw_uuid :: "('s, 'x) message_env_scheme \<Rightarrow> ('s \<times> EncryptionKeyring option, exn, string) act" where
  "draw_uuid V w = (case ve_randomUUID V (fst w) of (i, s') \<Rightarrow> (Inr i, (s', snd w)))"

definition persistCompletedMessagePair ::
  "('s, 'x) message_env_scheme \<Rightarrow> PersistCompletedMessagePairInput \<Rightarrow> ('s \<times> EncryptionKeyring option, exn, unit) act" where
  "persistCompletedMessagePair V i =
     act_bind (act_read (\<lambda>w. case pp_occurredAt i of None \<Rightarrow> ve_now V (fst w) | Some t \<Rightarrow> t)) (\<lambda>occurredAt.
     act_bind (draw_uuid V) (\<lambda>userMessageId.
     act_bind (draw_uuid V) (\<lambda>assistantMessageId.
     act_bind (completed_records V i userMessageId assistantMessageId occurredAt (occurredAt + 1)) (\<lambda>records.
     act_then (on_store (se_start (ve_sessions V)))
       (act_finally
         (act_catch (on_store (se_transaction (ve_sessions V) (pair_transaction V i records (occurredAt + 1))))
            (\<lambda>e. act_throw (rethrow_app e)))
         (on_store (se_end (ve_sessions V))))))))"

section \<open>The transaction\<close>

abbreviation messages_of :: "('s, 'x) message_env_scheme \<Rightarrow> 's \<Rightarrow> Message list" where
  "messages_of V \<equiv> cl_docs (ve_messages V)"

abbreviation conversations_of :: "('s, 'x) message_env_scheme \<Rightarrow> 's \<Rightarrow> Conversation list" where
  "conversations_of V \<equiv> cl_docs (ve_conversations V)"

definition message_committed :: "('s, 'x) message_env_scheme \<Rightarrow> 's \<Rightarrow> Message list \<times> Conversation list" where
  "message_committed V s = (messages_of V s, conversations_of V s)"

text \<open>What the repositories promise: the laws of the two collections, which are separate, and of
  transactions; identifiers, random numbers and the clock are not stored.\<close>

definition message_laws :: "('s, 'x) message_env_scheme \<Rightarrow> bool" where
  "message_laws V \<longleftrightarrow> collection_laws message_valid message_unique (ve_messages V)
     \<and> collection_laws conversation_valid conversation_unique (ve_conversations V)
     \<and> (\<forall>p. leaves (conversations_of V) (cl_count (ve_messages V) p))
     \<and> (\<forall>ds. leaves (conversations_of V) (cl_create (ve_messages V) ds))
     \<and> (\<forall>p f. leaves (messages_of V) (cl_update (ve_conversations V) p f))
     \<and> transaction_laws (message_committed V) (ve_sessions V)
     \<and> draws_leave (message_committed V) (en_crypto (ve_encryption V))
     \<and> (\<forall>s. message_committed V (snd (ve_randomUUID V s)) = message_committed V s)"

lemma message_lawsD:
  assumes "message_laws V"
  shows "count_law (ve_messages V)" and "create_law message_valid message_unique (ve_messages V)"
    and "find_law (ve_messages V)" and "update_law (ve_conversations V)"
    and "leaves (conversations_of V) (cl_count (ve_messages V) p)" and "leaves (conversations_of V) (cl_create (ve_messages V) ds)"
    and "leaves (messages_of V) (cl_update (ve_conversations V) q f)"
    and "transaction_laws (message_committed V) (ve_sessions V)"
    and "draws_leave (message_committed V) (en_crypto (ve_encryption V))"
    and "message_committed V (snd (ve_randomUUID V s)) = message_committed V s"
  using assms by (simp_all add: message_laws_def collection_laws_def)

text \<open>The two messages are stored together with the activity of their conversation.\<close>

definition pair_stored ::
  "('s, 'x) message_env_scheme \<Rightarrow> PersistCompletedMessagePairInput \<Rightarrow> Message list \<Rightarrow> int \<Rightarrow> 's \<Rightarrow> 's \<Rightarrow> bool" where
  "pair_stored V i records t s s' \<longleftrightarrow>
     filter (of_request (pp_orgId i) (pp_requestId i)) (messages_of V s) = []
   \<and> messages_of V s' = messages_of V s @ records \<and> list_all message_valid records
   \<and> message_unique (messages_of V s @ records)
   \<and> (\<exists>xs c ys. conversations_of V s = xs @ c # ys \<and> owned_by (pp_orgId i) (pp_userId i) c
        \<and> cn_conversationId c = pp_conversationId i
        \<and> conversations_of V s' = xs @ c\<lparr>cn_messageCount := cn_messageCount c + 2, cn_lastMessageAt := Some t\<rparr> # ys)"

lemma pair_stored_cong:
  "message_committed V s0 = message_committed V s \<Longrightarrow> message_committed V s1 = message_committed V s' \<Longrightarrow>
   pair_stored V i records t s0 s1 = pair_stored V i records t s s'"
  by (simp add: pair_stored_def message_committed_def)

lemma pair_transaction_run:
  assumes laws: "message_laws V" and run: "pair_transaction V i records t s = (Inr (), s')"
  shows "pair_stored V i records t s s'
    \<or> message_committed V s' = message_committed V s
      \<and> length (filter (of_request (pp_orgId i) (pp_requestId i)) (messages_of V s)) = 2"
proof -
  note L = message_lawsD [OF laws]
  obtain n s1 where c: "cl_count (ve_messages V) (of_request (pp_orgId i) (pp_requestId i)) s = (Inr n, s1)"
    using run by (auto simp: pair_transaction_def countByRequest_def act_bind_apply split: prod.splits sum.splits)
  have n: "n = length (filter (of_request (pp_orgId i) (pp_requestId i)) (messages_of V s))"
    and m1: "messages_of V s1 = messages_of V s" and v1: "conversations_of V s1 = conversations_of V s"
    using countD [OF L(1) c] leavesD [OF L(5) c] by simp_all
  show ?thesis
  proof (cases "n = 2")
    case True
    with run c have "s' = s1" by (simp add: pair_transaction_def countByRequest_def act_bind_apply)
    with True n m1 v1 show ?thesis by (simp add: message_committed_def)
  next
    case False
    with run c have n0: "n = 0" by (auto simp: pair_transaction_def countByRequest_def act_bind_apply split: if_splits)
    with run c obtain s2 where cr: "cl_create (ve_messages V) records s1 = (Inr (), s2)"
      by (auto simp: pair_transaction_def countByRequest_def createPair_def act_bind_apply act_then_apply
          split: prod.splits sum.splits)
    with run c n0 obtain d where
      u: "cl_update (ve_conversations V) (\<lambda>c. owned_by (pp_orgId i) (pp_userId i) c \<and> cn_conversationId c = pp_conversationId i)
        (\<lambda>c. c\<lparr>cn_messageCount := cn_messageCount c + 2, cn_lastMessageAt := Some t\<rparr>) s2 = (Inr (Some d), s')"
      by (auto simp: pair_transaction_def countByRequest_def createPair_def incrementConversationActivity_def
          act_bind_apply act_then_apply split: prod.splits sum.splits if_splits)
    have "messages_of V s' = messages_of V s @ records \<and> list_all message_valid records
        \<and> message_unique (messages_of V s @ records)" "conversations_of V s2 = conversations_of V s"
      using createD [OF L(2) cr] leavesD [OF L(7) u] leavesD [OF L(6) cr] m1 v1 by simp_all
    with updateD(2) [OF L(4) u refl] n n0 show ?thesis by (auto simp: pair_stored_def)
  qed
qed

text \<open>The records: their identity, times and, with encrypted storage, their contents.\<close>

definition pair_records ::
  "('s, 'x) message_env_scheme \<Rightarrow> PersistCompletedMessagePairInput \<Rightarrow> int \<Rightarrow> EncryptionKeyring option \<Rightarrow> Message list \<Rightarrow> bool" where
  "pair_records V i t service records \<longleftrightarrow>
     (\<exists>ui ai uc ac. records = [message_record i ui USER_role uc (pp_inputTokenCount i) t,
                              message_record i ai ASSISTANT_role ac (pp_outputTokenCount i) (t + 1)]
      \<and> (if pp_retentionMode i = METADATA_ONLY then uc = None \<and> ac = None
         else \<exists>kr u a s1 s2 s3 s4. service = Some kr \<and> uc = Some u \<and> ac = Some a
           \<and> encrypt (en_crypto (ve_encryption V)) kr (pp_userContent i) (content_context (pp_orgId i) (pp_conversationId i) ui) s1 = (Inr u, s2)
           \<and> encrypt (en_crypto (ve_encryption V)) kr (pp_assistantContent i) (content_context (pp_orgId i) (pp_conversationId i) ai) s3 = (Inr a, s4)))"

text \<open>The encryption service: a running one is used as it is; otherwise it is started from the
  configuration, which draws random numbers only.\<close>

lemma canaries_leave:
  assumes "draws_leave data C"
  shows "data (snd (act_for vs (check_canary C kr) s)) = data s"
proof (induction vs arbitrary: s)
  case (Cons v vs)
  obtain r s1 where e: "encrypt C (kr\<lparr>kr_activeVersion := v\<rparr>) canary canary_context s = (r, s1)" by fastforce
  then have "data s1 = data s" using encrypt_leaves [OF assms] by (metis snd_conv)
  moreover have "snd (check_canary C kr v s) = s1"
    by (simp add: check_canary_def act_bind_apply e act_throw_def split: sum.split)
  ultimately have "data (snd (check_canary C kr v s)) = data s" by simp
  with Cons.IH show ?case by (auto simp: act_then_apply act_bind_apply split: prod.splits sum.splits)
qed simp

lemma require_run:
  assumes "draws_leave data (en_crypto E)" and run: "requireEncryptionService E w = (r, w')"
  shows "data (fst w') = data (fst w)" and "\<And>kr. r = Inr kr \<Longrightarrow> snd w' = Some kr" and "snd w \<noteq> None \<Longrightarrow> w' = w"
proof -
  have "data (fst (snd (initializeEncryption E w))) = data (fst w)"
  proof (cases "en_keysJson E"; cases "en_activeVersion E")
    fix keysJson version assume c: "en_keysJson E = Some keysJson" "en_activeVersion E = Some version"
    show ?thesis
    proof (cases "loadEncryptionKeyring keysJson version")
      case (Inr kr)
      obtain x s' where f: "act_for (map fst (kr_keys kr)) (check_canary (en_crypto E) kr) (fst w) = (x, s')" by fastforce
      then have "data s' = data (fst w)" using canaries_leave [OF assms(1)] by (metis snd_conv)
      then show ?thesis by (cases x) (simp_all add: initializeEncryption_def c Inr f)
    qed (simp add: initializeEncryption_def c)
  qed (simp_all add: initializeEncryption_def)
  with run show "data (fst w') = data (fst w)" "\<And>kr. r = Inr kr \<Longrightarrow> snd w' = Some kr" "snd w \<noteq> None \<Longrightarrow> w' = w"
    by (auto simp: requireEncryptionService_def split: prod.splits sum.splits option.splits if_splits)
qed

lemma completed_records_run:
  assumes laws: "message_laws V" and run: "completed_records V i ui ai t (t + 1) w = (r, w')"
  shows "message_committed V (fst w') = message_committed V (fst w) \<and> (snd w \<noteq> None \<longrightarrow> snd w' = snd w)
    \<and> (\<forall>records. r = Inr records \<longrightarrow> pair_records V i t (snd w') records)"
proof (cases "pp_retentionMode i = METADATA_ONLY")
  case True
  with run show ?thesis by (auto simp: completed_records_def pair_records_def)
next
  case False
  let ?C = "en_crypto (ve_encryption V)"
  let ?uc = "content_context (pp_orgId i) (pp_conversationId i) ui" and ?ac = "content_context (pp_orgId i) (pp_conversationId i) ai"
  obtain q w1 where q: "requireEncryptionService (ve_encryption V) w = (q, w1)" by (rule prod.exhaust)
  note rq = require_run [OF message_lawsD(9) [OF laws] q]
  show ?thesis
  proof (cases q)
    case (Inl e)
    with run rq(1,3) False show ?thesis
      by (auto simp: completed_records_def createEncryptedRecords_def act_bind_apply q)
  next
    case (Inr kr)
    obtain ru s1 where u: "encrypt ?C kr (pp_userContent i) ?uc (fst w1) = (ru, s1)" by fastforce
    obtain ra s2 where a: "encrypt ?C kr (pp_assistantContent i) ?ac s1 = (ra, s2)" by fastforce
    have k: "message_committed V s1 = message_committed V (fst w)" "message_committed V s2 = message_committed V s1"
      using encrypt_leaves [OF message_lawsD(9) [OF laws]] u a rq(1) by (metis snd_conv)+
    have pr: "pair_records V i t (Some kr) [message_record i ui USER_role (Some p) (pp_inputTokenCount i) t,
        message_record i ai ASSISTANT_role (Some p') (pp_outputTokenCount i) (t + 1)]"
      if "ru = Inr p" and "ra = Inr p'" for p p'
      unfolding pair_records_def
      by (rule exI [of _ ui], rule exI [of _ ai], rule exI [of _ "Some p"], rule exI [of _ "Some p'"])
        (use False u a that in auto)
    show ?thesis
      using run False u a k pr rq(2) [OF Inr] rq(3)
      by (auto simp: completed_records_def createEncryptedRecords_def act_bind_apply q Inr on_store_def split: sum.splits)
  qed
qed

lemma draw_uuid_run:
  assumes "message_laws V"
  obtains ui w' where "draw_uuid V w = (Inr ui, w')" and "message_committed V (fst w') = message_committed V (fst w)" and "snd w' = snd w"
proof -
  obtain ui s' where "ve_randomUUID V (fst w) = (ui, s')" by fastforce
  moreover from this have "message_committed V s' = message_committed V (fst w)"
    using message_lawsD(10) [OF assms, of "fst w"] by simp
  ultimately show ?thesis using that [of ui "(s', snd w)"] by (simp add: draw_uuid_def)
qed

text \<open>The time of the pair: the given one, or the clock at the call.\<close>

definition pair_time :: "('s, 'x) message_env_scheme \<Rightarrow> PersistCompletedMessagePairInput \<Rightarrow> 's \<Rightarrow> int" where
  "pair_time V i s = (case pp_occurredAt i of None \<Rightarrow> ve_now V s | Some t \<Rightarrow> t)"

lemma persist_run:
  assumes laws: "message_laws V"
    and run: "persistCompletedMessagePair V i w = (r, w')"
  shows "message_committed V (fst w') = message_committed V (fst w)
      \<and> (r = Inr () \<longrightarrow> length (filter (of_request (pp_orgId i) (pp_requestId i)) (messages_of V (fst w))) = 2)
    \<or> (\<exists>t records. t = pair_time V i (fst w)
        \<and> pair_records V i t (snd w') records \<and> pair_stored V i records (t + 1) (fst w) (fst w'))"
    and "snd w \<noteq> None \<Longrightarrow> snd w' = snd w"
proof -
  define t where "t = (case pp_occurredAt i of None \<Rightarrow> ve_now V (fst w) | Some t \<Rightarrow> t)"
  obtain ui w1 where u: "draw_uuid V w = (Inr ui, w1)" "message_committed V (fst w1) = message_committed V (fst w)" "snd w1 = snd w"
    by (rule draw_uuid_run [OF laws])
  obtain ai w2 where a: "draw_uuid V w1 = (Inr ai, w2)" "message_committed V (fst w2) = message_committed V (fst w1)" "snd w2 = snd w1"
    by (rule draw_uuid_run [OF laws])
  obtain rr w3 where c: "completed_records V i ui ai t (t + 1) w2 = (rr, w3)" by (rule prod.exhaust)
  note cc = completed_records_run [OF laws c]
  have k3: "message_committed V (fst w3) = message_committed V (fst w)" "snd w \<noteq> None \<Longrightarrow> snd w3 = snd w" using cc u a by simp_all
  obtain r4 s4 where st: "se_start (ve_sessions V) (fst w3) = (r4, s4)" by fastforce
  note tl = transaction_leaves [OF message_lawsD(8) [OF laws]]
  have k4: "message_committed V s4 = message_committed V (fst w)"
    using leavesD [OF conjunct1 [OF tl] st] k3 by simp
  have end_k: "message_committed V s' = message_committed V s" if "se_end (ve_sessions V) s = (x, s')" for s x s'
    by (rule leavesD [OF conjunct2 [OF tl] that])
  have "(message_committed V (fst w') = message_committed V (fst w)
      \<and> (r = Inr () \<longrightarrow> length (filter (of_request (pp_orgId i) (pp_requestId i)) (messages_of V (fst w))) = 2)
    \<or> (\<exists>t records. t = pair_time V i (fst w)
        \<and> pair_records V i t (snd w') records \<and> pair_stored V i records (t + 1) (fst w) (fst w'))) \<and> (snd w \<noteq> None \<longrightarrow> snd w' = snd w)"
  proof (cases rr)
    case (Inl e)
    then show ?thesis
      using run u a c k3 by (auto simp: persistCompletedMessagePair_def act_bind_apply t_def [symmetric])
  next
    case (Inr records)
    then have rec: "pair_records V i t (snd w3) records" using cc u a by simp
    show ?thesis
    proof (cases r4)
      case (Inl e)
      then show ?thesis
        using run u a c k3 k4 st Inr
        by (auto simp: persistCompletedMessagePair_def act_bind_apply act_then_apply on_store_def t_def [symmetric])
    next
      case r4: (Inr x)
      obtain r5 s5 where tr: "se_transaction (ve_sessions V) (pair_transaction V i records (t + 1)) s4 = (r5, s5)" by fastforce
      obtain r6 s6 where en: "se_end (ve_sessions V) s5 = (r6, s6)" by fastforce
      have w': "w' = (s6, snd w3)" and r: "r = Inr () \<Longrightarrow> r5 = Inr ()"
        using run u a c k3 st Inr r4 tr en
        by (auto simp: persistCompletedMessagePair_def act_bind_apply act_then_apply act_finally_apply act_catch_apply
            on_store_def t_def [symmetric] split: sum.splits)
      have k6: "message_committed V s6 = message_committed V s5" by (rule end_k [OF en])
      from transactionD [OF message_lawsD(8) [OF laws] tr] show ?thesis
      proof
        assume "r5 \<noteq> Inr () \<and> message_committed V s5 = message_committed V s4"
        then show ?thesis using w' r k6 k4 k3(2) by auto
      next
        assume "\<exists>s0 s1. message_committed V s0 = message_committed V s4
          \<and> pair_transaction V i records (t + 1) s0 = (Inr (), s1) \<and> message_committed V s5 = message_committed V s1"
        then obtain s0 s1 where s01: "message_committed V s0 = message_committed V (fst w)"
          "pair_transaction V i records (t + 1) s0 = (Inr (), s1)" "message_committed V s6 = message_committed V s1"
          using k4 k6 by auto
        from pair_transaction_run [OF laws s01(2)] show ?thesis
        proof
          assume "pair_stored V i records (t + 1) s0 s1"
          with pair_stored_cong [OF s01(1) s01(3) [symmetric]]
          have "pair_stored V i records (t + 1) (fst w) (fst w')" using w' by simp
          moreover have "t = pair_time V i (fst w)" by (simp add: t_def pair_time_def)
          ultimately show ?thesis using rec w' k3(2) by auto
        next
          assume "message_committed V s1 = message_committed V s0
            \<and> length (filter (of_request (pp_orgId i) (pp_requestId i)) (messages_of V s0)) = 2"
          with s01(1,3) w' k3(2) show ?thesis by (auto simp: message_committed_def)
        qed
      qed
    qed
  qed
  then show "message_committed V (fst w') = message_committed V (fst w)
      \<and> (r = Inr () \<longrightarrow> length (filter (of_request (pp_orgId i) (pp_requestId i)) (messages_of V (fst w))) = 2)
    \<or> (\<exists>t records. t = pair_time V i (fst w)
        \<and> pair_records V i t (snd w') records \<and> pair_stored V i records (t + 1) (fst w) (fst w'))"
    and "snd w \<noteq> None \<Longrightarrow> snd w' = snd w" by simp_all
qed

section \<open>The pair of a completed request\<close>

text \<open>
  C28. The two messages of a completed request are stored together or not at all, and only when the
  request has no message yet: the call leaves the database unchanged (and then succeeds only if the
  request already had its two messages), or it appends exactly the user's and the assistant's
  message, one millisecond apart, keeps the unique indexes and counts them in the conversation. This
  holds in both retention modes and whether or not the encryption service is running or configured.
\<close>

theorem message_pair_stored_once:
  assumes "message_laws V" and "persistCompletedMessagePair V i w = (r, w')"
  shows "messages_of V (fst w') = messages_of V (fst w) \<and> conversations_of V (fst w') = conversations_of V (fst w)
      \<and> (r = Inr () \<longrightarrow> length (filter (of_request (pp_orgId i) (pp_requestId i)) (messages_of V (fst w))) = 2)
    \<or> filter (of_request (pp_orgId i) (pp_requestId i)) (messages_of V (fst w)) = []
      \<and> (\<exists>u a. messages_of V (fst w') = messages_of V (fst w) @ [u, a]
          \<and> filter (of_request (pp_orgId i) (pp_requestId i)) (messages_of V (fst w')) = [u, a]
          \<and> me_role u = USER_role \<and> me_role a = ASSISTANT_role \<and> me_createdAt a = me_createdAt u + 1
          \<and> me_contentStored u = (pp_retentionMode i \<noteq> METADATA_ONLY) \<and> me_contentStored a = (pp_retentionMode i \<noteq> METADATA_ONLY)
          \<and> message_unique (messages_of V (fst w'))
          \<and> (\<exists>xs c ys. conversations_of V (fst w) = xs @ c # ys \<and> owned_by (pp_orgId i) (pp_userId i) c
              \<and> cn_conversationId c = pp_conversationId i
              \<and> conversations_of V (fst w') = xs @ c\<lparr>cn_messageCount := cn_messageCount c + 2,
                   cn_lastMessageAt := Some (me_createdAt a)\<rparr> # ys))"
  using persist_run(1) [OF assms]
proof
  assume "\<exists>t records. t = pair_time V i (fst w)
        \<and> pair_records V i t (snd w') records \<and> pair_stored V i records (t + 1) (fst w) (fst w')"
  then obtain t records where rec: "pair_records V i t (snd w') records" and st: "pair_stored V i records (t + 1) (fst w) (fst w')"
    by blast
  from rec obtain ui ai uc ac where records: "records = [message_record i ui USER_role uc (pp_inputTokenCount i) t,
      message_record i ai ASSISTANT_role ac (pp_outputTokenCount i) (t + 1)]"
    and stored: "(uc \<noteq> None) = (pp_retentionMode i \<noteq> METADATA_ONLY)" "(ac \<noteq> None) = (pp_retentionMode i \<noteq> METADATA_ONLY)"
    unfolding pair_records_def by (auto split: if_splits)
  from st have docs: "messages_of V (fst w') = messages_of V (fst w) @ records"
    "filter (of_request (pp_orgId i) (pp_requestId i)) (messages_of V (fst w)) = []"
    "message_unique (messages_of V (fst w) @ records)"
    by (simp_all add: pair_stored_def)
  from st have conv: "\<exists>xs c ys. conversations_of V (fst w) = xs @ c # ys \<and> owned_by (pp_orgId i) (pp_userId i) c
      \<and> cn_conversationId c = pp_conversationId i
      \<and> conversations_of V (fst w') = xs @ c\<lparr>cn_messageCount := cn_messageCount c + 2, cn_lastMessageAt := Some (t + 1)\<rparr> # ys"
    by (simp add: pair_stored_def)
  show ?thesis
    by (rule disjI2, rule conjI [OF docs(2)],
        rule exI [of _ "message_record i ui USER_role uc (pp_inputTokenCount i) t"],
        rule exI [of _ "message_record i ai ASSISTANT_role ac (pp_outputTokenCount i) (t + 1)"])
      (use docs conv stored in \<open>simp add: records message_record_def of_request_def\<close>)
qed (simp add: message_committed_def)

section \<open>Recall\<close>

lemma sort_newest:
  assumes "\<forall>x \<in> set xs. \<not> le x u \<and> \<not> le x a" and "\<not> le u a"
  shows "sort_by le (xs @ [u, a]) = a # u # sort_by le xs"
  using assms by (induction xs) auto

lemma decrypt_content_ready:
  "snd w = Some kr \<Longrightarrow> snd (decryptMessageContent V m w) = w"
  by (simp add: decryptMessageContent_def act_bind_apply reveal_ready split: option.split sum.split)

lemma recall_ready: "snd w = Some kr \<Longrightarrow> snd (recall V ms w) = w"
proof (induction ms)
  case (Cons m ms)
  obtain rd where d: "decryptMessageContent V m w = (rd, w)"
    using decrypt_content_ready [OF Cons.prems, of V m] by (metis prod.collapse)
  obtain rr where r: "recall V ms w = (rr, w)" using Cons by (metis prod.collapse)
  show ?case by (simp add: act_bind_apply d r split: sum.split option.split)
qed simp

lemma recall_suffix:
  assumes "snd w = Some kr" and "recall V (ms @ ns) w = (Inr h, w')"
  shows "\<exists>h0 h1. h = h0 @ h1 \<and> recall V ns w = (Inr h1, w)"
  using assms(2)
proof (induction ms arbitrary: h)
  case Nil
  then show ?case using recall_ready [OF assms(1), of V ns] by auto
next
  case (Cons m ms)
  show ?case
  proof (cases "me_requestId m = None \<or> me_role m = SYSTEM_role")
    case True
    with Cons show ?thesis by auto
  next
    case False
    have d: "snd (decryptMessageContent V m w) = w" by (rule decrypt_content_ready [OF assms(1)])
    have r: "snd (recall V (ms @ ns) w) = w" by (rule recall_ready [OF assms(1)])
    from False Cons.prems d obtain x h' where "recall V (ms @ ns) w = (Inr h', w')" "h = x # h'"
      by (auto simp: act_bind_apply split: prod.splits sum.splits option.splits)
    with Cons.IH show ?thesis by (metis append_Cons)
  qed
qed

text \<open>
  C29. What is stored is what the next request recalls. With encrypted storage and a running encryption
  service: after the pair of a request was stored later than the owner's other messages of the
  conversation (at the given time or, as in the chat, by the clock of the call), every history that
  \<^verbatim>\<open>loadRecentProviderHistory\<close> returns ends with the user's content and the assistant's content of
  this request, unchanged. The contents are not empty and have no lone surrogate: an empty one cannot
  be stored, and UTF-8 replaces a lone surrogate.
\<close>

theorem stored_pair_recalled:
  assumes laws: "message_laws V" and ready: "service_ready (ve_encryption V) w"
    and mode: "pp_retentionMode i = ENCRYPTED_STORAGE"
    and texts: "pp_userContent i \<noteq> []" "well_formed (pp_userContent i)"
      "pp_assistantContent i \<noteq> []" "well_formed (pp_assistantContent i)"
    and fresh: "filter (of_request (pp_orgId i) (pp_requestId i)) (messages_of V (fst w)) = []"
    and newest: "\<forall>m \<in> set (messages_of V (fst w)). recent_of (pp_orgId i) (pp_userId i) (pp_conversationId i) m \<longrightarrow>
      me_createdAt m < (case pp_occurredAt i of None \<Rightarrow> ve_now V (fst w) | Some t \<Rightarrow> t)"
    and run: "persistCompletedMessagePair V i w = (Inr (), w')"
    and history: "loadRecentProviderHistory V (pp_orgId i) (pp_userId i) (pp_conversationId i) w' = (Inr h, w'')"
  shows "\<exists>h0. h = h0 @ [\<lparr>rm_requestId = pp_requestId i, rm_role = retained_user, rm_content = pp_userContent i\<rparr>,
                        \<lparr>rm_requestId = pp_requestId i, rm_role = retained_assistant, rm_content = pp_assistantContent i\<rparr>]"
proof -
  let ?recent = "recent_of (pp_orgId i) (pp_userId i) (pp_conversationId i)" and ?le = "\<lambda>m n. \<not> message_before m n"
  from ready obtain kr where kr: "snd w = Some kr" "key_available kr kr" "crypto_laws (en_crypto (ve_encryption V))"
    by (auto simp: service_ready_def)
  define t where "t = pair_time V i (fst w)"
  have sw: "snd w' = Some kr" using persist_run(2) [OF laws run] kr(1) by simp
  obtain records where rec: "pair_records V i t (snd w') records" and st: "pair_stored V i records (t + 1) (fst w) (fst w')"
    using persist_run(1) [OF laws run] fresh by (auto simp: t_def)
  have texts': "protectable (pp_userContent i)" "protectable (pp_assistantContent i)" using texts by (simp_all add: protectable_def)
  from rec mode sw obtain ui ai u a s1 s2 s3 s4 where
    records: "records = [message_record i ui USER_role (Some u) (pp_inputTokenCount i) t,
      message_record i ai ASSISTANT_role (Some a) (pp_outputTokenCount i) (t + 1)]"
    and eu: "encrypt (en_crypto (ve_encryption V)) kr (pp_userContent i) (content_context (pp_orgId i) (pp_conversationId i) ui) s1 = (Inr u, s2)"
    and ea: "encrypt (en_crypto (ve_encryption V)) kr (pp_assistantContent i) (content_context (pp_orgId i) (pp_conversationId i) ai) s3 = (Inr a, s4)"
    unfolding pair_records_def by auto
  define mu ma where "mu = message_record i ui USER_role (Some u) (pp_inputTokenCount i) t"
    and "ma = message_record i ai ASSISTANT_role (Some a) (pp_outputTokenCount i) (t + 1)"
  have docs: "messages_of V (fst w') = messages_of V (fst w) @ [mu, ma]"
    using st by (simp add: pair_stored_def records mu_def ma_def)
  obtain r s5 where f: "cl_find (ve_messages V) ?recent ?le PROVIDER_HISTORY_RECORD_LIMIT (fst w') = (r, s5)" by (rule prod.exhaust)
  from history f obtain ms where r: "r = Inr ms" and rc: "recall V (rev ms) (s5, snd w') = (Inr h, w'')"
    by (auto simp: loadRecentProviderHistory_def findRecentRetainedForOwner_def act_catch_apply act_bind_apply on_store_def
        split: sum.splits prod.splits)
  have "ms = take 20 (sort_by ?le (filter ?recent (messages_of V (fst w) @ [mu, ma])))"
    using findD(2) [OF message_lawsD(3) [OF laws] f r] docs by (simp add: query_def PROVIDER_HISTORY_RECORD_LIMIT_def)
  moreover have "filter ?recent (messages_of V (fst w) @ [mu, ma]) = filter ?recent (messages_of V (fst w)) @ [mu, ma]"
    by (simp add: mu_def ma_def message_record_def recent_of_def)
  moreover have "sort_by ?le (filter ?recent (messages_of V (fst w)) @ [mu, ma]) = ma # mu # sort_by ?le (filter ?recent (messages_of V (fst w)))"
    using newest by (intro sort_newest) (auto simp: mu_def ma_def message_record_def message_before_def t_def pair_time_def)
  ultimately have "rev ms = rev (take 18 (sort_by ?le (filter ?recent (messages_of V (fst w))))) @ [mu, ma]" by simp
  then have rc': "recall V (rev (take 18 (sort_by ?le (filter ?recent (messages_of V (fst w))))) @ [mu, ma]) (s5, Some kr) = (Inr h, w'')"
    using rc sw by simp
  obtain h0 h1 where h: "h = h0 @ h1" "recall V [mu, ma] (s5, Some kr) = (Inr h1, (s5, Some kr))"
    using recall_suffix [OF _ rc'] by (auto simp del: recall.simps)
  have du: "decrypt (en_crypto (ve_encryption V)) kr u (content_context (pp_orgId i) (pp_conversationId i) ui) = Inr (pp_userContent i)"
    "decrypt (en_crypto (ve_encryption V)) kr a (content_context (pp_orgId i) (pp_conversationId i) ai) = Inr (pp_assistantContent i)"
    using decrypt_encrypt [OF kr(3,2) texts'(1) eu] decrypt_encrypt [OF kr(3,2) texts'(2) ea] by simp_all
  have "decryptMessageContent V mu (s5, Some kr) = (Inr (Some (pp_userContent i)), (s5, Some kr))"
    "decryptMessageContent V ma (s5, Some kr) = (Inr (Some (pp_assistantContent i)), (s5, Some kr))"
    using du by (simp_all add: decryptMessageContent_def mu_def ma_def message_record_def act_bind_apply
        reveal_ready [of "(s5, Some kr)" kr])
  then have "h1 = [\<lparr>rm_requestId = pp_requestId i, rm_role = retained_user, rm_content = pp_userContent i\<rparr>,
      \<lparr>rm_requestId = pp_requestId i, rm_role = retained_assistant, rm_content = pp_assistantContent i\<rparr>]"
    using h(2) by (simp add: act_bind_apply) (simp add: mu_def ma_def message_record_def act_bind_apply)
  with h(1) show ?thesis by blast
qed

section \<open>Completions without a token\<close>

text \<open>
  With encrypted storage a completion whose assistant text is empty is never stored: the empty
  text encrypts to an empty ciphertext, which the model refuses, so the call throws and the
  database is unchanged.
\<close>

theorem empty_completion_not_stored:
  assumes laws: "message_laws V" and ready: "service_ready (ve_encryption V) w"
    and mode: "pp_retentionMode i = ENCRYPTED_STORAGE" and empty_text: "pp_assistantContent i = []"
    and fresh: "filter (of_request (pp_orgId i) (pp_requestId i)) (messages_of V (fst w)) = []"
    and run: "persistCompletedMessagePair V i w = (r, w')"
  shows "(\<exists>e. r = Inl e) \<and> messages_of V (fst w') = messages_of V (fst w)
    \<and> conversations_of V (fst w') = conversations_of V (fst w)"
proof -
  from ready obtain kr where kr: "snd w = Some kr" "crypto_laws (en_crypto (ve_encryption V))"
    by (auto simp: service_ready_def)
  have sw: "snd w' = Some kr" using persist_run(2) [OF laws run] kr(1) by simp
  have "\<not> (pair_records V i t (snd w') records \<and> pair_stored V i records (t + 1) (fst w) (fst w'))" for t records
  proof
    assume a: "pair_records V i t (snd w') records \<and> pair_stored V i records (t + 1) (fst w) (fst w')"
    then obtain ui ai u p s3 s4 where
      records: "records = [message_record i ui USER_role (Some u) (pp_inputTokenCount i) t,
        message_record i ai ASSISTANT_role (Some p) (pp_outputTokenCount i) (t + 1)]"
      and e: "encrypt (en_crypto (ve_encryption V)) kr [] (content_context (pp_orgId i) (pp_conversationId i) ai) s3 = (Inr p, s4)"
      using mode sw empty_text unfolding pair_records_def by auto
    have "list_all message_valid records" using a by (simp add: pair_stored_def)
    then show False
      using encrypt_empty [OF kr(2) e] by (simp add: records message_record_def message_valid_def content_valid_def)
  qed
  with persist_run(1) [OF laws run] fresh have "message_committed V (fst w') = message_committed V (fst w)"
    "r \<noteq> Inr ()" by auto
  then show ?thesis by (cases r) (simp_all add: message_committed_def)
qed

section \<open>Witnesses\<close>

type_synonym demo_db = "(Message list \<times> Conversation list) \<times> nat"

definition demo_messages :: "demo_db message_env" where
  "demo_messages = \<lparr>
     ve_conversations = mem_collection conversation_valid conversation_unique (\<lambda>s. snd (fst s)) (\<lambda>f s. ((fst (fst s), f (snd (fst s))), snd s)),
     ve_encryption = \<lparr>en_crypto = toy_crypto, en_keysJson = None, en_activeVersion = None\<rparr>,
     ve_randomUUID = (\<lambda>s. (demo_uuid (snd s), (fst s, Suc (snd s)))),
     ve_now = (\<lambda>_. 7),
     ve_messages = mem_collection message_valid message_unique (\<lambda>s. fst (fst s)) (\<lambda>f s. ((f (fst (fst s)), snd (fst s)), snd s)),
     ve_sessions = mem_sessions\<rparr>"

lemma demo_messages_laws: "message_laws demo_messages"
proof -
  have "transaction_laws (message_committed demo_messages) (mem_sessions :: demo_db sessions)" by (rule mem_sessions_laws)
  moreover have "collection_laws message_valid message_unique (ve_messages demo_messages)"
    "collection_laws conversation_valid conversation_unique (ve_conversations demo_messages)"
    unfolding demo_messages_def by (simp_all add: mem_collection_laws)
  ultimately show ?thesis
    unfolding message_laws_def
    by (auto simp: demo_messages_def mem_collection_def leaves_def draws_leave_def toy_crypto_def message_committed_def)
qed

definition demo_owner_world :: "demo_db \<times> EncryptionKeyring option" where
  "demo_owner_world = ((([], [new_conversation (demo_uuid 2) (demo_uuid 1) (demo_uuid 2) None 0]), 0), Some toy_keyring)"

definition demo_pair :: "jsstr \<Rightarrow> PersistCompletedMessagePairInput" where
  "demo_pair answer = \<lparr>pp_orgId = demo_uuid 1, pp_userId = demo_uuid 2, pp_conversationId = demo_uuid 2, pp_requestId = ''r'',
     pp_retentionMode = ENCRYPTED_STORAGE, pp_userContent = js_lit ''hi'', pp_assistantContent = answer,
     pp_inputTokenCount = None, pp_outputTokenCount = None, pp_occurredAt = None\<rparr>"

lemma demo_env:
  "ve_encryption demo_messages = \<lparr>en_crypto = toy_crypto, en_keysJson = None, en_activeVersion = None\<rparr>"
  "ve_randomUUID demo_messages s = (demo_uuid (snd s), (fst s, Suc (snd s)))"
  "ve_sessions demo_messages = mem_sessions"
  by (simp_all add: demo_messages_def)

lemma demo_ready: "service_ready (ve_encryption demo_messages) demo_owner_world"
  unfolding demo_env demo_owner_world_def by (rule demo_service_ready)

lemma demo_request_fresh: "filter (of_request (demo_uuid 1) ''r'') (messages_of demo_messages (fst demo_owner_world)) = []"
  by (simp add: demo_messages_def mem_collection_def demo_owner_world_def)

definition demo_payload :: "string \<Rightarrow> jsstr \<Rightarrow> EncryptedPayload" where
  "demo_payload m t = \<lparr>ep_algorithm = ENCRYPTION_ALGORITHM, ep_ciphertext = base64url_encode (utf8_encode t),
     ep_iv = base64url_encode (replicate 12 0),
     ep_authTag = base64url_encode (toy_tag (buildAad (content_context (demo_uuid 1) (demo_uuid 2) m))), ep_keyVersion = 1\<rparr>"

definition demo_records :: "Message list" where
  "demo_records = [message_record (demo_pair (js_lit ''ok'')) (demo_uuid 0) USER_role (Some (demo_payload (demo_uuid 0) (js_lit ''hi''))) None 7,
     message_record (demo_pair (js_lit ''ok'')) (demo_uuid 1) ASSISTANT_role (Some (demo_payload (demo_uuid 1) (js_lit ''ok''))) None 8]"

lemma demo_persist:
  "\<exists>cs. persistCompletedMessagePair demo_messages (demo_pair (js_lit ''ok'')) demo_owner_world
    = (Inr (), ((demo_records, cs), 2), Some toy_keyring)"
proof -
  let ?i = "demo_pair (js_lit ''ok'')"
  have "content_valid (demo_payload m t)" if "t = js_lit ''hi'' \<or> t = js_lit ''ok''" for m t
    using that by (auto simp: demo_payload_def content_valid_def toy_tag_def js_lit_def is_safe_integer_def MAX_SAFE_INTEGER_def)
  then have "list_all message_valid demo_records"
    by (simp add: demo_records_def message_record_def message_valid_def demo_pair_def demo_uuid_valid)
  moreover have "message_unique demo_records"
    by (simp add: demo_records_def message_record_def message_unique_def demo_pair_def demo_uuid_def)
  ultimately have "\<exists>cs. pair_transaction demo_messages ?i demo_records 8 (fst (fst demo_owner_world), 2) = (Inr (), ((demo_records, cs), 2))"
    by (simp add: pair_transaction_def countByRequest_def createPair_def incrementConversationActivity_def act_bind_apply act_then_apply
        demo_messages_def mem_collection_def demo_owner_world_def of_request_def demo_pair_def owned_by_def new_conversation_def)
  moreover have "completed_records demo_messages ?i (demo_uuid 0) (demo_uuid 1) 7 8 ((fst (fst demo_owner_world), 2), Some toy_keyring)
      = (Inr demo_records, ((fst (fst demo_owner_world), 2), Some toy_keyring))"
    by (simp add: completed_records_def createEncryptedRecords_def act_bind_apply require_ready [of _ toy_keyring] on_store_def
        toy_encrypt demo_env demo_records_def demo_payload_def) (simp add: demo_pair_def)
  moreover have "pp_occurredAt ?i = None" "ve_now demo_messages s = 7" for s by (simp_all add: demo_pair_def demo_messages_def)
  moreover obtain st where st: "fst (fst demo_owner_world) = st" and w: "demo_owner_world = ((st, 0), Some toy_keyring)"
    by (simp add: demo_owner_world_def)
  ultimately show ?thesis
    unfolding w by (auto simp: persistCompletedMessagePair_def act_bind_apply act_then_apply act_finally_apply act_catch_apply
        draw_uuid_def demo_env on_store_def mem_sessions_def numeral_2_eq_2)
qed

lemma demo_history:
  "\<exists>h. loadRecentProviderHistory demo_messages (demo_uuid 1) (demo_uuid 2) (demo_uuid 2) (((demo_records, cs), 2), Some toy_keyring)
    = (Inr h, (((demo_records, cs), 2), Some toy_keyring))"
proof -
  let ?w = "(((demo_records, cs), 2), Some toy_keyring)"
  have d: "decryptMessageContent demo_messages m ?w = (Inr (Some t), ?w)"
    if "m = message_record (demo_pair (js_lit ''ok'')) i r (Some (demo_payload i t)) None n" "t = js_lit ''hi'' \<or> t = js_lit ''ok''" for m i r t n
  proof -
    have "crypto_laws (toy_crypto :: demo_db crypto)" "key_available toy_keyring toy_keyring" "protectable t"
      using demo_ready that(2) by (auto simp: service_ready_def demo_env demo_owner_world_def protectable_def js_lit_well_formed js_lit_def)
    moreover have "encrypt toy_crypto toy_keyring t (content_context (demo_uuid 1) (demo_uuid 2) i) ((([], []), 0) :: demo_db)
        = (Inr (demo_payload i t), (([], []), 0))"
      by (simp add: toy_encrypt demo_payload_def)
    ultimately have "decrypt (toy_crypto :: demo_db crypto) toy_keyring (demo_payload i t) (content_context (demo_uuid 1) (demo_uuid 2) i) = Inr t"
      by (rule decrypt_encrypt)
    then show ?thesis
      by (simp add: that(1) decryptMessageContent_def message_record_def act_bind_apply reveal_ready [of _ toy_keyring] demo_env demo_pair_def)
  qed
  have "query (\<lambda>m n. \<not> message_before m n) (recent_of (demo_uuid 1) (demo_uuid 2) (demo_uuid 2)) PROVIDER_HISTORY_RECORD_LIMIT demo_records
    = rev demo_records"
    by (simp add: query_def demo_records_def message_record_def recent_of_def demo_pair_def message_before_def PROVIDER_HISTORY_RECORD_LIMIT_def)
  moreover have "cl_find (ve_messages demo_messages) p le n (fst ?w) = (Inr (query le p n demo_records), fst ?w)" for p le n
    by (simp add: demo_messages_def mem_collection_def)
  moreover have "\<exists>h. recall demo_messages demo_records ?w = (Inr h, ?w)"
  proof -
    obtain m0 m1 where m: "demo_records = [m0, m1]"
      "m0 = message_record (demo_pair (js_lit ''ok'')) (demo_uuid 0) USER_role (Some (demo_payload (demo_uuid 0) (js_lit ''hi''))) None 7"
      "m1 = message_record (demo_pair (js_lit ''ok'')) (demo_uuid 1) ASSISTANT_role (Some (demo_payload (demo_uuid 1) (js_lit ''ok''))) None 8"
      by (simp add: demo_records_def)
    then have "me_requestId m0 \<noteq> None" "me_requestId m1 \<noteq> None" "me_role m0 = USER_role" "me_role m1 = ASSISTANT_role"
      by (simp_all add: message_record_def)
    then show ?thesis using d [OF m(2)] d [OF m(3)] by (simp only: m(1)) (simp add: act_bind_apply)
  qed
  ultimately show ?thesis
    by (auto simp: loadRecentProviderHistory_def findRecentRetainedForOwner_def act_catch_apply act_bind_apply on_store_def)
qed

theorem message_pair_stored_once_witness:
  "\<exists>w' u a. persistCompletedMessagePair demo_messages (demo_pair (js_lit ''ok'')) demo_owner_world = (Inr (), w')
     \<and> messages_of demo_messages (fst w') = [u, a] \<and> me_role u = USER_role \<and> me_role a = ASSISTANT_role"
proof -
  obtain w' where r: "persistCompletedMessagePair demo_messages (demo_pair (js_lit ''ok'')) demo_owner_world = (Inr (), w')"
    using demo_persist by fast
  have "messages_of demo_messages (fst demo_owner_world) = []"
    by (simp add: demo_owner_world_def demo_messages_def mem_collection_def)
  with message_pair_stored_once [OF demo_messages_laws r] r show ?thesis by auto
qed

theorem stored_pair_recalled_witness:
  "\<exists>w' w'' h. persistCompletedMessagePair demo_messages (demo_pair (js_lit ''ok'')) demo_owner_world = (Inr (), w')
     \<and> loadRecentProviderHistory demo_messages (demo_uuid 1) (demo_uuid 2) (demo_uuid 2) w' = (Inr h, w'')
     \<and> map rm_content h \<noteq> [] \<and> last (map rm_content h) = js_lit ''ok''"
proof -
  obtain cs where r: "persistCompletedMessagePair demo_messages (demo_pair (js_lit ''ok'')) demo_owner_world
    = (Inr (), ((demo_records, cs), 2), Some toy_keyring)" using demo_persist by fast
  obtain h where h: "loadRecentProviderHistory demo_messages (demo_uuid 1) (demo_uuid 2) (demo_uuid 2) (((demo_records, cs), 2), Some toy_keyring)
    = (Inr h, (((demo_records, cs), 2), Some toy_keyring))" using demo_history by fast
  have i: "pp_retentionMode (demo_pair t) = ENCRYPTED_STORAGE" "pp_occurredAt (demo_pair t) = None" "pp_userContent (demo_pair t) = js_lit ''hi''"
    "pp_assistantContent (demo_pair t) = t" "pp_orgId (demo_pair t) = demo_uuid 1" "pp_requestId (demo_pair t) = ''r''"
    "pp_userId (demo_pair t) = demo_uuid 2" "pp_conversationId (demo_pair t) = demo_uuid 2" for t
    by (simp_all add: demo_pair_def)
  have t: "js_lit ''hi'' \<noteq> []" "js_lit ''ok'' \<noteq> []" "well_formed (js_lit ''hi'')" "well_formed (js_lit ''ok'')"
    by (simp_all add: js_lit_well_formed js_lit_def)
  have n: "messages_of demo_messages (fst demo_owner_world) = []"
    by (simp add: demo_owner_world_def demo_messages_def mem_collection_def)
  have "\<exists>h0. h = h0 @ [\<lparr>rm_requestId = ''r'', rm_role = retained_user, rm_content = js_lit ''hi''\<rparr>,
      \<lparr>rm_requestId = ''r'', rm_role = retained_assistant, rm_content = js_lit ''ok''\<rparr>]"
    using stored_pair_recalled [OF demo_messages_laws demo_ready i(1) _ _ _ _ _ _ r] t n demo_request_fresh h
    by (simp add: i del: One_nat_def)
  with r h show ?thesis by force
qed

theorem empty_completion_not_stored_witness:
  "\<exists>e w'. persistCompletedMessagePair demo_messages (demo_pair []) demo_owner_world = (Inl e, w')
     \<and> messages_of demo_messages (fst w') = []"
proof -
  obtain r w' where r: "persistCompletedMessagePair demo_messages (demo_pair []) demo_owner_world = (r, w')" by (rule prod.exhaust)
  have i: "pp_retentionMode (demo_pair []) = ENCRYPTED_STORAGE" "pp_assistantContent (demo_pair []) = []"
    "pp_orgId (demo_pair []) = demo_uuid 1" "pp_requestId (demo_pair []) = ''r''" by (simp_all add: demo_pair_def)
  have "messages_of demo_messages (fst demo_owner_world) = []"
    by (simp add: demo_owner_world_def demo_messages_def mem_collection_def)
  with empty_completion_not_stored [OF demo_messages_laws demo_ready i(1,2) _ r] i demo_request_fresh r show ?thesis by auto
qed

end
