(* ===== verification/BillingPeriod.thy ===== *)
theory BillingPeriod
  imports IsoDate
begin

text \<open>
  The billing period of \<^verbatim>\<open>billing/billing.service.ts\<close>: its name and its bounds. A period is a
  calendar month in UTC; the main lemma says that a moment lies within the bounds exactly when it
  has the same period name.
\<close>

section \<open>Operations\<close>

text \<open>\<^verbatim>\<open>Date.UTC(year, month, 1)\<close> with a month that counts from zero: JavaScript reads the years
  0 to 99 as 1900 to 1999 and carries months beyond the twelfth into the year.\<close>

definition date_utc :: "int \<Rightarrow> int \<Rightarrow> int" where
  "date_utc year month =
     (let y = (if 0 \<le> year \<and> year \<le> 99 then 1900 + year else year)
      in of_civil (y + month div 12) (nat (month mod 12) + 1) 1 0)"

definition getUtcBillingPeriod :: "int \<Rightarrow> jsstr" where
  "getUtcBillingPeriod date = int_text (cv_year (civil date)) @ 45 # two_digits (cv_month (civil date))"

definition getUtcBillingPeriodBounds :: "int \<Rightarrow> int \<times> int" where
  "getUtcBillingPeriodBounds date =
     (let year = cv_year (civil date); month = int (cv_month (civil date)) - 1
      in (date_utc year month, date_utc year (month + 1)))"

section \<open>Months in a row\<close>

text \<open>The first day of the month with a given number, counted from the start of the year zero.\<close>

definition month_day :: "int \<Rightarrow> int" where
  "month_day i = epoch_days (i div 12) + int (sum_list (take (nat (i mod 12)) (month_lengths (i div 12))))"

definition month_number :: "int \<Rightarrow> int" where
  "month_number t = cv_year (civil t) * 12 + int (cv_month (civil t)) - 1"

lemma length_month_lengths: "length (month_lengths y) = 12"
  by (simp add: month_lengths_def)

lemma month_length_pos: "i < 12 \<Longrightarrow> 0 < month_lengths y ! i"
  by (auto simp: month_lengths_def nth_Cons split: nat.splits)

lemma month_day_succ: "month_day (i + 1) = month_day i + int (month_lengths (i div 12) ! nat (i mod 12))"
proof -
  define y r where yr: "y = i div 12" "r = i mod 12"
  have i: "i = y * 12 + r" "0 \<le> r" "r < 12" by (simp_all add: yr)
  have n: "nat r < length (month_lengths y)" using i by (simp add: length_month_lengths)
  have s: "int (sum_list (take (Suc (nat r)) (month_lengths y)))
      = int (sum_list (take (nat r) (month_lengths y))) + int (month_lengths y ! nat r)"
    using n by (simp add: take_Suc_conv_app_nth)
  show ?thesis
  proof (cases "r = 11")
    case True
    then have d: "(i + 1) div 12 = y + 1" "(i + 1) mod 12 = 0" using i(1) by simp_all
    have t: "take (Suc (nat r)) (month_lengths y) = month_lengths y" using True by (simp add: length_month_lengths)
    have "month_day (i + 1) = epoch_days (y + 1)" by (simp add: month_day_def d)
    also have "\<dots> = epoch_days y + int (sum_list (take (Suc (nat r)) (month_lengths y)))"
      unfolding t sum_month_lengths by (rule epoch_days_succ)
    finally show ?thesis using s by (simp add: month_day_def flip: yr)
  next
    case False
    with i(2,3) have r1: "0 \<le> r + 1" "r + 1 < 12" by simp_all
    have e: "i + 1 = 12 * y + (r + 1)" using i(1) by simp
    have d: "(i + 1) div 12 = y" "(i + 1) mod 12 = r + 1"
      using int_div_pos_eq [OF e r1] int_mod_pos_eq [OF e r1] by simp_all
    have "nat (r + 1) = Suc (nat r)" using i by simp
    then show ?thesis using s by (simp add: month_day_def d flip: yr)
  qed
qed

lemma month_day_step: "month_day i < month_day (i + 1)"
  using month_length_pos [of "nat (i mod 12)" "i div 12"] by (simp add: month_day_succ)

lemma month_day_mono: "i \<le> j \<Longrightarrow> month_day i \<le> month_day j"
proof (induction "nat (j - i)" arbitrary: j)
  case (Suc n)
  then have "month_day i \<le> month_day (j - 1)" by simp
  with month_day_step [of "j - 1"] show ?case by simp
qed simp

lemma civil_day:
  assumes "civil t = c"
  shows "cv_day c \<le> month_lengths (cv_year c) ! (cv_month c - 1)"
proof -
  obtain y r where y: "year_of_days (t div DAY_MS) = (y, r)" by fastforce
  obtain m d where m: "month_of_day 1 (month_lengths y) r = (m, d)" by fastforce
  have "r < sum_list (month_lengths y)" using year_of_days_correct [OF y] by (simp add: sum_month_lengths)
  from month_of_day_correct [OF this m] show ?thesis using assms y m by (auto simp: civil_def)
qed

lemma month_number_split:
  assumes "1 \<le> m" and "m \<le> 12"
  shows "(y * 12 + int m - 1) div 12 = y" and "nat ((y * 12 + int m - 1) mod 12) = m - 1"
proof -
  have e: "y * 12 + int m - 1 = 12 * y + (int m - 1)" "0 \<le> int m - 1" "int m - 1 < 12" using assms by simp_all
  have "(y * 12 + int m - 1) mod 12 = int m - 1" by (rule int_mod_pos_eq [OF e])
  then show "nat ((y * 12 + int m - 1) mod 12) = m - 1" using assms by simp
  show "(y * 12 + int m - 1) div 12 = y" by (rule int_div_pos_eq [OF e])
qed

text \<open>A moment lies in the month with its number.\<close>

lemma month_day_bounds: "month_day (month_number t) * DAY_MS \<le> t \<and> t < month_day (month_number t + 1) * DAY_MS"
proof -
  obtain y m d ms where c: "civil t = \<lparr>cv_year = y, cv_month = m, cv_day = d, cv_ms = ms\<rparr>"
    by (cases "civil t") auto
  note cc = civil_correct [OF c]
  have b: "of_civil y m d ms = t" "1 \<le> m" "m \<le> 12" "1 \<le> d" "ms < 86400000" using cc by simp_all
  have l: "d \<le> month_lengths y ! (m - 1)" using civil_day [OF c] by simp
  have n: "month_number t = y * 12 + int m - 1" by (simp add: month_number_def c)
  note sp = month_number_split [OF b(2,3), of y]
  have md: "month_day (month_number t) = epoch_days y + int (sum_list (take (m - 1) (month_lengths y)))"
    by (simp add: month_day_def n sp)
  have me: "month_day (month_number t + 1) = month_day (month_number t) + int (month_lengths y ! (m - 1))"
    using month_day_succ [of "month_number t"] by (simp only: n sp)
  have t: "t = (month_day (month_number t) + int d - 1) * DAY_MS + int ms"
    using b(1) by (simp add: of_civil_def md)
  have "month_day (month_number t) * DAY_MS \<le> t" using b(4) by (subst (2) t) (simp add: DAY_MS_def)
  moreover have "t < (month_day (month_number t) + int d) * DAY_MS"
    using b(5) by (subst t) (simp add: DAY_MS_def algebra_simps)
  moreover have "(month_day (month_number t) + int d) * DAY_MS \<le> month_day (month_number t + 1) * DAY_MS"
    using l by (simp add: me DAY_MS_def)
  ultimately show ?thesis by linarith
qed

lemma same_month:
  "month_day n * DAY_MS \<le> t \<and> t < month_day (n + 1) * DAY_MS \<longleftrightarrow> month_number t = n"
proof
  assume a: "month_day n * DAY_MS \<le> t \<and> t < month_day (n + 1) * DAY_MS"
  have pos: "0 < DAY_MS" by (simp add: DAY_MS_def)
  have "month_day n * DAY_MS < month_day (month_number t + 1) * DAY_MS"
    using a month_day_bounds [of t] by linarith
  then have "month_day n < month_day (month_number t + 1)" using pos by simp
  then have "n \<le> month_number t" using month_day_mono [of "month_number t + 1" n] by linarith
  moreover have "month_day (month_number t) * DAY_MS < month_day (n + 1) * DAY_MS"
    using a month_day_bounds [of t] by linarith
  then have "month_day (month_number t) < month_day (n + 1)" using pos by simp
  then have "month_number t \<le> n" using month_day_mono [of "n + 1" "month_number t"] by linarith
  ultimately show "month_number t = n" by simp
qed (use month_day_bounds [of t] in simp)

section \<open>The bounds of a period\<close>

lemma date_utc_month_day:
  assumes "0 \<le> month" and "\<not> (0 \<le> year \<and> year \<le> 99)"
  shows "date_utc year month = month_day (year * 12 + month) * DAY_MS"
proof -
  have "(year * 12 + month) div 12 = year + month div 12" "(year * 12 + month) mod 12 = month mod 12" by simp_all
  then show ?thesis using assms(2) by (auto simp: date_utc_def of_civil_def month_day_def Let_def)
qed

lemma period_bounds:
  assumes "\<not> (0 \<le> cv_year (civil now) \<and> cv_year (civil now) \<le> 99)"
    and "getUtcBillingPeriodBounds now = (start, end')"
  shows "start \<le> t \<and> t < end' \<longleftrightarrow> month_number t = month_number now"
proof -
  have m: "0 \<le> int (cv_month (civil now)) - 1" using civil_correct(2) [OF refl, of now] by simp
  have "start = date_utc (cv_year (civil now)) (int (cv_month (civil now)) - 1)"
    "end' = date_utc (cv_year (civil now)) (int (cv_month (civil now)))"
    using assms(2) by (simp_all add: getUtcBillingPeriodBounds_def Let_def)
  moreover have "cv_year (civil now) * 12 + (int (cv_month (civil now)) - 1) = month_number now"
    "cv_year (civil now) * 12 + int (cv_month (civil now)) = month_number now + 1"
    by (simp_all add: month_number_def)
  ultimately have "start = month_day (month_number now) * DAY_MS" "end' = month_day (month_number now + 1) * DAY_MS"
    using date_utc_month_day [OF m assms(1)] date_utc_month_day [OF _ assms(1), of "int (cv_month (civil now))"]
    by simp_all
  then show ?thesis by (simp add: same_month)
qed

lemma two_digits_inject: "m < 100 \<Longrightarrow> n < 100 \<Longrightarrow> two_digits m = two_digits n \<Longrightarrow> m = n"
  using two_digits_value [of m] two_digits_value [of n] unfolding two_digits_def
  by (metis add_left_cancel list.inject)

lemma int_text_inject: "int_text i = int_text j \<Longrightarrow> i = j"
  using parse_int_text [of "[]" i] parse_int_text [of "[]" j] by (simp add: delimited_def)

lemma period_names_month: "getUtcBillingPeriod t = getUtcBillingPeriod u \<longleftrightarrow> month_number t = month_number u"
proof
  have m: "1 \<le> cv_month (civil v)" "cv_month (civil v) \<le> 12" for v using civil_correct(2,3) [OF refl, of v] by simp_all
  {
    assume "getUtcBillingPeriod t = getUtcBillingPeriod u"
    moreover have "length (45 # two_digits a) = length (45 # two_digits b)" for a b by (simp add: two_digits_def)
    ultimately have e: "int_text (cv_year (civil t)) = int_text (cv_year (civil u))"
      "two_digits (cv_month (civil t)) = two_digits (cv_month (civil u))"
      unfolding getUtcBillingPeriod_def using append_eq_append_conv by (metis list.inject)+
    from int_text_inject [OF e(1)] two_digits_inject [OF _ _ e(2)] m [of t] m [of u]
    show "month_number t = month_number u" by (simp add: month_number_def)
  next
    assume "month_number t = month_number u"
    moreover note month_number_split [OF m, of "cv_year (civil t)" t] month_number_split [OF m, of "cv_year (civil u)" u]
    ultimately have "cv_year (civil t) = cv_year (civil u)" "cv_month (civil t) - 1 = cv_month (civil u) - 1"
      unfolding month_number_def by metis+
    then have "cv_year (civil t) = cv_year (civil u)" "cv_month (civil t) = cv_month (civil u)"
      using m [of t] m [of u] by simp_all
    then show "getUtcBillingPeriod t = getUtcBillingPeriod u" by (simp add: getUtcBillingPeriod_def)
  }
qed

text \<open>A moment lies within the bounds of a period exactly when it belongs to the period.\<close>

lemma period_bounds_exact:
  assumes "\<not> (0 \<le> cv_year (civil now) \<and> cv_year (civil now) \<le> 99)"
    and "getUtcBillingPeriodBounds now = (start, end')"
  shows "start \<le> t \<and> t < end' \<longleftrightarrow> getUtcBillingPeriod t = getUtcBillingPeriod now"
  using period_bounds [OF assms] period_names_month by simp

end
