(* ===== verification/Billing.thy ===== *)
theory Billing
  imports BillingPeriod Conversations Jobs ProviderAdapters
begin

text \<open>
  Usage accounting: the records of \<^verbatim>\<open>billing/billing.types.ts\<close>, the constraints and indexes
  of the three models, \<^verbatim>\<open>billing.repository.ts\<close>, \<^verbatim>\<open>billing.service.ts\<close> and
  \<^verbatim>\<open>billing.worker.ts\<close>. The database is a parameter with the laws of \<open>Store\<close>, two
  more operations (an upsert and a deletion) and the \<^verbatim>\<open>$group\<close> stage of an aggregation,
  whose rows come in no particular order. Token counts are exact integers: the sums of JavaScript are exact
  up to \<^verbatim>\<open>Number.MAX_SAFE_INTEGER\<close>, and the code rejects what lies beyond.
\<close>

section \<open>Data\<close>

record RequestUsageRecord =
  ru_requestId :: string
  ru_orgId :: string
  ru_userId :: string
  ru_status :: RequestOutcomeStatus
  ru_policyAction :: PolicyAction
  ru_providerId :: "ProviderId option"
  ru_model :: "string option"
  ru_inputTokens :: "int option"
  ru_outputTokens :: "int option"
  ru_totalTokens :: "int option"
  ru_createdAt :: int

record BillingRollup =
  bl_orgId :: string
  bl_period :: jsstr
  bl_usedTokens :: int
  bl_sourceRequestCount :: int
  bl_updatedAt :: int

record UnresolvedUsageGroup =
  ug_providerId :: "ProviderId option"
  ug_model :: "string option"
  ug_requestCount :: int

record PeriodUsageAggregate =
  pa_usedTokens :: int
  pa_sourceRequestCount :: int
  pa_knownUsageCount :: int
  pa_unresolvedUsageGroups :: "UnresolvedUsageGroup list"

datatype BillingJobLedgerState = ledger_PROCESSING | ledger_COMPLETED

datatype BillingJobOutcome = APPLIED | USAGE_UNAVAILABLE | COST_UNAVAILABLE

record BillingJobLedgerRecord =
  lj_orgId :: string
  lj_requestId :: string
  lj_jobType :: string
  lj_state :: BillingJobLedgerState
  lj_processingStartedAt :: int
  lj_completedAt :: "int option"
  lj_outcome :: "BillingJobOutcome option"

record OrganisationBudgetRecord =
  ob_orgId :: string
  ob_monthlyTokenBudget :: int

section \<open>The models\<close>

definition token_field_valid :: "int option \<Rightarrow> bool" where
  "token_field_valid v = (case v of None \<Rightarrow> True | Some n \<Rightarrow> 0 \<le> n \<and> is_safe_integer n)"

definition validateUsageCompleteness :: "RequestUsageRecord \<Rightarrow> bool" where
  "validateUsageCompleteness r =
     (case (ru_inputTokens r, ru_outputTokens r, ru_totalTokens r) of
        (None, None, None) \<Rightarrow> True
      | (Some i, Some u, Some t) \<Rightarrow> t = i + u
      | _ \<Rightarrow> False)"

definition validateOutcomeShape :: "RequestUsageRecord \<Rightarrow> bool" where
  "validateOutcomeShape r =
     (if ru_status r = st_BLOCKED
      then ru_policyAction r = BLOCK \<and> ru_providerId r = None \<and> ru_model r = None
         \<and> ru_inputTokens r = None \<and> ru_outputTokens r = None \<and> ru_totalTokens r = None
      else ru_policyAction r \<noteq> BLOCK \<and> ru_providerId r \<noteq> None \<and> ru_model r \<noteq> None)"

definition request_log_valid :: "RequestUsageRecord \<Rightarrow> bool" where
  "request_log_valid r \<longleftrightarrow> uuid_v4 (ru_requestId r) \<and> uuid_v4 (ru_orgId r) \<and> uuid_v4 (ru_userId r)
     \<and> (case ru_model r of None \<Rightarrow> True | Some m \<Rightarrow> 1 \<le> length m \<and> length m \<le> 200)
     \<and> token_field_valid (ru_inputTokens r) \<and> token_field_valid (ru_outputTokens r) \<and> token_field_valid (ru_totalTokens r)
     \<and> validateUsageCompleteness r \<and> validateOutcomeShape r"

definition request_log_unique :: "RequestUsageRecord list \<Rightarrow> bool" where
  "request_log_unique rs \<longleftrightarrow> distinct (map ru_requestId rs)"

text \<open>\<^verbatim>\<open>BILLING_PERIOD_PATTERN\<close>.\<close>

definition billing_period_pattern :: "jsstr \<Rightarrow> bool" where
  "billing_period_pattern p \<longleftrightarrow> length p = 7 \<and> list_all is_digit (take 4 p) \<and> p ! 4 = 45
     \<and> (p ! 5 = 48 \<and> 49 \<le> p ! 6 \<and> p ! 6 \<le> 57 \<or> p ! 5 = 49 \<and> 48 \<le> p ! 6 \<and> p ! 6 \<le> 50)"

definition billing_rollup_valid :: "BillingRollup \<Rightarrow> bool" where
  "billing_rollup_valid r \<longleftrightarrow> uuid_v4 (bl_orgId r) \<and> billing_period_pattern (bl_period r)
     \<and> 0 \<le> bl_usedTokens r \<and> is_safe_integer (bl_usedTokens r)
     \<and> 0 \<le> bl_sourceRequestCount r \<and> is_safe_integer (bl_sourceRequestCount r)"

definition billing_rollup_unique :: "BillingRollup list \<Rightarrow> bool" where
  "billing_rollup_unique rs \<longleftrightarrow> distinct (map (\<lambda>r. (bl_orgId r, bl_period r)) rs)"

definition validateTerminalState :: "BillingJobLedgerRecord \<Rightarrow> bool" where
  "validateTerminalState l =
     (if lj_state l = ledger_PROCESSING then lj_completedAt l = None \<and> lj_outcome l = None
      else lj_completedAt l \<noteq> None \<and> lj_outcome l \<noteq> None)"

definition billing_ledger_valid :: "BillingJobLedgerRecord \<Rightarrow> bool" where
  "billing_ledger_valid l \<longleftrightarrow> uuid_v4 (lj_orgId l) \<and> uuid_v4 (lj_requestId l)
     \<and> lj_jobType l = REQUEST_COMPLETED_JOB_TYPE \<and> validateTerminalState l"

definition billing_ledger_unique :: "BillingJobLedgerRecord list \<Rightarrow> bool" where
  "billing_ledger_unique ls \<longleftrightarrow> distinct (map (\<lambda>l. (lj_orgId l, lj_requestId l, lj_jobType l)) ls)"

section \<open>The repository\<close>

text \<open>The key and the accumulators of the \<^verbatim>\<open>$group\<close> stage.\<close>

record usage_key =
  uk_model :: "string option"
  uk_providerId :: "ProviderId option"
  uk_usageKnown :: bool

record usage_totals =
  us_usedTokens :: int
  us_sourceRequestCount :: int
  us_knownUsageCount :: int

record 's billing_env =
  bi_requestLogs :: "('s, RequestUsageRecord) collection"
  bi_groupLogs :: "(RequestUsageRecord \<Rightarrow> bool) \<Rightarrow> (RequestUsageRecord \<Rightarrow> usage_key) \<Rightarrow>
    (RequestUsageRecord list \<Rightarrow> usage_totals) \<Rightarrow> ('s, exn, (usage_key \<times> usage_totals) list) act"
  bi_organisations :: "('s, OrganisationBudgetRecord) collection"
  bi_rollups :: "('s, BillingRollup) collection"
  bi_upsertRollup :: "(BillingRollup \<Rightarrow> bool) \<Rightarrow> BillingRollup \<Rightarrow> (BillingRollup \<Rightarrow> BillingRollup) \<Rightarrow> ('s, exn, BillingRollup) act"
  bi_ledgers :: "('s, BillingJobLedgerRecord) collection"
  bi_deleteLedger :: "(BillingJobLedgerRecord \<Rightarrow> bool) \<Rightarrow> ('s, exn, unit) act"
  bi_now :: "'s \<Rightarrow> int"
  bi_registry :: ProviderCapabilityRegistry

definition usage_log_record :: "NewRequestUsageRecord \<Rightarrow> int \<Rightarrow> RequestUsageRecord" where
  "usage_log_record i t =
     \<lparr>ru_requestId = nu_requestId i, ru_orgId = nu_orgId i, ru_userId = nu_userId i, ru_status = nu_status i,
      ru_policyAction = nu_policyAction i, ru_providerId = nu_providerId i, ru_model = nu_model i,
      ru_inputTokens = map_option inputTokens (nu_usage i), ru_outputTokens = map_option outputTokens (nu_usage i),
      ru_totalTokens = map_option totalTokens (nu_usage i), ru_createdAt = t\<rparr>"

definition appendUsage :: "'s billing_env \<Rightarrow> NewRequestUsageRecord \<Rightarrow> ('s, exn, RequestUsageRecord) act" where
  "appendUsage V i =
     act_bind (act_read (bi_now V)) (\<lambda>t.
       act_then (cl_create (bi_requestLogs V) [usage_log_record i t]) (act_ret (usage_log_record i t)))"

definition findOrganisationBudget ::
  "'s billing_env \<Rightarrow> string \<Rightarrow> ('s, exn, OrganisationBudgetRecord option) act" where
  "findOrganisationBudget V orgId = cl_findOne (bi_organisations V) (\<lambda>b. ob_orgId b = orgId)"

definition usage_known :: "RequestUsageRecord \<Rightarrow> bool" where
  "usage_known r \<longleftrightarrow> ru_inputTokens r \<noteq> None \<and> ru_outputTokens r \<noteq> None \<and> ru_totalTokens r \<noteq> None"

definition usage_match :: "string \<Rightarrow> int \<Rightarrow> int \<Rightarrow> RequestUsageRecord \<Rightarrow> bool" where
  "usage_match orgId periodStart periodEnd r \<longleftrightarrow> ru_orgId r = orgId \<and> ru_status r \<noteq> st_BLOCKED
     \<and> periodStart \<le> ru_createdAt r \<and> ru_createdAt r < periodEnd"

definition usage_group :: "RequestUsageRecord \<Rightarrow> usage_key" where
  "usage_group r = \<lparr>uk_model = ru_model r, uk_providerId = ru_providerId r, uk_usageKnown = usage_known r\<rparr>"

definition tokens_or_zero :: "RequestUsageRecord \<Rightarrow> int" where
  "tokens_or_zero r = (case ru_totalTokens r of None \<Rightarrow> 0 | Some n \<Rightarrow> n)"

definition usage_accumulate :: "RequestUsageRecord list \<Rightarrow> usage_totals" where
  "usage_accumulate rs =
     \<lparr>us_usedTokens = sum_list (map tokens_or_zero rs), us_sourceRequestCount = int (length rs),
      us_knownUsageCount = sum_list (map (\<lambda>r. if usage_known r then 1 else 0) rs)\<rparr>"

definition add_usage_row :: "PeriodUsageAggregate \<Rightarrow> usage_key \<times> usage_totals \<Rightarrow> PeriodUsageAggregate" where
  "add_usage_row a row = (case row of (k, u) \<Rightarrow>
     \<lparr>pa_usedTokens = pa_usedTokens a + us_usedTokens u,
      pa_sourceRequestCount = pa_sourceRequestCount a + us_sourceRequestCount u,
      pa_knownUsageCount = pa_knownUsageCount a + us_knownUsageCount u,
      pa_unresolvedUsageGroups =
        (if uk_usageKnown k then pa_unresolvedUsageGroups a
         else pa_unresolvedUsageGroups a @ [\<lparr>ug_providerId = uk_providerId k, ug_model = uk_model k,
                ug_requestCount = us_sourceRequestCount u\<rparr>])\<rparr>)"

definition empty_aggregate :: PeriodUsageAggregate where
  "empty_aggregate = \<lparr>pa_usedTokens = 0, pa_sourceRequestCount = 0, pa_knownUsageCount = 0, pa_unresolvedUsageGroups = []\<rparr>"

definition aggregatePeriodUsage :: "'s billing_env \<Rightarrow> string \<Rightarrow> int \<Rightarrow> int \<Rightarrow> ('s, exn, PeriodUsageAggregate) act" where
  "aggregatePeriodUsage V orgId periodStart periodEnd =
     act_bind (bi_groupLogs V (usage_match orgId periodStart periodEnd) usage_group usage_accumulate)
       (\<lambda>rows. act_ret (foldl add_usage_row empty_aggregate rows))"

definition upsertRollup :: "'s billing_env \<Rightarrow> string \<Rightarrow> jsstr \<Rightarrow> int \<Rightarrow> int \<Rightarrow> ('s, exn, BillingRollup) act" where
  "upsertRollup V orgId period used requests =
     act_bind (act_read (bi_now V)) (\<lambda>t.
       bi_upsertRollup V (\<lambda>r. bl_orgId r = orgId \<and> bl_period r = period)
         \<lparr>bl_orgId = orgId, bl_period = period, bl_usedTokens = used, bl_sourceRequestCount = requests, bl_updatedAt = t\<rparr>
         (\<lambda>r. r\<lparr>bl_usedTokens := used, bl_sourceRequestCount := requests, bl_updatedAt := t\<rparr>))"

text \<open>The projection of \<^verbatim>\<open>findRequestUsage\<close> is not cut out of the record.\<close>

definition findRequestUsage :: "'s billing_env \<Rightarrow> string \<Rightarrow> string \<Rightarrow> ('s, exn, RequestUsageRecord option) act" where
  "findRequestUsage V orgId requestId =
     cl_findOne (bi_requestLogs V) (\<lambda>r. ru_orgId r = orgId \<and> ru_requestId r = requestId)"

datatype claim_result = claim_ACQUIRED | claim_held BillingJobLedgerState

definition ledger_scope :: "string \<Rightarrow> string \<Rightarrow> string \<Rightarrow> BillingJobLedgerRecord \<Rightarrow> bool" where
  "ledger_scope orgId requestId jobType l \<longleftrightarrow>
     lj_orgId l = orgId \<and> lj_requestId l = requestId \<and> lj_jobType l = jobType"

definition claim_record :: "string \<Rightarrow> string \<Rightarrow> string \<Rightarrow> int \<Rightarrow> BillingJobLedgerRecord" where
  "claim_record orgId requestId jobType t =
     \<lparr>lj_orgId = orgId, lj_requestId = requestId, lj_jobType = jobType, lj_state = ledger_PROCESSING,
      lj_processingStartedAt = t, lj_completedAt = None, lj_outcome = None\<rparr>"

definition acquireJobProcessing ::
  "'s billing_env \<Rightarrow> string \<Rightarrow> string \<Rightarrow> string \<Rightarrow> int \<Rightarrow> ('s, exn, claim_result) act" where
  "acquireJobProcessing V orgId requestId jobType t =
     act_catch (act_then (cl_create (bi_ledgers V) [claim_record orgId requestId jobType t]) (act_ret claim_ACQUIRED))
       (\<lambda>e. if e \<noteq> ExnDuplicateKey then act_throw e
            else act_bind (cl_findOne (bi_ledgers V) (ledger_scope orgId requestId jobType)) (\<lambda>existing.
              case existing of None \<Rightarrow> act_throw e | Some l \<Rightarrow> act_ret (claim_held (lj_state l))))"

definition completeJobProcessing ::
  "'s billing_env \<Rightarrow> string \<Rightarrow> string \<Rightarrow> string \<Rightarrow> int \<Rightarrow> BillingJobOutcome \<Rightarrow> ('s, exn, unit) act" where
  "completeJobProcessing V orgId requestId jobType t oc =
     act_bind (cl_update (bi_ledgers V) (\<lambda>l. ledger_scope orgId requestId jobType l \<and> lj_state l = ledger_PROCESSING)
        (\<lambda>l. l\<lparr>lj_state := ledger_COMPLETED, lj_completedAt := Some t, lj_outcome := Some oc\<rparr>))
       (\<lambda>completed. if completed = None then act_throw (ExnOther ''Billing job processing claim was lost.'') else act_ret ())"

definition releaseJobProcessing :: "'s billing_env \<Rightarrow> string \<Rightarrow> string \<Rightarrow> string \<Rightarrow> ('s, exn, unit) act" where
  "releaseJobProcessing V orgId requestId jobType =
     bi_deleteLedger V (\<lambda>l. ledger_scope orgId requestId jobType l \<and> lj_state l = ledger_PROCESSING)"

section \<open>The service\<close>

definition accountingUnavailable :: "string \<Rightarrow> exn" where
  "accountingUnavailable message = app_exn 503 ''BUDGET_ACCOUNTING_UNAVAILABLE'' message"

definition accounting_unavailable :: exn where
  "accounting_unavailable = accountingUnavailable ''Token budget accounting is unavailable.''"

definition appendRequestUsage :: "'s billing_env \<Rightarrow> NewRequestUsageRecord \<Rightarrow> ('s, exn, RequestUsageRecord) act" where
  "appendRequestUsage V i =
     act_catch (appendUsage V i) (\<lambda>_. act_throw (accountingUnavailable ''Request outcome could not be recorded.''))"

text \<open>A group without provider or model, which the constraints of the log exclude, has no capability.\<close>

definition group_capability :: "ProviderCapabilityRegistry \<Rightarrow> UnresolvedUsageGroup \<Rightarrow> exn + ProviderModelCapability" where
  "group_capability reg g =
     (case (ug_providerId g, ug_model g) of
        (Some p, Some m) \<Rightarrow> getProviderModelCapability p m reg
      | _ \<Rightarrow> Inl (ExnOther ''Unsupported provider.''))"

fun reservation_loop :: "ProviderCapabilityRegistry \<Rightarrow> int \<Rightarrow> UnresolvedUsageGroup list \<Rightarrow> exn + int" where
  "reservation_loop reg acc [] = Inr acc"
| "reservation_loop reg acc (g # gs) =
     (case group_capability reg g of
        Inl e \<Rightarrow> Inl e
      | Inr c \<Rightarrow>
          (let nextTotal = acc + (mc_maxInputTokens c + mc_maxOutputTokens c) * ug_requestCount g
           in if \<not> is_safe_integer nextTotal then Inl accounting_unavailable else reservation_loop reg nextTotal gs))"

definition calculateUnresolvedUsageReservation ::
  "ProviderCapabilityRegistry \<Rightarrow> UnresolvedUsageGroup list \<Rightarrow> exn + int" where
  "calculateUnresolvedUsageReservation reg gs = reservation_loop reg 0 gs"

definition createBudgetStatus :: "int \<Rightarrow> int \<Rightarrow> int \<Rightarrow> exn + BudgetStatus" where
  "createBudgetStatus monthlyBudgetTokens used reserved =
     (let budgeted = used + reserved; remaining = max (monthlyBudgetTokens - budgeted) 0
      in if \<not> is_safe_integer budgeted then Inl accounting_unavailable
         else Inr \<lparr>bs_monthlyBudgetTokens = monthlyBudgetTokens, bs_usedTokens = used,
           bs_reservedTokens = (if reserved = 0 then None else Some reserved),
           bs_budgetedTokens = (if reserved = 0 then None else Some budgeted),
           bs_remainingTokens = remaining,
           bs_remainingPercent = (if monthlyBudgetTokens = 0 then 0 else of_int remaining / of_int monthlyBudgetTokens * 100),
           bs_exceeded = (monthlyBudgetTokens \<le> budgeted)\<rparr>)"

definition keep_accounting_error :: "exn \<Rightarrow> exn" where
  "keep_accounting_error e =
     (case e of ExnApp a \<Rightarrow> if ae_code a = ''BUDGET_ACCOUNTING_UNAVAILABLE'' then e else accounting_unavailable
      | _ \<Rightarrow> accounting_unavailable)"

text \<open>The end of \<^verbatim>\<open>readAuthoritativeBudgetStatus\<close>, with the budget and the aggregate at hand.\<close>

definition status_of_aggregate ::
  "'s billing_env \<Rightarrow> string \<Rightarrow> int \<Rightarrow> OrganisationBudgetRecord \<Rightarrow> PeriodUsageAggregate \<Rightarrow> ('s, exn, BudgetStatus) act" where
  "status_of_aggregate V orgId now budget a =
     act_bind (of_sum (calculateUnresolvedUsageReservation (bi_registry V) (pa_unresolvedUsageGroups a))) (\<lambda>reserved.
     act_then (if reserved = 0
               then act_then (upsertRollup V orgId (getUtcBillingPeriod now) (pa_usedTokens a) (pa_sourceRequestCount a)) (act_ret ())
               else act_ret ())
       (of_sum (createBudgetStatus (ob_monthlyTokenBudget budget) (pa_usedTokens a) reserved)))"

definition readAuthoritativeBudgetStatus :: "'s billing_env \<Rightarrow> string \<Rightarrow> int \<Rightarrow> ('s, exn, BudgetStatus) act" where
  "readAuthoritativeBudgetStatus V orgId now =
     (case getUtcBillingPeriodBounds now of (start, end') \<Rightarrow>
      act_catch
       (act_bind (findOrganisationBudget V orgId) (\<lambda>organisation.
        case organisation of
          None \<Rightarrow> act_throw (accountingUnavailable ''Organisation budget configuration is unavailable.'')
        | Some budget \<Rightarrow>
            act_bind (aggregatePeriodUsage V orgId start end') (status_of_aggregate V orgId now budget)))
       (\<lambda>e. act_throw (keep_accounting_error e)))"

definition reconcileAuthoritativeTokenRollup :: "'s billing_env \<Rightarrow> string \<Rightarrow> int \<Rightarrow> ('s, exn, BillingJobOutcome) act" where
  "reconcileAuthoritativeTokenRollup V orgId occurredAt =
     (case getUtcBillingPeriodBounds occurredAt of (start, end') \<Rightarrow>
      act_bind (aggregatePeriodUsage V orgId start end') (\<lambda>a.
        if pa_knownUsageCount a \<noteq> pa_sourceRequestCount a then act_ret USAGE_UNAVAILABLE
        else act_then (upsertRollup V orgId (getUtcBillingPeriod occurredAt) (pa_usedTokens a) (pa_sourceRequestCount a))
               (act_ret APPLIED)))"

section \<open>The worker\<close>

datatype BillingJobProcessingResult = job_outcome BillingJobOutcome | SKIPPED_COMPLETED | SKIPPED_PROCESSING

definition releaseProcessingClaim :: "'s billing_env \<Rightarrow> string \<Rightarrow> string \<Rightarrow> string \<Rightarrow> ('s, exn, unit) act" where
  "releaseProcessingClaim V orgId requestId jobType =
     act_catch (releaseJobProcessing V orgId requestId jobType) (\<lambda>_. act_ret ())"

definition process_claimed_job :: "'s billing_env \<Rightarrow> RequestOutcomeJob \<Rightarrow> ('s, exn, BillingJobOutcome) act" where
  "process_claimed_job V job =
     act_bind (findRequestUsage V (jb_orgId job) (jb_requestId job)) (\<lambda>requestUsage.
       case requestUsage of
         None \<Rightarrow> act_throw (ExnUnrecoverable ''Authoritative request usage record is unavailable.'')
       | Some r \<Rightarrow>
           act_bind (if usage_known r then reconcileAuthoritativeTokenRollup V (jb_orgId job) (ru_createdAt r)
                     else act_ret USAGE_UNAVAILABLE) (\<lambda>oc.
           act_bind (act_read (bi_now V)) (\<lambda>t.
           act_then (completeJobProcessing V (jb_orgId job) (jb_requestId job) (jb_jobType job) t oc) (act_ret oc))))"

definition billing_job_error :: "exn \<Rightarrow> exn" where
  "billing_job_error e = (case e of ExnUnrecoverable _ \<Rightarrow> e | _ \<Rightarrow> ExnOther ''Billing job processing failed.'')"

definition processRequestCompletedBillingJob ::
  "'s billing_env \<Rightarrow> RequestOutcomeJob \<Rightarrow> nat \<Rightarrow> ('s, exn, BillingJobProcessingResult) act" where
  "processRequestCompletedBillingJob V job attemptsMade =
     act_bind (act_read (bi_now V)) (\<lambda>t.
     act_bind (acquireJobProcessing V (jb_orgId job) (jb_requestId job) (jb_jobType job) t) (\<lambda>acquired.
       if acquired = claim_held ledger_COMPLETED then act_ret SKIPPED_COMPLETED
       else if acquired = claim_held ledger_PROCESSING \<and> attemptsMade = 0 then act_ret SKIPPED_PROCESSING
       else act_catch (act_bind (process_claimed_job V job) (\<lambda>oc. act_ret (job_outcome oc)))
              (\<lambda>e. act_then (releaseProcessingClaim V (jb_orgId job) (jb_requestId job) (jb_jobType job))
                     (act_throw (billing_job_error e)))))"

end
