(* ===== verification/BillingProperties.thy ===== *)
theory BillingProperties
  imports Billing
begin

text \<open>
  What the accounting promises. The laws of the database are collected in \<open>billing_laws\<close>; the
  properties say how the budget follows from the request log, when a worker repeats the work of a
  job, and what the monthly rollup is worth when several readers and writers interleave.
\<close>

section \<open>The laws of the database\<close>

record billing_store =
  bd_logs :: "RequestUsageRecord list"
  bd_budgets :: "OrganisationBudgetRecord list"
  bd_rollups :: "BillingRollup list"
  bd_ledgers :: "BillingJobLedgerRecord list"

definition billing_data :: "'s billing_env \<Rightarrow> 's \<Rightarrow> billing_store" where
  "billing_data V s = \<lparr>bd_logs = cl_docs (bi_requestLogs V) s, bd_budgets = cl_docs (bi_organisations V) s,
     bd_rollups = cl_docs (bi_rollups V) s, bd_ledgers = cl_docs (bi_ledgers V) s\<rparr>"

text \<open>\<^verbatim>\<open>$match\<close> and \<^verbatim>\<open>$group\<close>: one row for every key, in some order.\<close>

definition group_law :: "'s billing_env \<Rightarrow> bool" where
  "group_law V \<longleftrightarrow> (\<forall>p key acc s rows. fst (bi_groupLogs V p key acc s) = Inr rows \<longrightarrow>
     (let rs = filter p (cl_docs (bi_requestLogs V) s)
      in mset rows = mset (map (\<lambda>k. (k, acc (filter (\<lambda>r. key r = k) rs))) (remdups (map key rs)))))"

text \<open>A write that reports an error was committed or not.\<close>

definition create_atomic :: "('d \<Rightarrow> bool) \<Rightarrow> ('d list \<Rightarrow> bool) \<Rightarrow> ('s, 'd) collection \<Rightarrow> bool" where
  "create_atomic valid unique C \<longleftrightarrow> (\<forall>ds s. cl_docs C (snd (cl_create C ds s)) = cl_docs C s
     \<or> cl_docs C (snd (cl_create C ds s)) = cl_docs C s @ ds \<and> list_all valid ds \<and> unique (cl_docs C s @ ds))"

definition upserted :: "('d \<Rightarrow> bool) \<Rightarrow> 'd \<Rightarrow> ('d \<Rightarrow> 'd) \<Rightarrow> 'd list \<Rightarrow> 'd list \<Rightarrow> bool" where
  "upserted p new f ds ds' \<longleftrightarrow> (\<forall>d \<in> set ds. \<not> p d) \<and> ds' = ds @ [new]
     \<or> (\<exists>xs d ys. ds = xs @ d # ys \<and> p d \<and> ds' = xs @ f d # ys)"

definition upsert_law :: "'s billing_env \<Rightarrow> bool" where
  "upsert_law V \<longleftrightarrow> (\<forall>p new f s.
     (let ds = cl_docs (bi_rollups V) s; run = bi_upsertRollup V p new f s; ds' = cl_docs (bi_rollups V) (snd run);
          done' = upserted p new f ds ds' \<and> billing_rollup_unique ds'
      in done' \<or> ds' = ds \<and> (\<forall>d. fst run \<noteq> Inr d)))"

definition delete_law :: "'s billing_env \<Rightarrow> bool" where
  "delete_law V \<longleftrightarrow> (\<forall>p s. (let ds = cl_docs (bi_ledgers V) s; ds' = cl_docs (bi_ledgers V) (snd (bi_deleteLedger V p s))
      in ds' = ds \<or> (\<exists>xs d ys. ds = xs @ d # ys \<and> p d \<and> ds' = xs @ ys)))"

definition duplicate_law :: "'s billing_env \<Rightarrow> bool" where
  "duplicate_law V \<longleftrightarrow> (\<forall>ls s. fst (cl_create (bi_ledgers V) ls s) = Inl ExnDuplicateKey \<longrightarrow>
     cl_docs (bi_ledgers V) (snd (cl_create (bi_ledgers V) ls s)) = cl_docs (bi_ledgers V) s)"

definition billing_frames :: "'s billing_env \<Rightarrow> bool" where
  "billing_frames V \<longleftrightarrow>
     (\<forall>p key acc. leaves (billing_data V) (bi_groupLogs V p key acc))
   \<and> (\<forall>p. leaves (billing_data V) (cl_findOne (bi_requestLogs V) p))
   \<and> (\<forall>p. leaves (billing_data V) (cl_findOne (bi_organisations V) p))
   \<and> (\<forall>p. leaves (billing_data V) (cl_findOne (bi_ledgers V) p))
   \<and> (\<forall>ds. leaves (\<lambda>s. (billing_data V s)\<lparr>bd_logs := []\<rparr>) (cl_create (bi_requestLogs V) ds))
   \<and> (\<forall>p new f. leaves (\<lambda>s. (billing_data V s)\<lparr>bd_rollups := []\<rparr>) (bi_upsertRollup V p new f))
   \<and> (\<forall>ds. leaves (\<lambda>s. (billing_data V s)\<lparr>bd_ledgers := []\<rparr>) (cl_create (bi_ledgers V) ds))
   \<and> (\<forall>p f. leaves (\<lambda>s. (billing_data V s)\<lparr>bd_ledgers := []\<rparr>) (cl_update (bi_ledgers V) p f))
   \<and> (\<forall>p. leaves (\<lambda>s. (billing_data V s)\<lparr>bd_ledgers := []\<rparr>) (bi_deleteLedger V p))"

definition billing_laws :: "'s billing_env \<Rightarrow> bool" where
  "billing_laws V \<longleftrightarrow> collection_laws request_log_valid request_log_unique (bi_requestLogs V)
     \<and> create_atomic request_log_valid request_log_unique (bi_requestLogs V)
     \<and> findOne_law (bi_organisations V)
     \<and> collection_laws billing_ledger_valid billing_ledger_unique (bi_ledgers V)
     \<and> create_atomic billing_ledger_valid billing_ledger_unique (bi_ledgers V) \<and> duplicate_law V
     \<and> group_law V \<and> upsert_law V \<and> delete_law V \<and> billing_frames V"

lemma billing_lawsD:
  assumes "billing_laws V"
  shows "findOne_law (bi_requestLogs V)" and "create_atomic request_log_valid request_log_unique (bi_requestLogs V)"
    and "findOne_law (bi_organisations V)" and "findOne_law (bi_ledgers V)"
    and "create_law billing_ledger_valid billing_ledger_unique (bi_ledgers V)" and "update_law (bi_ledgers V)"
    and "create_atomic billing_ledger_valid billing_ledger_unique (bi_ledgers V)"
    and "group_law V" and "upsert_law V" and "delete_law V"
    and "duplicate_law V"
  using assms by (simp_all add: billing_laws_def collection_laws_def)

lemma billing_framesD:
  assumes "billing_laws V"
  shows "leaves (billing_data V) (bi_groupLogs V p key acc)"
    and "leaves (billing_data V) (cl_findOne (bi_requestLogs V) lp)"
    and "leaves (billing_data V) (cl_findOne (bi_organisations V) op)"
    and "leaves (billing_data V) (cl_findOne (bi_ledgers V) gp)"
    and "leaves (\<lambda>s. (billing_data V s)\<lparr>bd_logs := []\<rparr>) (cl_create (bi_requestLogs V) rs)"
    and "leaves (\<lambda>s. (billing_data V s)\<lparr>bd_rollups := []\<rparr>) (bi_upsertRollup V up new uf)"
    and "leaves (\<lambda>s. (billing_data V s)\<lparr>bd_ledgers := []\<rparr>) (cl_create (bi_ledgers V) ls)"
    and "leaves (\<lambda>s. (billing_data V s)\<lparr>bd_ledgers := []\<rparr>) (cl_update (bi_ledgers V) gp gf)"
    and "leaves (\<lambda>s. (billing_data V s)\<lparr>bd_ledgers := []\<rparr>) (bi_deleteLedger V gp)"
  using assms by (simp_all add: billing_laws_def billing_frames_def)

lemma billing_data_simps:
  "cl_docs (bi_requestLogs V) s = bd_logs (billing_data V s)" "cl_docs (bi_organisations V) s = bd_budgets (billing_data V s)"
  "cl_docs (bi_rollups V) s = bd_rollups (billing_data V s)" "cl_docs (bi_ledgers V) s = bd_ledgers (billing_data V s)"
  by (simp_all add: billing_data_def)

lemma same_but_rollups:
  "d\<lparr>bd_rollups := []\<rparr> = (d' :: billing_store)\<lparr>bd_rollups := []\<rparr> \<longleftrightarrow>
     bd_logs d = bd_logs d' \<and> bd_budgets d = bd_budgets d' \<and> bd_ledgers d = bd_ledgers d'"
  by (cases d; cases d') auto

lemma same_but_ledgers:
  "d\<lparr>bd_ledgers := []\<rparr> = (d' :: billing_store)\<lparr>bd_ledgers := []\<rparr> \<longleftrightarrow>
     bd_logs d = bd_logs d' \<and> bd_budgets d = bd_budgets d' \<and> bd_rollups d = bd_rollups d'"
  by (cases d; cases d') auto

lemma same_but_logs:
  "d\<lparr>bd_logs := []\<rparr> = (d' :: billing_store)\<lparr>bd_logs := []\<rparr> \<longleftrightarrow>
     bd_budgets d = bd_budgets d' \<and> bd_rollups d = bd_rollups d' \<and> bd_ledgers d = bd_ledgers d'"
  by (cases d; cases d') auto

section \<open>Rows and records\<close>

text \<open>Summing over the rows of a grouping is summing over the records.\<close>

lemma sum_over_keys:
  "finite K \<Longrightarrow> key ` set rs \<subseteq> K \<Longrightarrow>
   (\<Sum>k\<in>K. sum_list (map g (filter (\<lambda>r. key r = k) rs))) = (sum_list (map g rs) :: int)"
proof (induction rs)
  case (Cons r rs)
  have "(\<Sum>k\<in>K. sum_list (map g (filter (\<lambda>x. key x = k) (r # rs))))
      = (\<Sum>k\<in>K. (if k = key r then g r else 0) + sum_list (map g (filter (\<lambda>x. key x = k) rs)))"
    by (rule sum.cong) auto
  also have "\<dots> = g r + sum_list (map g rs)"
    using Cons by (simp add: sum.distrib sum.delta)
  finally show ?case by simp
qed simp

lemma sum_over_rows:
  "sum_list (map (\<lambda>k. sum_list (map g (filter (\<lambda>r. key r = k) rs))) (remdups (map key rs))) = (sum_list (map g rs) :: int)"
  using sum_over_keys [of "set (map key rs)" key rs g] by (simp add: sum_list_distinct_conv_sum_set)

lemma foldl_usage_rows:
  "foldl add_usage_row a rows =
     \<lparr>pa_usedTokens = pa_usedTokens a + sum_list (map (us_usedTokens \<circ> snd) rows),
      pa_sourceRequestCount = pa_sourceRequestCount a + sum_list (map (us_sourceRequestCount \<circ> snd) rows),
      pa_knownUsageCount = pa_knownUsageCount a + sum_list (map (us_knownUsageCount \<circ> snd) rows),
      pa_unresolvedUsageGroups = pa_unresolvedUsageGroups a
        @ map (\<lambda>(k, u). \<lparr>ug_providerId = uk_providerId k, ug_model = uk_model k, ug_requestCount = us_sourceRequestCount u\<rparr>)
            (filter (\<lambda>(k, u). \<not> uk_usageKnown k) rows)\<rparr>"
  by (induction rows arbitrary: a) (auto simp: add_usage_row_def split: prod.split)

text \<open>What an aggregate says of the records it was computed from.\<close>

definition aggregate_of :: "RequestUsageRecord list \<Rightarrow> PeriodUsageAggregate \<Rightarrow> bool" where
  "aggregate_of rs a \<longleftrightarrow> pa_usedTokens a = sum_list (map tokens_or_zero rs)
     \<and> pa_sourceRequestCount a = int (length rs)
     \<and> pa_knownUsageCount a = int (length (filter usage_known rs))
     \<and> (\<forall>c :: ProviderId option \<Rightarrow> string option \<Rightarrow> int.
          sum_list (map (\<lambda>g. c (ug_providerId g) (ug_model g) * ug_requestCount g) (pa_unresolvedUsageGroups a))
          = sum_list (map (\<lambda>r. c (ru_providerId r) (ru_model r)) (filter (\<lambda>r. \<not> usage_known r) rs)))
     \<and> (\<lambda>g. (ug_providerId g, ug_model g)) ` set (pa_unresolvedUsageGroups a)
         = (\<lambda>r. (ru_providerId r, ru_model r)) ` {r \<in> set rs. \<not> usage_known r}"

lemma sum_const_count: "sum_list (map (\<lambda>r. c) rs) = c * int (length rs)" for c :: int
  by (induction rs) (simp_all add: algebra_simps)

lemma sum_indicator: "sum_list (map (\<lambda>r. if P r then 1 else 0) rs) = int (length (filter P rs))"
  by (induction rs) simp_all

lemma aggregate_rows:
  assumes "mset rows = mset (map (\<lambda>k. (k, usage_accumulate (filter (\<lambda>r. usage_group r = k) rs))) (remdups (map usage_group rs)))"
  shows "aggregate_of rs (foldl add_usage_row empty_aggregate rows)"
proof -
  let ?row = "\<lambda>k. (k, usage_accumulate (filter (\<lambda>r. usage_group r = k) rs))"
  let ?ks = "remdups (map usage_group rs)"
  have sums: "sum_list (map f rows) = sum_list (map (f \<circ> ?row) ?ks)" for f :: "usage_key \<times> usage_totals \<Rightarrow> int"
    using assms by (metis (no_types, lifting) map_map mset_map sum_mset_sum_list)
  have rows: "set rows = ?row ` usage_group ` set rs"
    using arg_cong [OF assms, of set_mset] by (simp add: image_image)
  have "sum_list (map (us_usedTokens \<circ> snd) rows) = sum_list (map tokens_or_zero rs)"
    using sum_over_rows [of tokens_or_zero usage_group rs] by (simp add: sums o_def usage_accumulate_def)
  moreover have "sum_list (map (us_sourceRequestCount \<circ> snd) rows) = int (length rs)"
    using sum_over_rows [of "\<lambda>r. 1" usage_group rs] by (simp add: sums o_def usage_accumulate_def sum_const_count)
  moreover have "sum_list (map (us_knownUsageCount \<circ> snd) rows) = int (length (filter usage_known rs))"
    using sum_over_rows [of "\<lambda>r. if usage_known r then 1 else 0" usage_group rs]
    by (simp add: sums o_def usage_accumulate_def sum_indicator)
  moreover have "sum_list (map (\<lambda>(k, u). c (uk_providerId k) (uk_model k) * us_sourceRequestCount u) (filter (\<lambda>(k, u). \<not> uk_usageKnown k) rows))
      = sum_list (map (\<lambda>r. c (ru_providerId r) (ru_model r)) (filter (\<lambda>r. \<not> usage_known r) rs))" for c
  proof -
    let ?f = "\<lambda>(k, u). if uk_usageKnown k then 0 else c (uk_providerId k) (uk_model k) * us_sourceRequestCount u"
    let ?g = "\<lambda>r. if usage_known r then 0 else c (ru_providerId r) (ru_model r)"
    have f: "sum_list (map (\<lambda>(k, u). c (uk_providerId k) (uk_model k) * us_sourceRequestCount u) (filter (\<lambda>(k, u). \<not> uk_usageKnown k) xs))
        = sum_list (map ?f xs)" for xs :: "(usage_key \<times> usage_totals) list"
      by (induction xs) (auto split: prod.splits)
    have g: "sum_list (map (\<lambda>r. c (ru_providerId r) (ru_model r)) (filter (\<lambda>r. \<not> usage_known r) xs)) = sum_list (map ?g xs)" for xs
      by (induction xs) simp_all
    have row: "(?f \<circ> ?row) k = sum_list (map ?g (filter (\<lambda>r. usage_group r = k) rs))" for k
    proof -
      let ?F = "filter (\<lambda>r. usage_group r = k) rs" and ?c = "if uk_usageKnown k then 0 else c (uk_providerId k) (uk_model k)"
      have e: "map ?g ?F = map (\<lambda>r. ?c) ?F" by (rule map_cong) (auto simp: usage_group_def)
      have "sum_list (map ?g ?F) = ?c * int (length ?F)" unfolding e by (rule sum_const_count)
      then show ?thesis by (simp add: usage_accumulate_def)
    qed
    then have r: "?f \<circ> ?row = (\<lambda>k. sum_list (map ?g (filter (\<lambda>r. usage_group r = k) rs)))" by (rule ext)
    show ?thesis unfolding f g sums r by (rule sum_over_rows)
  qed
  then have "sum_list (map (\<lambda>g. c (ug_providerId g) (ug_model g) * ug_requestCount g)
        (map (\<lambda>(k, u). \<lparr>ug_providerId = uk_providerId k, ug_model = uk_model k, ug_requestCount = us_sourceRequestCount u\<rparr>)
           (filter (\<lambda>(k, u). \<not> uk_usageKnown k) rows)))
      = sum_list (map (\<lambda>r. c (ru_providerId r) (ru_model r)) (filter (\<lambda>r. \<not> usage_known r) rs))" for c
    by (simp add: o_def case_prod_unfold)
  moreover have "(\<lambda>g. (ug_providerId g, ug_model g)) ` (\<lambda>(k, u). \<lparr>ug_providerId = uk_providerId k, ug_model = uk_model k,
        ug_requestCount = us_sourceRequestCount u\<rparr>) ` {(k, u) \<in> set rows. \<not> uk_usageKnown k}
      = (\<lambda>r. (ru_providerId r, ru_model r)) ` {r \<in> set rs. \<not> usage_known r}"
    unfolding rows by (force simp: usage_group_def image_iff)
  ultimately show ?thesis
    by (simp add: aggregate_of_def foldl_usage_rows empty_aggregate_def case_prod_unfold set_filter cong: conj_cong)
qed


section \<open>What the operations do\<close>

lemma wp_leaves:
  assumes "leaves f m" and "\<And>r s'. m s = (r, s') \<Longrightarrow> f s' = f s \<Longrightarrow> Q r s'"
  shows "wp m Q s"
  using assms leavesD [OF assms(1)] by (auto simp: wp_def split: prod.split)

lemma group_lawD:
  assumes "group_law V" and "bi_groupLogs V p key acc s = (Inr rows, s')"
  shows "mset rows = mset (map (\<lambda>k. (k, acc (filter (\<lambda>r. key r = k) (filter p (cl_docs (bi_requestLogs V) s)))))
    (remdups (map key (filter p (cl_docs (bi_requestLogs V) s)))))"
  using assms(1) [unfolded group_law_def Let_def, rule_format, of p key acc s rows] assms(2) by simp

lemma upsert_lawD:
  assumes "upsert_law V" and "bi_upsertRollup V p new f s = (r, s')"
  shows "upserted p new f (cl_docs (bi_rollups V) s) (cl_docs (bi_rollups V) s') \<and> billing_rollup_unique (cl_docs (bi_rollups V) s')
    \<or> cl_docs (bi_rollups V) s' = cl_docs (bi_rollups V) s \<and> (\<forall>d. r \<noteq> Inr d)"
  using assms(1) [unfolded upsert_law_def Let_def, rule_format, of p new f s] assms(2) by simp

lemma wp_find_budget:
  assumes "billing_laws V"
  shows "wp (findOrganisationBudget V orgId)
    (\<lambda>r s'. billing_data V s' = billing_data V s
       \<and> (\<forall>b. r = Inr (Some b) \<longrightarrow> b \<in> set (bd_budgets (billing_data V s)) \<and> ob_orgId b = orgId)) s"
  unfolding findOrganisationBudget_def
proof (rule wp_leaves [OF billing_framesD(3) [OF assms]], intro conjI allI impI)
  fix r s' b
  assume "cl_findOne (bi_organisations V) (\<lambda>b. ob_orgId b = orgId) s = (r, s')" "r = Inr (Some b)"
  from findOneD(3) [OF billing_lawsD(3) [OF assms] this]
  show "b \<in> set (bd_budgets (billing_data V s))" "ob_orgId b = orgId" by (simp_all add: billing_data_simps)
qed

lemma wp_aggregate:
  assumes "billing_laws V"
  shows "wp (aggregatePeriodUsage V orgId start end')
    (\<lambda>r s'. billing_data V s' = billing_data V s
       \<and> (\<forall>a. r = Inr a \<longrightarrow> aggregate_of (filter (usage_match orgId start end') (bd_logs (billing_data V s))) a)) s"
  unfolding aggregatePeriodUsage_def wp_bind
proof (rule wp_leaves [OF billing_framesD(1) [OF assms]])
  fix r s'
  assume g: "bi_groupLogs V (usage_match orgId start end') usage_group usage_accumulate s = (r, s')"
    and d: "billing_data V s' = billing_data V s"
  have m: "mset rows = mset (map (\<lambda>k. (k, usage_accumulate (filter (\<lambda>r. usage_group r = k)
        (filter (usage_match orgId start end') (bd_logs (billing_data V s))))))
      (remdups (map usage_group (filter (usage_match orgId start end') (bd_logs (billing_data V s))))))" if "r = Inr rows" for rows
    using group_lawD [OF billing_lawsD(8) [OF assms]] g that unfolding billing_data_simps by simp
  show "case r of Inl e \<Rightarrow> billing_data V s' = billing_data V s \<and> (\<forall>a. Inl e = Inr a \<longrightarrow>
        aggregate_of (filter (usage_match orgId start end') (bd_logs (billing_data V s))) a)
    | Inr x \<Rightarrow> wp (act_ret (foldl add_usage_row empty_aggregate x)) (\<lambda>r s'. billing_data V s' = billing_data V s \<and> (\<forall>a. r = Inr a \<longrightarrow>
        aggregate_of (filter (usage_match orgId start end') (bd_logs (billing_data V s))) a)) s'"
    by (cases r) (simp_all add: wp_ret d aggregate_rows [OF m])
qed

text \<open>The rollup of a period after a write.\<close>

definition rollup_match :: "string \<Rightarrow> jsstr \<Rightarrow> BillingRollup \<Rightarrow> bool" where
  "rollup_match orgId period r \<longleftrightarrow> bl_orgId r = orgId \<and> bl_period r = period"

definition rollup_written :: "string \<Rightarrow> jsstr \<Rightarrow> int \<Rightarrow> int \<Rightarrow> BillingRollup list \<Rightarrow> BillingRollup list \<Rightarrow> bool" where
  "rollup_written orgId period used requests rs rs' \<longleftrightarrow>
     (\<exists>r. filter (rollup_match orgId period) rs' = [r] \<and> bl_usedTokens r = used \<and> bl_sourceRequestCount r = requests)
   \<and> filter (\<lambda>r. \<not> rollup_match orgId period r) rs' = filter (\<lambda>r. \<not> rollup_match orgId period r) rs"

lemma unique_rollup:
  assumes "billing_rollup_unique (xs @ r # ys)" and "rollup_match orgId period r"
  shows "filter (rollup_match orgId period) (xs @ r # ys) = [r]"
proof -
  have "\<not> rollup_match orgId period q" if "q \<in> set xs \<union> set ys" for q
    using assms that by (auto simp: billing_rollup_unique_def rollup_match_def image_iff)
  then have "filter (rollup_match orgId period) xs = []" "filter (rollup_match orgId period) ys = []"
    by (auto simp: filter_empty_conv)
  then show ?thesis using assms(2) by simp
qed

lemma wp_upsert:
  assumes "billing_laws V"
  shows "wp (upsertRollup V orgId period used requests)
    (\<lambda>r s'. (billing_data V s')\<lparr>bd_rollups := []\<rparr> = (billing_data V s)\<lparr>bd_rollups := []\<rparr>
       \<and> (rollup_written orgId period used requests (bd_rollups (billing_data V s)) (bd_rollups (billing_data V s'))
          \<or> bd_rollups (billing_data V s') = bd_rollups (billing_data V s) \<and> (\<forall>d. r \<noteq> Inr d))) s"
  unfolding upsertRollup_def wp_bind wp_read sum.case
proof (rule wp_leaves [OF billing_framesD(6) [OF assms]])
  fix r s'
  let ?p = "\<lambda>r. bl_orgId r = orgId \<and> bl_period r = period"
  let ?new = "\<lparr>bl_orgId = orgId, bl_period = period, bl_usedTokens = used, bl_sourceRequestCount = requests, bl_updatedAt = bi_now V s\<rparr>"
  let ?f = "\<lambda>r. r\<lparr>bl_usedTokens := used, bl_sourceRequestCount := requests, bl_updatedAt := bi_now V s\<rparr>"
  assume run: "bi_upsertRollup V ?p ?new ?f s = (r, s')"
    and d: "(billing_data V s')\<lparr>bd_rollups := []\<rparr> = (billing_data V s)\<lparr>bd_rollups := []\<rparr>"
  let ?rs = "bd_rollups (billing_data V s)" and ?rs' = "bd_rollups (billing_data V s')"
  have law: "upserted ?p ?new ?f ?rs ?rs' \<and> billing_rollup_unique ?rs' \<or> ?rs' = ?rs \<and> (\<forall>d. r \<noteq> Inr d)"
    using upsert_lawD [OF billing_lawsD(9) [OF assms] run] unfolding billing_data_simps .
  have "rollup_written orgId period used requests ?rs ?rs'" if u: "upserted ?p ?new ?f ?rs ?rs'" "billing_rollup_unique ?rs'"
  proof (cases "(\<forall>d \<in> set ?rs. \<not> ?p d) \<and> ?rs' = ?rs @ [?new]")
    case True
    then have "filter (rollup_match orgId period) ?rs' = [?new]" "filter (rollup_match orgId period) ?rs = []"
      by (auto simp: rollup_match_def filter_empty_conv)
    with True show ?thesis by (auto simp: rollup_written_def rollup_match_def)
  next
    case False
    then obtain xs q ys where q: "?rs = xs @ q # ys" "?p q" "?rs' = xs @ ?f q # ys"
      using u(1) unfolding upserted_def by blast
    have m: "rollup_match orgId period q" "rollup_match orgId period (?f q)" using q(2) by (simp_all add: rollup_match_def)
    have "filter (rollup_match orgId period) ?rs' = [?f q]"
      using unique_rollup [of xs "?f q" ys] u(2) m(2) unfolding q(3) by blast
    then show ?thesis using m by (simp add: rollup_written_def q(1,3))
  qed
  with law d show "(billing_data V s')\<lparr>bd_rollups := []\<rparr> = (billing_data V s)\<lparr>bd_rollups := []\<rparr>
       \<and> (rollup_written orgId period used requests ?rs ?rs' \<or> ?rs' = ?rs \<and> (\<forall>d. r \<noteq> Inr d))" by blast
qed

section \<open>The budget\<close>

text \<open>The billable records of an organisation in a period, the tokens they report, and the tokens that
  are held back for those whose usage is not known.\<close>

definition period_records :: "string \<Rightarrow> jsstr \<Rightarrow> RequestUsageRecord list \<Rightarrow> RequestUsageRecord list" where
  "period_records orgId period rs =
     filter (\<lambda>r. ru_orgId r = orgId \<and> ru_status r \<noteq> st_BLOCKED \<and> getUtcBillingPeriod (ru_createdAt r) = period) rs"

definition known_tokens :: "RequestUsageRecord list \<Rightarrow> int" where
  "known_tokens rs = sum_list (map tokens_or_zero rs)"

definition capacity :: "ProviderCapabilityRegistry \<Rightarrow> ProviderId option \<Rightarrow> string option \<Rightarrow> int option" where
  "capacity reg p m =
     (case group_capability reg \<lparr>ug_providerId = p, ug_model = m, ug_requestCount = 0\<rparr> of
        Inl _ \<Rightarrow> None
      | Inr c \<Rightarrow> Some (mc_maxInputTokens c + mc_maxOutputTokens c))"

definition reserved_tokens :: "ProviderCapabilityRegistry \<Rightarrow> RequestUsageRecord list \<Rightarrow> int" where
  "reserved_tokens reg rs = sum_list (map (\<lambda>r. the (capacity reg (ru_providerId r) (ru_model r))) (filter (\<lambda>r. \<not> usage_known r) rs))"

text \<open>The years 0 to 99, which \<^verbatim>\<open>Date.UTC\<close> reads as 1900 to 1999, are excluded.\<close>

definition modern :: "int \<Rightarrow> bool" where
  "modern t \<longleftrightarrow> \<not> (0 \<le> cv_year (civil t) \<and> cv_year (civil t) \<le> 99)"

lemma matched_records:
  assumes "modern now" and "getUtcBillingPeriodBounds now = (start, end')"
  shows "filter (usage_match orgId start end') rs = period_records orgId (getUtcBillingPeriod now) rs"
  using period_bounds_exact [OF assms [unfolded modern_def]]
  unfolding period_records_def usage_match_def by (intro filter_cong) auto

lemma group_capacity:
  "group_capability reg g = Inr c \<Longrightarrow> capacity reg (ug_providerId g) (ug_model g) = Some (mc_maxInputTokens c + mc_maxOutputTokens c)"
  by (simp add: capacity_def group_capability_def)

lemma reservation_loop_sum:
  "reservation_loop reg acc gs = Inr n \<Longrightarrow>
     n = acc + sum_list (map (\<lambda>g. the (capacity reg (ug_providerId g) (ug_model g)) * ug_requestCount g) gs)
   \<and> (\<forall>g \<in> set gs. capacity reg (ug_providerId g) (ug_model g) \<noteq> None)"
proof (induction gs arbitrary: acc)
  case (Cons g gs)
  then obtain c where "group_capability reg g = Inr c" by (auto split: sum.splits)
  moreover from this have "capacity reg (ug_providerId g) (ug_model g) = Some (mc_maxInputTokens c + mc_maxOutputTokens c)"
    by (rule group_capacity)
  ultimately show ?case using Cons.IH [of "acc + (mc_maxInputTokens c + mc_maxOutputTokens c) * ug_requestCount g"] Cons.prems
    by (simp add: Let_def split: if_splits)
qed simp

lemma reservation_of_records:
  assumes "aggregate_of rs a" and "calculateUnresolvedUsageReservation reg (pa_unresolvedUsageGroups a) = Inr n"
  shows "n = reserved_tokens reg rs"
    and "r \<in> set rs \<Longrightarrow> \<not> usage_known r \<Longrightarrow> capacity reg (ru_providerId r) (ru_model r) \<noteq> None"
proof -
  note l = reservation_loop_sum [OF assms(2) [unfolded calculateUnresolvedUsageReservation_def]]
  have a: "sum_list (map (\<lambda>g. c (ug_providerId g) (ug_model g) * ug_requestCount g) (pa_unresolvedUsageGroups a))
      = sum_list (map (\<lambda>r. c (ru_providerId r) (ru_model r)) (filter (\<lambda>r. \<not> usage_known r) rs))"
    "(\<lambda>g. (ug_providerId g, ug_model g)) ` set (pa_unresolvedUsageGroups a)
      = (\<lambda>r. (ru_providerId r, ru_model r)) ` {r \<in> set rs. \<not> usage_known r}" for c
    using assms(1) unfolding aggregate_of_def by (elim conjE, blast)+
  show "n = reserved_tokens reg rs"
    using l a(1) [of "\<lambda>p m. the (capacity reg p m)"] by (simp add: reserved_tokens_def)
  show "capacity reg (ru_providerId r) (ru_model r) \<noteq> None" if r: "r \<in> set rs" "\<not> usage_known r"
  proof -
    have "(ru_providerId r, ru_model r) \<in> (\<lambda>g. (ug_providerId g, ug_model g)) ` set (pa_unresolvedUsageGroups a)"
      unfolding a(2) using r by blast
    with l show ?thesis by auto
  qed
qed

text \<open>What a status promises about the log, the budgets and the rollups before and after.\<close>

definition budget_result :: "'s billing_env \<Rightarrow> string \<Rightarrow> int \<Rightarrow> billing_store \<Rightarrow> billing_store \<Rightarrow> BudgetStatus \<Rightarrow> bool" where
  "budget_result V orgId now d d' b \<longleftrightarrow>
     (let rs = period_records orgId (getUtcBillingPeriod now) (bd_logs d); reserved = reserved_tokens (bi_registry V) rs
      in (\<exists>o' \<in> set (bd_budgets d). ob_orgId o' = orgId \<and> bs_monthlyBudgetTokens b = ob_monthlyTokenBudget o')
       \<and> (\<forall>r \<in> set rs. usage_known r \<or> capacity (bi_registry V) (ru_providerId r) (ru_model r) \<noteq> None)
       \<and> bs_usedTokens b = known_tokens rs
       \<and> bs_reservedTokens b = (if reserved = 0 then None else Some reserved)
       \<and> bs_remainingTokens b = max (bs_monthlyBudgetTokens b - (known_tokens rs + reserved)) 0
       \<and> bs_exceeded b = (bs_monthlyBudgetTokens b \<le> known_tokens rs + reserved)
       \<and> d'\<lparr>bd_rollups := []\<rparr> = d\<lparr>bd_rollups := []\<rparr>
       \<and> (if reserved = 0 then rollup_written orgId (getUtcBillingPeriod now) (known_tokens rs) (int (length rs)) (bd_rollups d) (bd_rollups d')
          else bd_rollups d' = bd_rollups d))"

lemma wp_budget_write:
  assumes laws: "billing_laws V" and a: "aggregate_of (period_records orgId (getUtcBillingPeriod now) (bd_logs d)) a"
    and d: "billing_data V s = d" and budget: "budget \<in> set (bd_budgets d)" "ob_orgId budget = orgId"
    and n: "calculateUnresolvedUsageReservation (bi_registry V) (pa_unresolvedUsageGroups a) = Inr n"
  shows "wp (act_then (if n = 0
                       then act_then (upsertRollup V orgId (getUtcBillingPeriod now) (pa_usedTokens a) (pa_sourceRequestCount a)) (act_ret ())
                       else act_ret ())
              (of_sum (createBudgetStatus (ob_monthlyTokenBudget budget) (pa_usedTokens a) n)))
    (\<lambda>r s'. \<forall>b. r = Inr b \<longrightarrow> budget_result V orgId now d (billing_data V s') b) s"
proof -
  let ?rs = "period_records orgId (getUtcBillingPeriod now) (bd_logs d)"
  have used: "pa_usedTokens a = known_tokens ?rs" "pa_sourceRequestCount a = int (length ?rs)"
    using a by (simp_all add: aggregate_of_def known_tokens_def)
  note r = reservation_of_records [OF a n]
  have status: "budget_result V orgId now d d' b"
    if "createBudgetStatus (ob_monthlyTokenBudget budget) (pa_usedTokens a) n = Inr b"
      and "d'\<lparr>bd_rollups := []\<rparr> = d\<lparr>bd_rollups := []\<rparr>"
      and "if n = 0 then rollup_written orgId (getUtcBillingPeriod now) (known_tokens ?rs) (int (length ?rs)) (bd_rollups d) (bd_rollups d')
           else bd_rollups d' = bd_rollups d" for d' b
  proof -
    have b: "bs_monthlyBudgetTokens b = ob_monthlyTokenBudget budget" "bs_usedTokens b = known_tokens ?rs"
      "bs_reservedTokens b = (if n = 0 then None else Some n)"
      "bs_remainingTokens b = max (bs_monthlyBudgetTokens b - (known_tokens ?rs + n)) 0"
      "bs_exceeded b = (bs_monthlyBudgetTokens b \<le> known_tokens ?rs + n)"
      using that(1) by (auto simp: createBudgetStatus_def Let_def used split: if_splits)
    have "\<forall>r \<in> set ?rs. usage_known r \<or> capacity (bi_registry V) (ru_providerId r) (ru_model r) \<noteq> None" using r(2) by blast
    moreover have "\<exists>o' \<in> set (bd_budgets d). ob_orgId o' = orgId \<and> bs_monthlyBudgetTokens b = ob_monthlyTokenBudget o'"
      using budget b(1) by blast
    ultimately show ?thesis
      unfolding budget_result_def Let_def using b that(2,3) unfolding r(1) by blast
  qed
  show ?thesis
  proof (cases "n = 0")
    case True
    have "wp (upsertRollup V orgId (getUtcBillingPeriod now) (pa_usedTokens a) (pa_sourceRequestCount a))
      (\<lambda>r s'. \<forall>x. r = Inr x \<longrightarrow> (billing_data V s')\<lparr>bd_rollups := []\<rparr> = d\<lparr>bd_rollups := []\<rparr>
         \<and> rollup_written orgId (getUtcBillingPeriod now) (known_tokens ?rs) (int (length ?rs)) (bd_rollups d) (bd_rollups (billing_data V s'))) s"
      by (rule wp_mono [OF wp_upsert [OF laws]]) (auto simp: d used)
    then show ?thesis
      unfolding wp_then wp_ret wp_of_sum if_P [OF True] sum.case
      by (rule wp_mono) (auto simp: status True split: sum.splits)
  next
    case False
    then show ?thesis by (simp add: wp_then wp_ret wp_of_sum d status)
  qed
qed

lemma wp_status_of_aggregate:
  assumes laws: "billing_laws V" and now: "modern now" "getUtcBillingPeriodBounds now = (start, end')"
    and budget: "budget \<in> set (bd_budgets d)" "ob_orgId budget = orgId" and d: "billing_data V s = d"
  shows "wp (act_bind (aggregatePeriodUsage V orgId start end') (status_of_aggregate V orgId now budget))
    (\<lambda>r s'. \<forall>b. r = Inr b \<longrightarrow> budget_result V orgId now d (billing_data V s') b) s"
  unfolding wp_bind
proof (rule wp_mono [OF wp_aggregate [OF laws]])
  let ?Q = "\<lambda>r s'. \<forall>b. r = Inr b \<longrightarrow> budget_result V orgId now d (billing_data V s') b"
  fix r :: "exn + PeriodUsageAggregate" and s2
  assume g: "billing_data V s2 = billing_data V s \<and> (\<forall>a. r = Inr a \<longrightarrow>
     aggregate_of (filter (usage_match orgId start end') (bd_logs (billing_data V s))) a)"
  show "case r of Inl e \<Rightarrow> ?Q (Inl e) s2 | Inr a \<Rightarrow> wp (status_of_aggregate V orgId now budget a) ?Q s2"
  proof (cases r)
    case (Inr a)
    have a: "aggregate_of (period_records orgId (getUtcBillingPeriod now) (bd_logs d)) a"
      using g Inr d by (simp add: matched_records [OF now])
    have d2: "billing_data V s2 = d" using g d by simp
    show ?thesis
      unfolding Inr sum.case status_of_aggregate_def wp_bind wp_of_sum
      using wp_budget_write [OF laws a d2 budget]
      by (cases "calculateUnresolvedUsageReservation (bi_registry V) (pa_unresolvedUsageGroups a)") (simp_all only: sum.case, simp)
  qed simp
qed

lemma wp_read_budget:
  assumes laws: "billing_laws V" and now: "modern now"
  shows "wp (readAuthoritativeBudgetStatus V orgId now)
    (\<lambda>r s'. case r of Inl e \<Rightarrow> \<exists>a. e = ExnApp a \<and> ae_code a = ''BUDGET_ACCOUNTING_UNAVAILABLE''
       | Inr b \<Rightarrow> budget_result V orgId now (billing_data V s) (billing_data V s') b) s"
proof -
  obtain start end' where p: "getUtcBillingPeriodBounds now = (start, end')" by fastforce
  let ?Q = "\<lambda>r s'. \<forall>b. r = Inr b \<longrightarrow> budget_result V orgId now (billing_data V s) (billing_data V s') b"
  let ?read = "\<lambda>organisation. case organisation of
      None \<Rightarrow> act_throw (accountingUnavailable ''Organisation budget configuration is unavailable.'')
    | Some budget \<Rightarrow> act_bind (aggregatePeriodUsage V orgId start end') (status_of_aggregate V orgId now budget)"
  have "wp (act_bind (findOrganisationBudget V orgId) ?read) ?Q s"
    unfolding wp_bind [where k = ?read]
  proof (rule wp_mono [OF wp_find_budget [OF laws]])
    fix r :: "exn + OrganisationBudgetRecord option" and s1
    assume f: "billing_data V s1 = billing_data V s
       \<and> (\<forall>b. r = Inr (Some b) \<longrightarrow> b \<in> set (bd_budgets (billing_data V s)) \<and> ob_orgId b = orgId)"
    consider e where "r = Inl e" | "r = Inr None" | budget where "r = Inr (Some budget)"
      by (cases r) (auto intro: option.exhaust)
    then show "case r of Inl e \<Rightarrow> ?Q (Inl e) s1 | Inr organisation \<Rightarrow> wp (?read organisation) ?Q s1"
    proof cases
      case 3
      then show ?thesis using f wp_status_of_aggregate [OF laws now p] by (simp only: sum.case option.case)
    qed (simp_all add: wp_throw)
  qed
  then show ?thesis
    unfolding readAuthoritativeBudgetStatus_def p prod.case wp_catch
    by (rule wp_mono)
      (auto simp: wp_throw keep_accounting_error_def accounting_unavailable_def accountingUnavailable_def app_exn_def app_error_def
        split: sum.splits exn.splits)
qed

section \<open>The worker\<close>

lemma all_known: "length (filter usage_known rs) = length rs \<longleftrightarrow> (\<forall>r \<in> set rs. usage_known r)"
  by (metis filter_id_conv length_filter_less less_irrefl)

lemma wp_reconcile:
  assumes laws: "billing_laws V" and t: "modern t" and d: "billing_data V s = d"
  shows "wp (reconcileAuthoritativeTokenRollup V orgId t)
    (\<lambda>r s'. (billing_data V s')\<lparr>bd_rollups := []\<rparr> = d\<lparr>bd_rollups := []\<rparr>
       \<and> (\<forall>oc. r = Inr oc \<longrightarrow>
           (let rs = period_records orgId (getUtcBillingPeriod t) (bd_logs d)
            in if oc = APPLIED
               then (\<forall>q \<in> set rs. usage_known q)
                  \<and> rollup_written orgId (getUtcBillingPeriod t) (known_tokens rs) (int (length rs)) (bd_rollups d) (bd_rollups (billing_data V s'))
               else oc = USAGE_UNAVAILABLE \<and> (\<exists>q \<in> set rs. \<not> usage_known q) \<and> bd_rollups (billing_data V s') = bd_rollups d))) s"
    (is "wp _ ?Q s")
proof -
  obtain start end' where p: "getUtcBillingPeriodBounds t = (start, end')" by fastforce
  let ?rs = "period_records orgId (getUtcBillingPeriod t) (bd_logs d)"
  let ?go = "\<lambda>a. if pa_knownUsageCount a \<noteq> pa_sourceRequestCount a then act_ret USAGE_UNAVAILABLE
        else act_then (upsertRollup V orgId (getUtcBillingPeriod t) (pa_usedTokens a) (pa_sourceRequestCount a)) (act_ret APPLIED)"
  show ?thesis
    unfolding reconcileAuthoritativeTokenRollup_def p prod.case wp_bind [where k = ?go]
  proof (rule wp_mono [OF wp_aggregate [OF laws]])
    fix r :: "exn + PeriodUsageAggregate" and s1
    assume g: "billing_data V s1 = billing_data V s \<and> (\<forall>a. r = Inr a \<longrightarrow>
       aggregate_of (filter (usage_match orgId start end') (bd_logs (billing_data V s))) a)"
    show "case r of Inl e \<Rightarrow> ?Q (Inl e) s1 | Inr a \<Rightarrow> wp (?go a) ?Q s1"
    proof (cases r)
      case (Inr a)
      have a: "aggregate_of ?rs a" using g Inr d by (simp add: matched_records [OF t p])
      have k: "pa_usedTokens a = known_tokens ?rs" "pa_sourceRequestCount a = int (length ?rs)"
        "pa_knownUsageCount a = int (length (filter usage_known ?rs))"
        using a by (simp_all add: aggregate_of_def known_tokens_def)
      have d1: "billing_data V s1 = d" using g d by simp
      show ?thesis
      proof (cases "\<forall>q \<in> set ?rs. usage_known q")
        case True
        then have e: "pa_knownUsageCount a = pa_sourceRequestCount a" using k all_known [of ?rs] by simp
        have "wp (upsertRollup V orgId (getUtcBillingPeriod t) (pa_usedTokens a) (pa_sourceRequestCount a))
            (\<lambda>r s'. case r of Inl e \<Rightarrow> ?Q (Inl e) s' | Inr _ \<Rightarrow> ?Q (Inr APPLIED) s') s1"
          by (rule wp_mono [OF wp_upsert [OF laws]]) (use True in \<open>auto simp: d1 k Let_def split: sum.split\<close>)
        then show ?thesis using e unfolding Inr sum.case by (simp only: wp_then wp_ret if_False not_True_eq_False simp_thms)
      next
        case False
        then have "pa_knownUsageCount a \<noteq> pa_sourceRequestCount a" using k all_known [of ?rs] by simp
        then show ?thesis using False unfolding Inr sum.case by (auto simp: wp_ret d1 Let_def)
      qed
    qed (use g d in simp)
  qed
qed

abbreviation job_scope :: "RequestOutcomeJob \<Rightarrow> BillingJobLedgerRecord \<Rightarrow> bool" where
  "job_scope job \<equiv> ledger_scope (jb_orgId job) (jb_requestId job) (jb_jobType job)"

lemma scope_unique:
  assumes "billing_ledger_unique ls" and "l \<in> set ls" and "k \<in> set ls" and "ledger_scope i r j l" and "ledger_scope i r j k"
  shows "l = k"
  using assms inj_onD [of "\<lambda>l. (lj_orgId l, lj_requestId l, lj_jobType l)" "set ls" l k]
  by (simp add: billing_ledger_unique_def distinct_map ledger_scope_def)

lemma scope_fresh:
  assumes "billing_ledger_unique (ls @ [claim_record i r j t])" and "l \<in> set ls"
  shows "\<not> ledger_scope i r j l"
  using assms by (auto simp: billing_ledger_unique_def ledger_scope_def claim_record_def image_iff)

lemma scope_single:
  assumes "billing_ledger_unique (xs @ l # ys)" and "ledger_scope i r j l"
  shows "filter (ledger_scope i r j) (xs @ l # ys) = [l]"
proof -
  have "\<not> ledger_scope i r j k" if "k \<in> set xs \<union> set ys" for k
    using assms that by (auto simp: billing_ledger_unique_def ledger_scope_def image_iff)
  then have "filter (ledger_scope i r j) xs = []" "filter (ledger_scope i r j) ys = []" by (auto simp: filter_empty_conv)
  then show ?thesis using assms(2) by simp
qed

lemma wp_acquire:
  assumes laws: "billing_laws V" and d: "billing_data V s = d"
  shows "wp (acquireJobProcessing V i q j t)
    (\<lambda>r s'. (billing_data V s' = d \<or> billing_data V s' = d\<lparr>bd_ledgers := bd_ledgers d @ [claim_record i q j t]\<rparr>
              \<and> billing_ledger_unique (bd_ledgers d @ [claim_record i q j t]))
       \<and> (r = Inr claim_ACQUIRED \<longrightarrow> billing_data V s' \<noteq> d)
       \<and> (\<forall>st. r = Inr (claim_held st) \<longrightarrow> billing_data V s' = d \<and> (\<exists>l \<in> set (bd_ledgers d). ledger_scope i q j l \<and> lj_state l = st))) s"
    (is "wp _ ?Q s")
proof -
  let ?rec = "claim_record i q j t"
  let ?retry = "\<lambda>e. if e \<noteq> ExnDuplicateKey then act_throw e
            else act_bind (cl_findOne (bi_ledgers V) (ledger_scope i q j)) (\<lambda>existing.
              case existing of None \<Rightarrow> act_throw e | Some l \<Rightarrow> act_ret (claim_held (lj_state l)))"
  have find: "wp (?retry e) ?Q s1" if s1: "billing_data V s1 = d" for e s1
  proof -
    have "wp (cl_findOne (bi_ledgers V) (ledger_scope i q j)) (\<lambda>r s'. billing_data V s' = d
        \<and> (\<forall>l. r = Inr (Some l) \<longrightarrow> l \<in> set (bd_ledgers d) \<and> ledger_scope i q j l)) s1"
    proof (rule wp_leaves [OF billing_framesD(4) [OF laws]])
      fix r s'
      assume c: "cl_findOne (bi_ledgers V) (ledger_scope i q j) s1 = (r, s')" and "billing_data V s' = billing_data V s1"
      then show "billing_data V s' = d \<and> (\<forall>l. r = Inr (Some l) \<longrightarrow> l \<in> set (bd_ledgers d) \<and> ledger_scope i q j l)"
        using findOneD(3) [OF billing_lawsD(4) [OF laws] c] s1 by (auto simp: billing_data_simps)
    qed
    then have "wp (act_bind (cl_findOne (bi_ledgers V) (ledger_scope i q j)) (\<lambda>existing.
              case existing of None \<Rightarrow> act_throw e | Some l \<Rightarrow> act_ret (claim_held (lj_state l)))) ?Q s1"
      unfolding wp_bind by (rule wp_mono) (auto simp: wp_ret wp_throw split: sum.split option.split)
    then show ?thesis using s1 by (simp add: wp_throw)
  qed
  have retry: "wp (?retry e) ?Q s1"
    if s1: "billing_data V s1 = d \<or> e \<noteq> ExnDuplicateKey \<and> billing_data V s1 = d\<lparr>bd_ledgers := bd_ledgers d @ [?rec]\<rparr>
       \<and> billing_ledger_unique (bd_ledgers d @ [?rec])" for e s1
    using s1 find [of s1 e] by (cases "billing_data V s1 = d") (simp_all add: wp_throw)
  have create: "wp (cl_create (bi_ledgers V) [?rec]) (\<lambda>r s'. billing_data V s' = d \<and> (\<forall>x. r \<noteq> Inr x)
      \<or> r \<noteq> Inl ExnDuplicateKey \<and> billing_data V s' = d\<lparr>bd_ledgers := bd_ledgers d @ [?rec]\<rparr> \<and> billing_ledger_unique (bd_ledgers d @ [?rec])) s"
  proof (rule wp_leaves [OF billing_framesD(7) [OF laws]])
    fix r s'
    assume c: "cl_create (bi_ledgers V) [?rec] s = (r, s')" and f: "(billing_data V s')\<lparr>bd_ledgers := []\<rparr> = (billing_data V s)\<lparr>bd_ledgers := []\<rparr>"
    have e: "billing_data V s' = d\<lparr>bd_ledgers := ls\<rparr>" if "bd_ledgers (billing_data V s') = ls" for ls
      using f that d by (cases "billing_data V s'"; cases d) simp
    have a: "bd_ledgers (billing_data V s') = bd_ledgers d
        \<or> bd_ledgers (billing_data V s') = bd_ledgers d @ [?rec] \<and> billing_ledger_unique (bd_ledgers d @ [?rec])"
      using billing_lawsD(7) [OF laws, unfolded create_atomic_def, rule_format, of "[?rec]" s] c d by (auto simp: billing_data_simps)
    have ok: "bd_ledgers (billing_data V s') = bd_ledgers d @ [?rec]" if "r = Inr ()"
      using createD [OF billing_lawsD(5) [OF laws]] c that d by (auto simp: billing_data_simps)
    have dup: "bd_ledgers (billing_data V s') = bd_ledgers d" if "r = Inl ExnDuplicateKey"
      using billing_lawsD(11) [OF laws, unfolded duplicate_law_def, rule_format, of "[?rec]" s] c that d by (simp add: billing_data_simps)
    show "billing_data V s' = d \<and> (\<forall>x. r \<noteq> Inr x)
      \<or> r \<noteq> Inl ExnDuplicateKey \<and> billing_data V s' = d\<lparr>bd_ledgers := bd_ledgers d @ [?rec]\<rparr> \<and> billing_ledger_unique (bd_ledgers d @ [?rec])"
      using a ok dup e by (cases "bd_ledgers (billing_data V s') = bd_ledgers d") auto
  qed
  show ?thesis
    unfolding acquireJobProcessing_def wp_catch wp_then wp_ret
  proof (rule wp_mono [OF create])
    fix r :: "exn + unit" and s1
    assume c: "billing_data V s1 = d \<and> (\<forall>x. r \<noteq> Inr x)
      \<or> r \<noteq> Inl ExnDuplicateKey \<and> billing_data V s1 = d\<lparr>bd_ledgers := bd_ledgers d @ [?rec]\<rparr> \<and> billing_ledger_unique (bd_ledgers d @ [?rec])"
    show "case r of Inl e \<Rightarrow> (case Inl e of Inl e \<Rightarrow> wp (?retry e) ?Q s1 | Inr x \<Rightarrow> ?Q (Inr x) s1)
        | Inr x \<Rightarrow> (case Inr claim_ACQUIRED of Inl e \<Rightarrow> wp (?retry e) ?Q s1 | Inr x \<Rightarrow> ?Q (Inr x) s1)"
    proof (cases r)
      case (Inl e)
      show ?thesis unfolding Inl sum.case by (rule retry) (use c Inl in auto)
    next
      case (Inr x)
      have "d\<lparr>bd_ledgers := bd_ledgers d @ [?rec]\<rparr> \<noteq> d" by (cases d) simp
      then show ?thesis using c Inr by auto
    qed
  qed
qed

lemma wp_complete:
  assumes laws: "billing_laws V" and d: "billing_data V s = d" and unique: "billing_ledger_unique (bd_ledgers d)"
  shows "wp (completeJobProcessing V i q j t oc)
    (\<lambda>r s'. \<forall>x. r = Inr x \<longrightarrow> (billing_data V s')\<lparr>bd_ledgers := []\<rparr> = d\<lparr>bd_ledgers := []\<rparr>
       \<and> (\<exists>l. filter (ledger_scope i q j) (bd_ledgers (billing_data V s')) = [l] \<and> lj_state l = ledger_COMPLETED \<and> lj_outcome l = Some oc)) s"
  unfolding completeJobProcessing_def wp_bind
proof (rule wp_leaves [OF billing_framesD(8) [OF laws]])
  let ?p = "\<lambda>l. ledger_scope i q j l \<and> lj_state l = ledger_PROCESSING"
  let ?f = "\<lambda>l. l\<lparr>lj_state := ledger_COMPLETED, lj_completedAt := Some t, lj_outcome := Some oc\<rparr>"
  fix r s'
  assume u: "cl_update (bi_ledgers V) ?p ?f s = (r, s')"
    and f: "(billing_data V s')\<lparr>bd_ledgers := []\<rparr> = (billing_data V s)\<lparr>bd_ledgers := []\<rparr>"
  have "filter (ledger_scope i q j) (bd_ledgers (billing_data V s')) = [l] \<and> lj_state l = ledger_COMPLETED \<and> lj_outcome l = Some oc"
    if r: "r = Inr (Some l)" for l
  proof -
    obtain xs k ys where k: "bd_ledgers d = xs @ k # ys" "?p k" "l = ?f k" "bd_ledgers (billing_data V s') = xs @ ?f k # ys"
      using updateD(2) [OF billing_lawsD(6) [OF laws] u r] d by (auto simp: billing_data_simps)
    have "billing_ledger_unique (xs @ ?f k # ys)" "ledger_scope i q j (?f k)"
      using unique k(1,2) by (simp_all add: billing_ledger_unique_def ledger_scope_def)
    from scope_single [OF this] k show ?thesis by simp
  qed
  then show "case r of
       Inl e \<Rightarrow> \<forall>x. Inl e = Inr x \<longrightarrow> (billing_data V s')\<lparr>bd_ledgers := []\<rparr> = d\<lparr>bd_ledgers := []\<rparr>
       \<and> (\<exists>l. filter (ledger_scope i q j) (bd_ledgers (billing_data V s')) = [l] \<and> lj_state l = ledger_COMPLETED \<and> lj_outcome l = Some oc)
     | Inr completed \<Rightarrow> wp (if completed = None then act_throw (ExnOther ''Billing job processing claim was lost.'') else act_ret ())
         (\<lambda>r s'. \<forall>x. r = Inr x \<longrightarrow> (billing_data V s')\<lparr>bd_ledgers := []\<rparr> = d\<lparr>bd_ledgers := []\<rparr>
       \<and> (\<exists>l. filter (ledger_scope i q j) (bd_ledgers (billing_data V s')) = [l] \<and> lj_state l = ledger_COMPLETED \<and> lj_outcome l = Some oc)) s'"
    using f d by (auto simp: wp_throw wp_ret split: sum.split)
qed

text \<open>A finished job: its record is in the log, its claim is completed, and the rollup of its month
  holds the totals of the log, unless some usage of the month is unknown.\<close>

definition job_totals :: "string \<Rightarrow> RequestUsageRecord \<Rightarrow> billing_store \<Rightarrow> BillingRollup list \<Rightarrow> BillingJobOutcome \<Rightarrow> bool" where
  "job_totals orgId r d rollups oc \<longleftrightarrow>
     (let period = getUtcBillingPeriod (ru_createdAt r); rs = period_records orgId period (bd_logs d)
      in if oc = APPLIED
         then usage_known r \<and> (\<forall>q \<in> set rs. usage_known q)
            \<and> rollup_written orgId period (known_tokens rs) (int (length rs)) (bd_rollups d) rollups
         else oc = USAGE_UNAVAILABLE \<and> (\<not> usage_known r \<or> (\<exists>q \<in> set rs. \<not> usage_known q)) \<and> rollups = bd_rollups d)"

definition job_done :: "RequestOutcomeJob \<Rightarrow> billing_store \<Rightarrow> billing_store \<Rightarrow> BillingJobOutcome \<Rightarrow> bool" where
  "job_done job d d' oc \<longleftrightarrow> bd_logs d' = bd_logs d
   \<and> (\<exists>l. filter (job_scope job) (bd_ledgers d') = [l] \<and> lj_state l = ledger_COMPLETED \<and> lj_outcome l = Some oc)
   \<and> (\<exists>r \<in> set (bd_logs d). ru_orgId r = jb_orgId job \<and> ru_requestId r = jb_requestId job
       \<and> job_totals (jb_orgId job) r d (bd_rollups d') oc)"

lemma job_done_cong:
  "bd_logs d = bd_logs e \<Longrightarrow> bd_rollups d = bd_rollups e \<Longrightarrow> job_done job d d' oc = job_done job e d' oc"
  by (simp add: job_done_def job_totals_def)

definition modern_log :: "billing_store \<Rightarrow> bool" where
  "modern_log d \<longleftrightarrow> list_all (\<lambda>r. modern (ru_createdAt r)) (bd_logs d)"

lemma wp_process_claimed:
  assumes laws: "billing_laws V" and d: "billing_data V s = d" and unique: "billing_ledger_unique (bd_ledgers d)"
    and log: "modern_log d"
  shows "wp (process_claimed_job V job) (\<lambda>r s'. \<forall>oc. r = Inr oc \<longrightarrow> job_done job d (billing_data V s') oc) s"
    (is "wp _ ?Q s")
proof -
  let ?finish = "\<lambda>oc. act_bind (act_read (bi_now V)) (\<lambda>t.
    act_then (completeJobProcessing V (jb_orgId job) (jb_requestId job) (jb_jobType job) t oc) (act_ret oc))"
  let ?go = "\<lambda>r. act_bind (if usage_known r then reconcileAuthoritativeTokenRollup V (jb_orgId job) (ru_createdAt r)
                     else act_ret USAGE_UNAVAILABLE) ?finish"
  have finish: "wp (?finish oc) ?Q s2"
    if r: "r \<in> set (bd_logs d)" "ru_orgId r = jb_orgId job" "ru_requestId r = jb_requestId job"
      and s2: "(billing_data V s2)\<lparr>bd_rollups := []\<rparr> = d\<lparr>bd_rollups := []\<rparr>" "job_totals (jb_orgId job) r d (bd_rollups (billing_data V s2)) oc" for r oc s2
  proof -
    have u: "billing_ledger_unique (bd_ledgers (billing_data V s2))" and l2: "bd_logs (billing_data V s2) = bd_logs d"
      using unique s2(1) by (simp_all add: same_but_rollups)
    have done': "?Q (Inr oc) s3"
      if c: "(billing_data V s3)\<lparr>bd_ledgers := []\<rparr> = (billing_data V s2)\<lparr>bd_ledgers := []\<rparr>
         \<and> (\<exists>l. filter (job_scope job) (bd_ledgers (billing_data V s3)) = [l] \<and> lj_state l = ledger_COMPLETED \<and> lj_outcome l = Some oc)" for s3
    proof -
      have "bd_logs (billing_data V s3) = bd_logs d" "bd_rollups (billing_data V s3) = bd_rollups (billing_data V s2)"
        using c l2 by (simp_all add: same_but_ledgers)
      then show ?thesis using c r s2(2) unfolding job_done_def by auto
    qed
    show ?thesis
      unfolding wp_bind wp_read sum.case wp_then wp_ret
    proof (rule wp_mono [OF wp_complete [OF laws refl u]])
      fix r' :: "exn + unit" and s3
      assume c: "\<forall>x. r' = Inr x \<longrightarrow> (billing_data V s3)\<lparr>bd_ledgers := []\<rparr> = (billing_data V s2)\<lparr>bd_ledgers := []\<rparr>
         \<and> (\<exists>l. filter (job_scope job) (bd_ledgers (billing_data V s3)) = [l] \<and> lj_state l = ledger_COMPLETED \<and> lj_outcome l = Some oc)"
      show "case r' of Inl e \<Rightarrow> ?Q (Inl e) s3 | Inr _ \<Rightarrow> ?Q (Inr oc) s3"
        by (cases r') (use c done' [of s3] in simp_all)
    qed
  qed
  have go: "wp (?go r) ?Q s1"
    if s1: "billing_data V s1 = d" and r: "r \<in> set (bd_logs d)" "ru_orgId r = jb_orgId job" "ru_requestId r = jb_requestId job" for r s1
  proof (cases "usage_known r")
    case True
    have t: "modern (ru_createdAt r)" using log r(1) by (simp add: modern_log_def list_all_iff)
    show ?thesis
      unfolding wp_bind [where k = ?finish] if_P [OF True]
    proof (rule wp_mono [OF wp_reconcile [OF laws t s1]])
      fix x :: "exn + BillingJobOutcome" and s2
      assume c: "(billing_data V s2)\<lparr>bd_rollups := []\<rparr> = d\<lparr>bd_rollups := []\<rparr>
       \<and> (\<forall>oc. x = Inr oc \<longrightarrow>
           (let rs = period_records (jb_orgId job) (getUtcBillingPeriod (ru_createdAt r)) (bd_logs d)
            in if oc = APPLIED
               then (\<forall>q \<in> set rs. usage_known q) \<and> rollup_written (jb_orgId job) (getUtcBillingPeriod (ru_createdAt r))
                  (known_tokens rs) (int (length rs)) (bd_rollups d) (bd_rollups (billing_data V s2))
               else oc = USAGE_UNAVAILABLE \<and> (\<exists>q \<in> set rs. \<not> usage_known q) \<and> bd_rollups (billing_data V s2) = bd_rollups d))"
      show "case x of Inl e \<Rightarrow> ?Q (Inl e) s2 | Inr oc \<Rightarrow> wp (?finish oc) ?Q s2"
      proof (cases x)
        case (Inr oc)
        have "job_totals (jb_orgId job) r d (bd_rollups (billing_data V s2)) oc"
          using c Inr True by (auto simp: job_totals_def Let_def split: if_splits)
        with finish [OF r] c Inr show ?thesis by simp
      qed simp
    qed
  next
    case False
    have "wp (?finish USAGE_UNAVAILABLE) ?Q s1"
      by (rule finish [OF r]) (use False s1 in \<open>simp_all add: job_totals_def Let_def\<close>)
    then show ?thesis unfolding wp_bind [where k = ?finish] if_not_P [OF False] wp_ret sum.case .
  qed
  let ?claimed = "\<lambda>requestUsage. case requestUsage of
         None \<Rightarrow> act_throw (ExnUnrecoverable ''Authoritative request usage record is unavailable.'') | Some r \<Rightarrow> ?go r"
  show ?thesis
    unfolding process_claimed_job_def findRequestUsage_def wp_bind [where k = ?claimed]
  proof (rule wp_leaves [OF billing_framesD(2) [OF laws]])
    fix r s1
    assume c: "cl_findOne (bi_requestLogs V) (\<lambda>r. ru_orgId r = jb_orgId job \<and> ru_requestId r = jb_requestId job) s = (r, s1)"
      and e: "billing_data V s1 = billing_data V s"
    consider x where "r = Inl x" | "r = Inr None" | q where "r = Inr (Some q)" by (cases r) (auto intro: option.exhaust)
    then show "case r of Inl e \<Rightarrow> ?Q (Inl e) s1 | Inr x \<Rightarrow> wp (?claimed x) ?Q s1"
    proof cases
      case 3
      then have "q \<in> set (bd_logs d) \<and> ru_orgId q = jb_orgId job \<and> ru_requestId q = jb_requestId job"
        using findOneD(3) [OF billing_lawsD(1) [OF laws] c] d by (simp add: billing_data_simps)
      with go e d 3 show ?thesis by (simp only: sum.case option.case)
    qed (simp_all add: wp_throw)
  qed
qed

lemma wp_process_job:
  assumes laws: "billing_laws V" and d: "billing_data V s = d" and unique: "billing_ledger_unique (bd_ledgers d)"
    and log: "modern_log d"
  shows "wp (processRequestCompletedBillingJob V job attemptsMade)
    (\<lambda>r s'. (\<forall>oc. r = Inr (job_outcome oc) \<longrightarrow> job_done job d (billing_data V s') oc)
       \<and> ((\<exists>l \<in> set (bd_ledgers d). job_scope job l \<and> lj_state l = ledger_COMPLETED) \<longrightarrow>
            billing_data V s' = d \<and> (\<forall>x. r = Inr x \<longrightarrow> x = SKIPPED_COMPLETED))) s"
    (is "wp _ ?Q s")
proof -
  let ?process = "act_catch (act_bind (process_claimed_job V job) (\<lambda>oc. act_ret (job_outcome oc)))
              (\<lambda>e. act_then (releaseProcessingClaim V (jb_orgId job) (jb_requestId job) (jb_jobType job))
                     (act_throw (billing_job_error e)))"
  let ?go = "\<lambda>acquired. if acquired = claim_held ledger_COMPLETED then act_ret SKIPPED_COMPLETED
       else if acquired = claim_held ledger_PROCESSING \<and> attemptsMade = 0 then act_ret SKIPPED_PROCESSING else ?process"
  let ?held = "\<exists>l \<in> set (bd_ledgers d). job_scope job l \<and> lj_state l = ledger_COMPLETED"
  show ?thesis
    unfolding processRequestCompletedBillingJob_def wp_bind [where m = "act_read _"] wp_read sum.case wp_bind [where k = ?go]
  proof (rule wp_mono [OF wp_acquire [OF laws d]])
    fix r :: "exn + claim_result" and s1
    let ?rec = "claim_record (jb_orgId job) (jb_requestId job) (jb_jobType job) (bi_now V s)"
    let ?d1 = "d\<lparr>bd_ledgers := bd_ledgers d @ [?rec]\<rparr>"
    assume a: "(billing_data V s1 = d \<or> billing_data V s1 = ?d1 \<and> billing_ledger_unique (bd_ledgers d @ [?rec]))
       \<and> (r = Inr claim_ACQUIRED \<longrightarrow> billing_data V s1 \<noteq> d)
       \<and> (\<forall>st. r = Inr (claim_held st) \<longrightarrow> billing_data V s1 = d \<and> (\<exists>l \<in> set (bd_ledgers d). job_scope job l \<and> lj_state l = st))"
    have held: "billing_data V s1 = d" if h: ?held
    proof (rule ccontr)
      assume "billing_data V s1 \<noteq> d"
      then have "billing_ledger_unique (bd_ledgers d @ [?rec])" using a by blast
      with h scope_fresh show False by blast
    qed
    have completed: "st = claim_held ledger_COMPLETED" if h: ?held and r: "r = Inr st" for st
    proof (cases st)
      case claim_ACQUIRED
      then show ?thesis using a r held [OF h] by simp
    next
      case (claim_held k)
      then obtain l where "l \<in> set (bd_ledgers d)" "job_scope job l" "lj_state l = k" using a r by auto
      with h scope_unique [OF unique] claim_held show ?thesis by blast
    qed
    show "case r of Inl e \<Rightarrow> ?Q (Inl e) s1 | Inr acquired \<Rightarrow> wp (?go acquired) ?Q s1"
    proof (cases r)
      case (Inl e)
      then show ?thesis using held by simp
    next
      case (Inr st)
      show ?thesis
      proof (cases "st = claim_held ledger_COMPLETED \<or> st = claim_held ledger_PROCESSING \<and> attemptsMade = 0")
        case True
        then have go: "?go st = act_ret (if st = claim_held ledger_COMPLETED then SKIPPED_COMPLETED else SKIPPED_PROCESSING)" by auto
        have "?Q (Inr (if st = claim_held ledger_COMPLETED then SKIPPED_COMPLETED else SKIPPED_PROCESSING)) s1"
          using completed [OF _ Inr] held by simp
        then show ?thesis unfolding Inr sum.case go wp_ret .
      next
        case False
        then have nh: "\<not> ?held" using completed Inr by blast
        let ?d' = "billing_data V s1"
        have d': "bd_logs ?d' = bd_logs d" "bd_rollups ?d' = bd_rollups d" "billing_ledger_unique (bd_ledgers ?d')" "modern_log ?d'"
          using a unique log by (auto simp: modern_log_def)
        have "wp ?process ?Q s1"
          unfolding wp_catch wp_bind [where m = "process_claimed_job V job"] wp_ret
        proof (rule wp_mono [OF wp_process_claimed [OF laws refl d'(3,4)]])
          fix x :: "exn + BillingJobOutcome" and s2
          assume x: "\<forall>oc. x = Inr oc \<longrightarrow> job_done job ?d' (billing_data V s2) oc"
          show "case x of Inl e \<Rightarrow> (case Inl e of Inl e \<Rightarrow> wp (act_then (releaseProcessingClaim V (jb_orgId job) (jb_requestId job) (jb_jobType job))
                     (act_throw (billing_job_error e))) ?Q s2 | Inr y \<Rightarrow> ?Q (Inr y) s2)
              | Inr oc \<Rightarrow> (case Inr (job_outcome oc) of Inl e \<Rightarrow> wp (act_then (releaseProcessingClaim V (jb_orgId job) (jb_requestId job) (jb_jobType job))
                     (act_throw (billing_job_error e))) ?Q s2 | Inr y \<Rightarrow> ?Q (Inr y) s2)"
          proof (cases x)
            case (Inl e)
            show ?thesis unfolding Inl sum.case wp_then wp_throw
              by (rule wp_trivial) (use nh in \<open>auto split: sum.split\<close>)
          next
            case oc: (Inr oc)
            then have "job_done job d (billing_data V s2) oc" using x job_done_cong [OF d'(1,2)] by simp
            then show ?thesis unfolding oc sum.case using nh by simp
          qed
        qed
        then show ?thesis using False unfolding Inr by auto
      qed
    qed
  qed
qed

section \<open>A database in memory\<close>

text \<open>It shows that the laws can hold: the world is the four collections and a clock.\<close>

definition put_logs :: "(RequestUsageRecord list \<Rightarrow> RequestUsageRecord list) \<Rightarrow> billing_store \<times> int \<Rightarrow> billing_store \<times> int" where
  "put_logs f w = ((fst w)\<lparr>bd_logs := f (bd_logs (fst w))\<rparr>, snd w)"

definition put_budgets :: "(OrganisationBudgetRecord list \<Rightarrow> OrganisationBudgetRecord list) \<Rightarrow> billing_store \<times> int \<Rightarrow> billing_store \<times> int" where
  "put_budgets f w = ((fst w)\<lparr>bd_budgets := f (bd_budgets (fst w))\<rparr>, snd w)"

definition put_rollups :: "(BillingRollup list \<Rightarrow> BillingRollup list) \<Rightarrow> billing_store \<times> int \<Rightarrow> billing_store \<times> int" where
  "put_rollups f w = ((fst w)\<lparr>bd_rollups := f (bd_rollups (fst w))\<rparr>, snd w)"

definition put_ledgers :: "(BillingJobLedgerRecord list \<Rightarrow> BillingJobLedgerRecord list) \<Rightarrow> billing_store \<times> int \<Rightarrow> billing_store \<times> int" where
  "put_ledgers f w = ((fst w)\<lparr>bd_ledgers := f (bd_ledgers (fst w))\<rparr>, snd w)"

lemmas put_defs = put_logs_def put_budgets_def put_rollups_def put_ledgers_def

definition mem_billing :: "ProviderCapabilityRegistry \<Rightarrow> (billing_store \<times> int) billing_env" where
  "mem_billing reg = \<lparr>
     bi_requestLogs = mem_collection request_log_valid request_log_unique (\<lambda>w. bd_logs (fst w)) put_logs,
     bi_groupLogs = (\<lambda>p key acc w. let rs = filter p (bd_logs (fst w))
        in (Inr (map (\<lambda>k. (k, acc (filter (\<lambda>r. key r = k) rs))) (remdups (map key rs))), w)),
     bi_organisations = mem_collection (\<lambda>_. True) (\<lambda>_. True) (\<lambda>w. bd_budgets (fst w)) put_budgets,
     bi_rollups = mem_collection billing_rollup_valid billing_rollup_unique (\<lambda>w. bd_rollups (fst w)) put_rollups,
     bi_upsertRollup = (\<lambda>p new f w. let ds = bd_rollups (fst w);
          ds' = (if list_ex p ds then snd (update_first p f ds) else ds @ [new])
        in if list_all billing_rollup_valid ds' \<and> billing_rollup_unique ds' then (Inr new, put_rollups (\<lambda>_. ds') w)
           else (Inl (ExnOther ''ValidationError''), w)),
     bi_ledgers = (mem_collection billing_ledger_valid billing_ledger_unique (\<lambda>w. bd_ledgers (fst w)) put_ledgers)
        \<lparr>cl_create := (\<lambda>ls w. if \<not> billing_ledger_unique (bd_ledgers (fst w) @ ls) then (Inl ExnDuplicateKey, w)
            else if list_all billing_ledger_valid ls then (Inr (), put_ledgers (\<lambda>xs. xs @ ls) w)
            else (Inl (ExnOther ''ValidationError''), w))\<rparr>,
     bi_deleteLedger = (\<lambda>p w. (Inr (), put_ledgers (\<lambda>xs. takeWhile (\<lambda>l. \<not> p l) xs @ tl (dropWhile (\<lambda>l. \<not> p l) xs)) w)),
     bi_now = snd, bi_registry = reg\<rparr>"

lemma mem_upsert_law: "upsert_law (mem_billing reg)"
proof -
  have u: "upserted p new f ds (snd (update_first p f ds))" if "list_ex p ds" for p and new :: BillingRollup and f ds
  proof -
    obtain r ds' where r: "update_first p f ds = (r, ds')" by fastforce
    have "r \<noteq> None" using update_first_None [of p f ds ds'] r that by (auto simp: list_ex_iff)
    then obtain d where "r = Some d" by blast
    with r update_first_Some [of p f ds d ds'] that show ?thesis by (auto simp: upserted_def)
  qed
  have n: "upserted p new f ds (ds @ [new])" if "\<not> list_ex p ds" for p and new :: BillingRollup and f ds
    using that by (auto simp: upserted_def list_ex_iff)
  show ?thesis
    unfolding upsert_law_def by (auto simp: mem_billing_def mem_collection_def Let_def put_rollups_def u n)
qed

lemma mem_delete_law: "delete_law (mem_billing reg)"
proof -
  have "takeWhile (\<lambda>l. \<not> p l) ls @ tl (dropWhile (\<lambda>l. \<not> p l) ls) = ls
      \<or> (\<exists>xs d ys. ls = xs @ d # ys \<and> p d \<and> takeWhile (\<lambda>l. \<not> p l) ls @ tl (dropWhile (\<lambda>l. \<not> p l) ls) = xs @ ys)"
    for p and ls :: "BillingJobLedgerRecord list"
  proof (cases "dropWhile (\<lambda>l. \<not> p l) ls")
    case Nil
    then show ?thesis by (metis append_Nil2 list.sel(2) takeWhile_dropWhile_id)
  next
    case (Cons d ys)
    then have "p d" by (metis hd_dropWhile list.distinct(1) list.sel(1))
    moreover have "ls = takeWhile (\<lambda>l. \<not> p l) ls @ d # ys" using Cons by (metis takeWhile_dropWhile_id)
    ultimately show ?thesis using Cons by auto
  qed
  then show ?thesis by (simp add: delete_law_def mem_billing_def mem_collection_def Let_def put_ledgers_def)
qed

lemma mem_billing_data: "billing_data (mem_billing reg) w = fst w"
  by (cases "fst w") (simp add: billing_data_def mem_billing_def mem_collection_def)

lemma mem_frames: "billing_frames (mem_billing reg)"
  unfolding billing_frames_def leaves_def mem_billing_data
  by (simp add: mem_billing_def mem_collection_def put_defs Let_def)

lemma replaced_create:
  "collection_laws valid unique C \<Longrightarrow> create_law valid unique (C\<lparr>cl_create := c\<rparr>) \<Longrightarrow>
   collection_laws valid unique (C\<lparr>cl_create := c\<rparr>)"
proof -
  have "find_law (C\<lparr>cl_create := c\<rparr>) = find_law C" "findOne_law (C\<lparr>cl_create := c\<rparr>) = findOne_law C"
    "count_law (C\<lparr>cl_create := c\<rparr>) = count_law C" "update_law (C\<lparr>cl_create := c\<rparr>) = update_law C"
    by (simp_all add: find_law_def findOne_law_def count_law_def update_law_def)
  then show "collection_laws valid unique C \<Longrightarrow> create_law valid unique (C\<lparr>cl_create := c\<rparr>) \<Longrightarrow>
   collection_laws valid unique (C\<lparr>cl_create := c\<rparr>)" by (simp add: collection_laws_def)
qed

lemma mem_billing_laws: "billing_laws (mem_billing reg)"
proof -
  let ?L = "mem_collection billing_ledger_valid billing_ledger_unique (\<lambda>w. bd_ledgers (fst w)) put_ledgers"
  have c: "collection_laws request_log_valid request_log_unique (bi_requestLogs (mem_billing reg))"
    "collection_laws (\<lambda>_. True) (\<lambda>_. True) (bi_organisations (mem_billing reg))"
    unfolding mem_billing_def billing_env.simps by (rule mem_collection_laws; simp add: put_defs)+
  have l: "collection_laws billing_ledger_valid billing_ledger_unique ?L"
    by (rule mem_collection_laws) (simp add: put_defs)
  have "collection_laws billing_ledger_valid billing_ledger_unique (bi_ledgers (mem_billing reg))"
    unfolding mem_billing_def billing_env.simps
    by (rule replaced_create [OF l]) (simp add: create_law_def mem_collection_def put_ledgers_def)
  moreover have "create_atomic request_log_valid request_log_unique (bi_requestLogs (mem_billing reg))"
    "create_atomic billing_ledger_valid billing_ledger_unique (bi_ledgers (mem_billing reg))"
    "duplicate_law (mem_billing reg)" "group_law (mem_billing reg)"
    by (simp_all add: create_atomic_def duplicate_law_def group_law_def mem_billing_def mem_collection_def put_defs Let_def)
  ultimately show ?thesis
    using c mem_upsert_law mem_delete_law mem_frames by (simp add: billing_laws_def collection_laws_def)
qed

section \<open>Properties\<close>

text \<open>C20. Budget decisions follow the request log: a status that is returned counts exactly the billable records of the
  organisation in the current UTC month, adds the full model capacity for each record whose usage
  is unknown, is exceeded exactly when this sum reaches the monthly budget, and the rollup is
  written only when nothing is held back. Everything else is the error
  \<^verbatim>\<open>BUDGET_ACCOUNTING_UNAVAILABLE\<close>.\<close>

theorem budget_follows_request_log:
  assumes "billing_laws V" and "modern now" and "readAuthoritativeBudgetStatus V orgId now s = (r, s')"
  shows "case r of Inl e \<Rightarrow> \<exists>a. e = ExnApp a \<and> ae_code a = ''BUDGET_ACCOUNTING_UNAVAILABLE''
    | Inr b \<Rightarrow> budget_result V orgId now (billing_data V s) (billing_data V s') b"
  using wpD [OF wp_read_budget [OF assms(1,2)] assms(3)] .

text \<open>C21. A billing job takes effect once: when it is reported done, its record is in the log, the
  ledger holds its completed claim, and an applied job has written the totals of the month; and
  while the claim is there, a repetition reports at most that it was skipped and changes nothing.\<close>

theorem billing_job_effect_once:
  assumes laws: "billing_laws V"
    and unique: "billing_ledger_unique (bd_ledgers (billing_data V s))" "modern_log (billing_data V s)"
    and run: "processRequestCompletedBillingJob V job n s = (Inr (job_outcome oc), s1)"
    and kept: "bd_ledgers (billing_data V s2) = bd_ledgers (billing_data V s1)"
    and unique2: "billing_ledger_unique (bd_ledgers (billing_data V s2))" "modern_log (billing_data V s2)"
    and again: "processRequestCompletedBillingJob V job k s2 = (r, s3)"
  shows "job_done job (billing_data V s) (billing_data V s1) oc
    \<and> billing_data V s3 = billing_data V s2 \<and> (\<forall>x. r = Inr x \<longrightarrow> x = SKIPPED_COMPLETED)"
proof -
  have d: "job_done job (billing_data V s) (billing_data V s1) oc"
    using wpD [OF wp_process_job [OF laws refl unique] run] by blast
  then obtain l where l: "filter (job_scope job) (bd_ledgers (billing_data V s2)) = [l]" "lj_state l = ledger_COMPLETED"
    unfolding job_done_def kept by blast
  have "l \<in> set (filter (job_scope job) (bd_ledgers (billing_data V s2)))" using l(1) by simp
  with l(2) have "\<exists>l \<in> set (bd_ledgers (billing_data V s2)). job_scope job l \<and> lj_state l = ledger_COMPLETED" by auto
  then show ?thesis using d wpD [OF wp_process_job [OF laws refl unique2] again] by blast
qed

section \<open>An organisation with one request\<close>

definition demo_usage :: RequestUsageRecord where
  "demo_usage = \<lparr>ru_requestId = demo_uuid 0, ru_orgId = demo_uuid 1, ru_userId = demo_uuid 2, ru_status = st_COMPLETED,
     ru_policyAction = ALLOW, ru_providerId = Some groq, ru_model = Some ''m'', ru_inputTokens = Some 10,
     ru_outputTokens = Some 5, ru_totalTokens = Some 15, ru_createdAt = 5\<rparr>"

definition demo_accounts :: "billing_store \<times> int" where
  "demo_accounts = (\<lparr>bd_logs = [demo_usage], bd_budgets = [\<lparr>ob_orgId = demo_uuid 1, ob_monthlyTokenBudget = 15\<rparr>],
     bd_rollups = [], bd_ledgers = []\<rparr>, 6)"

definition demo_job :: RequestOutcomeJob where
  "demo_job = \<lparr>jb_schemaVersion = 1, jb_jobType = REQUEST_COMPLETED_JOB_TYPE, jb_requestId = demo_uuid 0, jb_orgId = demo_uuid 1,
     jb_userId = demo_uuid 2, jb_status = st_COMPLETED, jb_policyAction = ALLOW, jb_providerId = Some groq, jb_model = Some ''m'',
     jb_usage = None, jb_occurredAt = []\<rparr>"

definition demo_billing :: "(billing_store \<times> int) billing_env" where
  "demo_billing = mem_billing (\<lambda>_. None)"

lemma demo_date: "civil 5 = \<lparr>cv_year = 1970, cv_month = 1, cv_day = 1, cv_ms = 5\<rparr>"
proof -
  have "year_up 1970 0 = (1970, 0)" by (subst year_up.simps) (simp add: year_days_def leap_year_def)
  then show ?thesis by (simp add: civil_def year_of_days_def DAY_MS_def month_lengths_def)
qed

lemma demo_period: "getUtcBillingPeriod 5 = [49, 57, 55, 48, 45, 48, 49]"
  unfolding getUtcBillingPeriod_def demo_date by code_simp

lemma demo_bounds: "getUtcBillingPeriodBounds 5 = (0, 2678400000)"
proof -
  have "getUtcBillingPeriodBounds 5 = (date_utc 1970 0, date_utc 1970 1)"
    by (simp add: getUtcBillingPeriodBounds_def demo_date)
  moreover have "date_utc 1970 0 = 0" "date_utc 1970 1 = 2678400000" by code_simp+
  ultimately show ?thesis by simp
qed

lemma demo_modern: "modern 5" "modern_log (fst demo_accounts)"
  by (simp_all add: modern_def modern_log_def demo_accounts_def demo_usage_def demo_date)

definition demo_totals :: BillingRollup where
  "demo_totals = \<lparr>bl_orgId = demo_uuid 1, bl_period = [49, 57, 55, 48, 45, 48, 49], bl_usedTokens = 15,
     bl_sourceRequestCount = 1, bl_updatedAt = 6\<rparr>"

lemma demo_totals_valid: "billing_rollup_valid demo_totals"
  by (simp add: billing_rollup_valid_def demo_totals_def demo_uuid_valid is_safe_integer_def MAX_SAFE_INTEGER_def
      billing_period_pattern_def is_digit_def numeral_eq_Suc)

lemma demo_aggregate:
  "bd_logs (fst w) = [demo_usage] \<Longrightarrow> aggregatePeriodUsage demo_billing (demo_uuid 1) 0 2678400000 w =
     (Inr \<lparr>pa_usedTokens = 15, pa_sourceRequestCount = 1, pa_knownUsageCount = 1, pa_unresolvedUsageGroups = []\<rparr>, w)"
  by (simp add: aggregatePeriodUsage_def act_bind_apply act_ret_apply demo_billing_def mem_billing_def Let_def usage_match_def demo_usage_def
      usage_group_def usage_accumulate_def tokens_or_zero_def usage_known_def add_usage_row_def empty_aggregate_def)

lemma demo_upsert:
  "bd_rollups (fst w) = [] \<Longrightarrow> snd w = 6 \<Longrightarrow> upsertRollup demo_billing (demo_uuid 1) [49, 57, 55, 48, 45, 48, 49] 15 1 w =
     (Inr demo_totals, put_rollups (\<lambda>_. [demo_totals]) w)"
  using demo_totals_valid unfolding demo_totals_def
  by (simp add: upsertRollup_def act_bind_apply act_read_apply demo_billing_def mem_billing_def Let_def billing_rollup_unique_def
      del: One_nat_def)

theorem budget_follows_request_log_witness:
  "\<exists>b w. readAuthoritativeBudgetStatus demo_billing (demo_uuid 1) 5 demo_accounts = (Inr b, w)
     \<and> budget_result demo_billing (demo_uuid 1) 5 (billing_data demo_billing demo_accounts) (billing_data demo_billing w) b
     \<and> bs_usedTokens b = 15 \<and> bs_exceeded b"
proof -
  have f: "findOrganisationBudget demo_billing (demo_uuid 1) demo_accounts
      = (Inr (Some \<lparr>ob_orgId = demo_uuid 1, ob_monthlyTokenBudget = 15\<rparr>), demo_accounts)"
    by (simp add: findOrganisationBudget_def demo_billing_def mem_billing_def mem_collection_def demo_accounts_def)
  have a: "aggregatePeriodUsage demo_billing (demo_uuid 1) 0 2678400000 demo_accounts =
     (Inr \<lparr>pa_usedTokens = 15, pa_sourceRequestCount = 1, pa_knownUsageCount = 1, pa_unresolvedUsageGroups = []\<rparr>, demo_accounts)"
    by (rule demo_aggregate) (simp add: demo_accounts_def)
  have u: "upsertRollup demo_billing (demo_uuid 1) [49, 57, 55, 48, 45, 48, 49] 15 1 demo_accounts =
     (Inr demo_totals, put_rollups (\<lambda>_. [demo_totals]) demo_accounts)" by (rule demo_upsert) (simp_all add: demo_accounts_def)
  obtain b w where r: "readAuthoritativeBudgetStatus demo_billing (demo_uuid 1) 5 demo_accounts = (Inr b, w)"
      "bs_usedTokens b = 15" "bs_exceeded b"
    by (simp add: readAuthoritativeBudgetStatus_def demo_bounds demo_period act_simps f a u status_of_aggregate_def
        calculateUnresolvedUsageReservation_def of_sum_def createBudgetStatus_def is_safe_integer_def MAX_SAFE_INTEGER_def
        del: One_nat_def)
  moreover have "billing_laws demo_billing" unfolding demo_billing_def by (rule mem_billing_laws)
  ultimately show ?thesis
    using budget_follows_request_log [OF _ demo_modern(1) r(1)] by auto
qed

definition demo_claim :: BillingJobLedgerRecord where
  "demo_claim = claim_record (demo_uuid 1) (demo_uuid 0) REQUEST_COMPLETED_JOB_TYPE 6"

definition demo_finished :: BillingJobLedgerRecord where
  "demo_finished = demo_claim\<lparr>lj_state := ledger_COMPLETED, lj_completedAt := Some 6, lj_outcome := Some APPLIED\<rparr>"

lemma demo_claim_valid: "billing_ledger_valid demo_claim" "ledger_scope (demo_uuid 1) (demo_uuid 0) REQUEST_COMPLETED_JOB_TYPE demo_claim"
  "ledger_scope (demo_uuid 1) (demo_uuid 0) REQUEST_COMPLETED_JOB_TYPE demo_finished" "lj_state demo_claim = ledger_PROCESSING"
  by (simp_all add: billing_ledger_valid_def demo_claim_def demo_finished_def claim_record_def demo_uuid_valid validateTerminalState_def
      ledger_scope_def)

lemma demo_first_run:
  "processRequestCompletedBillingJob demo_billing demo_job 0 demo_accounts
     = (Inr (job_outcome APPLIED), put_ledgers (\<lambda>_. [demo_finished]) (put_rollups (\<lambda>_. [demo_totals]) (put_ledgers (\<lambda>_. [demo_claim]) demo_accounts)))"
proof -
  let ?w1 = "put_ledgers (\<lambda>_. [demo_claim]) demo_accounts"
  let ?w2 = "put_rollups (\<lambda>_. [demo_totals]) ?w1"
  have now: "bi_now demo_billing = snd" by (simp add: demo_billing_def mem_billing_def)
  have s: "snd demo_accounts = 6" "snd ?w1 = 6" "snd ?w2 = 6" by (simp_all add: put_defs demo_accounts_def)
  have acquire: "acquireJobProcessing demo_billing (demo_uuid 1) (demo_uuid 0) REQUEST_COMPLETED_JOB_TYPE 6 demo_accounts = (Inr claim_ACQUIRED, ?w1)"
    using demo_claim_valid(1)
    by (simp add: acquireJobProcessing_def act_simps demo_billing_def mem_billing_def billing_ledger_unique_def demo_accounts_def put_ledgers_def
        del: One_nat_def flip: demo_claim_def)
  have find: "findRequestUsage demo_billing (demo_uuid 1) (demo_uuid 0) ?w1 = (Inr (Some demo_usage), ?w1)"
    by (simp add: findRequestUsage_def demo_billing_def mem_billing_def mem_collection_def demo_accounts_def put_defs demo_usage_def del: One_nat_def)
  have agg: "aggregatePeriodUsage demo_billing (demo_uuid 1) 0 2678400000 ?w1 =
     (Inr \<lparr>pa_usedTokens = 15, pa_sourceRequestCount = 1, pa_knownUsageCount = 1, pa_unresolvedUsageGroups = []\<rparr>, ?w1)"
    by (rule demo_aggregate) (simp add: demo_accounts_def put_defs)
  have up: "upsertRollup demo_billing (demo_uuid 1) [49, 57, 55, 48, 45, 48, 49] 15 1 ?w1 = (Inr demo_totals, ?w2)"
    by (rule demo_upsert) (simp_all add: demo_accounts_def put_defs)
  have rec: "reconcileAuthoritativeTokenRollup demo_billing (demo_uuid 1) 5 ?w1 = (Inr APPLIED, ?w2)"
    by (simp add: reconcileAuthoritativeTokenRollup_def demo_bounds demo_period act_simps agg up del: One_nat_def)
  have com: "completeJobProcessing demo_billing (demo_uuid 1) (demo_uuid 0) REQUEST_COMPLETED_JOB_TYPE 6 APPLIED ?w2
      = (Inr (), put_ledgers (\<lambda>_. [demo_finished]) ?w2)"
    using demo_claim_valid(2,4)
    by (simp add: completeJobProcessing_def act_simps demo_billing_def mem_billing_def mem_collection_def put_defs demo_accounts_def
        demo_finished_def del: One_nat_def)
  have u: "usage_known demo_usage" "ru_createdAt demo_usage = 5" by (simp_all add: usage_known_def demo_usage_def)
  show ?thesis
    by (simp add: processRequestCompletedBillingJob_def demo_job_def act_simps now s acquire process_claimed_job_def find u rec com
        del: One_nat_def)
qed

theorem billing_job_effect_once_witness:
  "\<exists>w. processRequestCompletedBillingJob demo_billing demo_job 0 demo_accounts = (Inr (job_outcome APPLIED), w)
     \<and> job_done demo_job (fst demo_accounts) (fst w) APPLIED
     \<and> processRequestCompletedBillingJob demo_billing demo_job 1 w = (Inr SKIPPED_COMPLETED, w)"
proof -
  let ?w = "put_ledgers (\<lambda>_. [demo_finished]) (put_rollups (\<lambda>_. [demo_totals]) (put_ledgers (\<lambda>_. [demo_claim]) demo_accounts))"
  have data: "billing_data demo_billing v = fst v" for v unfolding demo_billing_def by (rule mem_billing_data)
  have l: "bd_ledgers (fst ?w) = [demo_finished]" by (simp add: put_defs)
  have "demo_claim = claim_record (demo_uuid 1) (demo_uuid 0) REQUEST_COMPLETED_JOB_TYPE 6" by (rule demo_claim_def)
  have u: "billing_ledger_unique (bd_ledgers (fst demo_accounts))" "billing_ledger_unique (bd_ledgers (fst ?w))" "modern_log (fst ?w)"
    using demo_modern(2) by (simp_all add: billing_ledger_unique_def demo_accounts_def l modern_log_def put_defs)
  have dup: "\<not> billing_ledger_unique ([demo_finished] @ [claim_record (demo_uuid 1) (demo_uuid 0) REQUEST_COMPLETED_JOB_TYPE t])" for t
    by (simp add: billing_ledger_unique_def demo_finished_def demo_claim_def claim_record_def)
  have "acquireJobProcessing demo_billing (demo_uuid 1) (demo_uuid 0) REQUEST_COMPLETED_JOB_TYPE t ?w = (Inr (claim_held ledger_COMPLETED), ?w)" for t
    using dup [of t] demo_claim_valid(3)
    by (simp add: acquireJobProcessing_def act_simps demo_billing_def mem_billing_def l mem_collection_def del: One_nat_def)
      (simp add: demo_finished_def)
  then have again: "processRequestCompletedBillingJob demo_billing demo_job 1 ?w = (Inr SKIPPED_COMPLETED, ?w)"
    by (simp add: processRequestCompletedBillingJob_def demo_job_def act_simps del: One_nat_def)
  have "billing_laws demo_billing" unfolding demo_billing_def by (rule mem_billing_laws)
  from billing_job_effect_once [OF this _ _ demo_first_run refl _ _ again, unfolded data, OF u(1) demo_modern(2) u(2,3)]
  show ?thesis using demo_first_run again by blast
qed

end
