(* ===== verification/BillingRollups.thy ===== *)
theory BillingRollups
  imports BillingProperties
begin

text \<open>
  The monthly rollup under concurrency. Budget checks and billing jobs read an aggregate of the
  log and write it to the rollup in a later, separate database operation; between the two, other
  requests append to the log and other jobs read and write. \<open>rollup_step\<close> interleaves these
  operations: a configuration is the world and the aggregates that were read and not yet written.
\<close>

record pending_rollup =
  pw_orgId :: string
  pw_period :: jsstr
  pw_usedTokens :: int
  pw_requests :: int

definition pending_of :: "string \<Rightarrow> int \<Rightarrow> PeriodUsageAggregate \<Rightarrow> pending_rollup" where
  "pending_of orgId t a = \<lparr>pw_orgId = orgId, pw_period = getUtcBillingPeriod t, pw_usedTokens = pa_usedTokens a,
     pw_requests = pa_sourceRequestCount a\<rparr>"

inductive rollup_step :: "'s billing_env \<Rightarrow> 's \<times> pending_rollup list \<Rightarrow> 's \<times> pending_rollup list \<Rightarrow> bool" for V where
  log_request: "appendUsage V i s = (r, s') \<Longrightarrow> rollup_step V (s, ps) (s', ps)"
| read_aggregate: "modern t \<Longrightarrow> getUtcBillingPeriodBounds t = (start, end') \<Longrightarrow>
    aggregatePeriodUsage V orgId start end' s = (Inr a, s') \<Longrightarrow> rollup_step V (s, ps) (s', pending_of orgId t a # ps)"
| write_rollup: "upsertRollup V (pw_orgId p) (pw_period p) (pw_usedTokens p) (pw_requests p) s = (r, s') \<Longrightarrow>
    rollup_step V (s, ps @ p # qs) (s', ps @ qs)"
| write_nothing: "rollup_step V (s, ps @ p # qs) (s, ps @ qs)"
| claim_job: "acquireJobProcessing V orgId q j t s = (r, s') \<Longrightarrow> rollup_step V (s, ps) (s', ps)"
| finish_job: "completeJobProcessing V orgId q j t oc s = (r, s') \<Longrightarrow> rollup_step V (s, ps) (s', ps)"
| release_job: "releaseJobProcessing V orgId q j s = (r, s') \<Longrightarrow> rollup_step V (s, ps) (s', ps)"

inductive rollup_reachable :: "'s billing_env \<Rightarrow> 's \<Rightarrow> 's \<times> pending_rollup list \<Rightarrow> bool" for V s0 where
  start: "rollup_reachable V s0 (s0, [])"
| step: "rollup_reachable V s0 c \<Longrightarrow> rollup_step V c c' \<Longrightarrow> rollup_reachable V s0 c'"

section \<open>The rollup stays within the log\<close>

definition within_log :: "RequestUsageRecord list \<Rightarrow> string \<Rightarrow> jsstr \<Rightarrow> int \<Rightarrow> int \<Rightarrow> bool" where
  "within_log rs orgId period used requests \<longleftrightarrow>
     used \<le> known_tokens (period_records orgId period rs) \<and> requests \<le> int (length (period_records orgId period rs))"

definition rollups_within :: "billing_store \<Rightarrow> pending_rollup list \<Rightarrow> bool" where
  "rollups_within d ps \<longleftrightarrow>
     (\<forall>r \<in> set (bd_rollups d). within_log (bd_logs d) (bl_orgId r) (bl_period r) (bl_usedTokens r) (bl_sourceRequestCount r))
   \<and> (\<forall>p \<in> set ps. within_log (bd_logs d) (pw_orgId p) (pw_period p) (pw_usedTokens p) (pw_requests p))"

lemma within_log_append:
  assumes "within_log rs orgId period used requests" and "request_log_valid r"
  shows "within_log (rs @ [r]) orgId period used requests"
proof -
  have "0 \<le> tokens_or_zero r"
    using assms(2) by (auto simp: request_log_valid_def token_field_valid_def tokens_or_zero_def split: option.splits)
  then show ?thesis using assms(1) by (auto simp: within_log_def period_records_def known_tokens_def)
qed

lemma rollups_within_same:
  "bd_logs d' = bd_logs d \<Longrightarrow> bd_rollups d' = bd_rollups d \<Longrightarrow> set qs \<subseteq> set ps \<Longrightarrow> rollups_within d ps \<Longrightarrow> rollups_within d' qs"
  by (auto simp: rollups_within_def)

lemma rollups_within_written:
  assumes "rollup_written (pw_orgId p) (pw_period p) (pw_usedTokens p) (pw_requests p) (bd_rollups d) (bd_rollups d')"
    and "bd_logs d' = bd_logs d" and "rollups_within d (ps @ p # qs)"
  shows "rollups_within d' (ps @ qs)"
proof -
  have "within_log (bd_logs d) (bl_orgId r) (bl_period r) (bl_usedTokens r) (bl_sourceRequestCount r)"
    if r: "r \<in> set (bd_rollups d')" for r
  proof (cases "rollup_match (pw_orgId p) (pw_period p) r")
    case True
    then have m: "r \<in> set (filter (rollup_match (pw_orgId p) (pw_period p)) (bd_rollups d'))" using r by simp
    obtain q where "filter (rollup_match (pw_orgId p) (pw_period p)) (bd_rollups d') = [q]"
        "bl_usedTokens q = pw_usedTokens p" "bl_sourceRequestCount q = pw_requests p"
      using assms(1) by (auto simp: rollup_written_def)
    with m have "bl_usedTokens r = pw_usedTokens p \<and> bl_sourceRequestCount r = pw_requests p" by simp
    with True assms(3) show ?thesis by (simp add: rollup_match_def rollups_within_def)
  next
    case False
    then have m: "r \<in> set (filter (\<lambda>r. \<not> rollup_match (pw_orgId p) (pw_period p) r) (bd_rollups d'))" using r by simp
    have "filter (\<lambda>r. \<not> rollup_match (pw_orgId p) (pw_period p) r) (bd_rollups d')
        = filter (\<lambda>r. \<not> rollup_match (pw_orgId p) (pw_period p) r) (bd_rollups d)"
      using assms(1) by (simp add: rollup_written_def)
    with m have "r \<in> set (filter (\<lambda>r. \<not> rollup_match (pw_orgId p) (pw_period p) r) (bd_rollups d))" by (simp only:)
    then have "r \<in> set (bd_rollups d)" by simp
    with assms(3) show ?thesis by (simp add: rollups_within_def)
  qed
  with assms(2,3) show ?thesis by (simp add: rollups_within_def)
qed

lemma leaves_catch: "leaves f m \<Longrightarrow> (\<And>e. leaves f (h e)) \<Longrightarrow> leaves f (act_catch m h)"
  by (auto simp: leaves_def act_catch_apply split: prod.split sum.split) (metis snd_conv)+

lemma leaves_then: "leaves f m \<Longrightarrow> leaves f k \<Longrightarrow> leaves f (act_then m k)"
  unfolding act_then_def by (rule leaves_bind)

lemma leaves_weaker: "leaves f m \<Longrightarrow> leaves (\<lambda>s. g (f s)) m"
  by (simp add: leaves_def)

lemma ledger_operations_leave:
  assumes "billing_laws V"
  shows "leaves (\<lambda>s. (billing_data V s)\<lparr>bd_ledgers := []\<rparr>) (acquireJobProcessing V orgId q j t)"
    and "leaves (\<lambda>s. (billing_data V s)\<lparr>bd_ledgers := []\<rparr>) (completeJobProcessing V orgId q j t oc)"
    and "leaves (\<lambda>s. (billing_data V s)\<lparr>bd_ledgers := []\<rparr>) (releaseJobProcessing V orgId q j)"
proof -
  note fr = billing_framesD [OF assms]
  have "leaves (\<lambda>s. (billing_data V s)\<lparr>bd_ledgers := []\<rparr>) (cl_findOne (bi_ledgers V) p)" for p
    using leaves_weaker [OF fr(4), of "\<lambda>d. d\<lparr>bd_ledgers := []\<rparr>"] .
  then show "leaves (\<lambda>s. (billing_data V s)\<lparr>bd_ledgers := []\<rparr>) (acquireJobProcessing V orgId q j t)"
    unfolding acquireJobProcessing_def
    by (auto intro!: leaves_catch leaves_then leaves_bind leaves_ret leaves_throw fr(7) split: option.split)
  show "leaves (\<lambda>s. (billing_data V s)\<lparr>bd_ledgers := []\<rparr>) (completeJobProcessing V orgId q j t oc)"
    unfolding completeJobProcessing_def by (auto intro!: leaves_bind leaves_ret leaves_throw fr(8))
  show "leaves (\<lambda>s. (billing_data V s)\<lparr>bd_ledgers := []\<rparr>) (releaseJobProcessing V orgId q j)"
    unfolding releaseJobProcessing_def by (rule fr(9))
qed

lemma append_usage_run:
  assumes "billing_laws V" and "appendUsage V i s = (r, s')"
  shows "bd_rollups (billing_data V s') = bd_rollups (billing_data V s)
    \<and> (bd_logs (billing_data V s') = bd_logs (billing_data V s)
       \<or> (\<exists>q. request_log_valid q \<and> bd_logs (billing_data V s') = bd_logs (billing_data V s) @ [q]))"
proof -
  let ?q = "usage_log_record i (bi_now V s)"
  obtain r1 where c: "cl_create (bi_requestLogs V) [?q] s = (r1, s')"
    using assms(2) by (auto simp: appendUsage_def act_simps split: prod.splits sum.splits)
  have "bd_rollups (billing_data V s') = bd_rollups (billing_data V s)"
    using leavesD [OF billing_framesD(5) [OF assms(1)] c] by (simp add: same_but_logs)
  moreover have "bd_logs (billing_data V s') = bd_logs (billing_data V s)
      \<or> bd_logs (billing_data V s') = bd_logs (billing_data V s) @ [?q] \<and> request_log_valid ?q"
    using billing_lawsD(2) [OF assms(1), unfolded create_atomic_def, rule_format, of "[?q]" s] c by (auto simp: billing_data_simps)
  ultimately show ?thesis by blast
qed

lemma rollup_step_within:
  assumes "billing_laws V" and "rollup_step V c c'" and "rollups_within (billing_data V (fst c)) (snd c)"
  shows "rollups_within (billing_data V (fst c')) (snd c')"
  using assms(2,3)
proof cases
  case (log_request i s r s' ps)
  then show ?thesis
    using append_usage_run [OF assms(1) log_request(3)] assms(3) within_log_append by (auto simp: rollups_within_def)
next
  case (read_aggregate t start end' orgId s a s' ps)
  have a: "billing_data V s' = billing_data V s"
    "aggregate_of (period_records orgId (getUtcBillingPeriod t) (bd_logs (billing_data V s))) a"
    using wpD [OF wp_aggregate [OF assms(1)] read_aggregate(5)] by (simp_all add: matched_records [OF read_aggregate(3,4)])
  then have "within_log (bd_logs (billing_data V s)) (pw_orgId (pending_of orgId t a)) (pw_period (pending_of orgId t a))
      (pw_usedTokens (pending_of orgId t a)) (pw_requests (pending_of orgId t a))"
    by (simp add: within_log_def pending_of_def aggregate_of_def known_tokens_def)
  with assms(3) a(1) show ?thesis by (simp add: read_aggregate(1,2) rollups_within_def)
next
  case (write_rollup p s r s' ps qs)
  have w: "(billing_data V s')\<lparr>bd_rollups := []\<rparr> = (billing_data V s)\<lparr>bd_rollups := []\<rparr>"
    "rollup_written (pw_orgId p) (pw_period p) (pw_usedTokens p) (pw_requests p) (bd_rollups (billing_data V s)) (bd_rollups (billing_data V s'))
     \<or> bd_rollups (billing_data V s') = bd_rollups (billing_data V s)"
    using wpD [OF wp_upsert [OF assms(1)] write_rollup(3)] by blast+
  then have l: "bd_logs (billing_data V s') = bd_logs (billing_data V s)" by (simp add: same_but_rollups)
  have i: "rollups_within (billing_data V s) (ps @ p # qs)" using assms(3) write_rollup(1) by simp
  from w(2) have "rollups_within (billing_data V s') (ps @ qs)"
  proof
    assume "rollup_written (pw_orgId p) (pw_period p) (pw_usedTokens p) (pw_requests p)
      (bd_rollups (billing_data V s)) (bd_rollups (billing_data V s'))"
    then show ?thesis using rollups_within_written l i by blast
  next
    assume "bd_rollups (billing_data V s') = bd_rollups (billing_data V s)"
    then show ?thesis by (rule rollups_within_same [OF l _ _ i]) auto
  qed
  then show ?thesis using write_rollup(2) by simp
next
  case (write_nothing s ps p qs)
  then show ?thesis using assms(3) by (simp add: rollups_within_def)
next
  case (claim_job orgId q j t s r s' ps)
  then show ?thesis using assms(3) leavesD [OF ledger_operations_leave(1) [OF assms(1)] claim_job(3)]
    by (simp add: same_but_ledgers rollups_within_def)
next
  case (finish_job orgId q j t oc s r s' ps)
  then show ?thesis using assms(3) leavesD [OF ledger_operations_leave(2) [OF assms(1)] finish_job(3)]
    by (simp add: same_but_ledgers rollups_within_def)
next
  case (release_job orgId q j s r s' ps)
  then show ?thesis using assms(3) leavesD [OF ledger_operations_leave(3) [OF assms(1)] release_job(3)]
    by (simp add: same_but_ledgers rollups_within_def)
qed

lemma rollup_reachable_within:
  assumes "billing_laws V" and "rollup_reachable V s0 c" and "bd_rollups (billing_data V s0) = []"
  shows "rollups_within (billing_data V (fst c)) (snd c)"
  using assms(2)
proof induction
  case start
  then show ?case using assms(3) by (simp add: rollups_within_def)
qed (rule rollup_step_within [OF assms(1)])

text \<open>C22. However requests, budget checks and billing jobs interleave, a monthly rollup never reports more
  tokens or more requests than the request log holds for its organisation and month.\<close>

theorem rollup_never_exceeds_log:
  assumes "billing_laws V" and "bd_rollups (billing_data V s0) = []" and "rollup_reachable V s0 (s, ps)"
    and "r \<in> set (bd_rollups (billing_data V s))"
  shows "bl_usedTokens r \<le> known_tokens (period_records (bl_orgId r) (bl_period r) (bd_logs (billing_data V s)))
    \<and> bl_sourceRequestCount r \<le> int (length (period_records (bl_orgId r) (bl_period r) (bd_logs (billing_data V s))))"
  using rollup_reachable_within [OF assms(1,3,2)] assms(4) by (simp add: rollups_within_def within_log_def)

section \<open>Two jobs of one month\<close>

definition demo_new_usage :: "nat \<Rightarrow> NewRequestUsageRecord" where
  "demo_new_usage k = \<lparr>nu_requestId = demo_uuid k, nu_orgId = demo_uuid 1, nu_userId = demo_uuid 2, nu_status = st_COMPLETED,
     nu_policyAction = ALLOW, nu_providerId = Some groq, nu_model = Some ''m'',
     nu_usage = Some \<lparr>inputTokens = 10, outputTokens = 5, totalTokens = 15\<rparr>\<rparr>"

definition demo_start :: "billing_store \<times> int" where
  "demo_start = (\<lparr>bd_logs = [], bd_budgets = [], bd_rollups = [], bd_ledgers = []\<rparr>, 5)"

definition demo_rollup :: "int \<Rightarrow> int \<Rightarrow> BillingRollup" where
  "demo_rollup used requests = \<lparr>bl_orgId = demo_uuid 1, bl_period = [49, 57, 55, 48, 45, 48, 49], bl_usedTokens = used,
     bl_sourceRequestCount = requests, bl_updatedAt = 5\<rparr>"

definition demo_log :: "nat \<Rightarrow> RequestUsageRecord" where
  "demo_log k = usage_log_record (demo_new_usage k) 5"

definition demo_state :: "RequestUsageRecord list \<Rightarrow> BillingRollup list \<Rightarrow> billing_store \<times> int" where
  "demo_state logs rollups = (\<lparr>bd_logs = logs, bd_budgets = [], bd_rollups = rollups, bd_ledgers = []\<rparr>, 5)"

lemma demo_append:
  assumes "request_log_unique (logs @ [demo_log k])"
  shows "rollup_step demo_billing (demo_state logs rs, ps) (demo_state (logs @ [demo_log k]) rs, ps)"
proof (rule rollup_step.log_request)
  have "request_log_valid (demo_log k)"
    by (simp add: request_log_valid_def demo_log_def usage_log_record_def demo_new_usage_def demo_uuid_valid token_field_valid_def
        is_safe_integer_def MAX_SAFE_INTEGER_def validateUsageCompleteness_def validateOutcomeShape_def)
  with assms show "appendUsage demo_billing (demo_new_usage k) (demo_state logs rs)
      = (Inr (demo_log k), demo_state (logs @ [demo_log k]) rs)"
    by (simp add: appendUsage_def act_simps demo_billing_def mem_billing_def mem_collection_def demo_state_def put_logs_def
        flip: demo_log_def)
qed

lemma demo_read:
  assumes "logs = map demo_log ks"
  shows "rollup_step demo_billing (demo_state logs rs, ps)
    (demo_state logs rs, \<lparr>pw_orgId = demo_uuid 1, pw_period = [49, 57, 55, 48, 45, 48, 49], pw_usedTokens = 15 * int (length ks),
       pw_requests = int (length ks)\<rparr> # ps)"
proof -
  let ?rs = "filter (usage_match (demo_uuid 1) 0 2678400000) logs"
  have f: "?rs = logs" unfolding assms
    by (simp add: filter_id_conv usage_match_def demo_log_def usage_log_record_def demo_new_usage_def)
  have t: "sum_list (map tokens_or_zero logs) = 15 * int (length ks)" unfolding assms
    by (induction ks) (simp_all add: tokens_or_zero_def demo_log_def usage_log_record_def demo_new_usage_def)
  let ?rows = "map (\<lambda>k. (k, usage_accumulate (filter (\<lambda>r. usage_group r = k) logs))) (remdups (map usage_group logs))"
  let ?a = "foldl add_usage_row empty_aggregate ?rows"
  have run: "aggregatePeriodUsage demo_billing (demo_uuid 1) 0 2678400000 (demo_state logs rs) = (Inr ?a, demo_state logs rs)"
    using f by (simp add: aggregatePeriodUsage_def act_simps demo_billing_def mem_billing_def Let_def demo_state_def
        del: filter_filter)
  have "aggregate_of logs ?a" by (rule aggregate_rows) simp
  then have "pending_of (demo_uuid 1) 5 ?a = \<lparr>pw_orgId = demo_uuid 1, pw_period = [49, 57, 55, 48, 45, 48, 49],
      pw_usedTokens = 15 * int (length ks), pw_requests = int (length ks)\<rparr>"
    using t assms by (simp add: pending_of_def demo_period aggregate_of_def)
  then show ?thesis using rollup_step.read_aggregate [OF demo_modern(1) demo_bounds run, of ps] by simp
qed

lemma demo_rollup_write:
  assumes "rs = [] \<or> rs = [demo_rollup u c]" and "0 \<le> used" and "used \<le> 100" and "0 \<le> requests" and "requests \<le> 100"
  shows "rollup_step demo_billing
    (demo_state logs rs, ps @ \<lparr>pw_orgId = demo_uuid 1, pw_period = [49, 57, 55, 48, 45, 48, 49], pw_usedTokens = used, pw_requests = requests\<rparr> # qs)
    (demo_state logs [demo_rollup used requests], ps @ qs)"
proof -
  have "billing_rollup_valid (demo_rollup used requests)" using assms(2-)
    by (simp add: billing_rollup_valid_def demo_rollup_def demo_uuid_valid is_safe_integer_def MAX_SAFE_INTEGER_def
      billing_period_pattern_def is_digit_def numeral_eq_Suc)
  then have "upsertRollup demo_billing (demo_uuid 1) [49, 57, 55, 48, 45, 48, 49] used requests (demo_state logs rs)
      = (Inr (demo_rollup used requests), demo_state logs [demo_rollup used requests])"
    using assms(1) unfolding demo_rollup_def
    by (auto simp: upsertRollup_def act_simps demo_billing_def mem_billing_def Let_def demo_state_def
        billing_rollup_unique_def put_rollups_def simp del: One_nat_def)
  then show ?thesis by (intro rollup_step.write_rollup) simp
qed

lemma demo_logs_unique: "request_log_unique [demo_log 0]" "request_log_unique [demo_log 0, demo_log 1]"
  by (simp_all add: request_log_unique_def demo_log_def usage_log_record_def demo_new_usage_def demo_uuid_def)

theorem rollup_never_exceeds_log_witness:
  "rollup_reachable demo_billing demo_start (demo_state [demo_log 0] [demo_rollup 15 1], [])
   \<and> bl_usedTokens (demo_rollup 15 1) \<le> known_tokens (period_records (demo_uuid 1) [49, 57, 55, 48, 45, 48, 49] [demo_log 0])"
proof -
  have s: "demo_start = demo_state [] []" by (simp add: demo_start_def demo_state_def)
  have data: "billing_data demo_billing v = fst v" for v unfolding demo_billing_def by (rule mem_billing_data)
  have r: "rollup_reachable demo_billing demo_start (demo_state [demo_log 0] [demo_rollup 15 1], [])"
    unfolding s
    by (rule rollup_reachable.step [OF rollup_reachable.step [OF rollup_reachable.step [OF rollup_reachable.start]]])
      (use demo_append [of "[]" 0] demo_read [of "[demo_log 0]" "[0]"] demo_rollup_write [of "[]" 0 0 15 1 "[demo_log 0]" "[]" "[]"] demo_logs_unique
       in simp_all)
  have "billing_laws demo_billing" unfolding demo_billing_def by (rule mem_billing_laws)
  from rollup_never_exceeds_log [OF this _ r, unfolded data, of "demo_rollup 15 1"] r show ?thesis
    by (simp add: demo_start_def demo_state_def demo_rollup_def)
qed

text \<open>Two overlapping reconciliations lose an update: the second request is in the log and both jobs have
  written, yet the rollup keeps the totals that the slower job had read before.\<close>

theorem rollup_lost_update:
  "\<exists>s r. rollup_reachable demo_billing demo_start (s, []) \<and> bd_rollups (billing_data demo_billing s) = [r]
     \<and> bl_usedTokens r = 15
     \<and> known_tokens (period_records (bl_orgId r) (bl_period r) (bd_logs (billing_data demo_billing s))) = 30"
proof -
  let ?p = "\<lambda>used requests. \<lparr>pw_orgId = demo_uuid 1, pw_period = [49, 57, 55, 48, 45, 48, 49], pw_usedTokens = used, pw_requests = requests\<rparr>"
  let ?l1 = "[demo_log 0]" and ?l2 = "[demo_log 0, demo_log 1]"
  have s: "demo_start = demo_state [] []" by (simp add: demo_start_def demo_state_def)
  have data: "billing_data demo_billing v = fst v" for v unfolding demo_billing_def by (rule mem_billing_data)
  have "rollup_reachable demo_billing demo_start (demo_state ?l1 [], [])"
    using rollup_reachable.step [OF rollup_reachable.start demo_append [of "[]" 0 "[]" "[]"]] demo_logs_unique by (simp add: s)
  from rollup_reachable.step [OF this demo_read [of _ "[0]"]]
  have "rollup_reachable demo_billing demo_start (demo_state ?l1 [], [?p 15 1])" by simp
  from rollup_reachable.step [OF this demo_append [of _ 1]]
  have "rollup_reachable demo_billing demo_start (demo_state ?l2 [], [?p 15 1])" using demo_logs_unique by simp
  from rollup_reachable.step [OF this demo_read [of _ "[0, 1]"]]
  have "rollup_reachable demo_billing demo_start (demo_state ?l2 [], [?p 30 2, ?p 15 1])" by simp
  moreover have "rollup_step demo_billing (demo_state ?l2 [], [?p 30 2, ?p 15 1]) (demo_state ?l2 [demo_rollup 30 2], [?p 15 1])"
    using demo_rollup_write [of "[]" 0 0 30 2 ?l2 "[]" "[?p 15 1]"] by simp
  ultimately have "rollup_reachable demo_billing demo_start (demo_state ?l2 [demo_rollup 30 2], [?p 15 1])"
    by (rule rollup_reachable.step)
  moreover have "rollup_step demo_billing (demo_state ?l2 [demo_rollup 30 2], [?p 15 1]) (demo_state ?l2 [demo_rollup 15 1], [])"
    using demo_rollup_write [of "[demo_rollup 30 2]" 30 2 15 1 ?l2 "[]" "[]"] by simp
  ultimately have "rollup_reachable demo_billing demo_start (demo_state ?l2 [demo_rollup 15 1], [])"
    by (rule rollup_reachable.step)
  moreover have "known_tokens (period_records (demo_uuid 1) [49, 57, 55, 48, 45, 48, 49] ?l2) = 30"
    by (simp add: known_tokens_def period_records_def demo_log_def usage_log_record_def demo_new_usage_def demo_period tokens_or_zero_def
        del: One_nat_def)
  ultimately show ?thesis
    by (intro exI [of _ "demo_state ?l2 [demo_rollup 15 1]"] exI [of _ "demo_rollup 15 1"])
      (simp add: data demo_state_def demo_rollup_def)
qed

end
