(* ===== verification/Accounts.thy ===== *)
theory Accounts
  imports Store Conversations Jobs Policy Sse
begin

text \<open>
  Organisations, users and refresh tokens: the constraints of \<^verbatim>\<open>organisation.model.ts\<close>,
  \<^verbatim>\<open>user.model.ts\<close> and \<^verbatim>\<open>refresh-token.model.ts\<close>, the repository
  \<^verbatim>\<open>auth/auth.repository.ts\<close>, password verification (\<^verbatim>\<open>shared/security/password.ts\<close>) and the
  token material of \<^verbatim>\<open>auth/refresh-token.service.ts\<close>. The database, the random source, SHA-256,
  Argon2 and Unicode normalisation are parameters. The document identifier \<^verbatim>\<open>_id\<close> of a refresh
  token is identified with its \<^verbatim>\<open>tokenId\<close>, which has a unique index.
\<close>

section \<open>Actions that settle an error\<close>

text \<open>\<open>or_throw\<close> replaces every error by another one, possibly of another type; \<open>attempt\<close> makes it a
  value; \<open>best_effort\<close> ignores it; \<open>draw\<close> runs a source that cannot fail.\<close>

definition or_throw :: "('s, 'e, 'a) act \<Rightarrow> 'f \<Rightarrow> ('s, 'f, 'a) act" where
  "or_throw m e = (\<lambda>s. case m s of (r, s') \<Rightarrow> ((case r of Inl _ \<Rightarrow> Inl e | Inr x \<Rightarrow> Inr x), s'))"

definition attempt :: "('s, 'e, 'a) act \<Rightarrow> ('s, 'f, 'a option) act" where
  "attempt m = (\<lambda>s. case m s of (r, s') \<Rightarrow> (Inr (case r of Inl _ \<Rightarrow> None | Inr x \<Rightarrow> Some x), s'))"

definition best_effort :: "('s, 'e, 'a) act \<Rightarrow> ('s, 'f, unit) act" where
  "best_effort m = (\<lambda>s. (Inr (), snd (m s)))"

definition draw :: "('s \<Rightarrow> 'a \<times> 's) \<Rightarrow> ('s, 'f, 'a) act" where
  "draw f = (\<lambda>s. case f s of (x, s') \<Rightarrow> (Inr x, s'))"

lemma wp_or_throw [wp_simps]:
  "wp (or_throw m e) Q s \<longleftrightarrow> wp m (\<lambda>r s'. Q (case r of Inl _ \<Rightarrow> Inl e | Inr x \<Rightarrow> Inr x) s') s"
  by (simp add: wp_def or_throw_def split: prod.split)

lemma wp_attempt [wp_simps]:
  "wp (attempt m) Q s \<longleftrightarrow> wp m (\<lambda>r s'. Q (Inr (case r of Inl _ \<Rightarrow> None | Inr x \<Rightarrow> Some x)) s') s"
  by (simp add: wp_def attempt_def split: prod.split)

lemma wp_best_effort [wp_simps]: "wp (best_effort m) Q s \<longleftrightarrow> wp m (\<lambda>r s'. Q (Inr ()) s') s"
  by (simp add: wp_def best_effort_def split: prod.split)

lemma leaves_or_throw: "leaves f m \<Longrightarrow> leaves f (or_throw m e)"
  by (auto simp: leaves_def or_throw_def split: prod.split) (metis snd_conv)

lemma leaves_attempt: "leaves f m \<Longrightarrow> leaves f (attempt m)"
  by (auto simp: leaves_def attempt_def split: prod.split) (metis snd_conv)

lemma leaves_best_effort: "leaves f m \<Longrightarrow> leaves f (best_effort m)"
  by (simp add: leaves_def best_effort_def)

section \<open>Data\<close>

datatype OrganisationStatus = org_ACTIVE | org_SUSPENDED

record OrganisationFeatureFlags =
  ff_autoRouting :: bool
  ff_teamLeadView :: bool
  ff_anomalyDetection :: bool
  ff_auditExport :: bool

record Organisation =
  og_orgId :: string
  og_name :: jsstr
  og_slug :: jsstr
  og_status :: OrganisationStatus
  og_plan :: OrganisationPlan
  og_monthlyTokenBudget :: int
  og_retentionMode :: RetentionMode
  og_policy :: OrganisationPolicy
  og_featureFlags :: OrganisationFeatureFlags

datatype UserRole = EMPLOYEE | TEAM_LEAD | ORG_ADMIN

datatype UserStatus = user_INVITED | user_ACTIVE | user_DISABLED

definition USER_PERMISSIONS :: "string list" where
  "USER_PERMISSIONS = [''chat:send'', ''chat:view_own'', ''team:view_logs'', ''admin:view_logs'', ''admin:view_billing'',
     ''admin:manage_users'', ''admin:configure_policy'', ''admin:export_audit'']"

fun USER_PERMISSIONS_BY_ROLE :: "UserRole \<Rightarrow> string list" where
  "USER_PERMISSIONS_BY_ROLE EMPLOYEE = [''chat:send'', ''chat:view_own'']"
| "USER_PERMISSIONS_BY_ROLE TEAM_LEAD = [''chat:send'', ''chat:view_own'', ''team:view_logs'']"
| "USER_PERMISSIONS_BY_ROLE ORG_ADMIN = USER_PERMISSIONS"

record User =
  usr_userId :: string
  usr_orgId :: string
  usr_email :: jsstr
  usr_emailNormalized :: jsstr
  usr_passwordHash :: string
  usr_displayName :: jsstr
  usr_role :: UserRole
  usr_permissions :: "string list"
  usr_teamId :: "string option"
  usr_status :: UserStatus
  usr_failedLoginCount :: int
  usr_lockedUntil :: "int option"
  usr_lastLoginAt :: "int option"

record RefreshToken =
  rt_tokenId :: string
  rt_sessionId :: string
  rt_familyId :: string
  rt_orgId :: string
  rt_userId :: string
  rt_tokenHash :: string
  rt_expiresAt :: int
  rt_usedAt :: "int option"
  rt_revokedAt :: "int option"
  rt_replacedByTokenId :: "string option"

section \<open>The models\<close>

text \<open>\<^verbatim>\<open>SLUG_PATTERN\<close>: words of small letters and digits, joined by single hyphens.\<close>

definition slug_char :: "nat \<Rightarrow> bool" where
  "slug_char u \<longleftrightarrow> 97 \<le> u \<and> u \<le> 122 \<or> 48 \<le> u \<and> u \<le> 57"

definition slug_pattern :: "jsstr \<Rightarrow> bool" where
  "slug_pattern s \<longleftrightarrow> s \<noteq> [] \<and> list_all (\<lambda>u. slug_char u \<or> u = 45) s \<and> hd s \<noteq> 45 \<and> last s \<noteq> 45
     \<and> list_all (\<lambda>(u, v). \<not> (u = 45 \<and> v = 45)) (zip s (tl s))"

text \<open>\<^verbatim>\<open>EMAIL_PATTERN\<close>: the part after the only at sign has a dot that is neither first nor last.\<close>

definition email_pattern :: "jsstr \<Rightarrow> bool" where
  "email_pattern s =
     (let before = takeWhile (\<lambda>u. u \<noteq> 64) s; after = tl (dropWhile (\<lambda>u. u \<noteq> 64) s)
      in 64 \<in> set s \<and> before \<noteq> [] \<and> list_all (\<lambda>u. \<not> js_space u) before
       \<and> list_all (\<lambda>u. \<not> js_space u \<and> u \<noteq> 64) after \<and> 46 \<in> set (butlast (tl after)))"

definition policy_valid :: "OrganisationPolicy \<Rightarrow> bool" where
  "policy_valid p \<longleftrightarrow> 0 \<le> maskThreshold p \<and> maskThreshold p \<le> 100 \<and> is_integer (maskThreshold p)
     \<and> 0 \<le> blockThreshold p \<and> blockThreshold p \<le> 100 \<and> is_integer (blockThreshold p)
     \<and> 1 \<le> maxOutputTokensPerRequest p \<and> maxOutputTokensPerRequest p \<le> 4096
     \<and> maskThreshold p < blockThreshold p"

definition organisation_valid :: "Organisation \<Rightarrow> bool" where
  "organisation_valid g \<longleftrightarrow> uuid_v4 (og_orgId g) \<and> 1 \<le> length (og_name g) \<and> length (og_name g) \<le> 120
     \<and> 2 \<le> length (og_slug g) \<and> length (og_slug g) \<le> 63 \<and> slug_pattern (og_slug g)
     \<and> 0 \<le> og_monthlyTokenBudget g \<and> is_safe_integer (og_monthlyTokenBudget g) \<and> policy_valid (og_policy g)"

definition organisation_unique :: "Organisation list \<Rightarrow> bool" where
  "organisation_unique gs \<longleftrightarrow> distinct (map og_orgId gs) \<and> distinct (map og_slug gs)"

definition user_valid :: "User \<Rightarrow> bool" where
  "user_valid u \<longleftrightarrow> uuid_v4 (usr_userId u) \<and> uuid_v4 (usr_orgId u) \<and> length (usr_email u) \<le> 254 \<and> email_pattern (usr_email u)
     \<and> usr_emailNormalized u \<noteq> [] \<and> length (usr_emailNormalized u) \<le> 254
     \<and> 1 \<le> length (usr_passwordHash u) \<and> length (usr_passwordHash u) \<le> 512
     \<and> 1 \<le> length (usr_displayName u) \<and> length (usr_displayName u) \<le> 120
     \<and> set (usr_permissions u) \<subseteq> set USER_PERMISSIONS \<and> length (usr_permissions u) \<le> length USER_PERMISSIONS
     \<and> distinct (usr_permissions u) \<and> (case usr_teamId u of None \<Rightarrow> True | Some t \<Rightarrow> uuid_v4 t)
     \<and> 0 \<le> usr_failedLoginCount u \<and> is_safe_integer (usr_failedLoginCount u)
     \<and> \<not> (usr_status u = user_ACTIVE \<and> usr_role u = TEAM_LEAD \<and> usr_teamId u = None)"

definition user_unique :: "User list \<Rightarrow> bool" where
  "user_unique us \<longleftrightarrow> distinct (map usr_userId us) \<and> distinct (map (\<lambda>u. (usr_orgId u, usr_emailNormalized u)) us)"

definition sha256_hex_pattern :: "string \<Rightarrow> bool" where
  "sha256_hex_pattern s \<longleftrightarrow> length s = 64 \<and> list_all (\<lambda>c. c \<in> set ''0123456789abcdef'') s"

definition refresh_token_valid :: "RefreshToken \<Rightarrow> bool" where
  "refresh_token_valid t \<longleftrightarrow> uuid_v4 (rt_tokenId t) \<and> uuid_v4 (rt_sessionId t) \<and> uuid_v4 (rt_familyId t) \<and> uuid_v4 (rt_orgId t)
     \<and> uuid_v4 (rt_userId t) \<and> sha256_hex_pattern (rt_tokenHash t)
     \<and> (case rt_replacedByTokenId t of None \<Rightarrow> True | Some i \<Rightarrow> uuid_v4 i)"

definition refresh_token_unique :: "RefreshToken list \<Rightarrow> bool" where
  "refresh_token_unique ts \<longleftrightarrow> distinct (map rt_tokenId ts) \<and> distinct (map rt_tokenHash ts)"

section \<open>The repository\<close>

text \<open>Claims of an access token; \<^verbatim>\<open>exp\<close> and \<^verbatim>\<open>iat\<close> are seconds.\<close>

datatype AuthSessionMode = STANDARD | PUBLIC_ADMIN_DEMO

record access_claims =
  tk_orgId :: string
  tk_permissions :: "string list"
  tk_role :: UserRole
  tk_sessionId :: string
  tk_sessionMode :: AuthSessionMode
  tk_type :: string
  tk_sub :: string
  tk_jti :: string
  tk_iat :: int
  tk_exp :: int
  tk_iss :: string
  tk_aud :: string

record AuthAuditEvent =
  ev_orgId :: string
  ev_actorId :: "string option"
  ev_actorType :: string
  ev_actorRole :: "UserRole option"
  ev_action :: string
  ev_outcome :: string
  ev_resourceId :: "string option"
  ev_reasonCode :: "string option"

record 's auth_env =
  au_organisations :: "('s, Organisation) collection"
  au_users :: "('s, User) collection"
  au_tokens :: "('s, RefreshToken) collection"
  au_updateManyTokens :: "(RefreshToken \<Rightarrow> bool) \<Rightarrow> (RefreshToken \<Rightarrow> RefreshToken) \<Rightarrow> ('s, exn, unit) act"
  au_now :: "'s \<Rightarrow> int"
  au_randomUUID :: "'s \<Rightarrow> string \<times> 's"
  au_randomBytes :: "nat \<Rightarrow> 's \<Rightarrow> nat list \<times> 's"
  au_sha256Hex :: "nat list \<Rightarrow> string"
  au_normalizeNFC :: "jsstr \<Rightarrow> jsstr"
  au_argon2Verify :: "string \<Rightarrow> jsstr \<Rightarrow> ('s, exn, bool) act"
  au_sign :: "access_claims \<Rightarrow> ('s, exn, jsstr) act"
  au_appendAudit :: "AuthAuditEvent \<Rightarrow> string \<Rightarrow> ('s, exn, unit) act"
  au_refreshTokenTtlDays :: int
  au_accessTokenTtlMinutes :: int

definition findOrganisationForLogin :: "'s auth_env \<Rightarrow> jsstr \<Rightarrow> ('s, exn, Organisation option) act" where
  "findOrganisationForLogin V slug = cl_findOne (au_organisations V) (\<lambda>g. og_slug g = slug)"

definition findUserForLogin :: "'s auth_env \<Rightarrow> string \<Rightarrow> jsstr \<Rightarrow> ('s, exn, User option) act" where
  "findUserForLogin V orgId emailNormalized =
     cl_findOne (au_users V) (\<lambda>u. usr_orgId u = orgId \<and> usr_emailNormalized u = emailNormalized)"

text \<open>\<^verbatim>\<open>updateOne\<close> reports nothing; an update without a match is no error.\<close>

definition incrementFailedLoginCount :: "'s auth_env \<Rightarrow> string \<Rightarrow> string \<Rightarrow> ('s, exn, unit) act" where
  "incrementFailedLoginCount V orgId userId =
     act_then (cl_update (au_users V) (\<lambda>u. usr_orgId u = orgId \<and> usr_userId u = userId)
        (\<lambda>u. u\<lparr>usr_failedLoginCount := usr_failedLoginCount u + 1\<rparr>)) (act_ret ())"

definition recordSuccessfulLogin :: "'s auth_env \<Rightarrow> string \<Rightarrow> string \<Rightarrow> int \<Rightarrow> ('s, exn, unit) act" where
  "recordSuccessfulLogin V orgId userId lastLoginAt =
     act_then (cl_update (au_users V) (\<lambda>u. usr_orgId u = orgId \<and> usr_userId u = userId)
        (\<lambda>u. u\<lparr>usr_failedLoginCount := 0, usr_lastLoginAt := Some lastLoginAt\<rparr>)) (act_ret ())"

definition findRefreshTokenByHash :: "'s auth_env \<Rightarrow> string \<Rightarrow> ('s, exn, RefreshToken option) act" where
  "findRefreshTokenByHash V tokenHash = cl_findOne (au_tokens V) (\<lambda>t. rt_tokenHash t = tokenHash)"

definition claimable :: "string \<Rightarrow> string \<Rightarrow> int \<Rightarrow> RefreshToken \<Rightarrow> bool" where
  "claimable tokenId orgId usedAt t \<longleftrightarrow> rt_tokenId t = tokenId \<and> usedAt < rt_expiresAt t \<and> rt_orgId t = orgId
     \<and> rt_revokedAt t = None \<and> rt_usedAt t = None"

text \<open>The code asks for the document before the update and uses only whether there was one; the
  collection returns the updated document.\<close>

definition claimRefreshTokenForRotation ::
  "'s auth_env \<Rightarrow> string \<Rightarrow> string \<Rightarrow> string \<Rightarrow> int \<Rightarrow> ('s, exn, RefreshToken option) act" where
  "claimRefreshTokenForRotation V tokenId orgId replacedByTokenId usedAt =
     cl_update (au_tokens V) (claimable tokenId orgId usedAt)
       (\<lambda>t. t\<lparr>rt_replacedByTokenId := Some replacedByTokenId, rt_usedAt := Some usedAt\<rparr>)"

record RefreshTokenMaterial =
  rm_tokenId :: string
  rm_sessionId :: string
  rm_familyId :: string
  rm_orgId :: string
  rm_userId :: string
  rm_tokenHash :: string
  rm_rawToken :: jsstr
  rm_expiresAt :: int

definition token_record :: "RefreshTokenMaterial \<Rightarrow> RefreshToken" where
  "token_record m = \<lparr>rt_tokenId = rm_tokenId m, rt_sessionId = rm_sessionId m, rt_familyId = rm_familyId m,
     rt_orgId = rm_orgId m, rt_userId = rm_userId m, rt_tokenHash = rm_tokenHash m, rt_expiresAt = rm_expiresAt m,
     rt_usedAt = None, rt_revokedAt = None, rt_replacedByTokenId = None\<rparr>"

definition persistInitialRefreshToken :: "'s auth_env \<Rightarrow> RefreshTokenMaterial \<Rightarrow> ('s, exn, unit) act" where
  "persistInitialRefreshToken V m = cl_create (au_tokens V) [token_record m]"

definition persistReplacementRefreshToken :: "'s auth_env \<Rightarrow> RefreshTokenMaterial \<Rightarrow> ('s, exn, unit) act" where
  "persistReplacementRefreshToken V m = cl_create (au_tokens V) [token_record m]"

definition of_family :: "string \<Rightarrow> string \<Rightarrow> string \<Rightarrow> string \<Rightarrow> RefreshToken \<Rightarrow> bool" where
  "of_family familyId orgId sessionId userId t \<longleftrightarrow> rt_familyId t = familyId \<and> rt_orgId t = orgId
     \<and> rt_sessionId t = sessionId \<and> rt_userId t = userId"

definition revokeRefreshTokenFamily :: "'s auth_env \<Rightarrow> RefreshToken \<Rightarrow> int \<Rightarrow> ('s, exn, unit) act" where
  "revokeRefreshTokenFamily V token revokedAt =
     au_updateManyTokens V
       (\<lambda>t. of_family (rt_familyId token) (rt_orgId token) (rt_sessionId token) (rt_userId token) t \<and> rt_revokedAt t = None)
       (\<lambda>t. t\<lparr>rt_revokedAt := Some revokedAt\<rparr>)"

definition findOrganisationByOrgId :: "'s auth_env \<Rightarrow> string \<Rightarrow> ('s, exn, Organisation option) act" where
  "findOrganisationByOrgId V orgId = cl_findOne (au_organisations V) (\<lambda>g. og_orgId g = orgId)"

definition findUserByOrgIdAndUserId :: "'s auth_env \<Rightarrow> string \<Rightarrow> string \<Rightarrow> ('s, exn, User option) act" where
  "findUserByOrgIdAndUserId V orgId userId = cl_findOne (au_users V) (\<lambda>u. usr_orgId u = orgId \<and> usr_userId u = userId)"

definition findUserByOrgIdAndEmailNormalized :: "'s auth_env \<Rightarrow> string \<Rightarrow> jsstr \<Rightarrow> ('s, exn, User option) act" where
  "findUserByOrgIdAndEmailNormalized V orgId emailNormalized =
     cl_findOne (au_users V) (\<lambda>u. usr_orgId u = orgId \<and> usr_emailNormalized u = emailNormalized)"

section \<open>Passwords\<close>

definition MAX_PASSWORD_CODE_POINTS :: nat where "MAX_PASSWORD_CODE_POINTS = 128"
definition MIN_PASSWORD_CODE_POINTS :: nat where "MIN_PASSWORD_CODE_POINTS = 15"

definition password_error :: exn where
  "password_error = ExnOther ''Password verification could not be completed.''"

definition verifyPassword :: "'s auth_env \<Rightarrow> string \<Rightarrow> jsstr \<Rightarrow> ('s, exn, bool) act" where
  "verifyPassword V storedHash candidate =
     (let normalized = au_normalizeNFC V candidate
      in if MAX_PASSWORD_CODE_POINTS < length (code_points normalized) then act_throw (ExnOther ''ZodError'')
         else if take 10 storedHash \<noteq> ''$argon2id$'' then act_throw password_error
         else act_catch (au_argon2Verify V storedHash normalized) (\<lambda>_. act_throw password_error))"

definition validateNewPassword :: "'s auth_env \<Rightarrow> jsstr \<Rightarrow> jsstr option" where
  "validateNewPassword V password =
     (let normalized = au_normalizeNFC V password; n = length (code_points normalized)
      in if MIN_PASSWORD_CODE_POINTS \<le> n \<and> n \<le> MAX_PASSWORD_CODE_POINTS then Some normalized else None)"

text \<open>The hash function is a parameter of its own.\<close>

definition hashPassword :: "'s auth_env \<Rightarrow> (jsstr \<Rightarrow> ('s, exn, string) act) \<Rightarrow> jsstr \<Rightarrow> ('s, exn, string) act" where
  "hashPassword V argon2Hash password =
     (case validateNewPassword V password of None \<Rightarrow> act_throw (ExnOther ''ZodError'') | Some normalized \<Rightarrow> argon2Hash normalized)"

section \<open>Refresh tokens\<close>

definition REFRESH_TOKEN_BYTES :: nat where "REFRESH_TOKEN_BYTES = 32"

definition hashRefreshToken :: "'s auth_env \<Rightarrow> jsstr \<Rightarrow> string" where
  "hashRefreshToken V rawToken = au_sha256Hex V (utf8_encode rawToken)"

definition createRefreshTokenMaterial ::
  "'s auth_env \<Rightarrow> string \<Rightarrow> string \<Rightarrow> string \<Rightarrow> string \<Rightarrow> int \<Rightarrow> ('s, 'e, RefreshTokenMaterial) act" where
  "createRefreshTokenMaterial V familyId orgId sessionId userId now =
     act_bind (draw (au_randomBytes V REFRESH_TOKEN_BYTES)) (\<lambda>bytes.
     act_bind (draw (au_randomUUID V)) (\<lambda>tokenId.
       let rawToken = base64url_encode bytes in
       act_ret \<lparr>rm_tokenId = tokenId, rm_sessionId = sessionId, rm_familyId = familyId, rm_orgId = orgId, rm_userId = userId,
         rm_tokenHash = hashRefreshToken V rawToken, rm_rawToken = rawToken,
         rm_expiresAt = now + au_refreshTokenTtlDays V * 24 * 60 * 60 * 1000\<rparr>))"

definition createInitialRefreshTokenMaterial ::
  "'s auth_env \<Rightarrow> string \<Rightarrow> string \<Rightarrow> ('s, 'e, RefreshTokenMaterial) act" where
  "createInitialRefreshTokenMaterial V orgId userId =
     act_bind (act_read (au_now V)) (\<lambda>now.
     act_bind (draw (au_randomUUID V)) (\<lambda>familyId.
     act_bind (draw (au_randomUUID V)) (\<lambda>sessionId.
       createRefreshTokenMaterial V familyId orgId sessionId userId now)))"

definition createRotatedRefreshTokenMaterial ::
  "'s auth_env \<Rightarrow> RefreshToken \<Rightarrow> int \<Rightarrow> ('s, 'e, RefreshTokenMaterial) act" where
  "createRotatedRefreshTokenMaterial V token now =
     createRefreshTokenMaterial V (rt_familyId token) (rt_orgId token) (rt_sessionId token) (rt_userId token) now"

end
