(* ===== verification/AuthService.thy ===== *)
theory AuthService
  imports Accounts
begin

text \<open>
  Sessions: the creation of access tokens (\<^verbatim>\<open>auth/token.service.ts\<close>), and login, rotation of
  refresh tokens and logout (\<^verbatim>\<open>auth/auth.service.ts\<close>). Log lines are left out; an audit write
  is an action that may fail. The error of a rotation that lost a race is an exception of its own,
  since the controller tells it apart by its class.
\<close>

section \<open>Access tokens\<close>

definition ACCESS_TOKEN_AUDIENCE :: string where "ACCESS_TOKEN_AUDIENCE = ''proxiai-api''"
definition ACCESS_TOKEN_ISSUER :: string where "ACCESS_TOKEN_ISSUER = ''proxiai''"
definition ACCESS_TOKEN_TYPE :: string where "ACCESS_TOKEN_TYPE = ''access''"
definition PUBLIC_ADMIN_DEMO_TTL_SECONDS :: int where "PUBLIC_ADMIN_DEMO_TTL_SECONDS = 6 * 60"

record AccessTokenInput =
  ai_userId :: string
  ai_orgId :: string
  ai_role :: UserRole
  ai_permissions :: "string list"
  ai_sessionId :: string

record AccessTokenResult =
  ar_accessToken :: jsstr
  ar_expiresAt :: jsstr
  ar_expiresInSeconds :: int

definition signAccessToken ::
  "'s auth_env \<Rightarrow> AccessTokenInput \<Rightarrow> AuthSessionMode \<Rightarrow> int \<Rightarrow> ('s, exn, AccessTokenResult) act" where
  "signAccessToken V i sessionMode expiresInSeconds =
     act_bind (act_read (au_now V)) (\<lambda>now.
     let issuedAt = now div 1000; expiresAt = issuedAt + expiresInSeconds in
     act_bind (draw (au_randomUUID V)) (\<lambda>jti.
     act_bind (au_sign V \<lparr>tk_orgId = ai_orgId i, tk_permissions = ai_permissions i, tk_role = ai_role i,
         tk_sessionId = ai_sessionId i, tk_sessionMode = sessionMode, tk_type = ACCESS_TOKEN_TYPE, tk_sub = ai_userId i,
         tk_jti = jti, tk_iat = issuedAt, tk_exp = expiresAt, tk_iss = ACCESS_TOKEN_ISSUER, tk_aud = ACCESS_TOKEN_AUDIENCE\<rparr>) (\<lambda>token.
       act_ret \<lparr>ar_accessToken = token, ar_expiresAt = toISOString (expiresAt * 1000), ar_expiresInSeconds = expiresInSeconds\<rparr>)))"

definition createAccessToken :: "'s auth_env \<Rightarrow> AccessTokenInput \<Rightarrow> ('s, exn, AccessTokenResult) act" where
  "createAccessToken V i = signAccessToken V i STANDARD (au_accessTokenTtlMinutes V * 60)"

definition createPublicAdminDemoAccessToken :: "'s auth_env \<Rightarrow> AccessTokenInput \<Rightarrow> ('s, exn, AccessTokenResult) act" where
  "createPublicAdminDemoAccessToken V i = signAccessToken V i PUBLIC_ADMIN_DEMO PUBLIC_ADMIN_DEMO_TTL_SECONDS"

section \<open>Profiles\<close>

record LoginResponseUser =
  lu_userId :: string
  lu_email :: jsstr
  lu_displayName :: jsstr
  lu_role :: UserRole
  lu_permissions :: "string list"
  lu_teamId :: "string option"
  lu_orgId :: string
  lu_orgName :: jsstr
  lu_plan :: OrganisationPlan
  lu_retentionMode :: RetentionMode

definition createSafeAuthProfile :: "User \<Rightarrow> Organisation \<Rightarrow> LoginResponseUser" where
  "createSafeAuthProfile u g = \<lparr>lu_userId = usr_userId u, lu_email = usr_email u, lu_displayName = usr_displayName u,
     lu_role = usr_role u, lu_permissions = usr_permissions u, lu_teamId = usr_teamId u, lu_orgId = og_orgId g,
     lu_orgName = og_name g, lu_plan = og_plan g, lu_retentionMode = og_retentionMode g\<rparr>"

section \<open>Errors and best-effort actions\<close>

definition DUMMY_PASSWORD_HASH :: string where
  "DUMMY_PASSWORD_HASH =
     ''$argon2id$v=19$m=19456,p=1,t=2$tctGzLy+e7DPgILRdtqpEQ$IN0OAhhfqdOcZ/4l+bvHt/+XDLBsOv5q/+pQ+EEJxak''"

definition REFRESH_CONCURRENCY_GRACE_MS :: int where "REFRESH_CONCURRENCY_GRACE_MS = 5000"

datatype refresh_exn = RefreshConcurrencyError | RefreshError exn

definition invalidCredentials :: exn where
  "invalidCredentials = app_exn 401 ''INVALID_CREDENTIALS'' ''Invalid email or password.''"

definition loginUnavailable :: exn where
  "loginUnavailable = app_exn 503 ''DEPENDENCY_UNAVAILABLE'' ''Login is temporarily unavailable.''"

definition internalError :: exn where
  "internalError = app_exn 500 ''INTERNAL_ERROR'' ''An unexpected error occurred.''"

definition invalidRefreshToken :: refresh_exn where
  "invalidRefreshToken = RefreshError (app_exn 401 ''INVALID_REFRESH_TOKEN'' ''Session is invalid or expired.'')"

definition authUnavailable :: exn where
  "authUnavailable = app_exn 503 ''AUTH_TEMPORARILY_UNAVAILABLE'' ''Authentication is temporarily unavailable.''"

definition performDummyVerification :: "'s auth_env \<Rightarrow> jsstr \<Rightarrow> ('s, exn, unit) act" where
  "performDummyVerification V password =
     act_then (or_throw (verifyPassword V DUMMY_PASSWORD_HASH password) loginUnavailable) (act_ret ())"

definition incrementFailureBestEffort :: "'s auth_env \<Rightarrow> string \<Rightarrow> string \<Rightarrow> ('s, 'e, unit) act" where
  "incrementFailureBestEffort V orgId userId = best_effort (incrementFailedLoginCount V orgId userId)"

definition recordSuccessBestEffort :: "'s auth_env \<Rightarrow> string \<Rightarrow> string \<Rightarrow> ('s, 'e, unit) act" where
  "recordSuccessBestEffort V orgId userId =
     act_bind (act_read (au_now V)) (\<lambda>now. best_effort (recordSuccessfulLogin V orgId userId now))"

definition auditBestEffort :: "'s auth_env \<Rightarrow> AuthAuditEvent \<Rightarrow> string option \<Rightarrow> ('s, 'e, unit) act" where
  "auditBestEffort V event ctx =
     (case ctx of None \<Rightarrow> act_ret () | Some requestId \<Rightarrow> best_effort (au_appendAudit V event requestId))"

definition revokeFamilyBestEffort :: "'s auth_env \<Rightarrow> RefreshToken \<Rightarrow> ('s, 'e, unit) act" where
  "revokeFamilyBestEffort V token =
     act_bind (act_read (au_now V)) (\<lambda>now. best_effort (revokeRefreshTokenFamily V token now))"

section \<open>Login\<close>

record LoginInput =
  li_organisationSlug :: jsstr
  li_emailNormalized :: jsstr
  li_password :: jsstr

record LoginResult =
  lr_accessToken :: jsstr
  lr_expiresInSeconds :: int
  lr_refreshToken :: jsstr
  lr_user :: LoginResponseUser

definition login_failed_event :: "string \<Rightarrow> User option \<Rightarrow> string \<Rightarrow> AuthAuditEvent" where
  "login_failed_event orgId user reason =
     \<lparr>ev_orgId = orgId, ev_actorId = map_option usr_userId user, ev_actorType = (if user = None then ''SYSTEM'' else ''USER''),
      ev_actorRole = map_option usr_role user, ev_action = ''auth.login_failed'', ev_outcome = ''FAILURE'',
      ev_resourceId = map_option usr_userId user, ev_reasonCode = Some reason\<rparr>"

definition access_input :: "User \<Rightarrow> string \<Rightarrow> string \<Rightarrow> AccessTokenInput" where
  "access_input user orgId sessionId = \<lparr>ai_userId = usr_userId user, ai_orgId = orgId, ai_role = usr_role user,
     ai_permissions = usr_permissions user, ai_sessionId = sessionId\<rparr>"

text \<open>The session of a user whose password matches.\<close>

definition login_session :: "'s auth_env \<Rightarrow> Organisation \<Rightarrow> User \<Rightarrow> string option \<Rightarrow> ('s, exn, LoginResult) act" where
  "login_session V g u ctx =
     act_bind (createInitialRefreshTokenMaterial V (og_orgId g) (usr_userId u)) (\<lambda>m.
     act_then (or_throw (persistInitialRefreshToken V m) loginUnavailable)
    (act_bind (or_throw (createAccessToken V (access_input u (og_orgId g) (rm_sessionId m))) internalError) (\<lambda>token.
     act_then (recordSuccessBestEffort V (og_orgId g) (usr_userId u))
    (act_then (auditBestEffort V \<lparr>ev_orgId = og_orgId g, ev_actorId = Some (usr_userId u), ev_actorType = ''USER'',
         ev_actorRole = Some (usr_role u), ev_action = ''auth.login_succeeded'', ev_outcome = ''SUCCESS'',
         ev_resourceId = Some (rm_sessionId m), ev_reasonCode = None\<rparr> ctx)
      (act_ret \<lparr>lr_accessToken = ar_accessToken token, lr_expiresInSeconds = ar_expiresInSeconds token,
         lr_refreshToken = rm_rawToken m, lr_user = createSafeAuthProfile u g\<rparr>)))))"

definition login_user :: "'s auth_env \<Rightarrow> Organisation \<Rightarrow> User \<Rightarrow> jsstr \<Rightarrow> string option \<Rightarrow> ('s, exn, LoginResult) act" where
  "login_user V g u password ctx =
     act_bind (attempt (verifyPassword V (usr_passwordHash u) password)) (\<lambda>r. case r of
       None \<Rightarrow>
         act_then (incrementFailureBestEffort V (og_orgId g) (usr_userId u))
        (act_then (performDummyVerification V password) (act_throw invalidCredentials))
     | Some passwordMatches \<Rightarrow>
         if \<not> passwordMatches \<or> usr_status u \<noteq> user_ACTIVE then
           act_then (incrementFailureBestEffort V (og_orgId g) (usr_userId u))
          (act_then (auditBestEffort V (login_failed_event (og_orgId g) (Some u)
              (if usr_status u = user_ACTIVE then ''PASSWORD_MISMATCH'' else ''USER_INACTIVE'')) ctx)
             (act_throw invalidCredentials))
         else login_session V g u ctx)"

definition login_organisation ::
  "'s auth_env \<Rightarrow> Organisation \<Rightarrow> LoginInput \<Rightarrow> string option \<Rightarrow> ('s, exn, LoginResult) act" where
  "login_organisation V g i ctx =
     act_bind (or_throw (findUserForLogin V (og_orgId g) (li_emailNormalized i)) loginUnavailable) (\<lambda>user.
       if user = None \<or> usr_passwordHash (the user) = [] then
         act_then (performDummyVerification V (li_password i))
        (act_then (auditBestEffort V (login_failed_event (og_orgId g) None ''USER_NOT_FOUND'') ctx)
           (act_throw invalidCredentials))
       else login_user V g (the user) (li_password i) ctx)"

definition login :: "'s auth_env \<Rightarrow> LoginInput \<Rightarrow> string option \<Rightarrow> ('s, exn, LoginResult) act" where
  "login V i ctx =
     act_bind (or_throw (findOrganisationForLogin V (li_organisationSlug i)) loginUnavailable) (\<lambda>organisation.
       case organisation of
         None \<Rightarrow> act_then (performDummyVerification V (li_password i)) (act_throw invalidCredentials)
       | Some g \<Rightarrow>
           if og_status g \<noteq> org_ACTIVE then
             act_then (performDummyVerification V (li_password i))
            (act_then (auditBestEffort V (login_failed_event (og_orgId g) None ''ORGANISATION_SUSPENDED'') ctx)
               (act_throw invalidCredentials))
           else login_organisation V g i ctx)"

section \<open>Refresh\<close>

record RefreshSessionResult =
  rr_accessToken :: jsstr
  rr_expiresInSeconds :: int
  rr_refreshToken :: jsstr

text \<open>The rest of a rotation whose claim succeeded. The two lookups run at the same time; they only
  read, so their order does not matter.\<close>

definition revoke_and_throw :: "'s auth_env \<Rightarrow> RefreshToken \<Rightarrow> refresh_exn \<Rightarrow> ('s, refresh_exn, 'a) act" where
  "revoke_and_throw V t e = act_then (revokeFamilyBestEffort V t) (act_throw e)"

definition refresh_access ::
  "'s auth_env \<Rightarrow> RefreshToken \<Rightarrow> RefreshTokenMaterial \<Rightarrow> User \<Rightarrow> ('s, refresh_exn, RefreshSessionResult) act" where
  "refresh_access V t m user =
     act_bind (attempt (createAccessToken V (access_input user (rt_orgId t) (rt_sessionId t)))) (\<lambda>token. case token of
       None \<Rightarrow> revoke_and_throw V t (RefreshError authUnavailable)
     | Some a \<Rightarrow> act_ret \<lparr>rr_accessToken = ar_accessToken a, rr_expiresInSeconds = ar_expiresInSeconds a,
          rr_refreshToken = rm_rawToken m\<rparr>)"

definition refresh_replace ::
  "'s auth_env \<Rightarrow> RefreshToken \<Rightarrow> RefreshTokenMaterial \<Rightarrow> User \<Rightarrow> ('s, refresh_exn, RefreshSessionResult) act" where
  "refresh_replace V t m user =
     act_bind (attempt (persistReplacementRefreshToken V m)) (\<lambda>persisted.
       if persisted = None then revoke_and_throw V t (RefreshError authUnavailable) else refresh_access V t m user)"

definition refresh_claimed ::
  "'s auth_env \<Rightarrow> RefreshToken \<Rightarrow> RefreshTokenMaterial \<Rightarrow> ('s, refresh_exn, RefreshSessionResult) act" where
  "refresh_claimed V t m =
     act_bind (attempt (act_bind (findOrganisationByOrgId V (rt_orgId t)) (\<lambda>g.
        act_bind (findUserByOrgIdAndUserId V (rt_orgId t) (rt_userId t)) (\<lambda>u. act_ret (g, u))))) (\<lambda>found. case found of
       None \<Rightarrow> revoke_and_throw V t (RefreshError authUnavailable)
     | Some (g, user) \<Rightarrow>
         if g = None \<or> og_status (the g) \<noteq> org_ACTIVE then revoke_and_throw V t invalidRefreshToken
         else if user = None \<or> usr_status (the user) \<noteq> user_ACTIVE then revoke_and_throw V t invalidRefreshToken
         else refresh_replace V t m (the user))"

definition refresh_rotate :: "'s auth_env \<Rightarrow> RefreshToken \<Rightarrow> int \<Rightarrow> ('s, refresh_exn, RefreshSessionResult) act" where
  "refresh_rotate V t now =
     act_bind (createRotatedRefreshTokenMaterial V t now) (\<lambda>m.
     act_bind (or_throw (claimRefreshTokenForRotation V (rt_tokenId t) (rt_orgId t) (rm_tokenId m) now) (RefreshError authUnavailable)) (\<lambda>claimed.
       if claimed = None then act_throw RefreshConcurrencyError else refresh_claimed V t m))"

definition reuse_event :: "RefreshToken \<Rightarrow> AuthAuditEvent" where
  "reuse_event t = \<lparr>ev_orgId = rt_orgId t, ev_actorId = Some (rt_userId t), ev_actorType = ''USER'', ev_actorRole = None,
     ev_action = ''auth.refresh_reuse_detected'', ev_outcome = ''FAILURE'', ev_resourceId = Some (rt_sessionId t),
     ev_reasonCode = Some ''REFRESH_TOKEN_REUSE''\<rparr>"

definition refresh_used :: "'s auth_env \<Rightarrow> RefreshToken \<Rightarrow> int \<Rightarrow> int \<Rightarrow> string option \<Rightarrow> ('s, refresh_exn, 'a) act" where
  "refresh_used V t usedAt now ctx =
     (if rt_replacedByTokenId t \<noteq> None \<and> now - usedAt \<le> REFRESH_CONCURRENCY_GRACE_MS
      then act_throw RefreshConcurrencyError
      else act_then (revokeFamilyBestEffort V t)
          (act_then (auditBestEffort V (reuse_event t) ctx) (act_throw invalidRefreshToken)))"

definition refreshSession :: "'s auth_env \<Rightarrow> jsstr \<Rightarrow> string option \<Rightarrow> ('s, refresh_exn, RefreshSessionResult) act" where
  "refreshSession V rawRefreshToken ctx =
     act_bind (or_throw (findRefreshTokenByHash V (hashRefreshToken V rawRefreshToken)) (RefreshError authUnavailable)) (\<lambda>existing.
       case existing of
         None \<Rightarrow> act_throw invalidRefreshToken
       | Some t \<Rightarrow>
           act_bind (act_read (au_now V)) (\<lambda>now.
             case rt_usedAt t of
               Some usedAt \<Rightarrow> refresh_used V t usedAt now ctx
             | None \<Rightarrow>
                 if rt_revokedAt t \<noteq> None then act_throw invalidRefreshToken
                 else if rt_expiresAt t \<le> now then act_throw invalidRefreshToken
                 else refresh_rotate V t now))"

section \<open>Logout\<close>

definition logoutSession :: "'s auth_env \<Rightarrow> jsstr option \<Rightarrow> string option \<Rightarrow> ('s, exn, unit) act" where
  "logoutSession V rawRefreshToken ctx =
     (if rawRefreshToken = None \<or> rawRefreshToken = Some [] then act_ret ()
      else act_bind (or_throw (findRefreshTokenByHash V (hashRefreshToken V (the rawRefreshToken))) authUnavailable) (\<lambda>existing.
        case existing of
          None \<Rightarrow> act_ret ()
        | Some t \<Rightarrow>
            act_bind (act_read (au_now V)) (\<lambda>now.
            act_then (or_throw (revokeRefreshTokenFamily V t now) authUnavailable)
              (auditBestEffort V \<lparr>ev_orgId = rt_orgId t, ev_actorId = Some (rt_userId t), ev_actorType = ''USER'',
                 ev_actorRole = None, ev_action = ''auth.logout_succeeded'', ev_outcome = ''SUCCESS'',
                 ev_resourceId = Some (rt_sessionId t), ev_reasonCode = Some ''REFRESH_TOKEN_REVOKED''\<rparr> ctx))))"

end
