(* ===== verification/AuthLaws.thy ===== *)
theory AuthLaws
  imports AuthService
begin

text \<open>
  The laws of the parameters behind sessions, and what the single operations do under them. The
  observation of a world is its three collections and the number of password verifications so far.
\<close>

section \<open>Laws\<close>

record auth_store =
  as_organisations :: "Organisation list"
  as_users :: "User list"
  as_tokens :: "RefreshToken list"
  as_verifications :: nat

definition auth_data :: "'s auth_env \<Rightarrow> ('s \<Rightarrow> nat) \<Rightarrow> 's \<Rightarrow> auth_store" where
  "auth_data V n s = \<lparr>as_organisations = cl_docs (au_organisations V) s, as_users = cl_docs (au_users V) s,
     as_tokens = cl_docs (au_tokens V) s, as_verifications = n s\<rparr>"

text \<open>An update of one document, or of many; a reported error leaves open what was written.\<close>

definition one_updated :: "('d \<Rightarrow> bool) \<Rightarrow> ('d \<Rightarrow> 'd) \<Rightarrow> 'd list \<Rightarrow> 'd list \<Rightarrow> bool" where
  "one_updated p f ds ds' \<longleftrightarrow> (\<exists>xs d ys. ds = xs @ d # ys \<and> p d \<and> ds' = xs @ f d # ys)"

definition update_atomic :: "('s, 'd) collection \<Rightarrow> bool" where
  "update_atomic C \<longleftrightarrow> (\<forall>p f s. cl_docs C (snd (cl_update C p f s)) = cl_docs C s
     \<or> one_updated p f (cl_docs C s) (cl_docs C (snd (cl_update C p f s))))"

definition create_whole :: "('d list \<Rightarrow> bool) \<Rightarrow> ('s, 'd) collection \<Rightarrow> bool" where
  "create_whole unique C \<longleftrightarrow> (\<forall>ds s. cl_docs C (snd (cl_create C ds s)) = cl_docs C s
     \<or> cl_docs C (snd (cl_create C ds s)) = cl_docs C s @ ds \<and> unique (cl_docs C s @ ds))"

definition update_many_law :: "'s auth_env \<Rightarrow> bool" where
  "update_many_law V \<longleftrightarrow> (\<forall>p f s. (let run = au_updateManyTokens V p f s; ts = cl_docs (au_tokens V) s;
       ts' = cl_docs (au_tokens V) (snd run)
     in list_all2 (\<lambda>t t'. t' = t \<or> p t \<and> t' = f t) ts ts'
        \<and> (fst run = Inr () \<longrightarrow> ts' = map (\<lambda>t. if p t then f t else t) ts)))"

definition auth_frames :: "'s auth_env \<Rightarrow> ('s \<Rightarrow> nat) \<Rightarrow> bool" where
  "auth_frames V n \<longleftrightarrow>
     (\<forall>p. leaves (auth_data V n) (cl_findOne (au_organisations V) p))
   \<and> (\<forall>p. leaves (auth_data V n) (cl_findOne (au_users V) p))
   \<and> (\<forall>p. leaves (auth_data V n) (cl_findOne (au_tokens V) p))
   \<and> (\<forall>c. leaves (auth_data V n) (au_sign V c))
   \<and> (\<forall>e q. leaves (auth_data V n) (au_appendAudit V e q))
   \<and> (\<forall>s. auth_data V n (snd (au_randomUUID V s)) = auth_data V n s)
   \<and> (\<forall>k s. auth_data V n (snd (au_randomBytes V k s)) = auth_data V n s)
   \<and> (\<forall>p f. leaves (\<lambda>s. (auth_data V n s)\<lparr>as_users := []\<rparr>) (cl_update (au_users V) p f))
   \<and> (\<forall>ds. leaves (\<lambda>s. (auth_data V n s)\<lparr>as_tokens := []\<rparr>) (cl_create (au_tokens V) ds))
   \<and> (\<forall>p f. leaves (\<lambda>s. (auth_data V n s)\<lparr>as_tokens := []\<rparr>) (cl_update (au_tokens V) p f))
   \<and> (\<forall>p f. leaves (\<lambda>s. (auth_data V n s)\<lparr>as_tokens := []\<rparr>) (au_updateManyTokens V p f))
   \<and> (\<forall>h c s. auth_data V n (snd (au_argon2Verify V h c s)) = (auth_data V n s)\<lparr>as_verifications := Suc (n s)\<rparr>)"

definition auth_laws :: "'s auth_env \<Rightarrow> ('s \<Rightarrow> nat) \<Rightarrow> bool" where
  "auth_laws V n \<longleftrightarrow> findOne_law (au_organisations V) \<and> findOne_law (au_users V) \<and> findOne_law (au_tokens V)
     \<and> update_law (au_tokens V) \<and> update_atomic (au_tokens V) \<and> update_atomic (au_users V)
     \<and> create_law refresh_token_valid refresh_token_unique (au_tokens V) \<and> create_whole refresh_token_unique (au_tokens V)
     \<and> update_many_law V \<and> auth_frames V n"

lemma auth_lawsD:
  assumes "auth_laws V n"
  shows "findOne_law (au_organisations V)" and "findOne_law (au_users V)" and "findOne_law (au_tokens V)"
    and "update_law (au_tokens V)" and "update_atomic (au_tokens V)" and "update_atomic (au_users V)"
    and "create_law refresh_token_valid refresh_token_unique (au_tokens V)" and "create_whole refresh_token_unique (au_tokens V)"
    and "update_many_law V"
  using assms by (simp_all add: auth_laws_def)

lemma auth_framesD:
  assumes "auth_laws V n"
  shows "leaves (auth_data V n) (cl_findOne (au_organisations V) gp)"
    and "leaves (auth_data V n) (cl_findOne (au_users V) up)"
    and "leaves (auth_data V n) (cl_findOne (au_tokens V) tp)"
    and "leaves (auth_data V n) (au_sign V c)"
    and "leaves (auth_data V n) (au_appendAudit V e q)"
    and "auth_data V n (snd (au_randomUUID V s)) = auth_data V n s"
    and "auth_data V n (snd (au_randomBytes V k s)) = auth_data V n s"
    and "leaves (\<lambda>s. (auth_data V n s)\<lparr>as_users := []\<rparr>) (cl_update (au_users V) up uf)"
    and "leaves (\<lambda>s. (auth_data V n s)\<lparr>as_tokens := []\<rparr>) (cl_create (au_tokens V) ts)"
    and "leaves (\<lambda>s. (auth_data V n s)\<lparr>as_tokens := []\<rparr>) (cl_update (au_tokens V) tp tf)"
    and "leaves (\<lambda>s. (auth_data V n s)\<lparr>as_tokens := []\<rparr>) (au_updateManyTokens V tp tf)"
    and "auth_data V n (snd (au_argon2Verify V h pw s)) = (auth_data V n s)\<lparr>as_verifications := Suc (n s)\<rparr>"
  using assms by (simp_all add: auth_laws_def auth_frames_def)

lemma auth_data_simps:
  "cl_docs (au_organisations V) s = as_organisations (auth_data V n s)" "cl_docs (au_users V) s = as_users (auth_data V n s)"
  "cl_docs (au_tokens V) s = as_tokens (auth_data V n s)"
  by (simp_all add: auth_data_def)

lemma same_but_tokens:
  "d\<lparr>as_tokens := []\<rparr> = (d' :: auth_store)\<lparr>as_tokens := []\<rparr> \<longleftrightarrow> d = d'\<lparr>as_tokens := as_tokens d\<rparr>"
  by (cases d; cases d') auto

lemma same_but_users:
  "d\<lparr>as_users := []\<rparr> = (d' :: auth_store)\<lparr>as_users := []\<rparr> \<longleftrightarrow> d = d'\<lparr>as_users := as_users d\<rparr>"
  by (cases d; cases d') auto

section \<open>The operations\<close>

lemma wp_observed:
  assumes "leaves f m" and "\<And>r s'. m s = (r, s') \<Longrightarrow> f s' = f s \<Longrightarrow> Q r s'"
  shows "wp m Q s"
  using assms leavesD [OF assms(1)] by (auto simp: wp_def split: prod.split)

lemma wp_find_organisation:
  assumes "auth_laws V n"
  shows "wp (cl_findOne (au_organisations V) p) (\<lambda>r s'. auth_data V n s' = auth_data V n s
    \<and> (\<forall>g. r = Inr (Some g) \<longrightarrow> g \<in> set (as_organisations (auth_data V n s)) \<and> p g)) s"
proof (rule wp_observed [OF auth_framesD(1) [OF assms]])
  fix r s'
  assume c: "cl_findOne (au_organisations V) p s = (r, s')" and "auth_data V n s' = auth_data V n s"
  then show "auth_data V n s' = auth_data V n s \<and> (\<forall>g. r = Inr (Some g) \<longrightarrow> g \<in> set (as_organisations (auth_data V n s)) \<and> p g)"
    using findOneD(3) [OF auth_lawsD(1) [OF assms] c] by (auto simp: auth_data_simps [where n = n])
qed

lemma wp_find_user:
  assumes "auth_laws V n"
  shows "wp (cl_findOne (au_users V) p) (\<lambda>r s'. auth_data V n s' = auth_data V n s
    \<and> (\<forall>u. r = Inr (Some u) \<longrightarrow> u \<in> set (as_users (auth_data V n s)) \<and> p u)) s"
proof (rule wp_observed [OF auth_framesD(2) [OF assms]])
  fix r s'
  assume c: "cl_findOne (au_users V) p s = (r, s')" and "auth_data V n s' = auth_data V n s"
  then show "auth_data V n s' = auth_data V n s \<and> (\<forall>u. r = Inr (Some u) \<longrightarrow> u \<in> set (as_users (auth_data V n s)) \<and> p u)"
    using findOneD(3) [OF auth_lawsD(2) [OF assms] c] by (auto simp: auth_data_simps [where n = n])
qed

lemma wp_find_token:
  assumes "auth_laws V n"
  shows "wp (findRefreshTokenByHash V h) (\<lambda>r s'. auth_data V n s' = auth_data V n s
    \<and> (\<forall>t. r = Inr (Some t) \<longrightarrow> t \<in> set (as_tokens (auth_data V n s)) \<and> rt_tokenHash t = h)
    \<and> (r = Inr None \<longrightarrow> (\<forall>t \<in> set (as_tokens (auth_data V n s)). rt_tokenHash t \<noteq> h))) s"
  unfolding findRefreshTokenByHash_def
proof (rule wp_observed [OF auth_framesD(3) [OF assms]])
  fix r s'
  assume c: "cl_findOne (au_tokens V) (\<lambda>t. rt_tokenHash t = h) s = (r, s')" and d: "auth_data V n s' = auth_data V n s"
  note f = findOneD [OF auth_lawsD(3) [OF assms] c, unfolded auth_data_simps [where n = n]]
  show "auth_data V n s' = auth_data V n s
    \<and> (\<forall>t. r = Inr (Some t) \<longrightarrow> t \<in> set (as_tokens (auth_data V n s)) \<and> rt_tokenHash t = h)
    \<and> (r = Inr None \<longrightarrow> (\<forall>t \<in> set (as_tokens (auth_data V n s)). rt_tokenHash t \<noteq> h))"
    using f d by blast
qed

lemma wp_draw: "wp (draw f) Q s \<longleftrightarrow> Q (Inr (fst (f s))) (snd (f s))"
  by (simp add: wp_def draw_def split: prod.split)

text \<open>New token material: the raw token is what the hash was computed from.\<close>

lemma wp_material:
  assumes "auth_laws V n"
  shows "wp (createRefreshTokenMaterial V familyId orgId sessionId userId now :: ('s, 'e, RefreshTokenMaterial) act) (\<lambda>r s'. auth_data V n s' = auth_data V n s
    \<and> (\<exists>m. r = Inr m \<and> rm_familyId m = familyId \<and> rm_orgId m = orgId \<and> rm_sessionId m = sessionId \<and> rm_userId m = userId
         \<and> rm_tokenHash m = hashRefreshToken V (rm_rawToken m)
         \<and> rm_expiresAt m = now + au_refreshTokenTtlDays V * 24 * 60 * 60 * 1000)) s"
  by (simp add: createRefreshTokenMaterial_def wp_bind wp_draw wp_ret Let_def auth_framesD(6,7) [OF assms])

lemma wp_create_token:
  assumes "auth_laws V n"
  shows "wp (cl_create (au_tokens V) [t]) (\<lambda>r s'.
      (auth_data V n s' = auth_data V n s \<and> r \<noteq> Inr ())
    \<or> auth_data V n s' = (auth_data V n s)\<lparr>as_tokens := as_tokens (auth_data V n s) @ [t]\<rparr>
      \<and> refresh_token_unique (as_tokens (auth_data V n s) @ [t])) s"
proof (rule wp_observed [OF auth_framesD(9) [OF assms]])
  fix r s'
  assume c: "cl_create (au_tokens V) [t] s = (r, s')"
    and f: "(auth_data V n s')\<lparr>as_tokens := []\<rparr> = (auth_data V n s)\<lparr>as_tokens := []\<rparr>"
  have d: "auth_data V n s' = (auth_data V n s)\<lparr>as_tokens := as_tokens (auth_data V n s')\<rparr>" using f by (simp only: same_but_tokens)
  have w: "as_tokens (auth_data V n s') = as_tokens (auth_data V n s)
      \<or> as_tokens (auth_data V n s') = as_tokens (auth_data V n s) @ [t] \<and> refresh_token_unique (as_tokens (auth_data V n s) @ [t])"
    using auth_lawsD(8) [OF assms, unfolded create_whole_def, rule_format, of "[t]" s] c by (simp add: auth_data_simps [where n = n])
  have ok: "as_tokens (auth_data V n s') = as_tokens (auth_data V n s) @ [t]" if "r = Inr ()"
    using createD [OF auth_lawsD(7) [OF assms]] c that by (auto simp: auth_data_simps [where n = n])
  show "auth_data V n s' = auth_data V n s \<and> r \<noteq> Inr ()
    \<or> auth_data V n s' = (auth_data V n s)\<lparr>as_tokens := as_tokens (auth_data V n s) @ [t]\<rparr>
      \<and> refresh_token_unique (as_tokens (auth_data V n s) @ [t])"
  proof (cases "as_tokens (auth_data V n s') = as_tokens (auth_data V n s)")
    case True
    then have "auth_data V n s' = auth_data V n s" using d by simp
    with ok True show ?thesis by auto
  next
    case False
    then show ?thesis using w d by metis
  qed
qed

text \<open>A claim changes only the claimed token.\<close>

definition claimed_token :: "string \<Rightarrow> int \<Rightarrow> RefreshToken \<Rightarrow> RefreshToken" where
  "claimed_token i now t = t\<lparr>rt_replacedByTokenId := Some i, rt_usedAt := Some now\<rparr>"

lemma wp_claim:
  assumes "auth_laws V n"
  shows "wp (claimRefreshTokenForRotation V tokenId orgId i now) (\<lambda>r s'.
      (auth_data V n s' = auth_data V n s \<and> (\<forall>t. r \<noteq> Inr (Some t)))
    \<or> (\<exists>xs t ys. as_tokens (auth_data V n s) = xs @ t # ys \<and> claimable tokenId orgId now t
         \<and> auth_data V n s' = (auth_data V n s)\<lparr>as_tokens := xs @ claimed_token i now t # ys\<rparr>)) s"
  unfolding claimRefreshTokenForRotation_def
proof (rule wp_observed [OF auth_framesD(10) [OF assms]])
  let ?f = "\<lambda>t. t\<lparr>rt_replacedByTokenId := Some i, rt_usedAt := Some now\<rparr>"
  fix r s'
  assume c: "cl_update (au_tokens V) (claimable tokenId orgId now) ?f s = (r, s')"
    and f: "(auth_data V n s')\<lparr>as_tokens := []\<rparr> = (auth_data V n s)\<lparr>as_tokens := []\<rparr>"
  have d: "auth_data V n s' = (auth_data V n s)\<lparr>as_tokens := as_tokens (auth_data V n s')\<rparr>" using f by (simp only: same_but_tokens)
  have w: "as_tokens (auth_data V n s') = as_tokens (auth_data V n s)
      \<or> one_updated (claimable tokenId orgId now) ?f (as_tokens (auth_data V n s)) (as_tokens (auth_data V n s'))"
    using auth_lawsD(5) [OF assms, unfolded update_atomic_def, rule_format, of "claimable tokenId orgId now" ?f s] c
    by (simp add: auth_data_simps [where n = n])
  have ok: "one_updated (claimable tokenId orgId now) ?f (as_tokens (auth_data V n s)) (as_tokens (auth_data V n s'))"
    if "r = Inr (Some t)" for t
    using updateD(2) [OF auth_lawsD(4) [OF assms] c that] unfolding one_updated_def auth_data_simps [where n = n] by blast
  have ch: "\<exists>xs t ys. as_tokens (auth_data V n s) = xs @ t # ys \<and> claimable tokenId orgId now t
         \<and> auth_data V n s' = (auth_data V n s)\<lparr>as_tokens := xs @ claimed_token i now t # ys\<rparr>"
    if o: "one_updated (claimable tokenId orgId now) ?f (as_tokens (auth_data V n s)) (as_tokens (auth_data V n s'))"
  proof -
    obtain xs t ys where t: "as_tokens (auth_data V n s) = xs @ t # ys" "claimable tokenId orgId now t"
      "as_tokens (auth_data V n s') = xs @ ?f t # ys" using o unfolding one_updated_def by blast
    have "auth_data V n s' = (auth_data V n s)\<lparr>as_tokens := xs @ claimed_token i now t # ys\<rparr>"
      using d t(3) by (simp add: claimed_token_def)
    with t show ?thesis by blast
  qed
  show "(auth_data V n s' = auth_data V n s \<and> (\<forall>t. r \<noteq> Inr (Some t)))
    \<or> (\<exists>xs t ys. as_tokens (auth_data V n s) = xs @ t # ys \<and> claimable tokenId orgId now t
         \<and> auth_data V n s' = (auth_data V n s)\<lparr>as_tokens := xs @ claimed_token i now t # ys\<rparr>)"
  proof (cases "\<exists>t. r = Inr (Some t)")
    case True
    then show ?thesis using ok ch by blast
  next
    case False
    from w show ?thesis
    proof
      assume "as_tokens (auth_data V n s') = as_tokens (auth_data V n s)"
      then have "auth_data V n s' = auth_data V n s" using d by simp
      with False show ?thesis by blast
    qed (use ch in blast)
  qed
qed

text \<open>A revocation touches only tokens of the family that were not revoked.\<close>

abbreviation same_family :: "RefreshToken \<Rightarrow> RefreshToken \<Rightarrow> bool" where
  "same_family token \<equiv> of_family (rt_familyId token) (rt_orgId token) (rt_sessionId token) (rt_userId token)"

definition revoked_some :: "RefreshToken \<Rightarrow> RefreshToken list \<Rightarrow> RefreshToken list \<Rightarrow> bool" where
  "revoked_some token ts ts' \<longleftrightarrow> list_all2 (\<lambda>t t'. t' = t \<or> (same_family token t \<and> rt_revokedAt t = None)
     \<and> (\<exists>now. t' = t\<lparr>rt_revokedAt := Some now\<rparr>)) ts ts'"

lemma wp_revoke:
  assumes "auth_laws V n"
  shows "wp (revokeRefreshTokenFamily V token now) (\<lambda>r s'.
      auth_data V n s' = (auth_data V n s)\<lparr>as_tokens := as_tokens (auth_data V n s')\<rparr>
    \<and> revoked_some token (as_tokens (auth_data V n s)) (as_tokens (auth_data V n s'))
    \<and> (r = Inr () \<longrightarrow> (\<forall>t \<in> set (as_tokens (auth_data V n s')). same_family token t \<longrightarrow> rt_revokedAt t \<noteq> None))) s"
  unfolding revokeRefreshTokenFamily_def
proof (rule wp_observed [OF auth_framesD(11) [OF assms]])
  let ?p = "\<lambda>t. same_family token t \<and> rt_revokedAt t = None" and ?f = "\<lambda>t. t\<lparr>rt_revokedAt := Some now\<rparr>"
  fix r s'
  assume c: "au_updateManyTokens V ?p ?f s = (r, s')"
    and f: "(auth_data V n s')\<lparr>as_tokens := []\<rparr> = (auth_data V n s)\<lparr>as_tokens := []\<rparr>"
  note l = auth_lawsD(9) [OF assms, unfolded update_many_law_def Let_def, rule_format, of ?p ?f s, unfolded c fst_conv snd_conv auth_data_simps [where n = n]]
  have "revoked_some token (as_tokens (auth_data V n s)) (as_tokens (auth_data V n s'))"
    unfolding revoked_some_def by (rule list_all2_mono [OF conjunct1 [OF l]]) auto
  moreover have "\<forall>t \<in> set (as_tokens (auth_data V n s')). same_family token t \<longrightarrow> rt_revokedAt t \<noteq> None" if "r = Inr ()"
    using conjunct2 [OF l] that by (auto simp: of_family_def)
  moreover have "auth_data V n s' = (auth_data V n s)\<lparr>as_tokens := as_tokens (auth_data V n s')\<rparr>"
    using f by (simp only: same_but_tokens)
  ultimately show "auth_data V n s' = (auth_data V n s)\<lparr>as_tokens := as_tokens (auth_data V n s')\<rparr>
    \<and> revoked_some token (as_tokens (auth_data V n s)) (as_tokens (auth_data V n s'))
    \<and> (r = Inr () \<longrightarrow> (\<forall>t \<in> set (as_tokens (auth_data V n s')). same_family token t \<longrightarrow> rt_revokedAt t \<noteq> None))" by blast
qed

lemma wp_sign:
  assumes "auth_laws V n"
  shows "wp (createAccessToken V i) (\<lambda>r s'. auth_data V n s' = auth_data V n s) s"
  unfolding createAccessToken_def signAccessToken_def Let_def
  by (simp add: wp_bind wp_read wp_draw wp_ret)
    (rule wp_observed [OF auth_framesD(4) [OF assms]], simp add: auth_framesD(6) [OF assms] wp_ret split: sum.split)

lemma wp_audit:
  assumes "auth_laws V n"
  shows "wp (auditBestEffort V e ctx) (\<lambda>r s'. r = Inr () \<and> auth_data V n s' = auth_data V n s) s"
proof (cases ctx)
  case (Some q)
  show ?thesis unfolding auditBestEffort_def Some option.case wp_best_effort
    by (rule wp_observed [OF auth_framesD(5) [OF assms]]) simp
qed (simp add: auditBestEffort_def wp_ret)

lemma unique_split:
  assumes "distinct (map f (xs @ t # ys))" and "u \<in> set (xs @ t # ys)" and "f u = f t"
  shows "u = t"
  using assms by (auto simp: image_iff)

end
