(* ===== verification/RefreshProperties.thy ===== *)
theory RefreshProperties
  imports AuthLaws
begin

text \<open>
  What a refresh promises: a successful one claimed one usable token and stored one successor in
  its family; a failed one grants nothing.
\<close>

section \<open>Rotation\<close>

text \<open>A refresh that succeeds: the presented token was stored, unused, not revoked and not expired;
  organisation and user are active; the token is now used, and the only other change is its
  successor in the same session, whose hash belongs to the raw token that is returned.\<close>

definition refresh_granted ::
  "'s auth_env \<Rightarrow> jsstr \<Rightarrow> auth_store \<Rightarrow> auth_store \<Rightarrow> RefreshSessionResult \<Rightarrow> bool" where
  "refresh_granted V raw d d' x \<longleftrightarrow>
     (\<exists>xs t ys now m. as_tokens d = xs @ t # ys \<and> rt_tokenHash t = hashRefreshToken V raw
        \<and> rt_usedAt t = None \<and> rt_revokedAt t = None \<and> now < rt_expiresAt t
        \<and> (\<exists>g \<in> set (as_organisations d). og_orgId g = rt_orgId t \<and> og_status g = org_ACTIVE)
        \<and> (\<exists>u \<in> set (as_users d). usr_orgId u = rt_orgId t \<and> usr_userId u = rt_userId t \<and> usr_status u = user_ACTIVE)
        \<and> rm_familyId m = rt_familyId t \<and> rm_sessionId m = rt_sessionId t \<and> rm_orgId m = rt_orgId t \<and> rm_userId m = rt_userId t
        \<and> rm_tokenHash m = hashRefreshToken V (rr_refreshToken x)
        \<and> d' = d\<lparr>as_tokens := xs @ claimed_token (rm_tokenId m) now t # ys @ [token_record m]\<rparr>
        \<and> refresh_token_unique (as_tokens d'))"

lemma wp_revoke_and_throw: "wp (revoke_and_throw V t e) (\<lambda>r s'. \<forall>x. r \<noteq> Inr x) s"
  unfolding revoke_and_throw_def wp_then wp_throw by (rule wp_trivial) (simp split: sum.split)

lemma wp_lookups:
  assumes "auth_laws V n"
  shows "wp (act_bind (findOrganisationByOrgId V orgId) (\<lambda>g. act_bind (findUserByOrgIdAndUserId V orgId userId) (\<lambda>u. act_ret (g, u))))
    (\<lambda>r s'. auth_data V n s' = auth_data V n s \<and> (\<forall>g u. r = Inr (g, u) \<longrightarrow>
       (\<forall>o'. g = Some o' \<longrightarrow> o' \<in> set (as_organisations (auth_data V n s)) \<and> og_orgId o' = orgId)
     \<and> (\<forall>p. u = Some p \<longrightarrow> p \<in> set (as_users (auth_data V n s)) \<and> usr_orgId p = orgId \<and> usr_userId p = userId))) s"
    (is "wp _ ?Q s")
  unfolding findOrganisationByOrgId_def findUserByOrgIdAndUserId_def wp_bind [where m = "cl_findOne (au_organisations V) _"]
proof (rule wp_mono [OF wp_find_organisation [OF assms]])
  let ?find = "\<lambda>g. act_bind (cl_findOne (au_users V) (\<lambda>u. usr_orgId u = orgId \<and> usr_userId u = userId)) (\<lambda>u. act_ret (g, u))"
  fix r :: "exn + Organisation option" and s1
  assume a: "auth_data V n s1 = auth_data V n s
    \<and> (\<forall>g. r = Inr (Some g) \<longrightarrow> g \<in> set (as_organisations (auth_data V n s)) \<and> og_orgId g = orgId)"
  show "case r of Inl e \<Rightarrow> ?Q (Inl e) s1 | Inr g \<Rightarrow> wp (?find g) ?Q s1"
  proof (cases r)
    case (Inr g)
    have "wp (cl_findOne (au_users V) (\<lambda>u. usr_orgId u = orgId \<and> usr_userId u = userId))
        (\<lambda>r' s'. case r' of Inl e \<Rightarrow> ?Q (Inl e) s' | Inr u \<Rightarrow> ?Q (Inr (g, u)) s') s1"
      by (rule wp_mono [OF wp_find_user [OF assms]]) (use a Inr in \<open>auto split: sum.split\<close>)
    then show ?thesis unfolding Inr sum.case wp_bind wp_ret .
  qed (use a in simp)
qed

lemma wp_refresh_claimed:
  assumes laws: "auth_laws V n" and d: "auth_data V n s = d"
  shows "wp (refresh_claimed V t m) (\<lambda>r s'. \<forall>x. r = Inr x \<longrightarrow>
      auth_data V n s' = d\<lparr>as_tokens := as_tokens d @ [token_record m]\<rparr> \<and> refresh_token_unique (as_tokens d @ [token_record m])
    \<and> rr_refreshToken x = rm_rawToken m
    \<and> (\<exists>g \<in> set (as_organisations d). og_orgId g = rt_orgId t \<and> og_status g = org_ACTIVE)
    \<and> (\<exists>u \<in> set (as_users d). usr_orgId u = rt_orgId t \<and> usr_userId u = rt_userId t \<and> usr_status u = user_ACTIVE)) s"
    (is "wp _ ?Q s")
proof -
  have revoke: "wp (revoke_and_throw V t e) ?Q w" for e w
    by (rule wp_mono [OF wp_revoke_and_throw]) simp
  let ?active = "(\<exists>g \<in> set (as_organisations d). og_orgId g = rt_orgId t \<and> og_status g = org_ACTIVE)
    \<and> (\<exists>u \<in> set (as_users d). usr_orgId u = rt_orgId t \<and> usr_userId u = rt_userId t \<and> usr_status u = user_ACTIVE)"
  have access: "wp (refresh_access V t m user) ?Q s2"
    if d2: "auth_data V n s2 = d\<lparr>as_tokens := as_tokens d @ [token_record m]\<rparr>"
      "refresh_token_unique (as_tokens d @ [token_record m])" and active: ?active for s2 user
    unfolding refresh_access_def wp_bind wp_attempt
    by (rule wp_mono [OF wp_sign [OF laws]]) (use d2 active revoke in \<open>auto simp: wp_ret split: sum.split\<close>)
  have persist: "wp (refresh_replace V t m user) ?Q s1" if s1: "auth_data V n s1 = d" and active: ?active for s1 user
    unfolding refresh_replace_def wp_bind wp_attempt persistReplacementRefreshToken_def
  proof (rule wp_mono [OF wp_create_token [OF laws]])
    fix r :: "exn + unit" and s2
    assume p: "auth_data V n s2 = auth_data V n s1 \<and> r \<noteq> Inr ()
      \<or> auth_data V n s2 = (auth_data V n s1)\<lparr>as_tokens := as_tokens (auth_data V n s1) @ [token_record m]\<rparr>
        \<and> refresh_token_unique (as_tokens (auth_data V n s1) @ [token_record m])"
    show "case Inr (case r of Inl _ \<Rightarrow> None | Inr x \<Rightarrow> Some x) of Inl e \<Rightarrow> ?Q (Inl e) s2
      | Inr x \<Rightarrow> wp (if x = None then revoke_and_throw V t (RefreshError authUnavailable) else refresh_access V t m user) ?Q s2"
    proof (cases r)
      case (Inl e)
      then show ?thesis using revoke by simp
    next
      case (Inr u)
      then have "auth_data V n s2 = d\<lparr>as_tokens := as_tokens d @ [token_record m]\<rparr>"
        "refresh_token_unique (as_tokens d @ [token_record m])" using p s1 by auto
      from access [OF this active] show ?thesis unfolding Inr sum.case by (simp only: option.distinct if_False)
    qed
  qed
  let ?found = "\<lambda>found. case found of None \<Rightarrow> revoke_and_throw V t (RefreshError authUnavailable)
     | Some (g, user) \<Rightarrow>
         if g = None \<or> og_status (the g) \<noteq> org_ACTIVE then revoke_and_throw V t invalidRefreshToken
         else if user = None \<or> usr_status (the user) \<noteq> user_ACTIVE then revoke_and_throw V t invalidRefreshToken
         else refresh_replace V t m (the user)"
  show ?thesis
    unfolding refresh_claimed_def wp_bind [where k = ?found] wp_attempt
  proof (rule wp_mono [OF wp_lookups [OF laws]])
    fix r :: "exn + Organisation option \<times> User option" and s1
    assume l: "auth_data V n s1 = auth_data V n s \<and> (\<forall>g u. r = Inr (g, u) \<longrightarrow>
       (\<forall>o'. g = Some o' \<longrightarrow> o' \<in> set (as_organisations (auth_data V n s)) \<and> og_orgId o' = rt_orgId t)
     \<and> (\<forall>p. u = Some p \<longrightarrow> p \<in> set (as_users (auth_data V n s)) \<and> usr_orgId p = rt_orgId t \<and> usr_userId p = rt_userId t))"
    show "case Inr (case r of Inl _ \<Rightarrow> None | Inr x \<Rightarrow> Some x) of Inl e \<Rightarrow> ?Q (Inl e) s1 | Inr x \<Rightarrow> wp (?found x) ?Q s1"
    proof (cases r)
      case (Inl e)
      then show ?thesis using revoke by simp
    next
      case (Inr gu)
      obtain g user where gu: "gu = (g, user)" by (cases gu)
      consider (org) "g = None \<or> og_status (the g) \<noteq> org_ACTIVE"
        | (user) "\<not> (g = None \<or> og_status (the g) \<noteq> org_ACTIVE)" "user = None \<or> usr_status (the user) \<noteq> user_ACTIVE"
        | (both) o' p where "g = Some o'" "user = Some p" "og_status o' = org_ACTIVE" "usr_status p = user_ACTIVE" by fastforce
      then have "wp (?found (Some (g, user))) ?Q s1"
      proof cases
        case org
        then show ?thesis using revoke by (simp only: option.case prod.case if_True)
      next
        case user
        then show ?thesis using revoke by (simp only: option.case prod.case if_False if_True)
      next
        case (both o' p)
        have "wp (refresh_replace V t m p) ?Q s1"
          by (rule persist) (use l d Inr gu both in auto)
        then show ?thesis using both by (simp only: option.case prod.case option.sel option.distinct HOL.simp_thms if_False)
      qed
      then show ?thesis unfolding Inr gu sum.case .
    qed
  qed
qed

lemma wp_refresh_rotate:
  assumes laws: "auth_laws V n" and d: "auth_data V n s = d" and unique: "refresh_token_unique (as_tokens d)"
    and t: "t \<in> set (as_tokens d)" "rt_tokenHash t = hashRefreshToken V raw"
  shows "wp (refresh_rotate V t now) (\<lambda>r s'. \<forall>x. r = Inr x \<longrightarrow> refresh_granted V raw d (auth_data V n s') x) s"
    (is "wp _ ?Q s")
proof -
  let ?claimed = "\<lambda>m claimed. if claimed = None then act_throw RefreshConcurrencyError else refresh_claimed V t m"
  let ?claim = "\<lambda>m. act_bind (or_throw (claimRefreshTokenForRotation V (rt_tokenId t) (rt_orgId t) (rm_tokenId m) now)
      (RefreshError authUnavailable)) (?claimed m)"
  have granted: "refresh_granted V raw d (auth_data V n s3) x"
    if m: "rm_familyId m = rt_familyId t" "rm_orgId m = rt_orgId t" "rm_sessionId m = rt_sessionId t" "rm_userId m = rt_userId t"
        "rm_tokenHash m = hashRefreshToken V (rm_rawToken m)"
      and c: "as_tokens d = xs @ u # ys" "claimable (rt_tokenId t) (rt_orgId t) now u"
      and r: "auth_data V n s3 = (d\<lparr>as_tokens := xs @ claimed_token (rm_tokenId m) now u # ys\<rparr>)\<lparr>as_tokens :=
           (xs @ claimed_token (rm_tokenId m) now u # ys) @ [token_record m]\<rparr>
         \<and> refresh_token_unique ((xs @ claimed_token (rm_tokenId m) now u # ys) @ [token_record m])
         \<and> rr_refreshToken x = rm_rawToken m
         \<and> (\<exists>g \<in> set (as_organisations d). og_orgId g = rt_orgId t \<and> og_status g = org_ACTIVE)
         \<and> (\<exists>u \<in> set (as_users d). usr_orgId u = rt_orgId t \<and> usr_userId u = rt_userId t \<and> usr_status u = user_ACTIVE)"
    for m xs u ys x s3
  proof -
    have "distinct (map rt_tokenId (xs @ u # ys))" using unique unfolding c(1) refresh_token_unique_def by blast
    moreover have "t \<in> set (xs @ u # ys)" using t(1) unfolding c(1) .
    moreover have "rt_tokenId t = rt_tokenId u" using c(2) unfolding claimable_def by (elim conjE) (rule sym)
    ultimately have "t = u" by (rule unique_split)
    have u: "rt_usedAt u = None" "rt_revokedAt u = None" "now < rt_expiresAt u" "rt_tokenHash u = hashRefreshToken V raw"
      using c(2) t(2) unfolding claimable_def \<open>t = u\<close> by blast+
    have d': "auth_data V n s3 = d\<lparr>as_tokens := xs @ claimed_token (rm_tokenId m) now u # ys @ [token_record m]\<rparr>"
      "refresh_token_unique (as_tokens (auth_data V n s3))" using r by simp_all
    show ?thesis
      unfolding refresh_granted_def
    proof (intro exI conjI)
      show "as_tokens d = xs @ u # ys" by (rule c(1))
      show "rm_tokenHash m = hashRefreshToken V (rr_refreshToken x)" using m(5) r by simp
      show "rt_tokenHash u = hashRefreshToken V raw" "rt_usedAt u = None" "rt_revokedAt u = None" "now < rt_expiresAt u" by (rule u)+
      show "\<exists>g \<in> set (as_organisations d). og_orgId g = rt_orgId u \<and> og_status g = org_ACTIVE" using r unfolding \<open>t = u\<close> by blast
      show "\<exists>p \<in> set (as_users d). usr_orgId p = rt_orgId u \<and> usr_userId p = rt_userId u \<and> usr_status p = user_ACTIVE"
        using r unfolding \<open>t = u\<close> by blast
      show "rm_familyId m = rt_familyId u" "rm_sessionId m = rt_sessionId u" "rm_orgId m = rt_orgId u" "rm_userId m = rt_userId u"
        using m unfolding \<open>t = u\<close> by simp_all
      show "auth_data V n s3 = d\<lparr>as_tokens := xs @ claimed_token (rm_tokenId m) now u # ys @ [token_record m]\<rparr>" by (rule d')
      show "refresh_token_unique (as_tokens (auth_data V n s3))" by (rule d')
    qed
  qed
  show ?thesis
    unfolding refresh_rotate_def createRotatedRefreshTokenMaterial_def wp_bind [where k = ?claim]
  proof (rule wp_mono [OF wp_material [OF laws]])
    fix r :: "refresh_exn + RefreshTokenMaterial" and s1
    assume a: "auth_data V n s1 = auth_data V n s
      \<and> (\<exists>m. r = Inr m \<and> rm_familyId m = rt_familyId t \<and> rm_orgId m = rt_orgId t \<and> rm_sessionId m = rt_sessionId t \<and> rm_userId m = rt_userId t
           \<and> rm_tokenHash m = hashRefreshToken V (rm_rawToken m)
           \<and> rm_expiresAt m = now + au_refreshTokenTtlDays V * 24 * 60 * 60 * 1000)"
    then obtain m where m: "r = Inr m" "rm_familyId m = rt_familyId t" "rm_orgId m = rt_orgId t" "rm_sessionId m = rt_sessionId t"
      "rm_userId m = rt_userId t" "rm_tokenHash m = hashRefreshToken V (rm_rawToken m)" by blast
    have d1: "auth_data V n s1 = d" using a d by simp
    have "wp (?claim m) ?Q s1"
      unfolding wp_bind [where k = "?claimed m"] wp_or_throw
    proof (rule wp_mono [OF wp_claim [OF laws]])
      fix r :: "exn + RefreshToken option" and s2
      assume c: "(auth_data V n s2 = auth_data V n s1 \<and> (\<forall>t. r \<noteq> Inr (Some t)))
        \<or> (\<exists>xs u ys. as_tokens (auth_data V n s1) = xs @ u # ys \<and> claimable (rt_tokenId t) (rt_orgId t) now u
             \<and> auth_data V n s2 = (auth_data V n s1)\<lparr>as_tokens := xs @ claimed_token (rm_tokenId m) now u # ys\<rparr>)"
      show "case case r of Inl _ \<Rightarrow> Inl (RefreshError authUnavailable) | Inr x \<Rightarrow> Inr x of
          Inl e \<Rightarrow> ?Q (Inl e) s2 | Inr x \<Rightarrow> wp (?claimed m x) ?Q s2"
      proof (cases "\<exists>u. r = Inr (Some u)")
        case True
        then obtain v xs u ys where v: "r = Inr (Some v)" "as_tokens d = xs @ u # ys" "claimable (rt_tokenId t) (rt_orgId t) now u"
          "auth_data V n s2 = d\<lparr>as_tokens := xs @ claimed_token (rm_tokenId m) now u # ys\<rparr>" using c d1 by auto
        have "wp (refresh_claimed V t m) ?Q s2"
          by (rule wp_mono [OF wp_refresh_claimed [OF laws v(4)]]) (intro allI impI, rule granted [OF m(2-6) v(2,3)], simp)
        then show ?thesis by (simp add: v(1))
      next
        case False
        then show ?thesis by (auto simp: wp_throw split: sum.split)
      qed
    qed
    then show "case r of Inl e \<Rightarrow> ?Q (Inl e) s1 | Inr m \<Rightarrow> wp (?claim m) ?Q s1" by (simp add: m(1))
  qed
qed

lemma wp_refreshSession:
  assumes laws: "auth_laws V n" and unique: "refresh_token_unique (as_tokens (auth_data V n s))"
  shows "wp (refreshSession V raw ctx) (\<lambda>r s'. (\<forall>x. r = Inr x \<longrightarrow> refresh_granted V raw (auth_data V n s) (auth_data V n s') x)) s"
    (is "wp _ ?Q s")
proof -
  let ?used = "\<lambda>t now. case rt_usedAt t of Some usedAt \<Rightarrow> refresh_used V t usedAt now ctx
     | None \<Rightarrow> if rt_revokedAt t \<noteq> None then act_throw invalidRefreshToken
               else if rt_expiresAt t \<le> now then act_throw invalidRefreshToken else refresh_rotate V t now"
  let ?found = "\<lambda>existing. case existing of None \<Rightarrow> act_throw invalidRefreshToken
     | Some t \<Rightarrow> act_bind (act_read (au_now V)) (?used t)"
  have used: "wp (refresh_used V t u now ctx) ?Q w" for t u now w
    unfolding refresh_used_def by (auto simp: wp_throw wp_then intro!: wp_trivial split: sum.split)
  show ?thesis
    unfolding refreshSession_def wp_bind [where k = ?found] wp_or_throw
  proof (rule wp_mono [OF wp_find_token [OF laws]])
    fix r :: "exn + RefreshToken option" and s1
    assume f: "auth_data V n s1 = auth_data V n s
      \<and> (\<forall>t. r = Inr (Some t) \<longrightarrow> t \<in> set (as_tokens (auth_data V n s)) \<and> rt_tokenHash t = hashRefreshToken V raw)
      \<and> (r = Inr None \<longrightarrow> (\<forall>t \<in> set (as_tokens (auth_data V n s)). rt_tokenHash t \<noteq> hashRefreshToken V raw))"
    consider "\<forall>t. r \<noteq> Inr (Some t)" | t where "r = Inr (Some t)" by blast
    then show "case case r of Inl _ \<Rightarrow> Inl (RefreshError authUnavailable) | Inr x \<Rightarrow> Inr x of
        Inl e \<Rightarrow> ?Q (Inl e) s1 | Inr x \<Rightarrow> wp (?found x) ?Q s1"
    proof cases
      case 1
      then show ?thesis by (auto simp: wp_throw split: sum.split option.split)
    next
      case 2
      have "wp (refresh_rotate V t now) ?Q s1" for now
        using wp_refresh_rotate [OF laws _ unique] f 2 by simp
      then show ?thesis using used by (auto simp: 2 wp_bind wp_read wp_throw split: option.split)
    qed
  qed
qed

end
