(* ===== verification/LoginProperties.thy ===== *)
theory LoginProperties
  imports AuthLaws
begin

text \<open>
  What a login promises: a session is opened only for the right password of an active user of an
  active organisation, and a rejection neither tells why nor skips the password verification.
\<close>

section \<open>Outcomes\<close>

definition login_rejected :: "auth_store \<Rightarrow> auth_store \<Rightarrow> exn \<Rightarrow> bool" where
  "login_rejected d d' e \<longleftrightarrow> e \<in> {invalidCredentials, loginUnavailable, internalError}
     \<and> (e = invalidCredentials \<longrightarrow> as_tokens d' = as_tokens d \<and> as_verifications d < as_verifications d')"

definition login_granted ::
  "'s auth_env \<Rightarrow> LoginInput \<Rightarrow> auth_store \<Rightarrow> auth_store \<Rightarrow> LoginResult \<Rightarrow> bool" where
  "login_granted V i d d' x \<longleftrightarrow>
     (\<exists>g u m w. g \<in> set (as_organisations d) \<and> og_slug g = li_organisationSlug i \<and> og_status g = org_ACTIVE
        \<and> u \<in> set (as_users d) \<and> usr_orgId u = og_orgId g \<and> usr_emailNormalized u = li_emailNormalized i
        \<and> usr_status u = user_ACTIVE \<and> lr_user x = createSafeAuthProfile u g
        \<and> fst (au_argon2Verify V (usr_passwordHash u) (au_normalizeNFC V (li_password i)) w) = Inr True
        \<and> as_tokens d' = as_tokens d @ [token_record m] \<and> refresh_token_unique (as_tokens d')
        \<and> rm_orgId m = og_orgId g \<and> rm_userId m = usr_userId u \<and> rm_tokenHash m = hashRefreshToken V (lr_refreshToken x))"

definition login_outcome ::
  "'s auth_env \<Rightarrow> LoginInput \<Rightarrow> auth_store \<Rightarrow> exn + LoginResult \<Rightarrow> auth_store \<Rightarrow> bool" where
  "login_outcome V i d r d' \<longleftrightarrow> (case r of Inl e \<Rightarrow> login_rejected d d' e | Inr x \<Rightarrow> login_granted V i d d' x)"

section \<open>Steps\<close>

lemma internal_error_differs:
  "loginUnavailable \<noteq> invalidCredentials" "internalError \<noteq> invalidCredentials"
  by (simp_all add: loginUnavailable_def invalidCredentials_def internalError_def app_exn_def app_error_def)

lemma wp_verifyPassword:
  assumes "auth_laws V n" and "auth_data V n s = d"
  shows "wp (verifyPassword V h c) (\<lambda>r s'.
      auth_data V n s' \<in> {d, d\<lparr>as_verifications := Suc (as_verifications d)\<rparr>}
    \<and> (\<forall>b. r = Inr b \<longrightarrow> auth_data V n s' = d\<lparr>as_verifications := Suc (as_verifications d)\<rparr>
         \<and> (\<exists>w. fst (au_argon2Verify V h (au_normalizeNFC V c) w) = Inr b))) s"
proof -
  have v: "n s = as_verifications d" using assms(2) by (auto simp: auth_data_def)
  show ?thesis
    using auth_framesD(12) [OF assms(1), of h "au_normalizeNFC V c" s] assms(2) v
    by (auto simp: verifyPassword_def Let_def wp_throw wp_catch wp_def [of "au_argon2Verify V h _"] split: prod.split sum.split)
       (metis fst_conv)
qed

lemma wp_dummy:
  assumes "auth_laws V n" and "auth_data V n s = d"
  shows "wp (performDummyVerification V p) (\<lambda>r s'. case r of Inl e \<Rightarrow> e = loginUnavailable
     | Inr _ \<Rightarrow> auth_data V n s' = d\<lparr>as_verifications := Suc (as_verifications d)\<rparr>) s"
  unfolding performDummyVerification_def wp_then wp_or_throw
  by (rule wp_mono [OF wp_verifyPassword [OF assms]]) (auto simp: wp_ret split: sum.split)

lemma wp_update_users:
  assumes "auth_laws V n" and "auth_data V n s = d"
  shows "wp (best_effort (act_then (cl_update (au_users V) p f) (act_ret ()))) (\<lambda>r s'. r = Inr () \<and> (\<exists>us. auth_data V n s' = d\<lparr>as_users := us\<rparr>)) s"
  unfolding wp_best_effort wp_then wp_ret
proof (rule wp_observed [OF auth_framesD(8) [OF assms(1)]])
  fix r s'
  assume "(auth_data V n s')\<lparr>as_users := []\<rparr> = (auth_data V n s)\<lparr>as_users := []\<rparr>"
  then have "auth_data V n s' = d\<lparr>as_users := as_users (auth_data V n s')\<rparr>" using assms(2) by (simp only: same_but_users)
  then have w: "\<exists>us. auth_data V n s' = d\<lparr>as_users := us\<rparr>" by (rule exI)
  show "case r of Inl e \<Rightarrow> Inr () = Inr () \<and> (\<exists>us. auth_data V n s' = d\<lparr>as_users := us\<rparr>)
    | Inr _ \<Rightarrow> Inr () = Inr () \<and> (\<exists>us. auth_data V n s' = d\<lparr>as_users := us\<rparr>)"
    using w by (cases r) simp_all
qed

lemma wp_increment:
  assumes "auth_laws V n" and "auth_data V n s = d"
  shows "wp (incrementFailureBestEffort V orgId userId) (\<lambda>r s'. r = Inr () \<and> (\<exists>us. auth_data V n s' = d\<lparr>as_users := us\<rparr>)) s"
  unfolding incrementFailureBestEffort_def incrementFailedLoginCount_def by (rule wp_update_users [OF assms])

lemma wp_record_success:
  assumes "auth_laws V n" and "auth_data V n s = d"
  shows "wp (recordSuccessBestEffort V orgId userId) (\<lambda>r s'. r = Inr () \<and> (\<exists>us. auth_data V n s' = d\<lparr>as_users := us\<rparr>)) s"
  unfolding recordSuccessBestEffort_def recordSuccessfulLogin_def wp_bind wp_read sum.case by (rule wp_update_users [OF assms])

section \<open>Rejections\<close>

text \<open>After a verification, whatever else is recorded, a rejection is within the contract.\<close>

lemma wp_dummy_then:
  assumes "auth_laws V n" and "auth_data V n s = d" and "as_tokens d = as_tokens d0" "as_verifications d0 \<le> as_verifications d"
    and k: "\<And>s1. auth_data V n s1 = d\<lparr>as_verifications := Suc (as_verifications d)\<rparr> \<Longrightarrow>
       wp k (\<lambda>r s'. login_outcome V i d0 r (auth_data V n s')) s1"
  shows "wp (act_then (performDummyVerification V p) k) (\<lambda>r s'. login_outcome V i d0 r (auth_data V n s')) s"
  unfolding wp_then
proof (rule wp_mono [OF wp_dummy [OF assms(1,2)]])
  fix r :: "exn + unit" and s1
  assume a: "case r of Inl e \<Rightarrow> e = loginUnavailable | Inr _ \<Rightarrow> auth_data V n s1 = d\<lparr>as_verifications := Suc (as_verifications d)\<rparr>"
  show "case r of Inl e \<Rightarrow> login_outcome V i d0 (Inl e) (auth_data V n s1)
    | Inr _ \<Rightarrow> wp k (\<lambda>r s'. login_outcome V i d0 r (auth_data V n s')) s1"
  proof (cases r)
    case (Inl e)
    then show ?thesis using a internal_error_differs by (simp add: login_outcome_def login_rejected_def)
  next
    case (Inr u)
    then show ?thesis using a k by simp
  qed
qed

lemma wp_reject:
  assumes "as_tokens (auth_data V n s) = as_tokens d" and "as_verifications d < as_verifications (auth_data V n s)"
  shows "wp (act_throw invalidCredentials) (\<lambda>r s'. login_outcome V i d r (auth_data V n s')) s"
  using assms by (simp add: wp_throw login_outcome_def login_rejected_def)

lemma wp_audit_reject:
  assumes "auth_laws V n" and "as_tokens (auth_data V n s) = as_tokens d" and "as_verifications d < as_verifications (auth_data V n s)"
  shows "wp (act_then (auditBestEffort V e ctx) (act_throw invalidCredentials)) (\<lambda>r s'. login_outcome V i d r (auth_data V n s')) s"
  unfolding wp_then
  by (rule wp_mono [OF wp_audit [OF assms(1)]]) (use assms(2,3) in \<open>auto intro!: wp_reject\<close>)

lemma login_failures:
  "login_outcome V i d (Inl loginUnavailable) d'" "login_outcome V i d (Inl internalError) d'"
  using internal_error_differs by (simp_all add: login_outcome_def login_rejected_def)

section \<open>Sessions\<close>

lemma wp_initial_material:
  assumes "auth_laws V n"
  shows "wp (createInitialRefreshTokenMaterial V orgId userId :: ('s, 'e, RefreshTokenMaterial) act) (\<lambda>r s'. auth_data V n s' = auth_data V n s
    \<and> (\<exists>m. r = Inr m \<and> rm_orgId m = orgId \<and> rm_userId m = userId \<and> rm_tokenHash m = hashRefreshToken V (rm_rawToken m))) s"
  unfolding createInitialRefreshTokenMaterial_def wp_bind wp_read sum.case wp_draw
  by (rule wp_mono [OF wp_material [OF assms]]) (auto simp: auth_framesD(6) [OF assms])

lemma wp_login_session:
  assumes laws: "auth_laws V n"
    and g: "g \<in> set (as_organisations d)" "og_slug g = li_organisationSlug i" "og_status g = org_ACTIVE"
    and u: "u \<in> set (as_users d)" "usr_orgId u = og_orgId g" "usr_emailNormalized u = li_emailNormalized i" "usr_status u = user_ACTIVE"
    and w: "fst (au_argon2Verify V (usr_passwordHash u) (au_normalizeNFC V (li_password i)) w) = Inr True"
    and s: "as_tokens (auth_data V n s) = as_tokens d"
  shows "wp (login_session V g u ctx) (\<lambda>r s'. login_outcome V i d r (auth_data V n s')) s" (is "wp _ ?Q s")
proof -
  let ?result = "\<lambda>m token. act_ret \<lparr>lr_accessToken = ar_accessToken token, lr_expiresInSeconds = ar_expiresInSeconds token,
         lr_refreshToken = rm_rawToken m, lr_user = createSafeAuthProfile u g\<rparr>"
  let ?audit = "\<lambda>m token. act_then (auditBestEffort V \<lparr>ev_orgId = og_orgId g, ev_actorId = Some (usr_userId u), ev_actorType = ''USER'',
         ev_actorRole = Some (usr_role u), ev_action = ''auth.login_succeeded'', ev_outcome = ''SUCCESS'',
         ev_resourceId = Some (rm_sessionId m), ev_reasonCode = None\<rparr> ctx) (?result m token)"
  let ?signed = "\<lambda>m token. act_then (recordSuccessBestEffort V (og_orgId g) (usr_userId u)) (?audit m token)"
  let ?persisted = "\<lambda>m. act_bind (or_throw (createAccessToken V (access_input u (og_orgId g) (rm_sessionId m))) internalError) (?signed m)"
  let ?material = "\<lambda>m. act_then (or_throw (persistInitialRefreshToken V m) loginUnavailable) (?persisted m)"
  have audit: "wp (?audit m token) ?Q s4"
    if m: "rm_orgId m = og_orgId g" "rm_userId m = usr_userId u" "rm_tokenHash m = hashRefreshToken V (rm_rawToken m)"
      and t: "as_tokens (auth_data V n s4) = as_tokens d @ [token_record m]" "refresh_token_unique (as_tokens d @ [token_record m])"
    for m token s4
  proof -
    have "login_outcome V i d (Inr \<lparr>lr_accessToken = ar_accessToken token, lr_expiresInSeconds = ar_expiresInSeconds token,
         lr_refreshToken = rm_rawToken m, lr_user = createSafeAuthProfile u g\<rparr>) d'" if "d' = auth_data V n s4" for d'
      unfolding login_outcome_def sum.case login_granted_def
    proof (intro exI conjI)
      show "as_tokens d' = as_tokens d @ [token_record m]" using t(1) that by simp
      show "refresh_token_unique (as_tokens d')" using t that by simp
    qed (use g u w m in simp_all)
    then show ?thesis unfolding wp_then
      by - (rule wp_mono [OF wp_audit [OF laws]], simp add: wp_ret)
  qed
  have signed: "wp (?signed m token) ?Q s3"
    if m: "rm_orgId m = og_orgId g" "rm_userId m = usr_userId u" "rm_tokenHash m = hashRefreshToken V (rm_rawToken m)"
      and t: "as_tokens (auth_data V n s3) = as_tokens d @ [token_record m]" "refresh_token_unique (as_tokens d @ [token_record m])"
    for m token s3
    unfolding wp_then [where m = "recordSuccessBestEffort V _ _"]
  proof (rule wp_mono [OF wp_record_success [OF laws refl]])
    fix r :: "exn + unit" and s4
    assume r: "r = Inr () \<and> (\<exists>us. auth_data V n s4 = (auth_data V n s3)\<lparr>as_users := us\<rparr>)"
    then have "as_tokens (auth_data V n s4) = as_tokens d @ [token_record m]" using t(1) by auto
    from audit [OF m this t(2)] r
    show "case r of Inl e \<Rightarrow> ?Q (Inl e) s4 | Inr _ \<Rightarrow> wp (?audit m token) ?Q s4" by (simp only: sum.case)
  qed
  have persisted: "wp (?persisted m) ?Q s2"
    if m: "rm_orgId m = og_orgId g" "rm_userId m = usr_userId u" "rm_tokenHash m = hashRefreshToken V (rm_rawToken m)"
      and t: "as_tokens (auth_data V n s2) = as_tokens d @ [token_record m]" "refresh_token_unique (as_tokens d @ [token_record m])"
    for m s2
    unfolding wp_bind [where k = "?signed m"] wp_or_throw
  proof (rule wp_mono [OF wp_sign [OF laws]])
    fix r :: "exn + AccessTokenResult" and s3
    assume "auth_data V n s3 = auth_data V n s2"
    then have "as_tokens (auth_data V n s3) = as_tokens d @ [token_record m]" using t(1) by simp
    from signed [OF m this t(2)] login_failures
    show "case case r of Inl _ \<Rightarrow> Inl internalError | Inr x \<Rightarrow> Inr x of Inl e \<Rightarrow> ?Q (Inl e) s3 | Inr x \<Rightarrow> wp (?signed m x) ?Q s3"
      by (cases r) (simp_all only: sum.case)
  qed
  have material: "wp (?material m) ?Q s1"
    if m: "rm_orgId m = og_orgId g" "rm_userId m = usr_userId u" "rm_tokenHash m = hashRefreshToken V (rm_rawToken m)"
      and t: "as_tokens (auth_data V n s1) = as_tokens d" for m s1
    unfolding wp_then [where k = "?persisted m"] wp_or_throw persistInitialRefreshToken_def
  proof (rule wp_mono [OF wp_create_token [OF laws]])
    fix r :: "exn + unit" and s2
    assume p: "auth_data V n s2 = auth_data V n s1 \<and> r \<noteq> Inr ()
      \<or> auth_data V n s2 = (auth_data V n s1)\<lparr>as_tokens := as_tokens (auth_data V n s1) @ [token_record m]\<rparr>
        \<and> refresh_token_unique (as_tokens (auth_data V n s1) @ [token_record m])"
    show "case case r of Inl _ \<Rightarrow> Inl loginUnavailable | Inr x \<Rightarrow> Inr x of Inl e \<Rightarrow> ?Q (Inl e) s2 | Inr _ \<Rightarrow> wp (?persisted m) ?Q s2"
    proof (cases r)
      case (Inl e)
      then show ?thesis using login_failures by (simp only: sum.case)
    next
      case (Inr x)
      then have "as_tokens (auth_data V n s2) = as_tokens d @ [token_record m]" "refresh_token_unique (as_tokens d @ [token_record m])"
        using p t by auto
      from persisted [OF m this] show ?thesis by (simp only: Inr sum.case)
    qed
  qed
  show ?thesis
    unfolding login_session_def wp_bind [where k = ?material]
  proof (rule wp_mono [OF wp_initial_material [OF laws]])
    fix r :: "exn + RefreshTokenMaterial" and s1
    assume a: "auth_data V n s1 = auth_data V n s
      \<and> (\<exists>m. r = Inr m \<and> rm_orgId m = og_orgId g \<and> rm_userId m = usr_userId u \<and> rm_tokenHash m = hashRefreshToken V (rm_rawToken m))"
    then obtain m where m: "r = Inr m" "rm_orgId m = og_orgId g" "rm_userId m = usr_userId u" "rm_tokenHash m = hashRefreshToken V (rm_rawToken m)"
      by blast
    have "wp (?material m) ?Q s1" by (rule material [OF m(2-4)]) (use a s in simp)
    then show "case r of Inl e \<Rightarrow> ?Q (Inl e) s1 | Inr m \<Rightarrow> wp (?material m) ?Q s1" unfolding m(1) sum.case .
  qed
qed

lemma wp_login_user:
  assumes laws: "auth_laws V n" and d: "auth_data V n s = d"
    and g: "g \<in> set (as_organisations d)" "og_slug g = li_organisationSlug i" "og_status g = org_ACTIVE"
    and u: "u \<in> set (as_users d)" "usr_orgId u = og_orgId g" "usr_emailNormalized u = li_emailNormalized i"
  shows "wp (login_user V g u (li_password i) ctx) (\<lambda>r s'. login_outcome V i d r (auth_data V n s')) s" (is "wp _ ?Q s")
proof -
  let ?failed = "act_then (performDummyVerification V (li_password i)) (act_throw invalidCredentials)"
  let ?event = "login_failed_event (og_orgId g) (Some u) (if usr_status u = user_ACTIVE then ''PASSWORD_MISMATCH'' else ''USER_INACTIVE'')"
  let ?verified = "\<lambda>r. case r of
       None \<Rightarrow> act_then (incrementFailureBestEffort V (og_orgId g) (usr_userId u)) ?failed
     | Some passwordMatches \<Rightarrow>
         if \<not> passwordMatches \<or> usr_status u \<noteq> user_ACTIVE then
           act_then (incrementFailureBestEffort V (og_orgId g) (usr_userId u))
          (act_then (auditBestEffort V ?event ctx) (act_throw invalidCredentials))
         else login_session V g u ctx"
  have counted: "wp (act_then (incrementFailureBestEffort V (og_orgId g) (usr_userId u)) k) ?Q s1"
    if k: "\<And>s2. as_tokens (auth_data V n s2) = as_tokens d \<Longrightarrow> as_verifications (auth_data V n s2) = as_verifications (auth_data V n s1) \<Longrightarrow> wp k ?Q s2"
      and s1: "as_tokens (auth_data V n s1) = as_tokens d" for k s1
    unfolding wp_then
  proof (rule wp_mono [OF wp_increment [OF laws refl]])
    fix r :: "exn + unit" and s2
    assume r: "r = Inr () \<and> (\<exists>us. auth_data V n s2 = (auth_data V n s1)\<lparr>as_users := us\<rparr>)"
    have "wp k ?Q s2" by (rule k) (use r s1 in auto)
    then show "case r of Inl e \<Rightarrow> ?Q (Inl e) s2 | Inr _ \<Rightarrow> wp k ?Q s2" using r by (simp only: sum.case)
  qed
  show ?thesis
    unfolding login_user_def wp_bind [where k = ?verified] wp_attempt
  proof (rule wp_mono [OF wp_verifyPassword [OF laws d]])
    fix r :: "exn + bool" and s1
    assume v: "auth_data V n s1 \<in> {d, d\<lparr>as_verifications := Suc (as_verifications d)\<rparr>}
      \<and> (\<forall>b. r = Inr b \<longrightarrow> auth_data V n s1 = d\<lparr>as_verifications := Suc (as_verifications d)\<rparr>
           \<and> (\<exists>w. fst (au_argon2Verify V (usr_passwordHash u) (au_normalizeNFC V (li_password i)) w) = Inr b))"
    then have t: "as_tokens (auth_data V n s1) = as_tokens d" and le: "as_verifications d \<le> as_verifications (auth_data V n s1)" by auto
    show "case Inr (case r of Inl _ \<Rightarrow> None | Inr x \<Rightarrow> Some x) of Inl e \<Rightarrow> ?Q (Inl e) s1 | Inr x \<Rightarrow> wp (?verified x) ?Q s1"
    proof (cases r)
      case (Inl e)
      have "wp ?failed ?Q s2" if "as_tokens (auth_data V n s2) = as_tokens d" "as_verifications (auth_data V n s2) = as_verifications (auth_data V n s1)" for s2
        by (rule wp_dummy_then [OF laws refl]) (use that le in \<open>auto intro!: wp_reject\<close>)
      then show ?thesis unfolding Inl sum.case option.case by (rule counted) (simp_all only: t)
    next
      case (Inr b)
      have lt: "as_verifications d < as_verifications (auth_data V n s1)" using v Inr by simp
      have "wp (act_then (auditBestEffort V ?event ctx) (act_throw invalidCredentials)) ?Q s2"
        if "as_tokens (auth_data V n s2) = as_tokens d" "as_verifications (auth_data V n s2) = as_verifications (auth_data V n s1)" for s2
        by (rule wp_audit_reject [OF laws that(1)]) (use that lt in simp)
      note rejected = counted [OF this t]
      show ?thesis
      proof (cases "\<not> b \<or> usr_status u \<noteq> user_ACTIVE")
        case True
        then show ?thesis unfolding Inr sum.case option.case if_P [OF True] by (intro rejected) (simp_all add: t)
      next
        case False
        then obtain w where "fst (au_argon2Verify V (usr_passwordHash u) (au_normalizeNFC V (li_password i)) w) = Inr True" "usr_status u = user_ACTIVE"
          using v Inr by auto
        from wp_login_session [OF laws g u this(2,1) t]
        show ?thesis unfolding Inr sum.case option.case if_not_P [OF False] .
      qed
    qed
  qed
qed

lemma wp_login_organisation:
  assumes laws: "auth_laws V n" and d: "auth_data V n s = d"
    and g: "g \<in> set (as_organisations d)" "og_slug g = li_organisationSlug i" "og_status g = org_ACTIVE"
  shows "wp (login_organisation V g i ctx) (\<lambda>r s'. login_outcome V i d r (auth_data V n s')) s" (is "wp _ ?Q s")
proof -
  let ?unknown = "act_then (auditBestEffort V (login_failed_event (og_orgId g) None ''USER_NOT_FOUND'') ctx) (act_throw invalidCredentials)"
  let ?found = "\<lambda>user. if user = None \<or> usr_passwordHash (the user) = [] then
         act_then (performDummyVerification V (li_password i)) ?unknown
       else login_user V g (the user) (li_password i) ctx"
  show ?thesis
    unfolding login_organisation_def wp_bind [where k = ?found] wp_or_throw findUserForLogin_def
  proof (rule wp_mono [OF wp_find_user [OF laws]])
    fix r :: "exn + User option" and s1
    assume f: "auth_data V n s1 = auth_data V n s
      \<and> (\<forall>u. r = Inr (Some u) \<longrightarrow> u \<in> set (as_users (auth_data V n s)) \<and> usr_orgId u = og_orgId g \<and> usr_emailNormalized u = li_emailNormalized i)"
    then have d1: "auth_data V n s1 = d" using d by simp
    show "case case r of Inl _ \<Rightarrow> Inl loginUnavailable | Inr x \<Rightarrow> Inr x of Inl e \<Rightarrow> ?Q (Inl e) s1 | Inr x \<Rightarrow> wp (?found x) ?Q s1"
    proof (cases r)
      case (Inl e)
      then show ?thesis using login_failures by (simp only: sum.case)
    next
      case (Inr user)
      show ?thesis
      proof (cases "user = None \<or> usr_passwordHash (the user) = []")
        case True
        have "wp (act_then (performDummyVerification V (li_password i)) ?unknown) ?Q s1"
          by (rule wp_dummy_then [OF laws d1]) (auto intro!: wp_audit_reject [OF laws])
        then show ?thesis unfolding Inr sum.case if_P [OF True] .
      next
        case False
        then obtain u where u: "user = Some u" by auto
        have "wp (login_user V g u (li_password i) ctx) ?Q s1"
          by (rule wp_login_user [OF laws d1 g]) (use f d u Inr in auto)
        then show ?thesis unfolding Inr sum.case if_not_P [OF False] by (simp only: u option.sel)
      qed
    qed
  qed
qed

lemma wp_login:
  assumes laws: "auth_laws V n" and d: "auth_data V n s = d"
  shows "wp (login V i ctx) (\<lambda>r s'. login_outcome V i d r (auth_data V n s')) s" (is "wp _ ?Q s")
proof -
  let ?suspended = "\<lambda>g. act_then (auditBestEffort V (login_failed_event (og_orgId g) None ''ORGANISATION_SUSPENDED'') ctx) (act_throw invalidCredentials)"
  let ?found = "\<lambda>organisation. case organisation of
         None \<Rightarrow> act_then (performDummyVerification V (li_password i)) (act_throw invalidCredentials)
       | Some g \<Rightarrow> if og_status g \<noteq> org_ACTIVE then act_then (performDummyVerification V (li_password i)) (?suspended g)
           else login_organisation V g i ctx"
  show ?thesis
    unfolding login_def wp_bind [where k = ?found] wp_or_throw findOrganisationForLogin_def
  proof (rule wp_mono [OF wp_find_organisation [OF laws]])
    fix r :: "exn + Organisation option" and s1
    assume f: "auth_data V n s1 = auth_data V n s
      \<and> (\<forall>g. r = Inr (Some g) \<longrightarrow> g \<in> set (as_organisations (auth_data V n s)) \<and> og_slug g = li_organisationSlug i)"
    then have d1: "auth_data V n s1 = d" using d by simp
    consider e where "r = Inl e" | "r = Inr None" | g where "r = Inr (Some g)" "og_status g \<noteq> org_ACTIVE"
      | g where "r = Inr (Some g)" "og_status g = org_ACTIVE"
      by (cases r) (simp_all, metis not_Some_eq)
    then show "case case r of Inl _ \<Rightarrow> Inl loginUnavailable | Inr x \<Rightarrow> Inr x of Inl e \<Rightarrow> ?Q (Inl e) s1 | Inr x \<Rightarrow> wp (?found x) ?Q s1"
    proof cases
      case 1
      then show ?thesis using login_failures by (simp only: sum.case)
    next
      case 2
      have "wp (act_then (performDummyVerification V (li_password i)) (act_throw invalidCredentials)) ?Q s1"
        by (rule wp_dummy_then [OF laws d1]) (auto intro!: wp_reject)
      then show ?thesis unfolding 2 sum.case option.case .
    next
      case 3
      have "wp (act_then (performDummyVerification V (li_password i)) (?suspended g)) ?Q s1"
        by (rule wp_dummy_then [OF laws d1]) (auto intro!: wp_audit_reject [OF laws])
      then show ?thesis unfolding 3(1) sum.case option.case if_P [OF 3(2)] .
    next
      case 4
      then have "wp (login_organisation V g i ctx) ?Q s1" using f d by (intro wp_login_organisation [OF laws d1]) auto
      then show ?thesis unfolding 4(1) sum.case option.case by (simp only: 4(2) HOL.simp_thms if_False)
    qed
  qed
qed

end
