(* ===== verification/AuthProperties.thy ===== *)
theory AuthProperties
  imports RefreshProperties LoginProperties
begin

text \<open>
  The promises of login, refresh and logout, and a database in memory that meets the laws they
  rest on: its world is the three collections, the number of password verifications and a counter
  that serves as clock and as source of new names.
\<close>

section \<open>A database in memory\<close>

type_synonym auth_world = "auth_store \<times> nat"

definition put_organisations :: "(Organisation list \<Rightarrow> Organisation list) \<Rightarrow> auth_world \<Rightarrow> auth_world" where
  "put_organisations f w = ((fst w)\<lparr>as_organisations := f (as_organisations (fst w))\<rparr>, snd w)"

definition put_users :: "(User list \<Rightarrow> User list) \<Rightarrow> auth_world \<Rightarrow> auth_world" where
  "put_users f w = ((fst w)\<lparr>as_users := f (as_users (fst w))\<rparr>, snd w)"

definition put_tokens :: "(RefreshToken list \<Rightarrow> RefreshToken list) \<Rightarrow> auth_world \<Rightarrow> auth_world" where
  "put_tokens f w = ((fst w)\<lparr>as_tokens := f (as_tokens (fst w))\<rparr>, snd w)"

lemmas put_auth_defs = put_organisations_def put_users_def put_tokens_def

definition demo_digest :: "nat list \<Rightarrow> string" where
  "demo_digest bs = replicate 63 (CHR ''0'') @ [if bs = [65] then CHR ''1'' else CHR ''2'']"

definition mem_auth :: "auth_world auth_env" where
  "mem_auth = \<lparr>
     au_organisations = mem_collection organisation_valid organisation_unique (\<lambda>w. as_organisations (fst w)) put_organisations,
     au_users = mem_collection user_valid user_unique (\<lambda>w. as_users (fst w)) put_users,
     au_tokens = mem_collection refresh_token_valid refresh_token_unique (\<lambda>w. as_tokens (fst w)) put_tokens,
     au_updateManyTokens = (\<lambda>p f w. (Inr (), put_tokens (map (\<lambda>t. if p t then f t else t)) w)),
     au_now = (\<lambda>w. int (snd w)),
     au_randomUUID = (\<lambda>w. (demo_uuid (snd w), (fst w, Suc (snd w)))),
     au_randomBytes = (\<lambda>k w. (replicate k (snd w mod 256), (fst w, Suc (snd w)))),
     au_sha256Hex = demo_digest, au_normalizeNFC = (\<lambda>s. s),
     au_argon2Verify = (\<lambda>h c w. (Inr (c = [112]), ((fst w)\<lparr>as_verifications := Suc (as_verifications (fst w))\<rparr>, snd w))),
     au_sign = (\<lambda>c w. (Inr [116], w)), au_appendAudit = (\<lambda>e q w. (Inr (), w)),
     au_refreshTokenTtlDays = 7, au_accessTokenTtlMinutes = 15\<rparr>"

definition mem_verifications :: "auth_world \<Rightarrow> nat" where
  "mem_verifications w = as_verifications (fst w)"

lemma mem_auth_data: "auth_data mem_auth mem_verifications w = fst w"
  by (cases "fst w") (simp add: auth_data_def mem_auth_def mem_collection_def mem_verifications_def)

lemma mem_update_atomic:
  assumes "\<And>f s. get (upd f s) = f (get s)"
  shows "update_atomic (mem_collection valid unique get upd)"
  unfolding update_atomic_def
proof (intro allI)
  fix p f s
  let ?C = "mem_collection valid unique get upd"
  obtain r ds where u: "update_first p f (get s) = (r, ds)" by fastforce
  show "cl_docs ?C (snd (cl_update ?C p f s)) = cl_docs ?C s
      \<or> one_updated p f (cl_docs ?C s) (cl_docs ?C (snd (cl_update ?C p f s)))"
  proof (cases r)
    case None
    then show ?thesis using u update_first_None [of p f "get s" ds] by (simp add: mem_collection_def assms)
  next
    case (Some d)
    then show ?thesis using u update_first_Some [of p f "get s" d ds]
      by (auto simp: mem_collection_def assms one_updated_def)
  qed
qed

lemma mem_create_whole:
  assumes "\<And>f s. get (upd f s) = f (get s)"
  shows "create_whole unique (mem_collection valid unique get upd)"
  by (auto simp: create_whole_def mem_collection_def assms)

lemma mem_auth_frames: "auth_frames mem_auth mem_verifications"
  unfolding auth_frames_def leaves_def mem_auth_data
  by (simp add: mem_auth_def mem_collection_def put_auth_defs mem_verifications_def)

lemma mem_auth_laws: "auth_laws mem_auth mem_verifications"
proof -
  have c: "collection_laws organisation_valid organisation_unique (au_organisations mem_auth)"
    "collection_laws user_valid user_unique (au_users mem_auth)"
    "collection_laws refresh_token_valid refresh_token_unique (au_tokens mem_auth)"
    unfolding mem_auth_def auth_env.simps by (rule mem_collection_laws; simp add: put_auth_defs)+
  have a: "update_atomic (au_users mem_auth)" "update_atomic (au_tokens mem_auth)"
    unfolding mem_auth_def auth_env.simps by (rule mem_update_atomic; simp add: put_auth_defs)+
  have w: "create_whole refresh_token_unique (au_tokens mem_auth)"
    unfolding mem_auth_def auth_env.simps by (rule mem_create_whole) (simp add: put_auth_defs)
  have "update_many_law mem_auth"
    by (auto simp: update_many_law_def mem_auth_def mem_collection_def put_auth_defs Let_def list_all2_map2 intro!: list_all2_refl)
  then show ?thesis using c a w mem_auth_frames by (simp add: auth_laws_def collection_laws_def)
qed

section \<open>An organisation with one user and one session\<close>

definition demo_organisation :: Organisation where
  "demo_organisation = \<lparr>og_orgId = demo_uuid 1, og_name = [65], og_slug = [97, 98], og_status = org_ACTIVE, og_plan = FREE,
     og_monthlyTokenBudget = 1000, og_retentionMode = METADATA_ONLY,
     og_policy = \<lparr>maskThreshold = 30, blockThreshold = 80, maxOutputTokensPerRequest = 1000\<rparr>,
     og_featureFlags = \<lparr>ff_autoRouting = True, ff_teamLeadView = False, ff_anomalyDetection = False, ff_auditExport = False\<rparr>\<rparr>"

definition demo_user :: User where
  "demo_user = \<lparr>usr_userId = demo_uuid 2, usr_orgId = demo_uuid 1, usr_email = [97], usr_emailNormalized = [97],
     usr_passwordHash = ''$argon2id$v=19'', usr_displayName = [65], usr_role = EMPLOYEE, usr_permissions = USER_PERMISSIONS_BY_ROLE EMPLOYEE,
     usr_teamId = None, usr_status = user_ACTIVE, usr_failedLoginCount = 0, usr_lockedUntil = None, usr_lastLoginAt = None\<rparr>"

definition demo_token :: RefreshToken where
  "demo_token = \<lparr>rt_tokenId = demo_uuid 0, rt_sessionId = demo_uuid 0, rt_familyId = demo_uuid 0, rt_orgId = demo_uuid 1,
     rt_userId = demo_uuid 2, rt_tokenHash = demo_digest [65], rt_expiresAt = 100, rt_usedAt = None, rt_revokedAt = None,
     rt_replacedByTokenId = None\<rparr>"

definition demo_auth :: "RefreshToken list \<Rightarrow> auth_world" where
  "demo_auth ts = (\<lparr>as_organisations = [demo_organisation], as_users = [demo_user], as_tokens = ts, as_verifications = 0\<rparr>, 0)"

section \<open>Sessions that end\<close>

text \<open>A stored token that is used or revoked is never refreshed.\<close>

lemma spent_token_refused:
  assumes "auth_laws V n" and unique: "refresh_token_unique (as_tokens (auth_data V n w))"
    and t: "t \<in> set (as_tokens (auth_data V n w))" "rt_tokenHash t = hashRefreshToken V raw"
    and spent: "rt_usedAt t \<noteq> None \<or> rt_revokedAt t \<noteq> None"
  shows "fst (refreshSession V raw ctx w) \<noteq> Inr x"
proof
  assume "fst (refreshSession V raw ctx w) = Inr x"
  then obtain w' where r: "refreshSession V raw ctx w = (Inr x, w')" by (metis prod.collapse)
  have "refresh_granted V raw (auth_data V n w) (auth_data V n w') x"
    using wpD [OF wp_refreshSession [OF assms(1) unique] r] by simp
  then obtain xs u ys where u: "as_tokens (auth_data V n w) = xs @ u # ys" "rt_tokenHash u = hashRefreshToken V raw"
    "rt_usedAt u = None" "rt_revokedAt u = None"
    unfolding refresh_granted_def by (elim exE conjE) blast
  have "distinct (map rt_tokenHash (xs @ u # ys))" using unique unfolding u(1) refresh_token_unique_def by blast
  moreover have "t \<in> set (xs @ u # ys)" using t(1) unfolding u(1) .
  moreover have "rt_tokenHash t = rt_tokenHash u" using t(2) u(2) by simp
  ultimately have "t = u" by (rule unique_split)
  then show False using spent u by simp
qed

text \<open>A revocation keeps hashes and families.\<close>

lemma revoked_some_keeps:
  assumes "revoked_some token ts ts'"
  shows "map rt_tokenHash ts' = map rt_tokenHash ts" and "map rt_tokenId ts' = map rt_tokenId ts"
    and "refresh_token_unique ts' = refresh_token_unique ts"
    and "t' \<in> set ts' \<Longrightarrow> \<exists>t \<in> set ts. rt_tokenHash t' = rt_tokenHash t \<and> same_family token t' = same_family token t"
proof -
  have l: "list_all2 (\<lambda>t t'. rt_tokenHash t' = rt_tokenHash t \<and> rt_tokenId t' = rt_tokenId t \<and> same_family token t' = same_family token t) ts ts'"
    by (rule list_all2_mono [OF assms [unfolded revoked_some_def]]) (elim disjE conjE exE; hypsubst; simp add: of_family_def)
  show h: "map rt_tokenHash ts' = map rt_tokenHash ts" and i: "map rt_tokenId ts' = map rt_tokenId ts"
    using l by (induction rule: list_all2_induct) simp_all
  show "refresh_token_unique ts' = refresh_token_unique ts" by (simp add: refresh_token_unique_def h i)
  assume "t' \<in> set ts'"
  then obtain k where k: "k < length ts'" "t' = ts' ! k" unfolding in_set_conv_nth by blast
  then have "k < length ts" using list_all2_lengthD [OF l] by simp
  moreover from list_all2_nthD [OF l this] k(2)
  have "rt_tokenHash t' = rt_tokenHash (ts ! k) \<and> same_family token t' = same_family token (ts ! k)" by simp
  ultimately show "\<exists>t \<in> set ts. rt_tokenHash t' = rt_tokenHash t \<and> same_family token t' = same_family token t"
    by (intro bexI [of _ "ts ! k"]) simp_all
qed

definition family_ended :: "RefreshToken \<Rightarrow> auth_store \<Rightarrow> auth_store \<Rightarrow> bool" where
  "family_ended t d d' \<longleftrightarrow> d' = d\<lparr>as_tokens := as_tokens d'\<rparr> \<and> revoked_some t (as_tokens d) (as_tokens d')
     \<and> (\<forall>u \<in> set (as_tokens d'). same_family t u \<longrightarrow> rt_revokedAt u \<noteq> None)"

lemma wp_logoutSession:
  assumes laws: "auth_laws V n" and raw: "raw \<noteq> []"
  shows "wp (logoutSession V (Some raw) ctx) (\<lambda>r s'. r = Inr () \<longrightarrow>
      (auth_data V n s' = auth_data V n s \<and> (\<forall>t \<in> set (as_tokens (auth_data V n s)). rt_tokenHash t \<noteq> hashRefreshToken V raw))
    \<or> (\<exists>t \<in> set (as_tokens (auth_data V n s)). rt_tokenHash t = hashRefreshToken V raw
        \<and> family_ended t (auth_data V n s) (auth_data V n s'))) s" (is "wp _ ?Q s")
proof -
  let ?event = "\<lambda>t. \<lparr>ev_orgId = rt_orgId t, ev_actorId = Some (rt_userId t), ev_actorType = ''USER'',
                 ev_actorRole = None, ev_action = ''auth.logout_succeeded'', ev_outcome = ''SUCCESS'',
                 ev_resourceId = Some (rt_sessionId t), ev_reasonCode = Some ''REFRESH_TOKEN_REVOKED''\<rparr>"
  let ?revoke = "\<lambda>t now. act_then (or_throw (revokeRefreshTokenFamily V t now) authUnavailable) (auditBestEffort V (?event t) ctx)"
  let ?found = "\<lambda>existing. case existing of None \<Rightarrow> act_ret () | Some t \<Rightarrow> act_bind (act_read (au_now V)) (?revoke t)"
  have revoke: "wp (?revoke t now) ?Q s1"
    if t: "t \<in> set (as_tokens (auth_data V n s))" "rt_tokenHash t = hashRefreshToken V raw" and d: "auth_data V n s1 = auth_data V n s" for t now s1
    unfolding wp_then wp_or_throw
  proof (rule wp_mono [OF wp_revoke [OF laws]])
    fix r :: "exn + unit" and s2
    assume v: "auth_data V n s2 = (auth_data V n s1)\<lparr>as_tokens := as_tokens (auth_data V n s2)\<rparr>
      \<and> revoked_some t (as_tokens (auth_data V n s1)) (as_tokens (auth_data V n s2))
      \<and> (r = Inr () \<longrightarrow> (\<forall>u \<in> set (as_tokens (auth_data V n s2)). same_family t u \<longrightarrow> rt_revokedAt u \<noteq> None))"
    show "case case r of Inl _ \<Rightarrow> Inl authUnavailable | Inr x \<Rightarrow> Inr x of Inl e \<Rightarrow> ?Q (Inl e) s2
      | Inr _ \<Rightarrow> wp (auditBestEffort V (?event t) ctx) ?Q s2"
    proof (cases r)
      case (Inl e)
      then show ?thesis by (simp only: sum.case) simp
    next
      case (Inr u)
      have e: "family_ended t (auth_data V n s) (auth_data V n s2)" unfolding family_ended_def using v d Inr by auto
      have "?Q r3 s3" if "auth_data V n s3 = auth_data V n s2" for r3 s3
        unfolding that using t e by blast
      then have "wp (auditBestEffort V (?event t) ctx) ?Q s2"
        by (rule_tac wp_mono [OF wp_audit [OF laws]]) blast
      then show ?thesis unfolding Inr sum.case .
    qed
  qed
  have found: "wp (act_bind (or_throw (findRefreshTokenByHash V (hashRefreshToken V raw)) authUnavailable) ?found) ?Q s"
    unfolding wp_bind [where k = ?found] wp_or_throw
  proof (rule wp_mono [OF wp_find_token [OF laws]])
    fix r :: "exn + RefreshToken option" and s1
    assume f: "auth_data V n s1 = auth_data V n s
      \<and> (\<forall>t. r = Inr (Some t) \<longrightarrow> t \<in> set (as_tokens (auth_data V n s)) \<and> rt_tokenHash t = hashRefreshToken V raw)
      \<and> (r = Inr None \<longrightarrow> (\<forall>t \<in> set (as_tokens (auth_data V n s)). rt_tokenHash t \<noteq> hashRefreshToken V raw))"
    consider e where "r = Inl e" | "r = Inr None" | t where "r = Inr (Some t)" by (cases r) (simp_all, metis not_Some_eq)
    then show "case case r of Inl _ \<Rightarrow> Inl authUnavailable | Inr x \<Rightarrow> Inr x of Inl e \<Rightarrow> ?Q (Inl e) s1 | Inr x \<Rightarrow> wp (?found x) ?Q s1"
    proof cases
      case 1
      then show ?thesis by (simp only: sum.case) simp
    next
      case 2
      then show ?thesis using f by (simp only: sum.case option.case wp_ret) blast
    next
      case 3
      then have "wp (act_bind (act_read (au_now V)) (?revoke t)) ?Q s1"
        unfolding wp_bind [where k = "?revoke t"] wp_read sum.case using revoke f by blast
      then show ?thesis unfolding 3 sum.case option.case .
    qed
  qed
  then show ?thesis using raw unfolding logoutSession_def by (simp only: option.distinct option.inject option.sel HOL.simp_thms if_False)
qed

text \<open>A used token that is presented again. What the answer is depends on the lookup and, for a token
  that has a replacement, on the time since its use; the code ignores a failure of the revocation.\<close>

definition reuse_outcome ::
  "'s auth_env \<Rightarrow> ('s \<Rightarrow> auth_store) \<Rightarrow> RefreshToken \<Rightarrow> int \<Rightarrow> 's \<Rightarrow> refresh_exn + RefreshSessionResult \<Rightarrow> 's \<Rightarrow> 's \<Rightarrow> bool" where
  "reuse_outcome V data t usedAt s r s1 s' \<longleftrightarrow>
     (let now = au_now V s1 in
      if rt_replacedByTokenId t \<noteq> None \<and> now - usedAt \<le> 5000
      then r = Inl RefreshConcurrencyError \<and> data s' = data s
      else r = Inl invalidRefreshToken \<and>
        (case fst (revokeRefreshTokenFamily V t now s1) of
           Inr _ \<Rightarrow> family_ended t (data s) (data s')
         | Inl _ \<Rightarrow> data s' = (data s)\<lparr>as_tokens := as_tokens (data s')\<rparr> \<and> revoked_some t (as_tokens (data s)) (as_tokens (data s'))))"

lemma refresh_used_outcome:
  assumes laws: "auth_laws V n" and d: "auth_data V n s1 = auth_data V n s"
    and run: "refresh_used V t usedAt (au_now V s1) ctx s1 = (r, s')"
  shows "reuse_outcome V (auth_data V n) t usedAt s r s1 s'"
proof (cases "rt_replacedByTokenId t \<noteq> None \<and> au_now V s1 - usedAt \<le> 5000")
  case True
  with run d show ?thesis
    by (simp add: refresh_used_def REFRESH_CONCURRENCY_GRACE_MS_def act_throw_def reuse_outcome_def)
next
  case False
  obtain q s2 where v: "revokeRefreshTokenFamily V t (au_now V s1) s1 = (q, s2)" by fastforce
  obtain x s3 where a: "(auditBestEffort V (reuse_event t) ctx :: ('a, refresh_exn, unit) act) s2 = (x, s3)" by fastforce
  from wpD [OF wp_audit [OF laws] a] have x: "x = Inr ()" and d3: "auth_data V n s3 = auth_data V n s2" by simp_all
  have "(revokeFamilyBestEffort V t :: ('a, refresh_exn, unit) act) s1 = (Inr (), s2)"
    by (simp add: revokeFamilyBestEffort_def act_bind_apply best_effort_def v)
  with run a x have rs: "r = Inl invalidRefreshToken" "s' = s3"
    unfolding refresh_used_def REFRESH_CONCURRENCY_GRACE_MS_def if_not_P [OF False]
    by (simp_all add: act_then_apply act_throw_def)
  show ?thesis
    using wpD [OF wp_revoke [OF laws] v] unfolding reuse_outcome_def Let_def if_not_P [OF False]
    by (cases q) (simp_all add: rs v d3 d family_ended_def)
qed

lemma reuse_answer:
  assumes laws: "auth_laws V n" and unique: "refresh_token_unique (as_tokens (auth_data V n s))"
    and t: "t \<in> set (as_tokens (auth_data V n s))" "rt_tokenHash t = hashRefreshToken V raw" "rt_usedAt t = Some usedAt"
    and find: "findRefreshTokenByHash V (hashRefreshToken V raw) s = (q, s1)"
    and run: "refreshSession V raw ctx s = (r, s')"
  shows "case q of Inl _ \<Rightarrow> r = Inl (RefreshError authUnavailable) \<and> auth_data V n s' = auth_data V n s
    | Inr found \<Rightarrow> found = Some t \<and> reuse_outcome V (auth_data V n) t usedAt s r s1 s'"
proof -
  from wpD [OF wp_find_token [OF laws] find] have d: "auth_data V n s1 = auth_data V n s"
    and f: "\<And>u. q = Inr (Some u) \<Longrightarrow> u \<in> set (as_tokens (auth_data V n s)) \<and> rt_tokenHash u = hashRefreshToken V raw"
    and none: "q = Inr None \<Longrightarrow> \<forall>u \<in> set (as_tokens (auth_data V n s)). rt_tokenHash u \<noteq> hashRefreshToken V raw" by auto
  show ?thesis
  proof (cases q)
    case (Inl e)
    with run d show ?thesis by (simp add: refreshSession_def act_bind_apply or_throw_def find)
  next
    case (Inr found)
    with none t(1,2) obtain u where u: "found = Some u" by (cases found) auto
    have "inj_on rt_tokenHash (set (as_tokens (auth_data V n s)))"
      using unique unfolding refresh_token_unique_def by (simp add: distinct_map)
    moreover have "u \<in> set (as_tokens (auth_data V n s))" "rt_tokenHash u = rt_tokenHash t" using f [of u] Inr u t(2) by auto
    ultimately have "u = t" using t(1) by (auto dest: inj_onD)
    moreover have "refresh_used V t usedAt (au_now V s1) ctx s1 = (r, s')"
      using run unfolding refreshSession_def act_bind_apply or_throw_def find Inr u \<open>u = t\<close> by (simp add: act_bind_apply t(3))
    ultimately show ?thesis using refresh_used_outcome [OF laws d] by (simp add: Inr u)
  qed
qed

section \<open>Properties\<close>

text \<open>C4. A login opens a session exactly for the owner: success needs an active organisation with
  the given slug, an active user with the given address in it, and an Argon2 verification of the given
  password against the hash of that user; it adds one unique refresh token that belongs to the raw
  token returned. Every rejection of the credentials is the same error, leaves the tokens alone and
  comes after at least one password verification, whatever the reason; other failures are the two
  unavailability errors.\<close>

theorem login_contract:
  assumes "auth_laws V n" and "login V i ctx s = (r, s')"
  shows "case r of Inl e \<Rightarrow> login_rejected (auth_data V n s) (auth_data V n s') e
    | Inr x \<Rightarrow> login_granted V i (auth_data V n s) (auth_data V n s') x"
  using wpD [OF wp_login [OF assms(1) refl] assms(2)] unfolding login_outcome_def .

text \<open>C5. A refresh token is exchanged once: a refresh succeeds only for a stored token that is
  unused, not revoked and not expired, of an active user and organisation; it marks that token used
  and adds one successor in the same family and session, whose hash belongs to the raw token
  returned; and from then on the old raw token is refused, while it is stored.\<close>

theorem refresh_token_single_use:
  assumes laws: "auth_laws V n" and unique: "refresh_token_unique (as_tokens (auth_data V n s))"
    and run: "refreshSession V raw ctx s = (Inr x, s')"
  shows "refresh_granted V raw (auth_data V n s) (auth_data V n s') x
    \<and> (\<exists>t \<in> set (as_tokens (auth_data V n s')). rt_tokenHash t = hashRefreshToken V raw \<and> rt_usedAt t \<noteq> None
       \<and> (\<forall>w ctx' y. t \<in> set (as_tokens (auth_data V n w)) \<longrightarrow> refresh_token_unique (as_tokens (auth_data V n w))
            \<longrightarrow> fst (refreshSession V raw ctx' w) \<noteq> Inr y))"
proof
  show g: "refresh_granted V raw (auth_data V n s) (auth_data V n s') x"
    using wpD [OF wp_refreshSession [OF laws unique] run] by simp
  then obtain xs t ys now m where t: "rt_tokenHash t = hashRefreshToken V raw"
    "auth_data V n s' = (auth_data V n s)\<lparr>as_tokens := xs @ claimed_token (rm_tokenId m) now t # ys @ [token_record m]\<rparr>"
    unfolding refresh_granted_def by (elim exE conjE) blast
  show "\<exists>t \<in> set (as_tokens (auth_data V n s')). rt_tokenHash t = hashRefreshToken V raw \<and> rt_usedAt t \<noteq> None
       \<and> (\<forall>w ctx' y. t \<in> set (as_tokens (auth_data V n w)) \<longrightarrow> refresh_token_unique (as_tokens (auth_data V n w))
            \<longrightarrow> fst (refreshSession V raw ctx' w) \<noteq> Inr y)"
  proof (intro bexI conjI allI impI)
    let ?t = "claimed_token (rm_tokenId m) now t"
    show "?t \<in> set (as_tokens (auth_data V n s'))" by (simp add: t(2))
    show h: "rt_tokenHash ?t = hashRefreshToken V raw" and u: "rt_usedAt ?t \<noteq> None" using t(1) by (simp_all add: claimed_token_def)
    show "fst (refreshSession V raw ctx' w) \<noteq> Inr y"
      if "?t \<in> set (as_tokens (auth_data V n w))" "refresh_token_unique (as_tokens (auth_data V n w))" for w ctx' y
      using spent_token_refused [OF laws that(2,1) h] u by blast
  qed
qed

text \<open>C14. A refresh with a token that was already exchanged never succeeds. When the lookup finds the
  token (a failing lookup is answered as an outage and changes nothing), the clock decides: a token that
  has a replacement and was used at most 5 seconds ago is answered as a concurrent rotation and nothing
  changes, because the client may not have received the replacement; any other reuse is answered like
  an invalid token and, unless the revocation itself fails (the code ignores its failure), every token
  of the family is revoked afterwards. Nothing else changes, in either case.\<close>

theorem reuse_revokes_family:
  assumes "auth_laws V n" and "refresh_token_unique (as_tokens (auth_data V n s))"
    and "t \<in> set (as_tokens (auth_data V n s))" and "rt_tokenHash t = hashRefreshToken V raw" and "rt_usedAt t = Some usedAt"
    and "findRefreshTokenByHash V (hashRefreshToken V raw) s = (q, s1)" and "refreshSession V raw ctx s = (r, s')"
  shows "case q of
      Inl _ \<Rightarrow> r = Inl (RefreshError authUnavailable) \<and> auth_data V n s' = auth_data V n s
    | Inr found \<Rightarrow> found = Some t \<and>
       (if rt_replacedByTokenId t \<noteq> None \<and> au_now V s1 - usedAt \<le> 5000
        then r = Inl RefreshConcurrencyError \<and> auth_data V n s' = auth_data V n s
        else r = Inl invalidRefreshToken \<and>
          (case fst (revokeRefreshTokenFamily V t (au_now V s1) s1) of
             Inr _ \<Rightarrow> family_ended t (auth_data V n s) (auth_data V n s')
           | Inl _ \<Rightarrow> auth_data V n s' = (auth_data V n s)\<lparr>as_tokens := as_tokens (auth_data V n s')\<rparr>
               \<and> revoked_some t (as_tokens (auth_data V n s)) (as_tokens (auth_data V n s'))))"
  using reuse_answer [OF assms] unfolding reuse_outcome_def Let_def .

text \<open>A logout ends the session: when it succeeds with the raw token of a stored one, no token of
  the family is ever refreshed from the data it leaves; and it changes nothing but the revocation
  times of that family.\<close>

theorem logout_ends_session:
  assumes laws: "auth_laws V n" and unique: "refresh_token_unique (as_tokens (auth_data V n s))" and raw: "raw \<noteq> []"
    and t: "t \<in> set (as_tokens (auth_data V n s))" "rt_tokenHash t = hashRefreshToken V raw"
    and run: "logoutSession V (Some raw) ctx s = (Inr (), s')"
    and u: "u \<in> set (as_tokens (auth_data V n s'))" "same_family t u" "rt_tokenHash u = hashRefreshToken V raw2"
    and w: "auth_data V n w = auth_data V n s'"
  shows "family_ended t (auth_data V n s) (auth_data V n s') \<and> fst (refreshSession V raw2 ctx2 w) \<noteq> Inr x"
proof -
  from wpD [OF wp_logoutSession [OF laws raw] run] t
  obtain v where v: "v \<in> set (as_tokens (auth_data V n s))" "rt_tokenHash v = hashRefreshToken V raw"
    "family_ended v (auth_data V n s) (auth_data V n s')" by blast
  have "inj_on rt_tokenHash (set (as_tokens (auth_data V n s)))"
    using unique unfolding refresh_token_unique_def by (simp add: distinct_map)
  then have "v = t" using inj_onD [of rt_tokenHash _ v t] v(1,2) t by simp
  with v(3) have e: "family_ended t (auth_data V n s) (auth_data V n s')" by simp
  then have "refresh_token_unique (as_tokens (auth_data V n s'))"
    using unique revoked_some_keeps(3) unfolding family_ended_def by blast
  then have "refresh_token_unique (as_tokens (auth_data V n w))" by (simp only: w)
  moreover have "u \<in> set (as_tokens (auth_data V n w))" using u(1) by (simp only: w)
  moreover have "rt_revokedAt u \<noteq> None" using e u(1,2) unfolding family_ended_def by blast
  ultimately have "fst (refreshSession V raw2 ctx2 w) \<noteq> Inr x" using spent_token_refused [OF laws] u(3) by blast
  with e show ?thesis by blast
qed

section \<open>The properties applied\<close>

definition demo_raw :: jsstr where
  "demo_raw = base64url_encode (replicate 32 0)"

lemma demo_hashes:
  "utf8_encode [65] = [65]" "demo_digest [65] = replicate 63 (CHR ''0'') @ ''1''"
  "demo_digest (utf8_encode demo_raw) = replicate 63 (CHR ''0'') @ ''2''"
proof -
  show "utf8_encode [65] = [65]" by code_simp
  show "demo_digest [65] = replicate 63 (CHR ''0'') @ ''1''" by (simp add: demo_digest_def)
  have "(32 :: nat) = Suc (Suc (Suc 29))" by simp
  then have "demo_raw = 65 # 65 # 65 # 65 # map sextet_unit (sextets (replicate 29 0))"
    unfolding demo_raw_def base64url_encode_def by (simp only: replicate.simps sextets.simps list.map) (simp add: sextet_unit_def)
  then obtain z where z: "demo_raw = 65 # 65 # 65 # 65 # z" by blast
  have "code_points (65 # 65 # 65 # 65 # z) = 65 # 65 # 65 # code_points (65 # z)" by (simp add: is_high_def)
  then have "code_points demo_raw = 65 # 65 # 65 # code_points (65 # z)" unfolding z .
  then have "utf8_encode demo_raw \<noteq> [65]" by (simp add: utf8_encode_def utf8_of_code_point_def)
  then show "demo_digest (utf8_encode demo_raw) = replicate 63 (CHR ''0'') @ ''2''" by (simp add: demo_digest_def)
qed

lemma demo_hash_valid: "c = CHR ''1'' \<or> c = CHR ''2'' \<Longrightarrow> sha256_hex_pattern (replicate 63 (CHR ''0'') @ [c])"
  by (auto simp: sha256_hex_pattern_def list_all_iff)

lemma demo_uuids_differ: "demo_uuid 0 \<noteq> demo_uuid 1"
  by (simp add: demo_uuid_def)

definition demo_material :: RefreshTokenMaterial where
  "demo_material = \<lparr>rm_tokenId = demo_uuid 1, rm_sessionId = demo_uuid 0, rm_familyId = demo_uuid 0, rm_orgId = demo_uuid 1,
     rm_userId = demo_uuid 2, rm_tokenHash = demo_digest (utf8_encode demo_raw), rm_rawToken = demo_raw, rm_expiresAt = 604800000\<rparr>"

lemma demo_material_valid: "refresh_token_valid (token_record demo_material)"
  using demo_hash_valid by (simp add: refresh_token_valid_def token_record_def demo_material_def demo_uuid_valid demo_hashes)

abbreviation demo_claimed :: RefreshToken where
  "demo_claimed \<equiv> claimed_token (demo_uuid 1) 0 demo_token"

lemma demo_material_unique: "refresh_token_unique [demo_claimed, token_record demo_material]"
  using demo_uuids_differ by (simp add: refresh_token_unique_def claimed_token_def token_record_def demo_material_def demo_token_def demo_hashes)

lemma demo_find: "findRefreshTokenByHash mem_auth (hashRefreshToken mem_auth [65]) (demo_auth [demo_token]) = (Inr (Some demo_token), demo_auth [demo_token])"
  by (simp add: findRefreshTokenByHash_def hashRefreshToken_def mem_auth_def mem_collection_def demo_auth_def demo_token_def demo_hashes)

lemma demo_rotated_material: "createRotatedRefreshTokenMaterial mem_auth demo_token 0 (demo_auth ts) = (Inr demo_material, (fst (demo_auth ts), 2))"
  by (simp add: createRotatedRefreshTokenMaterial_def createRefreshTokenMaterial_def act_simps draw_def mem_auth_def Let_def demo_auth_def
      demo_material_def demo_token_def hashRefreshToken_def demo_raw_def REFRESH_TOKEN_BYTES_def)

lemma demo_claim_run:
  "claimRefreshTokenForRotation mem_auth (rt_tokenId demo_token) (rt_orgId demo_token) (rm_tokenId demo_material) 0 (fst (demo_auth [demo_token]), k)
     = (Inr (Some demo_claimed), (fst (demo_auth [demo_claimed]), k))"
  by (simp add: claimRefreshTokenForRotation_def mem_auth_def mem_collection_def demo_auth_def claimable_def demo_token_def put_tokens_def
      claimed_token_def demo_material_def)

lemma demo_lookups:
  "findOrganisationByOrgId mem_auth (demo_uuid 1) (fst (demo_auth ts), k) = (Inr (Some demo_organisation), (fst (demo_auth ts), k))"
  "findUserByOrgIdAndUserId mem_auth (demo_uuid 1) (demo_uuid 2) (fst (demo_auth ts), k) = (Inr (Some demo_user), (fst (demo_auth ts), k))"
  by (simp_all add: findOrganisationByOrgId_def findUserByOrgIdAndUserId_def mem_auth_def mem_collection_def demo_auth_def
      demo_organisation_def demo_user_def)

lemma demo_persist_replacement:
  "persistReplacementRefreshToken mem_auth demo_material (fst (demo_auth [demo_claimed]), k)
     = (Inr (), (fst (demo_auth [demo_claimed, token_record demo_material]), k))"
  using demo_material_valid demo_material_unique
  by (simp add: persistReplacementRefreshToken_def mem_auth_def mem_collection_def demo_auth_def put_tokens_def)

lemma demo_sign: "\<exists>a. createAccessToken mem_auth i (d, k) = (Inr a, (d, Suc k))"
  by (simp add: createAccessToken_def signAccessToken_def act_simps draw_def mem_auth_def Let_def)

lemma demo_token_ids: "rt_orgId demo_token = demo_uuid 1" "rt_userId demo_token = demo_uuid 2"
  by (simp_all add: demo_token_def)

lemma demo_active: "og_status demo_organisation = org_ACTIVE" "usr_status demo_user = user_ACTIVE"
  by (simp_all add: demo_organisation_def demo_user_def)

lemma demo_rotation:
  "\<exists>x w. refreshSession mem_auth [65] ctx (demo_auth [demo_token]) = (Inr x, w)"
proof -
  obtain a where a: "createAccessToken mem_auth (access_input demo_user (demo_uuid 1) (rt_sessionId demo_token))
      (fst (demo_auth [demo_claimed, token_record demo_material]), 2) = (Inr a, (fst (demo_auth [demo_claimed, token_record demo_material]), Suc 2))"
    using demo_sign by blast
  have p: "\<exists>x w. refresh_claimed mem_auth demo_token demo_material (fst (demo_auth [demo_claimed]), 2) = (Inr x, w)"
    by (simp add: refresh_claimed_def refresh_replace_def refresh_access_def act_bind_apply attempt_def demo_token_ids demo_lookups
        demo_active demo_persist_replacement a del: One_nat_def)
  have now: "au_now mem_auth (demo_auth [demo_token]) = 0" "rt_usedAt demo_token = None" "rt_revokedAt demo_token = None" "rt_expiresAt demo_token = 100"
    by (simp_all add: mem_auth_def demo_auth_def demo_token_def)
  show ?thesis using p
    by (simp add: refreshSession_def refresh_rotate_def act_bind_apply or_throw_def demo_find now demo_rotated_material demo_claim_run
        del: One_nat_def)
qed

lemma demo_unique: "refresh_token_unique [t]"
  by (simp add: refresh_token_unique_def)

lemma demo_digest_valid: "sha256_hex_pattern (demo_digest bs)"
  unfolding demo_digest_def using demo_hash_valid by simp

definition demo_login :: LoginInput where
  "demo_login = \<lparr>li_organisationSlug = [97, 98], li_emailNormalized = [97], li_password = [112]\<rparr>"

lemma demo_verify:
  "verifyPassword mem_auth ''$argon2id$v=19'' [112] w = (Inr True, ((fst w)\<lparr>as_verifications := Suc (as_verifications (fst w))\<rparr>, snd w))"
  by (simp add: verifyPassword_def Let_def act_catch_apply mem_auth_def MAX_PASSWORD_CODE_POINTS_def)

lemma demo_session:
  assumes "as_tokens (fst w) = []"
  shows "\<exists>x w'. login_session mem_auth demo_organisation demo_user None w = (Inr x, w')"
proof -
  obtain m d k where m: "(createInitialRefreshTokenMaterial mem_auth (og_orgId demo_organisation) (usr_userId demo_user)
      :: (auth_world, exn, RefreshTokenMaterial) act) w = (Inr m, (d, k))"
    "as_tokens d = []" "refresh_token_valid (token_record m)"
    using assms demo_digest_valid
    by (simp add: createInitialRefreshTokenMaterial_def createRefreshTokenMaterial_def act_simps draw_def mem_auth_def Let_def
        refresh_token_valid_def token_record_def demo_uuid_valid hashRefreshToken_def demo_organisation_def demo_user_def)
  have p: "persistInitialRefreshToken mem_auth m (d, k) = (Inr (), put_tokens (\<lambda>_. [token_record m]) (d, k))"
    using m(2,3) demo_unique by (simp add: persistInitialRefreshToken_def mem_auth_def mem_collection_def put_tokens_def)
  obtain a where a: "createAccessToken mem_auth (access_input demo_user (og_orgId demo_organisation) (rm_sessionId m))
      (put_tokens (\<lambda>_. [token_record m]) (d, k)) = (Inr a, (fst (put_tokens (\<lambda>_. [token_record m]) (d, k)), Suc k))"
    using demo_sign [of _ "fst (put_tokens (\<lambda>_. [token_record m]) (d, k))" k] by (auto simp: put_tokens_def)
  show ?thesis
    by (simp add: login_session_def act_bind_apply act_then_apply or_throw_def m(1) p a recordSuccessBestEffort_def best_effort_def
        auditBestEffort_def)
qed

lemma demo_logged_in: "\<exists>x w. login mem_auth demo_login None (demo_auth []) = (Inr x, w)"
proof -
  let ?w = "((fst (demo_auth []))\<lparr>as_verifications := Suc (as_verifications (fst (demo_auth [])))\<rparr>, snd (demo_auth []))"
  obtain x w where s: "login_session mem_auth demo_organisation demo_user None ?w = (Inr x, w)"
    using demo_session [of ?w] by (auto simp: demo_auth_def)
  have g: "findOrganisationForLogin mem_auth (li_organisationSlug demo_login) (demo_auth []) = (Inr (Some demo_organisation), demo_auth [])"
    and u: "findUserForLogin mem_auth (og_orgId demo_organisation) (li_emailNormalized demo_login) (demo_auth []) = (Inr (Some demo_user), demo_auth [])"
    by (simp_all add: findOrganisationForLogin_def findUserForLogin_def mem_auth_def mem_collection_def demo_auth_def demo_login_def
        demo_organisation_def demo_user_def)
  have h: "usr_passwordHash demo_user = ''$argon2id$v=19''" "li_password demo_login = [112]" by (simp_all add: demo_user_def demo_login_def)
  have "login_user mem_auth demo_organisation demo_user [112] None (demo_auth []) = (Inr x, w)"
    unfolding login_user_def by (simp only: act_bind_apply attempt_def h demo_verify prod.case sum.case option.case demo_active HOL.simp_thms if_False s)
  then show ?thesis
    by (simp add: login_def login_organisation_def act_bind_apply or_throw_def g u demo_active h)
qed

theorem login_contract_witness:
  "\<exists>x w. login mem_auth demo_login None (demo_auth []) = (Inr x, w)
     \<and> login_granted mem_auth demo_login (auth_data mem_auth mem_verifications (demo_auth [])) (auth_data mem_auth mem_verifications w) x"
proof -
  obtain x w where r: "login mem_auth demo_login None (demo_auth []) = (Inr x, w)" using demo_logged_in by blast
  with login_contract [OF mem_auth_laws r] show ?thesis by auto
qed

theorem refresh_token_single_use_witness:
  "\<exists>x w. refreshSession mem_auth [65] None (demo_auth [demo_token]) = (Inr x, w)
     \<and> refresh_granted mem_auth [65] (auth_data mem_auth mem_verifications (demo_auth [demo_token])) (auth_data mem_auth mem_verifications w) x"
proof -
  have u: "refresh_token_unique (as_tokens (auth_data mem_auth mem_verifications (demo_auth [demo_token])))"
    by (simp add: mem_auth_data demo_auth_def demo_unique)
  obtain x w where r: "refreshSession mem_auth [65] None (demo_auth [demo_token]) = (Inr x, w)" using demo_rotation by blast
  with refresh_token_single_use [OF mem_auth_laws u r] show ?thesis by blast
qed

definition demo_spent :: RefreshToken where
  "demo_spent = demo_token\<lparr>rt_usedAt := Some 0, rt_replacedByTokenId := Some (demo_uuid 0)\<rparr>"

lemma demo_spent_found:
  "rt_tokenHash demo_spent = hashRefreshToken mem_auth [65]" "rt_usedAt demo_spent = Some 0"
  "findRefreshTokenByHash mem_auth (hashRefreshToken mem_auth [65]) (fst (demo_auth [demo_spent]), k)
     = (Inr (Some demo_spent), (fst (demo_auth [demo_spent]), k))"
  "revokeRefreshTokenFamily mem_auth demo_spent now (fst (demo_auth [demo_spent]), k)
     = (Inr (), (fst (demo_auth [demo_spent\<lparr>rt_revokedAt := Some now\<rparr>]), k))"
proof -
  show h: "rt_tokenHash demo_spent = hashRefreshToken mem_auth [65]" and "rt_usedAt demo_spent = Some 0"
    by (simp_all add: demo_spent_def demo_token_def hashRefreshToken_def mem_auth_def demo_hashes)
  show "findRefreshTokenByHash mem_auth (hashRefreshToken mem_auth [65]) (fst (demo_auth [demo_spent]), k)
     = (Inr (Some demo_spent), (fst (demo_auth [demo_spent]), k))"
    using h by (simp add: findRefreshTokenByHash_def mem_auth_def mem_collection_def demo_auth_def)
  have "rt_revokedAt demo_spent = None" by (simp add: demo_spent_def demo_token_def)
  then show "revokeRefreshTokenFamily mem_auth demo_spent now (fst (demo_auth [demo_spent]), k)
     = (Inr (), (fst (demo_auth [demo_spent\<lparr>rt_revokedAt := Some now\<rparr>]), k))"
    by (simp add: revokeRefreshTokenFamily_def mem_auth_def demo_auth_def put_tokens_def of_family_def)
qed

text \<open>The replaced token of the demonstration was used at time 0: three seconds later its reuse counts as
  a lost answer, nine seconds later it ends the family.\<close>

theorem reuse_revokes_family_witness:
  "fst (refreshSession mem_auth [65] None (fst (demo_auth [demo_spent]), 3000)) = Inl RefreshConcurrencyError
   \<and> (\<exists>w. refreshSession mem_auth [65] None (fst (demo_auth [demo_spent]), 9000) = (Inl invalidRefreshToken, w)
       \<and> family_ended demo_spent (fst (demo_auth [demo_spent])) (fst w))"
proof -
  let ?w = "\<lambda>k. (fst (demo_auth [demo_spent]), k :: nat)"
  have d: "demo_spent \<in> set (as_tokens (auth_data mem_auth mem_verifications (?w k)))"
    and u: "refresh_token_unique (as_tokens (auth_data mem_auth mem_verifications (?w k)))" for k
    by (simp_all add: mem_auth_data demo_auth_def demo_unique)
  have rep: "rt_replacedByTokenId demo_spent \<noteq> None" by (simp add: demo_spent_def)
  have now: "au_now mem_auth (?w k) = int k" for k by (simp add: mem_auth_def)
  obtain r w where r: "refreshSession mem_auth [65] None (?w 3000) = (r, w)" by (rule prod.exhaust)
  have "fst (refreshSession mem_auth [65] None (?w 3000)) = Inl RefreshConcurrencyError"
    using reuse_revokes_family [OF mem_auth_laws u d demo_spent_found(1-3) r] rep by (simp add: r now)
  moreover obtain r' w' where r': "refreshSession mem_auth [65] None (?w 9000) = (r', w')" by (rule prod.exhaust)
  have "r' = Inl invalidRefreshToken \<and> family_ended demo_spent (fst (demo_auth [demo_spent])) (fst w')"
    using reuse_revokes_family [OF mem_auth_laws u d demo_spent_found(1-3) r'] by (simp add: now demo_spent_found(4) mem_auth_data)
  ultimately show ?thesis using r' by blast
qed

theorem logout_ends_session_witness:
  "\<exists>w u. logoutSession mem_auth (Some [65]) None (demo_auth [demo_token]) = (Inr (), w) \<and> u \<in> set (as_tokens (fst w))
     \<and> family_ended demo_token (auth_data mem_auth mem_verifications (demo_auth [demo_token])) (auth_data mem_auth mem_verifications w)
     \<and> fst (refreshSession mem_auth [65] None w) \<noteq> Inr x"
proof -
  let ?u = "demo_token\<lparr>rt_revokedAt := Some 0\<rparr>"
  have d: "as_tokens (auth_data mem_auth mem_verifications (demo_auth ts)) = ts" for ts by (simp add: mem_auth_data demo_auth_def)
  have t: "rt_tokenHash demo_token = hashRefreshToken mem_auth [65]" "rt_revokedAt demo_token = None"
    by (simp_all add: demo_token_def hashRefreshToken_def mem_auth_def demo_hashes)
  have v: "revokeRefreshTokenFamily mem_auth demo_token 0 (demo_auth [demo_token]) = (Inr (), demo_auth [?u])"
    by (simp add: revokeRefreshTokenFamily_def mem_auth_def demo_auth_def put_tokens_def of_family_def t(2))
  have now: "au_now mem_auth (demo_auth ts) = 0" for ts by (simp add: mem_auth_def demo_auth_def)
  have r: "logoutSession mem_auth (Some [65]) None (demo_auth [demo_token]) = (Inr (), demo_auth [?u])"
    by (simp add: logoutSession_def act_bind_apply act_then_apply or_throw_def demo_find now v auditBestEffort_def)
  have "family_ended demo_token (auth_data mem_auth mem_verifications (demo_auth [demo_token])) (auth_data mem_auth mem_verifications (demo_auth [?u]))
      \<and> fst (refreshSession mem_auth [65] None (demo_auth [?u])) \<noteq> Inr x"
    by (rule logout_ends_session [where t = demo_token and u = ?u, OF mem_auth_laws _ _ _ t(1) r _ _ _ refl]) (simp_all add: d demo_unique t of_family_def)
  moreover have "?u \<in> set (as_tokens (fst (demo_auth [?u])))" by (simp add: demo_auth_def)
  ultimately show ?thesis using r by blast
qed

end
