(* ===== verification/AuthSessions.thy ===== *)
theory AuthSessions
  imports AuthProperties
begin

text \<open>
  Logins, refreshes and logouts of many requests at the same time. The state is the stored refresh
  tokens, the replacements that are claimed but not yet stored, and the family identifiers ever
  drawn; each step is one database operation of \<^verbatim>\<open>auth.service.ts\<close>, in any order.
\<close>

section \<open>Steps\<close>

record session_state =
  ss_tokens :: "RefreshToken list"
  ss_pending :: "RefreshTokenMaterial list"
  ss_families :: "string list"

definition rotated_from :: "RefreshToken \<Rightarrow> RefreshTokenMaterial \<Rightarrow> bool" where
  "rotated_from t m \<longleftrightarrow> rm_familyId m = rt_familyId t \<and> rm_sessionId m = rt_sessionId t \<and> rm_orgId m = rt_orgId t \<and> rm_userId m = rt_userId t"

text \<open>\<open>step_login\<close> stores the first token of a family with a new identifier; \<open>step_claim\<close> is
  \<^verbatim>\<open>claimRefreshTokenForRotation\<close>, \<open>step_persist\<close> \<^verbatim>\<open>persistReplacementRefreshToken\<close>; a request that
  fails between them abandons its replacement; \<open>step_revoke\<close> is \<^verbatim>\<open>revokeRefreshTokenFamily\<close>, whoever
  calls it, complete or not; \<open>step_expire\<close> is the removal of an expired token by the TTL index.\<close>

inductive session_step :: "session_state \<Rightarrow> session_state \<Rightarrow> bool" where
  step_login: "rm_familyId m \<notin> set fs \<Longrightarrow> refresh_token_unique (ts @ [token_record m])
    \<Longrightarrow> session_step \<lparr>ss_tokens = ts, ss_pending = ps, ss_families = fs\<rparr>
          \<lparr>ss_tokens = ts @ [token_record m], ss_pending = ps, ss_families = rm_familyId m # fs\<rparr>"
| step_claim: "claimable (rt_tokenId t) (rt_orgId t) now t \<Longrightarrow> rotated_from t m
    \<Longrightarrow> session_step \<lparr>ss_tokens = xs @ t # ys, ss_pending = ps, ss_families = fs\<rparr>
          \<lparr>ss_tokens = xs @ claimed_token (rm_tokenId m) now t # ys, ss_pending = m # ps, ss_families = fs\<rparr>"
| step_persist: "refresh_token_unique (ts @ [token_record m])
    \<Longrightarrow> session_step \<lparr>ss_tokens = ts, ss_pending = ps @ m # qs, ss_families = fs\<rparr>
          \<lparr>ss_tokens = ts @ [token_record m], ss_pending = ps @ qs, ss_families = fs\<rparr>"
| step_abandon: "session_step \<lparr>ss_tokens = ts, ss_pending = ps @ m # qs, ss_families = fs\<rparr>
          \<lparr>ss_tokens = ts, ss_pending = ps @ qs, ss_families = fs\<rparr>"
| step_revoke: "revoked_some t ts ts' \<Longrightarrow> session_step \<lparr>ss_tokens = ts, ss_pending = ps, ss_families = fs\<rparr>
          \<lparr>ss_tokens = ts', ss_pending = ps, ss_families = fs\<rparr>"
| step_expire: "session_step \<lparr>ss_tokens = xs @ t # ys, ss_pending = ps, ss_families = fs\<rparr>
          \<lparr>ss_tokens = xs @ ys, ss_pending = ps, ss_families = fs\<rparr>"

abbreviation session_steps :: "session_state \<Rightarrow> session_state \<Rightarrow> bool" where
  "session_steps \<equiv> session_step\<^sup>*\<^sup>*"

text \<open>The operations are runs of steps: a refresh that succeeds claims and persists, a login
  that succeeds starts a family, a logout revokes one.\<close>

abbreviation session_of :: "auth_store \<Rightarrow> RefreshTokenMaterial list \<Rightarrow> string list \<Rightarrow> session_state" where
  "session_of d ps fs \<equiv> \<lparr>ss_tokens = as_tokens d, ss_pending = ps, ss_families = fs\<rparr>"

lemma refresh_is_steps:
  assumes "refresh_granted V raw d d' x"
  shows "session_steps (session_of d ps fs) (session_of d' ps fs)"
proof -
  obtain xs t ys now m where t: "as_tokens d = xs @ t # ys" "rt_usedAt t = None" "rt_revokedAt t = None" "now < rt_expiresAt t"
    "rotated_from t m" "d' = d\<lparr>as_tokens := xs @ claimed_token (rm_tokenId m) now t # ys @ [token_record m]\<rparr>"
    "refresh_token_unique (as_tokens d')"
    using assms unfolding refresh_granted_def rotated_from_def by (elim exE conjE) blast
  have "session_step \<lparr>ss_tokens = xs @ t # ys, ss_pending = ps, ss_families = fs\<rparr>
      \<lparr>ss_tokens = xs @ claimed_token (rm_tokenId m) now t # ys, ss_pending = m # ps, ss_families = fs\<rparr>"
    by (rule step_claim) (use t in \<open>simp_all add: claimable_def\<close>)
  moreover have "session_step \<lparr>ss_tokens = xs @ claimed_token (rm_tokenId m) now t # ys, ss_pending = [] @ m # ps, ss_families = fs\<rparr>
      \<lparr>ss_tokens = (xs @ claimed_token (rm_tokenId m) now t # ys) @ [token_record m], ss_pending = [] @ ps, ss_families = fs\<rparr>"
    by (rule step_persist) (use t in simp)
  ultimately show ?thesis unfolding t(1,6) by (simp add: rtranclp.rtrancl_into_rtrancl)
qed

lemma login_is_step:
  assumes "login_granted V i d d' x" and "\<And>m. as_tokens d' = as_tokens d @ [token_record m] \<Longrightarrow> rm_familyId m \<notin> set fs"
  shows "\<exists>f. session_step (session_of d ps fs) (session_of d' ps (f # fs))"
proof -
  obtain m where m: "as_tokens d' = as_tokens d @ [token_record m]" "refresh_token_unique (as_tokens d')"
    using assms(1) unfolding login_granted_def by blast
  have "session_step (session_of d ps fs) (session_of d' ps (rm_familyId m # fs))"
    unfolding m(1) by (rule step_login [OF assms(2) [OF m(1)] m(2) [unfolded m(1)]])
  then show ?thesis by blast
qed

lemma logout_is_step: "family_ended t d d' \<Longrightarrow> session_step (session_of d ps fs) (session_of d' ps fs)"
  unfolding family_ended_def by (blast intro: step_revoke)

section \<open>One token at a time\<close>

definition unused_of :: "string \<Rightarrow> RefreshToken list \<Rightarrow> nat" where
  "unused_of f ts = length (filter (\<lambda>t. rt_familyId t = f \<and> rt_usedAt t = None) ts)"

definition pending_of :: "string \<Rightarrow> RefreshTokenMaterial list \<Rightarrow> nat" where
  "pending_of f ps = length (filter (\<lambda>m. rm_familyId m = f) ps)"

lemma unused_simps [simp]:
  "unused_of f [] = 0" "unused_of f (ts @ us) = unused_of f ts + unused_of f us"
  "unused_of f (t # ts) = (if rt_familyId t = f \<and> rt_usedAt t = None then 1 else 0) + unused_of f ts"
  by (simp_all add: unused_of_def)

lemma pending_simps [simp]:
  "pending_of f [] = 0" "pending_of f (ps @ qs) = pending_of f ps + pending_of f qs"
  "pending_of f (m # ps) = (if rm_familyId m = f then 1 else 0) + pending_of f ps"
  by (simp_all add: pending_of_def)

lemma token_record_fields [simp]:
  "rt_familyId (token_record m) = rm_familyId m" "rt_usedAt (token_record m) = None" "rt_revokedAt (token_record m) = None"
  by (simp_all add: token_record_def)

lemma claimed_token_fields [simp]:
  "rt_familyId (claimed_token i now t) = rt_familyId t" "rt_usedAt (claimed_token i now t) = Some now"
  "rt_revokedAt (claimed_token i now t) = rt_revokedAt t"
  by (simp_all add: claimed_token_def)

lemma revoked_unused: "revoked_some t ts ts' \<Longrightarrow> unused_of f ts' = unused_of f ts"
  unfolding revoked_some_def by (induction rule: list_all2_induct) auto

lemma revoked_families: "revoked_some t ts ts' \<Longrightarrow> rt_familyId ` set ts' = rt_familyId ` set ts"
  unfolding revoked_some_def by (induction rule: list_all2_induct) auto

inductive session_reachable :: "session_state \<Rightarrow> bool" where
  reach_empty: "session_reachable \<lparr>ss_tokens = [], ss_pending = [], ss_families = []\<rparr>"
| reach_step: "session_reachable st \<Longrightarrow> session_step st st' \<Longrightarrow> session_reachable st'"

text \<open>Only families that were drawn have tokens, and each at most one that is unused.\<close>

definition session_invariant :: "session_state \<Rightarrow> bool" where
  "session_invariant st \<longleftrightarrow> rt_familyId ` set (ss_tokens st) \<subseteq> set (ss_families st)
     \<and> rm_familyId ` set (ss_pending st) \<subseteq> set (ss_families st)
     \<and> (\<forall>f. unused_of f (ss_tokens st) + pending_of f (ss_pending st) \<le> 1)"

lemma unknown_family: "rt_familyId ` set ts \<subseteq> fs \<Longrightarrow> f \<notin> fs \<Longrightarrow> unused_of f ts = 0"
  "rm_familyId ` set ps \<subseteq> fs \<Longrightarrow> f \<notin> fs \<Longrightarrow> pending_of f ps = 0"
  by (auto simp: unused_of_def pending_of_def filter_empty_conv)

lemma session_step_invariant:
  assumes "session_step st st'" and "session_invariant st"
  shows "session_invariant st'"
  using assms
proof cases
  case (step_login m fs ts ps)
  have "unused_of (rm_familyId m) ts = 0" "pending_of (rm_familyId m) ps = 0"
    using unknown_family assms(2) step_login by (auto simp: session_invariant_def)
  then show ?thesis using assms(2) step_login by (auto simp: session_invariant_def)
next
  case (step_claim t now m xs ys ps fs)
  have "unused_of f (xs @ claimed_token (rm_tokenId m) now t # ys) + pending_of f (m # ps)
      = unused_of f (xs @ t # ys) + pending_of f ps" for f
    using step_claim by (simp add: claimable_def rotated_from_def)
  then show ?thesis using assms(2) step_claim by (auto simp: session_invariant_def rotated_from_def simp del: unused_simps pending_simps)
next
  case (step_persist ts m ps qs fs)
  have "unused_of f (ts @ [token_record m]) + pending_of f (ps @ qs) = unused_of f ts + pending_of f (ps @ m # qs)" for f by simp
  then show ?thesis using assms(2) step_persist by (auto simp: session_invariant_def simp del: unused_simps pending_simps)
next
  case (step_abandon ts ps m qs fs)
  have "unused_of f ts + pending_of f (ps @ m # qs) \<le> 1" for f
    using assms(2) unfolding session_invariant_def step_abandon(1) by simp
  note bound = this
  have "unused_of f ts + pending_of f (ps @ qs) \<le> 1" for f by (rule le_trans [OF _ bound [of f]]) simp
  then show ?thesis using assms(2) step_abandon unfolding session_invariant_def by (intro conjI allI) simp_all
next
  case (step_revoke t ts ts' ps fs)
  then show ?thesis using assms(2) revoked_unused revoked_families by (simp add: session_invariant_def)
next
  case (step_expire xs t ys ps fs)
  have "unused_of f (xs @ t # ys) + pending_of f ps \<le> 1" for f
    using assms(2) unfolding session_invariant_def step_expire(1) by simp
  note bound = this
  have "unused_of f (xs @ ys) + pending_of f ps \<le> 1" for f by (rule le_trans [OF _ bound [of f]]) simp
  then show ?thesis using assms(2) step_expire unfolding session_invariant_def by (intro conjI allI) simp_all
qed

section \<open>Revocation\<close>

definition family_dead :: "string \<Rightarrow> session_state \<Rightarrow> bool" where
  "family_dead f st \<longleftrightarrow> f \<in> set (ss_families st)
     \<and> (\<forall>t \<in> set (ss_tokens st). rt_familyId t = f \<longrightarrow> rt_revokedAt t \<noteq> None) \<and> (\<forall>m \<in> set (ss_pending st). rm_familyId m \<noteq> f)"

lemma revoked_some_dead:
  assumes "revoked_some t ts ts'"
  shows "\<forall>u \<in> set ts. rt_familyId u = f \<longrightarrow> rt_revokedAt u \<noteq> None \<Longrightarrow> \<forall>u \<in> set ts'. rt_familyId u = f \<longrightarrow> rt_revokedAt u \<noteq> None"
proof -
  have l: "list_all2 (\<lambda>u u'. rt_familyId u' = rt_familyId u \<and> (rt_revokedAt u \<noteq> None \<longrightarrow> rt_revokedAt u' \<noteq> None)) ts ts'"
    by (rule list_all2_mono [OF assms [unfolded revoked_some_def]]) (elim disjE conjE exE; hypsubst; simp)
  show "\<forall>u \<in> set ts. rt_familyId u = f \<longrightarrow> rt_revokedAt u \<noteq> None \<Longrightarrow> \<forall>u \<in> set ts'. rt_familyId u = f \<longrightarrow> rt_revokedAt u \<noteq> None"
    using l by (induction rule: list_all2_induct) auto
qed

lemma step_dead:
  assumes "session_step st st'" and "family_dead f st"
  shows "family_dead f st'"
  using assms
proof cases
  case (step_claim t now m xs ys ps fs)
  then show ?thesis using assms(2) by (auto simp: family_dead_def claimable_def rotated_from_def)
next
  case (step_revoke t ts ts' ps fs)
  then have "\<forall>u \<in> set ts. rt_familyId u = f \<longrightarrow> rt_revokedAt u \<noteq> None" using assms(2) by (simp add: family_dead_def)
  from revoked_some_dead [OF step_revoke(3) this] show ?thesis
    using assms(2) unfolding family_dead_def step_revoke(1,2) by (simp only: session_state.simps) blast
qed (auto simp: family_dead_def)

section \<open>Properties\<close>

text \<open>C6. One token at a time, under any interleaving: in every reachable state a token family has at
  most one token that is unused, counting the replacements that are claimed but not yet stored; so of
  any number of concurrent refreshes with the same token at most one is ever answered with a
  successor.\<close>

theorem one_unused_token_per_family:
  assumes "session_reachable st"
  shows "unused_of f (ss_tokens st) + pending_of f (ss_pending st) \<le> 1"
proof -
  have "session_invariant st" using assms
  proof (induction rule: session_reachable.induct)
    case reach_empty
    then show ?case by (simp add: session_invariant_def)
  qed (rule session_step_invariant)
  then show ?thesis unfolding session_invariant_def by blast
qed

text \<open>C15. A revoked family stays dead: once all its tokens are revoked and no rotation of it is in
  flight, no sequence of logins, refreshes and logouts of any requests makes one of its tokens
  usable again.\<close>

theorem revoked_family_stays_dead:
  assumes "session_steps st st'" and "family_dead f st"
  shows "family_dead f st' \<and> (\<forall>t \<in> set (ss_tokens st'). rt_familyId t = f \<longrightarrow> \<not> claimable (rt_tokenId t) (rt_orgId t) now t)"
proof -
  have "family_dead f st'" using assms by (induction rule: rtranclp_induct) (auto intro: step_dead)
  then show ?thesis by (auto simp: family_dead_def claimable_def)
qed

section \<open>A logout during a rotation\<close>

abbreviation demo_revoked :: RefreshToken where
  "demo_revoked \<equiv> demo_claimed\<lparr>rt_revokedAt := Some 1\<rparr>"

lemma demo_revoked_unique: "refresh_token_unique [demo_revoked, token_record demo_material]"
  using demo_material_unique by (simp add: refresh_token_unique_def)

definition demo_first :: RefreshTokenMaterial where
  "demo_first = \<lparr>rm_tokenId = demo_uuid 0, rm_sessionId = demo_uuid 0, rm_familyId = demo_uuid 0, rm_orgId = demo_uuid 1,
     rm_userId = demo_uuid 2, rm_tokenHash = demo_digest [65], rm_rawToken = [65], rm_expiresAt = 100\<rparr>"

lemma demo_first_token: "token_record demo_first = demo_token" "rm_familyId demo_first = demo_uuid 0"
  by (simp_all add: token_record_def demo_first_def demo_token_def)

abbreviation demo_sessions :: "RefreshToken list \<Rightarrow> RefreshTokenMaterial list \<Rightarrow> session_state" where
  "demo_sessions ts ps \<equiv> \<lparr>ss_tokens = ts, ss_pending = ps, ss_families = [demo_uuid 0]\<rparr>"

lemma demo_steps:
  "session_step \<lparr>ss_tokens = [], ss_pending = [], ss_families = []\<rparr> (demo_sessions [demo_token] [])"
  "session_step (demo_sessions [demo_token] []) (demo_sessions [demo_claimed] [demo_material])"
  "session_step (demo_sessions [demo_claimed] [demo_material]) (demo_sessions [demo_revoked] [demo_material])"
  "session_step (demo_sessions [demo_revoked] [demo_material]) (demo_sessions [demo_revoked, token_record demo_material] [])"
proof -
  show "session_step \<lparr>ss_tokens = [], ss_pending = [], ss_families = []\<rparr> (demo_sessions [demo_token] [])"
    using step_login [of demo_first "[]" "[]" "[]"] by (simp add: demo_first_token demo_unique)
  have "claimable (rt_tokenId demo_token) (rt_orgId demo_token) 0 demo_token" "rotated_from demo_token demo_material"
    "rm_tokenId demo_material = demo_uuid 1"
    by (simp_all add: claimable_def rotated_from_def demo_token_def demo_material_def)
  from step_claim [OF this(1,2), of "[]" "[]" "[]"] this(3)
  show "session_step (demo_sessions [demo_token] []) (demo_sessions [demo_claimed] [demo_material])" by (simp del: One_nat_def)
  have "revoked_some demo_token [demo_claimed] [demo_revoked]"
    by (auto simp: revoked_some_def of_family_def claimed_token_def demo_token_def)
  then show "session_step (demo_sessions [demo_claimed] [demo_material]) (demo_sessions [demo_revoked] [demo_material])" by (rule step_revoke)
  show "session_step (demo_sessions [demo_revoked] [demo_material]) (demo_sessions [demo_revoked, token_record demo_material] [])"
    using step_persist [of "[demo_revoked]" demo_material "[]" "[]"] demo_revoked_unique by simp
qed

text \<open>The condition on rotations in flight is needed: a logout that revokes the whole family between
  the claim and the storing of the replacement leaves a token of that family that can be refreshed.\<close>

lemma logout_races_rotation:
  "\<exists>st st' t. session_reachable st \<and> (\<forall>u \<in> set (ss_tokens st). rt_familyId u = rt_familyId t \<longrightarrow> rt_revokedAt u \<noteq> None)
     \<and> (\<exists>u \<in> set (ss_tokens st). same_family t u) \<and> session_step st st' \<and> ss_pending st' = []
     \<and> t \<in> set (ss_tokens st') \<and> claimable (rt_tokenId t) (rt_orgId t) 1 t"
proof (intro exI conjI)
  show "session_reachable (demo_sessions [demo_revoked] [demo_material])"
    using demo_steps(1-3) by (blast intro: session_reachable.intros)
  show "session_step (demo_sessions [demo_revoked] [demo_material]) (demo_sessions [demo_revoked, token_record demo_material] [])" by (rule demo_steps(4))
  show "token_record demo_material \<in> set (ss_tokens (demo_sessions [demo_revoked, token_record demo_material] []))" by simp
  show "claimable (rt_tokenId (token_record demo_material)) (rt_orgId (token_record demo_material)) 1 (token_record demo_material)"
    by (simp add: claimable_def token_record_def demo_material_def)
  show "\<exists>u \<in> set (ss_tokens (demo_sessions [demo_revoked] [demo_material])). same_family (token_record demo_material) u"
    by (simp add: of_family_def token_record_def demo_material_def demo_token_def claimed_token_def)
qed simp_all

theorem one_unused_token_per_family_witness:
  "session_reachable (demo_sessions [demo_claimed] [demo_material]) \<and> pending_of (demo_uuid 0) [demo_material] = 1
     \<and> unused_of (demo_uuid 0) [demo_claimed] = 0"
proof -
  have r: "session_reachable (demo_sessions [demo_claimed] [demo_material])" using demo_steps(1,2) by (blast intro: session_reachable.intros)
  have "pending_of (demo_uuid 0) [demo_material] = 1" by (simp add: demo_material_def)
  with one_unused_token_per_family [OF r, of "demo_uuid 0"] r show ?thesis by simp
qed

abbreviation demo_other :: RefreshTokenMaterial where
  "demo_other \<equiv> demo_material\<lparr>rm_familyId := demo_uuid 2\<rparr>"

theorem revoked_family_stays_dead_witness:
  "session_steps (demo_sessions [demo_token\<lparr>rt_revokedAt := Some 1\<rparr>] [])
      \<lparr>ss_tokens = [demo_token\<lparr>rt_revokedAt := Some 1\<rparr>, token_record demo_other], ss_pending = [], ss_families = [demo_uuid 2, demo_uuid 0]\<rparr>
     \<and> \<not> claimable (demo_uuid 0) (demo_uuid 1) 5 (demo_token\<lparr>rt_revokedAt := Some 1\<rparr>)"
proof -
  have "refresh_token_unique ([demo_token\<lparr>rt_revokedAt := Some 1\<rparr>] @ [token_record demo_other])" "rm_familyId demo_other \<notin> set [demo_uuid 0]"
    by (simp_all add: refresh_token_unique_def token_record_def demo_material_def demo_token_def demo_hashes) (simp_all add: demo_uuid_def)
  from step_login [OF this(2,1), of "[]"]
  have s: "session_steps (demo_sessions [demo_token\<lparr>rt_revokedAt := Some 1\<rparr>] [])
      \<lparr>ss_tokens = [demo_token\<lparr>rt_revokedAt := Some 1\<rparr>, token_record demo_other], ss_pending = [], ss_families = [demo_uuid 2, demo_uuid 0]\<rparr>" by simp
  have "family_dead (demo_uuid 0) (demo_sessions [demo_token\<lparr>rt_revokedAt := Some 1\<rparr>] [])" by (simp add: family_dead_def demo_token_def)
  from revoked_family_stays_dead [OF s this, of 5] s show ?thesis by (simp add: demo_token_def)
qed

end
