(* ===== verification/Access.thy ===== *)
theory Access
  imports AuthLaws ChatController
begin

text \<open>
  Who may do what: verification of access tokens (\<^verbatim>\<open>auth/token.service.ts\<close>), the middleware
  \<^verbatim>\<open>auth.middleware.ts\<close> and \<^verbatim>\<open>authorization.middleware.ts\<close>, the public demo session
  (its mode), and the routes that guard the chat and the administration. A middleware that calls \<^verbatim>\<open>next(error)\<close> fails with the error. The verification
  of signatures (\<^verbatim>\<open>jwtVerify\<close>) is a parameter that yields payload, algorithm and type.
\<close>

section \<open>Strings\<close>

text \<open>\<^verbatim>\<open>split\<close> at one character and \<^verbatim>\<open>join\<close> with one character.\<close>

fun js_split :: "nat \<Rightarrow> jsstr \<Rightarrow> jsstr list" where
  "js_split c [] = [[]]"
| "js_split c (u # s) = (if u = c then [] # js_split c s else (case js_split c s of [] \<Rightarrow> [[u]] | w # ws \<Rightarrow> (u # w) # ws))"

fun js_join :: "nat \<Rightarrow> jsstr list \<Rightarrow> jsstr" where
  "js_join c [] = []"
| "js_join c [w] = w"
| "js_join c (w # v # ws) = w @ c # js_join c (v # ws)"

section \<open>Access tokens\<close>

definition ACCESS_TOKEN_ALGORITHM :: string where "ACCESS_TOKEN_ALGORITHM = ''HS256''"
definition ACCESS_TOKEN_PROTECTED_TYPE :: string where "ACCESS_TOKEN_PROTECTED_TYPE = ''at+jwt''"

fun user_role_name :: "UserRole \<Rightarrow> string" where
  "user_role_name EMPLOYEE = ''EMPLOYEE''" | "user_role_name TEAM_LEAD = ''TEAM_LEAD''" | "user_role_name ORG_ADMIN = ''ORG_ADMIN''"

fun session_mode_name :: "AuthSessionMode \<Rightarrow> string" where
  "session_mode_name STANDARD = ''STANDARD''" | "session_mode_name PUBLIC_ADMIN_DEMO = ''PUBLIC_ADMIN_DEMO''"

definition session_mode_field :: "json option \<Rightarrow> AuthSessionMode option" where
  "session_mode_field v = (case v of None \<Rightarrow> Some STANDARD
     | Some j \<Rightarrow> if j = JStr (js_lit ''STANDARD'') then Some STANDARD
         else if j = JStr (js_lit ''PUBLIC_ADMIN_DEMO'') then Some PUBLIC_ADMIN_DEMO else None)"

record VerifiedAccessTokenClaims =
  vc_userId :: string
  vc_orgId :: string
  vc_sessionId :: string
  vc_sessionMode :: AuthSessionMode

text \<open>\<^verbatim>\<open>accessTokenPayloadSchema\<close> with the default of an absent mode: a strict object; of its fields
  only the claims that the code goes on with are returned.\<close>

definition token_int :: "json option \<Rightarrow> bool" where
  "token_int v \<longleftrightarrow> (case v of Some (JInt i) \<Rightarrow> is_safe_integer i | _ \<Rightarrow> False)"

definition token_permissions :: "json option \<Rightarrow> bool" where
  "token_permissions v \<longleftrightarrow> (case v of Some (JArr ps) \<Rightarrow> list_all (\<lambda>p. p \<in> (JStr \<circ> js_lit) ` set USER_PERMISSIONS) ps | _ \<Rightarrow> False)"

definition accessTokenPayloadSchema :: "schema_checks \<Rightarrow> json \<Rightarrow> VerifiedAccessTokenClaims option" where
  "accessTokenPayloadSchema Z payload =
     (case payload of
        JObj ps \<Rightarrow>
          (let field = \<lambda>k. map_of ps (js_lit k); is = \<lambda>k s. field k = Some (JStr (js_lit s));
               uuid = \<lambda>k. Option.bind (field k) (string_field (sc_uuid Z))
           in if set (map fst ps) \<subseteq> set (map js_lit [''aud'', ''exp'', ''iat'', ''iss'', ''jti'', ''orgId'', ''permissions'',
                   ''role'', ''sessionId'', ''sessionMode'', ''sub'', ''type''])
                \<and> is ''aud'' ACCESS_TOKEN_AUDIENCE \<and> is ''iss'' ACCESS_TOKEN_ISSUER \<and> is ''type'' ACCESS_TOKEN_TYPE
                \<and> token_int (field ''exp'') \<and> token_int (field ''iat'') \<and> token_permissions (field ''permissions'')
                \<and> (is ''role'' ''EMPLOYEE'' \<or> is ''role'' ''TEAM_LEAD'' \<or> is ''role'' ''ORG_ADMIN'') \<and> uuid ''jti'' \<noteq> None
              then (case (uuid ''sub'', uuid ''orgId'', uuid ''sessionId'', session_mode_field (field ''sessionMode'')) of
                 (Some u, Some g, Some i, Some m) \<Rightarrow> Some \<lparr>vc_userId = plain_text u, vc_orgId = plain_text g,
                     vc_sessionId = plain_text i, vc_sessionMode = m\<rparr>
               | _ \<Rightarrow> None)
              else None)
      | _ \<Rightarrow> None)"

record jwt_options =
  jo_algorithms :: "string list"
  jo_audience :: string
  jo_issuer :: string
  jo_typ :: string

type_synonym 's jwt_verifier = "jsstr \<Rightarrow> jwt_options \<Rightarrow> ('s, exn, json \<times> string \<times> string) act"

definition access_token_options :: jwt_options where
  "access_token_options = \<lparr>jo_algorithms = [ACCESS_TOKEN_ALGORITHM], jo_audience = ACCESS_TOKEN_AUDIENCE,
     jo_issuer = ACCESS_TOKEN_ISSUER, jo_typ = ACCESS_TOKEN_PROTECTED_TYPE\<rparr>"

definition verifyAccessToken ::
  "schema_checks \<Rightarrow> 's jwt_verifier \<Rightarrow> jsstr \<Rightarrow> ('s, exn, VerifiedAccessTokenClaims option) act" where
  "verifyAccessToken Z jwtVerify accessToken =
     act_catch (act_bind (jwtVerify accessToken access_token_options) (\<lambda>(payload, alg, typ).
         if alg \<noteq> ACCESS_TOKEN_ALGORITHM \<or> typ \<noteq> ACCESS_TOKEN_PROTECTED_TYPE then act_ret None
         else act_ret (accessTokenPayloadSchema Z payload)))
       (\<lambda>_. act_ret None)"

section \<open>Authentication\<close>

text \<open>The context of a request; the chat uses its first three fields.\<close>

record RequestAuth = AuthContext +
  ac_permissions :: "string list"
  ac_sessionId :: string
  ac_sessionMode :: AuthSessionMode
  ac_teamId :: "string option"

definition unauthorized :: exn where
  "unauthorized = app_exn 401 ''UNAUTHORIZED'' ''Authentication required.''"

definition forbidden :: exn where
  "forbidden = app_exn 403 ''FORBIDDEN'' ''Access denied.''"

definition extractBearerToken :: "jsstr option \<Rightarrow> jsstr option" where
  "extractBearerToken authorizationHeader =
     (case authorizationHeader of
        None \<Rightarrow> None
      | Some h \<Rightarrow> if h = [] then None
          else (case js_split 32 h of
             [scheme, token] \<Rightarrow> if scheme \<noteq> js_lit ''Bearer'' \<or> token = [] then None else Some token
           | _ \<Rightarrow> None))"

definition request_auth :: "VerifiedAccessTokenClaims \<Rightarrow> User \<Rightarrow> RequestAuth" where
  "request_auth c u = \<lparr>ac_orgId = vc_orgId c, ac_userId = usr_userId u, ac_role = user_role_name (usr_role u),
     ac_permissions = usr_permissions u, ac_sessionId = vc_sessionId c, ac_sessionMode = vc_sessionMode c,
     ac_teamId = usr_teamId u\<rparr>"

definition authenticateRequest ::
  "'s auth_env \<Rightarrow> schema_checks \<Rightarrow> 's jwt_verifier \<Rightarrow> jsstr option \<Rightarrow> ('s, exn, RequestAuth \<times> LoginResponseUser) act" where
  "authenticateRequest V Z jwtVerify authorization =
     (case extractBearerToken authorization of
        None \<Rightarrow> act_throw unauthorized
      | Some accessToken \<Rightarrow>
          act_bind (verifyAccessToken Z jwtVerify accessToken) (\<lambda>claims.
            case claims of
              None \<Rightarrow> act_throw unauthorized
            | Some c \<Rightarrow>
                act_bind (or_throw (act_bind (findUserByOrgIdAndUserId V (vc_orgId c) (vc_userId c)) (\<lambda>u.
                    act_bind (findOrganisationByOrgId V (vc_orgId c)) (\<lambda>g. act_ret (u, g)))) authUnavailable) (\<lambda>(u, g).
                  case (u, g) of
                    (Some user, Some organisation) \<Rightarrow>
                      if usr_status user \<noteq> user_ACTIVE \<or> og_status organisation \<noteq> org_ACTIVE
                         \<or> \<not> list_all (\<lambda>p. p \<in> set USER_PERMISSIONS) (usr_permissions user)
                      then act_throw unauthorized
                      else act_ret (request_auth c user, createSafeAuthProfile user organisation)
                  | _ \<Rightarrow> act_throw unauthorized)))"

section \<open>Authorization\<close>

definition requirePermission :: "string \<Rightarrow> RequestAuth option \<Rightarrow> ('s, exn, unit) act" where
  "requirePermission permission auth =
     (case auth of None \<Rightarrow> act_throw unauthorized
      | Some a \<Rightarrow> if permission \<notin> set (ac_permissions a) then act_throw forbidden else act_ret ())"

definition rejectPublicDemoAdminMutation :: "RequestAuth option \<Rightarrow> ('s, exn, unit) act" where
  "rejectPublicDemoAdminMutation auth =
     (case auth of None \<Rightarrow> act_throw unauthorized
      | Some a \<Rightarrow> if ac_sessionMode a = PUBLIC_ADMIN_DEMO
          then act_throw (app_exn 403 ''PUBLIC_DEMO_READ_ONLY'' ''Administrative changes are disabled in public demo mode.'')
          else act_ret ())"

definition assertOrganisationScope :: "RequestAuth option \<Rightarrow> string \<Rightarrow> exn + unit" where
  "assertOrganisationScope auth trustedResourceOrgId =
     (case auth of None \<Rightarrow> Inl unauthorized
      | Some a \<Rightarrow> if ac_orgId a \<noteq> trustedResourceOrgId then Inl forbidden else Inr ())"

definition assertTeamScope :: "RequestAuth option \<Rightarrow> string \<Rightarrow> string \<Rightarrow> exn + unit" where
  "assertTeamScope auth trustedOrgId trustedTeamId =
     (case assertOrganisationScope auth trustedOrgId of
        Inl e \<Rightarrow> Inl e
      | Inr _ \<Rightarrow> (case ac_teamId (the auth) of
            None \<Rightarrow> Inl forbidden
          | Some t \<Rightarrow> if t = [] \<or> t \<noteq> trustedTeamId then Inl forbidden else Inr ()))"

section \<open>Routes\<close>

datatype http_method = GET | POST | PATCH

record admin_route =
  ro_method :: http_method
  ro_path :: string
  ro_permission :: string
  ro_rejectsDemo :: bool

abbreviation reading :: "string \<Rightarrow> string \<Rightarrow> admin_route" where
  "reading path permission \<equiv> \<lparr>ro_method = GET, ro_path = path, ro_permission = permission, ro_rejectsDemo = False\<rparr>"

abbreviation guarded :: "http_method \<Rightarrow> string \<Rightarrow> string \<Rightarrow> admin_route" where
  "guarded m path permission \<equiv> \<lparr>ro_method = m, ro_path = path, ro_permission = permission, ro_rejectsDemo = True\<rparr>"

definition adminRouter :: "admin_route list" where
  "adminRouter = [
     reading ''/summary'' ''admin:view_logs'', reading ''/logs'' ''admin:view_logs'', reading ''/audit'' ''admin:view_logs'',
     reading ''/billing'' ''admin:view_billing'', reading ''/alerts'' ''admin:view_logs'',
     reading ''/users'' ''admin:manage_users'', reading ''/teams'' ''admin:manage_users'',
     guarded PATCH ''/users/:userId/role'' ''admin:manage_users'', guarded PATCH ''/users/:userId/team'' ''admin:manage_users'',
     guarded PATCH ''/users/:userId/status'' ''admin:manage_users'',
     guarded POST ''/users/:userId/revoke-sessions'' ''admin:manage_users'',
     guarded PATCH ''/policy'' ''admin:configure_policy'', guarded PATCH ''/retention'' ''admin:configure_policy'',
     guarded PATCH ''/alerts/:alertId'' ''admin:view_logs'', guarded GET ''/audit/export'' ''admin:export_audit'']"

text \<open>A request on a route of the router, with any handler.\<close>

definition serve_admin ::
  "'s auth_env \<Rightarrow> schema_checks \<Rightarrow> 's jwt_verifier \<Rightarrow> admin_route \<Rightarrow> (RequestAuth \<Rightarrow> ('s, exn, 'a) act) \<Rightarrow> jsstr option \<Rightarrow>
   ('s, exn, 'a) act" where
  "serve_admin V Z jwtVerify route handler authorization =
     act_bind (authenticateRequest V Z jwtVerify authorization) (\<lambda>(auth, profile).
     act_then (requirePermission (ro_permission route) (Some auth))
    (act_then (if ro_rejectsDemo route then rejectPublicDemoAdminMutation (Some auth) else act_ret ())
       (handler auth)))"

text \<open>\<^verbatim>\<open>POST /stream\<close> of the chat router.\<close>

definition serve_chat_stream ::
  "nat \<Rightarrow> ('x chat_world_scheme) auth_env \<Rightarrow> ('x chat_world_scheme) jwt_verifier \<Rightarrow> schema_checks \<Rightarrow>
   (json \<Rightarrow> (string \<times> string) list) \<Rightarrow> ('x chat_world_scheme) chat_env \<Rightarrow> ('x chat_world_scheme) connection \<Rightarrow>
   ('x chat_world_scheme, 'it, 'gen) ChatPipelineDependencies \<Rightarrow> ('x chat_world_scheme \<Rightarrow> bool) \<Rightarrow>
   jsstr option \<Rightarrow> string \<Rightarrow> json \<Rightarrow> ('x, 'gen, bool) stream_act" where
  "serve_chat_stream n V jwtVerify Z issues env H D isAborted authorization requestId body =
     act_bind (on_store (authenticateRequest V Z jwtVerify authorization)) (\<lambda>(auth, profile).
     act_then (requirePermission ''chat:send'' (Some auth))
       (streamChat n Z issues env H D isAborted (Some (AuthContext.truncate auth)) requestId body))"

end
