(* ===== verification/AccessProperties.thy ===== *)
theory AccessProperties
  imports Access AuthProperties
begin

text \<open>
  What the guards promise: a handler runs only for an active account of an active organisation with
  the permission it holds now, and a public demo session changes nothing.
\<close>

section \<open>Authentication\<close>

text \<open>The context given to a handler: the token was verified, and everything else is what the stores
  say now.\<close>

definition access_granted ::
  "'s auth_env \<Rightarrow> schema_checks \<Rightarrow> 's jwt_verifier \<Rightarrow> jsstr option \<Rightarrow> auth_store \<Rightarrow> RequestAuth \<Rightarrow> bool" where
  "access_granted V Z J authorization d a \<longleftrightarrow>
     (\<exists>t w c u g. extractBearerToken authorization = Some t \<and> fst (verifyAccessToken Z J t w) = Inr (Some c)
        \<and> u \<in> set (as_users d) \<and> usr_orgId u = vc_orgId c \<and> usr_userId u = vc_userId c \<and> usr_status u = user_ACTIVE
        \<and> set (usr_permissions u) \<subseteq> set USER_PERMISSIONS
        \<and> g \<in> set (as_organisations d) \<and> og_orgId g = vc_orgId c \<and> og_status g = org_ACTIVE \<and> a = request_auth c u)"

definition verifier_reads :: "'s auth_env \<Rightarrow> ('s \<Rightarrow> nat) \<Rightarrow> 's jwt_verifier \<Rightarrow> bool" where
  "verifier_reads V n J \<longleftrightarrow> (\<forall>t opts. leaves (auth_data V n) (J t opts))"

lemma wp_verifyAccessToken:
  assumes "verifier_reads V n J"
  shows "wp (verifyAccessToken Z J t) (\<lambda>r s'. (\<exists>c. r = Inr c \<and> fst (verifyAccessToken Z J t s) = Inr c) \<and> auth_data V n s' = auth_data V n s) s"
proof -
  obtain r s' where run: "verifyAccessToken Z J t s = (r, s')" by fastforce
  obtain rj sj where j: "J t access_token_options s = (rj, sj)" by fastforce
  have "auth_data V n sj = auth_data V n s" using assms j unfolding verifier_reads_def by (auto dest: leavesD)
  then have "(\<exists>c. r = Inr c) \<and> auth_data V n s' = auth_data V n s"
    using run j by (auto simp: verifyAccessToken_def act_catch_apply act_bind_apply split: sum.splits if_splits)
  then show ?thesis unfolding wp_def run prod.case fst_conv by blast
qed

lemma wp_account_lookup:
  assumes "auth_laws V n"
  shows "wp (act_bind (findUserByOrgIdAndUserId V orgId userId) (\<lambda>u. act_bind (findOrganisationByOrgId V orgId) (\<lambda>g. act_ret (u, g))))
    (\<lambda>r s'. auth_data V n s' = auth_data V n s \<and> (\<forall>u g. r = Inr (u, g) \<longrightarrow>
       (\<forall>p. u = Some p \<longrightarrow> p \<in> set (as_users (auth_data V n s)) \<and> usr_orgId p = orgId \<and> usr_userId p = userId)
     \<and> (\<forall>p. g = Some p \<longrightarrow> p \<in> set (as_organisations (auth_data V n s)) \<and> og_orgId p = orgId))) s"
    (is "wp _ ?Q s")
  unfolding findOrganisationByOrgId_def findUserByOrgIdAndUserId_def wp_bind [where m = "cl_findOne (au_users V) _"]
proof (rule wp_mono [OF wp_find_user [OF assms]])
  let ?find = "\<lambda>u. act_bind (cl_findOne (au_organisations V) (\<lambda>g. og_orgId g = orgId)) (\<lambda>g. act_ret (u, g))"
  fix r :: "exn + User option" and s1
  assume a: "auth_data V n s1 = auth_data V n s
    \<and> (\<forall>u. r = Inr (Some u) \<longrightarrow> u \<in> set (as_users (auth_data V n s)) \<and> usr_orgId u = orgId \<and> usr_userId u = userId)"
  show "case r of Inl e \<Rightarrow> ?Q (Inl e) s1 | Inr u \<Rightarrow> wp (?find u) ?Q s1"
  proof (cases r)
    case (Inr u)
    have "wp (cl_findOne (au_organisations V) (\<lambda>g. og_orgId g = orgId))
        (\<lambda>r' s'. case r' of Inl e \<Rightarrow> ?Q (Inl e) s' | Inr g \<Rightarrow> ?Q (Inr (u, g)) s') s1"
      by (rule wp_mono [OF wp_find_organisation [OF assms]]) (use a Inr in \<open>auto split: sum.split\<close>)
    then show ?thesis unfolding Inr sum.case wp_bind wp_ret .
  qed (use a in simp)
qed

lemma wp_authenticate:
  assumes laws: "auth_laws V n" and J: "verifier_reads V n J" and d: "auth_data V n s = d"
  shows "wp (authenticateRequest V Z J authorization) (\<lambda>r s'. auth_data V n s' = d \<and>
    (case r of Inl e \<Rightarrow> e \<in> {unauthorized, authUnavailable} | Inr (a, p) \<Rightarrow> access_granted V Z J authorization d a)) s"
    (is "wp _ ?Q s")
proof (cases "extractBearerToken authorization")
  case None
  then show ?thesis using d by (simp add: authenticateRequest_def wp_throw)
next
  case (Some t)
  let ?decide = "\<lambda>c (u, g). case (u, g) of
        (Some user, Some organisation) \<Rightarrow>
           if usr_status user \<noteq> user_ACTIVE \<or> og_status organisation \<noteq> org_ACTIVE
              \<or> \<not> list_all (\<lambda>p. p \<in> set USER_PERMISSIONS) (usr_permissions user)
           then act_throw unauthorized
           else act_ret (request_auth c user, createSafeAuthProfile user organisation)
      | _ \<Rightarrow> act_throw unauthorized"
  let ?lookup = "\<lambda>c. act_bind (findUserByOrgIdAndUserId V (vc_orgId c) (vc_userId c)) (\<lambda>u.
      act_bind (findOrganisationByOrgId V (vc_orgId c)) (\<lambda>g. act_ret (u, g)))"
  let ?verified = "\<lambda>claims. case claims of None \<Rightarrow> act_throw unauthorized
    | Some c \<Rightarrow> act_bind (or_throw (?lookup c) authUnavailable) (?decide c)"
  have decide: "wp (?decide c (u, g)) ?Q s2"
    if c: "fst (verifyAccessToken Z J t s) = Inr (Some c)" and d2: "auth_data V n s2 = d"
      and u: "\<forall>p. u = Some p \<longrightarrow> p \<in> set (as_users d) \<and> usr_orgId p = vc_orgId c \<and> usr_userId p = vc_userId c"
      and g: "\<forall>p. g = Some p \<longrightarrow> p \<in> set (as_organisations d) \<and> og_orgId p = vc_orgId c" for c u g s2
  proof (cases "\<exists>user organisation. u = Some user \<and> g = Some organisation \<and> usr_status user = user_ACTIVE
      \<and> og_status organisation = org_ACTIVE \<and> list_all (\<lambda>p. p \<in> set USER_PERMISSIONS) (usr_permissions user)")
    case True
    then obtain user organisation where o: "u = Some user" "g = Some organisation" "usr_status user = user_ACTIVE"
      "og_status organisation = org_ACTIVE" "list_all (\<lambda>p. p \<in> set USER_PERMISSIONS) (usr_permissions user)" by blast
    have "access_granted V Z J authorization d (request_auth c user)"
      unfolding access_granted_def
      by (intro exI conjI) (use Some c u g o in \<open>auto simp: list_all_iff\<close>)
    then show ?thesis using o d2 by (simp add: wp_ret)
  next
    case False
    then show ?thesis using d2 by (auto simp: wp_throw split: option.split)
  qed
  have found: "wp (act_bind (or_throw (?lookup c) authUnavailable) (?decide c)) ?Q s1"
    if c: "fst (verifyAccessToken Z J t s) = Inr (Some c)" and d1: "auth_data V n s1 = d" for c s1
    unfolding wp_bind [where k = "?decide c"] wp_or_throw
  proof (rule wp_mono [OF wp_account_lookup [OF laws]])
    fix r :: "exn + User option \<times> Organisation option" and s2
    assume l: "auth_data V n s2 = auth_data V n s1 \<and> (\<forall>u g. r = Inr (u, g) \<longrightarrow>
       (\<forall>p. u = Some p \<longrightarrow> p \<in> set (as_users (auth_data V n s1)) \<and> usr_orgId p = vc_orgId c \<and> usr_userId p = vc_userId c)
     \<and> (\<forall>p. g = Some p \<longrightarrow> p \<in> set (as_organisations (auth_data V n s1)) \<and> og_orgId p = vc_orgId c))"
    show "case case r of Inl _ \<Rightarrow> Inl authUnavailable | Inr x \<Rightarrow> Inr x of Inl e \<Rightarrow> ?Q (Inl e) s2 | Inr x \<Rightarrow> wp (?decide c x) ?Q s2"
    proof (cases r)
      case (Inl e)
      then show ?thesis using l d1 by (simp only: sum.case) simp
    next
      case (Inr x)
      obtain u g where x: "x = (u, g)" by (cases x)
      have "wp (?decide c (u, g)) ?Q s2" by (rule decide [OF c]) (use l d1 Inr x in auto)
      then show ?thesis unfolding Inr x sum.case .
    qed
  qed
  have "wp (act_bind (verifyAccessToken Z J t) ?verified) ?Q s"
    unfolding wp_bind [where k = ?verified]
  proof (rule wp_mono [OF wp_verifyAccessToken [OF J]])
    fix r :: "exn + VerifiedAccessTokenClaims option" and s1
    assume v: "(\<exists>c. r = Inr c \<and> fst (verifyAccessToken Z J t s) = Inr c) \<and> auth_data V n s1 = auth_data V n s"
    then obtain c where c: "r = Inr c" "fst (verifyAccessToken Z J t s) = Inr c" by blast
    have d1: "auth_data V n s1 = d" using v d by simp
    have "wp (?verified c) ?Q s1"
    proof (cases c)
      case None
      then show ?thesis using d1 by (simp add: wp_throw)
    next
      case (Some cl)
      then show ?thesis using found c(2) d1 by simp
    qed
    then show "case r of Inl e \<Rightarrow> ?Q (Inl e) s1 | Inr x \<Rightarrow> wp (?verified x) ?Q s1" unfolding c(1) sum.case .
  qed
  then show ?thesis unfolding authenticateRequest_def Some option.case .
qed

section \<open>Guards\<close>

lemma wp_requirePermission:
  "wp (requirePermission p (Some a)) Q s \<longleftrightarrow> (if p \<in> set (ac_permissions a) then Q (Inr ()) s else Q (Inl forbidden) s)"
  by (simp add: requirePermission_def wp_ret wp_throw)

definition read_only :: exn where
  "read_only = app_exn 403 ''PUBLIC_DEMO_READ_ONLY'' ''Administrative changes are disabled in public demo mode.''"

lemma wp_rejectDemo:
  "wp (rejectPublicDemoAdminMutation (Some a)) Q s \<longleftrightarrow>
     (if ac_sessionMode a = PUBLIC_ADMIN_DEMO then Q (Inl read_only) s else Q (Inr ()) s)"
  by (simp add: rejectPublicDemoAdminMutation_def read_only_def wp_ret wp_throw)

text \<open>A plain read is a \<^verbatim>\<open>GET\<close> other than the export of the audit log, which writes an audit record.\<close>

definition plain_read :: "admin_route \<Rightarrow> bool" where
  "plain_read route \<longleftrightarrow> ro_method route = GET \<and> ro_path route \<noteq> ''/audit/export''"

lemma mutations_reject_demo: "route \<in> set adminRouter \<Longrightarrow> \<not> plain_read route \<Longrightarrow> ro_rejectsDemo route"
  by (auto simp: adminRouter_def plain_read_def)

lemma wp_serve_admin:
  assumes laws: "auth_laws V n" and J: "verifier_reads V n J"
    and refused: "\<And>e s1. e \<in> {unauthorized, authUnavailable, forbidden, read_only} \<Longrightarrow> auth_data V n s1 = auth_data V n s \<Longrightarrow> Q (Inl e) s1"
    and served: "\<And>a s1. access_granted V Z J authorization (auth_data V n s) a \<Longrightarrow> ro_permission route \<in> set (ac_permissions a) \<Longrightarrow>
        (ro_rejectsDemo route \<longrightarrow> ac_sessionMode a = STANDARD) \<Longrightarrow> auth_data V n s1 = auth_data V n s \<Longrightarrow> wp (handler a) Q s1"
  shows "wp (serve_admin V Z J route handler authorization) Q s"
proof -
  let ?guard = "\<lambda>auth. if ro_rejectsDemo route then rejectPublicDemoAdminMutation (Some auth) else act_ret ()"
  let ?served = "\<lambda>auth. act_then (requirePermission (ro_permission route) (Some auth)) (act_then (?guard auth) (handler auth))"
  have guarded: "wp (?served a) Q s1" if g: "access_granted V Z J authorization (auth_data V n s) a" and d: "auth_data V n s1 = auth_data V n s" for a s1
  proof (cases "ro_permission route \<in> set (ac_permissions a)")
    case False
    then show ?thesis using refused d by (simp add: wp_then wp_requirePermission)
  next
    case True
    show ?thesis
    proof (cases "ro_rejectsDemo route \<and> ac_sessionMode a = PUBLIC_ADMIN_DEMO")
      case demo: True
      then show ?thesis using True refused d by (simp add: wp_then wp_requirePermission wp_rejectDemo)
    next
      case False
      then have "ro_rejectsDemo route \<longrightarrow> ac_sessionMode a = STANDARD" by (metis AuthSessionMode.exhaust)
      from served [OF g True this d] False True show ?thesis by (simp add: wp_then wp_requirePermission wp_rejectDemo wp_ret)
    qed
  qed
  show ?thesis
    unfolding serve_admin_def wp_bind
  proof (rule wp_mono [OF wp_authenticate [OF laws J refl]])
    fix r :: "exn + RequestAuth \<times> LoginResponseUser" and s1
    assume a: "auth_data V n s1 = auth_data V n s \<and>
      (case r of Inl e \<Rightarrow> e \<in> {unauthorized, authUnavailable} | Inr (a, p) \<Rightarrow> access_granted V Z J authorization (auth_data V n s) a)"
    show "case r of Inl e \<Rightarrow> Q (Inl e) s1 | Inr x \<Rightarrow> wp (case x of (auth, profile) \<Rightarrow> ?served auth) Q s1"
    proof (cases r)
      case (Inl e)
      then show ?thesis using a refused by auto
    next
      case (Inr x)
      then show ?thesis using a guarded by (cases x) simp
    qed
  qed
qed

section \<open>Tokens\<close>

text \<open>The payload that is signed, and what signature and verification promise: a token has no space,
  and what is accepted for it is what was signed.\<close>

definition signed_payload :: "access_claims \<Rightarrow> json" where
  "signed_payload c = JObj
     [(js_lit ''orgId'', JStr (js_lit (tk_orgId c))), (js_lit ''permissions'', JArr (map (JStr \<circ> js_lit) (tk_permissions c))),
      (js_lit ''role'', JStr (js_lit (user_role_name (tk_role c)))), (js_lit ''sessionId'', JStr (js_lit (tk_sessionId c))),
      (js_lit ''sessionMode'', JStr (js_lit (session_mode_name (tk_sessionMode c)))), (js_lit ''type'', JStr (js_lit (tk_type c))),
      (js_lit ''sub'', JStr (js_lit (tk_sub c))), (js_lit ''jti'', JStr (js_lit (tk_jti c))), (js_lit ''iat'', JInt (tk_iat c)),
      (js_lit ''exp'', JInt (tk_exp c)), (js_lit ''iss'', JStr (js_lit (tk_iss c))), (js_lit ''aud'', JStr (js_lit (tk_aud c)))]"

definition jwt_law :: "'s auth_env \<Rightarrow> 's jwt_verifier \<Rightarrow> bool" where
  "jwt_law V J \<longleftrightarrow> (\<forall>c w t w1. au_sign V c w = (Inr t, w1) \<longrightarrow> t \<noteq> [] \<and> 32 \<notin> set t
     \<and> (\<forall>w2 x w3. J t access_token_options w2 = (Inr x, w3) \<longrightarrow>
          x = (signed_payload c, ACCESS_TOKEN_ALGORITHM, ACCESS_TOKEN_PROTECTED_TYPE)))"

definition uuid_law :: "schema_checks \<Rightarrow> bool" where
  "uuid_law Z \<longleftrightarrow> (\<forall>s. uuid_v4 s \<longrightarrow> sc_uuid Z (js_lit s))"

lemma plain_lit [simp]: "plain_text (js_lit s) = s"
  by (induction s) (simp_all add: plain_text_def js_lit_def)

lemma mode_of_name: "session_mode_field (Some (JStr (js_lit (session_mode_name m)))) = Some m"
  by (cases m) (simp_all add: session_mode_field_def js_lit_inj)

lemma payload_fields:
  assumes "signed_payload c = JObj ps"
  shows "map_of ps (js_lit ''orgId'') = Some (JStr (js_lit (tk_orgId c)))" "map_of ps (js_lit ''sub'') = Some (JStr (js_lit (tk_sub c)))"
    "map_of ps (js_lit ''sessionId'') = Some (JStr (js_lit (tk_sessionId c)))"
    "map_of ps (js_lit ''sessionMode'') = Some (JStr (js_lit (session_mode_name (tk_sessionMode c))))"
    "map_of ps (js_lit ''permissions'') = Some (JArr (map (JStr \<circ> js_lit) (tk_permissions c)))"
    "map_of ps (js_lit ''role'') = Some (JStr (js_lit (user_role_name (tk_role c))))"
    "map_of ps (js_lit ''type'') = Some (JStr (js_lit (tk_type c)))" "map_of ps (js_lit ''jti'') = Some (JStr (js_lit (tk_jti c)))"
    "map_of ps (js_lit ''iat'') = Some (JInt (tk_iat c))" "map_of ps (js_lit ''exp'') = Some (JInt (tk_exp c))"
    "map_of ps (js_lit ''iss'') = Some (JStr (js_lit (tk_iss c)))" "map_of ps (js_lit ''aud'') = Some (JStr (js_lit (tk_aud c)))"
    "set (map fst ps) \<subseteq> set (map js_lit [''aud'', ''exp'', ''iat'', ''iss'', ''jti'', ''orgId'', ''permissions'',
                   ''role'', ''sessionId'', ''sessionMode'', ''sub'', ''type''])"
  using assms by (auto simp: signed_payload_def js_lit_inj)

text \<open>Whatever is accepted of a signed payload has its identifiers and its mode.\<close>

lemma payload_sound:
  assumes "accessTokenPayloadSchema Z (signed_payload c) = Some x"
  shows "x = \<lparr>vc_userId = tk_sub c, vc_orgId = tk_orgId c, vc_sessionId = tk_sessionId c, vc_sessionMode = tk_sessionMode c\<rparr>"
proof -
  obtain ps where ps: "signed_payload c = JObj ps" by (simp add: signed_payload_def)
  have str: "Option.bind (Some (JStr t)) (string_field p) = (if p t then Some t else None)" for t p
    by (simp add: string_field_def)
  show ?thesis
    using assms unfolding ps accessTokenPayloadSchema_def json.case Let_def payload_fields [OF ps] mode_of_name str
    by (auto split: if_splits)
qed

lemma payload_complete:
  assumes "sc_uuid Z (js_lit (tk_sub c))" "sc_uuid Z (js_lit (tk_orgId c))" "sc_uuid Z (js_lit (tk_sessionId c))" "sc_uuid Z (js_lit (tk_jti c))"
    and "set (tk_permissions c) \<subseteq> set USER_PERMISSIONS" "is_safe_integer (tk_iat c)" "is_safe_integer (tk_exp c)"
    and "tk_type c = ACCESS_TOKEN_TYPE" "tk_iss c = ACCESS_TOKEN_ISSUER" "tk_aud c = ACCESS_TOKEN_AUDIENCE"
  shows "accessTokenPayloadSchema Z (signed_payload c) =
    Some \<lparr>vc_userId = tk_sub c, vc_orgId = tk_orgId c, vc_sessionId = tk_sessionId c, vc_sessionMode = tk_sessionMode c\<rparr>"
proof -
  obtain ps where ps: "signed_payload c = JObj ps" by (simp add: signed_payload_def)
  have str: "Option.bind (Some (JStr t)) (string_field p) = (if p t then Some t else None)" for t p
    by (simp add: string_field_def)
  have perms: "token_permissions (Some (JArr (map (JStr \<circ> js_lit) (tk_permissions c))))"
    using assms(5) by (auto simp: token_permissions_def list_all_iff)
  have role: "tk_role c = EMPLOYEE \<or> tk_role c = TEAM_LEAD \<or> tk_role c = ORG_ADMIN" by (cases "tk_role c") simp_all
  show ?thesis
    using assms(1-4,6-10) perms role payload_fields(13) [OF ps]
    unfolding ps accessTokenPayloadSchema_def json.case Let_def payload_fields(1-12) [OF ps] mode_of_name str
    by (auto simp: token_int_def js_lit_inj)
qed

lemma sign_run:
  assumes "signAccessToken V i mode ttl w = (Inr x, w1)"
  shows "\<exists>c w2. au_sign V c w2 = (Inr (ar_accessToken x), w1) \<and> tk_sub c = ai_userId i \<and> tk_orgId c = ai_orgId i
    \<and> tk_sessionId c = ai_sessionId i \<and> tk_sessionMode c = mode \<and> tk_permissions c = ai_permissions i
    \<and> tk_jti c = fst (au_randomUUID V w) \<and> tk_iat c = au_now V w div 1000 \<and> tk_exp c = au_now V w div 1000 + ttl
    \<and> tk_type c = ACCESS_TOKEN_TYPE \<and> tk_iss c = ACCESS_TOKEN_ISSUER \<and> tk_aud c = ACCESS_TOKEN_AUDIENCE"
proof -
  let ?c = "\<lparr>tk_orgId = ai_orgId i, tk_permissions = ai_permissions i, tk_role = ai_role i,
         tk_sessionId = ai_sessionId i, tk_sessionMode = mode, tk_type = ACCESS_TOKEN_TYPE, tk_sub = ai_userId i,
         tk_jti = fst (au_randomUUID V w), tk_iat = au_now V w div 1000, tk_exp = au_now V w div 1000 + ttl,
         tk_iss = ACCESS_TOKEN_ISSUER, tk_aud = ACCESS_TOKEN_AUDIENCE\<rparr>"
  have "au_sign V ?c (snd (au_randomUUID V w)) = (Inr (ar_accessToken x), w1)"
    using assms by (auto simp: signAccessToken_def act_bind_apply Let_def draw_def split: prod.splits sum.splits)
  then show ?thesis by (intro exI [of _ ?c] exI [of _ "snd (au_randomUUID V w)"]) simp
qed

lemma bearer_of_token:
  assumes "t \<noteq> []" and "32 \<notin> set t"
  shows "extractBearerToken (Some (js_lit ''Bearer '' @ t)) = Some t"
proof -
  have "js_split 32 t = [t]" using assms(2) by (induction t) auto
  then show ?thesis using assms(1) by (simp add: extractBearerToken_def js_lit_def)
qed

lemma demo_token_mode:
  assumes law: "jwt_law V J" and run: "createPublicAdminDemoAccessToken V i w = (Inr x, w1)"
    and g: "access_granted V Z J (Some (js_lit ''Bearer '' @ ar_accessToken x)) d a"
  shows "ac_sessionMode a = PUBLIC_ADMIN_DEMO"
proof -
  obtain c w2 where c: "au_sign V c w2 = (Inr (ar_accessToken x), w1)" "tk_sessionMode c = PUBLIC_ADMIN_DEMO"
    using sign_run [OF run [unfolded createPublicAdminDemoAccessToken_def]] by blast
  have t: "ar_accessToken x \<noteq> []" "32 \<notin> set (ar_accessToken x)"
    and s: "\<And>w2 r w3. J (ar_accessToken x) access_token_options w2 = (Inr r, w3) \<Longrightarrow>
       r = (signed_payload c, ACCESS_TOKEN_ALGORITHM, ACCESS_TOKEN_PROTECTED_TYPE)"
    using law c(1) unfolding jwt_law_def by blast+
  obtain w' cl u where v: "fst (verifyAccessToken Z J (ar_accessToken x) w') = Inr (Some cl)" "a = request_auth cl u"
    using g unfolding access_granted_def bearer_of_token [OF t] by blast
  then have "accessTokenPayloadSchema Z (signed_payload c) = Some cl"
    using s by (auto simp: verifyAccessToken_def act_catch_apply act_bind_apply split: prod.splits sum.splits if_splits)
  from payload_sound [OF this] c(2) v(2) show ?thesis by (simp add: request_auth_def)
qed

section \<open>Properties\<close>

text \<open>C7. An administrative handler runs only for an account that may do it now: either the request is
  refused, with one of four errors and the stores unchanged, or the handler ran with a context whose
  token was verified and whose user is active, in an active organisation, and holds the permission of
  the route in the store, whatever the token says; and on every route that is not a plain read, that
  is on every change and on the export of the audit log, the session is not the public demo.\<close>

theorem admin_handler_guarded:
  assumes "auth_laws V n" and "verifier_reads V n J" and "route \<in> set adminRouter"
    and "serve_admin V Z J route handler authorization s = (r, s')"
  shows "(\<exists>e \<in> {unauthorized, authUnavailable, forbidden, read_only}. r = Inl e \<and> auth_data V n s' = auth_data V n s)
    \<or> (\<exists>a w. access_granted V Z J authorization (auth_data V n s) a \<and> ro_permission route \<in> set (ac_permissions a)
         \<and> (\<not> plain_read route \<longrightarrow> ac_sessionMode a = STANDARD) \<and> auth_data V n w = auth_data V n s
         \<and> handler a w = (r, s'))" (is "?Q r s'")
proof -
  have "wp (serve_admin V Z J route handler authorization) ?Q s"
  proof (rule wp_serve_admin [OF assms(1,2)])
    fix e s1
    assume "e \<in> {unauthorized, authUnavailable, forbidden, read_only}" "auth_data V n s1 = auth_data V n s"
    then show "?Q (Inl e) s1" by blast
  next
    fix a s1
    assume a: "access_granted V Z J authorization (auth_data V n s) a" "ro_permission route \<in> set (ac_permissions a)"
      "ro_rejectsDemo route \<longrightarrow> ac_sessionMode a = STANDARD" "auth_data V n s1 = auth_data V n s"
    have m: "\<not> plain_read route \<longrightarrow> ac_sessionMode a = STANDARD" using mutations_reject_demo assms(3) a(3) by blast
    have "?Q (fst (handler a s1)) (snd (handler a s1))"
      by (intro disjI2 exI [of _ a] exI [of _ s1] conjI) (use a m in simp_all)
    then show "wp (handler a) ?Q s1" by (rule wpI)
  qed
  from wpD [OF this assms(4)] show ?thesis .
qed

text \<open>C9. The public demo changes nothing: with a token of a public demo session, every request on a route
  of the administration that is not a plain read (every change, and the export of the audit log) is
  refused, for any handler, and leaves the stores as they were.\<close>

theorem public_demo_read_only:
  assumes laws: "auth_laws V n" and J: "verifier_reads V n J" and law: "jwt_law V J"
    and token: "createPublicAdminDemoAccessToken V i w = (Inr x, w1)"
    and route: "route \<in> set adminRouter" "\<not> plain_read route"
    and run: "serve_admin V Z J route handler (Some (js_lit ''Bearer '' @ ar_accessToken x)) s = (r, s')"
  shows "(\<exists>e \<in> {unauthorized, authUnavailable, forbidden, read_only}. r = Inl e) \<and> auth_data V n s' = auth_data V n s"
proof -
  let ?Q = "\<lambda>r s'. (\<exists>e \<in> {unauthorized, authUnavailable, forbidden, read_only}. r = Inl e) \<and> auth_data V n s' = auth_data V n s"
  have "wp (serve_admin V Z J route handler (Some (js_lit ''Bearer '' @ ar_accessToken x))) ?Q s"
  proof (rule wp_serve_admin [OF laws J])
    fix a s1
    assume "access_granted V Z J (Some (js_lit ''Bearer '' @ ar_accessToken x)) (auth_data V n s) a"
      and "ro_rejectsDemo route \<longrightarrow> ac_sessionMode a = STANDARD"
    then show "wp (handler a) ?Q s1"
      using demo_token_mode [OF law token] mutations_reject_demo [OF route] by fastforce
  qed blast
  from wpD [OF this run] show ?thesis .
qed

text \<open>An access token is read back as it was issued: when the verifier accepts a token that
  \<^verbatim>\<open>signAccessToken\<close> made, \<^verbatim>\<open>verifyAccessToken\<close> returns exactly the user, organisation, session and
  session mode it was made for.\<close>

theorem access_token_roundtrip:
  assumes law: "jwt_law V J" and Z: "uuid_law Z" and uuid: "\<forall>w. uuid_v4 (fst (au_randomUUID V w))"
    and ids: "uuid_v4 (ai_userId i)" "uuid_v4 (ai_orgId i)" "uuid_v4 (ai_sessionId i)"
    and perms: "set (ai_permissions i) \<subseteq> set USER_PERMISSIONS"
    and clock: "\<forall>w. 0 \<le> au_now V w \<and> au_now V w \<le> 8640000000000000" and ttl: "0 \<le> ttl" "ttl \<le> 1000000000"
    and run: "signAccessToken V i mode ttl w = (Inr x, w1)" and accepted: "J (ar_accessToken x) access_token_options w2 = (Inr y, w3)"
  shows "verifyAccessToken Z J (ar_accessToken x) w2 =
    (Inr (Some \<lparr>vc_userId = ai_userId i, vc_orgId = ai_orgId i, vc_sessionId = ai_sessionId i, vc_sessionMode = mode\<rparr>), w3)"
proof -
  obtain c w0 where c: "au_sign V c w0 = (Inr (ar_accessToken x), w1)" "tk_sub c = ai_userId i" "tk_orgId c = ai_orgId i"
    "tk_sessionId c = ai_sessionId i" "tk_sessionMode c = mode" "tk_permissions c = ai_permissions i"
    "tk_jti c = fst (au_randomUUID V w)" "tk_iat c = au_now V w div 1000" "tk_exp c = au_now V w div 1000 + ttl"
    "tk_type c = ACCESS_TOKEN_TYPE" "tk_iss c = ACCESS_TOKEN_ISSUER" "tk_aud c = ACCESS_TOKEN_AUDIENCE"
    using sign_run [OF run] by blast
  have y: "y = (signed_payload c, ACCESS_TOKEN_ALGORITHM, ACCESS_TOKEN_PROTECTED_TYPE)"
    using law c(1) accepted unfolding jwt_law_def by blast
  have "0 \<le> au_now V w div 1000" "au_now V w div 1000 \<le> 8640000000000" using clock [rule_format, of w] by linarith+
  then have safe: "is_safe_integer (tk_iat c)" "is_safe_integer (tk_exp c)"
    using ttl c(8,9) unfolding is_safe_integer_def MAX_SAFE_INTEGER_def by linarith+
  have "accessTokenPayloadSchema Z (signed_payload c) =
      Some \<lparr>vc_userId = tk_sub c, vc_orgId = tk_orgId c, vc_sessionId = tk_sessionId c, vc_sessionMode = tk_sessionMode c\<rparr>"
    by (rule payload_complete) (use Z uuid ids perms safe c in \<open>simp_all add: uuid_law_def\<close>)
  then show ?thesis using accepted unfolding y c(2-5) by (simp add: verifyAccessToken_def act_catch_apply act_bind_apply)
qed

section \<open>A signature in memory\<close>

text \<open>A token is its payload in base64url, which the verifier reads back.\<close>

definition mem_sign :: "access_claims \<Rightarrow> (auth_world, exn, jsstr) act" where
  "mem_sign c w = (Inr (encode_json (signed_payload c)), w)"

definition mem_verify :: "auth_world jwt_verifier" where
  "mem_verify t opts w = (case decode_json t of
       Some payload \<Rightarrow> (Inr (payload, ACCESS_TOKEN_ALGORITHM, ACCESS_TOKEN_PROTECTED_TYPE), w)
     | None \<Rightarrow> (Inl (ExnOther ''JWSInvalid''), w))"

definition mem_access :: "auth_world auth_env" where
  "mem_access = mem_auth\<lparr>au_sign := mem_sign\<rparr>"

lemma payload_printable: "wf_json (signed_payload c)"
proof -
  have "is_jsstr (js_lit x)" for x
    using js_lit_well_formed [of "js_lit x"] by (simp add: well_formed_def js_lit_def)
  then show ?thesis by (simp add: signed_payload_def js_lit_inj list_all_iff)
qed

lemma payload_token: "decode_json (encode_json (signed_payload c)) = Some (signed_payload c)"
  by (rule decode_encode_json [OF payload_printable])

lemma payload_token_text: "encode_json (signed_payload c) \<noteq> []" "32 \<notin> set (encode_json (signed_payload c))"
proof -
  have "decode_json [] = None" by code_simp
  then show "encode_json (signed_payload c) \<noteq> []" using payload_token [of c] by auto
  have wf: "is_jsstr (json_text no_fraction (signed_payload c))"
    using printable_json_text [OF payload_printable] by (auto simp: printable_def is_jsstr_def)
  then have "\<forall>b \<in> set (utf8_encode (json_text no_fraction (signed_payload c))). b < 256" by (simp add: utf8_encode_bytes)
  from base64url_encode_units [OF this, of 32] show "32 \<notin> set (encode_json (signed_payload c))"
    by (auto simp: encode_json_def base64url_unit_def)
qed

lemma mem_jwt_law: "jwt_law mem_access mem_verify"
  by (auto simp: jwt_law_def mem_access_def mem_sign_def mem_verify_def payload_token payload_token_text)

lemma mem_access_data: "auth_data mem_access mem_verifications w = fst w"
  using mem_auth_data [of w] by (simp add: auth_data_def mem_access_def)

lemma mem_access_laws: "auth_laws mem_access mem_verifications"
proof -
  have "auth_frames mem_access mem_verifications"
    using mem_auth_frames unfolding auth_frames_def leaves_def mem_auth_data mem_access_data
    by (simp add: mem_access_def mem_sign_def)
  then show ?thesis using mem_auth_laws unfolding auth_laws_def update_many_law_def by (simp add: mem_access_def)
qed

lemma mem_verifier_reads: "verifier_reads mem_access mem_verifications mem_verify"
  by (simp add: verifier_reads_def leaves_def mem_verify_def split: option.split)

definition any_strings :: schema_checks where
  "any_strings = \<lparr>sc_uuid = (\<lambda>_. True), sc_datetime = (\<lambda>_. True)\<rparr>"

definition demo_admin :: User where
  "demo_admin = demo_user\<lparr>usr_role := ORG_ADMIN, usr_permissions := USER_PERMISSIONS\<rparr>"

definition demo_admin_world :: auth_world where
  "demo_admin_world = ((fst (demo_auth []))\<lparr>as_users := [demo_admin]\<rparr>, 0)"

definition demo_admin_input :: AccessTokenInput where
  "demo_admin_input = access_input demo_admin (demo_uuid 1) (demo_uuid 0)"

definition demo_claims :: access_claims where
  "demo_claims = \<lparr>tk_orgId = demo_uuid 1, tk_permissions = USER_PERMISSIONS, tk_role = ORG_ADMIN, tk_sessionId = demo_uuid 0,
     tk_sessionMode = STANDARD, tk_type = ACCESS_TOKEN_TYPE, tk_sub = demo_uuid 2, tk_jti = demo_uuid 0, tk_iat = 0, tk_exp = 900,
     tk_iss = ACCESS_TOKEN_ISSUER, tk_aud = ACCESS_TOKEN_AUDIENCE\<rparr>"

definition demo_access_token :: jsstr where
  "demo_access_token = encode_json (signed_payload demo_claims)"

lemma demo_verified:
  "verifyAccessToken any_strings mem_verify demo_access_token w =
     (Inr (Some \<lparr>vc_userId = demo_uuid 2, vc_orgId = demo_uuid 1, vc_sessionId = demo_uuid 0, vc_sessionMode = STANDARD\<rparr>), w)"
proof -
  have "accessTokenPayloadSchema any_strings (signed_payload demo_claims) =
     Some \<lparr>vc_userId = tk_sub demo_claims, vc_orgId = tk_orgId demo_claims, vc_sessionId = tk_sessionId demo_claims,
       vc_sessionMode = tk_sessionMode demo_claims\<rparr>"
    by (rule payload_complete) (simp_all add: any_strings_def demo_claims_def is_safe_integer_def MAX_SAFE_INTEGER_def)
  then show ?thesis
    by (simp add: verifyAccessToken_def act_catch_apply act_bind_apply mem_verify_def demo_access_token_def payload_token)
      (simp add: demo_claims_def)
qed

definition demo_policy_route :: admin_route where
  "demo_policy_route = guarded PATCH ''/policy'' ''admin:configure_policy''"

lemma demo_policy_route_in: "demo_policy_route \<in> set adminRouter" "\<not> plain_read demo_policy_route"
  by (simp_all add: demo_policy_route_def adminRouter_def plain_read_def)

definition demo_export_route :: admin_route where
  "demo_export_route = guarded GET ''/audit/export'' ''admin:export_audit''"

lemma demo_export_route_in: "demo_export_route \<in> set adminRouter" "\<not> plain_read demo_export_route"
  by (simp_all add: demo_export_route_def adminRouter_def plain_read_def)

lemma demo_authenticated:
  "\<exists>p. authenticateRequest mem_access any_strings mem_verify (Some (js_lit ''Bearer '' @ demo_access_token)) demo_admin_world =
     (Inr (request_auth \<lparr>vc_userId = demo_uuid 2, vc_orgId = demo_uuid 1, vc_sessionId = demo_uuid 0, vc_sessionMode = STANDARD\<rparr> demo_admin, p),
      demo_admin_world)"
proof -
  have t: "extractBearerToken (Some (js_lit ''Bearer '' @ demo_access_token)) = Some demo_access_token"
    unfolding demo_access_token_def by (rule bearer_of_token [OF payload_token_text])
  have u: "findUserByOrgIdAndUserId mem_access (demo_uuid 1) (demo_uuid 2) demo_admin_world = (Inr (Some demo_admin), demo_admin_world)"
    "findOrganisationByOrgId mem_access (demo_uuid 1) demo_admin_world = (Inr (Some demo_organisation), demo_admin_world)"
    by (simp_all add: findUserByOrgIdAndUserId_def findOrganisationByOrgId_def mem_access_def mem_auth_def mem_collection_def demo_admin_world_def
        demo_auth_def demo_admin_def demo_user_def demo_organisation_def)
  have a: "usr_status demo_admin = user_ACTIVE" "usr_permissions demo_admin = USER_PERMISSIONS" by (simp_all add: demo_admin_def demo_user_def)
  show ?thesis
    by (simp add: authenticateRequest_def t act_bind_apply demo_verified or_throw_def u a demo_active list_all_iff del: One_nat_def)
qed

theorem admin_handler_guarded_witness:
  "\<exists>a. serve_admin mem_access any_strings mem_verify demo_policy_route (\<lambda>a. act_ret (ac_userId a)) (Some (js_lit ''Bearer '' @ demo_access_token))
        demo_admin_world = (Inr (demo_uuid 2), demo_admin_world)
     \<and> access_granted mem_access any_strings mem_verify (Some (js_lit ''Bearer '' @ demo_access_token)) (fst demo_admin_world) a
     \<and> ''admin:configure_policy'' \<in> set (ac_permissions a) \<and> ac_sessionMode a = STANDARD"
proof -
  have r: "serve_admin mem_access any_strings mem_verify demo_policy_route (\<lambda>a. act_ret (ac_userId a)) (Some (js_lit ''Bearer '' @ demo_access_token))
        demo_admin_world = (Inr (demo_uuid 2), demo_admin_world)"
    using demo_authenticated
    by (auto simp: serve_admin_def act_bind_apply act_then_apply requirePermission_def rejectPublicDemoAdminMutation_def request_auth_def
        demo_policy_route_def demo_admin_def demo_user_def USER_PERMISSIONS_def)
  have "ro_permission demo_policy_route = ''admin:configure_policy''" by (simp add: demo_policy_route_def)
  with r admin_handler_guarded [OF mem_access_laws mem_verifier_reads demo_policy_route_in(1) r] demo_policy_route_in(2) show ?thesis
    by (auto simp: mem_access_data)
qed

theorem public_demo_read_only_witness:
  "\<exists>x w1 r w. createPublicAdminDemoAccessToken mem_access demo_admin_input demo_admin_world = (Inr x, w1)
     \<and> serve_admin mem_access any_strings mem_verify demo_export_route (\<lambda>a. act_ret ()) (Some (js_lit ''Bearer '' @ ar_accessToken x)) demo_admin_world = (r, w)
     \<and> r \<noteq> Inr () \<and> fst w = fst demo_admin_world"
proof -
  obtain x w1 where t: "createPublicAdminDemoAccessToken mem_access demo_admin_input demo_admin_world = (Inr x, w1)"
    by (simp add: createPublicAdminDemoAccessToken_def signAccessToken_def act_bind_apply Let_def draw_def mem_access_def mem_auth_def mem_sign_def)
  obtain r w where r: "serve_admin mem_access any_strings mem_verify demo_export_route (\<lambda>a. act_ret ()) (Some (js_lit ''Bearer '' @ ar_accessToken x)) demo_admin_world = (r, w)"
    by (rule that [OF prod.collapse [symmetric]])
  have "r \<noteq> Inr () \<and> fst w = fst demo_admin_world"
    using public_demo_read_only [OF mem_access_laws mem_verifier_reads mem_jwt_law t demo_export_route_in r]
    by (auto simp: mem_access_data)
  with t r show ?thesis by blast
qed

theorem access_token_roundtrip_witness:
  "\<exists>x w1. signAccessToken (mem_access\<lparr>au_now := \<lambda>_. 5\<rparr>) demo_admin_input STANDARD 900 demo_admin_world = (Inr x, w1)
     \<and> verifyAccessToken any_strings mem_verify (ar_accessToken x) w1 =
       (Inr (Some \<lparr>vc_userId = demo_uuid 2, vc_orgId = demo_uuid 1, vc_sessionId = demo_uuid 0, vc_sessionMode = STANDARD\<rparr>), w1)"
proof -
  let ?V = "mem_access\<lparr>au_now := \<lambda>_. 5\<rparr>"
  obtain x w1 c where t: "signAccessToken ?V demo_admin_input STANDARD 900 demo_admin_world = (Inr x, w1)" "ar_accessToken x = encode_json (signed_payload c)"
    by (simp add: signAccessToken_def act_bind_apply Let_def draw_def mem_access_def mem_auth_def mem_sign_def)
  have law: "jwt_law ?V mem_verify" using mem_jwt_law by (simp add: jwt_law_def)
  have i: "ai_userId demo_admin_input = demo_uuid 2" "ai_orgId demo_admin_input = demo_uuid 1" "ai_sessionId demo_admin_input = demo_uuid 0"
    "ai_permissions demo_admin_input = USER_PERMISSIONS"
    by (simp_all add: demo_admin_input_def access_input_def demo_admin_def demo_user_def)
  have a: "mem_verify (ar_accessToken x) access_token_options w1 = (Inr (signed_payload c, ACCESS_TOKEN_ALGORITHM, ACCESS_TOKEN_PROTECTED_TYPE), w1)"
    by (simp add: t(2) mem_verify_def payload_token)
  have u: "uuid_law any_strings" "\<forall>w. uuid_v4 (fst (au_randomUUID ?V w))" "\<forall>w. 0 \<le> au_now ?V w \<and> au_now ?V w \<le> 8640000000000000"
    by (simp_all add: uuid_law_def any_strings_def mem_access_def mem_auth_def demo_uuid_valid)
  from access_token_roundtrip [OF law u(1,2) _ _ _ _ u(3) _ _ t(1) a] i t(1) show ?thesis by (simp add: demo_uuid_valid)
qed

end
