(* ===== verification/RateLimit.thy ===== *)
theory RateLimit
  imports Idempotency Jobs ActionLogic
begin

text \<open>
  The fixed-window rate limiters: \<^verbatim>\<open>chat/chat-control.service.ts\<close> (per user and per
  organisation) and \<^verbatim>\<open>auth/login-rate-limit.service.ts\<close> (per address and per account, and
  per address for the public demonstration).

  Redis is a parameter: the commands the scripts call, and whether the round trip succeeds. What
  the code relies on is \<open>counter_laws\<close>: \<^verbatim>\<open>INCR\<close> starts a missing key at 1 without an expiry and
  otherwise adds 1 and keeps the expiry, \<^verbatim>\<open>PEXPIRE\<close> sets the expiry of a live key, neither
  touches another key. \<open>ct_get\<close> only observes the value of a live key; the code does not call it.
\<close>

section \<open>Redis counters\<close>

record 's counters =
  ct_incr :: "string \<Rightarrow> 's \<Rightarrow> int \<times> 's"
  ct_pexpire :: "string \<Rightarrow> int \<Rightarrow> 's \<Rightarrow> 's"
  ct_pttl :: "string \<Rightarrow> 's \<Rightarrow> int"
  ct_link :: "'s \<Rightarrow> link_outcome"
  ct_get :: "string \<Rightarrow> 's \<Rightarrow> int option"

definition counter_laws :: "'s counters \<Rightarrow> bool" where
  "counter_laws C \<longleftrightarrow>
     (\<forall>k s. fst (ct_incr C k s) = (case ct_get C k s of None \<Rightarrow> 1 | Some n \<Rightarrow> n + 1)
        \<and> (\<forall>k'. ct_get C k' (snd (ct_incr C k s)) = (if k' = k then Some (fst (ct_incr C k s)) else ct_get C k' s))
        \<and> (\<forall>k'. ct_pttl C k' (snd (ct_incr C k s)) = (if k' = k \<and> ct_get C k s = None then - 1 else ct_pttl C k' s)))
     \<and> (\<forall>k ms s. 0 < ms \<longrightarrow> ct_get C k s \<noteq> None \<longrightarrow>
          (\<forall>k'. ct_get C k' (ct_pexpire C k ms s) = ct_get C k' s
             \<and> ct_pttl C k' (ct_pexpire C k ms s) = (if k' = k then ms else ct_pttl C k' s)))"

text \<open>The common part of the scripts: \<^verbatim>\<open>INCR\<close>, and \<^verbatim>\<open>PEXPIRE\<close> when the counter is new.\<close>

definition incr_window :: "'s counters \<Rightarrow> string \<Rightarrow> int \<Rightarrow> 's \<Rightarrow> int \<times> 's" where
  "incr_window C key windowMs s =
     (case ct_incr C key s of (n, s') \<Rightarrow> (n, if n = 1 then ct_pexpire C key windowMs s' else s'))"

definition INCREMENT_SCRIPT :: "'s counters \<Rightarrow> string \<Rightarrow> int \<Rightarrow> 's \<Rightarrow> (int \<times> int) \<times> 's" where
  "INCREMENT_SCRIPT C key windowMs s =
     (case incr_window C key windowMs s of (n, s') \<Rightarrow> ((n, ct_pttl C key s'), s'))"

definition RATE_SCRIPT :: "'s counters \<Rightarrow> string \<Rightarrow> string \<Rightarrow> int \<Rightarrow> 's \<Rightarrow> (int \<times> int \<times> int \<times> int) \<times> 's" where
  "RATE_SCRIPT C userKey orgKey windowMs s =
     (case incr_window C userKey windowMs s of (userCount, s1) \<Rightarrow>
      case incr_window C orgKey windowMs s1 of (orgCount, s2) \<Rightarrow>
        ((userCount, ct_pttl C userKey s2, orgCount, ct_pttl C orgKey s2), s2))"

definition counter_eval :: "'s counters \<Rightarrow> ('s \<Rightarrow> 'r \<times> 's) \<Rightarrow> ('s, exn, 'r) act" where
  "counter_eval C script s =
     (case ct_link C s of
        LinkDown \<Rightarrow> (Inl (ExnOther ''Connection is closed.''), s)
      | ReplyLost \<Rightarrow> (Inl (ExnOther ''Connection is closed.''), snd (script s))
      | LinkUp \<Rightarrow> (case script s of (r, s') \<Rightarrow> (Inr r, s')))"

section \<open>Chat requests\<close>

definition CHAT_RATE_LIMIT_WINDOW_MS :: int where "CHAT_RATE_LIMIT_WINDOW_MS = 60 * 1000"

record ChatRateLimitPair =
  userRpm :: int
  organisationRpm :: int

record 's control_env =
  co_counters :: "'s counters"
  co_hmac :: "string \<Rightarrow> string"
  co_limits :: "OrganisationPlan \<Rightarrow> ChatRateLimitPair"

definition join_nul :: "string list \<Rightarrow> string" where
  "join_nul xs = (case xs of [] \<Rightarrow> [] | y # ys \<Rightarrow> y @ concat (map (\<lambda>z. NUL @ z) ys))"

definition deriveControlKey :: "(string \<Rightarrow> string) \<Rightarrow> string \<Rightarrow> string list \<Rightarrow> string" where
  "deriveControlKey hmac purpose ids =
     ''chat:'' @ purpose @ '':'' @ hmac (''chat:'' @ purpose @ NUL @ join_nul ids)"

definition dependencyUnavailable :: exn where
  "dependencyUnavailable = app_exn 503 ''DEPENDENCY_UNAVAILABLE'' ''Chat processing is temporarily unavailable.''"

text \<open>\<^verbatim>\<open>Math.ceil(ms / 1_000)\<close>.\<close>

definition ceil_seconds :: "int \<Rightarrow> int" where
  "ceil_seconds ms = (ms + 999) div 1000"

definition rate_limited :: "string \<Rightarrow> int \<Rightarrow> exn" where
  "rate_limited msg ttl = ExnApp \<lparr>ae_statusCode = 429, ae_code = ''RATE_LIMITED'', ae_message = msg,
     ae_details = RetryAfterSeconds (max 1 (ceil_seconds ttl))\<rparr>"

definition consumeRateLimit ::
  "'s control_env \<Rightarrow> string \<Rightarrow> string \<Rightarrow> OrganisationPlan \<Rightarrow> ('s, exn, unit) act" where
  "consumeRateLimit env orgId userId plan s =
     (let limits = co_limits env plan;
          userKey = deriveControlKey (co_hmac env) ''rate-user'' [orgId, userId];
          organisationKey = deriveControlKey (co_hmac env) ''rate-organisation'' [orgId]
      in case counter_eval (co_counters env)
                (RATE_SCRIPT (co_counters env) userKey organisationKey CHAT_RATE_LIMIT_WINDOW_MS) s of
           (Inl _, s') \<Rightarrow> (Inl dependencyUnavailable, s')
         | (Inr (userCount, userTtl, organisationCount, organisationTtl), s') \<Rightarrow>
             if userCount < 1 \<or> organisationCount < 1 then (Inl dependencyUnavailable, s')
             else let retryTtl = max (if userCount > userRpm limits then userTtl else 0)
                                     (if organisationCount > organisationRpm limits then organisationTtl else 0)
                  in if retryTtl > 0 then (Inl (rate_limited ''Too many chat requests.'' retryTtl), s')
                     else (Inr (), s'))"

section \<open>Logins\<close>

definition LOGIN_RATE_LIMIT_ATTEMPTS :: int where "LOGIN_RATE_LIMIT_ATTEMPTS = 10"
definition LOGIN_RATE_LIMIT_WINDOW_MS :: int where "LOGIN_RATE_LIMIT_WINDOW_MS = 15 * 60 * 1000"

definition deriveOpaqueKey :: "(string \<Rightarrow> string) \<Rightarrow> string \<Rightarrow> string \<Rightarrow> string" where
  "deriveOpaqueKey hmac kind v = hmac (kind @ NUL @ v)"

record LoginRateInput =
  lr_ipAddress :: string
  lr_organisationSlug :: string
  lr_emailNormalized :: string

definition accountKey :: "(string \<Rightarrow> string) \<Rightarrow> LoginRateInput \<Rightarrow> string" where
  "accountKey hmac inp = ''rate:login:account:''
     @ deriveOpaqueKey hmac ''account'' (lr_organisationSlug inp @ NUL @ lr_emailNormalized inp)"

definition ipKey :: "(string \<Rightarrow> string) \<Rightarrow> LoginRateInput \<Rightarrow> string" where
  "ipKey hmac inp = ''rate:login:ip:'' @ deriveOpaqueKey hmac ''ip'' (lr_ipAddress inp)"

definition login_unavailable :: exn where
  "login_unavailable = app_exn 503 ''DEPENDENCY_UNAVAILABLE'' ''Login is temporarily unavailable.''"

text \<open>One element of the \<^verbatim>\<open>Promise.all\<close>: the script and \<^verbatim>\<open>redisResultSchema.parse\<close>.\<close>

definition increment_key :: "'s counters \<Rightarrow> string \<Rightarrow> ('s, exn, int \<times> int) act" where
  "increment_key C key =
     act_bind (counter_eval C (INCREMENT_SCRIPT C key LOGIN_RATE_LIMIT_WINDOW_MS)) (\<lambda>r.
       if fst r < 1 then act_throw (ExnOther ''ZodError'') else act_ret r)"

text \<open>\<^verbatim>\<open>Promise.all\<close> starts both round trips in order before either can fail the whole.\<close>

definition consume_login ::
  "'s counters \<Rightarrow> (string \<Rightarrow> string) \<Rightarrow> LoginRateInput \<Rightarrow> ('s, exn, unit) act" where
  "consume_login C hmac inp s =
     (case increment_key C (ipKey hmac inp) s of (r1, s1) \<Rightarrow>
      case increment_key C (accountKey hmac inp) s1 of (r2, s2) \<Rightarrow>
        (case (r1, r2) of
           (Inr a, Inr b) \<Rightarrow>
             (case find (\<lambda>r. fst r > LOGIN_RATE_LIMIT_ATTEMPTS) [a, b] of
                Some r \<Rightarrow> (Inl (rate_limited ''Too many login attempts.'' (snd r)), s2)
              | None \<Rightarrow> (Inr (), s2))
         | _ \<Rightarrow> (Inl login_unavailable, s2)))"

definition consume_demo :: "'s counters \<Rightarrow> (string \<Rightarrow> string) \<Rightarrow> string \<Rightarrow> ('s, exn, unit) act" where
  "consume_demo C hmac ipAddress s =
     (case increment_key C (''rate:demo-admin:ip:'' @ deriveOpaqueKey hmac ''demo-admin-ip'' ipAddress) s of
        (Inl _, s') \<Rightarrow> (Inl login_unavailable, s')
      | (Inr r, s') \<Rightarrow>
          if fst r > LOGIN_RATE_LIMIT_ATTEMPTS then (Inl (rate_limited ''Too many login attempts.'' (snd r)), s')
          else (Inr (), s'))"

section \<open>One window\<close>

definition counted :: "'s counters \<Rightarrow> string \<Rightarrow> 's \<Rightarrow> int" where
  "counted C k s = (case ct_get C k s of None \<Rightarrow> 0 | Some n \<Rightarrow> n)"

lemma incr_window_spec:
  assumes "counter_laws C" and "0 < ms" and "incr_window C k ms s = (n, s')"
  shows "n = counted C k s + 1" and "ct_get C k' s' = (if k' = k then Some n else ct_get C k' s)"
    and "k' \<noteq> k \<Longrightarrow> ct_pttl C k' s' = ct_pttl C k' s"
    and "n = 1 \<Longrightarrow> ct_pttl C k s' = ms" and "n \<noteq> 1 \<Longrightarrow> ct_pttl C k s' = ct_pttl C k s"
proof -
  obtain m s1 where i: "ct_incr C k s = (m, s1)" by fastforce
  note laws = assms(1) [unfolded counter_laws_def]
  have m: "m = counted C k s + 1" "\<forall>k'. ct_get C k' s1 = (if k' = k then Some m else ct_get C k' s)"
    "\<forall>k'. ct_pttl C k' s1 = (if k' = k \<and> ct_get C k s = None then - 1 else ct_pttl C k' s)"
    using conjunct1 [OF laws, THEN spec [of _ k], THEN spec [of _ s], unfolded i fst_conv snd_conv]
    by (auto simp: counted_def split: option.splits)
  have e: "\<forall>k'. ct_get C k' (ct_pexpire C k ms s1) = ct_get C k' s1
      \<and> ct_pttl C k' (ct_pexpire C k ms s1) = (if k' = k then ms else ct_pttl C k' s1)"
    using conjunct2 [OF laws] m(2) assms(2) by simp
  have n: "n = m" "s' = (if m = 1 then ct_pexpire C k ms s1 else s1)"
    using assms(3) i by (auto simp: incr_window_def)
  show "n = counted C k s + 1" using n m by simp
  show "ct_get C k' s' = (if k' = k then Some n else ct_get C k' s)" using n m(2) e by simp
  show "k' \<noteq> k \<Longrightarrow> ct_pttl C k' s' = ct_pttl C k' s" using n m(3) e by simp
  show "n = 1 \<Longrightarrow> ct_pttl C k s' = ms" using n e by simp
  show "n \<noteq> 1 \<Longrightarrow> ct_pttl C k s' = ct_pttl C k s" using n m(1,3) by (auto simp: counted_def split: option.splits)
qed

lemma keys_differ:
  "deriveControlKey h ''rate-user'' a \<noteq> deriveControlKey h ''rate-organisation'' b"
  "ipKey h inp \<noteq> accountKey h inp'"
  by (simp_all add: deriveControlKey_def ipKey_def accountKey_def)

text \<open>
  With Redis reachable, a chat request raises the counter of its user and of its organisation
  by one each and no other counter, whatever the outcome. It is admitted exactly when neither
  counter is over its limit with time left in its window; otherwise it is refused with
  \<^verbatim>\<open>RATE_LIMITED\<close> and a retry time of at least one second that covers the longer of the
  exceeded windows. The first request of a user starts a window of one minute.
\<close>

theorem chat_rate_limit_decision:
  assumes laws: "counter_laws (co_counters env)" and up: "ct_link (co_counters env) s = LinkUp"
    and uk: "uk = deriveControlKey (co_hmac env) ''rate-user'' [orgId, userId]"
    and ok: "ok = deriveControlKey (co_hmac env) ''rate-organisation'' [orgId]"
    and pos: "counted (co_counters env) uk s \<ge> 0" "counted (co_counters env) ok s \<ge> 0"
    and run: "consumeRateLimit env orgId userId plan s = (r, s')"
  shows "(\<forall>k. counted (co_counters env) k s' = counted (co_counters env) k s + (if k = uk \<or> k = ok then 1 else 0))
    \<and> (counted (co_counters env) uk s = 0 \<longrightarrow> ct_pttl (co_counters env) uk s' = 60000)
    \<and> (r = Inr () \<and> \<not> (counted (co_counters env) uk s \<ge> userRpm (co_limits env plan) \<and> ct_pttl (co_counters env) uk s' > 0)
         \<and> \<not> (counted (co_counters env) ok s \<ge> organisationRpm (co_limits env plan) \<and> ct_pttl (co_counters env) ok s' > 0)
      \<or> (\<exists>t. r = Inl (rate_limited ''Too many chat requests.'' t) \<and> t > 0
         \<and> (counted (co_counters env) uk s \<ge> userRpm (co_limits env plan) \<longrightarrow> t \<ge> ct_pttl (co_counters env) uk s')
         \<and> (counted (co_counters env) ok s \<ge> organisationRpm (co_limits env plan) \<longrightarrow> t \<ge> ct_pttl (co_counters env) ok s')
         \<and> (counted (co_counters env) uk s \<ge> userRpm (co_limits env plan) \<and> t = ct_pttl (co_counters env) uk s'
          \<or> counted (co_counters env) ok s \<ge> organisationRpm (co_limits env plan) \<and> t = ct_pttl (co_counters env) ok s')))"
proof -
  let ?C = "co_counters env" and ?W = CHAT_RATE_LIMIT_WINDOW_MS
  have W: "0 < ?W" "?W = 60000" by (simp_all add: CHAT_RATE_LIMIT_WINDOW_MS_def)
  obtain n1 s1 where i1: "incr_window ?C uk ?W s = (n1, s1)" by fastforce
  obtain n2 s2 where i2: "incr_window ?C ok ?W s1 = (n2, s2)" by fastforce
  note u = incr_window_spec [OF laws W(1) i1] and o = incr_window_spec [OF laws W(1) i2]
  have ne: "uk \<noteq> ok" unfolding uk ok by (rule keys_differ)
  have n1: "n1 = counted ?C uk s + 1" by (rule u(1))
  have n2: "n2 = counted ?C ok s + 1" using o(1) u(2) [of ok] ne by (simp add: counted_def)
  have cnt: "counted ?C k s2 = counted ?C k s + (if k = uk \<or> k = ok then 1 else 0)" for k
    using u(2) [of k] o(2) [of k] n1 n2 ne by (auto simp: counted_def)
  have ttl: "ct_pttl ?C uk s2 = ct_pttl ?C uk s1" using o(3) ne by simp
  have "s' = s2" "r = (let t = max (if n1 > userRpm (co_limits env plan) then ct_pttl ?C uk s2 else 0)
        (if n2 > organisationRpm (co_limits env plan) then ct_pttl ?C ok s2 else 0)
      in if t > 0 then Inl (rate_limited ''Too many chat requests.'' t) else Inr ())"
    using run up i1 i2 pos n1 n2
    by (auto simp: consumeRateLimit_def counter_eval_def RATE_SCRIPT_def Let_def uk [symmetric] ok [symmetric] split: if_splits)
  with cnt ttl u(4) n1 n2 W(2) show ?thesis
    by (auto simp: Let_def max_def split: if_splits)
qed

section \<open>Login attempts\<close>

lemma increment_key_spec:
  assumes laws: "counter_laws C" and run: "increment_key C k s = (r, s')"
  shows "(ct_get C k' s' = ct_get C k' s \<and> (\<exists>e. r = Inl e))
    \<or> (ct_get C k' s' = (if k' = k then Some (counted C k s + 1) else ct_get C k' s)
       \<and> ((\<exists>e. r = Inl e) \<or> (\<exists>t. r = Inr (counted C k s + 1, t) \<and> counted C k s + 1 \<ge> 1)))"
proof -
  obtain n s1 where i: "incr_window C k LOGIN_RATE_LIMIT_WINDOW_MS s = (n, s1)" by fastforce
  have "0 < LOGIN_RATE_LIMIT_WINDOW_MS" by (simp add: LOGIN_RATE_LIMIT_WINDOW_MS_def)
  note w = incr_window_spec(1,2) [OF laws this i]
  have "r = Inl (ExnOther ''Connection is closed.'') \<and> (s' = s \<or> s' = s1)
      \<or> s' = s1 \<and> r = (if n < 1 then Inl (ExnOther ''ZodError'') else Inr (n, ct_pttl C k s1))"
    using run i by (cases "ct_link C s")
      (auto simp: increment_key_def counter_eval_def INCREMENT_SCRIPT_def act_bind_apply split: if_splits)
  with w show ?thesis by (auto split: if_splits)
qed

text \<open>
  The life of one counter key, with the number of login attempts that were admitted since the key
  last started: an attempt that uses the key, an attempt that does not, anything that leaves the
  counter alone (time, other clients), and the expiry of the key.
\<close>

inductive login_step :: "'s counters \<Rightarrow> (string \<Rightarrow> string) \<Rightarrow> string \<Rightarrow> 's \<times> nat \<Rightarrow> 's \<times> nat \<Rightarrow> bool"
  for C h key where
  attempt: "consume_login C h inp s = (r, s') \<Longrightarrow> key = ipKey h inp \<or> key = accountKey h inp \<Longrightarrow>
     login_step C h key (s, n) (s', (if ct_get C key s = None then 0 else n) + (if r = Inr () then 1 else 0))"
| foreign: "consume_login C h inp s = (r, s') \<Longrightarrow> key \<noteq> ipKey h inp \<and> key \<noteq> accountKey h inp \<Longrightarrow>
     login_step C h key (s, n) (s', n)"
| other: "ct_get C key s' = ct_get C key s \<Longrightarrow> login_step C h key (s, n) (s', n)"
| expire: "ct_get C key s' = None \<Longrightarrow> login_step C h key (s, n) (s', 0)"

inductive login_reachable :: "'s counters \<Rightarrow> (string \<Rightarrow> string) \<Rightarrow> string \<Rightarrow> 's \<Rightarrow> 's \<times> nat \<Rightarrow> bool"
  for C h key s0 where
  start: "login_reachable C h key s0 (s0, 0)"
| step: "login_reachable C h key s0 c \<Longrightarrow> login_step C h key c c' \<Longrightarrow> login_reachable C h key s0 c'"

definition window_ok :: "'s counters \<Rightarrow> string \<Rightarrow> 's \<times> nat \<Rightarrow> bool" where
  "window_ok C key c \<longleftrightarrow> int (snd c) \<le> counted C key (fst c) \<and> int (snd c) \<le> LOGIN_RATE_LIMIT_ATTEMPTS"

lemma consume_login_counts:
  assumes laws: "counter_laws C" and run: "consume_login C h inp s = (r, s')"
  shows "key \<noteq> ipKey h inp \<and> key \<noteq> accountKey h inp \<Longrightarrow> ct_get C key s' = ct_get C key s"
    and "key = ipKey h inp \<or> key = accountKey h inp \<Longrightarrow>
      (counted C key s' = counted C key s + 1 \<or> counted C key s' = counted C key s \<and> (\<exists>e. r = Inl e))
      \<and> (r = Inr () \<longrightarrow> counted C key s + 1 \<le> LOGIN_RATE_LIMIT_ATTEMPTS \<and> counted C key s' = counted C key s + 1)"
proof -
  obtain r1 s1 where i1: "increment_key C (ipKey h inp) s = (r1, s1)" by fastforce
  obtain r2 s2 where i2: "increment_key C (accountKey h inp) s1 = (r2, s2)" by fastforce
  have ne: "ipKey h inp \<noteq> accountKey h inp" by (rule keys_differ)
  note k1 = increment_key_spec [OF laws i1] and k2 = increment_key_spec [OF laws i2]
  have s': "s' = s2" and r: "r = Inr () \<Longrightarrow> \<exists>a b. r1 = Inr a \<and> r2 = Inr b \<and> fst a \<le> LOGIN_RATE_LIMIT_ATTEMPTS \<and> fst b \<le> LOGIN_RATE_LIMIT_ATTEMPTS"
    and e: "(\<exists>e. r1 = Inl e) \<or> (\<exists>e. r2 = Inl e) \<Longrightarrow> \<exists>e. r = Inl e"
    using run i1 i2 by (auto simp: consume_login_def split: sum.splits if_splits option.splits)
  show "key \<noteq> ipKey h inp \<and> key \<noteq> accountKey h inp \<Longrightarrow> ct_get C key s' = ct_get C key s"
    using k1 [of key] k2 [of key] s' by auto
  show "key = ipKey h inp \<or> key = accountKey h inp \<Longrightarrow>
      (counted C key s' = counted C key s + 1 \<or> counted C key s' = counted C key s \<and> (\<exists>e. r = Inl e))
      \<and> (r = Inr () \<longrightarrow> counted C key s + 1 \<le> LOGIN_RATE_LIMIT_ATTEMPTS \<and> counted C key s' = counted C key s + 1)"
    using k1 [of "ipKey h inp"] k1 [of "accountKey h inp"] k2 [of "ipKey h inp"] k2 [of "accountKey h inp"] ne s' r e
    by (auto simp: counted_def)
qed

lemma window_ok_step:
  assumes "counter_laws C" and "login_step C h key c c'" and "window_ok C key c"
  shows "window_ok C key c'"
  using assms(2,3)
proof (induction rule: login_step.induct)
  case (attempt inp s r s' n)
  note cl = consume_login_counts(2) [OF assms(1) attempt(1,2)]
  have "int (if ct_get C key s = None then 0 else n) \<le> counted C key s" "int (if ct_get C key s = None then 0 else n) \<le> LOGIN_RATE_LIMIT_ATTEMPTS"
    using attempt(3) by (auto simp: window_ok_def counted_def LOGIN_RATE_LIMIT_ATTEMPTS_def)
  with cl show ?case by (auto simp: window_ok_def)
next
  case (foreign inp s r s' n)
  then show ?case using consume_login_counts(1) [OF assms(1) foreign(1,2)] by (simp add: window_ok_def counted_def)
next
  case (other s' s n)
  then show ?case by (simp add: window_ok_def counted_def)
next
  case (expire s' s n)
  then show ?case by (simp add: window_ok_def counted_def LOGIN_RATE_LIMIT_ATTEMPTS_def)
qed

text \<open>
  C36. In every interleaving of login attempts from any address for any account, expiries and other
  activity, at most ten attempts are admitted in one window of a counter, be it the counter of an
  address or of an account.
\<close>

theorem login_attempts_bounded:
  assumes "counter_laws C" and "login_reachable C h key s0 (s, n)" and "ct_get C key s0 = None"
  shows "n \<le> 10"
proof -
  have "window_ok C key (s, n)"
    using assms(2)
  proof (induction "(s, n)" arbitrary: s n rule: login_reachable.induct)
    case start
    then show ?case using assms(3) by (simp add: window_ok_def counted_def LOGIN_RATE_LIMIT_ATTEMPTS_def)
  next
    case (step c)
    then show ?case using window_ok_step [OF assms(1)] by (metis prod.collapse)
  qed
  then show ?thesis by (simp add: window_ok_def LOGIN_RATE_LIMIT_ATTEMPTS_def)
qed

section \<open>Witnesses\<close>

type_synonym mem_counter_store = "string \<Rightarrow> (int \<times> int) option"

definition mem_counters :: "mem_counter_store counters" where
  "mem_counters = \<lparr>
     ct_incr = (\<lambda>k s. case s k of None \<Rightarrow> (1, s(k \<mapsto> (1, - 1))) | Some (n, t) \<Rightarrow> (n + 1, s(k \<mapsto> (n + 1, t)))),
     ct_pexpire = (\<lambda>k ms s. case s k of None \<Rightarrow> s | Some (n, t) \<Rightarrow> s(k \<mapsto> (n, ms))),
     ct_pttl = (\<lambda>k s. case s k of None \<Rightarrow> - 2 | Some (n, t) \<Rightarrow> t),
     ct_link = (\<lambda>s. LinkUp),
     ct_get = (\<lambda>k s. map_option fst (s k))\<rparr>"

lemma mem_counter_laws: "counter_laws mem_counters"
  by (auto simp: counter_laws_def mem_counters_def split: option.splits)

definition mem_control :: "mem_counter_store control_env" where
  "mem_control = \<lparr>co_counters = mem_counters, co_hmac = (\<lambda>x. x), co_limits = (\<lambda>_. \<lparr>userRpm = 0, organisationRpm = 5\<rparr>)\<rparr>"

theorem chat_rate_limit_decision_witness:
  "\<exists>s' t. consumeRateLimit mem_control ''o'' ''u'' FREE (\<lambda>_. None) = (Inl (rate_limited ''Too many chat requests.'' t), s') \<and> 0 < t"
proof -
  obtain r s' where run: "consumeRateLimit mem_control ''o'' ''u'' FREE (\<lambda>_. None) = (r, s')" by fastforce
  have "counter_laws (co_counters mem_control)" "ct_link (co_counters mem_control) (\<lambda>_. None) = LinkUp"
    and zero: "counted (co_counters mem_control) k (\<lambda>_. None) = 0" for k
    using mem_counter_laws by (simp_all add: mem_control_def counted_def) (simp_all add: mem_counters_def)
  with chat_rate_limit_decision [OF this(1,2) refl refl _ _ run] have
    "r \<noteq> Inr () \<and> (\<exists>t. r = Inl (rate_limited ''Too many chat requests.'' t) \<and> t > 0)"
    by (auto simp: mem_control_def)
  with run show ?thesis by blast
qed

theorem login_attempts_bounded_witness:
  "\<exists>s'. login_reachable mem_counters (\<lambda>x. x) (ipKey (\<lambda>x. x) \<lparr>lr_ipAddress = ''i'', lr_organisationSlug = ''o'', lr_emailNormalized = ''e''\<rparr>)
      (\<lambda>_. None) (s', 1) \<and> (1::nat) \<le> 10"
proof -
  let ?i = "\<lparr>lr_ipAddress = ''i'', lr_organisationSlug = ''o'', lr_emailNormalized = ''e''\<rparr>" and ?k = "ipKey (\<lambda>x. x)"
  obtain s' where run: "consume_login mem_counters (\<lambda>x. x) ?i (\<lambda>_. None) = (Inr (), s')"
    by (simp add: consume_login_def increment_key_def counter_eval_def mem_counters_def INCREMENT_SCRIPT_def incr_window_def
        act_bind_apply LOGIN_RATE_LIMIT_ATTEMPTS_def keys_differ [symmetric])
  have "login_reachable mem_counters (\<lambda>x. x) (?k ?i) (\<lambda>_. None) (s', 1)"
    using login_reachable.step [OF login_reachable.start login_step.attempt [OF run, of "?k ?i" 0]]
    by (simp add: mem_counters_def)
  moreover have "ct_get mem_counters (?k ?i) (\<lambda>_. None) = None" by (simp add: mem_counters_def)
  ultimately show ?thesis using login_attempts_bounded [OF mem_counter_laws] by blast
qed

end
