(* ===== verification/AuthController.thy ===== *)
theory AuthController
  imports AccessProperties RateLimit
begin

text \<open>
  The handlers of \<^verbatim>\<open>auth.controller.ts\<close> and \<^verbatim>\<open>demo-admin.controller.ts\<close>, the schema of a login
  (\<^verbatim>\<open>login.schema.ts\<close>) and the service of the public demo (\<^verbatim>\<open>demo-admin.service.ts\<close>). The state of a
  handler is the world and what was done to the response so far. The case mapping of Unicode and the
  address check of the schema library are parameters; so is the rate limiter, which
  \<open>RateLimit\<close> models.
\<close>

section \<open>Responses\<close>

datatype reply_body = NoBody | LoginBody jsstr int LoginResponseUser | SessionBody jsstr int | LoggedOutBody
  | DemoBody jsstr jsstr int LoginResponseUser | MeBody RequestAuth LoginResponseUser

datatype reply_op = SetRefreshCookie jsstr | ClearRefreshCookie | NoStore | Answer nat reply_body

type_synonym ('s, 'e, 'a) handler = "('s \<times> reply_op list, 'e, 'a) act"

definition reply :: "reply_op \<Rightarrow> ('s, 'e, unit) handler" where
  "reply op = act_modify (\<lambda>(w, ops). (w, ops @ [op]))"

lemma wp_reply [wp_simps]: "wp (reply op) Q (w, ops) \<longleftrightarrow> Q (Inr ()) (w, ops @ [op])"
  by (simp add: reply_def wp_modify)

section \<open>Cookies\<close>

definition REFRESH_COOKIE_NAME :: string where "REFRESH_COOKIE_NAME = ''proxiai_refresh''"

fun cookie_loop :: "jsstr \<Rightarrow> jsstr list \<Rightarrow> jsstr option" where
  "cookie_loop cookieName [] = None"
| "cookie_loop cookieName (cookiePart # parts) =
     (let fields = js_split 61 (js_trim cookiePart)
      in if hd fields = cookieName then Some (js_join 61 (tl fields)) else cookie_loop cookieName parts)"

definition getCookieValue :: "jsstr option \<Rightarrow> jsstr \<Rightarrow> jsstr option" where
  "getCookieValue cookieHeader cookieName =
     (case cookieHeader of None \<Rightarrow> None | Some h \<Rightarrow> if h = [] then None else cookie_loop cookieName (js_split 59 h))"

section \<open>Login\<close>

record login_checks =
  lk_toLowerCase :: "jsstr \<Rightarrow> jsstr"
  lk_email :: "jsstr \<Rightarrow> bool"

definition loginRequestSchema :: "'s auth_env \<Rightarrow> login_checks \<Rightarrow> json \<Rightarrow> LoginInput option" where
  "loginRequestSchema V K body =
     (case body of
        JObj ps \<Rightarrow>
          if set (map fst ps) \<subseteq> set (map js_lit [''organisationSlug'', ''email'', ''password''])
          then (case (map_of ps (js_lit ''organisationSlug''), map_of ps (js_lit ''email''), map_of ps (js_lit ''password'')) of
              (Some (JStr slug0), Some (JStr email0), Some (JStr password)) \<Rightarrow>
                let slug = lk_toLowerCase K (js_trim slug0); email = lk_toLowerCase K (js_trim email0)
                in if 2 \<le> length slug \<and> length slug \<le> 63 \<and> slug_pattern slug \<and> lk_email K email \<and> length email \<le> 254
                      \<and> 1 \<le> length password \<and> length (code_points (au_normalizeNFC V password)) \<le> MAX_PASSWORD_CODE_POINTS
                   then Some \<lparr>li_organisationSlug = slug, li_emailNormalized = email, li_password = password\<rparr> else None
            | _ \<Rightarrow> None)
          else None
      | _ \<Rightarrow> None)"

definition request_invalid :: exn where
  "request_invalid = app_exn 400 ''VALIDATION_ERROR'' ''Request validation failed.''"

definition login_handler ::
  "'s auth_env \<Rightarrow> login_checks \<Rightarrow> (jsstr \<Rightarrow> LoginInput \<Rightarrow> ('s, exn, unit) act) \<Rightarrow> jsstr \<Rightarrow> string \<Rightarrow> json \<Rightarrow> ('s, exn, unit) handler" where
  "login_handler V K consume ipAddress requestId body =
     (case loginRequestSchema V K body of
        None \<Rightarrow> act_throw request_invalid
      | Some i \<Rightarrow>
          act_then (on_store (consume ipAddress i))
         (act_bind (on_store (login V i (Some requestId))) (\<lambda>result.
            act_then (reply (SetRefreshCookie (lr_refreshToken result)))
           (act_then (reply NoStore)
              (reply (Answer 200 (LoginBody (lr_accessToken result) (lr_expiresInSeconds result) (lr_user result))))))))"

section \<open>Refresh and logout\<close>

definition clears_cookie :: "refresh_exn \<Rightarrow> bool" where
  "clears_cookie e \<longleftrightarrow> (case e of RefreshError (ExnApp a) \<Rightarrow> ae_statusCode a = 401 | _ \<Rightarrow> False)"

definition refresh_session ::
  "'s auth_env \<Rightarrow> jsstr \<Rightarrow> string \<Rightarrow> ('s, refresh_exn, unit) handler" where
  "refresh_session V rawRefreshToken requestId =
     act_catch
       (act_bind (on_store (refreshSession V rawRefreshToken (Some requestId))) (\<lambda>result.
          act_then (reply (SetRefreshCookie (rr_refreshToken result)))
         (act_then (reply NoStore)
            (reply (Answer 200 (SessionBody (rr_accessToken result) (rr_expiresInSeconds result)))))))
       (\<lambda>e. act_then (if clears_cookie e then reply ClearRefreshCookie else act_ret ()) (act_throw e))"

definition refresh_handler ::
  "'s auth_env \<Rightarrow> jsstr option \<Rightarrow> string \<Rightarrow> ('s, refresh_exn, unit) handler" where
  "refresh_handler V cookieHeader requestId =
     (case getCookieValue cookieHeader (js_lit REFRESH_COOKIE_NAME) of
        None \<Rightarrow> act_then (reply ClearRefreshCookie) (act_then (reply NoStore) (reply (Answer 204 NoBody)))
      | Some raw \<Rightarrow> if raw = [] then act_then (reply ClearRefreshCookie) (act_then (reply NoStore) (reply (Answer 204 NoBody)))
          else refresh_session V raw requestId)"

definition logout_handler :: "'s auth_env \<Rightarrow> jsstr option \<Rightarrow> string \<Rightarrow> ('s, exn, unit) handler" where
  "logout_handler V cookieHeader requestId =
     act_then (reply ClearRefreshCookie)
    (act_then (on_store (logoutSession V (getCookieValue cookieHeader (js_lit REFRESH_COOKIE_NAME)) (Some requestId)))
    (act_then (reply NoStore) (reply (Answer 200 LoggedOutBody))))"

definition me_handler :: "(RequestAuth \<times> LoginResponseUser) option \<Rightarrow> ('s, exn, unit) handler" where
  "me_handler auth =
     (case auth of
        None \<Rightarrow> act_throw (app_exn 500 ''INTERNAL_ERROR'' ''An unexpected error occurred.'')
      | Some (a, p) \<Rightarrow> act_then (reply NoStore) (reply (Answer 200 (MeBody a p))))"

section \<open>The public demo\<close>

definition DEMO_ORGANISATION_SLUG :: jsstr where "DEMO_ORGANISATION_SLUG = js_lit ''novastack''"
definition DEMO_PRIVATE_ADMIN_EMAIL :: jsstr where "DEMO_PRIVATE_ADMIN_EMAIL = js_lit ''admin-demo@novastack.demo''"

definition demo_unavailable :: exn where
  "demo_unavailable = app_exn 503 ''DEMO_ADMIN_UNAVAILABLE'' ''The public admin demo is temporarily unavailable.''"

record PublicAdminDemoResult =
  pd_accessToken :: jsstr
  pd_expiresAt :: jsstr
  pd_expiresInSeconds :: int
  pd_user :: LoginResponseUser

definition permissions_canonical :: "User \<Rightarrow> bool" where
  "permissions_canonical u \<longleftrightarrow> length (usr_permissions u) = length (USER_PERMISSIONS_BY_ROLE ORG_ADMIN)
     \<and> list_all (\<lambda>p. p \<in> set (usr_permissions u)) (USER_PERMISSIONS_BY_ROLE ORG_ADMIN)"

definition demo_find_accounts :: "'s auth_env \<Rightarrow> ('s, exn, Organisation option \<times> User option) act" where
  "demo_find_accounts V =
     or_throw (act_bind (findOrganisationForLogin V DEMO_ORGANISATION_SLUG) (\<lambda>organisation. case organisation of
         None \<Rightarrow> act_ret (None, None)
       | Some g \<Rightarrow> act_bind (findUserByOrgIdAndEmailNormalized V (og_orgId g) DEMO_PRIVATE_ADMIN_EMAIL) (\<lambda>u. act_ret (Some g, u))))
       demo_unavailable"

definition demo_start :: "'s auth_env \<Rightarrow> string \<Rightarrow> ('s, exn, PublicAdminDemoResult) act" where
  "demo_start V requestId =
     act_bind (demo_find_accounts V) (\<lambda>(organisation, user). case (organisation, user) of
        (Some g, Some u) \<Rightarrow>
          if og_status g \<noteq> org_ACTIVE \<or> usr_status u \<noteq> user_ACTIVE \<or> usr_role u \<noteq> ORG_ADMIN \<or> \<not> permissions_canonical u
          then act_throw demo_unavailable
          else act_bind (draw (au_randomUUID V)) (\<lambda>sessionId.
            act_bind (or_throw (createPublicAdminDemoAccessToken V (access_input u (og_orgId g) sessionId)) demo_unavailable) (\<lambda>token.
            act_then (auditBestEffort V \<lparr>ev_orgId = og_orgId g, ev_actorId = Some (usr_userId u), ev_actorType = ''USER'',
                ev_actorRole = Some (usr_role u), ev_action = ''auth.login_succeeded'', ev_outcome = ''SUCCESS'',
                ev_resourceId = Some sessionId, ev_reasonCode = None\<rparr> (Some requestId))
              (act_ret \<lparr>pd_accessToken = ar_accessToken token, pd_expiresAt = ar_expiresAt token,
                 pd_expiresInSeconds = ar_expiresInSeconds token, pd_user = createSafeAuthProfile u g\<rparr>)))
      | _ \<Rightarrow> act_throw demo_unavailable)"

definition demo_admin_handler ::
  "'s auth_env \<Rightarrow> bool \<Rightarrow> (jsstr \<Rightarrow> ('s, exn, unit) act) \<Rightarrow> jsstr \<Rightarrow> string \<Rightarrow> json option \<Rightarrow> ('s, exn, unit) handler" where
  "demo_admin_handler V enabled consume ipAddress requestId body =
     (if \<not> enabled then act_throw (app_exn 404 ''NOT_FOUND'' ''Resource not found.'')
      else if body \<noteq> None \<and> body \<noteq> Some (JObj []) then act_throw request_invalid
      else act_then (on_store (consume ipAddress))
          (act_bind (on_store (demo_start V requestId)) (\<lambda>result.
             act_then (reply ClearRefreshCookie)
            (act_then (reply NoStore)
               (reply (Answer 200 (DemoBody (pd_accessToken result) (pd_expiresAt result) (pd_expiresInSeconds result) (pd_user result))))))))"

section \<open>The cookie is read back\<close>

lemma js_split_nonempty: "js_split c s \<noteq> []"
  by (induction s) (auto split: list.split)

lemma js_split_none: "c \<notin> set s \<Longrightarrow> js_split c s = [s]"
  by (induction s) auto

lemma js_split_append: "c \<notin> set s \<Longrightarrow> js_split c (s @ c # t) = s # js_split c t"
  by (induction s) auto

lemma js_join_split: "js_join c (js_split c s) = s"
proof (induction s)
  case (Cons u s)
  show ?case
  proof (cases "js_split c s")
    case Nil
    then show ?thesis using js_split_nonempty by blast
  next
    case (Cons w ws)
    then show ?thesis using Cons.IH by (cases ws) auto
  qed
qed simp

lemma js_trim_none: "s \<noteq> [] \<Longrightarrow> \<not> js_space (hd s) \<Longrightarrow> \<not> js_space (last s) \<Longrightarrow> js_trim s = s"
proof -
  assume s: "s \<noteq> []" "\<not> js_space (hd s)" "\<not> js_space (last s)"
  have "dropWhile js_space s = s" using s(1,2) by (cases s) auto
  moreover have "dropWhile js_space (rev s) = rev s" using s(1,3) by (cases s rule: rev_cases) auto
  ultimately show "js_trim s = s" by (simp add: js_trim_def trimStart_def)
qed

text \<open>A cookie of the given name is found behind any cookies of other names, if its value has no
  semicolon and no space at its ends.\<close>

lemma cookie_loop_found:
  assumes "\<forall>p \<in> set before. hd (js_split 61 (js_trim p)) \<noteq> name"
    and name: "name \<noteq> []" "61 \<notin> set name" "\<not> js_space (hd name)" and v: "v = [] \<or> \<not> js_space (last v)" "\<not> js_space 61"
    and space: "space = [] \<or> space = [32]"
  shows "cookie_loop name (before @ (space @ name @ 61 # v) # after) = Some v"
  using assms(1)
proof (induction before)
  case Nil
  have t: "js_trim (name @ 61 # v) = name @ 61 # v"
  proof (rule js_trim_none)
    show "name @ 61 # v \<noteq> []" by simp
    show "\<not> js_space (hd (name @ 61 # v))" using name(1,3) by (simp add: hd_append)
    have "last (name @ 61 # v) = (if v = [] then 61 else last v)" by simp
    then show "\<not> js_space (last (name @ 61 # v))" using v by auto
  qed
  have "js_space 32" by (simp add: js_space_def in_ranges_def rs_space_def)
  then have "trimStart (space @ name @ 61 # v) = trimStart (name @ 61 # v)" using space by (auto simp: trimStart_def)
  then have "js_trim (space @ name @ 61 # v) = name @ 61 # v" using t by (simp add: js_trim_def)
  then show ?case by (simp add: js_split_append [OF name(2)] js_join_split)
qed simp

section \<open>The errors of a refresh\<close>

definition fails_with :: "'e set \<Rightarrow> ('s, 'e, 'a) act \<Rightarrow> bool" where
  "fails_with E m \<longleftrightarrow> (\<forall>s e. fst (m s) = Inl e \<longrightarrow> e \<in> E)"

lemma fails_bind: "fails_with E m \<Longrightarrow> (\<And>x. fails_with E (k x)) \<Longrightarrow> fails_with E (act_bind m k)"
  by (auto simp: fails_with_def act_bind_apply split: prod.split sum.split) (metis fst_conv)+

lemma fails_then: "fails_with E m \<Longrightarrow> fails_with E k \<Longrightarrow> fails_with E (act_then m k)"
  unfolding act_then_def by (rule fails_bind)

lemma fails_simps:
  "fails_with E (act_ret x)" "fails_with E (act_throw e) \<longleftrightarrow> e \<in> E" "fails_with E (act_read f)" "fails_with E (attempt m)"
  "fails_with E (best_effort n)" "fails_with E (draw g)" "e \<in> E \<Longrightarrow> fails_with E (or_throw l e)"
  by (auto simp: fails_with_def attempt_def best_effort_def draw_def or_throw_def split: prod.splits sum.splits)

definition refresh_errors :: "refresh_exn set" where
  "refresh_errors = {invalidRefreshToken, RefreshConcurrencyError, RefreshError authUnavailable}"

lemma refresh_errors_in [simp]:
  "invalidRefreshToken \<in> refresh_errors" "RefreshConcurrencyError \<in> refresh_errors" "RefreshError authUnavailable \<in> refresh_errors"
  by (simp_all add: refresh_errors_def)

lemma revoke_and_throw_fails: "e \<in> refresh_errors \<Longrightarrow> fails_with refresh_errors (revoke_and_throw V t e)"
  unfolding revoke_and_throw_def revokeFamilyBestEffort_def by (intro fails_then fails_bind) (simp_all add: fails_simps)

lemma refresh_rotate_fails: "fails_with refresh_errors (refresh_rotate V t now)"
proof -
  have access: "fails_with refresh_errors (refresh_access V t m u)" for m u
    unfolding refresh_access_def by (intro fails_bind) (auto simp: fails_simps revoke_and_throw_fails split: option.split)
  have replace: "fails_with refresh_errors (refresh_replace V t m u)" for m u
    unfolding refresh_replace_def by (intro fails_bind) (auto simp: fails_simps revoke_and_throw_fails access)
  have claimed: "fails_with refresh_errors (refresh_claimed V t m)" for m
    unfolding refresh_claimed_def by (intro fails_bind) (auto simp: fails_simps revoke_and_throw_fails replace split: option.split)
  have material: "fails_with refresh_errors (createRotatedRefreshTokenMaterial V t now)"
    unfolding createRotatedRefreshTokenMaterial_def createRefreshTokenMaterial_def Let_def
    by (intro fails_bind) (simp_all add: fails_simps)
  show ?thesis unfolding refresh_rotate_def by (intro fails_bind material) (auto simp: fails_simps claimed)
qed

lemma refresh_used_fails: "fails_with refresh_errors (refresh_used V t usedAt now ctx)"
proof -
  have "fails_with refresh_errors (auditBestEffort V e ctx)" for e
    unfolding auditBestEffort_def by (simp add: fails_simps split: option.split)
  moreover have "fails_with refresh_errors (revokeFamilyBestEffort V t)"
    unfolding revokeFamilyBestEffort_def by (intro fails_bind) (simp_all add: fails_simps)
  ultimately show ?thesis unfolding refresh_used_def by (auto intro!: fails_then simp: fails_simps)
qed

lemma refreshSession_fails:
  assumes "refreshSession V raw ctx w = (Inl e, w')"
  shows "e = invalidRefreshToken \<or> e \<in> {RefreshConcurrencyError, RefreshError authUnavailable}"
proof -
  have "fails_with refresh_errors (refreshSession V raw ctx)"
    unfolding refreshSession_def
    by (intro fails_bind) (auto simp: fails_simps refresh_used_fails refresh_rotate_fails intro!: fails_bind split: option.split)
  then have "e \<in> refresh_errors" using assms unfolding fails_with_def by (metis fst_conv)
  then show ?thesis by (auto simp: refresh_errors_def)
qed

section \<open>Properties\<close>

lemma refresh_session_run:
  "refresh_session V raw requestId (w, ops) =
     (case refreshSession V raw (Some requestId) w of (r, w') \<Rightarrow>
        ((case r of Inl e \<Rightarrow> Inl e | Inr _ \<Rightarrow> Inr ()), (w', ops @ (case r of
            Inr x \<Rightarrow> [SetRefreshCookie (rr_refreshToken x), NoStore, Answer 200 (SessionBody (rr_accessToken x) (rr_expiresInSeconds x))]
          | Inl e \<Rightarrow> if clears_cookie e then [ClearRefreshCookie] else []))))"
  by (simp add: refresh_session_def act_catch_apply act_bind_apply act_then_apply on_store_def reply_def split: prod.split sum.split)

text \<open>C30. The refresh endpoint keeps cookie and session in step: without a cookie it clears it and
  answers 204; the cookie is replaced exactly when the stored token was exchanged, by the raw token of
  the successor; it is cleared exactly when the token is rejected as invalid, and it is left alone when
  another request of the same browser is rotating it or a dependency fails.\<close>

theorem refresh_cookie_follows_session:
  assumes laws: "auth_laws V n" and unique: "refresh_token_unique (as_tokens (auth_data V n w))"
    and run: "refresh_handler V header requestId (w, []) = (r, (w', ops))"
  shows "(case getCookieValue header (js_lit REFRESH_COOKIE_NAME) of
      None \<Rightarrow> r = Inr () \<and> w' = w \<and> ops = [ClearRefreshCookie, NoStore, Answer 204 NoBody]
    | Some raw \<Rightarrow>
        if raw = [] then r = Inr () \<and> w' = w \<and> ops = [ClearRefreshCookie, NoStore, Answer 204 NoBody]
        else case r of
          Inr _ \<Rightarrow> \<exists>x. refresh_granted V raw (auth_data V n w) (auth_data V n w') x \<and>
             ops = [SetRefreshCookie (rr_refreshToken x), NoStore, Answer 200 (SessionBody (rr_accessToken x) (rr_expiresInSeconds x))]
        | Inl e \<Rightarrow> refreshSession V raw (Some requestId) w = (Inl e, w')
             \<and> (e = invalidRefreshToken \<and> ops = [ClearRefreshCookie] \<or> e \<in> {RefreshConcurrencyError, RefreshError authUnavailable} \<and> ops = []))"
proof (cases "\<exists>raw. getCookieValue header (js_lit REFRESH_COOKIE_NAME) = Some raw \<and> raw \<noteq> []")
  case False
  then show ?thesis using run
    by (auto simp: refresh_handler_def act_then_apply reply_def split: option.splits)
next
  case True
  then obtain raw where raw: "getCookieValue header (js_lit REFRESH_COOKIE_NAME) = Some raw" "raw \<noteq> []" by blast
  obtain r1 w1 where s: "refreshSession V raw (Some requestId) w = (r1, w1)" by fastforce
  have h: "refresh_session V raw requestId (w, []) = (r, (w', ops))" using run raw by (simp add: refresh_handler_def)
  have c: "clears_cookie invalidRefreshToken" "\<not> clears_cookie RefreshConcurrencyError" "\<not> clears_cookie (RefreshError authUnavailable)"
    by (simp_all add: clears_cookie_def invalidRefreshToken_def authUnavailable_def app_exn_def app_error_def)
  show ?thesis
  proof (cases r1)
    case (Inr x)
    have "refresh_granted V raw (auth_data V n w) (auth_data V n w1) x"
      using wpD [OF wp_refreshSession [OF laws unique] s] Inr by simp
    moreover have "r = Inr ()" "w' = w1"
      "ops = [SetRefreshCookie (rr_refreshToken x), NoStore, Answer 200 (SessionBody (rr_accessToken x) (rr_expiresInSeconds x))]"
      using h unfolding refresh_session_run s Inr prod.case sum.case by simp_all
    ultimately show ?thesis unfolding raw(1) option.case if_not_P [OF raw(2)] by (simp only: sum.case) blast
  next
    case (Inl e)
    have "r = Inl e" "w' = w1" "ops = (if clears_cookie e then [ClearRefreshCookie] else [])"
      using h unfolding refresh_session_run s Inl prod.case sum.case by simp_all
    moreover have "e = invalidRefreshToken \<or> e \<in> {RefreshConcurrencyError, RefreshError authUnavailable}"
      by (rule refreshSession_fails [OF s [unfolded Inl]])
    ultimately show ?thesis using s c unfolding raw(1) option.case if_not_P [OF raw(2)] Inl by auto
  qed
qed

lemma demo_cookie: "getCookieValue (Some (js_lit ''proxiai_refresh=A'')) (js_lit REFRESH_COOKIE_NAME) = Some [65]"
proof -
  let ?name = "js_lit ''proxiai_refresh''" and ?h = "js_lit ''proxiai_refresh=A''"
  have h: "?h = [] @ ?name @ 61 # [65]" "?h \<noteq> []" by (simp_all add: js_lit_def)
  have "59 \<notin> set ?h" by (simp add: js_lit_def)
  then have "js_split 59 ?h = [] @ ([] @ ?name @ 61 # [65]) # []" unfolding h(1) by (simp add: js_split_none)
  moreover have "hd ?name = 112" by (simp add: js_lit_def)
  moreover have "\<not> js_space 112" "\<not> js_space 61" "\<not> js_space 65" by (simp_all add: js_space_def in_ranges_def rs_space_def)
  ultimately have c: "js_split 59 ?h = [] @ ([] @ ?name @ 61 # [65]) # []" "\<not> js_space (hd ?name)" "\<not> js_space 61" "\<not> js_space 65" by simp_all
  then have "cookie_loop ?name ([] @ ([] @ ?name @ 61 # [65]) # []) = Some [65]"
    by (intro cookie_loop_found) (auto simp: js_lit_def)
  then show ?thesis using c(1) h(2) unfolding getCookieValue_def REFRESH_COOKIE_NAME_def by (simp only: option.case if_False)
qed

theorem refresh_cookie_follows_session_witness:
  "\<exists>x w'. refresh_handler mem_auth (Some (js_lit ''proxiai_refresh=A'')) ''r'' (demo_auth [demo_token], []) =
     (Inr (), (w', [SetRefreshCookie (rr_refreshToken x), NoStore, Answer 200 (SessionBody (rr_accessToken x) (rr_expiresInSeconds x))]))
     \<and> refresh_granted mem_auth [65] (fst (demo_auth [demo_token])) (fst w') x"
proof -
  have u: "refresh_token_unique (as_tokens (auth_data mem_auth mem_verifications (demo_auth [demo_token])))"
    by (simp add: mem_auth_data demo_auth_def demo_unique)
  obtain x w where "refreshSession mem_auth [65] (Some ''r'') (demo_auth [demo_token]) = (Inr x, w)" using demo_rotation [of "Some ''r''"] by blast
  then obtain w' ops where r: "refresh_handler mem_auth (Some (js_lit ''proxiai_refresh=A'')) ''r'' (demo_auth [demo_token], []) = (Inr (), (w', ops))"
    by (simp add: refresh_handler_def demo_cookie refresh_session_run)
  from refresh_cookie_follows_session [OF mem_auth_laws u r] r show ?thesis by (auto simp: demo_cookie mem_auth_data)
qed

end
