(* ===== verification/AuditRecords.thy ===== *)
theory AuditRecords
  imports AccessProperties
begin

text \<open>
  Audit records (\<^verbatim>\<open>audit/audit.types.ts\<close>, \<^verbatim>\<open>audit.metadata.ts\<close>, \<^verbatim>\<open>audit.model.ts\<close>, the \<^verbatim>\<open>append\<close> of
  \<^verbatim>\<open>audit.repository.ts\<close>) and \<^verbatim>\<open>audit.service.ts\<close>: an administrative change and its audit record are
  one transaction of the database. The environment of the administration extends that of sessions
  by the collections of teams, alerts and audit records. Timestamps other than the moment of an
  audit record are left out.
\<close>

section \<open>Data\<close>

datatype AuditAction =
  auth_login_succeeded | auth_login_failed | auth_login_operational_error | auth_logout_succeeded | auth_refresh_reuse_detected
| audit_policy_allow | audit_policy_mask | audit_policy_block
| user_role_changed | user_team_changed | user_status_changed | user_sessions_revoked
| organisation_policy_changed | organisation_budget_changed | organisation_retention_changed
| alert_resolved | alert_reopened | audit_exported

datatype AuditActorType = actor_USER | actor_SYSTEM

datatype AuditOutcome = outcome_SUCCESS | outcome_FAILURE

datatype AuditResourceType =
  res_AUTH_SESSION | res_POLICY_DECISION | res_USER | res_ORGANISATION | res_ALERT | res_AUDIT_EXPORT

text \<open>No caller chooses the identifier or the moment of a record, so they are fields of the stored record only.\<close>

record NewAuditLog =
  na_orgId :: string
  na_actorId :: "string option"
  na_actorType :: AuditActorType
  na_actorRole :: "UserRole option"
  na_action :: AuditAction
  na_outcome :: AuditOutcome
  na_resourceType :: AuditResourceType
  na_resourceId :: "string option"
  na_metadata :: json
  na_ipAddress :: "jsstr option"
  na_userAgent :: "jsstr option"
  na_requestId :: string

record AuditLog = NewAuditLog +
  al_auditId :: string
  al_occurredAt :: int

record Team =
  tm_teamId :: string
  tm_orgId :: string
  tm_name :: jsstr
  tm_nameNormalized :: jsstr
  tm_description :: "jsstr option"
  tm_isActive :: bool
  tm_createdBy :: string

datatype AnomalyAlertStatus = alert_OPEN | alert_RESOLVED

record AnomalyAlertMetadata =
  amd_observedTokens :: int
  amd_baselineAverageTokens :: rat
  amd_baselineActiveDays :: int
  amd_baselineWindowStart :: jsstr
  amd_baselineWindowEnd :: jsstr
  amd_thresholdMultiplier :: int

record AnomalyAlert =
  aa_alertId :: string
  aa_orgId :: string
  aa_userId :: string
  aa_observedDay :: jsstr
  aa_metadata :: AnomalyAlertMetadata
  aa_status :: AnomalyAlertStatus
  aa_resolvedAt :: "int option"

section \<open>Metadata\<close>

text \<open>Checks of single fields, and strict objects whose result has the keys in the order of the schema.\<close>

definition int_from :: "int \<Rightarrow> int \<Rightarrow> json \<Rightarrow> bool" where
  "int_from lo hi v \<longleftrightarrow> (case v of JInt i \<Rightarrow> lo \<le> i \<and> i \<le> hi \<and> is_safe_integer i | _ \<Rightarrow> False)"

definition text_from :: "nat \<Rightarrow> nat \<Rightarrow> json \<Rightarrow> bool" where
  "text_from lo hi v \<longleftrightarrow> (case v of JStr s \<Rightarrow> lo \<le> length s \<and> length s \<le> hi | _ \<Rightarrow> False)"

definition one_of :: "string list \<Rightarrow> json \<Rightarrow> bool" where
  "one_of names v \<longleftrightarrow> (case v of JStr s \<Rightarrow> s \<in> set (map js_lit names) | _ \<Rightarrow> False)"

definition string_check :: "(jsstr \<Rightarrow> bool) \<Rightarrow> json \<Rightarrow> bool" where
  "string_check p v \<longleftrightarrow> (case v of JStr s \<Rightarrow> p s | _ \<Rightarrow> False)"

definition nullable :: "(json \<Rightarrow> bool) \<Rightarrow> json \<Rightarrow> bool" where
  "nullable p v \<longleftrightarrow> v = JNull \<or> p v"

definition strictObject :: "(string \<times> (json \<Rightarrow> bool)) list \<Rightarrow> json \<Rightarrow> json option" where
  "strictObject shape v =
     (case v of
        JObj ps \<Rightarrow>
          if set (map fst ps) \<subseteq> set (map (js_lit \<circ> fst) shape)
             \<and> list_all (\<lambda>(k, p). case map_of ps (js_lit k) of None \<Rightarrow> False | Some x \<Rightarrow> p x) shape
          then Some (JObj (map (\<lambda>(k, p). (js_lit k, the (map_of ps (js_lit k)))) shape))
          else None
      | _ \<Rightarrow> None)"

text \<open>\<^verbatim>\<open>/^[A-Z][A-Z0-9_]{0,79}$/\<close>.\<close>

definition reason_code :: "jsstr \<Rightarrow> bool" where
  "reason_code s \<longleftrightarrow> s \<noteq> [] \<and> length s \<le> 80 \<and> 65 \<le> hd s \<and> hd s \<le> 90
     \<and> list_all (\<lambda>u. 65 \<le> u \<and> u \<le> 90 \<or> 48 \<le> u \<and> u \<le> 57 \<or> u = 95) s"

abbreviation role_names :: "string list" where "role_names \<equiv> [''EMPLOYEE'', ''TEAM_LEAD'', ''ORG_ADMIN'']"

definition reasonSchema :: "(string \<times> (json \<Rightarrow> bool)) list" where
  "reasonSchema = [(''reasonCode'', string_check reason_code)]"

definition policySchema :: "(string \<times> (json \<Rightarrow> bool)) list" where
  "policySchema = [(''riskScore'', int_from 0 100), (''reasonCode'', text_from 1 80), (''categoryCount'', int_from 0 100)]"

definition roleSchema :: "(string \<times> (json \<Rightarrow> bool)) list" where
  "roleSchema = [(''oldRole'', one_of role_names), (''newRole'', one_of role_names)]"

definition teamSchema :: "schema_checks \<Rightarrow> (string \<times> (json \<Rightarrow> bool)) list" where
  "teamSchema Z = [(''oldTeamId'', nullable (string_check (sc_uuid Z))), (''newTeamId'', nullable (string_check (sc_uuid Z)))]"

definition statusSchema :: "(string \<times> (json \<Rightarrow> bool)) list" where
  "statusSchema = [(''oldStatus'', one_of [''INVITED'', ''ACTIVE'', ''DISABLED'']), (''newStatus'', one_of [''ACTIVE'', ''DISABLED'']),
     (''revokedSessionCount'', int_from 0 MAX_SAFE_INTEGER)]"

definition sessionsSchema :: "(string \<times> (json \<Rightarrow> bool)) list" where
  "sessionsSchema = [(''revokedSessionCount'', int_from 0 MAX_SAFE_INTEGER)]"

definition policyChangeSchema :: "(string \<times> (json \<Rightarrow> bool)) list" where
  "policyChangeSchema = [(''oldMaskThreshold'', int_from 0 100), (''newMaskThreshold'', int_from 0 100),
     (''oldBlockThreshold'', int_from 0 100), (''newBlockThreshold'', int_from 0 100),
     (''oldMaxOutputTokensPerRequest'', int_from 1 4096), (''newMaxOutputTokensPerRequest'', int_from 1 4096)]"

definition budgetSchema :: "(string \<times> (json \<Rightarrow> bool)) list" where
  "budgetSchema = [(''oldMonthlyTokenBudget'', int_from 0 MAX_SAFE_INTEGER), (''newMonthlyTokenBudget'', int_from 0 MAX_SAFE_INTEGER)]"

definition retentionSchema :: "(string \<times> (json \<Rightarrow> bool)) list" where
  "retentionSchema = [(''oldMode'', one_of [''METADATA_ONLY'', ''ENCRYPTED_STORAGE'']),
     (''newMode'', one_of [''METADATA_ONLY'', ''ENCRYPTED_STORAGE''])]"

definition alertSchema :: "(string \<times> (json \<Rightarrow> bool)) list" where
  "alertSchema = [(''oldStatus'', one_of [''OPEN'', ''RESOLVED'']), (''newStatus'', one_of [''OPEN'', ''RESOLVED''])]"

definition exportSchema :: "schema_checks \<Rightarrow> (string \<times> (json \<Rightarrow> bool)) list" where
  "exportSchema Z = [(''dateFrom'', string_check (sc_datetime Z)), (''dateTo'', string_check (sc_datetime Z)),
     (''actorIdFilter'', nullable (string_check (sc_uuid Z))), (''actionFilter'', nullable (text_from 0 120)),
     (''rowCount'', int_from 0 10000)]"

fun schemaByAction :: "schema_checks \<Rightarrow> AuditAction \<Rightarrow> (string \<times> (json \<Rightarrow> bool)) list" where
  "schemaByAction Z auth_login_succeeded = []"
| "schemaByAction Z auth_login_failed = reasonSchema"
| "schemaByAction Z auth_login_operational_error = reasonSchema"
| "schemaByAction Z auth_logout_succeeded = reasonSchema"
| "schemaByAction Z auth_refresh_reuse_detected = reasonSchema"
| "schemaByAction Z audit_policy_allow = policySchema"
| "schemaByAction Z audit_policy_mask = policySchema"
| "schemaByAction Z audit_policy_block = policySchema"
| "schemaByAction Z user_role_changed = roleSchema"
| "schemaByAction Z user_team_changed = teamSchema Z"
| "schemaByAction Z user_status_changed = statusSchema"
| "schemaByAction Z user_sessions_revoked = sessionsSchema"
| "schemaByAction Z organisation_policy_changed = policyChangeSchema"
| "schemaByAction Z organisation_budget_changed = budgetSchema"
| "schemaByAction Z organisation_retention_changed = retentionSchema"
| "schemaByAction Z alert_resolved = alertSchema"
| "schemaByAction Z alert_reopened = alertSchema"
| "schemaByAction Z audit_exported = exportSchema Z"

text \<open>Every accepted number is an integer, so no fraction is printed.\<close>

definition buildSafeAuditMetadata :: "schema_checks \<Rightarrow> AuditAction \<Rightarrow> json \<Rightarrow> exn + json" where
  "buildSafeAuditMetadata Z action candidate =
     (case strictObject (schemaByAction Z action) candidate of
        None \<Rightarrow> Inl (ExnOther ''Invalid safe audit metadata.'')
      | Some metadata \<Rightarrow>
          if 8 * 1024 < utf8_length (json_text no_fraction metadata)
          then Inl (ExnOther ''Safe audit metadata exceeds the approved limit.'') else Inr metadata)"

section \<open>The model\<close>

definition opt_ok :: "('a \<Rightarrow> bool) \<Rightarrow> 'a option \<Rightarrow> bool" where
  "opt_ok p v \<longleftrightarrow> (case v of None \<Rightarrow> True | Some x \<Rightarrow> p x)"

definition audit_log_valid :: "AuditLog \<Rightarrow> bool" where
  "audit_log_valid l \<longleftrightarrow> uuid_v4 (al_auditId l) \<and> uuid_v4 (na_orgId l) \<and> opt_ok uuid_v4 (na_actorId l)
     \<and> opt_ok (\<lambda>i. length i \<le> 120) (na_resourceId l) \<and> utf8_length (json_text no_fraction (na_metadata l)) \<le> 8 * 1024
     \<and> opt_ok (\<lambda>a. length a \<le> 64) (na_ipAddress l) \<and> opt_ok (\<lambda>a. length a \<le> 512) (na_userAgent l)
     \<and> 1 \<le> length (na_requestId l) \<and> length (na_requestId l) \<le> 128"

definition audit_log_unique :: "AuditLog list \<Rightarrow> bool" where
  "audit_log_unique ls \<longleftrightarrow> distinct (map al_auditId ls)"

section \<open>The environment\<close>

record ('s, 'r) admin_env =
  am_auth :: "'s auth_env"
  am_schema :: schema_checks
  am_teams :: "('s, Team) collection"
  am_alerts :: "('s, AnomalyAlert) collection"
  am_audits :: "('s, AuditLog) collection"
  am_revokeMany :: "(RefreshToken \<Rightarrow> bool) \<Rightarrow> (RefreshToken \<Rightarrow> RefreshToken) \<Rightarrow> ('s, exn, nat) act"
  am_startSession :: "('s, exn, unit) act"
  am_transaction :: "('s, exn, 'r) act \<Rightarrow> ('s, exn, 'r option) act"
  am_endSession :: "('s, exn, unit) act"
  am_countAudit :: "string \<Rightarrow> 's \<Rightarrow> 's"
  am_encryptionReady :: "'s \<Rightarrow> bool"

text \<open>The hook before validation rebuilds the metadata.\<close>

definition append_audit_log :: "('s, 'r) admin_env \<Rightarrow> NewAuditLog \<Rightarrow> ('s, exn, unit) act" where
  "append_audit_log V input =
     act_bind (draw (au_randomUUID (am_auth V))) (\<lambda>auditId.
     act_bind (act_read (au_now (am_auth V))) (\<lambda>now.
     act_bind (of_sum (buildSafeAuditMetadata (am_schema V) (na_action input) (na_metadata input))) (\<lambda>metadata.
       cl_create (am_audits V) [NewAuditLog.extend (input\<lparr>na_metadata := metadata\<rparr>) (AuditLog.fields auditId now)])))"

section \<open>The service\<close>

definition auditUnavailableError :: exn where
  "auditUnavailableError = app_exn 503 ''AUDIT_UNAVAILABLE'' ''The audited operation is temporarily unavailable.''"

definition appendAudit :: "('s, 'r) admin_env \<Rightarrow> NewAuditLog \<Rightarrow> ('s, exn, unit) act" where
  "appendAudit V input =
     act_catch (act_then (append_audit_log V input) (act_modify (am_countAudit V ''success'')))
       (\<lambda>_. act_then (act_modify (am_countAudit V ''failure'')) (act_throw auditUnavailableError))"

definition reported_error :: "exn \<Rightarrow> bool" where
  "reported_error e \<longleftrightarrow> (case e of ExnApp a \<Rightarrow> ae_code a \<noteq> ''AUDIT_UNAVAILABLE'' | _ \<Rightarrow> False)"

text \<open>\<open>am_transaction\<close> yields the value of \<^verbatim>\<open>result\<close> after \<^verbatim>\<open>withTransaction\<close>. A session that does not start is
  an error outside the \<^verbatim>\<open>try\<close> block.\<close>

definition withAuditedTransaction :: "('s, 'r) admin_env \<Rightarrow> ('s, exn, 'r) act \<Rightarrow> ('s, exn, 'r) act" where
  "withAuditedTransaction V operation =
     act_then (am_startSession V)
       (act_finally
         (act_catch
           (act_bind (am_transaction V operation) (\<lambda>result.
              case result of None \<Rightarrow> act_throw auditUnavailableError | Some x \<Rightarrow> act_ret x))
           (\<lambda>error. if reported_error error then act_throw error else act_throw auditUnavailableError))
         (am_endSession V))"

end
