(* ===== verification/AdminMutations.thy ===== *)
theory AdminMutations
  imports AuditRecords
begin

text \<open>
  The changes an administrator can make (\<^verbatim>\<open>admin/admin.mutation.service.ts\<close>); the guards of their
  routes are those of \<open>Access\<close>. Each is one audited transaction. The lock on the organisation writes
  only \<^verbatim>\<open>updatedAt\<close>, which the model of an organisation leaves out, so its update is the identity: that it
  makes concurrent changes of users wait for each other is left to the database.
\<close>

section \<open>Context and answers\<close>

record AdminMutationContext =
  mx_orgId :: string
  mx_actorId :: string
  mx_actorRole :: UserRole
  mx_requestId :: string
  mx_ipAddress :: "jsstr option"
  mx_userAgent :: "jsstr option"

record SafeUser =
  su_userId :: string
  su_email :: jsstr
  su_displayName :: jsstr
  su_role :: UserRole
  su_permissions :: "string list"
  su_teamId :: "string option"
  su_status :: UserStatus
  su_lastLoginAt :: "int option"

datatype AdminAnswer =
  AnswerUser SafeUser
| AnswerSessions string nat int
| AnswerPolicy OrganisationPolicy int
| AnswerRetention RetentionMode int
| AnswerAlert string bool "int option"

type_synonym 's admin = "('s, AdminAnswer) admin_env"

definition safeUser :: "User \<Rightarrow> SafeUser" where
  "safeUser u = \<lparr>su_userId = usr_userId u, su_email = usr_email u, su_displayName = usr_displayName u, su_role = usr_role u,
     su_permissions = usr_permissions u, su_teamId = usr_teamId u, su_status = usr_status u, su_lastLoginAt = usr_lastLoginAt u\<rparr>"

definition admin_notFound :: exn where
  "admin_notFound = app_exn 404 ''NOT_FOUND'' ''Resource not found.''"

definition admin_conflict :: "string \<Rightarrow> string \<Rightarrow> exn" where
  "admin_conflict code message = app_exn 409 code message"

definition team_required :: exn where
  "team_required = admin_conflict ''TEAM_ASSIGNMENT_REQUIRED'' ''A team assignment is required.''"

definition last_admin :: exn where
  "last_admin = admin_conflict ''LAST_ACTIVE_ORG_ADMIN'' ''The last active organisation admin cannot be changed.''"

section \<open>Helpers\<close>

fun user_status_name :: "UserStatus \<Rightarrow> string" where
  "user_status_name user_INVITED = ''INVITED''"
| "user_status_name user_ACTIVE = ''ACTIVE''"
| "user_status_name user_DISABLED = ''DISABLED''"

fun retention_name :: "RetentionMode \<Rightarrow> string" where
  "retention_name METADATA_ONLY = ''METADATA_ONLY''"
| "retention_name ENCRYPTED_STORAGE = ''ENCRYPTED_STORAGE''"

fun alert_status_name :: "AnomalyAlertStatus \<Rightarrow> string" where
  "alert_status_name alert_OPEN = ''OPEN''"
| "alert_status_name alert_RESOLVED = ''RESOLVED''"

definition audit_object :: "(string \<times> json) list \<Rightarrow> json" where
  "audit_object ps = JObj (map (\<lambda>(k, v). (js_lit k, v)) ps)"

definition audit_text :: "string \<Rightarrow> json" where
  "audit_text s = JStr (js_lit s)"

definition json_id :: "string option \<Rightarrow> json" where
  "json_id v = (case v of None \<Rightarrow> JNull | Some s \<Rightarrow> audit_text s)"

definition json_number :: "rat \<Rightarrow> json" where
  "json_number q = (if is_integer q then JInt \<lfloor>q\<rfloor> else JDec q)"

text \<open>\<^verbatim>\<open>document.save\<close>: validation, and an update of the changed fields of the stored document.\<close>

definition save_document ::
  "('d \<Rightarrow> bool) \<Rightarrow> ('s, 'd) collection \<Rightarrow> ('d \<Rightarrow> bool) \<Rightarrow> ('d \<Rightarrow> 'd) \<Rightarrow> 'd \<Rightarrow> ('s, exn, unit) act" where
  "save_document valid C same change d =
     (if valid (change d)
      then act_bind (cl_update C same change) (\<lambda>r. if r = None then act_throw (ExnOther ''DocumentNotFoundError'') else act_ret ())
      else act_throw (ExnOther ''ValidationError''))"

definition save_user :: "'s admin \<Rightarrow> (User \<Rightarrow> User) \<Rightarrow> User \<Rightarrow> ('s, exn, unit) act" where
  "save_user V change u = save_document user_valid (au_users (am_auth V)) (\<lambda>x. usr_userId x = usr_userId u) change u"

definition save_organisation :: "'s admin \<Rightarrow> (Organisation \<Rightarrow> Organisation) \<Rightarrow> Organisation \<Rightarrow> ('s, exn, unit) act" where
  "save_organisation V change g =
     save_document organisation_valid (au_organisations (am_auth V)) (\<lambda>x. og_orgId x = og_orgId g) change g"

definition lockOrganisation :: "'s admin \<Rightarrow> string \<Rightarrow> ('s, exn, unit) act" where
  "lockOrganisation V orgId =
     act_bind (cl_update (au_organisations (am_auth V)) (\<lambda>g. og_orgId g = orgId) (\<lambda>g. g)) (\<lambda>r.
       if r = None then act_throw admin_notFound else act_ret ())"

definition requireUser :: "'s admin \<Rightarrow> string \<Rightarrow> string \<Rightarrow> ('s, exn, User) act" where
  "requireUser V orgId userId =
     act_bind (findUserByOrgIdAndUserId (am_auth V) orgId userId) (\<lambda>r.
       case r of None \<Rightarrow> act_throw admin_notFound | Some u \<Rightarrow> act_ret u)"

definition active_admin :: "string \<Rightarrow> User \<Rightarrow> bool" where
  "active_admin orgId u \<longleftrightarrow> usr_orgId u = orgId \<and> usr_role u = ORG_ADMIN \<and> usr_status u = user_ACTIVE"

definition assertAnotherActiveAdmin :: "'s admin \<Rightarrow> string \<Rightarrow> string \<Rightarrow> ('s, exn, unit) act" where
  "assertAnotherActiveAdmin V orgId userId =
     act_bind (cl_count (au_users (am_auth V)) (\<lambda>u. active_admin orgId u \<and> usr_userId u \<noteq> userId)) (\<lambda>n.
       if n = 0 then act_throw last_admin else act_ret ())"

definition live_session_of :: "string \<Rightarrow> string \<Rightarrow> RefreshToken \<Rightarrow> bool" where
  "live_session_of orgId userId t \<longleftrightarrow> rt_orgId t = orgId \<and> rt_userId t = userId \<and> rt_revokedAt t = None"

definition revokeSessions :: "'s admin \<Rightarrow> string \<Rightarrow> string \<Rightarrow> int \<Rightarrow> ('s, exn, nat) act" where
  "revokeSessions V orgId userId revokedAt = am_revokeMany V (live_session_of orgId userId) (\<lambda>t. t\<lparr>rt_revokedAt := Some revokedAt\<rparr>)"

definition admin_audit :: "AdminMutationContext \<Rightarrow> AuditAction \<Rightarrow> AuditResourceType \<Rightarrow> string \<Rightarrow> json \<Rightarrow> NewAuditLog" where
  "admin_audit ctx action resourceType resourceId metadata =
     \<lparr>na_orgId = mx_orgId ctx, na_actorId = Some (mx_actorId ctx), na_actorType = actor_USER, na_actorRole = Some (mx_actorRole ctx),
      na_action = action, na_outcome = outcome_SUCCESS, na_resourceType = resourceType, na_resourceId = Some resourceId,
      na_metadata = metadata, na_ipAddress = mx_ipAddress ctx, na_userAgent = mx_userAgent ctx, na_requestId = mx_requestId ctx\<rparr>"

text \<open>The metadata is built before \<^verbatim>\<open>appendAdminAudit\<close> is called.\<close>

definition appendAdminAudit ::
  "'s admin \<Rightarrow> AdminMutationContext \<Rightarrow> AuditAction \<Rightarrow> AuditResourceType \<Rightarrow> string \<Rightarrow> json \<Rightarrow> ('s, exn, unit) act" where
  "appendAdminAudit V ctx action resourceType resourceId candidate =
     act_bind (of_sum (buildSafeAuditMetadata (am_schema V) action candidate)) (\<lambda>metadata.
       appendAudit V (admin_audit ctx action resourceType resourceId metadata))"

section \<open>Changes of users\<close>

definition no_team :: "User \<Rightarrow> bool" where
  "no_team u \<longleftrightarrow> usr_teamId u = None \<or> usr_teamId u = Some []"

definition role_change :: "UserRole \<Rightarrow> User \<Rightarrow> User" where
  "role_change role u = u\<lparr>usr_role := role, usr_permissions := USER_PERMISSIONS_BY_ROLE role\<rparr>"

definition role_metadata :: "User \<Rightarrow> UserRole \<Rightarrow> json" where
  "role_metadata u role = audit_object [(''oldRole'', audit_text (user_role_name (usr_role u))), (''newRole'', audit_text (user_role_name role))]"

definition role_operation :: "'s admin \<Rightarrow> AdminMutationContext \<Rightarrow> string \<Rightarrow> UserRole \<Rightarrow> ('s, exn, AdminAnswer) act" where
  "role_operation V ctx userId role =
     act_then (lockOrganisation V (mx_orgId ctx))
    (act_bind (requireUser V (mx_orgId ctx) userId) (\<lambda>u.
       if role = TEAM_LEAD \<and> usr_status u = user_ACTIVE \<and> no_team u then act_throw team_required
       else
         act_then (if usr_role u = ORG_ADMIN \<and> usr_status u = user_ACTIVE \<and> role \<noteq> ORG_ADMIN
                   then assertAnotherActiveAdmin V (mx_orgId ctx) userId else act_ret ())
        (act_then (save_user V (role_change role) u)
        (act_then (appendAdminAudit V ctx user_role_changed res_USER userId (role_metadata u role))
           (act_ret (AnswerUser (safeUser (role_change role u))))))))"

definition changeUserRole :: "'s admin \<Rightarrow> AdminMutationContext \<Rightarrow> string \<Rightarrow> UserRole \<Rightarrow> ('s, exn, AdminAnswer) act" where
  "changeUserRole V ctx userId role = withAuditedTransaction V (role_operation V ctx userId role)"

definition team_change :: "string option \<Rightarrow> User \<Rightarrow> User" where
  "team_change teamId u = u\<lparr>usr_teamId := teamId\<rparr>"

definition team_metadata :: "User \<Rightarrow> string option \<Rightarrow> json" where
  "team_metadata u teamId = audit_object [(''oldTeamId'', json_id (usr_teamId u)), (''newTeamId'', json_id teamId)]"

definition requireTeam :: "'s admin \<Rightarrow> string \<Rightarrow> string option \<Rightarrow> ('s, exn, unit) act" where
  "requireTeam V orgId teamId =
     (case teamId of None \<Rightarrow> act_ret ()
      | Some t \<Rightarrow> act_bind (cl_findOne (am_teams V) (\<lambda>x. tm_orgId x = orgId \<and> tm_teamId x = t)) (\<lambda>team.
          if team = None then act_throw admin_notFound else act_ret ()))"

definition team_operation :: "'s admin \<Rightarrow> AdminMutationContext \<Rightarrow> string \<Rightarrow> string option \<Rightarrow> ('s, exn, AdminAnswer) act" where
  "team_operation V ctx userId teamId =
     act_then (lockOrganisation V (mx_orgId ctx))
    (act_bind (requireUser V (mx_orgId ctx) userId) (\<lambda>u.
     act_then (requireTeam V (mx_orgId ctx) teamId)
       (if teamId = None \<and> usr_role u = TEAM_LEAD \<and> usr_status u = user_ACTIVE then act_throw team_required
        else
          act_then (save_user V (team_change teamId) u)
         (act_then (appendAdminAudit V ctx user_team_changed res_USER userId (team_metadata u teamId))
            (act_ret (AnswerUser (safeUser (team_change teamId u))))))))"

definition changeUserTeam :: "'s admin \<Rightarrow> AdminMutationContext \<Rightarrow> string \<Rightarrow> string option \<Rightarrow> ('s, exn, AdminAnswer) act" where
  "changeUserTeam V ctx userId teamId = withAuditedTransaction V (team_operation V ctx userId teamId)"

definition status_change :: "UserStatus \<Rightarrow> User \<Rightarrow> User" where
  "status_change status u = u\<lparr>usr_status := status\<rparr>"

definition status_metadata :: "User \<Rightarrow> UserStatus \<Rightarrow> nat \<Rightarrow> json" where
  "status_metadata u status n = audit_object [(''oldStatus'', audit_text (user_status_name (usr_status u))),
     (''newStatus'', audit_text (user_status_name status)), (''revokedSessionCount'', JInt (int n))]"

definition status_operation :: "'s admin \<Rightarrow> AdminMutationContext \<Rightarrow> string \<Rightarrow> UserStatus \<Rightarrow> ('s, exn, AdminAnswer) act" where
  "status_operation V ctx userId status =
     act_then (lockOrganisation V (mx_orgId ctx))
    (act_bind (requireUser V (mx_orgId ctx) userId) (\<lambda>u.
     act_then (if usr_role u = ORG_ADMIN \<and> usr_status u = user_ACTIVE \<and> status = user_DISABLED
               then assertAnotherActiveAdmin V (mx_orgId ctx) userId else act_ret ())
       (if status = user_ACTIVE \<and> usr_role u = TEAM_LEAD \<and> no_team u then act_throw team_required
        else
          act_then (save_user V (status_change status) u)
         (act_bind (if status = user_DISABLED
                    then act_bind (act_read (au_now (am_auth V))) (revokeSessions V (mx_orgId ctx) userId) else act_ret 0) (\<lambda>n.
          act_then (appendAdminAudit V ctx user_status_changed res_USER userId (status_metadata u status n))
            (act_ret (AnswerUser (safeUser (status_change status u)))))))))"

definition changeUserStatus :: "'s admin \<Rightarrow> AdminMutationContext \<Rightarrow> string \<Rightarrow> UserStatus \<Rightarrow> ('s, exn, AdminAnswer) act" where
  "changeUserStatus V ctx userId status = withAuditedTransaction V (status_operation V ctx userId status)"

definition sessions_metadata :: "nat \<Rightarrow> json" where
  "sessions_metadata n = audit_object [(''revokedSessionCount'', JInt (int n))]"

definition sessions_operation :: "'s admin \<Rightarrow> AdminMutationContext \<Rightarrow> string \<Rightarrow> ('s, exn, AdminAnswer) act" where
  "sessions_operation V ctx userId =
     act_then (lockOrganisation V (mx_orgId ctx))
    (act_bind (requireUser V (mx_orgId ctx) userId) (\<lambda>u.
     act_bind (act_read (au_now (am_auth V))) (\<lambda>effectiveAt.
     act_bind (revokeSessions V (mx_orgId ctx) userId effectiveAt) (\<lambda>n.
     act_then (appendAdminAudit V ctx user_sessions_revoked res_USER userId (sessions_metadata n))
       (act_ret (AnswerSessions userId n effectiveAt))))))"

definition revokeUserSessions :: "'s admin \<Rightarrow> AdminMutationContext \<Rightarrow> string \<Rightarrow> ('s, exn, AdminAnswer) act" where
  "revokeUserSessions V ctx userId = withAuditedTransaction V (sessions_operation V ctx userId)"

section \<open>Changes of the organisation\<close>

record policy_patch =
  px_maskThreshold :: "rat option"
  px_blockThreshold :: "rat option"
  px_maxOutputTokensPerRequest :: "int option"
  px_monthlyTokenBudget :: "int option"

definition with_default :: "'a option \<Rightarrow> 'a \<Rightarrow> 'a" where
  "with_default v d = (case v of None \<Rightarrow> d | Some x \<Rightarrow> x)"

definition policy_change :: "policy_patch \<Rightarrow> Organisation \<Rightarrow> Organisation" where
  "policy_change patch g = g\<lparr>og_policy := \<lparr>maskThreshold = with_default (px_maskThreshold patch) (maskThreshold (og_policy g)),
       blockThreshold = with_default (px_blockThreshold patch) (blockThreshold (og_policy g)),
       maxOutputTokensPerRequest = with_default (px_maxOutputTokensPerRequest patch) (maxOutputTokensPerRequest (og_policy g))\<rparr>,
     og_monthlyTokenBudget := with_default (px_monthlyTokenBudget patch) (og_monthlyTokenBudget g)\<rparr>"

definition policy_metadata :: "OrganisationPolicy \<Rightarrow> OrganisationPolicy \<Rightarrow> json" where
  "policy_metadata old new = audit_object [
     (''oldMaskThreshold'', json_number (maskThreshold old)), (''newMaskThreshold'', json_number (maskThreshold new)),
     (''oldBlockThreshold'', json_number (blockThreshold old)), (''newBlockThreshold'', json_number (blockThreshold new)),
     (''oldMaxOutputTokensPerRequest'', JInt (maxOutputTokensPerRequest old)),
     (''newMaxOutputTokensPerRequest'', JInt (maxOutputTokensPerRequest new))]"

definition budget_metadata :: "int \<Rightarrow> int \<Rightarrow> json" where
  "budget_metadata old new = audit_object [(''oldMonthlyTokenBudget'', JInt old), (''newMonthlyTokenBudget'', JInt new)]"

definition requireOrganisation :: "'s admin \<Rightarrow> string \<Rightarrow> ('s, exn, Organisation) act" where
  "requireOrganisation V orgId =
     act_bind (findOrganisationByOrgId (am_auth V) orgId) (\<lambda>r. case r of None \<Rightarrow> act_throw admin_notFound | Some g \<Rightarrow> act_ret g)"

definition policy_operation :: "'s admin \<Rightarrow> AdminMutationContext \<Rightarrow> policy_patch \<Rightarrow> ('s, exn, AdminAnswer) act" where
  "policy_operation V ctx patch =
     act_bind (requireOrganisation V (mx_orgId ctx)) (\<lambda>g.
       let g' = policy_change patch g in
       act_then (if organisation_valid g' then act_ret () else act_throw (ExnOther ''ValidationError''))
      (act_then (save_organisation V (policy_change patch) g)
      (act_then (if og_policy g \<noteq> og_policy g'
                 then appendAdminAudit V ctx organisation_policy_changed res_ORGANISATION (mx_orgId ctx) (policy_metadata (og_policy g) (og_policy g'))
                 else act_ret ())
      (act_then (if og_monthlyTokenBudget g \<noteq> og_monthlyTokenBudget g'
                 then appendAdminAudit V ctx organisation_budget_changed res_ORGANISATION (mx_orgId ctx)
                        (budget_metadata (og_monthlyTokenBudget g) (og_monthlyTokenBudget g'))
                 else act_ret ())
         (act_ret (AnswerPolicy (og_policy g') (og_monthlyTokenBudget g')))))))"

definition updateOrganisationPolicy :: "'s admin \<Rightarrow> AdminMutationContext \<Rightarrow> policy_patch \<Rightarrow> ('s, exn, AdminAnswer) act" where
  "updateOrganisationPolicy V ctx patch = withAuditedTransaction V (policy_operation V ctx patch)"

definition retention_change :: "RetentionMode \<Rightarrow> Organisation \<Rightarrow> Organisation" where
  "retention_change mode g = g\<lparr>og_retentionMode := mode\<rparr>"

definition retention_metadata :: "Organisation \<Rightarrow> RetentionMode \<Rightarrow> json" where
  "retention_metadata g mode = audit_object [(''oldMode'', audit_text (retention_name (og_retentionMode g))),
     (''newMode'', audit_text (retention_name mode))]"

definition retention_operation :: "'s admin \<Rightarrow> AdminMutationContext \<Rightarrow> RetentionMode \<Rightarrow> ('s, exn, AdminAnswer) act" where
  "retention_operation V ctx mode =
     act_bind (requireOrganisation V (mx_orgId ctx)) (\<lambda>g.
     act_then (save_organisation V (retention_change mode) g)
    (act_then (appendAdminAudit V ctx organisation_retention_changed res_ORGANISATION (mx_orgId ctx) (retention_metadata g mode))
    (act_bind (act_read (au_now (am_auth V))) (\<lambda>effectiveAt.
       act_ret (AnswerRetention mode effectiveAt)))))"

definition updateOrganisationRetention :: "'s admin \<Rightarrow> AdminMutationContext \<Rightarrow> RetentionMode \<Rightarrow> ('s, exn, AdminAnswer) act" where
  "updateOrganisationRetention V ctx mode =
     act_bind (act_read (am_encryptionReady V)) (\<lambda>ready.
       if mode = ENCRYPTED_STORAGE \<and> \<not> ready
       then act_throw (app_exn 503 ''ENCRYPTION_UNAVAILABLE'' ''Encrypted storage is temporarily unavailable.'')
       else withAuditedTransaction V (retention_operation V ctx mode))"

section \<open>Alerts\<close>

definition alert_change :: "bool \<Rightarrow> int option \<Rightarrow> AnomalyAlert \<Rightarrow> AnomalyAlert" where
  "alert_change resolved resolvedAt a = a\<lparr>aa_status := (if resolved then alert_RESOLVED else alert_OPEN), aa_resolvedAt := resolvedAt\<rparr>"

definition alert_metadata :: "AnomalyAlert \<Rightarrow> bool \<Rightarrow> json" where
  "alert_metadata a resolved = audit_object [(''oldStatus'', audit_text (alert_status_name (aa_status a))),
     (''newStatus'', audit_text (alert_status_name (if resolved then alert_RESOLVED else alert_OPEN)))]"

definition is_alert :: "string \<Rightarrow> string \<Rightarrow> AnomalyAlert \<Rightarrow> bool" where
  "is_alert orgId alertId a \<longleftrightarrow> aa_orgId a = orgId \<and> aa_alertId a = alertId"

definition alert_operation :: "'s admin \<Rightarrow> AdminMutationContext \<Rightarrow> string \<Rightarrow> bool \<Rightarrow> ('s, exn, AdminAnswer) act" where
  "alert_operation V ctx alertId resolved =
     act_bind (cl_findOne (am_alerts V) (is_alert (mx_orgId ctx) alertId)) (\<lambda>existing. case existing of
       None \<Rightarrow> act_throw admin_notFound
     | Some a \<Rightarrow>
         act_bind (act_read (au_now (am_auth V))) (\<lambda>now.
         let resolvedAt = (if resolved then Some now else None) in
         act_bind (cl_update (am_alerts V) (is_alert (mx_orgId ctx) alertId) (alert_change resolved resolvedAt)) (\<lambda>alert.
         act_then (if alert = None then act_throw admin_notFound else act_ret ())
        (act_then (appendAdminAudit V ctx (if resolved then alert_resolved else alert_reopened) res_ALERT alertId (alert_metadata a resolved))
           (act_ret (AnswerAlert alertId resolved resolvedAt))))))"

definition updateAlertResolution :: "'s admin \<Rightarrow> AdminMutationContext \<Rightarrow> string \<Rightarrow> bool \<Rightarrow> ('s, exn, AdminAnswer) act" where
  "updateAlertResolution V ctx alertId resolved = withAuditedTransaction V (alert_operation V ctx alertId resolved)"

end
