(* ===== verification/AdminLaws.thy ===== *)
theory AdminLaws
  imports AdminMutations
begin

text \<open>
  The laws of the parameters behind administrative changes, a logic of triples for the bodies of
  transactions, and what the single operations of a body do. A triple \<open>yields V m d Q E\<close> says of a
  run of \<open>m\<close> from data \<open>d\<close>: when it returns, its value and the data satisfy \<open>Q\<close>; when it throws an error
  that the service reports as it is, the error satisfies \<open>E\<close>. Every other error ends as
  \<open>AUDIT_UNAVAILABLE\<close> and is the business of the transaction.
\<close>

section \<open>Laws\<close>

record admin_store =
  ad_organisations :: "Organisation list"
  ad_users :: "User list"
  ad_tokens :: "RefreshToken list"
  ad_teams :: "Team list"
  ad_alerts :: "AnomalyAlert list"
  ad_audits :: "AuditLog list"

definition am_data :: "'s admin \<Rightarrow> 's \<Rightarrow> admin_store" where
  "am_data V s = \<lparr>ad_organisations = cl_docs (au_organisations (am_auth V)) s, ad_users = cl_docs (au_users (am_auth V)) s,
     ad_tokens = cl_docs (au_tokens (am_auth V)) s, ad_teams = cl_docs (am_teams V) s, ad_alerts = cl_docs (am_alerts V) s,
     ad_audits = cl_docs (am_audits V) s\<rparr>"

text \<open>Only the program's own code throws application errors.\<close>

definition unreported :: "('s, exn, 'a) act \<Rightarrow> bool" where
  "unreported m \<longleftrightarrow> (\<forall>s e. fst (m s) = Inl e \<longrightarrow> \<not> reported_error e)"

definition revoke_many_law :: "'s admin \<Rightarrow> bool" where
  "revoke_many_law V \<longleftrightarrow> (\<forall>p f s k. fst (am_revokeMany V p f s) = Inr k \<longrightarrow>
     ad_tokens (am_data V (snd (am_revokeMany V p f s))) = map (\<lambda>t. if p t then f t else t) (ad_tokens (am_data V s))
     \<and> k = length (filter p (ad_tokens (am_data V s))))"

text \<open>A transaction that commits ran its body once from the data it found; one that reports an
  application error of its body rolled back; otherwise the outcome of the commit may be unknown.\<close>

definition admin_transaction_law :: "'s admin \<Rightarrow> bool" where
  "admin_transaction_law V \<longleftrightarrow> (\<forall>m s r s'. am_transaction V m s = (r, s') \<longrightarrow>
     (let ran = \<lambda>q d'. \<exists>s0 s1. am_data V s0 = am_data V s \<and> m s0 = (q, s1) \<and> d' = am_data V s1
      in case r of
           Inr (Some a) \<Rightarrow> ran (Inr a) (am_data V s')
         | Inr None \<Rightarrow> am_data V s' = am_data V s
         | Inl e \<Rightarrow> if reported_error e then am_data V s' = am_data V s \<and> (\<exists>d'. ran (Inl e) d')
                   else am_data V s' = am_data V s \<or> (\<exists>a. ran (Inr a) (am_data V s'))))"

definition admin_frames :: "'s admin \<Rightarrow> bool" where
  "admin_frames V \<longleftrightarrow>
     (\<forall>p. leaves (am_data V) (cl_findOne (au_organisations (am_auth V)) p) \<and> unreported (cl_findOne (au_organisations (am_auth V)) p))
   \<and> (\<forall>p. leaves (am_data V) (cl_findOne (au_users (am_auth V)) p) \<and> unreported (cl_findOne (au_users (am_auth V)) p))
   \<and> (\<forall>p. leaves (am_data V) (cl_count (au_users (am_auth V)) p) \<and> unreported (cl_count (au_users (am_auth V)) p))
   \<and> (\<forall>p. leaves (am_data V) (cl_findOne (am_teams V) p) \<and> unreported (cl_findOne (am_teams V) p))
   \<and> (\<forall>p. leaves (am_data V) (cl_findOne (am_alerts V) p) \<and> unreported (cl_findOne (am_alerts V) p))
   \<and> (\<forall>s. am_data V (snd (au_randomUUID (am_auth V) s)) = am_data V s)
   \<and> (\<forall>k s. am_data V (am_countAudit V k s) = am_data V s)
   \<and> leaves (am_data V) (am_startSession V) \<and> unreported (am_startSession V)
   \<and> leaves (am_data V) (am_endSession V) \<and> unreported (am_endSession V)
   \<and> (\<forall>p f. leaves (\<lambda>s. (am_data V s)\<lparr>ad_organisations := []\<rparr>) (cl_update (au_organisations (am_auth V)) p f)
        \<and> unreported (cl_update (au_organisations (am_auth V)) p f))
   \<and> (\<forall>p f. leaves (\<lambda>s. (am_data V s)\<lparr>ad_users := []\<rparr>) (cl_update (au_users (am_auth V)) p f)
        \<and> unreported (cl_update (au_users (am_auth V)) p f))
   \<and> (\<forall>p f. leaves (\<lambda>s. (am_data V s)\<lparr>ad_alerts := []\<rparr>) (cl_update (am_alerts V) p f) \<and> unreported (cl_update (am_alerts V) p f))
   \<and> (\<forall>ds. leaves (\<lambda>s. (am_data V s)\<lparr>ad_audits := []\<rparr>) (cl_create (am_audits V) ds))
   \<and> (\<forall>p f. leaves (\<lambda>s. (am_data V s)\<lparr>ad_tokens := []\<rparr>) (am_revokeMany V p f) \<and> unreported (am_revokeMany V p f))"

definition admin_laws :: "'s admin \<Rightarrow> bool" where
  "admin_laws V \<longleftrightarrow> findOne_law (au_organisations (am_auth V)) \<and> findOne_law (au_users (am_auth V)) \<and> count_law (au_users (am_auth V))
     \<and> findOne_law (am_teams V) \<and> findOne_law (am_alerts V) \<and> update_law (au_organisations (am_auth V))
     \<and> update_law (au_users (am_auth V)) \<and> update_law (am_alerts V) \<and> create_law audit_log_valid audit_log_unique (am_audits V)
     \<and> revoke_many_law V \<and> admin_transaction_law V \<and> admin_frames V"

lemma admin_lawsD:
  assumes "admin_laws V"
  shows "findOne_law (au_organisations (am_auth V))" and "findOne_law (au_users (am_auth V))" and "count_law (au_users (am_auth V))"
    and "findOne_law (am_teams V)" and "findOne_law (am_alerts V)" and "update_law (au_organisations (am_auth V))"
    and "update_law (au_users (am_auth V))" and "update_law (am_alerts V)"
    and "create_law audit_log_valid audit_log_unique (am_audits V)" and "revoke_many_law V" and "admin_transaction_law V"
  using assms by (simp_all add: admin_laws_def)

lemma admin_framesD:
  assumes "admin_laws V"
  shows "leaves (am_data V) (cl_findOne (au_organisations (am_auth V)) p1)" "unreported (cl_findOne (au_organisations (am_auth V)) p1)"
    and "leaves (am_data V) (cl_findOne (au_users (am_auth V)) p2)" "unreported (cl_findOne (au_users (am_auth V)) p2)"
    and "leaves (am_data V) (cl_count (au_users (am_auth V)) p2)" "unreported (cl_count (au_users (am_auth V)) p2)"
    and "leaves (am_data V) (cl_findOne (am_teams V) p3)" "unreported (cl_findOne (am_teams V) p3)"
    and "leaves (am_data V) (cl_findOne (am_alerts V) p4)" "unreported (cl_findOne (am_alerts V) p4)"
    and "am_data V (snd (au_randomUUID (am_auth V) s)) = am_data V s" and "am_data V (am_countAudit V k s) = am_data V s"
    and "leaves (am_data V) (am_startSession V)" "unreported (am_startSession V)"
    and "leaves (am_data V) (am_endSession V)" "unreported (am_endSession V)"
  using assms by (simp_all add: admin_laws_def admin_frames_def)

lemma admin_writesD:
  assumes "admin_laws V"
  shows "leaves (\<lambda>s. (am_data V s)\<lparr>ad_organisations := []\<rparr>) (cl_update (au_organisations (am_auth V)) p1 f1)"
    "unreported (cl_update (au_organisations (am_auth V)) p1 f1)"
    and "leaves (\<lambda>s. (am_data V s)\<lparr>ad_users := []\<rparr>) (cl_update (au_users (am_auth V)) p2 f2)"
    "unreported (cl_update (au_users (am_auth V)) p2 f2)"
    and "leaves (\<lambda>s. (am_data V s)\<lparr>ad_alerts := []\<rparr>) (cl_update (am_alerts V) p3 f3)" "unreported (cl_update (am_alerts V) p3 f3)"
    and "leaves (\<lambda>s. (am_data V s)\<lparr>ad_audits := []\<rparr>) (cl_create (am_audits V) ds)"
    and "leaves (\<lambda>s. (am_data V s)\<lparr>ad_tokens := []\<rparr>) (am_revokeMany V p4 f4)" "unreported (am_revokeMany V p4 f4)"
  using assms by (simp_all add: admin_laws_def admin_frames_def)

lemma am_data_simps:
  "cl_docs (au_organisations (am_auth V)) s = ad_organisations (am_data V s)" "cl_docs (au_users (am_auth V)) s = ad_users (am_data V s)"
  "cl_docs (au_tokens (am_auth V)) s = ad_tokens (am_data V s)" "cl_docs (am_teams V) s = ad_teams (am_data V s)"
  "cl_docs (am_alerts V) s = ad_alerts (am_data V s)" "cl_docs (am_audits V) s = ad_audits (am_data V s)"
  by (simp_all add: am_data_def)

lemma same_but_one:
  "d\<lparr>ad_organisations := []\<rparr> = (d' :: admin_store)\<lparr>ad_organisations := []\<rparr> \<longleftrightarrow> d = d'\<lparr>ad_organisations := ad_organisations d\<rparr>"
  "d\<lparr>ad_users := []\<rparr> = (d' :: admin_store)\<lparr>ad_users := []\<rparr> \<longleftrightarrow> d = d'\<lparr>ad_users := ad_users d\<rparr>"
  "d\<lparr>ad_tokens := []\<rparr> = (d' :: admin_store)\<lparr>ad_tokens := []\<rparr> \<longleftrightarrow> d = d'\<lparr>ad_tokens := ad_tokens d\<rparr>"
  "d\<lparr>ad_alerts := []\<rparr> = (d' :: admin_store)\<lparr>ad_alerts := []\<rparr> \<longleftrightarrow> d = d'\<lparr>ad_alerts := ad_alerts d\<rparr>"
  "d\<lparr>ad_audits := []\<rparr> = (d' :: admin_store)\<lparr>ad_audits := []\<rparr> \<longleftrightarrow> d = d'\<lparr>ad_audits := ad_audits d\<rparr>"
  by (cases d; cases d'; auto)+

section \<open>Triples\<close>

definition yields ::
  "'s admin \<Rightarrow> ('s, exn, 'a) act \<Rightarrow> admin_store \<Rightarrow> ('a \<Rightarrow> admin_store \<Rightarrow> bool) \<Rightarrow> (exn \<Rightarrow> bool) \<Rightarrow> bool" where
  "yields V m d Q E \<longleftrightarrow> (\<forall>s r s'. am_data V s = d \<longrightarrow> m s = (r, s') \<longrightarrow>
     (case r of Inr x \<Rightarrow> Q x (am_data V s') | Inl e \<Rightarrow> reported_error e \<longrightarrow> E e))"

lemma yieldsD:
  assumes "yields V m d Q E" and "am_data V s = d" and "m s = (r, s')"
  shows "r = Inr x \<Longrightarrow> Q x (am_data V s')" and "r = Inl e \<Longrightarrow> reported_error e \<Longrightarrow> E e"
  using assms by (fastforce simp: yields_def)+

lemma yields_ret: "Q x d \<Longrightarrow> yields V (act_ret x) d Q E"
  by (simp add: yields_def act_ret_def)

lemma yields_throw: "(reported_error e \<Longrightarrow> E e) \<Longrightarrow> yields V (act_throw e) d Q E"
  by (simp add: yields_def act_throw_def)

lemma yields_read: "(\<And>x. Q x d) \<Longrightarrow> yields V (act_read f) d Q E"
  by (simp add: yields_def act_read_def)

lemma yields_of_sum:
  "(\<And>x. r = Inr x \<Longrightarrow> Q x d) \<Longrightarrow> (\<And>e. r = Inl e \<Longrightarrow> reported_error e \<Longrightarrow> E e) \<Longrightarrow> yields V (of_sum r) d Q E"
  by (cases r) (simp_all add: of_sum_def yields_ret yields_throw)

lemma yields_mono:
  assumes "yields V m d P F" and "\<And>x d'. P x d' \<Longrightarrow> Q x d'" and "\<And>e. F e \<Longrightarrow> E e"
  shows "yields V m d Q E"
  using assms by (auto simp: yields_def split: sum.split)

lemma yields_bind:
  assumes "yields V m d P E" and "\<And>x d'. P x d' \<Longrightarrow> yields V (k x) d' Q E"
  shows "yields V (act_bind m k) d Q E"
  unfolding yields_def
proof (intro allI impI)
  fix s r s'
  assume s: "am_data V s = d" and b: "act_bind m k s = (r, s')"
  obtain q s1 where m: "m s = (q, s1)" by fastforce
  show "case r of Inr x \<Rightarrow> Q x (am_data V s') | Inl e \<Rightarrow> reported_error e \<longrightarrow> E e"
  proof (cases q)
    case (Inl e)
    then show ?thesis using b m yieldsD(2) [OF assms(1) s m] by (auto simp: act_bind_def)
  next
    case (Inr x)
    then have "k x s1 = (r, s')" using b m by (simp add: act_bind_def)
    then show ?thesis using assms(2) [OF yieldsD(1) [OF assms(1) s m Inr]] by (simp add: yields_def)
  qed
qed

lemma yields_then:
  assumes "yields V m d P E" and "\<And>x d'. P x d' \<Longrightarrow> yields V k d' Q E"
  shows "yields V (act_then m k) d Q E"
  unfolding act_then_def using assms by (rule yields_bind)

lemma yields_if: "(b \<Longrightarrow> yields V m d Q E) \<Longrightarrow> (\<not> b \<Longrightarrow> yields V k d Q E) \<Longrightarrow> yields V (if b then m else k) d Q E"
  by simp

text \<open>Operations of the database.\<close>

lemma yields_observed:
  assumes "leaves f m" and "unreported m"
    and "\<And>s x s'. am_data V s = d \<Longrightarrow> m s = (Inr x, s') \<Longrightarrow> f s' = f s \<Longrightarrow> Q x (am_data V s')"
  shows "yields V m d Q E"
  unfolding yields_def
proof (intro allI impI)
  fix s r s'
  assume s: "am_data V s = d" and m: "m s = (r, s')"
  show "case r of Inr x \<Rightarrow> Q x (am_data V s') | Inl e \<Rightarrow> reported_error e \<longrightarrow> E e"
  proof (cases r)
    case (Inl e)
    have "fst (m s) = Inl e" using m Inl by simp
    then show ?thesis using assms(2) Inl by (simp add: unreported_def)
  next
    case (Inr x)
    then show ?thesis using assms(3) [OF s] m leavesD [OF assms(1) m] by simp
  qed
qed

section \<open>The operations of a body\<close>

text \<open>\<open>replaced ds d d' ds'\<close>: one occurrence of \<open>d\<close> became \<open>d'\<close>.\<close>

definition replaced :: "'d list \<Rightarrow> 'd \<Rightarrow> 'd \<Rightarrow> 'd list \<Rightarrow> bool" where
  "replaced ds d d' ds' \<longleftrightarrow> (\<exists>xs ys. ds = xs @ d # ys \<and> ds' = xs @ d' # ys)"

lemma replaced_id: "replaced ds d d ds' \<Longrightarrow> ds' = ds"
  by (auto simp: replaced_def)

lemma update_replaced:
  assumes "update_law C" and "cl_update C p f s = (Inr (Some d'), s')"
  obtains d where "p d" "d' = f d" "replaced (cl_docs C s) d (f d) (cl_docs C s')"
  using updateD(2) [OF assms refl] unfolding replaced_def by blast

lemma yields_lock:
  assumes "admin_laws V"
  shows "yields V (lockOrganisation V orgId) d
    (\<lambda>_ d'. d' = d \<and> (\<exists>g \<in> set (ad_organisations d). og_orgId g = orgId))
    (\<lambda>e. e = admin_notFound \<and> (\<forall>g \<in> set (ad_organisations d). og_orgId g \<noteq> orgId))"
  unfolding lockOrganisation_def
proof (rule yields_bind [where P = "\<lambda>r d'. d' = d \<and> (r = None \<longleftrightarrow> (\<forall>g \<in> set (ad_organisations d). og_orgId g \<noteq> orgId))"])
  let ?C = "au_organisations (am_auth V)" and ?p = "\<lambda>g. og_orgId g = orgId"
  show "yields V (cl_update ?C ?p (\<lambda>g. g)) d (\<lambda>r d'. d' = d \<and> (r = None \<longleftrightarrow> (\<forall>g \<in> set (ad_organisations d). og_orgId g \<noteq> orgId)))
      (\<lambda>e. e = admin_notFound \<and> (\<forall>g \<in> set (ad_organisations d). og_orgId g \<noteq> orgId))"
  proof (rule yields_observed [OF admin_writesD(1,2) [OF assms]])
    fix s x s'
    assume s: "am_data V s = d" and u: "cl_update ?C ?p (\<lambda>g. g) s = (Inr x, s')"
      and f: "(am_data V s')\<lparr>ad_organisations := []\<rparr> = (am_data V s)\<lparr>ad_organisations := []\<rparr>"
    show "am_data V s' = d \<and> (x = None \<longleftrightarrow> (\<forall>g \<in> set (ad_organisations d). og_orgId g \<noteq> orgId))"
    proof (cases x)
      case None
      then show ?thesis using updateD(1) [OF admin_lawsD(6) [OF assms] u] f s by (simp add: am_data_simps same_but_one)
    next
      case (Some g')
      from update_replaced [OF admin_lawsD(6) [OF assms] u [unfolded Some]]
      obtain g where g: "?p g" "replaced (cl_docs ?C s) g g (cl_docs ?C s')" by metis
      then have "cl_docs ?C s' = cl_docs ?C s" "g \<in> set (cl_docs ?C s)" by (auto simp: replaced_def)
      then show ?thesis using f s g Some by (auto simp: am_data_simps same_but_one)
    qed
  qed
qed (auto intro!: yields_if yields_ret yields_throw)

lemma yields_find:
  assumes "findOne_law C" and "leaves (am_data V) (cl_findOne C p)" "unreported (cl_findOne C p)"
    and "\<And>s. cl_docs C s = docs (am_data V s)"
  shows "yields V (cl_findOne C p) d (\<lambda>r d'. d' = d \<and> (case r of None \<Rightarrow> (\<forall>x \<in> set (docs d). \<not> p x) | Some x \<Rightarrow> x \<in> set (docs d) \<and> p x)) E"
proof (rule yields_observed [OF assms(2,3)])
  fix s x s'
  assume s: "am_data V s = d" and c: "cl_findOne C p s = (Inr x, s')" and f: "am_data V s' = am_data V s"
  show "am_data V s' = d \<and> (case x of None \<Rightarrow> (\<forall>x \<in> set (docs d). \<not> p x) | Some x \<Rightarrow> x \<in> set (docs d) \<and> p x)"
    using findOneD(2,3) [OF assms(1) c] f s by (auto simp: assms(4) split: option.split)
qed

lemma yields_user:
  assumes "admin_laws V"
  shows "yields V (requireUser V orgId userId) d
    (\<lambda>u d'. d' = d \<and> u \<in> set (ad_users d) \<and> usr_orgId u = orgId \<and> usr_userId u = userId)
    (\<lambda>e. e = admin_notFound \<and> (\<forall>u \<in> set (ad_users d). \<not> (usr_orgId u = orgId \<and> usr_userId u = userId)))"
  unfolding requireUser_def findUserByOrgIdAndUserId_def
  by (rule yields_bind [OF yields_find [OF admin_lawsD(2) [OF assms] admin_framesD(3,4) [OF assms] am_data_simps(2)]])
    (auto intro!: yields_ret yields_throw split: option.splits)

lemma yields_organisation:
  assumes "admin_laws V"
  shows "yields V (requireOrganisation V orgId) d (\<lambda>g d'. d' = d \<and> g \<in> set (ad_organisations d) \<and> og_orgId g = orgId)
    (\<lambda>e. e = admin_notFound \<and> (\<forall>g \<in> set (ad_organisations d). og_orgId g \<noteq> orgId))"
  unfolding requireOrganisation_def findOrganisationByOrgId_def
  by (rule yields_bind [OF yields_find [OF admin_lawsD(1) [OF assms] admin_framesD(1,2) [OF assms] am_data_simps(1)]])
    (auto intro!: yields_ret yields_throw split: option.splits)

definition known_team :: "string \<Rightarrow> string option \<Rightarrow> admin_store \<Rightarrow> bool" where
  "known_team orgId teamId d \<longleftrightarrow>
     (case teamId of None \<Rightarrow> True | Some t \<Rightarrow> \<exists>x \<in> set (ad_teams d). tm_orgId x = orgId \<and> tm_teamId x = t)"

lemma yields_team:
  assumes "admin_laws V"
  shows "yields V (requireTeam V orgId teamId) d (\<lambda>_ d'. d' = d \<and> known_team orgId teamId d)
    (\<lambda>e. e = admin_notFound \<and> \<not> known_team orgId teamId d)"
proof (cases teamId)
  case (Some t)
  show ?thesis unfolding requireTeam_def Some option.case
    by (rule yields_bind [OF yields_find [OF admin_lawsD(4) [OF assms] admin_framesD(7,8) [OF assms] am_data_simps(4)]])
      (auto simp: known_team_def intro!: yields_if yields_ret yields_throw split: option.splits)
qed (simp add: requireTeam_def known_team_def yields_ret)

definition other_admin :: "string \<Rightarrow> string \<Rightarrow> admin_store \<Rightarrow> bool" where
  "other_admin orgId userId d \<longleftrightarrow> (\<exists>v \<in> set (ad_users d). active_admin orgId v \<and> usr_userId v \<noteq> userId)"

lemma yields_another:
  assumes "admin_laws V"
  shows "yields V (assertAnotherActiveAdmin V orgId userId) d (\<lambda>_ d'. d' = d \<and> other_admin orgId userId d)
    (\<lambda>e. e = last_admin \<and> \<not> other_admin orgId userId d)"
  unfolding assertAnotherActiveAdmin_def
proof (rule yields_bind)
  let ?p = "\<lambda>u. active_admin orgId u \<and> usr_userId u \<noteq> userId"
  show "yields V (cl_count (au_users (am_auth V)) ?p) d (\<lambda>n d'. d' = d \<and> n = length (filter ?p (ad_users d)))
     (\<lambda>e. e = last_admin \<and> \<not> other_admin orgId userId d)"
    by (rule yields_observed [OF admin_framesD(5,6) [OF assms]])
      (use countD(2) [OF admin_lawsD(3) [OF assms]] in \<open>auto simp: am_data_simps\<close>)
qed (auto simp: other_admin_def filter_empty_conv intro!: yields_if yields_ret yields_throw)

lemma yields_save:
  assumes "update_law C" and docs: "\<And>s. cl_docs C s = get (am_data V s)"
    and "leaves (\<lambda>s. put [] (am_data V s)) (cl_update C same change)" "unreported (cl_update C same change)"
    and put: "\<And>d d'. put [] d = put [] d' \<Longrightarrow> d = put (get d) d'"
  shows "yields V (save_document valid C same change x) d
    (\<lambda>_ d'. valid (change x) \<and> (\<exists>y ys. same y \<and> replaced (get d) y (change y) ys \<and> d' = put ys d)) E"
  unfolding save_document_def
proof (rule yields_if)
  assume valid: "valid (change x)"
  show "yields V (act_bind (cl_update C same change) (\<lambda>r. if r = None then act_throw (ExnOther ''DocumentNotFoundError'') else act_ret ())) d
    (\<lambda>_ d'. valid (change x) \<and> (\<exists>y ys. same y \<and> replaced (get d) y (change y) ys \<and> d' = put ys d)) E"
  proof (rule yields_bind [OF yields_observed [OF assms(3,4)]])
    fix s r s'
    assume s: "am_data V s = d" and c: "cl_update C same change s = (Inr r, s')" and f: "put [] (am_data V s') = put [] (am_data V s)"
    show "r \<noteq> None \<longrightarrow> (\<exists>y ys. same y \<and> replaced (get d) y (change y) ys \<and> am_data V s' = put ys d)"
    proof
      assume "r \<noteq> None"
      then obtain z where "r = Some z" by blast
      from update_replaced [OF assms(1) c [unfolded this]]
      obtain y where "same y" "replaced (get d) y (change y) (get (am_data V s'))" unfolding docs s by metis
      then show "\<exists>y ys. same y \<and> replaced (get d) y (change y) ys \<and> am_data V s' = put ys d" using put [OF f] s by metis
    qed
  qed (auto simp: valid reported_error_def intro!: yields_if yields_ret yields_throw)
qed (rule yields_throw, simp add: reported_error_def)

lemma yields_save_user:
  assumes "admin_laws V"
  shows "yields V (save_user V change u) d
    (\<lambda>_ d'. user_valid (change u) \<and> (\<exists>x us. usr_userId x = usr_userId u \<and> replaced (ad_users d) x (change x) us \<and> d' = d\<lparr>ad_users := us\<rparr>)) E"
  unfolding save_user_def
  by (rule yields_save [where put = "\<lambda>us d. d\<lparr>ad_users := us\<rparr>", OF admin_lawsD(7) [OF assms] am_data_simps(2) admin_writesD(3,4) [OF assms]])
    (simp only: same_but_one)

lemma yields_save_organisation:
  assumes "admin_laws V"
  shows "yields V (save_organisation V change g) d
    (\<lambda>_ d'. organisation_valid (change g) \<and> (\<exists>x gs. og_orgId x = og_orgId g \<and> replaced (ad_organisations d) x (change x) gs
       \<and> d' = d\<lparr>ad_organisations := gs\<rparr>)) E"
  unfolding save_organisation_def
  by (rule yields_save [where put = "\<lambda>gs d. d\<lparr>ad_organisations := gs\<rparr>", OF admin_lawsD(6) [OF assms] am_data_simps(1) admin_writesD(1,2) [OF assms]])
    (simp only: same_but_one)

lemma yields_revoke:
  assumes "admin_laws V"
  shows "yields V (revokeSessions V orgId userId now) d
    (\<lambda>k d'. k = length (filter (live_session_of orgId userId) (ad_tokens d))
       \<and> d' = d\<lparr>ad_tokens := map (\<lambda>t. if live_session_of orgId userId t then t\<lparr>rt_revokedAt := Some now\<rparr> else t) (ad_tokens d)\<rparr>) E"
  unfolding revokeSessions_def
proof (rule yields_observed [OF admin_writesD(8,9) [OF assms]])
  let ?p = "live_session_of orgId userId" and ?f = "\<lambda>t :: RefreshToken. t\<lparr>rt_revokedAt := Some now\<rparr>"
  fix s k s'
  assume s: "am_data V s = d" and c: "am_revokeMany V ?p ?f s = (Inr k, s')"
    and f: "(am_data V s')\<lparr>ad_tokens := []\<rparr> = (am_data V s)\<lparr>ad_tokens := []\<rparr>"
  have "ad_tokens (am_data V s') = map (\<lambda>t. if ?p t then ?f t else t) (ad_tokens (am_data V s)) \<and> k = length (filter ?p (ad_tokens (am_data V s)))"
    using admin_lawsD(10) [OF assms, unfolded revoke_many_law_def, rule_format, of ?p ?f s k] c by simp
  then show "k = length (filter ?p (ad_tokens d)) \<and> am_data V s' = d\<lparr>ad_tokens := map (\<lambda>t. if ?p t then ?f t else t) (ad_tokens d)\<rparr>"
    using f s by (simp add: same_but_one)
qed

end
