(* ===== verification/AdminProperties.thy ===== *)
theory AdminProperties
  imports AdminLaws
begin

text \<open>
  What an administrative change does: the specification of the seven changes, errors included, and
  the proof that the service implements it, change and audit record together or not at all.
\<close>

section \<open>Audit records\<close>

lemma map_of_ordered:
  "map fst ps = map f fs \<Longrightarrow> distinct (map f fs) \<Longrightarrow> map (\<lambda>x. (f x, the (map_of ps (f x)))) fs = ps"
proof (induction fs arbitrary: ps)
  case (Cons x fs)
  then obtain v qs where ps: "ps = (f x, v) # qs" "map fst qs = map f fs" by (cases ps) auto
  have "map (\<lambda>y. (f y, the (map_of ps (f y)))) fs = map (\<lambda>y. (f y, the (map_of qs (f y)))) fs"
    using Cons.prems(2) by (intro map_cong) (auto simp: ps image_iff)
  also have "\<dots> = qs" using Cons.IH [OF ps(2)] Cons.prems(2) by simp
  finally show ?case by (simp add: ps)
qed simp

lemma strictObject_ordered:
  assumes "strictObject shape (JObj ps) = Some w" and "map fst ps = map (js_lit \<circ> fst) shape" and "distinct (map fst shape)"
  shows "w = JObj ps"
proof -
  have d: "distinct (map (js_lit \<circ> fst) shape)" using assms(3) by (simp add: distinct_map inj_on_def js_lit_inj)
  have "w = JObj (map (\<lambda>x. ((js_lit \<circ> fst) x, the (map_of ps ((js_lit \<circ> fst) x)))) shape)"
    using assms(1) by (auto simp: strictObject_def case_prod_unfold split: if_splits)
  then show ?thesis unfolding map_of_ordered [OF assms(2) d] .
qed

lemma strictObject_keys:
  assumes "strictObject shape v = Some w"
  obtains ps where "w = JObj ps" "map fst ps = map (js_lit \<circ> fst) shape"
  using assms by (auto simp: strictObject_def case_prod_beta comp_def split: json.splits if_splits)

lemma schema_keys_distinct: "distinct (map fst (schemaByAction Z action))"
  by (cases action) (simp_all add: reasonSchema_def policySchema_def roleSchema_def teamSchema_def statusSchema_def sessionsSchema_def
    policyChangeSchema_def budgetSchema_def retentionSchema_def alertSchema_def exportSchema_def)

lemma build_object:
  assumes "buildSafeAuditMetadata Z action (audit_object ps) = Inr md" and "map fst ps = map fst (schemaByAction Z action)"
  shows "md = audit_object ps"
proof -
  have k: "map fst (map (\<lambda>(k, v). (js_lit k, v)) ps) = map (js_lit \<circ> fst) (schemaByAction Z action)"
    using arg_cong [OF assms(2), of "map js_lit"] by (simp add: case_prod_beta comp_def)
  have "strictObject (schemaByAction Z action) (JObj (map (\<lambda>(k, v). (js_lit k, v)) ps)) = Some md"
    using assms(1) by (simp add: buildSafeAuditMetadata_def audit_object_def split: option.splits if_splits)
  from strictObject_ordered [OF this k schema_keys_distinct] show ?thesis by (simp add: audit_object_def)
qed

lemma build_again:
  assumes "buildSafeAuditMetadata Z action v = Inr md" and "buildSafeAuditMetadata Z action md = Inr md'"
  shows "md' = md"
proof -
  have "strictObject (schemaByAction Z action) v = Some md"
    using assms(1) by (simp add: buildSafeAuditMetadata_def split: option.splits if_splits)
  then obtain ps where ps: "md = JObj ps" "map fst ps = map (js_lit \<circ> fst) (schemaByAction Z action)" by (rule strictObject_keys)
  have "strictObject (schemaByAction Z action) (JObj ps) = Some md'"
    using assms(2) by (simp add: buildSafeAuditMetadata_def ps(1) split: option.splits if_splits)
  from strictObject_ordered [OF this ps(2) schema_keys_distinct] show ?thesis by (simp add: ps(1))
qed

definition recorded ::
  "AdminMutationContext \<Rightarrow> AuditAction \<Rightarrow> AuditResourceType \<Rightarrow> string \<Rightarrow> json \<Rightarrow> AuditLog \<Rightarrow> bool" where
  "recorded ctx action resourceType resourceId metadata l \<longleftrightarrow>
     NewAuditLog.truncate l = admin_audit ctx action resourceType resourceId metadata \<and> audit_log_valid l"

lemma truncate_extend:
  "NewAuditLog.truncate (NewAuditLog.extend (x :: NewAuditLog) (AuditLog.fields i t)) = x"
  by (cases x) (simp add: NewAuditLog.truncate_def NewAuditLog.extend_def AuditLog.fields_def)

lemma append_effect:
  assumes laws: "admin_laws V" and s: "append_audit_log V input s = (Inr u, s')"
    and md: "buildSafeAuditMetadata (am_schema V) (na_action input) (na_metadata input) = Inr md"
  shows "\<exists>l. NewAuditLog.truncate l = input\<lparr>na_metadata := md\<rparr> \<and> audit_log_valid l
    \<and> am_data V s' = (am_data V s)\<lparr>ad_audits := ad_audits (am_data V s) @ [l]\<rparr>"
proof -
  obtain i s1 where i: "au_randomUUID (am_auth V) s = (i, s1)" by fastforce
  let ?l = "NewAuditLog.extend (input\<lparr>na_metadata := md\<rparr>) (AuditLog.fields i (au_now (am_auth V) s1))"
  have c: "cl_create (am_audits V) [?l] s1 = (Inr (), s')"
    using s by (simp add: append_audit_log_def act_bind_def draw_def act_read_def of_sum_def i md)
  have d: "am_data V s1 = am_data V s" using admin_framesD(11) [OF laws, of s] i by simp
  have "(am_data V s')\<lparr>ad_audits := []\<rparr> = (am_data V s1)\<lparr>ad_audits := []\<rparr>"
    using leavesD [OF admin_writesD(7) [OF laws] c] .
  then have "am_data V s' = (am_data V s)\<lparr>ad_audits := ad_audits (am_data V s')\<rparr>" by (simp add: same_but_one d)
  moreover have "ad_audits (am_data V s') = ad_audits (am_data V s) @ [?l]" "audit_log_valid ?l"
    using createD [OF admin_lawsD(9) [OF laws] c] by (simp_all add: am_data_simps d)
  ultimately show ?thesis using truncate_extend by metis
qed

lemma yields_audit:
  assumes laws: "admin_laws V" and keys: "map fst ps = map fst (schemaByAction (am_schema V) action)"
  shows "yields V (appendAdminAudit V ctx action resourceType resourceId (audit_object ps)) d
    (\<lambda>_ d'. \<exists>l. recorded ctx action resourceType resourceId (audit_object ps) l \<and> d' = d\<lparr>ad_audits := ad_audits d @ [l]\<rparr>) E"
  unfolding appendAdminAudit_def
proof (rule yields_bind [OF yields_of_sum [where Q = "\<lambda>md d'. d' = d \<and> buildSafeAuditMetadata (am_schema V) action (audit_object ps) = Inr md"]])
  fix md d'
  assume b: "d' = d \<and> buildSafeAuditMetadata (am_schema V) action (audit_object ps) = Inr md"
  let ?input = "admin_audit ctx action resourceType resourceId md"
  have m: "md = audit_object ps" using b build_object [OF _ keys] by blast
  show "yields V (appendAudit V ?input) d'
    (\<lambda>_ d'. \<exists>l. recorded ctx action resourceType resourceId (audit_object ps) l \<and> d' = d\<lparr>ad_audits := ad_audits d @ [l]\<rparr>) E"
    unfolding yields_def
  proof (intro allI impI)
    fix s r s'
    assume s: "am_data V s = d'" and a: "appendAudit V ?input s = (r, s')"
    obtain q s1 where q: "append_audit_log V ?input s = (q, s1)" by fastforce
    show "case r of Inr x \<Rightarrow> \<exists>l. recorded ctx action resourceType resourceId (audit_object ps) l \<and> am_data V s' = d\<lparr>ad_audits := ad_audits d @ [l]\<rparr>
        | Inl e \<Rightarrow> reported_error e \<longrightarrow> E e"
    proof (cases q)
      case (Inl e)
      then have "r = Inl auditUnavailableError"
        using a q by (auto simp: appendAudit_def act_catch_def act_then_def act_bind_def act_modify_def act_throw_def)
      then show ?thesis by (simp add: reported_error_def auditUnavailableError_def app_exn_def app_error_def)
    next
      case (Inr u)
      have r: "r = Inr ()" "s' = am_countAudit V ''success'' s1"
        using a q Inr by (auto simp: appendAudit_def act_catch_def act_then_def act_bind_def act_modify_def)
      obtain md' where md': "buildSafeAuditMetadata (am_schema V) (na_action ?input) (na_metadata ?input) = Inr md'"
        using q Inr by (cases "buildSafeAuditMetadata (am_schema V) (na_action ?input) (na_metadata ?input)")
          (auto simp: append_audit_log_def act_bind_def draw_def act_read_def of_sum_def act_throw_def split: prod.splits)
      have "md' = md" using build_again [OF conjunct2 [OF b], of md'] md' by (simp add: admin_audit_def)
      then have i: "?input\<lparr>na_metadata := md'\<rparr> = admin_audit ctx action resourceType resourceId (audit_object ps)"
        by (simp add: admin_audit_def m)
      from append_effect [OF laws q [unfolded Inr] md'] obtain l where
        "NewAuditLog.truncate l = ?input\<lparr>na_metadata := md'\<rparr>" "audit_log_valid l"
        "am_data V s1 = (am_data V s)\<lparr>ad_audits := ad_audits (am_data V s) @ [l]\<rparr>" by blast
      then show ?thesis using s b i admin_framesD(12) [OF laws] by (auto simp: r recorded_def)
    qed
  qed
qed (auto simp: buildSafeAuditMetadata_def reported_error_def split: option.splits if_splits)

section \<open>The specification\<close>

datatype AdminMutation =
  ChangeRole string UserRole
| ChangeTeam string "string option"
| ChangeStatus string UserStatus
| RevokeSessions string
| UpdatePolicy policy_patch
| UpdateRetention RetentionMode
| ResolveAlert string bool

fun run_mutation :: "'s admin \<Rightarrow> AdminMutationContext \<Rightarrow> AdminMutation \<Rightarrow> ('s, exn, AdminAnswer) act" where
  "run_mutation V ctx (ChangeRole userId role) = changeUserRole V ctx userId role"
| "run_mutation V ctx (ChangeTeam userId teamId) = changeUserTeam V ctx userId teamId"
| "run_mutation V ctx (ChangeStatus userId status) = changeUserStatus V ctx userId status"
| "run_mutation V ctx (RevokeSessions userId) = revokeUserSessions V ctx userId"
| "run_mutation V ctx (UpdatePolicy patch) = updateOrganisationPolicy V ctx patch"
| "run_mutation V ctx (UpdateRetention mode) = updateOrganisationRetention V ctx mode"
| "run_mutation V ctx (ResolveAlert alertId resolved) = updateAlertResolution V ctx alertId resolved"

definition member :: "AdminMutationContext \<Rightarrow> string \<Rightarrow> User \<Rightarrow> bool" where
  "member ctx userId u \<longleftrightarrow> usr_orgId u = mx_orgId ctx \<and> usr_userId u = userId"

definition user_updated ::
  "AdminMutationContext \<Rightarrow> string \<Rightarrow> (User \<Rightarrow> User) \<Rightarrow> User \<Rightarrow> admin_store \<Rightarrow> admin_store \<Rightarrow> bool" where
  "user_updated ctx userId change u d d' \<longleftrightarrow> member ctx userId u \<and> user_valid (change u)
     \<and> (\<exists>us. replaced (ad_users d) u (change u) us \<and> d' = d\<lparr>ad_users := us\<rparr>)"

definition organisation_updated ::
  "AdminMutationContext \<Rightarrow> (Organisation \<Rightarrow> Organisation) \<Rightarrow> Organisation \<Rightarrow> admin_store \<Rightarrow> admin_store \<Rightarrow> bool" where
  "organisation_updated ctx change g d d' \<longleftrightarrow> og_orgId g = mx_orgId ctx \<and> organisation_valid (change g)
     \<and> (\<exists>gs. replaced (ad_organisations d) g (change g) gs \<and> d' = d\<lparr>ad_organisations := gs\<rparr>)"

definition sessions_revoked :: "AdminMutationContext \<Rightarrow> string \<Rightarrow> int \<Rightarrow> nat \<Rightarrow> admin_store \<Rightarrow> admin_store \<Rightarrow> bool" where
  "sessions_revoked ctx userId now k d d' \<longleftrightarrow> k = length (filter (live_session_of (mx_orgId ctx) userId) (ad_tokens d))
     \<and> d' = d\<lparr>ad_tokens := map (\<lambda>t. if live_session_of (mx_orgId ctx) userId t then t\<lparr>rt_revokedAt := Some now\<rparr> else t) (ad_tokens d)\<rparr>"

definition logged ::
  "AdminMutationContext \<Rightarrow> AuditAction \<Rightarrow> AuditResourceType \<Rightarrow> string \<Rightarrow> json \<Rightarrow> admin_store \<Rightarrow> admin_store \<Rightarrow> bool" where
  "logged ctx action resourceType resourceId metadata d d' \<longleftrightarrow>
     (\<exists>l. recorded ctx action resourceType resourceId metadata l \<and> d' = d\<lparr>ad_audits := ad_audits d @ [l]\<rparr>)"

definition logged_if ::
  "bool \<Rightarrow> AdminMutationContext \<Rightarrow> AuditAction \<Rightarrow> AuditResourceType \<Rightarrow> string \<Rightarrow> json \<Rightarrow> admin_store \<Rightarrow> admin_store \<Rightarrow> bool" where
  "logged_if b ctx action resourceType resourceId metadata d d' \<longleftrightarrow>
     (if b then logged ctx action resourceType resourceId metadata d d' else d' = d)"

text \<open>What a change that succeeds did to the data.\<close>

fun mutation_effect :: "AdminMutationContext \<Rightarrow> AdminMutation \<Rightarrow> admin_store \<Rightarrow> admin_store \<Rightarrow> AdminAnswer \<Rightarrow> bool" where
  "mutation_effect ctx (ChangeRole i role) d d' a \<longleftrightarrow> (\<exists>u d1. user_updated ctx i (role_change role) u d d1
     \<and> (active_admin (mx_orgId ctx) u \<and> role \<noteq> ORG_ADMIN \<longrightarrow> other_admin (mx_orgId ctx) i d)
     \<and> logged ctx user_role_changed res_USER i (role_metadata u role) d1 d' \<and> a = AnswerUser (safeUser (role_change role u)))"
| "mutation_effect ctx (ChangeTeam i teamId) d d' a \<longleftrightarrow> (\<exists>u d1. user_updated ctx i (team_change teamId) u d d1
     \<and> known_team (mx_orgId ctx) teamId d
     \<and> logged ctx user_team_changed res_USER i (team_metadata u teamId) d1 d' \<and> a = AnswerUser (safeUser (team_change teamId u)))"
| "mutation_effect ctx (ChangeStatus i status) d d' a \<longleftrightarrow> (\<exists>u d1 d2 k now. user_updated ctx i (status_change status) u d d1
     \<and> (active_admin (mx_orgId ctx) u \<and> status = user_DISABLED \<longrightarrow> other_admin (mx_orgId ctx) i d)
     \<and> (if status = user_DISABLED then sessions_revoked ctx i now k d1 d2 else d2 = d1 \<and> k = 0)
     \<and> logged ctx user_status_changed res_USER i (status_metadata u status k) d2 d' \<and> a = AnswerUser (safeUser (status_change status u)))"
| "mutation_effect ctx (RevokeSessions i) d d' a \<longleftrightarrow> (\<exists>d1 k now. (\<exists>u \<in> set (ad_users d). member ctx i u)
     \<and> sessions_revoked ctx i now k d d1
     \<and> logged ctx user_sessions_revoked res_USER i (sessions_metadata k) d1 d' \<and> a = AnswerSessions i k now)"
| "mutation_effect ctx (UpdatePolicy patch) d d' a \<longleftrightarrow> (\<exists>g d1 d2. organisation_updated ctx (policy_change patch) g d d1
     \<and> logged_if (og_policy g \<noteq> og_policy (policy_change patch g)) ctx organisation_policy_changed res_ORGANISATION (mx_orgId ctx)
         (policy_metadata (og_policy g) (og_policy (policy_change patch g))) d1 d2
     \<and> logged_if (og_monthlyTokenBudget g \<noteq> og_monthlyTokenBudget (policy_change patch g)) ctx organisation_budget_changed
         res_ORGANISATION (mx_orgId ctx) (budget_metadata (og_monthlyTokenBudget g) (og_monthlyTokenBudget (policy_change patch g))) d2 d'
     \<and> a = AnswerPolicy (og_policy (policy_change patch g)) (og_monthlyTokenBudget (policy_change patch g)))"
| "mutation_effect ctx (UpdateRetention mode) d d' a \<longleftrightarrow> (\<exists>g d1 now. organisation_updated ctx (retention_change mode) g d d1
     \<and> logged ctx organisation_retention_changed res_ORGANISATION (mx_orgId ctx) (retention_metadata g mode) d1 d'
     \<and> a = AnswerRetention mode now)"
| "mutation_effect ctx (ResolveAlert i resolved) d d' a \<longleftrightarrow> (\<exists>x xs d1 since. is_alert (mx_orgId ctx) i x \<and> (resolved \<longleftrightarrow> since \<noteq> None)
     \<and> replaced (ad_alerts d) x (alert_change resolved since x) xs \<and> d1 = d\<lparr>ad_alerts := xs\<rparr>
     \<and> logged ctx (if resolved then alert_resolved else alert_reopened) res_ALERT i (alert_metadata x resolved) d1 d'
     \<and> a = AnswerAlert i resolved since)"

text \<open>Why a change is refused with an error of its own.\<close>

definition unknown_user :: "AdminMutationContext \<Rightarrow> string \<Rightarrow> admin_store \<Rightarrow> bool" where
  "unknown_user ctx i d \<longleftrightarrow> (\<forall>g \<in> set (ad_organisations d). og_orgId g \<noteq> mx_orgId ctx) \<or> (\<forall>u \<in> set (ad_users d). \<not> member ctx i u)"

fun mutation_refused :: "AdminMutationContext \<Rightarrow> AdminMutation \<Rightarrow> admin_store \<Rightarrow> exn \<Rightarrow> bool" where
  "mutation_refused ctx (ChangeRole i role) d e \<longleftrightarrow> e = admin_notFound \<and> unknown_user ctx i d
     \<or> (\<exists>u \<in> set (ad_users d). member ctx i u
          \<and> (e = team_required \<and> role = TEAM_LEAD \<and> usr_status u = user_ACTIVE \<and> no_team u
           \<or> e = last_admin \<and> role \<noteq> ORG_ADMIN \<and> active_admin (mx_orgId ctx) u \<and> \<not> other_admin (mx_orgId ctx) i d))"
| "mutation_refused ctx (ChangeTeam i teamId) d e \<longleftrightarrow>
     e = admin_notFound \<and> (unknown_user ctx i d \<or> \<not> known_team (mx_orgId ctx) teamId d)
     \<or> (\<exists>u \<in> set (ad_users d). member ctx i u \<and> e = team_required \<and> teamId = None \<and> usr_role u = TEAM_LEAD \<and> usr_status u = user_ACTIVE)"
| "mutation_refused ctx (ChangeStatus i status) d e \<longleftrightarrow> e = admin_notFound \<and> unknown_user ctx i d
     \<or> (\<exists>u \<in> set (ad_users d). member ctx i u
          \<and> (e = team_required \<and> status = user_ACTIVE \<and> usr_role u = TEAM_LEAD \<and> no_team u
           \<or> e = last_admin \<and> status = user_DISABLED \<and> active_admin (mx_orgId ctx) u \<and> \<not> other_admin (mx_orgId ctx) i d))"
| "mutation_refused ctx (RevokeSessions i) d e \<longleftrightarrow> e = admin_notFound \<and> unknown_user ctx i d"
| "mutation_refused ctx (UpdatePolicy patch) d e \<longleftrightarrow> e = admin_notFound \<and> (\<forall>g \<in> set (ad_organisations d). og_orgId g \<noteq> mx_orgId ctx)"
| "mutation_refused ctx (UpdateRetention mode) d e \<longleftrightarrow> e = admin_notFound \<and> (\<forall>g \<in> set (ad_organisations d). og_orgId g \<noteq> mx_orgId ctx)
     \<or> e = app_exn 503 ''ENCRYPTION_UNAVAILABLE'' ''Encrypted storage is temporarily unavailable.'' \<and> mode = ENCRYPTED_STORAGE"
| "mutation_refused ctx (ResolveAlert i resolved) d e \<longleftrightarrow> e = admin_notFound \<and> (\<forall>x \<in> set (ad_alerts d). \<not> is_alert (mx_orgId ctx) i x)"

definition admin_unique :: "admin_store \<Rightarrow> bool" where
  "admin_unique d \<longleftrightarrow> distinct (map usr_userId (ad_users d)) \<and> distinct (map og_orgId (ad_organisations d))
     \<and> distinct (map aa_alertId (ad_alerts d))"

section \<open>The bodies\<close>

lemma replaced_in: "replaced ds d d' ds' \<Longrightarrow> d \<in> set ds"
  by (auto simp: replaced_def)

lemma distinct_key:
  assumes "distinct (map f ds)" and "x \<in> set ds" and "y \<in> set ds" and "f x = f y"
  shows "x = y"
  using assms by (simp add: distinct_map inj_on_def)

lemma yields_update_user:
  assumes "admin_laws V" and "admin_unique d" and "u \<in> set (ad_users d)" and "member ctx i u"
  shows "yields V (save_user V change u) d (\<lambda>_ d'. user_updated ctx i change u d d') E"
proof (rule yields_mono [OF yields_save_user [OF assms(1)]])
  fix d'
  assume "user_valid (change u) \<and> (\<exists>x us. usr_userId x = usr_userId u \<and> replaced (ad_users d) x (change x) us \<and> d' = d\<lparr>ad_users := us\<rparr>)"
  then obtain x us where x: "user_valid (change u)" "usr_userId x = usr_userId u" "replaced (ad_users d) x (change x) us" "d' = d\<lparr>ad_users := us\<rparr>"
    by blast
  have "x = u" using distinct_key [of usr_userId "ad_users d" x u] assms(2,3) x(2) replaced_in [OF x(3)] by (simp add: admin_unique_def)
  then show "user_updated ctx i change u d d'" using x assms(4) by (auto simp: user_updated_def)
qed

lemma yields_update_organisation:
  assumes "admin_laws V" and "admin_unique d" and "g \<in> set (ad_organisations d)" and "og_orgId g = mx_orgId ctx"
  shows "yields V (save_organisation V change g) d (\<lambda>_ d'. organisation_updated ctx change g d d') E"
proof (rule yields_mono [OF yields_save_organisation [OF assms(1)]])
  fix d'
  assume "organisation_valid (change g) \<and> (\<exists>x gs. og_orgId x = og_orgId g \<and> replaced (ad_organisations d) x (change x) gs
    \<and> d' = d\<lparr>ad_organisations := gs\<rparr>)"
  then obtain x gs where x: "organisation_valid (change g)" "og_orgId x = og_orgId g" "replaced (ad_organisations d) x (change x) gs"
    "d' = d\<lparr>ad_organisations := gs\<rparr>" by blast
  have "x = g" using distinct_key [of og_orgId "ad_organisations d" x g] assms(2,3) x(2) replaced_in [OF x(3)] by (simp add: admin_unique_def)
  then show "organisation_updated ctx change g d d'" using x assms(4) by (auto simp: organisation_updated_def)
qed

lemma yields_logged:
  assumes "admin_laws V" and "map fst ps = map fst (schemaByAction (am_schema V) action)"
  shows "yields V (appendAdminAudit V ctx action resourceType resourceId (audit_object ps)) d
    (\<lambda>_ d'. logged ctx action resourceType resourceId (audit_object ps) d d') E"
  using yields_audit [OF assms] unfolding logged_def .

lemma yields_logged_change:
  assumes "admin_laws V"
  shows "yields V (appendAdminAudit V ctx user_role_changed rt ri (role_metadata u role)) d (\<lambda>_. logged ctx user_role_changed rt ri (role_metadata u role) d) E"
    and "yields V (appendAdminAudit V ctx user_team_changed rt ri (team_metadata u t)) d (\<lambda>_. logged ctx user_team_changed rt ri (team_metadata u t) d) E"
    and "yields V (appendAdminAudit V ctx user_status_changed rt ri (status_metadata u st k)) d
           (\<lambda>_. logged ctx user_status_changed rt ri (status_metadata u st k) d) E"
    and "yields V (appendAdminAudit V ctx user_sessions_revoked rt ri (sessions_metadata k)) d
           (\<lambda>_. logged ctx user_sessions_revoked rt ri (sessions_metadata k) d) E"
    and "yields V (appendAdminAudit V ctx organisation_policy_changed rt ri (policy_metadata p p')) d
           (\<lambda>_. logged ctx organisation_policy_changed rt ri (policy_metadata p p') d) E"
    and "yields V (appendAdminAudit V ctx organisation_budget_changed rt ri (budget_metadata b b')) d
           (\<lambda>_. logged ctx organisation_budget_changed rt ri (budget_metadata b b') d) E"
    and "yields V (appendAdminAudit V ctx organisation_retention_changed rt ri (retention_metadata g m)) d
           (\<lambda>_. logged ctx organisation_retention_changed rt ri (retention_metadata g m) d) E"
    and "yields V (appendAdminAudit V ctx (if y then alert_resolved else alert_reopened) rt ri (alert_metadata x c)) d
           (\<lambda>_. logged ctx (if y then alert_resolved else alert_reopened) rt ri (alert_metadata x c) d) E"
  unfolding role_metadata_def team_metadata_def status_metadata_def sessions_metadata_def policy_metadata_def budget_metadata_def
    retention_metadata_def alert_metadata_def
  by (rule yields_logged [OF assms]; simp add: roleSchema_def teamSchema_def statusSchema_def sessionsSchema_def policyChangeSchema_def
    budgetSchema_def retentionSchema_def alertSchema_def)+

text \<open>The start of every change of a user.\<close>

lemma yields_locked_user:
  assumes "admin_laws V"
    and "\<And>u. u \<in> set (ad_users d) \<Longrightarrow> member ctx i u \<Longrightarrow> yields V (k u) d Q E"
    and "\<And>e. e = admin_notFound \<Longrightarrow> unknown_user ctx i d \<Longrightarrow> E e"
  shows "yields V (act_then (lockOrganisation V (mx_orgId ctx)) (act_bind (requireUser V (mx_orgId ctx) i) k)) d Q E"
proof (rule yields_then [OF yields_mono [OF yields_lock [OF assms(1)]]])
  fix x d'
  assume "d' = d \<and> (\<exists>g \<in> set (ad_organisations d). og_orgId g = mx_orgId ctx)"
  then have d': "d' = d" by blast
  show "yields V (act_bind (requireUser V (mx_orgId ctx) i) k) d' Q E" unfolding d'
    by (rule yields_bind [OF yields_mono [OF yields_user [OF assms(1)]]])
      (use assms(2,3) in \<open>auto simp: member_def unknown_user_def\<close>)
qed (use assms(3) in \<open>auto simp: unknown_user_def\<close>)

lemma role_operation_effect:
  assumes laws: "admin_laws V" and unique: "admin_unique d"
  shows "yields V (role_operation V ctx i role) d (\<lambda>a d'. mutation_effect ctx (ChangeRole i role) d d' a)
    (mutation_refused ctx (ChangeRole i role) d)"
  unfolding role_operation_def
proof (rule yields_locked_user [OF laws])
  let ?E = "mutation_refused ctx (ChangeRole i role) d" and ?Q = "\<lambda>a d'. mutation_effect ctx (ChangeRole i role) d d' a"
  fix u
  assume u: "u \<in> set (ad_users d)" "member ctx i u"
  let ?admin = "usr_role u = ORG_ADMIN \<and> usr_status u = user_ACTIVE \<and> role \<noteq> ORG_ADMIN"
  let ?P = "\<lambda>_ d1. d1 = d \<and> (?admin \<longrightarrow> other_admin (mx_orgId ctx) i d)"
  show "yields V (if role = TEAM_LEAD \<and> usr_status u = user_ACTIVE \<and> no_team u then act_throw team_required
       else act_then (if ?admin then assertAnotherActiveAdmin V (mx_orgId ctx) i else act_ret ())
        (act_then (save_user V (role_change role) u)
        (act_then (appendAdminAudit V ctx user_role_changed res_USER i (role_metadata u role))
           (act_ret (AnswerUser (safeUser (role_change role u))))))) d ?Q ?E"
  proof (rule yields_if [OF yields_throw yields_then [where P = ?P]])
    show "yields V (if ?admin then assertAnotherActiveAdmin V (mx_orgId ctx) i else act_ret ()) d ?P ?E"
      by (rule yields_if [OF yields_mono [OF yields_another [OF laws]] yields_ret])
        (use u in \<open>auto simp: active_admin_def member_def\<close>)
  next
    fix x d1
    assume p: "?P x d1"
    show "yields V (act_then (save_user V (role_change role) u)
        (act_then (appendAdminAudit V ctx user_role_changed res_USER i (role_metadata u role))
           (act_ret (AnswerUser (safeUser (role_change role u)))))) d1 ?Q ?E"
      unfolding conjunct1 [OF p]
      by (rule yields_then [OF yields_update_user [OF laws unique u]], rule yields_then [OF yields_logged_change(1) [OF laws]], rule yields_ret)
        (use p in \<open>auto simp: active_admin_def\<close>)
  qed (use u in auto)
qed simp

lemma team_operation_effect:
  assumes laws: "admin_laws V" and unique: "admin_unique d"
  shows "yields V (team_operation V ctx i teamId) d (\<lambda>a d'. mutation_effect ctx (ChangeTeam i teamId) d d' a)
    (mutation_refused ctx (ChangeTeam i teamId) d)"
  unfolding team_operation_def
proof (rule yields_locked_user [OF laws])
  let ?E = "mutation_refused ctx (ChangeTeam i teamId) d" and ?Q = "\<lambda>a d'. mutation_effect ctx (ChangeTeam i teamId) d d' a"
  fix u
  assume u: "u \<in> set (ad_users d)" "member ctx i u"
  let ?lead = "teamId = None \<and> usr_role u = TEAM_LEAD \<and> usr_status u = user_ACTIVE"
  show "yields V (act_then (requireTeam V (mx_orgId ctx) teamId)
       (if ?lead then act_throw team_required
        else act_then (save_user V (team_change teamId) u)
         (act_then (appendAdminAudit V ctx user_team_changed res_USER i (team_metadata u teamId))
            (act_ret (AnswerUser (safeUser (team_change teamId u))))))) d ?Q ?E"
  proof (rule yields_then [OF yields_mono [OF yields_team [OF laws]]])
    fix x d1
    assume p: "d1 = d \<and> known_team (mx_orgId ctx) teamId d"
    show "yields V (if ?lead then act_throw team_required
        else act_then (save_user V (team_change teamId) u)
         (act_then (appendAdminAudit V ctx user_team_changed res_USER i (team_metadata u teamId))
            (act_ret (AnswerUser (safeUser (team_change teamId u)))))) d1 ?Q ?E"
      unfolding conjunct1 [OF p]
      by (rule yields_if [OF yields_throw], use u in force, rule yields_then [OF yields_update_user [OF laws unique u]],
          rule yields_then [OF yields_logged_change(2) [OF laws]], rule yields_ret)
        (use p in auto)
  qed auto
qed auto

lemma status_operation_effect:
  assumes laws: "admin_laws V" and unique: "admin_unique d"
  shows "yields V (status_operation V ctx i status) d (\<lambda>a d'. mutation_effect ctx (ChangeStatus i status) d d' a)
    (mutation_refused ctx (ChangeStatus i status) d)"
  unfolding status_operation_def
proof (rule yields_locked_user [OF laws])
  let ?E = "mutation_refused ctx (ChangeStatus i status) d" and ?Q = "\<lambda>a d'. mutation_effect ctx (ChangeStatus i status) d d' a"
  fix u
  assume u: "u \<in> set (ad_users d)" "member ctx i u"
  let ?admin = "usr_role u = ORG_ADMIN \<and> usr_status u = user_ACTIVE \<and> status = user_DISABLED"
    and ?lead = "status = user_ACTIVE \<and> usr_role u = TEAM_LEAD \<and> no_team u"
    and ?revoke = "if status = user_DISABLED then act_bind (act_read (au_now (am_auth V))) (revokeSessions V (mx_orgId ctx) i) else act_ret 0"
    and ?log = "\<lambda>k. act_then (appendAdminAudit V ctx user_status_changed res_USER i (status_metadata u status k))
            (act_ret (AnswerUser (safeUser (status_change status u))))"
    and ?P = "\<lambda>_ d1. d1 = d \<and> (usr_role u = ORG_ADMIN \<and> usr_status u = user_ACTIVE \<and> status = user_DISABLED \<longrightarrow> other_admin (mx_orgId ctx) i d)"
  show "yields V (act_then (if ?admin then assertAnotherActiveAdmin V (mx_orgId ctx) i else act_ret ())
      (if ?lead then act_throw team_required else act_then (save_user V (status_change status) u) (act_bind ?revoke ?log))) d ?Q ?E"
  proof (rule yields_then [where P = ?P])
    show "yields V (if ?admin then assertAnotherActiveAdmin V (mx_orgId ctx) i else act_ret ()) d ?P ?E"
      by (rule yields_if [OF yields_mono [OF yields_another [OF laws]] yields_ret])
        (use u in \<open>auto simp: active_admin_def member_def\<close>)
  next
    fix x d1
    assume p: "?P x d1"
    have revoke: "yields V ?revoke d2 (\<lambda>k d3. \<exists>now. if status = user_DISABLED then sessions_revoked ctx i now k d2 d3 else d3 = d2 \<and> k = 0) ?E" for d2
      by (rule yields_if, rule yields_bind [OF yields_read [where Q = "\<lambda>_ d3. d3 = d2"]], simp,
          rule yields_mono [OF yields_revoke [OF laws]]) (auto simp: sessions_revoked_def intro: yields_ret)
    show "yields V (if ?lead then act_throw team_required else act_then (save_user V (status_change status) u) (act_bind ?revoke ?log)) d1 ?Q ?E"
      unfolding conjunct1 [OF p]
    proof (rule yields_if [OF yields_throw yields_then [OF yields_update_user [OF laws unique u] yields_bind [OF revoke]]])
      fix y d2 k d3
      assume up: "user_updated ctx i (status_change status) u d d2"
        and r: "\<exists>now. if status = user_DISABLED then sessions_revoked ctx i now k d2 d3 else d3 = d2 \<and> k = 0"
      have "mutation_effect ctx (ChangeStatus i status) d d4 (AnswerUser (safeUser (status_change status u)))"
        if "logged ctx user_status_changed res_USER i (status_metadata u status k) d3 d4" for d4
        using up r p that by (simp only: mutation_effect.simps active_admin_def) blast
      then show "yields V (?log k) d3 ?Q ?E"
        by (rule_tac yields_then [OF yields_logged_change(3) [OF laws]], rule_tac yields_ret) blast
    qed (use u in auto)
  qed
qed simp

lemma sessions_operation_effect:
  assumes laws: "admin_laws V"
  shows "yields V (sessions_operation V ctx i) d (\<lambda>a d'. mutation_effect ctx (RevokeSessions i) d d' a)
    (mutation_refused ctx (RevokeSessions i) d)"
  unfolding sessions_operation_def
proof (rule yields_locked_user [OF laws])
  let ?E = "mutation_refused ctx (RevokeSessions i) d" and ?Q = "\<lambda>a d'. mutation_effect ctx (RevokeSessions i) d d' a"
  fix u
  assume u: "u \<in> set (ad_users d)" "member ctx i u"
  let ?rest = "\<lambda>now. act_bind (revokeSessions V (mx_orgId ctx) i now) (\<lambda>n.
     act_then (appendAdminAudit V ctx user_sessions_revoked res_USER i (sessions_metadata n)) (act_ret (AnswerSessions i n now)))"
  have "yields V (?rest now) d ?Q ?E" for now
    by (rule yields_bind [OF yields_revoke [OF laws]], rule yields_then [OF yields_logged_change(4) [OF laws]], rule yields_ret)
      (use u in \<open>auto simp: sessions_revoked_def\<close>)
  then show "yields V (act_bind (act_read (au_now (am_auth V))) ?rest) d ?Q ?E"
    by (rule_tac yields_bind [OF yields_read [where Q = "\<lambda>_ d1. d1 = d"]]) simp_all
qed simp

lemma policy_operation_effect:
  assumes laws: "admin_laws V" and unique: "admin_unique d"
  shows "yields V (policy_operation V ctx patch) d (\<lambda>a d'. mutation_effect ctx (UpdatePolicy patch) d d' a)
    (mutation_refused ctx (UpdatePolicy patch) d)"
  unfolding policy_operation_def Let_def
proof (rule yields_bind [OF yields_mono [OF yields_organisation [OF laws]]])
  let ?E = "mutation_refused ctx (UpdatePolicy patch) d" and ?Q = "\<lambda>a d'. mutation_effect ctx (UpdatePolicy patch) d d' a"
  fix g d0
  assume g: "d0 = d \<and> g \<in> set (ad_organisations d) \<and> og_orgId g = mx_orgId ctx"
  let ?g = "policy_change patch g"
  let ?policy = "if og_policy g \<noteq> og_policy ?g
       then appendAdminAudit V ctx organisation_policy_changed res_ORGANISATION (mx_orgId ctx) (policy_metadata (og_policy g) (og_policy ?g))
       else act_ret ()"
    and ?budget = "if og_monthlyTokenBudget g \<noteq> og_monthlyTokenBudget ?g
       then appendAdminAudit V ctx organisation_budget_changed res_ORGANISATION (mx_orgId ctx)
              (budget_metadata (og_monthlyTokenBudget g) (og_monthlyTokenBudget ?g)) else act_ret ()"
    and ?answer = "AnswerPolicy (og_policy ?g) (og_monthlyTokenBudget ?g)"
  have policy: "yields V ?policy d1 (\<lambda>_. logged_if (og_policy g \<noteq> og_policy ?g) ctx organisation_policy_changed res_ORGANISATION (mx_orgId ctx)
         (policy_metadata (og_policy g) (og_policy ?g)) d1) ?E" for d1
    by (rule yields_if [OF yields_mono [OF yields_logged_change(5) [OF laws]] yields_ret]) (auto simp: logged_if_def)
  have budget: "yields V ?budget d1 (\<lambda>_. logged_if (og_monthlyTokenBudget g \<noteq> og_monthlyTokenBudget ?g) ctx organisation_budget_changed
         res_ORGANISATION (mx_orgId ctx) (budget_metadata (og_monthlyTokenBudget g) (og_monthlyTokenBudget ?g)) d1) ?E" for d1
    by (rule yields_if [OF yields_mono [OF yields_logged_change(6) [OF laws]] yields_ret]) (auto simp: logged_if_def)
  have valid: "yields V (if organisation_valid ?g then act_ret () else act_throw (ExnOther ''ValidationError'')) d0 (\<lambda>_ d1. d1 = d) ?E"
    by (rule yields_if [OF yields_ret yields_throw]) (simp_all add: g reported_error_def)
  show "yields V (act_then (if organisation_valid ?g then act_ret () else act_throw (ExnOther ''ValidationError''))
      (act_then (save_organisation V (policy_change patch) g) (act_then ?policy (act_then ?budget (act_ret ?answer))))) d0 ?Q ?E"
  proof (rule yields_then [OF valid])
    fix x d1
    assume "d1 = d"
    have "yields V (act_then (save_organisation V (policy_change patch) g) (act_then ?policy (act_then ?budget (act_ret ?answer)))) d ?Q ?E"
      by (rule yields_then [OF yields_update_organisation [OF laws unique]], use g in blast, use g in blast,
          rule yields_then [OF policy], rule yields_then [OF budget], rule yields_ret) (simp only: mutation_effect.simps, blast)
    then show "yields V (act_then (save_organisation V (policy_change patch) g) (act_then ?policy (act_then ?budget (act_ret ?answer)))) d1 ?Q ?E"
      unfolding \<open>d1 = d\<close> .
  qed
qed simp

lemma retention_operation_effect:
  assumes laws: "admin_laws V" and unique: "admin_unique d"
  shows "yields V (retention_operation V ctx mode) d (\<lambda>a d'. mutation_effect ctx (UpdateRetention mode) d d' a)
    (mutation_refused ctx (UpdateRetention mode) d)"
  unfolding retention_operation_def
proof (rule yields_bind [OF yields_mono [OF yields_organisation [OF laws]]])
  fix g d0
  assume g: "d0 = d \<and> g \<in> set (ad_organisations d) \<and> og_orgId g = mx_orgId ctx"
  show "yields V (act_then (save_organisation V (retention_change mode) g)
    (act_then (appendAdminAudit V ctx organisation_retention_changed res_ORGANISATION (mx_orgId ctx) (retention_metadata g mode))
    (act_bind (act_read (au_now (am_auth V))) (\<lambda>effectiveAt. act_ret (AnswerRetention mode effectiveAt))))) d0
    (\<lambda>a d'. mutation_effect ctx (UpdateRetention mode) d d' a) (mutation_refused ctx (UpdateRetention mode) d)"
    unfolding conjunct1 [OF g]
  proof (rule yields_then [OF yields_update_organisation [OF laws unique] yields_then [OF yields_logged_change(7) [OF laws]]])
    fix x d1 y d2
    assume "organisation_updated ctx (retention_change mode) g d d1"
      "logged ctx organisation_retention_changed res_ORGANISATION (mx_orgId ctx) (retention_metadata g mode) d1 d2"
    then have "mutation_effect ctx (UpdateRetention mode) d d2 (AnswerRetention mode now)" for now by auto
    then show "yields V (act_bind (act_read (au_now (am_auth V))) (\<lambda>effectiveAt. act_ret (AnswerRetention mode effectiveAt))) d2
      (\<lambda>a d'. mutation_effect ctx (UpdateRetention mode) d d' a) (mutation_refused ctx (UpdateRetention mode) d)"
      by (rule_tac yields_bind [OF yields_read [where Q = "\<lambda>_ d3. d3 = d2"]]) (auto intro: yields_ret)
  qed (use g in auto)
qed simp

lemma alert_operation_effect:
  assumes laws: "admin_laws V" and unique: "admin_unique d"
  shows "yields V (alert_operation V ctx i resolved) d (\<lambda>a d'. mutation_effect ctx (ResolveAlert i resolved) d d' a)
    (mutation_refused ctx (ResolveAlert i resolved) d)"
  unfolding alert_operation_def Let_def
proof (rule yields_bind [OF yields_find [OF admin_lawsD(5) [OF laws] admin_framesD(9,10) [OF laws] am_data_simps(5)]])
  let ?p = "is_alert (mx_orgId ctx) i" and ?Q = "\<lambda>a d'. mutation_effect ctx (ResolveAlert i resolved) d d' a"
    and ?E = "mutation_refused ctx (ResolveAlert i resolved) d"
  fix r d0
  assume f: "d0 = d \<and> (case r of None \<Rightarrow> \<forall>x \<in> set (ad_alerts d). \<not> ?p x | Some x \<Rightarrow> x \<in> set (ad_alerts d) \<and> ?p x)"
  let ?log = "\<lambda>a since alert. act_then (if alert = None then act_throw admin_notFound else act_ret ())
        (act_then (appendAdminAudit V ctx (if resolved then alert_resolved else alert_reopened) res_ALERT i (alert_metadata a resolved))
           (act_ret (AnswerAlert i resolved since)))"
  let ?rest = "\<lambda>a now. act_bind (cl_update (am_alerts V) ?p (alert_change resolved (if resolved then Some now else None)))
     (?log a (if resolved then Some now else None))"
  have rest: "yields V (?rest a now) d ?Q ?E" if a: "a \<in> set (ad_alerts d)" "?p a" for a now
  proof (rule yields_bind)
    let ?f = "alert_change resolved (if resolved then Some now else None)"
    let ?P = "\<lambda>x d1. x \<noteq> None \<longrightarrow> (\<exists>xs. replaced (ad_alerts d) a (?f a) xs \<and> d1 = d\<lparr>ad_alerts := xs\<rparr>)"
    have n: "\<forall>x \<in> set (ad_alerts d). \<not> ?p x \<Longrightarrow> False" using a by blast
    show "yields V (cl_update (am_alerts V) ?p ?f) d (\<lambda>x d1. x \<noteq> None \<and> ?P x d1) ?E"
    proof (rule yields_observed [OF admin_writesD(5,6) [OF laws]])
      fix s x s'
      assume s: "am_data V s = d" and c: "cl_update (am_alerts V) ?p ?f s = (Inr x, s')"
        and fr: "(am_data V s')\<lparr>ad_alerts := []\<rparr> = (am_data V s)\<lparr>ad_alerts := []\<rparr>"
      have "x \<noteq> None" using updateD(1) [OF admin_lawsD(8) [OF laws] c] n s by (auto simp: am_data_simps)
      then obtain y where y: "x = Some y" by blast
      from update_replaced [OF admin_lawsD(8) [OF laws] c [unfolded y]]
      obtain z where z: "?p z" "replaced (ad_alerts d) z (?f z) (ad_alerts (am_data V s'))" by (metis am_data_simps(5) s)
      have "z = a" using distinct_key [of aa_alertId "ad_alerts d" z a] unique a z(1) replaced_in [OF z(2)]
        by (simp add: admin_unique_def is_alert_def)
      moreover have "am_data V s' = d\<lparr>ad_alerts := ad_alerts (am_data V s')\<rparr>" using fr s by (simp add: same_but_one)
      ultimately show "x \<noteq> None \<and> ?P x (am_data V s')" using z(2) y by blast
    qed
    fix x d1
    assume x: "x \<noteq> None \<and> ?P x d1"
    then obtain xs where xs: "replaced (ad_alerts d) a (?f a) xs" "d1 = d\<lparr>ad_alerts := xs\<rparr>" by blast
    show "yields V (?log a (if resolved then Some now else None) x) d1 ?Q ?E"
    proof (rule yields_then [where P = "\<lambda>_ d2. d2 = d1"])
      fix y d2
      assume "d2 = d1"
      show "yields V (act_then (appendAdminAudit V ctx (if resolved then alert_resolved else alert_reopened) res_ALERT i (alert_metadata a resolved))
           (act_ret (AnswerAlert i resolved (if resolved then Some now else None)))) d2 ?Q ?E"
        unfolding \<open>d2 = d1\<close>
        by (rule yields_then [OF yields_logged_change(8) [OF laws]], rule yields_ret, simp only: mutation_effect.simps)
          (use xs a(2) in \<open>intro exI conjI; (assumption | simp)\<close>)
    qed (use x in \<open>auto intro: yields_ret\<close>)
  qed
  show "yields V (case r of None \<Rightarrow> act_throw admin_notFound | Some a \<Rightarrow> act_bind (act_read (au_now (am_auth V))) (?rest a)) d0 ?Q ?E"
  proof (cases r)
    case None
    then show ?thesis using f by (auto intro!: yields_throw)
  next
    case (Some a)
    have "yields V (act_bind (act_read (au_now (am_auth V))) (?rest a)) d ?Q ?E"
      by (rule yields_bind [OF yields_read [where Q = "\<lambda>_ d1. d1 = d"]]) (use f Some rest in auto)
    then show ?thesis using f Some by simp
  qed
qed

section \<open>The transaction\<close>

definition settles ::
  "'s admin \<Rightarrow> ('s, exn, AdminAnswer) act \<Rightarrow> 's \<Rightarrow> (admin_store \<Rightarrow> AdminAnswer \<Rightarrow> bool) \<Rightarrow> (exn \<Rightarrow> bool) \<Rightarrow> bool" where
  "settles V m s Q E \<longleftrightarrow> (\<forall>r s'. m s = (r, s') \<longrightarrow>
     (case r of
        Inr a \<Rightarrow> Q (am_data V s') a
      | Inl e \<Rightarrow> (reported_error e \<longrightarrow> am_data V s' = am_data V s \<and> E e)
          \<and> (am_data V s' = am_data V s \<or> (\<exists>a. Q (am_data V s') a))))"

lemma unreportedD: "unreported m \<Longrightarrow> m s = (Inl e, s') \<Longrightarrow> \<not> reported_error e"
  unfolding unreported_def by (metis fst_conv)

lemma not_reported: "\<not> reported_error auditUnavailableError"
  by (simp add: reported_error_def auditUnavailableError_def app_exn_def app_error_def)

lemma audited_transaction:
  assumes laws: "admin_laws V" and body: "yields V m (am_data V s) (\<lambda>a d'. Q d' a) E"
  shows "settles V (withAuditedTransaction V m) s Q E"
  unfolding settles_def
proof (intro allI impI)
  fix r s'
  assume run: "withAuditedTransaction V m s = (r, s')"
  let ?goal = "case r of Inr a \<Rightarrow> Q (am_data V s') a
      | Inl e \<Rightarrow> (reported_error e \<longrightarrow> am_data V s' = am_data V s \<and> E e) \<and> (am_data V s' = am_data V s \<or> (\<exists>a. Q (am_data V s') a))"
  obtain q1 s1 where start: "am_startSession V s = (q1, s1)" by fastforce
  have d1: "am_data V s1 = am_data V s" using leavesD [OF admin_framesD(13) [OF laws] start] .
  show ?goal
  proof (cases q1)
    case (Inl e)
    then have "r = Inl e" "s' = s1" using run start by (auto simp: withAuditedTransaction_def act_then_def act_bind_def)
    then show ?thesis using d1 unreportedD [OF admin_framesD(14) [OF laws] start [unfolded Inl]] by simp
  next
    case (Inr u)
    obtain q s2 where tx: "am_transaction V m s1 = (q, s2)" by fastforce
    obtain q3 s3 where close: "am_endSession V s2 = (q3, s3)" by fastforce
    have d3: "am_data V s3 = am_data V s2" using leavesD [OF admin_framesD(15) [OF laws] close] .
    let ?inner = "case q of Inr (Some a) \<Rightarrow> Inr a | Inr None \<Rightarrow> Inl auditUnavailableError
       | Inl e \<Rightarrow> Inl (if reported_error e then e else auditUnavailableError)"
    have rs: "s' = s3" "r = (case q3 of Inl e \<Rightarrow> Inl e | Inr _ \<Rightarrow> ?inner)"
      using run start Inr tx close not_reported
      by (auto simp: withAuditedTransaction_def act_then_def act_bind_def act_finally_def act_catch_def act_throw_def act_ret_def
        split: sum.splits option.splits if_splits)
    have q3: "\<not> reported_error e" if "q3 = Inl e" for e
      using unreportedD [OF admin_framesD(16) [OF laws]] close that by blast
    have ran: "Q d' a" if "\<exists>s0 s1'. am_data V s0 = am_data V s1 \<and> m s0 = (Inr a, s1') \<and> d' = am_data V s1'" for a d'
      using that yieldsD(1) [OF body] d1 by fastforce
    have failed: "E e" if "reported_error e" "\<exists>s0 s1'. am_data V s0 = am_data V s1 \<and> m s0 = (Inl e, s1')" for e
      using that yieldsD(2) [OF body] d1 by fastforce
    note law = admin_lawsD(11) [OF laws, unfolded admin_transaction_law_def Let_def, rule_format, OF tx]
    have tr: "case ?inner of Inr a \<Rightarrow> Q (am_data V s2) a
      | Inl e \<Rightarrow> (reported_error e \<longrightarrow> am_data V s2 = am_data V s \<and> E e) \<and> (am_data V s2 = am_data V s \<or> (\<exists>a. Q (am_data V s2) a))"
    proof (cases q)
      case (Inl e)
      show ?thesis
      proof (cases "reported_error e")
        case True
        then show ?thesis using law Inl d1 failed [of e] by auto
      next
        case False
        then have "am_data V s2 = am_data V s \<or> (\<exists>a. Q (am_data V s2) a)"
          using law Inl d1 ran by auto
        then show ?thesis using Inl False not_reported by simp
      qed
    next
      case (Inr v)
      then show ?thesis using law d1 ran not_reported by (cases v) auto
    qed
    show ?thesis
    proof (cases q3)
      case (Inl e)
      then show ?thesis using tr d3 q3 rs by (auto split: sum.splits)
    next
      case (Inr v)
      show ?thesis using tr unfolding rs Inr sum.case d3 .
    qed
  qed
qed

section \<open>The last administrator\<close>

definition has_admin :: "string \<Rightarrow> admin_store \<Rightarrow> bool" where
  "has_admin orgId d \<longleftrightarrow> (\<exists>u \<in> set (ad_users d). active_admin orgId u)"

lemma replaced_map: "replaced ds x y ds' \<Longrightarrow> f y = f x \<Longrightarrow> map f ds' = map f ds"
  by (auto simp: replaced_def)

lemma admin_replaced:
  assumes "replaced (ad_users d) u u' us" and "has_admin orgId d"
    and "active_admin orgId u \<Longrightarrow> active_admin orgId u' \<or> (\<exists>v \<in> set (ad_users d). active_admin orgId v \<and> v \<noteq> u)"
  shows "has_admin orgId (d'\<lparr>ad_users := us\<rparr>)"
proof -
  have u': "u' \<in> set us" and stays: "\<And>v. v \<in> set (ad_users d) \<Longrightarrow> v \<noteq> u \<Longrightarrow> v \<in> set us"
    using assms(1) by (auto simp: replaced_def)
  from assms(2) obtain w where w: "w \<in> set (ad_users d)" "active_admin orgId w" by (auto simp: has_admin_def)
  have "\<exists>v \<in> set us. active_admin orgId v"
  proof (cases "w = u")
    case True
    with w(2) assms(3) u' stays show ?thesis by blast
  next
    case False
    with w stays show ?thesis by blast
  qed
  then show ?thesis by (simp add: has_admin_def)
qed

lemma user_updated_keeps:
  assumes "user_updated ctx i change u d d1" and "admin_unique d"
    and "\<And>x. usr_userId (change x) = usr_userId x \<and> usr_orgId (change x) = usr_orgId x"
    and "active_admin (mx_orgId ctx) u \<Longrightarrow> active_admin (mx_orgId ctx) (change u) \<or> other_admin (mx_orgId ctx) i d"
  shows "admin_unique d1 \<and> (has_admin orgId d \<longrightarrow> has_admin orgId d1)"
proof -
  from assms(1) obtain us where m: "member ctx i u" and us: "replaced (ad_users d) u (change u) us" "d1 = d\<lparr>ad_users := us\<rparr>"
    by (auto simp: user_updated_def)
  have "admin_unique d1" using assms(2) replaced_map [OF us(1), of usr_userId] assms(3) by (simp add: us(2) admin_unique_def)
  moreover have "has_admin orgId d1" if h: "has_admin orgId d"
    unfolding us(2)
  proof (rule admin_replaced [OF us(1) h])
    assume a: "active_admin orgId u"
    then have o: "orgId = mx_orgId ctx" using m by (auto simp: active_admin_def member_def)
    with a assms(4) m show "active_admin orgId (change u) \<or> (\<exists>v \<in> set (ad_users d). active_admin orgId v \<and> v \<noteq> u)"
      by (auto simp: other_admin_def member_def)
  qed
  ultimately show ?thesis by blast
qed

lemma changes_keep_ids:
  "usr_userId (role_change role u) = usr_userId u \<and> usr_orgId (role_change role u) = usr_orgId u"
  "usr_userId (team_change t u) = usr_userId u \<and> usr_orgId (team_change t u) = usr_orgId u"
  "usr_userId (status_change st u) = usr_userId u \<and> usr_orgId (status_change st u) = usr_orgId u"
  by (simp_all add: role_change_def team_change_def status_change_def)

text \<open>Steps that leave the users alone.\<close>

definition users_kept :: "admin_store \<Rightarrow> admin_store \<Rightarrow> bool" where
  "users_kept d d' \<longleftrightarrow> ad_users d' = ad_users d \<and> (admin_unique d \<longrightarrow> admin_unique d')"

lemma users_kept_trans: "users_kept d d1 \<Longrightarrow> users_kept d1 d2 \<Longrightarrow> users_kept d d2"
  by (simp add: users_kept_def)

lemma users_kept_steps:
  "users_kept d d"
  "logged ctx action rt ri md d d' \<Longrightarrow> users_kept d d'"
  "logged_if b ctx action rt ri md d d' \<Longrightarrow> users_kept d d'"
  "sessions_revoked ctx i now k d d' \<Longrightarrow> users_kept d d'"
  by (auto simp: users_kept_def logged_def logged_if_def sessions_revoked_def admin_unique_def split: if_splits)

lemma organisation_kept:
  assumes "organisation_updated ctx change g d d'" and "\<forall>x. og_orgId (change x) = og_orgId x"
  shows "users_kept d d'"
  using assms replaced_map [of "ad_organisations d" g "change g" _ og_orgId]
  by (auto simp: users_kept_def organisation_updated_def admin_unique_def)

lemma alert_kept:
  "replaced (ad_alerts d) x (alert_change y t x) xs \<Longrightarrow> users_kept d (d\<lparr>ad_alerts := xs\<rparr>)"
  using replaced_map [of "ad_alerts d" x "alert_change y t x" xs aa_alertId]
  by (auto simp: users_kept_def admin_unique_def alert_change_def)

lemma kept_admin: "users_kept d d' \<Longrightarrow> admin_unique d \<Longrightarrow> admin_unique d' \<and> (has_admin orgId d \<longrightarrow> has_admin orgId d')"
  by (simp add: users_kept_def has_admin_def)

lemma effect_keeps_admin:
  assumes "mutation_effect ctx m d d' a" and unique: "admin_unique d" and typed: "\<And>i. m \<noteq> ChangeStatus i user_INVITED"
  shows "admin_unique d' \<and> (has_admin orgId d \<longrightarrow> has_admin orgId d')"
proof (cases m)
  case (ChangeRole i role)
  with assms(1) obtain u d1 where e: "user_updated ctx i (role_change role) u d d1"
    "active_admin (mx_orgId ctx) u \<and> role \<noteq> ORG_ADMIN \<longrightarrow> other_admin (mx_orgId ctx) i d" "users_kept d1 d'"
    using users_kept_steps(2) by (simp only: mutation_effect.simps) blast
  have "admin_unique d1 \<and> (has_admin orgId d \<longrightarrow> has_admin orgId d1)"
    by (rule user_updated_keeps [OF e(1) unique changes_keep_ids(1)]) (use e(2) in \<open>auto simp: active_admin_def role_change_def\<close>)
  then show ?thesis using kept_admin [OF e(3)] by blast
next
  case (ChangeTeam i teamId)
  with assms(1) obtain u d1 where e: "user_updated ctx i (team_change teamId) u d d1" "users_kept d1 d'"
    using users_kept_steps(2) by (simp only: mutation_effect.simps) blast
  have "admin_unique d1 \<and> (has_admin orgId d \<longrightarrow> has_admin orgId d1)"
    by (rule user_updated_keeps [OF e(1) unique changes_keep_ids(2)]) (auto simp: active_admin_def team_change_def)
  then show ?thesis using kept_admin [OF e(2)] by blast
next
  case (ChangeStatus i status)
  with assms(1) obtain u d1 d2 k now where e: "user_updated ctx i (status_change status) u d d1"
    "active_admin (mx_orgId ctx) u \<and> status = user_DISABLED \<longrightarrow> other_admin (mx_orgId ctx) i d"
    "if status = user_DISABLED then sessions_revoked ctx i now k d1 d2 else d2 = d1 \<and> k = 0" "users_kept d2 d'"
    using users_kept_steps(2) by (simp only: mutation_effect.simps) blast
  have "users_kept d1 d2" using e(3) users_kept_steps(1,4) by (auto split: if_splits)
  then have k: "users_kept d1 d'" using e(4) by (rule users_kept_trans)
  have "admin_unique d1 \<and> (has_admin orgId d \<longrightarrow> has_admin orgId d1)"
    by (rule user_updated_keeps [OF e(1) unique changes_keep_ids(3)]) (use e(2) ChangeStatus typed [of i] in \<open>cases status; auto simp: active_admin_def status_change_def\<close>)
  then show ?thesis using kept_admin [OF k] by blast
next
  case (RevokeSessions i)
  with assms(1) obtain d1 k now where "sessions_revoked ctx i now k d d1" "users_kept d1 d'"
    using users_kept_steps(2) by (simp only: mutation_effect.simps) blast
  then have "users_kept d d'" using users_kept_steps(4) users_kept_trans by blast
  then show ?thesis using kept_admin unique by blast
next
  case (UpdatePolicy patch)
  have id: "\<forall>g. og_orgId (policy_change patch g) = og_orgId g" by (simp add: policy_change_def)
  from UpdatePolicy assms(1) obtain g d1 d2 where "organisation_updated ctx (policy_change patch) g d d1" "users_kept d1 d2" "users_kept d2 d'"
    using users_kept_steps(3) by (simp only: mutation_effect.simps) blast
  then have "users_kept d d'" using organisation_kept [OF _ id] users_kept_trans by blast
  then show ?thesis using kept_admin unique by blast
next
  case (UpdateRetention mode)
  have id: "\<forall>g. og_orgId (retention_change mode g) = og_orgId g" by (simp add: retention_change_def)
  from UpdateRetention assms(1) obtain g d1 where "organisation_updated ctx (retention_change mode) g d d1" "users_kept d1 d'"
    using users_kept_steps(2) by (simp only: mutation_effect.simps) blast
  then have "users_kept d d'" using organisation_kept [OF _ id] users_kept_trans by blast
  then show ?thesis using kept_admin unique by blast
next
  case (ResolveAlert i resolved)
  with assms(1) obtain x xs d1 t action md where "replaced (ad_alerts d) x (alert_change resolved t x) xs" "d1 = d\<lparr>ad_alerts := xs\<rparr>"
    and l: "logged ctx action res_ALERT i md d1 d'"
    by (simp only: mutation_effect.simps) blast
  then have "users_kept d d1" using alert_kept by simp
  then have "users_kept d d'" using users_kept_steps(2) [OF l] by (rule users_kept_trans)
  then show ?thesis using kept_admin unique by blast
qed

lemma mutation_settles:
  assumes laws: "admin_laws V" and unique: "admin_unique (am_data V s)"
  shows "settles V (run_mutation V ctx m) s (\<lambda>d' a. mutation_effect ctx m (am_data V s) d' a) (mutation_refused ctx m (am_data V s))"
proof (cases m)
  case (UpdateRetention mode)
  have t: "settles V (withAuditedTransaction V (retention_operation V ctx mode)) s
      (\<lambda>d' a. mutation_effect ctx m (am_data V s) d' a) (mutation_refused ctx m (am_data V s))"
    using audited_transaction [OF laws retention_operation_effect [OF laws unique]] unfolding UpdateRetention .
  show ?thesis
  proof (cases "mode = ENCRYPTED_STORAGE \<and> \<not> am_encryptionReady V s")
    case True
    then show ?thesis
      by (simp add: settles_def UpdateRetention updateOrganisationRetention_def act_bind_def act_read_def act_throw_def)
  next
    case False
    then have "run_mutation V ctx m s = withAuditedTransaction V (retention_operation V ctx mode) s"
      by (auto simp: UpdateRetention updateOrganisationRetention_def act_bind_def act_read_def)
    then show ?thesis using t unfolding settles_def by simp
  qed
qed (simp_all only: run_mutation.simps changeUserRole_def changeUserTeam_def changeUserStatus_def revokeUserSessions_def
    updateOrganisationPolicy_def updateAlertResolution_def
    audited_transaction [OF laws role_operation_effect [OF laws unique]]
    audited_transaction [OF laws team_operation_effect [OF laws unique]]
    audited_transaction [OF laws status_operation_effect [OF laws unique]]
    audited_transaction [OF laws sessions_operation_effect [OF laws]]
    audited_transaction [OF laws policy_operation_effect [OF laws unique]]
    audited_transaction [OF laws alert_operation_effect [OF laws unique]])

text \<open>A patch of the policy whose result is not a valid organisation (a block threshold that does not exceed
  the mask threshold, say) changes nothing, but its error is the one of an outage: the error of the
  validation is not an application error, and the transaction replaces it.\<close>

lemma invalid_policy_as_outage:
  assumes "admin_laws V" and "admin_unique (am_data V s)" and "run_mutation V ctx (UpdatePolicy patch) s = (r, s')"
    and "g \<in> set (ad_organisations (am_data V s))" "og_orgId g = mx_orgId ctx" "\<not> organisation_valid (policy_change patch g)"
  shows "\<exists>e. r = Inl e \<and> \<not> reported_error e \<and> am_data V s' = am_data V s"
proof -
  have no: "\<not> mutation_effect ctx (UpdatePolicy patch) (am_data V s) d a" for d a
  proof
    assume "mutation_effect ctx (UpdatePolicy patch) (am_data V s) d a"
    then obtain x d1 where x: "organisation_updated ctx (policy_change patch) x (am_data V s) d1" by (simp only: mutation_effect.simps) blast
    then have "x = g" using assms(2,4,5) distinct_key [of og_orgId "ad_organisations (am_data V s)" x g]
      by (auto simp: organisation_updated_def admin_unique_def dest: replaced_in)
    with x assms(6) show False by (simp add: organisation_updated_def)
  qed
  have "\<not> mutation_refused ctx (UpdatePolicy patch) (am_data V s) e" for e using assms(4,5) by auto
  with mutation_settles [OF assms(1,2), unfolded settles_def, rule_format, OF assms(3)] no show ?thesis
    by (cases r) (simp_all del: mutation_effect.simps mutation_refused.simps, blast)
qed


section \<open>Witness\<close>

text \<open>An administration in memory; a transaction that fails takes everything back.\<close>

type_synonym admin_world = "admin_store \<times> nat"

definition mem_admin_auth :: "admin_world auth_env" where
  "mem_admin_auth = \<lparr>
     au_organisations = mem_collection organisation_valid organisation_unique (\<lambda>w. ad_organisations (fst w))
       (\<lambda>f w. ((fst w)\<lparr>ad_organisations := f (ad_organisations (fst w))\<rparr>, snd w)),
     au_users = mem_collection user_valid user_unique (\<lambda>w. ad_users (fst w)) (\<lambda>f w. ((fst w)\<lparr>ad_users := f (ad_users (fst w))\<rparr>, snd w)),
     au_tokens = mem_collection refresh_token_valid refresh_token_unique (\<lambda>w. ad_tokens (fst w))
       (\<lambda>f w. ((fst w)\<lparr>ad_tokens := f (ad_tokens (fst w))\<rparr>, snd w)),
     au_updateManyTokens = (\<lambda>p f w. (Inr (), ((fst w)\<lparr>ad_tokens := map (\<lambda>t. if p t then f t else t) (ad_tokens (fst w))\<rparr>, snd w))),
     au_now = (\<lambda>w. int (snd w)),
     au_randomUUID = (\<lambda>w. (demo_uuid (snd w), (fst w, Suc (snd w)))),
     au_randomBytes = (\<lambda>k w. (replicate k (snd w mod 256), (fst w, Suc (snd w)))),
     au_sha256Hex = demo_digest, au_normalizeNFC = (\<lambda>s. s), au_argon2Verify = (\<lambda>h c w. (Inr True, w)),
     au_sign = (\<lambda>c w. (Inr [116], w)), au_appendAudit = (\<lambda>e q w. (Inr (), w)),
     au_refreshTokenTtlDays = 7, au_accessTokenTtlMinutes = 15\<rparr>"

definition mem_admin :: "admin_world admin" where
  "mem_admin = \<lparr>
     am_auth = mem_admin_auth, am_schema = any_strings,
     am_teams = mem_collection (\<lambda>_. True) (\<lambda>_. True) (\<lambda>w. ad_teams (fst w)) (\<lambda>f w. ((fst w)\<lparr>ad_teams := f (ad_teams (fst w))\<rparr>, snd w)),
     am_alerts = mem_collection (\<lambda>_. True) (\<lambda>_. True) (\<lambda>w. ad_alerts (fst w)) (\<lambda>f w. ((fst w)\<lparr>ad_alerts := f (ad_alerts (fst w))\<rparr>, snd w)),
     am_audits = mem_collection audit_log_valid audit_log_unique (\<lambda>w. ad_audits (fst w))
       (\<lambda>f w. ((fst w)\<lparr>ad_audits := f (ad_audits (fst w))\<rparr>, snd w)),
     am_revokeMany = (\<lambda>p f w. (Inr (length (filter p (ad_tokens (fst w)))),
       ((fst w)\<lparr>ad_tokens := map (\<lambda>t. if p t then f t else t) (ad_tokens (fst w))\<rparr>, snd w))),
     am_startSession = act_ret (),
     am_transaction = (\<lambda>m w. case m w of (Inr x, w') \<Rightarrow> (Inr (Some x), w') | (Inl e, w') \<Rightarrow> (Inl e, w)),
     am_endSession = act_ret (), am_countAudit = (\<lambda>_ w. w), am_encryptionReady = (\<lambda>_. True)\<rparr>"

lemma mem_admin_data: "am_data mem_admin w = fst w"
  by (cases "fst w") (simp add: am_data_def mem_admin_def mem_admin_auth_def mem_collection_def)

lemma mem_admin_laws: "admin_laws mem_admin"
proof -
  have c: "collection_laws organisation_valid organisation_unique (au_organisations (am_auth mem_admin))"
    "collection_laws user_valid user_unique (au_users (am_auth mem_admin))"
    "collection_laws (\<lambda>_. True) (\<lambda>_. True) (am_teams mem_admin)" "collection_laws (\<lambda>_. True) (\<lambda>_. True) (am_alerts mem_admin)"
    "collection_laws audit_log_valid audit_log_unique (am_audits mem_admin)"
    unfolding mem_admin_def mem_admin_auth_def auth_env.simps admin_env.simps by (rule mem_collection_laws; simp)+
  have "revoke_many_law mem_admin" unfolding revoke_many_law_def mem_admin_data by (simp add: mem_admin_def)
  moreover have "admin_transaction_law mem_admin"
    unfolding admin_transaction_law_def mem_admin_data Let_def
    by (auto simp: mem_admin_def split: prod.splits sum.splits)
  moreover have "admin_frames mem_admin"
    unfolding admin_frames_def leaves_def mem_admin_data
    by (simp add: mem_admin_def mem_admin_auth_def mem_collection_def unreported_def)
  ultimately show ?thesis using c by (simp add: admin_laws_def collection_laws_def)
qed

definition admin_ctx :: AdminMutationContext where
  "admin_ctx = \<lparr>mx_orgId = demo_uuid 1, mx_actorId = demo_uuid 0, mx_actorRole = ORG_ADMIN, mx_requestId = ''r'',
     mx_ipAddress = None, mx_userAgent = None\<rparr>"

definition admin_world :: admin_world where
  "admin_world = (\<lparr>ad_organisations = [demo_organisation], ad_users = [demo_admin], ad_tokens = [demo_token], ad_teams = [],
     ad_alerts = [], ad_audits = []\<rparr>, 0)"

lemma admin_world_laws: "admin_unique (am_data mem_admin admin_world)"
  by (simp add: mem_admin_data admin_world_def admin_unique_def)

lemma mem_admin_fields:
  "au_now mem_admin_auth w = int (snd w)" "au_randomUUID mem_admin_auth w = (demo_uuid (snd w), (fst w, Suc (snd w)))"
  "am_auth mem_admin = mem_admin_auth" "am_schema mem_admin = any_strings"
  "am_startSession mem_admin = act_ret ()" "am_endSession mem_admin = act_ret ()"
  "am_transaction mem_admin m w = (case m w of (Inr x, w') \<Rightarrow> (Inr (Some x), w') | (Inl e, w') \<Rightarrow> (Inl e, w))"
  "am_countAudit mem_admin k w = w"
  "am_revokeMany mem_admin p f w = (Inr (length (filter p (ad_tokens (fst w)))),
       ((fst w)\<lparr>ad_tokens := map (\<lambda>t. if p t then f t else t) (ad_tokens (fst w))\<rparr>, snd w))"
  by (simp_all add: mem_admin_def mem_admin_auth_def)

lemma mem_admin_found:
  "lockOrganisation mem_admin (demo_uuid 1) admin_world = (Inr (), admin_world)"
  "requireUser mem_admin (demo_uuid 1) (demo_uuid 2) admin_world = (Inr demo_admin, admin_world)"
  by (simp_all add: lockOrganisation_def requireUser_def findUserByOrgIdAndUserId_def act_bind_apply mem_admin_fields mem_admin_auth_def
      mem_collection_def admin_world_def demo_organisation_def demo_admin_def demo_user_def del: One_nat_def)

lemma mem_last_admin:
  "changeUserRole mem_admin admin_ctx (demo_uuid 2) EMPLOYEE admin_world = (Inl last_admin, admin_world)"
proof -
  have n: "cl_count (au_users mem_admin_auth) (\<lambda>u. active_admin (demo_uuid 1) u \<and> usr_userId u \<noteq> demo_uuid 2) admin_world = (Inr 0, admin_world)"
    by (simp add: mem_admin_auth_def mem_collection_def admin_world_def demo_admin_def demo_user_def)
  have u: "usr_role demo_admin = ORG_ADMIN" "usr_status demo_admin = user_ACTIVE" by (simp_all add: demo_admin_def demo_user_def)
  have "role_operation mem_admin admin_ctx (demo_uuid 2) EMPLOYEE admin_world = (Inl last_admin, admin_world)"
    by (simp add: role_operation_def act_then_apply act_bind_apply admin_ctx_def mem_admin_found u assertAnotherActiveAdmin_def
        mem_admin_fields n del: One_nat_def)
  then show ?thesis
    by (simp add: changeUserRole_def withAuditedTransaction_def act_then_apply act_bind_apply act_finally_apply act_catch_apply mem_admin_fields
        reported_error_def last_admin_def admin_conflict_def app_exn_def app_error_def)
qed

lemma utf8_length_bound: "utf8_length s \<le> 4 * length s"
proof -
  have "utf8_width c \<le> 4" for c by (simp add: utf8_width_def)
  then have "sum_list (map utf8_width cs) \<le> 4 * length cs" for cs by (induction cs) (simp_all add: add_mono)
  moreover have "length (code_points s) \<le> length s" by (induction s rule: code_points.induct) auto
  ultimately show ?thesis unfolding utf8_length_def by (meson mult_le_mono2 order_trans)
qed

lemma json_quote_length: "length (json_quote s) \<le> 2 + 6 * length s"
proof -
  have u: "length (escape_unit u) \<le> 6" for u by (simp add: escape_unit_def unicode_escape_def)
  have "length (escape_units s) \<le> 6 * length s"
  proof (induction s rule: escape_units.induct)
    case (3 u v s)
    show ?case
    proof (cases "is_high u \<and> is_low v")
      case True
      then show ?thesis using 3(1) by simp
    next
      case False
      then have e: "escape_units (u # v # s) = escape_unit u @ escape_units (v # s)" by (simp only: escape_units.simps if_False)
      show ?thesis unfolding e length_append using 3(2) [OF False] u [of u] by simp
    qed
  qed (use u in simp_all)
  then show ?thesis by (simp add: json_quote_def)
qed

lemma mem_sessions_revoked:
  "\<exists>w. revokeUserSessions mem_admin admin_ctx (demo_uuid 2) admin_world = (Inr (AnswerSessions (demo_uuid 2) 1 0), w)"
proof -
  let ?w = "((fst admin_world)\<lparr>ad_tokens := [demo_token\<lparr>rt_revokedAt := Some 0\<rparr>]\<rparr>, 0 :: nat)"
  let ?md = "JObj [(js_lit ''revokedSessionCount'', JInt 1)]"
  have now: "au_now mem_admin_auth admin_world = 0" by (simp add: mem_admin_fields admin_world_def)
  have r: "revokeSessions mem_admin (demo_uuid 1) (demo_uuid 2) 0 admin_world = (Inr 1, ?w)"
    by (simp add: revokeSessions_def mem_admin_fields admin_world_def live_session_of_def demo_token_def)
  have "length (json_quote (js_lit ''revokedSessionCount'')) \<le> 2 + 6 * 19"
    using json_quote_length [of "js_lit ''revokedSessionCount''"] by (simp add: js_lit_def)
  moreover have "int_text 1 = [49]" by (simp add: int_text_def nat_digits.simps)
  ultimately have len: "utf8_length (json_text no_fraction ?md) \<le> 8192"
    by (intro order_trans [OF utf8_length_bound]) simp
  then have md: "buildSafeAuditMetadata any_strings user_sessions_revoked ?md = Inr ?md"
    by (simp add: buildSafeAuditMetadata_def strictObject_def sessionsSchema_def int_from_def is_safe_integer_def MAX_SAFE_INTEGER_def)
  let ?input = "admin_audit admin_ctx user_sessions_revoked res_USER (demo_uuid 2) ?md"
  let ?l = "NewAuditLog.extend ?input (AuditLog.fields (demo_uuid 0) 1)"
  have "length (demo_uuid 2) \<le> 120" by (simp add: demo_uuid_def)
  then have "audit_log_valid ?l"
    using len by (simp add: audit_log_valid_def admin_audit_def admin_ctx_def demo_uuid_valid opt_ok_def NewAuditLog.extend_def AuditLog.fields_def
        del: One_nat_def json_text.simps)
  then have c: "\<exists>w. cl_create (am_audits mem_admin) [?l] (fst ?w, Suc 0) = (Inr (), w)"
    by (simp add: mem_admin_def mem_collection_def admin_world_def audit_log_unique_def)
  have m: "sessions_metadata 1 = ?md" by (simp add: sessions_metadata_def audit_object_def)
  have i: "na_action ?input = user_sessions_revoked" "na_metadata ?input = ?md" "?input\<lparr>na_metadata := ?md\<rparr> = ?input"
    by (simp_all add: admin_audit_def)
  have "\<exists>w. append_audit_log mem_admin ?input ?w = (Inr (), w)"
    using c by (simp add: append_audit_log_def act_bind_apply draw_def act_read_def of_sum_def mem_admin_fields i md)
  then have "\<exists>w. appendAdminAudit mem_admin admin_ctx user_sessions_revoked res_USER (demo_uuid 2) (sessions_metadata 1) ?w = (Inr (), w)"
    by (auto simp: appendAdminAudit_def appendAudit_def act_bind_apply act_catch_apply act_then_apply act_modify_def of_sum_def mem_admin_fields m md simp del: One_nat_def)
  then obtain w where w: "appendAdminAudit mem_admin admin_ctx user_sessions_revoked res_USER (demo_uuid 2) (sessions_metadata 1) ?w = (Inr (), w)" ..
  have o: "mx_orgId admin_ctx = demo_uuid 1" by (simp add: admin_ctx_def)
  have "sessions_operation mem_admin admin_ctx (demo_uuid 2) admin_world = (Inr (AnswerSessions (demo_uuid 2) 1 0), w)"
    by (simp add: sessions_operation_def act_then_apply act_bind_apply act_read_def o mem_admin_found mem_admin_fields(3) now r w del: One_nat_def)
  then show ?thesis
    by (simp add: revokeUserSessions_def withAuditedTransaction_def act_then_apply act_bind_apply act_finally_apply act_catch_apply
        mem_admin_fields(5-7) del: One_nat_def)
qed


end
