(* ===== verification/Spec2Isabelle.thy ===== *)
theory Spec2Isabelle
  imports ChatClient Messages BillingRollups AuthSessions AuthController AdminProperties
begin

text \<open>
  Verification of the backend of ProxyAi, a policy proxy between the users of an organisation and
  language model providers, and of the browser's reader of its chat streams.

  \<^bold>\<open>The program.\<close> A user logs in (\<^verbatim>\<open>src/backend/src/features/auth\<close>) and gets a short-lived access
  token and a refresh token in a cookie. Every other request is authenticated against the stored
  user and organisation, and authorized by permissions. A chat request (\<^verbatim>\<open>features/chat\<close>) passes
  the rate limits, reserves its request id (\<^verbatim>\<open>shared/idempotency\<close>), is scanned for personal data
  (\<^verbatim>\<open>features/pii\<close>), scored and judged by the policy of the organisation (\<^verbatim>\<open>features/policy\<close>), and
  then is blocked, or sent, as it is or masked, to the providers in their order of preference, with
  retries and a circuit breaker (\<^verbatim>\<open>features/providers\<close>). The answer is streamed as server-sent
  events to the browser (\<^verbatim>\<open>src/frontend/src/features/chat\<close>), its usage is accounted
  (\<^verbatim>\<open>features/billing\<close>), and the pair of messages is stored, encrypted when the organisation says so
  (\<^verbatim>\<open>features/messages\<close>, \<^verbatim>\<open>features/conversations\<close>, \<^verbatim>\<open>shared/security\<close>).

  \<^bold>\<open>How code becomes definitions.\<close> A function of the source is a definition of the same name. An
  \<^verbatim>\<open>async\<close> function is an action (\<open>Prelude\<close>): a function of the world to a value or an exception and
  a new world; \<^verbatim>\<open>try\<close>, \<^verbatim>\<open>catch\<close> and \<^verbatim>\<open>finally\<close> are combinators. Classes and closures are records of
  their variables. What is not in the repository (Redis, MongoDB, Argon2, AES-GCM, SHA-256, the
  verification of signatures, Unicode tables, the clock, random numbers, the network) is a record
  of functions that a definition takes as an argument, and its documented behaviour is a named
  predicate (\<open>redis_laws\<close>, \<open>counter_laws\<close>, \<open>collection_laws\<close>, \<open>transaction_laws\<close>, \<open>crypto_laws\<close>,
  \<open>schema_laws\<close>, \<open>billing_laws\<close>, \<open>auth_laws\<close>, \<open>jwt_law\<close>, \<open>admin_laws\<close>). Every
  property that assumes such laws has a witness with a concrete instance. Operations of
  services may fail at any time; other requests may change the world while an action awaits.

  \<^bold>\<open>Foundations.\<close>
  \<^item> \<open>Prelude\<close>: strings as UTF-16 code units, numbers, actions, list lemmas. \<open>ActionLogic\<close>: weakest
    preconditions of actions, total correctness.
  \<^item> \<open>JsRegex\<close>: the matcher of ECMAScript regular expressions with backtracking order. \<open>Encoding\<close>: UTF-8 and
    base64url. \<open>Json\<close>: \<^verbatim>\<open>JSON.stringify\<close> and \<^verbatim>\<open>JSON.parse\<close>, inverse to each other. \<open>IsoDate\<close>: calendar dates.
  \<^item> \<open>Pagination\<close>: keyset pagination as the locale \<open>keyset\<close>, interpreted for conversations.
    \<open>Store\<close>: collections and transactions of the document database.

  \<^bold>\<open>Providers.\<close> \<open>ProviderTypes\<close> (\<^verbatim>\<open>provider.types.ts\<close>, \<^verbatim>\<open>provider-metrics.ts\<close>, \<^verbatim>\<open>app-error.ts\<close>),
  \<open>ProviderRetry\<close> (\<^verbatim>\<open>provider-retry.policy.ts\<close>: at most the allowed attempts, the first final outcome
  decides), \<open>CircuitBreaker\<close> (\<^verbatim>\<open>provider-circuit-breaker.ts\<close>, with the interleavings of concurrent
  calls as a step relation and its invariant), \<open>ProviderAdapters\<close> (the interface as the locale
  \<open>provider_adapter\<close>, interpreted on the fake adapter, and the capability registry),
  \<open>ProviderFallback\<close> (\<^verbatim>\<open>provider-fallback.ts\<close>, completions and the stream generator as a state machine: once
  a chunk was handed out the provider stays), \<open>MetricLabels\<close> (the label part of \<^verbatim>\<open>metrics.ts\<close>).

  \<^bold>\<open>Personal data and policy.\<close> \<open>PiiDetector\<close> (\<^verbatim>\<open>pii-detector.ts\<close>: what is reported was matched, and what
  matches is covered or overlaps something of higher precedence), \<open>PiiRisk\<close>
  (\<^verbatim>\<open>pii-classifier.ts\<close>, \<^verbatim>\<open>pii-risk-scorer.ts\<close>, against a reference score), \<open>PiiMasking\<close>
  (\<^verbatim>\<open>pii-masker.ts\<close>, \<^verbatim>\<open>pii-prompt-processor.ts\<close>, against left-to-right redaction), \<open>Policy\<close> (the
  evaluators against a decision table).

  \<^bold>\<open>Chat.\<close> \<open>ChatContext\<close> (history and product facts), \<open>ChatMetrics\<close>, \<open>Jobs\<close> (payloads of queues),
  \<open>RateLimit\<close> (\<^verbatim>\<open>chat-control.service.ts\<close>, \<^verbatim>\<open>login-rate-limit.service.ts\<close>), \<open>Idempotency\<close> (with its
  Lua scripts and the interleavings of many requests), \<open>ChatService\<close> (\<^verbatim>\<open>chat.service.ts\<close>, with a
  ghost trace of the calls to its dependencies). \<open>ChatTrace\<close> describes the traces of the parts,
  \<open>ChatProtocol\<close> is the abstract machine that \<open>prepareChatStream\<close> refines, and \<open>ChatProperties\<close>
  draws the properties from the machine. \<open>Sse\<close> is the writer and the browser's reader of events with
  their round trip, \<open>ChatController\<close> the endpoint, \<open>ChatStream\<close> and \<open>ChatEndpoint\<close> its
  properties, \<open>ChatClient\<close> the browser's generator and the composition of the two.

  \<^bold>\<open>Stored content.\<close> \<open>Encryption\<close> (\<^verbatim>\<open>encryption.ts\<close>, the locale \<open>field_protection\<close>), \<open>Cursors\<close> (the three
  cursor modules), \<open>Conversations\<close> and \<open>Messages\<close> (models, repositories and services; the pair of
  messages of a request is stored once and recalled as it was). \<open>on_store\<close> of \<open>Conversations\<close>,
  which runs a database operation inside a larger world, also serves \<open>ChatController\<close> and \<open>AuthController\<close>.

  \<^bold>\<open>Accounting.\<close> \<open>BillingPeriod\<close> and \<open>Billing\<close> (\<^verbatim>\<open>features/billing\<close> without the queue),
  \<open>BillingProperties\<close> (the budget follows from the request log; a job takes effect once),
  \<open>BillingRollups\<close> (the rollup under interleaved readers and writers).

  \<^bold>\<open>Sessions and access.\<close> \<open>Accounts\<close> (models, repository, passwords, token material), \<open>AuthService\<close> (\<^verbatim>\<open>auth.service.ts\<close>:
  login, refresh, logout), \<open>AuthLaws\<close> (the laws of its parameters), \<open>LoginProperties\<close>,
  \<open>RefreshProperties\<close> and \<open>AuthProperties\<close> (contracts of the three, and a database in memory for the
  witnesses), \<open>AuthSessions\<close> (the same operations of many requests interleaved, one database
  operation at a time: at most one unused token per family), \<open>Access\<close> (verification of access
  tokens, the middleware, the table of administration routes), \<open>AccessProperties\<close> (a handler runs only for an
  active account that has the permission now; the public demo changes nothing), \<open>AuthController\<close> (the
  handlers and their cookies).

  \<^bold>\<open>Administration.\<close> \<open>AuditRecords\<close> (\<^verbatim>\<open>features/audit\<close>: records, the schemas of their metadata, audited
  transactions), \<open>AdminMutations\<close> (\<^verbatim>\<open>admin.mutation.service.ts\<close>), \<open>AdminLaws\<close> (the laws of collections
  and transactions, and a logic of triples for the bodies of transactions), \<open>AdminProperties\<close> (each of
  the seven mutations implements its specification, change and audit record together or not at all; an
  organisation keeps an active administrator). Two mutations that run at the same time are left to the isolation
  of the database.

  \<^bold>\<open>Fuel and bounds.\<close> \<open>parse_json\<close> gets the length of the text as fuel, which is enough because every
  nested call starts behind a consumed unit. The loop of the endpoint over the chunks of a provider has
  fuel because the provider decides when its stream ends; \<open>stream_terminates\<close> shows that a provider
  that ends after \<open>n\<close> chunks needs no more than that. Other loops are structural, or functions with a
  termination proof. Token counts are integers with the checks of the source for the safe range.

  \<^bold>\<open>Not modelled.\<close> Log lines, and the HTTP server, router and body parser of Express. Metrics other than
  the labels and the calls that update them. The administration's reads and exports
  (aggregations of the database that are passed on). The workers for analytics, anomalies
  and provider health, and the library behind their queues: they do not take part in a chat
  request. The adapter of the remote provider, which translates HTTP responses of a service; \<open>provider_adapter\<close>
  states what the chat pipeline expects of any adapter. Startup, shutdown, configuration, scripts, and the pages of the
  frontend and the landing site, which render what the interfaces above deliver. The list of components of the
  project manifest gives the reason for each.
\<close>

end
